(* ===== verification/Prelude.thy ===== *)
theory Prelude
  imports Main
begin

text \<open>
  Shared vocabulary of the development: the named theorem collections, the JavaScript array
  operations that several components use (\<open>slice(-n)\<close>, \<open>push\<close> followed by \<open>shift\<close>,
  an index read that yields \<open>undefined\<close> past the end, splitting a list into blocks) and their
  generic lemmas.
\<close>

named_theorems js_bits \<open>evaluation of the JavaScript 32-bit operators on mathematical integers\<close>
named_theorems proto_defs \<open>constants of the serial protocols\<close>
named_theorems dom_simps \<open>reads and writes of the page elements\<close>
named_theorems poll_defs \<open>operations of the polling controllers\<close>

subsection \<open>Array reads and windows\<close>

text \<open>\<open>xs[i]\<close> for a non-negative index: \<open>undefined\<close> (here \<open>None\<close>) past the end.\<close>

fun js_at :: "'a list \<Rightarrow> nat \<Rightarrow> 'a option" where
  "js_at [] i = None"
| "js_at (x # xs) i = (case i of 0 \<Rightarrow> Some x | Suc j \<Rightarrow> js_at xs j)"

lemma js_at_nth: "js_at xs i = (if i < length xs then Some (xs ! i) else None)"
  by (induction xs i rule: js_at.induct) (auto split: nat.splits)

lemma js_at_append: "js_at (xs @ ys) i =
    (if i < length xs then js_at xs i else js_at ys (i - length xs))"
  by (auto simp: js_at_nth nth_append)

text \<open>\<open>xs.slice(-n)\<close> for a positive \<open>n\<close>: the last \<open>n\<close> elements, all of them when there are fewer.\<close>

definition last_n :: "nat \<Rightarrow> 'a list \<Rightarrow> 'a list" where
  "last_n n xs = drop (length xs - n) xs"

lemma length_last_n [simp]: "length (last_n n xs) = min n (length xs)"
  by (simp add: last_n_def)

lemma last_n_all [simp]: "length xs \<le> n \<Longrightarrow> last_n n xs = xs"
  by (simp add: last_n_def)

lemma last_n_last_n: "last_n n (last_n m xs) = last_n (min n m) xs"
  by (cases "length xs \<le> m"; cases "n \<le> m") (auto simp: last_n_def min_def)

lemma last_n_snoc: "0 < n \<Longrightarrow> last_n n (last_n n xs @ [x]) = last_n n (xs @ [x])"
  by (cases "length xs < n") (auto simp: last_n_def Suc_diff_le)

lemma set_last_n: "set (last_n n xs) \<subseteq> set xs"
  by (simp add: last_n_def set_drop_subset)

text \<open>\<open>a.push(v); if (a.length > N) a.shift();\<close>\<close>

definition push_shift :: "nat \<Rightarrow> 'a list \<Rightarrow> 'a \<Rightarrow> 'a list" where
  "push_shift N a v = (let a' = a @ [v] in if N < length a' then tl a' else a')"

lemma push_shift_eq: "length a \<le> N \<Longrightarrow> push_shift N a v = last_n N (a @ [v])"
  by (cases "length a = N")
    (simp_all add: push_shift_def last_n_def Let_def drop_Suc del: drop_append)

lemma push_shift_length: "length a \<le> N \<Longrightarrow> length (push_shift N a v) \<le> N"
  by (simp add: push_shift_eq)

lemma foldl_push_shift:
  assumes "0 < N" and "length a \<le> N"
  shows "foldl (push_shift N) a vs = last_n N (a @ vs)"
proof (induction vs rule: rev_induct)
  case Nil
  with assms show ?case by simp
next
  case (snoc v vs)
  have "length (last_n N (a @ vs)) \<le> N" by simp
  then show ?case
    using snoc last_n_snoc [OF assms(1), of "a @ vs" v] by (simp add: push_shift_eq)
qed

subsection \<open>Blocks of a list\<close>

text \<open>\<open>for (i = 0; i < xs.length; i += n) out.push(xs.slice(i, i + n))\<close>\<close>

function blocks :: "nat \<Rightarrow> 'a list \<Rightarrow> 'a list list" where
  "blocks n xs = (if n = 0 \<or> xs = [] then [] else take n xs # blocks n (drop n xs))"
  by pat_completeness auto
termination
  by (relation "measure (\<lambda>(n, xs). length xs)") auto

declare blocks.simps [simp del]

lemma blocks_Nil [simp]: "blocks n [] = []"
  by (simp add: blocks.simps)

lemma blocks_step: "0 < n \<Longrightarrow> xs \<noteq> [] \<Longrightarrow> blocks n xs = take n xs # blocks n (drop n xs)"
  by (simp add: blocks.simps [of n xs])

lemma concat_blocks: "0 < n \<Longrightarrow> concat (blocks n xs) = xs"
proof (induction n xs rule: blocks.induct)
  case (1 n xs)
  then show ?case by (cases "xs = []") (simp_all add: blocks_step)
qed

lemma blocks_bound: "b \<in> set (blocks n xs) \<Longrightarrow> b \<noteq> [] \<and> length b \<le> n"
proof (induction n xs rule: blocks.induct)
  case (1 n xs)
  then show ?case by (cases "n = 0 \<or> xs = []") (auto simp: blocks.simps [of n xs])
qed

lemma length_blocks: "0 < n \<Longrightarrow> length (blocks n xs) = (length xs + n - 1) div n"
proof (induction n xs rule: blocks.induct)
  case (1 n xs)
  show ?case
  proof (cases "xs = []")
    case True
    with "1.prems" show ?thesis by simp
  next
    case False
    with 1 have IH: "length (blocks n (drop n xs)) = (length (drop n xs) + n - 1) div n" by simp
    have "(length (drop n xs) + n - 1) div n + 1 = (length xs + n - 1) div n"
    proof (cases "length xs \<le> n")
      case True
      with False "1.prems" have "length xs + n - 1 = n + (length xs - 1)" and "length xs - 1 < n"
        by (auto simp: neq_Nil_conv)
      then have "(length xs + n - 1) div n = 1" using "1.prems" by (simp add: div_nat_eqI)
      with True "1.prems" show ?thesis by simp
    next
      case False
      then have "length xs + n - 1 = (length xs - n + n - 1) + n" by simp
      then have "(length xs + n - 1) div n = (length xs - n + n - 1) div n + 1"
        using "1.prems" by (metis div_add_self2 less_not_refl)
      then show ?thesis by simp
    qed
    with IH False "1.prems" show ?thesis by (simp add: blocks_step)
  qed
qed

subsection \<open>Consumers of a chunked stream\<close>

text \<open>
  A serial reader and an audio worklet both receive their input in chunks whose boundaries mean
  nothing. The interface: feeding an empty chunk does nothing, and feeding \<open>xs @ ys\<close> is feeding
  \<open>xs\<close> and then \<open>ys\<close>. The client's fact: any chunking gives the same final state and the same
  output.
\<close>

fun feed_chunks :: "('s \<Rightarrow> 'a list \<Rightarrow> 's \<times> 'o list) \<Rightarrow> 's \<Rightarrow> 'a list list \<Rightarrow> 's \<times> 'o list" where
  "feed_chunks feed s [] = (s, [])"
| "feed_chunks feed s (c # cs) =
     (let (s', out) = feed s c; (s'', out') = feed_chunks feed s' cs in (s'', out @ out'))"

locale chunk_consumer =
  fixes feed :: "'s \<Rightarrow> 'a list \<Rightarrow> 's \<times> 'o list"
  assumes feed_nil: "feed s [] = (s, [])"
    and feed_append: "feed s (xs @ ys) =
      (let (s', out) = feed s xs; (s'', out') = feed s' ys in (s'', out @ out'))"
begin

lemma feed_chunks_concat: "feed_chunks feed s cs = feed s (concat cs)"
  by (induction cs arbitrary: s) (simp_all add: feed_nil feed_append)

lemma feed_chunking_irrelevant:
  "concat cs = concat ds \<Longrightarrow> feed_chunks feed s cs = feed_chunks feed s ds"
  by (simp add: feed_chunks_concat)

end

text \<open>The usual provider: a consumer that handles one element at a time.\<close>

fun run_step :: "('s \<Rightarrow> 'a \<Rightarrow> 's \<times> 'o list) \<Rightarrow> 's \<Rightarrow> 'a list \<Rightarrow> 's \<times> 'o list" where
  "run_step f s [] = (s, [])"
| "run_step f s (x # xs) =
     (let (s', out) = f s x; (s'', out') = run_step f s' xs in (s'', out @ out'))"

lemma run_step_append: "run_step f s (xs @ ys) =
    (let (s', out) = run_step f s xs; (s'', out') = run_step f s' ys in (s'', out @ out'))"
  by (induction xs arbitrary: s) (auto simp: Let_def split: prod.splits)

interpretation run_step: chunk_consumer "run_step f" for f
  by unfold_locales (simp_all add: run_step_append)

end
