(* ===== verification/JsInt.thy ===== *)
theory JsInt
  imports Prelude "HOL-Library.Word" "HOL-Library.Signed_Division"
begin

text \<open>
  JavaScript's 32-bit operators on numbers. A number used as an operand is a mathematical integer;
  \<open>i32\<close> is ToInt32 (reduction modulo \<open>2^32\<close>), and the result of an operator is read back as a
  signed number, of \<open>>>>\<close> as an unsigned one. Shift counts are taken modulo 32 as the language does.
  An element store into a \<open>Uint8Array\<close> (ToUint8) is \<open>u8\<close>.
\<close>

unbundle bit_operations_syntax

type_synonym byte = "8 word"

definition i32 :: "int \<Rightarrow> 32 word" where
  "i32 a = word_of_int a"

definition u8 :: "int \<Rightarrow> byte" where
  "u8 a = word_of_int a"

definition js_and :: "int \<Rightarrow> int \<Rightarrow> int" where
  "js_and a b = sint (i32 a AND i32 b)"

definition js_or :: "int \<Rightarrow> int \<Rightarrow> int" where
  "js_or a b = sint (i32 a OR i32 b)"

definition js_xor :: "int \<Rightarrow> int \<Rightarrow> int" where
  "js_xor a b = sint (i32 a XOR i32 b)"

definition js_not :: "int \<Rightarrow> int" where
  "js_not a = sint (NOT (i32 a))"

definition js_shl :: "int \<Rightarrow> nat \<Rightarrow> int" where
  "js_shl a n = sint (push_bit (n mod 32) (i32 a))"

definition js_shr :: "int \<Rightarrow> nat \<Rightarrow> int" where
  "js_shr a n = sint (signed_drop_bit (n mod 32) (i32 a))"

definition js_ushr :: "int \<Rightarrow> nat \<Rightarrow> int" where
  "js_ushr a n = uint (drop_bit (n mod 32) (i32 a))"

lemmas js_op_defs = js_and_def js_or_def js_xor_def js_not_def js_shl_def js_shr_def js_ushr_def

subsection \<open>Reading an operator's result back as a word\<close>

lemma i32_sint [simp]: "i32 (sint (w :: 32 word)) = w"
  by (simp add: i32_def)

lemma i32_uint [simp]: "i32 (uint (w :: 32 word)) = w"
  by (simp add: i32_def)

lemma i32_js_and [js_bits]: "i32 (js_and a b) = i32 a AND i32 b"
  by (simp add: js_and_def)

lemma i32_js_or [js_bits]: "i32 (js_or a b) = i32 a OR i32 b"
  by (simp add: js_or_def)

lemma i32_js_xor [js_bits]: "i32 (js_xor a b) = i32 a XOR i32 b"
  by (simp add: js_xor_def)

lemma i32_js_not [js_bits]: "i32 (js_not a) = NOT (i32 a)"
  by (simp add: js_not_def)

lemma i32_js_shl [js_bits]: "n < 32 \<Longrightarrow> i32 (js_shl a n) = push_bit n (i32 a)"
  by (simp add: js_shl_def)

lemma i32_js_shr [js_bits]: "n < 32 \<Longrightarrow> i32 (js_shr a n) = signed_drop_bit n (i32 a)"
  by (simp add: js_shr_def)

lemma i32_js_ushr [js_bits]: "n < 32 \<Longrightarrow> i32 (js_ushr a n) = drop_bit n (i32 a)"
  by (simp add: js_ushr_def)

lemma i32_add [js_bits]: "i32 (a + b) = i32 a + i32 b"
  by (simp add: i32_def)

lemma i32_numeral [simp]: "i32 (numeral k) = numeral k" "i32 0 = 0" "i32 1 = 1"
  by (simp_all add: i32_def)

lemma u8_sint: "u8 (sint (w :: 32 word)) = ucast w"
  by (rule bit_word_eqI) (auto simp: u8_def bit_simps)

lemma u8_i32: "u8 a = ucast (i32 a)"
  by (rule bit_word_eqI) (auto simp: u8_def i32_def bit_simps)

lemma u8_uint_byte [simp]: "u8 (uint (b :: byte)) = b"
  by (simp add: u8_def)

lemma i32_uint_byte: "i32 (uint (b :: byte)) = ucast b"
  by (simp add: i32_def)

subsection \<open>Operators on small operands\<close>

text \<open>Masking with \<open>2^k - 1\<close> is reduction modulo \<open>2^k\<close>, for negative operands too.\<close>

lemma js_and_mask: "k < 32 \<Longrightarrow> js_and a (2 ^ k - 1) = a mod 2 ^ k"
proof -
  assume k: "k < 32"
  have "i32 a AND i32 (2 ^ k - 1) = i32 (take_bit k a)"
    by (rule bit_word_eqI) (auto simp: i32_def bit_simps simp flip: mask_eq_exp_minus_1)
  moreover have "sint (i32 (take_bit k a)) = take_bit k a"
    using k by (intro bit_eqI) (auto simp: i32_def bit_simps)
  ultimately show ?thesis by (simp add: js_and_def take_bit_eq_mod)
qed

lemma js_and_0xFF [js_bits]: "js_and a 0xFF = a mod 256"
  using js_and_mask [of 8 a] by simp

lemma js_and_0xF [js_bits]: "js_and a 0xF = a mod 16"
  using js_and_mask [of 4 a] by simp

lemma js_and_0xFFFF [js_bits]: "js_and a 0xFFFF = a mod 65536"
  using js_and_mask [of 16 a] by simp

text \<open>A right shift of a number in the signed 32-bit range is division rounding down.\<close>

lemma sint_i32: "- (2 ^ 31) \<le> a \<Longrightarrow> a < 2 ^ 31 \<Longrightarrow> sint (i32 a) = a"
  by (simp add: i32_def signed_of_int signed_take_bit_int_eq_self)

lemma js_shr_div: "- (2 ^ 31) \<le> a \<Longrightarrow> a < 2 ^ 31 \<Longrightarrow> n < 32 \<Longrightarrow> js_shr a n = a div 2 ^ n"
proof -
  assume "- (2 ^ 31) \<le> a" "a < 2 ^ 31" and n: "n < 32"
  then have a: "sint (i32 a) = a" by (rule_tac sint_i32)
  have "sint (signed_drop_bit n (i32 a)) = drop_bit n (sint (i32 a))"
    by (simp add: sint_signed_drop_bit_eq)
  with a n show ?thesis by (simp add: js_shr_def drop_bit_eq_div)
qed

lemma js_ushr_div: "0 \<le> a \<Longrightarrow> a < 2 ^ 32 \<Longrightarrow> n < 32 \<Longrightarrow> js_ushr a n = a div 2 ^ n"
proof -
  assume "0 \<le> a" "a < 2 ^ 32" and n: "n < 32"
  then have a: "uint (i32 a) = a" by (simp add: i32_def unsigned_of_int take_bit_int_eq_self)
  have "uint (drop_bit n (i32 a)) = drop_bit n (uint (i32 a))"
    by (rule bit_eqI) (auto simp: bit_simps dest: bit_imp_le_length)
  with a n show ?thesis by (simp add: js_ushr_def drop_bit_eq_div)
qed

text \<open>Masks and byte stores as truncations of the word.\<close>

lemma i32_and_mask: "i32 (js_and a (2 ^ k - 1)) = take_bit k (i32 a)" if "k < 32"
  by (rule bit_word_eqI) (auto simp: js_and_def i32_def bit_simps simp flip: mask_eq_exp_minus_1)

lemma i32_and_0xFF: "i32 (js_and a 0xFF) = take_bit 8 (i32 a)"
  using i32_and_mask [of 8 a] by simp

lemma i32_and_0xF: "i32 (js_and a 0xF) = take_bit 4 (i32 a)"
  using i32_and_mask [of 4 a] by simp

lemma ucast_u8: "ucast (u8 n) = take_bit 8 (i32 n)"
  by (rule bit_word_eqI) (auto simp: u8_i32 bit_simps)

text \<open>Joining a low field and a shifted high field is addition.\<close>

lemma js_shl_mult: "0 \<le> b \<Longrightarrow> b * 2 ^ k < 2 ^ 31 \<Longrightarrow> k < 32 \<Longrightarrow> js_shl b k = b * 2 ^ k"
proof -
  assume b: "0 \<le> b" "b * 2 ^ k < 2 ^ 31" and k: "k < 32"
  have "push_bit k (i32 b) = i32 (b * 2 ^ k)"
    by (simp add: i32_def push_bit_eq_mult)
  moreover have "0 \<le> b * 2 ^ k" using b(1) by simp
  ultimately show ?thesis
    using b(2) k sint_i32 [of "b * 2 ^ k"] by (simp add: js_shl_def)
qed

lemma i32_or: "i32 (a OR b) = i32 a OR i32 b"
  by (rule bit_word_eqI) (auto simp: i32_def bit_simps)

lemma i32_not: "i32 (NOT a) = NOT (i32 a)"
  by (rule bit_word_eqI) (auto simp: i32_def bit_simps)

lemma js_or_fields:
  assumes "0 \<le> a" and "a < 2 ^ k" and "0 \<le> b" and "b * 2 ^ k + a < 2 ^ 31" and "k < 32"
  shows "js_or a (js_shl b k) = a + b * 2 ^ k"
proof -
  have ab: "b * 2 ^ k < 2 ^ 31" using assms by linarith
  have t: "take_bit k a = a" using assms(1,2) by (simp add: take_bit_int_eq_self)
  have "a AND push_bit k b = take_bit k a AND push_bit k b" by (simp add: t)
  also have "\<dots> = 0" by (rule bit_eqI) (auto simp: bit_simps)
  finally have "a OR push_bit k b = a + push_bit k b" by (simp add: disjunctive_add_eq_or)
  then have or: "a OR b * 2 ^ k = a + b * 2 ^ k" by (simp add: push_bit_eq_mult)
  have "js_or a (js_shl b k) = sint (i32 (a OR b * 2 ^ k))"
    using assms(3,5) ab by (simp add: js_or_def js_shl_mult i32_or)
  also have "\<dots> = a OR b * 2 ^ k"
  proof (rule sint_i32)
    have "0 \<le> a + b * 2 ^ k" using assms(1,3) by simp
    then show "- (2 ^ 31) \<le> a OR b * 2 ^ k" by (simp add: or)
    show "a OR b * 2 ^ k < 2 ^ 31" using assms(4) by (simp add: or)
  qed
  finally show ?thesis by (simp add: or)
qed

lemma js_or_fields':
  assumes "0 \<le> a" and "a < 2 ^ k" and "0 \<le> b" and "b * 2 ^ k + a < 2 ^ 31" and "k < 32"
  shows "js_or (js_shl b k) a = a + b * 2 ^ k"
  using js_or_fields [OF assms] by (simp add: js_or_def or.commute)

end
