(* ===== verification/Kiss.thy ===== *)
theory Kiss
  imports JsInt
begin

text \<open>
  The KISS framing of the RNode flasher (\<open>rnode-flasher/js/rnode.js\<close>): the frame encoder
  \<open>createKissFrame\<close>, the decoder \<open>decodeKissFrame\<close>, and the byte loop \<open>readLoop\<close> that cuts the
  serial stream into frames. The encoder works on JavaScript numbers and stores them into a
  \<open>Uint8Array\<close> only at the end, so it takes integers; the decoder and the loop see bytes.
  Two interfaces are stated as locales: a byte-stuffing code and a consumer of a chunked stream.
\<close>

subsection \<open>Constants\<close>

definition KISS_FEND :: int where [proto_defs]: "KISS_FEND = 0xC0"
definition KISS_FESC :: int where [proto_defs]: "KISS_FESC = 0xDB"
definition KISS_TFEND :: int where [proto_defs]: "KISS_TFEND = 0xDC"
definition KISS_TFESC :: int where [proto_defs]: "KISS_TFESC = 0xDD"

abbreviation fend :: byte where "fend \<equiv> 0xC0"

subsection \<open>Frames\<close>

text \<open>\<open>byte === this.KISS_TFEND\<close> and the like compare the number held by the byte.\<close>

definition is_byte :: "byte \<Rightarrow> int \<Rightarrow> bool" where
  "is_byte b n \<longleftrightarrow> uint b = n"

fun decodeKissFrame_loop :: "byte list \<Rightarrow> bool \<Rightarrow> byte list \<Rightarrow> byte list option" where
  "decodeKissFrame_loop data escaping [] = (if escaping then None else Some data)"
| "decodeKissFrame_loop data escaping (b # frame) =
     (if escaping then
        if is_byte b KISS_TFEND then decodeKissFrame_loop (data @ [u8 KISS_FEND]) False frame
        else if is_byte b KISS_TFESC then decodeKissFrame_loop (data @ [u8 KISS_FESC]) False frame
        else None
      else if is_byte b KISS_FESC then decodeKissFrame_loop data True frame
      else decodeKissFrame_loop (data @ [b]) False frame)"

definition decodeKissFrame :: "byte list \<Rightarrow> byte list option" where
  "decodeKissFrame frame = decodeKissFrame_loop [] False frame"

text \<open>The numbers the encoder pushes for one element of its argument.\<close>

definition kiss_push :: "int list \<Rightarrow> int \<Rightarrow> int list" where
  "kiss_push frame b =
     (if b = KISS_FEND then frame @ [KISS_FESC, KISS_TFEND]
      else if b = KISS_FESC then frame @ [KISS_FESC, KISS_TFESC]
      else frame @ [b])"

definition createKissFrame :: "int list \<Rightarrow> byte list" where
  "createKissFrame data = map u8 (foldl kiss_push [KISS_FEND] data @ [KISS_FEND])"

subsection \<open>The read loop\<close>

record reader =
  buffer :: "byte list"
  inFrame :: bool

datatype reader_event = FrameReceived "byte list" | InvalidFrame

definition init_reader :: reader where
  "init_reader = \<lparr>buffer = [], inFrame = False\<rparr>"

definition read_byte :: "reader \<Rightarrow> byte \<Rightarrow> reader \<times> reader_event list" where
  "read_byte r b =
     (if is_byte b KISS_FEND then
        if inFrame r then
          (r\<lparr>buffer := [], inFrame := False\<rparr>,
           [case decodeKissFrame (buffer r) of Some d \<Rightarrow> FrameReceived d | None \<Rightarrow> InvalidFrame])
        else (r\<lparr>inFrame := True\<rparr>, [])
      else if inFrame r then (r\<lparr>buffer := buffer r @ [b]\<rparr>, [])
      else (r, []))"

text \<open>\<open>for (const byte of value) ...\<close> over one chunk.\<close>

fun read_chunk :: "reader \<Rightarrow> byte list \<Rightarrow> reader \<times> reader_event list" where
  "read_chunk r [] = (r, [])"
| "read_chunk r (b # bs) =
     (let (r', out) = read_byte r b; (r'', out') = read_chunk r' bs in (r'', out @ out'))"

text \<open>
  What \<open>await this.reader.read()\<close> can answer, and how the loop ends: the stream is done, the
  reader's lock was released under it (a \<open>TypeError\<close>, ignored), or another error (logged). In all
  three cases the \<open>finally\<close> block releases the lock; \<open>LoopWaiting\<close> is a loop still suspended in
  \<open>read()\<close>.
\<close>

datatype read_result = Chunk "byte list" | Done | ReadTypeError | ReadError
datatype loop_end = LoopWaiting | LoopDone | LoopReleased | LoopError

fun readLoop :: "reader \<Rightarrow> read_result list \<Rightarrow> reader \<times> reader_event list \<times> loop_end" where
  "readLoop r [] = (r, [], LoopWaiting)"
| "readLoop r (Done # _) = (r, [], LoopDone)"
| "readLoop r (ReadTypeError # _) = (r, [], LoopReleased)"
| "readLoop r (ReadError # _) = (r, [], LoopError)"
| "readLoop r (Chunk bs # rs) =
     (let (r', out) = read_chunk r bs; (r'', out', e) = readLoop r' rs in (r'', out @ out', e))"

lemma read_chunk_run_step: "read_chunk r bs = run_step read_byte r bs"
  by (induction bs arbitrary: r) simp_all

interpretation read: chunk_consumer read_chunk
  by unfold_locales (simp_all add: read_chunk_run_step run_step_append)

text \<open>A loop that has only seen chunks has read their concatenation.\<close>

lemma readLoop_chunks: "readLoop r (map Chunk cs) =
    (let (r', out) = read_chunk r (concat cs) in (r', out, LoopWaiting))"
proof -
  have "readLoop r (map Chunk cs) =
      (let (r', out) = feed_chunks read_chunk r cs in (r', out, LoopWaiting))"
    by (induction cs arbitrary: r) (auto simp: Let_def split: prod.splits)
  then show ?thesis by (simp add: read.feed_chunks_concat)
qed

subsection \<open>The encoder escapes and the decoder undoes it\<close>

definition kiss_escape :: "byte list \<Rightarrow> byte list" where
  "kiss_escape d = concat (map (\<lambda>b. if b = 0xC0 then [0xDB, 0xDC] else if b = 0xDB then [0xDB, 0xDD] else [b]) d)"

lemma uint_byte_eq: "0 \<le> n \<Longrightarrow> n < 256 \<Longrightarrow> uint (b :: byte) = n \<longleftrightarrow> b = word_of_int n"
proof -
  assume "0 \<le> n" "n < 256"
  then have "uint (word_of_int n :: byte) = n"
    by (simp add: unsigned_of_int take_bit_int_eq_self)
  then show ?thesis by (metis word_uint_eq_iff)
qed

lemma is_byte_const [simp]:
  "is_byte b KISS_FEND \<longleftrightarrow> b = 0xC0" "is_byte b KISS_FESC \<longleftrightarrow> b = 0xDB"
  "is_byte b KISS_TFEND \<longleftrightarrow> b = 0xDC" "is_byte b KISS_TFESC \<longleftrightarrow> b = 0xDD"
  by (simp_all add: is_byte_def proto_defs uint_byte_eq)

lemma u8_const [simp]:
  "u8 KISS_FEND = 0xC0" "u8 KISS_FESC = 0xDB" "u8 KISS_TFEND = 0xDC" "u8 KISS_TFESC = 0xDD"
  by (simp_all add: proto_defs u8_def)

lemma foldl_kiss_push: "map u8 (foldl kiss_push acc (map uint d)) = map u8 acc @ kiss_escape d"
proof (induction d arbitrary: acc)
  case Nil
  then show ?case by (simp add: kiss_escape_def)
next
  case (Cons b d)
  have "map u8 (kiss_push acc (uint b)) = map u8 acc @ kiss_escape [b]"
    by (simp add: kiss_push_def kiss_escape_def flip: is_byte_def)
  moreover have "kiss_escape (b # d) = kiss_escape [b] @ kiss_escape d"
    by (simp add: kiss_escape_def)
  ultimately show ?case using Cons.IH by simp
qed

lemma createKissFrame_bytes: "createKissFrame (map uint d) = fend # kiss_escape d @ [fend]"
  by (simp add: createKissFrame_def foldl_kiss_push)

lemma decode_escape_loop: "decodeKissFrame_loop acc False (kiss_escape d @ rest) =
    decodeKissFrame_loop (acc @ d) False rest"
  by (induction d arbitrary: acc) (simp_all add: kiss_escape_def)

lemma decode_escape: "decodeKissFrame (kiss_escape d) = Some d"
  using decode_escape_loop [of "[]" d "[]"] by (simp add: decodeKissFrame_def)

lemma fend_notin_escape: "fend \<notin> set (kiss_escape d)"
  by (induction d) (auto simp: kiss_escape_def)

subsection \<open>Which numbers the encoder carries\<close>

text \<open>
  The encoder tests the number and stores the byte, so a number is carried when its byte needs no
  escaping or the number itself is the delimiter or the escape.
\<close>

definition carried :: "int \<Rightarrow> bool" where
  "carried n \<longleftrightarrow> (u8 n = 0xC0 \<longrightarrow> n = 0xC0) \<and> (u8 n = 0xDB \<longrightarrow> n = 0xDB)"

lemma carried_byte: "0 \<le> n \<Longrightarrow> n < 256 \<Longrightarrow> carried n"
proof -
  assume n: "0 \<le> n" "n < 256"
  then have "uint (u8 n) = n" by (simp add: u8_def unsigned_of_int take_bit_int_eq_self)
  then show ?thesis by (auto simp: carried_def)
qed

lemma carried_uint [simp]: "carried (uint (b :: byte))"
  by (rule carried_byte) (simp_all add: unsigned_less [of b, simplified])

lemma kiss_push_carried: "carried n \<Longrightarrow> map u8 (kiss_push acc n) = map u8 (kiss_push acc (uint (u8 n)))"
proof -
  assume c: "carried n"
  have "n = 0xC0 \<longleftrightarrow> uint (u8 n) = 0xC0" "n = 0xDB \<longleftrightarrow> uint (u8 n) = 0xDB"
    using c by (auto simp: carried_def u8_def uint_byte_eq)
  then show ?thesis by (auto simp: kiss_push_def proto_defs)
qed

lemma foldl_kiss_push_carried: "list_all carried data \<Longrightarrow>
    map u8 (foldl kiss_push acc data) = map u8 acc @ kiss_escape (map u8 data)"
proof (induction data arbitrary: acc)
  case Nil
  then show ?case by (simp add: kiss_escape_def)
next
  case (Cons n data)
  then have "map u8 (kiss_push acc n) = map u8 acc @ kiss_escape [u8 n]"
    using foldl_kiss_push [of acc "[u8 n]"] kiss_push_carried [of n acc] by simp
  moreover have "kiss_escape (u8 n # map u8 data) = kiss_escape [u8 n] @ kiss_escape (map u8 data)"
    by (simp add: kiss_escape_def)
  ultimately show ?case using Cons by simp
qed

subsection \<open>Byte stuffing as an interface\<close>

text \<open>
  A byte-stuffing code: a delimiter that never occurs in an escaped payload, and a decoder that
  inverts the escaping. A stream of delimited payloads then has only one reading.
\<close>

locale byte_stuffing =
  fixes delim :: byte and escape :: "byte list \<Rightarrow> byte list"
    and unescape :: "byte list \<Rightarrow> byte list option"
  assumes unescape_escape: "unescape (escape d) = Some d"
    and delim_free: "delim \<notin> set (escape d)"
begin

lemma escape_inj: "escape d = escape e \<Longrightarrow> d = e"
  by (metis unescape_escape option.inject)

lemma frame_unique:
  assumes "delim # escape d @ delim # r = delim # escape e @ delim # s"
  shows "d = e \<and> r = s"
proof -
  from assms have eq: "escape d @ delim # r = escape e @ delim # s" by simp
  have "escape d = takeWhile (\<lambda>b. b \<noteq> delim) (escape d @ delim # r)"
    using delim_free [of d] by (subst takeWhile_append2) auto
  moreover have "escape e = takeWhile (\<lambda>b. b \<noteq> delim) (escape e @ delim # s)"
    using delim_free [of e] by (subst takeWhile_append2) auto
  ultimately have "escape d = escape e" using eq by metis
  then show ?thesis using eq escape_inj by auto
qed

end

interpretation kiss: byte_stuffing fend kiss_escape decodeKissFrame
  by unfold_locales (simp_all add: decode_escape fend_notin_escape)

text \<open>
  A reader of such a stream: idle between frames, it skips anything without a delimiter, and a
  delimited payload yields one event. Then a sequence of frames with noise between them is read
  as the sequence of payloads, however it is chunked.
\<close>

locale framed_reader =
  byte_stuffing delim escape unescape + chunk_consumer feed
  for delim :: byte and escape :: "byte list \<Rightarrow> byte list"
    and unescape :: "byte list \<Rightarrow> byte list option"
    and feed :: "'s \<Rightarrow> byte list \<Rightarrow> 's \<times> 'e list" +
  fixes idle :: 's and received :: "byte list \<Rightarrow> 'e"
  assumes feed_noise: "delim \<notin> set n \<Longrightarrow> feed idle n = (idle, [])"
    and feed_body: "delim \<notin> set body \<Longrightarrow> unescape body = Some d \<Longrightarrow>
      feed idle (delim # body @ [delim]) = (idle, [received d])"
begin

lemma feed_frame: "feed idle (delim # escape d @ [delim]) = (idle, [received d])"
  by (rule feed_body) (simp_all add: unescape_escape delim_free)

lemma feed_frames:
  assumes "\<forall>(n, d) \<in> set items. delim \<notin> set n"
  shows "feed idle (concat (map (\<lambda>(n, d). n @ delim # escape d @ [delim]) items)) =
    (idle, map (\<lambda>(n, d). received d) items)"
  using assms
proof (induction items)
  case Nil
  then show ?case by (simp add: feed_nil)
next
  case (Cons item items)
  obtain n d where item: "item = (n, d)" by (cases item)
  with Cons.prems have "feed idle n = (idle, [])" by (simp add: feed_noise)
  then have "feed idle (n @ delim # escape d @ [delim]) = (idle, [received d])"
    by (simp add: feed_append feed_frame)
  with Cons item show ?case
    using feed_append [of idle "n @ delim # escape d @ [delim]"] by simp
qed

lemma feed_chunked_frames:
  assumes "\<forall>(n, d) \<in> set items. delim \<notin> set n"
    and "concat cs = concat (map (\<lambda>(n, d). n @ delim # escape d @ [delim]) items)"
  shows "feed_chunks feed idle cs = (idle, map (\<lambda>(n, d). received d) items)"
  using assms by (simp add: feed_chunks_concat feed_frames)

end

lemma read_chunk_collect:
  "fend \<notin> set body \<Longrightarrow> inFrame r \<Longrightarrow> read_chunk r body = (r\<lparr>buffer := buffer r @ body\<rparr>, [])"
  by (induction body arbitrary: r) (auto simp: read_byte_def Let_def)

lemma read_chunk_skip: "fend \<notin> set n \<Longrightarrow> \<not> inFrame r \<Longrightarrow> read_chunk r n = (r, [])"
  by (induction n) (auto simp: read_byte_def)

lemma read_chunk_body:
  assumes "fend \<notin> set body" and "decodeKissFrame body = Some d"
  shows "read_chunk init_reader (fend # body @ [fend]) = (init_reader, [FrameReceived d])"
  using assms
  by (simp add: init_reader_def read_byte_def read.feed_append read_chunk_collect)

interpretation rx: framed_reader fend kiss_escape decodeKissFrame read_chunk init_reader FrameReceived
proof unfold_locales
  show "fend \<notin> set n \<Longrightarrow> read_chunk init_reader n = (init_reader, [])" for n
    by (rule read_chunk_skip) (simp_all add: init_reader_def)
qed (rule read_chunk_body)

end
