(* ===== verification/RNode.thy ===== *)
theory RNode
  imports Kiss JsStr
begin

text \<open>
  The command session of the class \<open>RNode\<close> (\<open>rnode-flasher/js/rnode.js\<close>). A request stores a
  resolver in \<open>this.callbacks\<close> under its command byte and writes a KISS frame; a received frame
  fires and forgets the resolver of its command byte. Promises are numbered; \<open>settled\<close> holds the
  outcome of those that have one. What the session does to the port is a trace of actions.
  Whether a write to the port succeeds is an argument of each operation.
\<close>

subsection \<open>Commands\<close>

definition CMD_FREQUENCY :: int where [proto_defs]: "CMD_FREQUENCY = 0x01"
definition CMD_BANDWIDTH :: int where [proto_defs]: "CMD_BANDWIDTH = 0x02"
definition CMD_TXPOWER :: int where [proto_defs]: "CMD_TXPOWER = 0x03"
definition CMD_SF :: int where [proto_defs]: "CMD_SF = 0x04"
definition CMD_CR :: int where [proto_defs]: "CMD_CR = 0x05"
definition CMD_RADIO_STATE :: int where [proto_defs]: "CMD_RADIO_STATE = 0x06"
definition CMD_DETECT :: int where [proto_defs]: "CMD_DETECT = 0x08"
definition CMD_STAT_RX :: int where [proto_defs]: "CMD_STAT_RX = 0x21"
definition CMD_STAT_TX :: int where [proto_defs]: "CMD_STAT_TX = 0x22"
definition CMD_STAT_RSSI :: int where [proto_defs]: "CMD_STAT_RSSI = 0x23"
definition CMD_BT_CTRL :: int where [proto_defs]: "CMD_BT_CTRL = 0x46"
definition CMD_BOARD :: int where [proto_defs]: "CMD_BOARD = 0x47"
definition CMD_PLATFORM :: int where [proto_defs]: "CMD_PLATFORM = 0x48"
definition CMD_MCU :: int where [proto_defs]: "CMD_MCU = 0x49"
definition CMD_FW_VERSION :: int where [proto_defs]: "CMD_FW_VERSION = 0x50"
definition CMD_ROM_READ :: int where [proto_defs]: "CMD_ROM_READ = 0x51"
definition CMD_ROM_WRITE :: int where [proto_defs]: "CMD_ROM_WRITE = 0x52"
definition CMD_CONF_SAVE :: int where [proto_defs]: "CMD_CONF_SAVE = 0x53"
definition CMD_CONF_DELETE :: int where [proto_defs]: "CMD_CONF_DELETE = 0x54"
definition CMD_RESET :: int where [proto_defs]: "CMD_RESET = 0x55"
definition CMD_DEV_HASH :: int where [proto_defs]: "CMD_DEV_HASH = 0x56"
definition CMD_FW_HASH :: int where [proto_defs]: "CMD_FW_HASH = 0x58"
definition CMD_UNLOCK_ROM :: int where [proto_defs]: "CMD_UNLOCK_ROM = 0x59"
definition CMD_HASHES :: int where [proto_defs]: "CMD_HASHES = 0x60"
definition CMD_FW_UPD :: int where [proto_defs]: "CMD_FW_UPD = 0x61"
definition CMD_BT_PIN :: int where [proto_defs]: "CMD_BT_PIN = 0x62"
definition CMD_DISP_READ :: int where [proto_defs]: "CMD_DISP_READ = 0x66"
definition CMD_DISP_ROT :: int where [proto_defs]: "CMD_DISP_ROT = 0x67"
definition CMD_DISP_RCND :: int where [proto_defs]: "CMD_DISP_RCND = 0x68"

definition CMD_RESET_BYTE :: int where [proto_defs]: "CMD_RESET_BYTE = 0xF8"
definition ROM_UNLOCK_BYTE :: int where [proto_defs]: "ROM_UNLOCK_BYTE = 0xF8"
definition DETECT_REQ :: int where [proto_defs]: "DETECT_REQ = 0x73"
definition DETECT_RESP :: int where [proto_defs]: "DETECT_RESP = 0x46"
definition RADIO_STATE_OFF :: int where [proto_defs]: "RADIO_STATE_OFF = 0x00"
definition RADIO_STATE_ON :: int where [proto_defs]: "RADIO_STATE_ON = 0x01"
definition HASH_TYPE_TARGET_FIRMWARE :: int where [proto_defs]: "HASH_TYPE_TARGET_FIRMWARE = 0x01"
definition HASH_TYPE_FIRMWARE :: int where [proto_defs]: "HASH_TYPE_FIRMWARE = 0x02"

subsection \<open>Session state\<close>

datatype callback = Resolve nat | PinListener
datatype outcome = Resolved "byte list" | Rejected
datatype act = Write "byte list" | Sleep nat | PinShown int

record rnode =
  callbacks :: "int \<rightharpoonup> callback"
  settled :: "nat \<rightharpoonup> outcome"
  next_promise :: nat
  acts :: "act list"

definition init_rnode :: rnode where
  "init_rnode = \<lparr>callbacks = Map.empty, settled = Map.empty, next_promise = 0, acts = []\<rparr>"

datatype serial_error = WriteFailed

definition emit :: "act \<Rightarrow> rnode \<Rightarrow> rnode" where
  "emit a s = s\<lparr>acts := acts s @ [a]\<rparr>"

definition sendKissCommand :: "bool \<Rightarrow> int list \<Rightarrow> rnode \<Rightarrow> rnode \<times> serial_error option" where
  "sendKissCommand ok data s =
     (if ok then (emit (Write (createKissFrame data)) s, None) else (s, Some WriteFailed))"

text \<open>A promise settles once: a later \<open>resolve\<close> or \<open>reject\<close> has no effect.\<close>

definition settle :: "nat \<Rightarrow> outcome \<Rightarrow> rnode \<Rightarrow> rnode" where
  "settle p v s = (if settled s p = None then s\<lparr>settled := (settled s)(p \<mapsto> v)\<rparr> else s)"

definition sendCommand :: "bool \<Rightarrow> int \<Rightarrow> int list \<Rightarrow> rnode \<Rightarrow> rnode \<times> nat" where
  "sendCommand ok command data s =
     (let p = next_promise s;
          s1 = s\<lparr>next_promise := Suc p, callbacks := (callbacks s)(command \<mapsto> Resolve p)\<rparr>
      in case sendKissCommand ok (command # data) s1 of
           (s2, None) \<Rightarrow> (s2, p)
         | (s2, Some _) \<Rightarrow> (settle p Rejected s2, p))"

text \<open>
  \<open>b[0] << 24 | b[1] << 16 | b[2] << 8 | b[3]\<close>: a missing element is \<open>undefined\<close>, which the
  operators read as 0; the result is a signed 32-bit number.
\<close>

definition num_at :: "byte list \<Rightarrow> nat \<Rightarrow> int" where
  "num_at bs i = (case js_at bs i of None \<Rightarrow> 0 | Some b \<Rightarrow> uint b)"

definition be32_at :: "byte list \<Rightarrow> nat \<Rightarrow> int" where
  "be32_at bs i =
     js_or (js_or (js_or (js_shl (num_at bs i) 24) (js_shl (num_at bs (i + 1)) 16))
       (js_shl (num_at bs (i + 2)) 8)) (num_at bs (i + 3))"

text \<open>
  \<open>pinCallback\<close> is the caller's function; the flag says whether it returns. When it throws, the
  error is caught in \<open>onCommandReceived\<close> before the listener is forgotten.
\<close>

definition onCommandReceived :: "(int \<Rightarrow> bool) \<Rightarrow> byte list \<Rightarrow> rnode \<Rightarrow> rnode" where
  "onCommandReceived pinCallback data s =
     (case data of
        [] \<Rightarrow> s
      | c # bytes \<Rightarrow>
          let command = uint c in
          (case callbacks s command of
             None \<Rightarrow> s
           | Some (Resolve p) \<Rightarrow>
               settle p (Resolved bytes) s\<lparr>callbacks := (callbacks s)(command := None)\<rparr>
           | Some PinListener \<Rightarrow>
               let pin = be32_at bytes 0; s1 = emit (PinShown pin) s in
               if pinCallback pin then s1\<lparr>callbacks := (callbacks s)(command := None)\<rparr> else s1))"

definition dispatch_event :: "(int \<Rightarrow> bool) \<Rightarrow> rnode \<Rightarrow> reader_event \<Rightarrow> rnode" where
  "dispatch_event pinCallback s e =
     (case e of FrameReceived d \<Rightarrow> onCommandReceived pinCallback d s | InvalidFrame \<Rightarrow> s)"

definition startBluetoothPairing :: "bool \<Rightarrow> rnode \<Rightarrow> rnode \<times> serial_error option" where
  "startBluetoothPairing ok s =
     sendKissCommand ok [CMD_BT_CTRL, 0x02] (s\<lparr>callbacks := (callbacks s)(CMD_BT_PIN \<mapsto> PinListener)\<rparr>)"

subsection \<open>Requests with a response\<close>

text \<open>
  Each getter sends one command and decodes the response bytes. \<open>const [ x ] = response\<close> yields
  \<open>undefined\<close> on an empty response. A getter is the command, its payload and the decoding, which
  may throw.
\<close>

datatype js_error = TypeErr | SendFailed

record 'a exchange =
  command :: int
  payload :: "int list"
  decode_response :: "byte list \<Rightarrow> js_error + 'a"

definition first_byte :: "byte list \<Rightarrow> js_error + byte option" where
  "first_byte response = Inr (js_at response 0)"

definition all_bytes :: "byte list \<Rightarrow> js_error + byte list" where
  "all_bytes response = Inr response"

definition rest_bytes :: "byte list \<Rightarrow> js_error + byte list" where
  "rest_bytes response = Inr (drop 1 response)"

definition int32_response :: "byte list \<Rightarrow> js_error + int" where
  "int32_response response = Inr (be32_at response 0)"

text \<open>
  \<open>minorVersion.length\<close> is a property of a number, so it is \<open>undefined\<close> and the padding branch is
  never taken; on a missing byte the property read throws.
\<close>

definition number_length :: "byte option \<Rightarrow> js_error + nat option" where
  "number_length v = (case v of None \<Rightarrow> Inl TypeErr | Some _ \<Rightarrow> Inr None)"

definition firmware_version :: "byte list \<Rightarrow> js_error + string" where
  "firmware_version response =
     (let show_byte = (\<lambda>v. case v of None \<Rightarrow> ''undefined'' | Some b \<Rightarrow> show_nat (unat b));
          majorVersion = show_byte (js_at response 0);
          minorVersion = js_at response 1
      in case number_length minorVersion of
           Inl e \<Rightarrow> Inl e
         | Inr n \<Rightarrow>
             let minor = (if n = Some 1 then ''0'' @ show_byte minorVersion else show_byte minorVersion)
             in Inr (majorVersion @ ''.'' @ minor))"

definition getFirmwareVersion :: "string exchange" where
  "getFirmwareVersion = \<lparr>command = CMD_FW_VERSION, payload = [0x00], decode_response = firmware_version\<rparr>"

definition getPlatform :: "byte option exchange" where
  "getPlatform = \<lparr>command = CMD_PLATFORM, payload = [0x00], decode_response = first_byte\<rparr>"

definition getMcu :: "byte option exchange" where
  "getMcu = \<lparr>command = CMD_MCU, payload = [0x00], decode_response = first_byte\<rparr>"

definition getBoard :: "byte option exchange" where
  "getBoard = \<lparr>command = CMD_BOARD, payload = [0x00], decode_response = first_byte\<rparr>"

definition getDeviceHash :: "byte list exchange" where
  "getDeviceHash = \<lparr>command = CMD_DEV_HASH, payload = [0x01], decode_response = all_bytes\<rparr>"

definition getTargetFirmwareHash :: "byte list exchange" where
  "getTargetFirmwareHash = \<lparr>command = CMD_HASHES, payload = [HASH_TYPE_TARGET_FIRMWARE], decode_response = rest_bytes\<rparr>"

definition getFirmwareHash :: "byte list exchange" where
  "getFirmwareHash = \<lparr>command = CMD_HASHES, payload = [HASH_TYPE_FIRMWARE], decode_response = rest_bytes\<rparr>"

definition getRom :: "byte list exchange" where
  "getRom = \<lparr>command = CMD_ROM_READ, payload = [0x00], decode_response = all_bytes\<rparr>"

definition getFrequency :: "int exchange" where
  "getFrequency = \<lparr>command = CMD_FREQUENCY, payload = [0x00, 0x00, 0x00, 0x00], decode_response = int32_response\<rparr>"

definition getBandwidth :: "int exchange" where
  "getBandwidth = \<lparr>command = CMD_BANDWIDTH, payload = [0x00, 0x00, 0x00, 0x00], decode_response = int32_response\<rparr>"

definition getTxPower :: "byte option exchange" where
  "getTxPower = \<lparr>command = CMD_TXPOWER, payload = [0xFF], decode_response = first_byte\<rparr>"

definition getSpreadingFactor :: "byte option exchange" where
  "getSpreadingFactor = \<lparr>command = CMD_SF, payload = [0xFF], decode_response = first_byte\<rparr>"

definition getCodingRate :: "byte option exchange" where
  "getCodingRate = \<lparr>command = CMD_CR, payload = [0xFF], decode_response = first_byte\<rparr>"

definition getRadioState :: "byte option exchange" where
  "getRadioState = \<lparr>command = CMD_RADIO_STATE, payload = [0xFF], decode_response = first_byte\<rparr>"

definition getRxStat :: "int exchange" where
  "getRxStat = \<lparr>command = CMD_STAT_RX, payload = [0x00], decode_response = int32_response\<rparr>"

definition getTxStat :: "int exchange" where
  "getTxStat = \<lparr>command = CMD_STAT_TX, payload = [0x00], decode_response = int32_response\<rparr>"

definition getRssiStat :: "byte option exchange" where
  "getRssiStat = \<lparr>command = CMD_STAT_RSSI, payload = [0x00], decode_response = first_byte\<rparr>"

definition readDisplay :: "byte list exchange" where
  "readDisplay = \<lparr>command = CMD_DISP_READ, payload = [0x01], decode_response = all_bytes\<rparr>"

text \<open>
  The awaiting function: it sends, and once the promise has an outcome it decodes the response or
  throws what the promise was rejected with.
\<close>

definition exchange_send :: "bool \<Rightarrow> 'a exchange \<Rightarrow> rnode \<Rightarrow> rnode \<times> nat" where
  "exchange_send ok e s = sendCommand ok (command e) (payload e) s"

definition exchange_result :: "'a exchange \<Rightarrow> rnode \<Rightarrow> nat \<Rightarrow> (js_error + 'a) option" where
  "exchange_result e s p =
     (case settled s p of
        None \<Rightarrow> None
      | Some (Resolved response) \<Rightarrow> Some (decode_response e response)
      | Some Rejected \<Rightarrow> Some (Inl SendFailed))"

text \<open>
  \<open>detect\<close> races the response against a two-second timer; the first of the three settles it, and a
  response clears the timer.
\<close>

datatype detect_event = DetectTimeout | DetectResponse "byte list" | DetectSendFailed

record detection =
  detect_timer :: bool
  detected :: "bool option"

definition start_detect :: detection where
  "start_detect = \<lparr>detect_timer = True, detected = None\<rparr>"

definition resolve_detect :: "bool \<Rightarrow> detection \<Rightarrow> detection" where
  "resolve_detect v d = (if detected d = None then d\<lparr>detected := Some v\<rparr> else d)"

fun detect :: "detection \<Rightarrow> detect_event \<Rightarrow> detection" where
  "detect d DetectTimeout =
     (if detect_timer d then resolve_detect False (d\<lparr>detect_timer := False\<rparr>) else d)"
| "detect d (DetectResponse response) =
     resolve_detect (map_option uint (js_at response 0) = Some DETECT_RESP) (d\<lparr>detect_timer := False\<rparr>)"
| "detect d DetectSendFailed = resolve_detect False d"

definition detect_request :: "bool \<Rightarrow> rnode \<Rightarrow> rnode \<times> nat" where
  "detect_request ok s = sendCommand ok CMD_DETECT [DETECT_REQ] s"

subsection \<open>Commands without a response\<close>

definition reset :: "bool \<Rightarrow> rnode \<Rightarrow> rnode \<times> serial_error option" where
  "reset ok s = sendKissCommand ok [CMD_RESET, CMD_RESET_BYTE] s"

definition disableBluetooth :: "bool \<Rightarrow> rnode \<Rightarrow> rnode \<times> serial_error option" where
  "disableBluetooth ok s = sendKissCommand ok [CMD_BT_CTRL, 0x00] s"

definition enableBluetooth :: "bool \<Rightarrow> rnode \<Rightarrow> rnode \<times> serial_error option" where
  "enableBluetooth ok s = sendKissCommand ok [CMD_BT_CTRL, 0x01] s"

text \<open>The four bytes of \<open>setFrequency\<close> and \<open>setBandwidth\<close>; the first is not masked.\<close>

definition split_int32 :: "int \<Rightarrow> int list" where
  "split_int32 v =
     [js_shr v 24, js_and (js_shr v 16) 0xFF, js_and (js_shr v 8) 0xFF, js_and v 0xFF]"

definition setFrequency :: "bool \<Rightarrow> int \<Rightarrow> rnode \<Rightarrow> rnode \<times> serial_error option" where
  "setFrequency ok frequencyInHz s = sendKissCommand ok (CMD_FREQUENCY # split_int32 frequencyInHz) s"

definition setBandwidth :: "bool \<Rightarrow> int \<Rightarrow> rnode \<Rightarrow> rnode \<times> serial_error option" where
  "setBandwidth ok bandwidthInHz s = sendKissCommand ok (CMD_BANDWIDTH # split_int32 bandwidthInHz) s"

definition setTxPower :: "bool \<Rightarrow> int \<Rightarrow> rnode \<Rightarrow> rnode \<times> serial_error option" where
  "setTxPower ok db s = sendKissCommand ok [CMD_TXPOWER, db] s"

definition setSpreadingFactor :: "bool \<Rightarrow> int \<Rightarrow> rnode \<Rightarrow> rnode \<times> serial_error option" where
  "setSpreadingFactor ok spreadingFactor s = sendKissCommand ok [CMD_SF, spreadingFactor] s"

definition setCodingRate :: "bool \<Rightarrow> int \<Rightarrow> rnode \<Rightarrow> rnode \<times> serial_error option" where
  "setCodingRate ok codingRate s = sendKissCommand ok [CMD_CR, codingRate] s"

definition setRadioStateOn :: "bool \<Rightarrow> rnode \<Rightarrow> rnode \<times> serial_error option" where
  "setRadioStateOn ok s = sendKissCommand ok [CMD_RADIO_STATE, RADIO_STATE_ON] s"

definition setRadioStateOff :: "bool \<Rightarrow> rnode \<Rightarrow> rnode \<times> serial_error option" where
  "setRadioStateOff ok s = sendKissCommand ok [CMD_RADIO_STATE, RADIO_STATE_OFF] s"

definition saveConfig :: "bool \<Rightarrow> rnode \<Rightarrow> rnode \<times> serial_error option" where
  "saveConfig ok s = sendKissCommand ok [CMD_CONF_SAVE, 0x00] s"

definition deleteConfig :: "bool \<Rightarrow> rnode \<Rightarrow> rnode \<times> serial_error option" where
  "deleteConfig ok s = sendKissCommand ok [CMD_CONF_DELETE, 0x00] s"

definition indicateFirmwareUpdate :: "bool \<Rightarrow> rnode \<Rightarrow> rnode \<times> serial_error option" where
  "indicateFirmwareUpdate ok s = sendKissCommand ok [CMD_FW_UPD, 0x01] s"

definition setFirmwareHash :: "bool \<Rightarrow> int list \<Rightarrow> rnode \<Rightarrow> rnode \<times> serial_error option" where
  "setFirmwareHash ok hash s = sendKissCommand ok (CMD_FW_HASH # hash) s"

definition setDisplayRotation :: "bool \<Rightarrow> int \<Rightarrow> rnode \<Rightarrow> rnode \<times> serial_error option" where
  "setDisplayRotation ok rotation s = sendKissCommand ok [CMD_DISP_ROT, js_and rotation 0xFF] s"

definition startDisplayReconditioning :: "bool \<Rightarrow> rnode \<Rightarrow> rnode \<times> serial_error option" where
  "startDisplayReconditioning ok s = sendKissCommand ok [CMD_DISP_RCND, 0x01] s"

text \<open>The two commands that wait for the device after a successful write.\<close>

definition sleepMillis :: "nat \<Rightarrow> rnode \<times> serial_error option \<Rightarrow> rnode \<times> serial_error option" where
  "sleepMillis ms r = (case r of (s, None) \<Rightarrow> (emit (Sleep ms) s, None) | (s, Some e) \<Rightarrow> (s, Some e))"

definition writeRom :: "bool \<Rightarrow> int \<Rightarrow> int \<Rightarrow> rnode \<Rightarrow> rnode \<times> serial_error option" where
  "writeRom ok address val s = sleepMillis 85 (sendKissCommand ok [CMD_ROM_WRITE, address, val] s)"

definition wipeRom :: "bool \<Rightarrow> rnode \<Rightarrow> rnode \<times> serial_error option" where
  "wipeRom ok s = sleepMillis 30000 (sendKissCommand ok [CMD_UNLOCK_ROM, ROM_UNLOCK_BYTE] s)"

end
