(* ===== verification/Word_Array.thy ===== *)
theory Word_Array
  imports JsInt JsStr
begin

text \<open>
  \<open>WordArray\<close> and the encoders of \<open>crypto-js/core.js\<close>: byte strings kept in 32-bit words, the first
  byte in the high bits. A word is the number the array holds, signed or not. A read past the end of
  the array, or of a hole, is \<open>undefined\<close>, which every operator used here reads as 0; a write past the
  end extends the array. Byte counts are below \<open>2^32\<close>, so \<open>i >>> 2\<close> on an index is division by 4.
\<close>

subsection \<open>Arrays of words\<close>

record word_array =
  wds :: "int list"
  sigBytes :: nat

definition w_at :: "int list \<Rightarrow> nat \<Rightarrow> int" where
  "w_at ws i = (if i < length ws then ws ! i else 0)"

definition w_set :: "int list \<Rightarrow> nat \<Rightarrow> int \<Rightarrow> int list" where
  "w_set ws i v = (if i < length ws then ws[i := v] else ws @ replicate (i - length ws) 0 @ [v])"

text \<open>\<open>new WordArray.init(words, sigBytes)\<close>, the byte count optional.\<close>

definition init_words :: "int list \<Rightarrow> nat option \<Rightarrow> word_array" where
  "init_words ws n = \<lparr>wds = ws, sigBytes = (case n of Some s \<Rightarrow> s | None \<Rightarrow> length ws * 4)\<rparr>"

text \<open>\<open>(words[i >>> 2] >>> (24 - (i % 4) * 8)) & 0xff\<close> and \<open>words[i >>> 2] |= b << (24 - (i % 4) * 8)\<close>\<close>

definition byte_at :: "int list \<Rightarrow> nat \<Rightarrow> int" where
  "byte_at ws i = js_and (js_ushr (w_at ws (i div 4)) (24 - (i mod 4) * 8)) 0xFF"

definition or_byte :: "int list \<Rightarrow> nat \<Rightarrow> int \<Rightarrow> int list" where
  "or_byte ws i b = w_set ws (i div 4) (js_or (w_at ws (i div 4)) (js_shl b (24 - (i mod 4) * 8)))"

text \<open>Setting \<open>length\<close> cuts the array or leaves holes.\<close>

definition set_length :: "int list \<Rightarrow> nat \<Rightarrow> int list" where
  "set_length ws n = take n ws @ replicate (n - length ws) 0"

definition clamp :: "word_array \<Rightarrow> word_array" where
  "clamp a =
     (let s = sigBytes a;
          ws = w_set (wds a) (s div 4) (js_and (w_at (wds a) (s div 4)) (js_shl 0xFFFFFFFF (32 - (s mod 4) * 8)))
      in a\<lparr>wds := set_length ws ((s + 3) div 4)\<rparr>)"

definition concat_words :: "word_array \<Rightarrow> word_array \<Rightarrow> word_array" where
  "concat_words a b =
     (let s = sigBytes a;
          ws = wds (clamp a);
          ws' = (if s mod 4 \<noteq> 0
                 then fold (\<lambda>i ws. or_byte ws (s + i) (byte_at (wds b) i)) [0..<sigBytes b] ws
                 else fold (\<lambda>i ws. w_set ws ((s + i) div 4) (w_at (wds b) (i div 4)))
                        (map (\<lambda>k. 4 * k) [0..<(sigBytes b + 3) div 4]) ws)
      in \<lparr>wds = ws', sigBytes = s + sigBytes b\<rparr>)"

definition clone_words :: "word_array \<Rightarrow> word_array" where
  "clone_words a = a"

subsection \<open>Encoders\<close>

fun show_hex :: "nat \<Rightarrow> string" where
  "show_hex n = (if n < 16 then [digit_char n] else show_hex (n div 16) @ [digit_char (n mod 16)])"

declare show_hex.simps [simp del]

definition hex_stringify :: "word_array \<Rightarrow> string" where
  "hex_stringify a = concat (map (\<lambda>i. let bite = byte_at (wds a) i in
     show_hex (nat (js_ushr bite 4)) @ show_hex (nat (js_and bite 0x0F))) [0..<sigBytes a])"

text \<open>
  \<open>parseInt(s, 16)\<close> of two hexadecimal digits. \<open>None\<close> stands for every other string: the language
  then answers with a prefix or \<open>NaN\<close>, and \<open>parse\<close> with a fractional byte count when the length is
  odd. No caller in the repository passes such a string.
\<close>

definition hex_val :: "char \<Rightarrow> nat option" where
  "hex_val c = (let n = of_char c :: nat in
     if 48 \<le> n \<and> n \<le> 57 then Some (n - 48)
     else if 97 \<le> n \<and> n \<le> 102 then Some (n - 87)
     else if 65 \<le> n \<and> n \<le> 70 then Some (n - 55) else None)"

definition parse_pair :: "char \<Rightarrow> char \<Rightarrow> int option" where
  "parse_pair c d = (case (hex_val c, hex_val d) of
     (Some x, Some y) \<Rightarrow> Some (int (16 * x + y)) | _ \<Rightarrow> None)"

fun hex_parse_loop :: "nat \<Rightarrow> string \<Rightarrow> int list \<Rightarrow> int list option" where
  "hex_parse_loop i [] ws = Some ws"
| "hex_parse_loop i [c] ws = None"
| "hex_parse_loop i (c # d # s) ws = (case parse_pair c d of
     None \<Rightarrow> None
   | Some v \<Rightarrow> hex_parse_loop (i + 2) s
       (w_set ws (i div 8) (js_or (w_at ws (i div 8)) (js_shl v (24 - (i mod 8) * 4)))))"

definition hex_parse :: "string \<Rightarrow> word_array option" where
  "hex_parse s = map_option (\<lambda>ws. init_words ws (Some (length s div 2))) (hex_parse_loop 0 s [])"

definition latin1_stringify :: "word_array \<Rightarrow> string" where
  "latin1_stringify a = map (\<lambda>i. char_of (nat (byte_at (wds a) i))) [0..<sigBytes a]"

definition latin1_parse :: "string \<Rightarrow> word_array" where
  "latin1_parse s = init_words
     (fold (\<lambda>i ws. or_byte ws i (js_and (of_char (s ! i)) 0xFF)) [0..<length s] []) (Some (length s))"

subsection \<open>The bytes an array stands for\<close>

definition wbyte :: "int list \<Rightarrow> nat \<Rightarrow> byte" where
  "wbyte ws i = ucast (drop_bit (24 - (i mod 4) * 8) (i32 (w_at ws (i div 4))))"

text \<open>The array holds exactly the bytes \<open>bs\<close>, and zeros in the rest of its last word.\<close>

definition holds :: "word_array \<Rightarrow> byte list \<Rightarrow> bool" where
  "holds a bs \<longleftrightarrow> sigBytes a = length bs \<and> length (wds a) = (length bs + 3) div 4
     \<and> (\<forall>i. wbyte (wds a) i = (if i < length bs then bs ! i else 0))"

lemma byte_at_wbyte: "byte_at ws i = uint (wbyte ws i)"
proof -
  have n: "24 - i mod 4 * 8 < 32" by simp
  have "byte_at ws i = sint (take_bit 8 (drop_bit (24 - i mod 4 * 8) (i32 (w_at ws (i div 4)))))"
    unfolding byte_at_def by (subst i32_sint [symmetric])
      (metis i32_and_0xFF i32_js_ushr i32_sint js_and_def n)
  also have "\<dots> = uint (wbyte ws i)"
    by (rule bit_eqI) (auto simp: wbyte_def bit_simps)
  finally show ?thesis .
qed

lemma w_at_set: "w_at (w_set ws k v) j = (if j = k then v else w_at ws j)"
  by (auto simp: w_at_def w_set_def nth_append nth_list_update nth_Cons split: nat.splits)

lemma length_w_set: "length (w_set ws k v) = max (length ws) (Suc k)"
  by (auto simp: w_set_def)

lemma wbyte_set: "wbyte (w_set ws k v) i =
    (if i div 4 = k then ucast (drop_bit (24 - (i mod 4) * 8) (i32 v)) else wbyte ws i)"
  by (simp add: wbyte_def w_at_set)

lemma wbyte_beyond: "4 * length ws \<le> i \<Longrightarrow> wbyte ws i = 0"
  by (simp add: wbyte_def w_at_def div_less_iff_less_mult)

lemma field_or:
  assumes "m mod 8 = 0" and "n mod 8 = 0" and "m \<le> 24" and "n \<le> 24"
  shows "(ucast (drop_bit m (x OR push_bit n (ucast (b :: byte)) :: 32 word)) :: byte) =
    (if m = n then ucast (drop_bit m x) OR b else ucast (drop_bit m x))"
proof -
  have "m = n \<or> m + 8 \<le> n \<or> n + 8 \<le> m" using assms by presburger
  then show ?thesis using assms(3,4)
    by (intro bit_word_eqI) (auto simp: bit_simps dest: bit_imp_le_length)
qed

lemma or_byte_wbyte: "wbyte (or_byte ws j (uint b)) i = (if i = j then wbyte ws i OR b else wbyte ws i)"
proof -
  let ?n = "24 - j mod 4 * 8"
  have n: "?n < 32" by simp
  have "i32 (js_or (w_at ws (j div 4)) (js_shl (uint b) ?n)) = i32 (w_at ws (j div 4)) OR push_bit ?n (ucast b)"
    using n by (simp add: js_bits i32_uint_byte)
  moreover have "24 - i mod 4 * 8 = ?n \<longleftrightarrow> i = j" if "i div 4 = j div 4"
  proof -
    have "i mod 4 < 4" "j mod 4 < 4" by simp_all
    then have "24 - i mod 4 * 8 = ?n \<longleftrightarrow> i mod 4 = j mod 4" by arith
    also have "\<dots> \<longleftrightarrow> i = j" using that by (metis mult_div_mod_eq)
    finally show ?thesis .
  qed
  moreover have "(24 - k mod 4 * 8) mod 8 = 0" for k :: nat
  proof -
    have "k mod 4 \<in> {0, 1, 2, 3}" by auto
    then show ?thesis by auto
  qed
  ultimately show ?thesis unfolding or_byte_def wbyte_set
    using field_or [of "24 - i mod 4 * 8" ?n "i32 (w_at ws (j div 4))" b]
    by (auto simp: wbyte_def)
qed

lemma length_or_byte: "length (or_byte ws j b) = max (length ws) (Suc (j div 4))"
  by (simp add: or_byte_def length_w_set)

text \<open>Storing bytes one after another into zeroed places.\<close>

lemma fold_or_byte:
  assumes "\<And>i. n \<le> i \<Longrightarrow> wbyte ws i = 0"
  shows "wbyte (fold (\<lambda>i ws. or_byte ws (n + i) (uint (f i))) [0..<k] ws) i =
    (if n \<le> i \<and> i < n + k then f (i - n) else wbyte ws i)"
  using assms
proof (induction k arbitrary: i)
  case (Suc k)
  then show ?case by (auto simp: or_byte_wbyte not_less le_less_Suc_eq less_Suc_eq)
qed auto

lemma length_fold_or_byte:
  "length (fold (\<lambda>i ws. or_byte ws (n + i) (f i)) [0..<k] ws) =
    (if k = 0 then length ws else max (length ws) (Suc ((n + k - 1) div 4)))"
proof (induction k)
  case (Suc k)
  then show ?case by (cases k) (auto simp: length_or_byte max_def div_le_mono)
qed simp

text \<open>Copying whole words.\<close>

lemma fold_w_set: "w_at (fold (\<lambda>k ws. w_set ws (m + k) (f k)) [0..<n] ws) j =
    (if m \<le> j \<and> j < m + n then f (j - m) else w_at ws j)"
  by (induction n arbitrary: j) (auto simp: w_at_set less_Suc_eq)

lemma length_fold_w_set: "length (fold (\<lambda>k ws. w_set ws (m + k) (f k)) [0..<n] ws) =
    (if n = 0 then length ws else max (length ws) (m + n))"
  by (induction n) (auto simp: length_w_set max_def)

subsection \<open>Clamping and concatenation\<close>

lemma w_at_set_length: "w_at (set_length ws n) j = (if j < n then w_at ws j else 0)"
  by (auto simp: w_at_def set_length_def nth_append)

lemma length_set_length [simp]: "length (set_length ws n) = n"
  by (simp add: set_length_def)

lemma wbyte_set_length: "wbyte (set_length ws n) i = (if i < 4 * n then wbyte ws i else 0)"
proof -
  have "i div 4 < n \<longleftrightarrow> i < 4 * n" by (simp add: div_less_iff_less_mult mult.commute)
  then show ?thesis by (simp add: wbyte_def w_at_set_length)
qed

lemma masked_byte:
  assumes "r < 4" and "q < 4"
  shows "(ucast (drop_bit (24 - q * 8) (i32 (js_and x (js_shl 0xFFFFFFFF (32 - r * 8))))) :: byte) =
    (if r = 0 \<or> q < r then ucast (drop_bit (24 - q * 8) (i32 x)) else 0)"
proof (cases "r = 0")
  case True
  have "i32 (js_and x (js_shl 0xFFFFFFFF 32)) = i32 x"
    by (rule bit_word_eqI) (auto simp: js_and_def js_shl_def i32_def bit_simps)
  with True show ?thesis by simp
next
  case False
  then have n: "32 - r * 8 < 32" by simp
  define M where "M = (- 1 :: 32 word)"
  have m: "(4294967295 :: 32 word) = M" by (simp add: M_def)
  have bm: "bit M j = (j < 32)" for j unfolding M_def by (simp add: bit_simps)
  have "i32 (js_and x (js_shl 0xFFFFFFFF (32 - r * 8))) = i32 x AND push_bit (32 - r * 8) M"
    using n by (simp add: js_bits m)
  moreover have "(ucast (drop_bit (24 - q * 8) (i32 x AND push_bit (32 - r * 8) M :: 32 word)) :: byte) =
      (if q < r then ucast (drop_bit (24 - q * 8) (i32 x)) else 0)"
    using assms False by (intro bit_word_eqI) (auto simp: bit_simps bm)
  ultimately show ?thesis using False by simp
qed

lemma lex4: "b < 4 \<Longrightarrow> d < 4 \<Longrightarrow> 4 * a + b < 4 * c + d \<longleftrightarrow> a < c \<or> (a = c \<and> b < d)" for a b c d :: nat
  by arith

lemma clamp_spec: "length (wds (clamp a)) = (sigBytes a + 3) div 4
    \<and> wbyte (wds (clamp a)) i = (if i < sigBytes a then wbyte (wds a) i else 0)
    \<and> sigBytes (clamp a) = sigBytes a"
proof -
  let ?s = "sigBytes a"
  let ?ws = "w_set (wds a) (?s div 4) (js_and (w_at (wds a) (?s div 4)) (js_shl 0xFFFFFFFF (32 - (?s mod 4) * 8)))"
  have w: "wbyte ?ws i = (if i div 4 = ?s div 4 \<and> ?s mod 4 \<noteq> 0 \<and> \<not> i mod 4 < ?s mod 4 then 0 else wbyte (wds a) i)"
    unfolding wbyte_set by (auto simp: masked_byte wbyte_def)
  have s: "?s = 4 * (?s div 4) + ?s mod 4" and i: "i = 4 * (i div 4) + i mod 4" by simp_all
  have len: "(?s + 3) div 4 = (if ?s mod 4 = 0 then ?s div 4 else Suc (?s div 4))" by presburger
  have lt: "i < ?s \<longleftrightarrow> i div 4 < ?s div 4 \<or> (i div 4 = ?s div 4 \<and> i mod 4 < ?s mod 4)"
    using lex4 [of "i mod 4" "?s mod 4" "i div 4" "?s div 4"] by simp
  have up: "i < 4 * n \<longleftrightarrow> i div 4 < n" for n by (simp add: div_less_iff_less_mult mult.commute)
  have "wbyte (wds (clamp a)) i = (if i < ?s then wbyte (wds a) i else 0)"
    unfolding clamp_def Let_def
    by (simp add: wbyte_set_length w len lt up)
  then show ?thesis by (simp add: clamp_def Let_def)
qed

definition bytes_of :: "word_array \<Rightarrow> byte list" where
  "bytes_of a = map (wbyte (wds a)) [0..<sigBytes a]"

lemma length_bytes_of [simp]: "length (bytes_of a) = sigBytes a"
  by (simp add: bytes_of_def)

lemma nth_bytes_of [simp]: "i < sigBytes a \<Longrightarrow> bytes_of a ! i = wbyte (wds a) i"
  by (simp add: bytes_of_def)

lemma holds_bytes_of: "holds a bs \<Longrightarrow> bytes_of a = bs"
  by (rule nth_equalityI) (simp_all add: holds_def)

lemma ceil4: "(n + 3) div 4 = (if n = 0 then 0 else Suc ((n - 1) div 4))" for n :: nat
  by (cases n) auto

lemma concat_bytewise:
  assumes "length c = (s + 3) div 4" and "\<And>i. wbyte c i = (if i < length as then as ! i else 0)"
    and "length as = s" and "length bs = k"
  shows "holds \<lparr>wds = fold (\<lambda>i ws. or_byte ws (s + i) (uint (bs ! i))) [0..<k] c, sigBytes = s + k\<rparr> (as @ bs)"
proof -
  have "wbyte c i = 0" if "s \<le> i" for i using that assms(2,3) by simp
  then have "wbyte (fold (\<lambda>i ws. or_byte ws (s + i) (uint (bs ! i))) [0..<k] c) i =
      (if s \<le> i \<and> i < s + k then bs ! (i - s) else wbyte c i)" for i
    by (rule fold_or_byte)
  then show ?thesis using assms
    by (auto simp: holds_def length_fold_or_byte nth_append ceil4 max_def dest: div_le_mono)
qed

lemma concat_wordwise:
  assumes c: "length c = s div 4" "\<And>i. wbyte c i = (if i < length as then as ! i else 0)"
    and s: "length as = s" "s mod 4 = 0" and b: "holds b bs" and k: "length bs = k"
  shows "holds \<lparr>wds = fold (\<lambda>i ws. w_set ws (s div 4 + i) (w_at (wds b) i)) [0..<(k + 3) div 4] c,
      sigBytes = s + k\<rparr> (as @ bs)"
proof -
  let ?ws = "fold (\<lambda>i ws. w_set ws (s div 4 + i) (w_at (wds b) i)) [0..<(k + 3) div 4] c"
  have b': "wbyte (wds b) i = (if i < k then bs ! i else 0)" for i using b k by (simp add: holds_def)
  have "wbyte ?ws i = (if i < s + k then (as @ bs) ! i else 0)" for i
  proof (cases "i < s")
    case True
    then have "i div 4 < s div 4" using s(2) by auto
    then have "wbyte ?ws i = wbyte c i" by (simp add: wbyte_def fold_w_set)
    with True c(2) s(1) show ?thesis by (simp add: nth_append)
  next
    case False
    obtain q where q: "s = 4 * q" using s(2) by (metis dvdE mod_0_imp_dvd)
    with False obtain r where "i = 4 * q + r" by (metis le_add_diff_inverse not_less)
    with q have i: "(i - s) mod 4 = i mod 4" "(i - s) div 4 = i div 4 - s div 4" "s div 4 \<le> i div 4" by auto
    have "w_at ?ws (i div 4) = w_at (wds b) ((i - s) div 4)"
    proof (cases "i div 4 < s div 4 + (k + 3) div 4")
      case True
      with i(3) have "s div 4 \<le> i div 4 \<and> i div 4 < s div 4 + (k + 3) div 4" by blast
      then show ?thesis unfolding fold_w_set i(2) by (rule if_P)
    next
      case F: False
      have "length c \<le> i div 4" using c(1) i(3) by simp
      then have "w_at c (i div 4) = 0" by (simp add: w_at_def)
      then have "w_at ?ws (i div 4) = 0" using F by (simp add: fold_w_set)
      moreover have "w_at (wds b) ((i - s) div 4) = 0"
      proof -
        have "(k + 3) div 4 \<le> i div 4 - s div 4" using F i(3) by linarith
        then show ?thesis using i(2) b k by (simp add: w_at_def holds_def)
      qed
      ultimately show ?thesis by simp
    qed
    then have "wbyte ?ws i = wbyte (wds b) (i - s)" by (simp add: wbyte_def i(1))
    with False b' k s(1) show ?thesis by (auto simp: nth_append)
  qed
  moreover have "length ?ws = (s + k + 3) div 4"
  proof -
    have "(s + k + 3) div 4 = s div 4 + (k + 3) div 4"
      using s(2) by (metis add.assoc div_plus_div_distrib_dvd_left mod_0_imp_dvd)
    then show ?thesis using c(1) by (simp add: length_fold_w_set)
  qed
  ultimately show ?thesis using s k by (simp add: holds_def)
qed

lemma concat_holds:
  assumes "holds b bs"
  shows "holds (concat_words a b) (bytes_of a @ bs)"
proof -
  let ?c = "wds (clamp a)" and ?s = "sigBytes a"
  have c: "length ?c = (?s + 3) div 4" "\<And>i. wbyte ?c i = (if i < length (bytes_of a) then bytes_of a ! i else 0)"
    using clamp_spec [of a] by auto
  have k: "sigBytes b = length bs" using assms by (simp add: holds_def)
  have byte: "byte_at (wds b) i = uint (bs ! i)" if "i < length bs" for i
    using assms that by (simp add: holds_def byte_at_wbyte)
  show ?thesis
  proof (cases "?s mod 4 = 0")
    case False
    have "fold (\<lambda>i ws. or_byte ws (?s + i) (byte_at (wds b) i)) [0..<sigBytes b] ?c
        = fold (\<lambda>i ws. or_byte ws (?s + i) (uint (bs ! i))) [0..<length bs] ?c"
      unfolding k by (rule fold_cong) (simp_all add: byte)
    then show ?thesis
      using concat_bytewise [OF c _ refl] False by (simp add: concat_words_def Let_def k)
  next
    case True
    have "(?s + 4 * i) div 4 = ?s div 4 + i" for i by simp
    then have e: "concat_words a b = \<lparr>wds = fold (\<lambda>i ws. w_set ws (?s div 4 + i) (w_at (wds b) i))
        [0..<(length bs + 3) div 4] ?c, sigBytes = ?s + length bs\<rparr>"
      using True by (simp add: concat_words_def Let_def k fold_map comp_def add.commute)
    obtain q where "?s = 4 * q" using True by (metis dvdE mod_0_imp_dvd)
    then have l: "length ?c = ?s div 4" using c(1) by simp
    show ?thesis unfolding e by (rule concat_wordwise [OF l c(2) length_bytes_of True assms refl])
  qed
qed

lemma holds_append_zeros: "holds a bs \<Longrightarrow> i \<ge> length bs \<Longrightarrow> wbyte (wds a) i = 0"
  by (simp add: holds_def)

lemma holds_new: "holds \<lparr>wds = fold (\<lambda>i ws. or_byte ws i (uint (bs ! i))) [0..<length bs] [], sigBytes = length bs\<rparr> bs"
  using concat_bytewise [of "[]" 0 "[]" bs "length bs"] by (simp add: wbyte_beyond)

subsection \<open>Encoders read back what they write\<close>

definition hex2 :: "byte \<Rightarrow> string" where
  "hex2 b = (let n = unat b in [digit_char (n div 16), digit_char (n mod 16)])"

lemma unat_byte: "unat (b :: byte) < 256"
  using unsigned_less [of b, where ?'a = nat] by simp

lemma show_hex_nibble: "n < 16 \<Longrightarrow> show_hex n = [digit_char n]"
  by (simp add: show_hex.simps)

lemma hex2_of_byte: "show_hex (nat (js_ushr (uint b) 4)) @ show_hex (nat (js_and (uint b) 0xF)) = hex2 b"
proof -
  obtain n where n: "n = unat b" by blast
  have u: "uint b = int n" and "n < 256" unfolding n by (simp_all add: unat_byte)
  have "js_ushr (int n) 4 = int (n div 16)"
    using \<open>n < 256\<close> by (subst js_ushr_div) (simp_all add: zdiv_int)
  moreover have "js_and (int n) 0xF = int (n mod 16)"
    using js_and_0xF [of "int n"] by (simp add: zmod_int)
  moreover have "n div 16 < 16" using \<open>n < 256\<close> by simp
  ultimately show ?thesis unfolding u hex2_def n [symmetric] Let_def
    by (simp add: show_hex_nibble)
qed

lemma hex_stringify_bytes: "hex_stringify a = concat (map hex2 (bytes_of a))"
  by (simp only: hex_stringify_def bytes_of_def byte_at_wbyte hex2_of_byte Let_def map_map comp_def)

lemma hex_val_digit: "d < 16 \<Longrightarrow> hex_val (digit_char d) = Some d"
proof -
  assume "d < 16"
  then have "d \<in> set [0..<16]" by simp
  moreover have "list_all (\<lambda>d. hex_val (digit_char d) = Some d) [0..<16]"
    by (simp add: upt_rec hex_val_def digit_char_def)
  ultimately show ?thesis unfolding list_all_iff by blast
qed

lemma parse_pair_hex: "n < 256 \<Longrightarrow> parse_pair (digit_char (n div 16)) (digit_char (n mod 16)) = Some (int n)"
proof -
  assume "n < 256"
  then have "n div 16 < 16" by simp
  moreover have "16 * (n div 16) + n mod 16 = n" by simp
  ultimately show ?thesis by (simp add: parse_pair_def hex_val_digit flip: of_nat_add of_nat_mult)
qed

lemma fold_upt_Suc: "fold f [0..<Suc n] s = fold (\<lambda>i. f (Suc i)) [0..<n] (f 0 s)"
proof -
  have "[0..<Suc n] = 0 # map Suc [0..<n]" by (simp add: upt_conv_Cons map_Suc_upt del: upt_Suc)
  then show ?thesis by (simp add: fold_map comp_def del: upt_Suc)
qed

lemma hex_parse_loop_bytes: "hex_parse_loop (2 * j) (concat (map hex2 bs)) ws =
    Some (fold (\<lambda>i ws. or_byte ws (j + i) (uint (bs ! i))) [0..<length bs] ws)"
proof (induction bs arbitrary: j ws)
  case (Cons b bs)
  have "2 * j mod 8 * 4 = j mod 4 * 8"
    using mult_mod_right [of 2 j 4] by simp
  then have one: "w_set ws (2 * j div 8) (js_or (w_at ws (2 * j div 8)) (js_shl (uint b) (24 - 2 * j mod 8 * 4)))
      = or_byte ws j (uint b)" by (simp add: or_byte_def mult.commute)
  have "hex_parse_loop (2 * j) (concat (map hex2 (b # bs))) ws
      = hex_parse_loop (2 * Suc j) (concat (map hex2 bs)) (or_byte ws j (uint b))"
    using one unat_byte [of b] by (simp add: hex2_def parse_pair_hex Let_def)
  then show ?case unfolding Cons.IH by (simp add: fold_upt_Suc del: upt_Suc)
qed simp

lemma hex_parse_bytes: "\<exists>a. hex_parse (concat (map hex2 bs)) = Some a \<and> holds a bs"
proof -
  have "length (concat (map hex2 bs)) = 2 * length bs" by (induction bs) (simp_all add: hex2_def Let_def)
  then have "hex_parse (concat (map hex2 bs)) =
      Some \<lparr>wds = fold (\<lambda>i ws. or_byte ws i (uint (bs ! i))) [0..<length bs] [], sigBytes = length bs\<rparr>"
    using hex_parse_loop_bytes [of 0 bs "[]"] by (simp add: hex_parse_def init_words_def)
  then show ?thesis using holds_new by blast
qed

lemma latin1_bytes: "latin1_stringify a = map (char_of \<circ> unat) (bytes_of a)"
  by (simp add: latin1_stringify_def bytes_of_def byte_at_wbyte comp_def flip: unat_eq_nat_uint)

lemma latin1_parse_bytes: "holds (latin1_parse s) (map (\<lambda>c. of_nat (of_char c)) s)"
proof -
  let ?bs = "map (\<lambda>c. of_nat (of_char c) :: byte) s"
  have "js_and (of_char (s ! i)) 0xFF = uint (?bs ! i)" if "i < length s" for i
  proof -
    obtain n where n: "n = (of_char (s ! i) :: nat)" by blast
    have "(of_char (s ! i) :: int) = int n" unfolding n by (rule of_nat_of_char [symmetric])
    moreover have "uint (of_nat n :: byte) = int n mod 256" by (simp add: unsigned_of_nat take_bit_eq_mod zmod_int)
    ultimately show ?thesis using that n js_and_0xFF by simp
  qed
  then have "fold (\<lambda>i ws. or_byte ws i (js_and (of_char (s ! i)) 0xFF)) [0..<length s] []
      = fold (\<lambda>i ws. or_byte ws i (uint (?bs ! i))) [0..<length ?bs] []"
    by (intro fold_cong) simp_all
  then show ?thesis using holds_new [of ?bs] by (simp add: latin1_parse_def init_words_def)
qed

end
