(* ===== verification/Hasher.thy ===== *)
theory Hasher
  imports Word_Array
begin

text \<open>
  \<open>BufferedBlockAlgorithm\<close> and \<open>Hasher\<close> of \<open>crypto-js/core.js\<close>: data is buffered as words, and every
  complete block of 16 words is handed to the hash function. The concrete algorithm's
  \<open>_doProcessBlock\<close> is an argument; it gets the words, the offset of the block and the hash words,
  and returns the words and the hash words it leaves behind.
\<close>

subsection \<open>Operations\<close>

type_synonym block_function = "int list \<Rightarrow> nat \<Rightarrow> int list \<Rightarrow> int list \<times> int list"

record hasher =
  hdata :: word_array
  nDataBytes :: nat
  hwords :: "int list"

definition blockSize :: nat where "blockSize = 16"

definition minBufferSize :: nat where "minBufferSize = 0"

definition reset_hasher :: "int list \<Rightarrow> hasher" where
  "reset_hasher H = \<lparr>hdata = init_words [] None, nDataBytes = 0, hwords = H\<rparr>"

definition append_data :: "word_array \<Rightarrow> hasher \<Rightarrow> hasher" where
  "append_data a h = h\<lparr>hdata := concat_words (hdata h) a, nDataBytes := nDataBytes h + sigBytes a\<rparr>"

definition blocks_ready :: "bool \<Rightarrow> nat \<Rightarrow> nat" where
  "blocks_ready doFlush n =
     (if doFlush then (n + (blockSize * 4 - 1)) div (blockSize * 4) else n div (blockSize * 4) - minBufferSize)"

definition process_data :: "block_function \<Rightarrow> bool \<Rightarrow> hasher \<Rightarrow> hasher \<times> word_array" where
  "process_data doBlock doFlush h =
     (let ws = wds (hdata h);
          n = sigBytes (hdata h);
          nWordsReady = blocks_ready doFlush n * blockSize;
          nBytesReady = min (nWordsReady * 4) n
      in if nWordsReady = 0 then (h, init_words [] (Some nBytesReady))
         else let (ws', H) = fold (\<lambda>offset (ws, H). doBlock ws offset H)
                               (map (\<lambda>k. k * blockSize) [0..<blocks_ready doFlush n]) (ws, hwords h)
              in (h\<lparr>hdata := \<lparr>wds = drop nWordsReady ws', sigBytes = n - nBytesReady\<rparr>, hwords := H\<rparr>,
                  init_words (take nWordsReady ws') (Some nBytesReady)))"

definition update_hasher :: "block_function \<Rightarrow> word_array \<Rightarrow> hasher \<Rightarrow> hasher" where
  "update_hasher doBlock a h = fst (process_data doBlock False (append_data a h))"

text \<open>\<open>finalize\<close> with the concrete \<open>_doFinalize\<close>; an absent message update is \<open>None\<close>.\<close>

definition finalize_hasher :: "(hasher \<Rightarrow> word_array) \<Rightarrow> word_array option \<Rightarrow> hasher \<Rightarrow> word_array" where
  "finalize_hasher doFinalize m h =
     doFinalize (case m of Some a \<Rightarrow> append_data a h | None \<Rightarrow> h)"

subsection \<open>Blocks of bytes\<close>

lemma blocks_append: "0 < n \<Longrightarrow> n dvd length xs \<Longrightarrow> blocks n (xs @ ys) = blocks n xs @ blocks n ys"
proof (induction n xs rule: blocks.induct)
  case (1 n xs)
  show ?case
  proof (cases "xs = []")
    case True
    then show ?thesis by simp
  next
    case False
    with "1.prems" have "n \<le> length xs" by (simp add: dvd_imp_le)
    with False 1 have "blocks n (drop n xs @ ys) = blocks n (drop n xs) @ blocks n ys"
      by (auto intro: dvd_diff_nat)
    with False \<open>n \<le> length xs\<close> "1.prems" show ?thesis
      by (simp add: blocks_step [of n "xs @ ys"] blocks_step [of n xs])
  qed
qed

lemma blocks_nth: "0 < n \<Longrightarrow> length xs = n * k \<Longrightarrow> blocks n xs = map (\<lambda>i. take n (drop (n * i) xs)) [0..<k]"
proof (induction k arbitrary: xs)
  case (Suc k)
  then have "xs \<noteq> []" by auto
  moreover have "blocks n (drop n xs) = map (\<lambda>i. take n (drop (n * i) (drop n xs))) [0..<k]"
    using Suc by simp
  moreover have "[0..<Suc k] = 0 # map Suc [0..<k]" by (simp add: upt_conv_Cons map_Suc_upt del: upt_Suc)
  ultimately show ?case using Suc.prems
    by (simp add: blocks_step comp_def algebra_simps del: upt_Suc)
qed simp

subsection \<open>The contract of a block function\<close>

text \<open>The 64 bytes of the block that starts at word \<open>off\<close>.\<close>

definition block_bytes :: "int list \<Rightarrow> nat \<Rightarrow> byte list" where
  "block_bytes ws off = map (wbyte ws) [4 * off..<4 * off + 64]"

text \<open>
  A block function reads the hash words and the bytes of its block, updates the hash words by an
  abstract compression function, and leaves the words outside the block alone.
\<close>

locale block_hash =
  fixes doBlock :: block_function
    and compress :: "32 word list \<Rightarrow> byte list \<Rightarrow> 32 word list"
    and size :: nat
  assumes block_hash_words: "length H = size \<Longrightarrow> length (snd (doBlock ws off H)) = size
      \<and> map i32 (snd (doBlock ws off H)) = compress (map i32 H) (block_bytes ws off)"
    and block_data: "off + 16 \<le> length ws \<Longrightarrow> length (fst (doBlock ws off H)) = length ws"
    and block_frame: "i < off \<or> off + 16 \<le> i \<Longrightarrow> w_at (fst (doBlock ws off H)) i = w_at ws i"
begin

lemma block_run:
  assumes "length H = size" and "n * 16 \<le> length ws"
  shows "let r = fold (\<lambda>offset (ws, H). doBlock ws offset H) (map (\<lambda>k. k * 16) [0..<n]) (ws, H) in
    length (fst r) = length ws \<and> (\<forall>i \<ge> n * 16. w_at (fst r) i = w_at ws i)
    \<and> length (snd r) = size
    \<and> map i32 (snd r) = foldl compress (map i32 H) (map (\<lambda>k. block_bytes ws (k * 16)) [0..<n])"
  using assms(2)
proof (induction n)
  case 0
  with assms(1) show ?case by simp
next
  case (Suc n)
  obtain ws1 H1 where r: "fold (\<lambda>offset (ws, H). doBlock ws offset H) (map (\<lambda>k. k * 16) [0..<n]) (ws, H) = (ws1, H1)"
    by fastforce
  with Suc have IH: "length ws1 = length ws" "\<forall>i \<ge> n * 16. w_at ws1 i = w_at ws i" "length H1 = size"
    "map i32 H1 = foldl compress (map i32 H) (map (\<lambda>k. block_bytes ws (k * 16)) [0..<n])"
    by (auto simp: Let_def)
  have "block_bytes ws1 (n * 16) = block_bytes ws (n * 16)"
    unfolding block_bytes_def using IH(2) by (auto simp: wbyte_def less_eq_div_iff_mult_less_eq)
  with IH Suc.prems block_hash_words [OF IH(3), of ws1 "n * 16"] block_data [of "n * 16" ws1 H1]
    block_frame [of _ "n * 16" ws1 H1]
  show ?case by (simp add: r Let_def)
qed

lemma process_complete_blocks:
  assumes "length (hwords h) = size" and "n = sigBytes (hdata h) div 64" and "n * 16 \<le> length (wds (hdata h))"
  shows "let h' = fst (process_data doBlock False h) in
    nDataBytes h' = nDataBytes h \<and> length (hwords h') = size
    \<and> map i32 (hwords h') = foldl compress (map i32 (hwords h))
        (map (\<lambda>k. block_bytes (wds (hdata h)) (k * 16)) [0..<n])
    \<and> sigBytes (hdata h') = sigBytes (hdata h) - 64 * n
    \<and> length (wds (hdata h')) = length (wds (hdata h)) - 16 * n
    \<and> (\<forall>i. w_at (wds (hdata h')) i = w_at (wds (hdata h)) (16 * n + i))"
proof (cases "n = 0")
  case True
  with assms show ?thesis
    by (simp add: process_data_def blocks_ready_def blockSize_def minBufferSize_def Let_def flip: assms(2))
next
  case False
  obtain ws H where r: "fold (\<lambda>offset (ws, H). doBlock ws offset H) (map (\<lambda>k. k * 16) [0..<n])
      (wds (hdata h), hwords h) = (ws, H)" by fastforce
  have "64 * n \<le> sigBytes (hdata h)" using assms(2) by simp
  moreover have "w_at (drop (16 * n) ws) i = w_at (wds (hdata h)) (16 * n + i)" for i
  proof -
    have "w_at (drop (16 * n) ws) i = w_at ws (16 * n + i)" by (auto simp: w_at_def)
    also have "\<dots> = w_at (wds (hdata h)) (16 * n + i)"
      using block_run [OF assms(1,3)] r by (simp add: Let_def)
    finally show ?thesis .
  qed
  ultimately show ?thesis
    using block_run [OF assms(1,3)] r False
    by (simp add: process_data_def blocks_ready_def blockSize_def minBufferSize_def Let_def mult.commute
        flip: assms(2))
qed

text \<open>
  What a hasher has absorbed: the complete blocks it has compressed, and the rest in its buffer.
\<close>

definition absorbed :: "32 word list \<Rightarrow> hasher \<Rightarrow> byte list \<Rightarrow> byte list \<Rightarrow> bool" where
  "absorbed iv h p r \<longleftrightarrow> nDataBytes h = length p + length r \<and> 64 dvd length p \<and> holds (hdata h) r
     \<and> length (hwords h) = size \<and> map i32 (hwords h) = foldl compress iv (blocks 64 p)"

lemma absorbed_reset: "length H = size \<Longrightarrow> absorbed (map i32 H) (reset_hasher H) [] []"
  by (simp add: absorbed_def reset_hasher_def init_words_def holds_def wbyte_beyond)

lemma absorbed_append:
  assumes "absorbed iv h p r" and "holds a bs"
  shows "absorbed iv (append_data a h) p (r @ bs)"
proof -
  have "bytes_of (hdata h) = r" using assms(1) by (intro holds_bytes_of) (simp add: absorbed_def)
  with concat_holds [OF assms(2), of "hdata h"] assms show ?thesis
    by (simp add: absorbed_def append_data_def holds_def)
qed

lemma block_bytes_take:
  assumes "\<And>i. wbyte ws i = (if i < length bs then bs ! i else 0)" and "64 * (k + 1) \<le> length bs"
  shows "block_bytes ws (k * 16) = take 64 (drop (64 * k) bs)"
  using assms by (intro nth_equalityI) (auto simp: block_bytes_def algebra_simps)

lemma absorbed_process:
  assumes "absorbed iv h p r"
  defines "n \<equiv> length r div 64"
  shows "absorbed iv (fst (process_data doBlock False h)) (p @ take (64 * n) r) (drop (64 * n) r)"
proof -
  let ?ws = "wds (hdata h)" and ?h = "fst (process_data doBlock False h)"
  have hold: "holds (hdata h) r" and sz: "length (hwords h) = size"
    using assms(1) by (simp_all add: absorbed_def)
  then have n: "n = sigBytes (hdata h) div 64" "n * 16 \<le> length ?ws"
    by (auto simp: holds_def n_def)
  note spec = process_complete_blocks [OF sz n, unfolded Let_def]
  have le: "64 * n \<le> length r" by (simp add: n_def)
  have "map (\<lambda>k. block_bytes ?ws (k * 16)) [0..<n] = map (\<lambda>k. take 64 (drop (64 * k) (take (64 * n) r))) [0..<n]"
  proof (rule map_cong [OF refl])
    fix k assume "k \<in> set [0..<n]"
    then have k: "64 * (k + 1) \<le> 64 * n" by simp
    then have "block_bytes ?ws (k * 16) = take 64 (drop (64 * k) r)"
      using hold le by (intro block_bytes_take) (auto simp: holds_def)
    with k show "block_bytes ?ws (k * 16) = take 64 (drop (64 * k) (take (64 * n) r))"
      by (simp add: drop_take min_def)
  qed
  also have "\<dots> = blocks 64 (take (64 * n) r)" using le by (simp add: blocks_nth [of 64 _ n] min_def)
  finally have blk: "map (\<lambda>k. block_bytes ?ws (k * 16)) [0..<n] = blocks 64 (take (64 * n) r)" .
  have "wbyte (wds (hdata ?h)) i = wbyte ?ws (64 * n + i)" for i
  proof -
    have "(64 * n + i) div 4 = 16 * n + i div 4" "(64 * n + i) mod 4 = i mod 4"
      using div_mult_self4 [of 4 "16 * n" i] mod_mult_self4 [of 4 "16 * n" i] by simp_all
    then show ?thesis using spec by (simp add: wbyte_def)
  qed
  then have "holds (hdata ?h) (drop (64 * n) r)"
    using hold spec le by (auto simp: holds_def)
  moreover have "foldl compress iv (blocks 64 (p @ take (64 * n) r)) =
      foldl compress (map i32 (hwords h)) (blocks 64 (take (64 * n) r))"
    using assms(1) by (simp add: absorbed_def blocks_append)
  ultimately show ?thesis using spec assms(1) le blk
    by (simp add: absorbed_def min_def)
qed

text \<open>Any sequence of updates absorbs the concatenation of what they were given.\<close>

lemma absorbed_updates:
  assumes "absorbed iv h p r" and "list_all2 holds as bss"
  shows "\<exists>p' r'. absorbed iv (fold (update_hasher doBlock) as h) p' r' \<and> p' @ r' = p @ r @ concat bss"
  using assms(2,1)
proof (induction arbitrary: h p r rule: list_all2_induct)
  case Nil
  then show ?case by auto
next
  case (Cons a as bs bss)
  let ?n = "length (r @ bs) div 64"
  have "absorbed iv (update_hasher doBlock a h) (p @ take (64 * ?n) (r @ bs)) (drop (64 * ?n) (r @ bs))"
    unfolding update_hasher_def by (rule absorbed_process [OF absorbed_append [OF Cons.prems Cons.hyps(1)]])
  from Cons.IH [OF this] show ?case
    by (metis append.assoc append_take_drop_id concat.simps(2) fold_simps(2))
qed

end

end
