(* ===== verification/Md5_Spec.thy ===== *)
theory Md5_Spec
  imports Complex_Main JsInt
begin

text \<open>
  The MD5 message digest as RFC 1321 states it: padding, little-endian words, the four auxiliary
  functions, 64 operations per block on the buffer words. The constants \<open>T\<close> are the integer parts of
  \<open>4294967296 * |sin i|\<close>; the sine is an argument, as it is for the program.
\<close>

definition le_word :: "byte list \<Rightarrow> 32 word" where
  "le_word bs = foldr (\<lambda>b w. ucast b OR push_bit 8 w) bs 0"

definition le_bytes :: "nat \<Rightarrow> nat \<Rightarrow> byte list" where
  "le_bytes k n = map (\<lambda>i. of_nat (n div 256 ^ i)) [0..<k]"

definition md5_pad :: "nat \<Rightarrow> byte list \<Rightarrow> byte list" where
  "md5_pad n rest =
     rest @ [0x80] @ replicate ((119 - length rest mod 64) mod 64) 0 @ le_bytes 8 (8 * n)"

definition rfc_F :: "32 word \<Rightarrow> 32 word \<Rightarrow> 32 word \<Rightarrow> 32 word" where
  "rfc_F x y z = (x AND y) OR (NOT x AND z)"

definition rfc_G :: "32 word \<Rightarrow> 32 word \<Rightarrow> 32 word \<Rightarrow> 32 word" where
  "rfc_G x y z = (x AND z) OR (y AND NOT z)"

definition rfc_H :: "32 word \<Rightarrow> 32 word \<Rightarrow> 32 word \<Rightarrow> 32 word" where
  "rfc_H x y z = x XOR y XOR z"

definition rfc_I :: "32 word \<Rightarrow> 32 word \<Rightarrow> 32 word \<Rightarrow> 32 word" where
  "rfc_I x y z = y XOR (x OR NOT z)"

definition rotl :: "nat \<Rightarrow> 32 word \<Rightarrow> 32 word" where
  "rotl n x = push_bit n x OR drop_bit (32 - n) x"

text \<open>The auxiliary function, the word, the rotation of operation \<open>i\<close> (counted from 0).\<close>

definition rfc_fun :: "nat \<Rightarrow> 32 word \<Rightarrow> 32 word \<Rightarrow> 32 word \<Rightarrow> 32 word" where
  "rfc_fun i = (if i < 16 then rfc_F else if i < 32 then rfc_G else if i < 48 then rfc_H else rfc_I)"

definition rfc_k :: "nat \<Rightarrow> nat" where
  "rfc_k i = (if i < 16 then i else if i < 32 then (1 + 5 * i) mod 16
     else if i < 48 then (5 + 3 * i) mod 16 else (7 * i) mod 16)"

definition rfc_s :: "nat \<Rightarrow> nat" where
  "rfc_s i = [[7, 12, 17, 22], [5, 9, 14, 20], [4, 11, 16, 23], [6, 10, 15, 21]] ! (i div 16) ! (i mod 4)"

definition rfc_T :: "(rat \<Rightarrow> rat) \<Rightarrow> nat \<Rightarrow> 32 word" where
  "rfc_T sine i = word_of_int \<lfloor>4294967296 * \<bar>sine (of_nat (Suc i))\<bar>\<rfloor>"

type_synonym md5_buffer = "32 word \<times> 32 word \<times> 32 word \<times> 32 word"

definition rfc_op :: "(rat \<Rightarrow> rat) \<Rightarrow> (nat \<Rightarrow> 32 word) \<Rightarrow> nat \<Rightarrow> md5_buffer \<Rightarrow> md5_buffer" where
  "rfc_op sine X i = (\<lambda>(a, b, c, d).
     (d, b + rotl (rfc_s i) (a + rfc_fun i b c d + X (rfc_k i) + rfc_T sine i), b, c))"

definition rfc_rounds :: "(rat \<Rightarrow> rat) \<Rightarrow> (nat \<Rightarrow> 32 word) \<Rightarrow> md5_buffer \<Rightarrow> md5_buffer" where
  "rfc_rounds sine X s = fold (rfc_op sine X) [0..<64] s"

definition rfc_compress :: "(rat \<Rightarrow> rat) \<Rightarrow> 32 word list \<Rightarrow> byte list \<Rightarrow> 32 word list" where
  "rfc_compress sine h block =
     (let X = (\<lambda>k. le_word (take 4 (drop (4 * k) block)));
          (a, b, c, d) = rfc_rounds sine X (h ! 0, h ! 1, h ! 2, h ! 3)
      in [h ! 0 + a, h ! 1 + b, h ! 2 + c, h ! 3 + d])"

definition rfc_init :: "32 word list" where
  "rfc_init = [0x67452301, 0xefcdab89, 0x98badcfe, 0x10325476]"

definition rfc_md5 :: "(rat \<Rightarrow> rat) \<Rightarrow> byte list \<Rightarrow> byte list" where
  "rfc_md5 sine msg = concat (map (\<lambda>w. le_bytes 4 (unat w))
     (foldl (rfc_compress sine) rfc_init (blocks 64 (md5_pad (length msg) msg))))"

end
