(* ===== verification/Md5.thy ===== *)
theory Md5
  imports Hasher Md5_Spec
begin

text \<open>
  \<open>crypto-js/md5.js\<close>: the concrete hasher, and \<open>CryptoJS.MD5\<close>. The operands are numbers: the sums
  inside an operation are not reduced, they stay integers far below \<open>2^53\<close> and are reduced by the
  32-bit operators that read them. \<open>Math.sin\<close> is an argument (its result is approximated by the
  engine); its scaling by \<open>2^32\<close> is exact.
\<close>

subsection \<open>The program\<close>

definition md5_T :: "(rat \<Rightarrow> rat) \<Rightarrow> nat \<Rightarrow> int" where
  "md5_T sine i = js_or \<lfloor>\<bar>sine (of_nat (i + 1))\<bar> * 0x100000000\<rfloor> 0"

definition swap_endian :: "int \<Rightarrow> int" where
  "swap_endian m = js_or
     (js_and (js_or (js_shl m 8) (js_ushr m 24)) 0x00ff00ff)
     (js_and (js_or (js_shl m 24) (js_ushr m 8)) 0xff00ff00)"

definition turn :: "int \<Rightarrow> nat \<Rightarrow> int" where
  "turn n s = js_or (js_shl n s) (js_ushr n (32 - s))"

type_synonym md5_fun = "int \<Rightarrow> int \<Rightarrow> int \<Rightarrow> int \<Rightarrow> int \<Rightarrow> nat \<Rightarrow> int \<Rightarrow> int"

definition FF :: md5_fun where
  "FF a b c d x s t = turn (a + js_or (js_and b c) (js_and (js_not b) d) + x + t) s + b"

definition GG :: md5_fun where
  "GG a b c d x s t = turn (a + js_or (js_and b d) (js_and c (js_not d)) + x + t) s + b"

definition HH :: md5_fun where
  "HH a b c d x s t = turn (a + js_xor (js_xor b c) d + x + t) s + b"

definition II :: md5_fun where
  "II a b c d x s t = turn (a + js_xor c (js_or b (js_not d)) + x + t) s + b"

text \<open>
  The 64 assignments come in groups of four, one to each of \<open>a\<close>, \<open>d\<close>, \<open>c\<close>, \<open>b\<close>: the function, the
  four message words and the first index of \<open>T\<close>. The rotations depend on the function only.
\<close>

definition md5_rows :: "(md5_fun \<times> nat list \<times> nat list) list" where
  "md5_rows = [
     (FF, [7, 12, 17, 22], [0, 1, 2, 3]),
     (FF, [7, 12, 17, 22], [4, 5, 6, 7]),
     (FF, [7, 12, 17, 22], [8, 9, 10, 11]),
     (FF, [7, 12, 17, 22], [12, 13, 14, 15]),
     (GG, [5, 9, 14, 20], [1, 6, 11, 0]),
     (GG, [5, 9, 14, 20], [5, 10, 15, 4]),
     (GG, [5, 9, 14, 20], [9, 14, 3, 8]),
     (GG, [5, 9, 14, 20], [13, 2, 7, 12]),
     (HH, [4, 11, 16, 23], [5, 8, 11, 14]),
     (HH, [4, 11, 16, 23], [1, 4, 7, 10]),
     (HH, [4, 11, 16, 23], [13, 0, 3, 6]),
     (HH, [4, 11, 16, 23], [9, 12, 15, 2]),
     (II, [6, 10, 15, 21], [0, 7, 14, 5]),
     (II, [6, 10, 15, 21], [12, 3, 10, 1]),
     (II, [6, 10, 15, 21], [8, 15, 6, 13]),
     (II, [6, 10, 15, 21], [4, 11, 2, 9])]"

definition four_ops :: "(nat \<Rightarrow> int) \<Rightarrow> (nat \<Rightarrow> int) \<Rightarrow> nat \<times> md5_fun \<times> nat list \<times> nat list
    \<Rightarrow> int \<times> int \<times> int \<times> int \<Rightarrow> int \<times> int \<times> int \<times> int" where
  "four_ops T X = (\<lambda>(i, f, s, k) (a, b, c, d).
     let a = f a b c d (X (k ! 0)) (s ! 0) (T i);
         d = f d a b c (X (k ! 1)) (s ! 1) (T (i + 1));
         c = f c d a b (X (k ! 2)) (s ! 2) (T (i + 2));
         b = f b c d a (X (k ! 3)) (s ! 3) (T (i + 3))
     in (a, b, c, d))"

definition swap_block :: "int list \<Rightarrow> nat \<Rightarrow> int list" where
  "swap_block ws offset =
     fold (\<lambda>i ws. w_set ws (offset + i) (swap_endian (w_at ws (offset + i)))) [0..<16] ws"

definition doProcessBlock :: "(rat \<Rightarrow> rat) \<Rightarrow> block_function" where
  "doProcessBlock sine M offset H =
     (let M' = swap_block M offset;
          (a, b, c, d) = fold (four_ops (md5_T sine) (\<lambda>k. w_at M' (offset + k)))
            (zip (map (\<lambda>i. 4 * i) [0..<16]) md5_rows) (w_at H 0, w_at H 1, w_at H 2, w_at H 3)
      in (M', [js_or (w_at H 0 + a) 0, js_or (w_at H 1 + b) 0, js_or (w_at H 2 + c) 0, js_or (w_at H 3 + d) 0]))"

definition doReset :: "int list" where
  "doReset = [0x67452301, 0xefcdab89, 0x98badcfe, 0x10325476]"

definition doFinalize :: "(rat \<Rightarrow> rat) \<Rightarrow> hasher \<Rightarrow> word_array" where
  "doFinalize sine h =
     (let nBitsTotal = int (nDataBytes h) * 8;
          nBitsLeft = int (sigBytes (hdata h)) * 8;
          i = nat (js_ushr nBitsLeft 5);
          ws1 = w_set (wds (hdata h)) i
            (js_or (w_at (wds (hdata h)) i) (js_shl 0x80 (nat (24 - nBitsLeft mod 32))));
          nBitsTotalH = nBitsTotal div 0x100000000;
          nBitsTotalL = nBitsTotal;
          j = nat (js_shl (js_ushr (nBitsLeft + 64) 9) 4);
          ws2 = w_set ws1 (j + 15) (swap_endian nBitsTotalH);
          ws3 = w_set ws2 (j + 14) (swap_endian nBitsTotalL);
          h' = fst (process_data (doProcessBlock sine) False
                 (h\<lparr>hdata := \<lparr>wds = ws3, sigBytes = (length ws3 + 1) * 4\<rparr>\<rparr>))
      in init_words (map swap_endian (hwords h')) None)"

text \<open>\<open>C.MD5 = Hasher._createHelper(MD5)\<close>\<close>

definition create_md5 :: hasher where
  "create_md5 = reset_hasher doReset"

definition MD5 :: "(rat \<Rightarrow> rat) \<Rightarrow> word_array \<Rightarrow> word_array" where
  "MD5 sine m = finalize_hasher (doFinalize sine) (Some m) create_md5"

subsection \<open>Words\<close>

lemma i32_turn: "0 < s \<Longrightarrow> s < 32 \<Longrightarrow> i32 (turn n s) = rotl s (i32 n)"
  by (simp add: turn_def rotl_def js_bits)

lemma i32_ops:
  assumes "0 < s" and "s < 32"
  shows "i32 (FF a b c d x s t) = i32 b + rotl s (i32 a + rfc_F (i32 b) (i32 c) (i32 d) + i32 x + i32 t)"
    and "i32 (GG a b c d x s t) = i32 b + rotl s (i32 a + rfc_G (i32 b) (i32 c) (i32 d) + i32 x + i32 t)"
    and "i32 (HH a b c d x s t) = i32 b + rotl s (i32 a + rfc_H (i32 b) (i32 c) (i32 d) + i32 x + i32 t)"
    and "i32 (II a b c d x s t) = i32 b + rotl s (i32 a + rfc_I (i32 b) (i32 c) (i32 d) + i32 x + i32 t)"
  using assms by (simp_all add: FF_def GG_def HH_def II_def i32_turn js_bits
      rfc_F_def rfc_G_def rfc_H_def rfc_I_def add.commute xor.assoc)

lemma i32_md5_T: "i32 (md5_T sine i) = rfc_T sine i"
  by (simp add: md5_T_def rfc_T_def js_or_def mult.commute) (simp add: i32_def)

lemma le_word4: "le_word [p, q, r, s] =
    ucast p OR push_bit 8 (ucast q OR push_bit 8 (ucast r OR push_bit 8 (ucast s)))"
  by (simp add: le_word_def)

subsection \<open>One group of assignments is four operations\<close>

definition words4 :: "int \<times> int \<times> int \<times> int \<Rightarrow> md5_buffer" where
  "words4 = (\<lambda>(a, b, c, d). (i32 a, i32 b, i32 c, i32 d))"

text \<open>What a row must say of the operations \<open>4 g\<close> to \<open>4 g + 3\<close>.\<close>

definition row_ok :: "nat \<times> md5_fun \<times> nat list \<times> nat list \<Rightarrow> bool" where
  "row_ok r = (case r of (i, f, s, k) \<Rightarrow>
     (\<forall>j < 4. k ! j = rfc_k (i + j)
       \<and> (\<forall>a b c d x t. i32 (f a b c d x (s ! j) t) = i32 b
            + rotl (rfc_s (i + j)) (i32 a + rfc_fun (i + j) (i32 b) (i32 c) (i32 d) + i32 x + i32 t))))"

lemma less4: "(\<forall>j < 4. P j) \<longleftrightarrow> P 0 \<and> P 1 \<and> P 2 \<and> P (3 :: nat)"
  by (auto simp: numeral_eq_Suc less_Suc_eq)

lemma rows_ok: "r \<in> set (zip (map (\<lambda>i. 4 * i) [0..<16]) md5_rows) \<Longrightarrow> row_ok r"
  by (auto simp: md5_rows_def upt_rec row_ok_def less4 i32_ops rfc_s_def rfc_k_def rfc_fun_def)

lemma rfc_k_less: "i < 64 \<Longrightarrow> rfc_k i < 16"
  by (auto simp: rfc_k_def)

lemma four_ops_rfc:
  assumes "row_ok (i, f, s, k)" and "i + 3 < 64" and "\<And>k. k < 16 \<Longrightarrow> i32 (X k) = Y k"
  shows "words4 (four_ops (md5_T sine) X (i, f, s, k) v) = fold (rfc_op sine Y) [i..<i + 4] (words4 v)"
proof -
  have u: "[i..<i + 4] = [i, i + 1, i + 2, i + 3]" by (simp add: upt_rec)
  obtain a b c d where v: "v = (a, b, c, d)" by (cases v)
  have k: "k ! 0 = rfc_k i" "k ! 1 = rfc_k (i + 1)" "k ! 2 = rfc_k (i + 2)" "k ! 3 = rfc_k (i + 3)"
    using assms(1) by (auto simp: row_ok_def less4)
  have y: "i32 (X (rfc_k (i + j))) = Y (rfc_k (i + j))" if "j < 4" for j
    using assms(2) that by (intro assms(3) rfc_k_less) simp
  note y4 = y [of 0, simplified] y [of 1, simplified] y [of 2, simplified] y [of 3, simplified]
  have f: "i32 (f a b c d x (s ! j) t) = i32 b
      + rotl (rfc_s (i + j)) (i32 a + rfc_fun (i + j) (i32 b) (i32 c) (i32 d) + i32 x + i32 t)"
    if "j < 4" for j a b c d x t using assms(1) that by (auto simp: row_ok_def)
  note f4 = f [of 0, simplified] f [of 1, simplified] f [of 2, simplified] f [of 3, simplified]
  show ?thesis unfolding u v four_ops_def words4_def rfc_op_def Let_def
    by (simp add: f4 k [simplified] y4 i32_md5_T)
qed

definition numbered_rows :: "(nat \<times> md5_fun \<times> nat list \<times> nat list) list" where
  "numbered_rows = zip (map (\<lambda>i. 4 * i) [0..<16]) md5_rows"

lemma rounds_rfc:
  assumes "\<And>k. k < 16 \<Longrightarrow> i32 (X k) = Y k" and "n \<le> 16"
  shows "words4 (fold (four_ops (md5_T sine) X) (take n numbered_rows) v) = fold (rfc_op sine Y) [0..<4 * n] (words4 v)"
  using assms(2)
proof (induction n)
  case 0
  then show ?case by simp
next
  case (Suc n)
  have l: "length numbered_rows = 16" by (simp add: numbered_rows_def md5_rows_def)
  obtain f s k where r: "numbered_rows ! n = (4 * n, f, s, k)"
    using Suc.prems l by (cases "md5_rows ! n") (simp add: numbered_rows_def)
  have "row_ok (numbered_rows ! n)" using Suc.prems l rows_ok nth_mem [of n numbered_rows]
    by (simp add: numbered_rows_def)
  with r have ok: "row_ok (4 * n, f, s, k)" by simp
  have "take (Suc n) numbered_rows = take n numbered_rows @ [(4 * n, f, s, k)]"
    using Suc.prems l r by (simp add: take_Suc_conv_app_nth)
  moreover have "[0..<4 * Suc n] = [0..<4 * n] @ [4 * n..<4 * n + 4]"
    using upt_add_eq_append [of 0 "4 * n" 4] by (simp add: add.commute)
  ultimately show ?case
    using Suc four_ops_rfc [where i = "4 * n" and X = X and Y = Y, OF ok _ assms(1)] by simp
qed

subsection \<open>Little-endian words\<close>

lemma mask_ff00ff: "bit (0x00ff00ff :: 32 word) n \<longleftrightarrow> n < 8 \<or> (16 \<le> n \<and> n < 24)"
proof -
  have "(0x00ff00ff :: 32 word) = mask 8 OR push_bit 16 (mask 8)" by (simp add: mask_eq_exp_minus_1)
  moreover have "bit (mask 8 OR push_bit 16 (mask 8) :: 32 word) n \<longleftrightarrow> n < 8 \<or> (16 \<le> n \<and> n < 24)"
    by (auto simp: bit_simps)
  ultimately show ?thesis by simp
qed

lemma mask_ff00ff00: "bit (0xff00ff00 :: 32 word) n \<longleftrightarrow> (8 \<le> n \<and> n < 16) \<or> (24 \<le> n \<and> n < 32)"
proof -
  have "(0xff00ff00 :: 32 word) = push_bit 8 (mask 8) OR push_bit 24 (mask 8)" by (simp add: mask_eq_exp_minus_1)
  moreover have "bit (push_bit 8 (mask 8) OR push_bit 24 (mask 8) :: 32 word) n
      \<longleftrightarrow> (8 \<le> n \<and> n < 16) \<or> (24 \<le> n \<and> n < 32)" by (auto simp: bit_simps)
  ultimately show ?thesis by simp
qed

lemma swap_masked:
  assumes "\<And>n. bit p n \<longleftrightarrow> n < 8 \<or> (16 \<le> n \<and> n < 24)"
    and "\<And>n. bit q n \<longleftrightarrow> (8 \<le> n \<and> n < 16) \<or> (24 \<le> n \<and> n < 32)"
  shows "(push_bit 8 w OR drop_bit 24 w) AND p OR (push_bit 24 w OR drop_bit 8 w) AND q =
   le_word [ucast (drop_bit 24 w), ucast (drop_bit 16 w), ucast (drop_bit 8 w), ucast (w :: 32 word)]"
  (is "?l = ?r")
proof (rule bit_word_eqI)
  fix n assume "n < LENGTH(32)"
  then consider "n < 8" | "8 \<le> n" "n < 16" | "16 \<le> n" "n < 24" | "24 \<le> n" "n < 32"
    by fastforce
  then show "bit ?l n = bit ?r n"
  proof cases
    case 1
    then show ?thesis by (auto simp: assms le_word4 bit_simps add.commute dest: bit_imp_le_length)
  next
    case 2
    then have "16 + (n - 8) = n + 8" by simp
    with 2 show ?thesis by (auto simp: assms le_word4 bit_simps add.commute dest: bit_imp_le_length)
  next
    case 3
    then have "8 + (n - 8 - 8) = n - 8" by simp
    with 3 show ?thesis by (auto simp: assms le_word4 bit_simps add.commute dest: bit_imp_le_length)
  next
    case 4
    then have "n - 8 - 8 - 8 = n - 24" by simp
    with 4 show ?thesis by (auto simp: assms le_word4 bit_simps add.commute dest: bit_imp_le_length)
  qed
qed

lemmas swap_word = swap_masked [OF mask_ff00ff mask_ff00ff00]

lemma i32_swap_endian: "i32 (swap_endian m) =
    le_word (map (\<lambda>q. ucast (drop_bit (24 - q * 8) (i32 m))) [0..<4])"
proof -
  have "i32 (swap_endian m) =
    (push_bit 8 (i32 m) OR drop_bit 24 (i32 m)) AND 0x00ff00ff OR (push_bit 24 (i32 m) OR drop_bit 8 (i32 m)) AND 0xff00ff00"
    by (simp add: swap_endian_def js_bits)
  then show ?thesis unfolding swap_word by (simp add: upt_rec)
qed

lemma swap_block_at: "w_at (swap_block ws off) i =
    (if off \<le> i \<and> i < off + 16 then swap_endian (w_at ws i) else w_at ws i)"
proof -
  have "w_at (fold (\<lambda>i ws. w_set ws (off + i) (swap_endian (w_at ws (off + i)))) [0..<n] ws) i =
      (if off \<le> i \<and> i < off + n then swap_endian (w_at ws i) else w_at ws i)" for n
    by (induction n arbitrary: i) (auto simp: w_at_set less_Suc_eq)
  then show ?thesis unfolding swap_block_def by blast
qed

lemma length_swap_block: "off + 16 \<le> length ws \<Longrightarrow> length (swap_block ws off) = length ws"
proof -
  assume a: "off + 16 \<le> length ws"
  have "length (fold (\<lambda>i ws. w_set ws (off + i) (swap_endian (w_at ws (off + i)))) [0..<n] ws) =
      length ws" if "n \<le> 16" for n
    using that a by (induction n) (auto simp: length_w_set)
  then show ?thesis unfolding swap_block_def by blast
qed

text \<open>After the swap, the words of the block are its bytes read in little-endian order.\<close>

lemma wbyte_word: "0 \<le> q \<and> q < 4 \<Longrightarrow> wbyte ws (q + 4 * j) = ucast (drop_bit (24 - q * 8) (i32 (w_at ws j)))"
  by (simp add: wbyte_def)

lemma swap_block_le:
  assumes "k < 16"
  shows "i32 (w_at (swap_block ws off) (off + k)) = le_word (take 4 (drop (4 * k) (block_bytes ws off)))"
proof -
  have "map (wbyte ws) [4 * (off + k)..<4 * (off + k) + 4]
      = map (\<lambda>q. ucast (drop_bit (24 - q * 8) (i32 (w_at ws (off + k))))) [0..<4]"
  proof -
    have "[4 * (off + k)..<4 * (off + k) + 4] = map (\<lambda>q. q + 4 * (off + k)) [0..<4]"
      by (simp only: map_add_upt add.commute)
    then show ?thesis by (simp only: map_map comp_def) (rule map_cong, simp_all only: wbyte_word set_upt atLeastLessThan_iff)
  qed
  moreover have "take 4 (drop (4 * k) (block_bytes ws off)) = map (wbyte ws) [4 * (off + k)..<4 * (off + k) + 4]"
    using assms by (simp add: block_bytes_def drop_map take_map drop_upt algebra_simps)
  ultimately show ?thesis using assms by (simp add: swap_block_at i32_swap_endian)
qed

lemma i32_or_zero: "i32 (js_or n 0) = i32 n"
  by (simp add: js_bits)

lemma doProcessBlock_compress:
  assumes "length H = 4"
  shows "map i32 (snd (doProcessBlock sine ws off H)) = rfc_compress sine (map i32 H) (block_bytes ws off)"
proof -
  let ?X = "\<lambda>k. w_at (swap_block ws off) (off + k)"
  let ?Y = "\<lambda>k. le_word (take 4 (drop (4 * k) (block_bytes ws off)))"
  have H: "w_at H 0 = H ! 0" "w_at H 1 = H ! 1" "w_at H 2 = H ! 2" "w_at H 3 = H ! 3"
    using assms by (simp_all add: w_at_def)
  obtain a b c d where r: "fold (four_ops (md5_T sine) ?X) numbered_rows (H ! 0, H ! 1, H ! 2, H ! 3) = (a, b, c, d)"
    by (cases "fold (four_ops (md5_T sine) ?X) numbered_rows (H ! 0, H ! 1, H ! 2, H ! 3)")
  have "take 16 numbered_rows = numbered_rows" by (simp add: numbered_rows_def md5_rows_def)
  then have "words4 (a, b, c, d) = rfc_rounds sine ?Y (words4 (H ! 0, H ! 1, H ! 2, H ! 3))"
    using rounds_rfc [where X = ?X and Y = ?Y and n = 16 and sine = sine
        and v = "(H ! 0, H ! 1, H ! 2, H ! 3)", OF swap_block_le] r
    by (simp add: rfc_rounds_def)
  then have w: "rfc_rounds sine ?Y (i32 (H ! 0), i32 (H ! 1), i32 (H ! 2), i32 (H ! 3)) = (i32 a, i32 b, i32 c, i32 d)"
    by (simp add: words4_def)
  have "snd (doProcessBlock sine ws off H) =
      [js_or (H ! 0 + a) 0, js_or (H ! 1 + b) 0, js_or (H ! 2 + c) 0, js_or (H ! 3 + d) 0]"
    using r by (simp add: doProcessBlock_def Let_def H H [simplified] numbered_rows_def)
  moreover have "rfc_compress sine (map i32 H) (block_bytes ws off) =
      [i32 (H ! 0) + i32 a, i32 (H ! 1) + i32 b, i32 (H ! 2) + i32 c, i32 (H ! 3) + i32 d]"
    using assms w by (simp add: rfc_compress_def Let_def)
  ultimately show ?thesis by (simp add: i32_or_zero i32_add)
qed

lemma doProcessBlock_words: "fst (doProcessBlock sine ws off H) = swap_block ws off"
  and doProcessBlock_size: "length (snd (doProcessBlock sine ws off H)) = 4"
  by (auto simp: doProcessBlock_def Let_def split: prod.splits)

interpretation md5: block_hash "doProcessBlock sine" "rfc_compress sine" 4 for sine
  by unfold_locales
    (auto simp: doProcessBlock_compress doProcessBlock_words doProcessBlock_size length_swap_block swap_block_at)

end
