(* ===== verification/Md5_Props.thy ===== *)
theory Md5_Props
  imports Md5
begin

text \<open>
  \<open>CryptoJS.MD5\<close> computes the digest of RFC 1321, in one call or over any split of the message into
  updates.
\<close>

subsection \<open>The padded buffer\<close>

lemma le_word4_byte: "q < 4 \<Longrightarrow>
    ucast (drop_bit (24 - q * 8) (le_word [b0, b1, b2, b3])) = [b3, b2, b1, b0] ! q"
proof -
  assume "q < 4"
  then consider "q = 0" | "q = 1" | "q = 2" | "q = 3" by linarith
  then show ?thesis
    by cases (intro bit_word_eqI; auto simp: le_word4 bit_simps dest: bit_imp_le_length)+
qed

lemma swap_endian_byte:
  assumes "q < 4"
  shows "ucast (drop_bit (24 - q * 8) (i32 (swap_endian m))) = (ucast (drop_bit (8 * q) (i32 m)) :: byte)"
proof -
  have "i32 (swap_endian m) = le_word [ucast (drop_bit 24 (i32 m)), ucast (drop_bit 16 (i32 m)),
      ucast (drop_bit 8 (i32 m)), ucast (i32 m)]"
    by (simp add: i32_swap_endian upt_rec)
  moreover have "q = 0 \<or> q = 1 \<or> q = 2 \<or> q = 3" using assms by linarith
  ultimately show ?thesis using le_word4_byte [OF assms] by auto
qed

lemma le_byte_word: "of_nat (unat w div 256 ^ q) = (ucast (drop_bit (8 * q) w) :: byte)"
proof -
  have "(256 :: nat) ^ q = 2 ^ (8 * q)" by (simp add: power_mult)
  then have "unat w div 256 ^ q = drop_bit (8 * q) (unat w)" by (simp only: drop_bit_eq_div)
  also have "\<dots> = unat (drop_bit (8 * q) w)"
    by (rule bit_eqI) (auto simp: bit_simps dest: bit_imp_le_length)
  finally have e: "unat w div 256 ^ q = unat (drop_bit (8 * q) w)" .
  show ?thesis unfolding e by (rule of_nat_unat)
qed

lemma le_bytes_word: "le_bytes 4 (unat w) = map (\<lambda>q. ucast (drop_bit (8 * q) w)) [0..<4]"
  by (simp add: le_bytes_def le_byte_word)

lemma le_bytes_len:
  assumes "n < 2 ^ 32"
  shows "le_bytes 8 n = map (\<lambda>q. if q < 4 then ucast (drop_bit (8 * q) (i32 (int n))) else 0) [0..<8]"
proof -
  have u: "unat (i32 (int n)) = n" using assms by (simp add: i32_def unat_of_nat take_bit_nat_eq_self)
  have "n div 256 ^ q = 0" if "4 \<le> q" for q
  proof -
    have "(256 :: nat) ^ 4 \<le> 256 ^ q" using that by (rule power_increasing) simp
    with assms show ?thesis by simp
  qed
  then show ?thesis using le_byte_word [of "i32 (int n)"] u by (auto simp: le_bytes_def)
qed

definition pad_blocks :: "nat \<Rightarrow> nat" where
  "pad_blocks m = (m + 8) div 64 + 1"

lemma pad_length: "m + 1 + (119 - m mod 64) mod 64 + 8 = 64 * pad_blocks m"
proof -
  have m: "m = 64 * (m div 64) + m mod 64" by simp
  have r: "m mod 64 < 64" by simp
  obtain q k where mq: "m = 64 * q + k" "k < 64" using m r by blast
  have "m mod 64 = k" using mq by simp
  moreover have "(64 * q + k + 8) div 64 = q + (k + 8) div 64" by (simp add: add.assoc)
  moreover have "(k + 8) div 64 = (if k < 56 then 0 else 1)" using mq(2) by auto
  moreover have "(119 - k) mod 64 = (if k < 56 then 55 - k else 119 - k)"
  proof (cases "k < 56")
    case True
    then have "119 - k = (55 - k) + 64" by simp
    then show ?thesis using True by (simp only: mod_add_self2) simp
  qed (use mq(2) in simp)
  ultimately show ?thesis unfolding pad_blocks_def mq(1) using mq(2) by (auto split: if_splits)
qed

lemma length_md5_pad: "length (md5_pad n r) = 64 * pad_blocks (length r)"
  using pad_length [of "length r"] by (simp add: md5_pad_def le_bytes_def)

lemma md5_pad_nth:
  assumes "8 * n < 2 ^ 32"
  shows "i < 64 * pad_blocks (length r) \<Longrightarrow> md5_pad n r ! i =
    (if i < length r then r ! i else if i = length r then 0x80
     else if i < 64 * pad_blocks (length r) - 8 then 0
     else if i < 64 * pad_blocks (length r) - 4
       then ucast (drop_bit (8 * (i - (64 * pad_blocks (length r) - 8))) (i32 (int (8 * n))))
     else 0)"
proof -
  let ?z = "(119 - length r mod 64) mod 64" and ?e = "64 * pad_blocks (length r)"
  assume i: "i < ?e"
  have e: "length r + 1 + ?z = ?e - 8" "length r + 1 + ?z + 8 = ?e" using pad_length [of "length r"] by simp_all
  have p: "md5_pad n r = (r @ [0x80] @ replicate ?z 0) @ le_bytes 8 (8 * n)" by (simp add: md5_pad_def)
  show ?thesis
  proof (cases "i < ?e - 8")
    case True
    then have "md5_pad n r ! i = (r @ [0x80] @ replicate ?z 0) ! i"
      unfolding p using e by (subst nth_append_left) simp_all
    also have "\<dots> = (if i < length r then r ! i else if i = length r then 0x80 else 0)"
      using True e by (auto simp: nth_append nth_Cons split: nat.splits)
    finally show ?thesis using True by simp
  next
    case False
    then have "md5_pad n r ! i = le_bytes 8 (8 * n) ! (i - (?e - 8))"
      unfolding p using e by (subst nth_append_right) simp_all
    then show ?thesis using False i e le_bytes_len [OF assms] by auto
  qed
qed

text \<open>The words \<open>_doFinalize\<close> leaves in the buffer are the padded rest.\<close>

definition padded :: "nat \<Rightarrow> int list \<Rightarrow> nat \<Rightarrow> int list" where
  "padded n ws m =
     w_set (w_set (or_byte ws m 0x80) (16 * ((m + 8) div 64) + 15) (swap_endian 0))
       (16 * ((m + 8) div 64) + 14) (swap_endian (int (8 * n)))"

lemma padded_wbyte:
  assumes "holds \<lparr>wds = ws, sigBytes = length r\<rparr> r" and "8 * n < 2 ^ 32"
    and "i < 64 * pad_blocks (length r)"
  shows "wbyte (padded n ws (length r)) i = md5_pad n r ! i"
proof -
  let ?m = "length r" and ?k = "pad_blocks (length r)"
  have k: "16 * ((?m + 8) div 64) + 15 = 16 * ?k - 1" "16 * ((?m + 8) div 64) + 14 = 16 * ?k - 2" "0 < ?k"
    by (simp_all add: pad_blocks_def)
  have m: "?m + 9 \<le> 64 * ?k" using pad_length [of ?m] by simp
  have i: "i = 4 * (i div 4) + i mod 4" "i mod 4 < 4" by simp_all
  have ws: "wbyte ws j = (if j < ?m then r ! j else 0)" for j using assms(1) by (simp add: holds_def)
  consider "i < 64 * ?k - 8" | "64 * ?k - 8 \<le> i" "i < 64 * ?k - 4" | "64 * ?k - 4 \<le> i" by linarith
  then show ?thesis
  proof cases
    case 1
    then have "i div 4 \<noteq> 16 * ?k - 1" "i div 4 \<noteq> 16 * ?k - 2" using i k(3) by linarith+
    then have "wbyte (padded n ws ?m) i = wbyte (or_byte ws ?m (uint (0x80 :: byte))) i"
      by (simp add: padded_def k wbyte_set)
    also have "\<dots> = (if i < ?m then r ! i else if i = ?m then 0x80 else 0)"
      unfolding or_byte_wbyte ws by simp
    finally show ?thesis using 1 md5_pad_nth [OF assms(2,3)] by simp
  next
    case 2
    then have d: "i div 4 = 16 * ?k - 2" using i k(3) by linarith
    with i(1) k(3) have q: "i mod 4 = i - (64 * ?k - 8)" by linarith
    have "wbyte (padded n ws ?m) i = ucast (drop_bit (24 - i mod 4 * 8) (i32 (swap_endian (int (8 * n)))))"
      by (simp add: padded_def k wbyte_set d)
    also have "\<dots> = ucast (drop_bit (8 * (i mod 4)) (i32 (int (8 * n))))" by (rule swap_endian_byte) simp
    finally have e: "wbyte (padded n ws ?m) i = ucast (drop_bit (8 * (i mod 4)) (i32 (int (8 * n))))" .
    have "\<not> i < ?m" "i \<noteq> ?m" "\<not> i < 64 * ?k - 8" using 2 m by linarith+
    then show ?thesis unfolding e q md5_pad_nth [OF assms(2,3)] using 2(2) by auto
  next
    case 3
    then have d: "i div 4 = 16 * ?k - 1" using i assms(3) by linarith
    have "wbyte (padded n ws ?m) i = ucast (drop_bit (24 - i mod 4 * 8) (i32 (swap_endian 0)))"
    proof -
      have "16 * ?k - 1 \<noteq> 16 * ?k - 2" using k(3) by linarith
      then show ?thesis by (simp only: padded_def k wbyte_set d if_False if_True refl)
    qed
    also have "\<dots> = 0" by (subst swap_endian_byte) simp_all
    finally have e: "wbyte (padded n ws ?m) i = 0" .
    have "\<not> i < ?m" "i \<noteq> ?m" "\<not> i < 64 * ?k - 8" "\<not> i < 64 * ?k - 4" using 3 m by linarith+
    then show ?thesis unfolding e md5_pad_nth [OF assms(2,3)] by auto
  qed
qed

subsection \<open>Finalizing\<close>

definition finalized :: "(rat \<Rightarrow> rat) \<Rightarrow> hasher \<Rightarrow> hasher" where
  "finalized sine h = fst (process_data (doProcessBlock sine) False
     (h\<lparr>hdata := \<lparr>wds = padded (nDataBytes h) (wds (hdata h)) (sigBytes (hdata h)),
        sigBytes = (length (padded (nDataBytes h) (wds (hdata h)) (sigBytes (hdata h))) + 1) * 4\<rparr>\<rparr>))"

lemma doFinalize_padded:
  assumes "8 * nDataBytes h < 2 ^ 32" and "8 * sigBytes (hdata h) + 64 < 2 ^ 31"
  shows "doFinalize sine h = init_words (map swap_endian (hwords (finalized sine h))) None"
proof -
  let ?m = "sigBytes (hdata h)"
  have 1: "nat (js_ushr (int ?m * 8) 5) = ?m div 4"
  proof -
    have "js_ushr (int ?m * 8) 5 = int ?m * 8 div 2 ^ 5" using assms(2) by (intro js_ushr_div) simp_all
    also have "\<dots> = int (?m div 4)" by (simp add: zdiv_int)
    finally show ?thesis by simp
  qed
  have 2: "nat (24 - int ?m * 8 mod 32) = 24 - ?m mod 4 * 8"
  proof -
    have "int ?m * 8 mod 32 = int (?m mod 4 * 8)" using mult_mod_right [of 8 "int ?m" 4] by (simp add: zmod_int mult.commute)
    then show ?thesis by simp
  qed
  have 3: "nat (js_shl (js_ushr (int ?m * 8 + 64) 9) 4) = 16 * ((?m + 8) div 64)"
  proof -
    have "js_ushr (int ?m * 8 + 64) 9 = (int ?m * 8 + 64) div 2 ^ 9" using assms(2) by (intro js_ushr_div) simp_all
    also have "\<dots> = int ((8 * (?m + 8)) div 512)" by (simp add: zdiv_int algebra_simps)
    also have "\<dots> = int ((?m + 8) div 64)" by simp
    finally have e: "js_ushr (int ?m * 8 + 64) 9 = int ((?m + 8) div 64)" .
    have "int ((?m + 8) div 64) * 2 ^ 4 < 2 ^ 31"
    proof -
      have "(?m + 8) div 64 * 64 \<le> ?m + 8" by simp
      then have "(?m + 8) div 64 * 16 < 2 ^ 31" using assms(2) by linarith
      then have "int ((?m + 8) div 64 * 16) < int (2 ^ 31)" by (simp only: of_nat_less_iff)
      then show ?thesis by simp
    qed
    then show ?thesis unfolding e by (subst js_shl_mult) simp_all
  qed
  have 4: "int (nDataBytes h) * 8 div 0x100000000 = 0" using assms(1) by simp
  show ?thesis
    unfolding doFinalize_def finalized_def padded_def Let_def 1 2 3 4 or_byte_def
    by (simp add: mult.commute)
qed

lemma finalized_digest:
  assumes "md5.absorbed sine iv h p r" and "8 * nDataBytes h + 64 < 2 ^ 31"
  shows "length (hwords (finalized sine h)) = 4 \<and> map i32 (hwords (finalized sine h)) =
    foldl (rfc_compress sine) iv (blocks 64 (md5_pad (nDataBytes h) (p @ r)))"
proof -
  let ?n = "nDataBytes h" and ?ws = "wds (hdata h)" and ?k = "pad_blocks (length r)"
  let ?pad = "padded ?n ?ws (length r)" and ?bs = "md5_pad ?n r"
  have a: "holds (hdata h) r" "sigBytes (hdata h) = length r" "length (hwords h) = 4"
    "map i32 (hwords h) = foldl (rfc_compress sine) iv (blocks 64 p)" "64 dvd length p"
    using assms(1) by (auto simp: md5.absorbed_def holds_def)
  then have w: "holds \<lparr>wds = ?ws, sigBytes = length r\<rparr> r" by (simp add: holds_def)
  have m: "length r + 9 \<le> 64 * ?k" using pad_length [of "length r"] by simp
  have len: "length ?pad = 16 * ?k"
  proof -
    have "length ?ws = (length r + 3) div 4" using w by (simp add: holds_def)
    moreover have "(length r + 3) div 4 \<le> 16 * ?k" "length r div 4 < 16 * ?k" using m by auto
    ultimately show ?thesis
      by (simp add: padded_def length_w_set length_or_byte pad_blocks_def)
  qed
  let ?h = "h\<lparr>hdata := \<lparr>wds = ?pad, sigBytes = (length ?pad + 1) * 4\<rparr>\<rparr>"
  have n: "?k = sigBytes (hdata ?h) div 64" "?k * 16 \<le> length (wds (hdata ?h))"
    using len by simp_all
  have byte: "wbyte ?pad i = ?bs ! i" if "i < 64 * ?k" for i
    using padded_wbyte [OF w _ that] assms(2) by simp
  have "map (\<lambda>k. block_bytes ?pad (k * 16)) [0..<?k] = blocks 64 ?bs"
  proof -
    have "block_bytes ?pad (k * 16) = take 64 (drop (64 * k) ?bs)" if "k < ?k" for k
    proof -
      have "64 * k + 64 \<le> 64 * ?k" using that by simp
      then show ?thesis using length_md5_pad [of ?n r]
        by (intro nth_equalityI) (auto simp: block_bytes_def byte algebra_simps)
    qed
    then show ?thesis by (simp add: blocks_nth [of 64 _ ?k] length_md5_pad)
  qed
  moreover have "blocks 64 p @ blocks 64 ?bs = blocks 64 (md5_pad ?n (p @ r))"
  proof -
    have "(length p + length r) mod 64 = length r mod 64" using a(5) by (auto elim!: dvdE)
    then have "md5_pad ?n (p @ r) = p @ ?bs" by (simp add: md5_pad_def)
    then show ?thesis using a(5) by (simp add: blocks_append)
  qed
  ultimately show ?thesis
    using md5.process_complete_blocks [where h = ?h and sine = sine, OF _ n] a
    by (simp add: finalized_def Let_def flip: foldl_append)
qed

lemma digest_bytes:
  assumes "length H = 4"
  shows "bytes_of (init_words (map swap_endian H) None) = concat (map (\<lambda>w. le_bytes 4 (unat w)) (map i32 H))"
proof -
  have "map (wbyte (map swap_endian H)) [0..<16] = concat (map (\<lambda>k. map (\<lambda>q. wbyte (map swap_endian H) (4 * k + q)) [0..<4]) [0..<4])"
    by (simp add: upt_rec numeral_eq_Suc)
  also have "\<dots> = concat (map (\<lambda>k. le_bytes 4 (unat (i32 (H ! k)))) [0..<4])"
  proof (intro arg_cong [where f = concat] map_cong refl)
    fix k assume "k \<in> set [0..<4]"
    then have "wbyte (map swap_endian H) (4 * k + q) = ucast (drop_bit (8 * q) (i32 (H ! k)))" if "q < 4" for q
      using that assms by (simp add: wbyte_def w_at_def swap_endian_byte)
    then show "map (\<lambda>q. wbyte (map swap_endian H) (4 * k + q)) [0..<4] = le_bytes 4 (unat (i32 (H ! k)))"
      unfolding le_bytes_word by simp
  qed
  also have "\<dots> = concat (map (\<lambda>w. le_bytes 4 (unat w)) (map i32 H))"
  proof -
    have "H = map ((!) H) [0..<4]" using map_nth [of H] assms by simp
    then have "map (\<lambda>w. le_bytes 4 (unat w)) (map i32 H) = map (\<lambda>k. le_bytes 4 (unat (i32 (H ! k)))) [0..<4]"
      by (metis (no_types, lifting) comp_apply map_cong map_map)
    then show ?thesis by simp
  qed
  finally show ?thesis using assms by (simp add: bytes_of_def init_words_def)
qed

lemma absorbed_digest:
  assumes "md5.absorbed sine rfc_init h p r" and "8 * length (p @ r) + 64 < 2 ^ 31"
  shows "bytes_of (doFinalize sine h) = rfc_md5 sine (p @ r)"
proof -
  have n: "nDataBytes h = length (p @ r)" "sigBytes (hdata h) = length r"
    using assms(1) by (auto simp: md5.absorbed_def holds_def)
  then have "doFinalize sine h = init_words (map swap_endian (hwords (finalized sine h))) None"
    using assms(2) by (intro doFinalize_padded) simp_all
  then show ?thesis
    using finalized_digest [OF assms(1)] n assms(2) by (simp add: digest_bytes rfc_md5_def)
qed

lemma absorbed_create: "md5.absorbed sine rfc_init create_md5 [] []"
  using md5.absorbed_reset [of doReset sine] by (simp add: create_md5_def doReset_def rfc_init_def)

text \<open>
  C26. The hasher computes the MD5 digest of RFC 1321 of everything it was given, however the message
  is split: a first sequence of updates of any lengths, then the argument of \<open>finalize\<close>, whole words
  or not. The message is shorter than \<open>2^28 - 8\<close> bytes, because the bit counts are shifted as 32-bit
  numbers.
\<close>

theorem md5_is_rfc1321:
  assumes "list_all2 holds as bss" and "holds m bs" and "8 * length (concat bss @ bs) + 64 < 2 ^ 31"
  shows "bytes_of (finalize_hasher (doFinalize sine) (Some m) (fold (update_hasher (doProcessBlock sine)) as create_md5))
    = rfc_md5 sine (concat bss @ bs)"
proof -
  obtain p r where a: "md5.absorbed sine rfc_init (fold (update_hasher (doProcessBlock sine)) as create_md5) p r"
    "p @ r = concat bss" using md5.absorbed_updates [OF absorbed_create [of sine] assms(1)] by auto
  from absorbed_digest [OF md5.absorbed_append [OF a(1) assms(2)]] assms(3) a(2)
  show ?thesis by (simp add: finalize_hasher_def flip: append_assoc)
qed

lemma md5_is_rfc1321_witness:
  "bytes_of (finalize_hasher (doFinalize (\<lambda>x. 1 / x)) (Some (latin1_parse ''b''))
     (fold (update_hasher (doProcessBlock (\<lambda>x. 1 / x))) [latin1_parse ''a''] create_md5))
   = rfc_md5 (\<lambda>x. 1 / x) [0x61, 0x62]"
  using md5_is_rfc1321 [of "[latin1_parse ''a'']" "[[0x61]]" "latin1_parse ''b''" "[0x62]" "\<lambda>x. 1 / x"]
    latin1_parse_bytes [of "''a''"] latin1_parse_bytes [of "''b''"] by simp

lemma MD5_digest:
  "holds m bs \<Longrightarrow> 8 * length bs + 64 < 2 ^ 31 \<Longrightarrow> bytes_of (MD5 sine m) = rfc_md5 sine bs"
  using absorbed_digest [OF md5.absorbed_append [OF absorbed_create], of m bs sine]
  by (simp add: MD5_def finalize_hasher_def)

end
