(* ===== verification/Rom.thy ===== *)
theory Rom
  imports RNode Md5_Props
begin

text \<open>
  The class \<open>Utils\<close> and the class \<open>ROM\<close> of \<open>rnode-flasher/js/rnode.js\<close>: the EEPROM image a device
  answers, its fields, the digest over its info section and \<open>parse\<close>. The image is the byte list
  \<open>eeprom\<close>; reading past its end yields \<open>undefined\<close> (\<open>None\<close>), which the operators read as 0.
\<close>

subsection \<open>Utils\<close>

definition bytesToHex :: "int option list \<Rightarrow> string" where
  "bytesToHex bytes = concat (map (\<lambda>b.
     let current = (case b of None \<Rightarrow> 0 | Some v \<Rightarrow> if v < 0 then v + 256 else v)
     in show_hex (nat (js_ushr current 4)) @ show_hex (nat (js_and current 0xF))) bytes)"

definition utils_md5 :: "(rat \<Rightarrow> rat) \<Rightarrow> int option list \<Rightarrow> int list option" where
  "utils_md5 sine data = map_option (\<lambda>m. let hash = MD5 sine m
     in map (\<lambda>i. js_and (js_ushr (w_at (wds hash) (i div 4)) (24 - (i mod 4) * 8)) 0xFF) [0..<sigBytes hash])
     (hex_parse (bytesToHex data))"

definition packUInt32BE :: "int \<Rightarrow> byte list" where
  "packUInt32BE v = map (\<lambda>i. ucast (drop_bit (24 - 8 * i) (i32 v))) [0..<4]"

text \<open>\<open>new Uint8Array\<close> stores \<open>undefined\<close> as 0; \<open>getUint32\<close> past the end of the buffer throws.\<close>

definition unpackUInt32BE :: "byte option list \<Rightarrow> int option" where
  "unpackUInt32BE bs =
     (if 4 \<le> length bs
      then let b = (\<lambda>i. case bs ! i of None \<Rightarrow> 0 | Some x \<Rightarrow> uint x)
           in Some (b 0 * 2 ^ 24 + b 1 * 2 ^ 16 + b 2 * 2 ^ 8 + b 3)
      else None)"

subsection \<open>The image\<close>

definition ADDR_PRODUCT :: nat where [proto_defs]: "ADDR_PRODUCT = 0x00"
definition ADDR_MODEL :: nat where [proto_defs]: "ADDR_MODEL = 0x01"
definition ADDR_HW_REV :: nat where [proto_defs]: "ADDR_HW_REV = 0x02"
definition ADDR_SERIAL :: nat where [proto_defs]: "ADDR_SERIAL = 0x03"
definition ADDR_MADE :: nat where [proto_defs]: "ADDR_MADE = 0x07"
definition ADDR_CHKSUM :: nat where [proto_defs]: "ADDR_CHKSUM = 0x0B"
definition ADDR_SIGNATURE :: nat where [proto_defs]: "ADDR_SIGNATURE = 0x1B"
definition ADDR_INFO_LOCK :: nat where [proto_defs]: "ADDR_INFO_LOCK = 0x9B"
definition ADDR_CONF_SF :: nat where [proto_defs]: "ADDR_CONF_SF = 0x9C"
definition ADDR_CONF_CR :: nat where [proto_defs]: "ADDR_CONF_CR = 0x9D"
definition ADDR_CONF_TXP :: nat where [proto_defs]: "ADDR_CONF_TXP = 0x9E"
definition ADDR_CONF_BW :: nat where [proto_defs]: "ADDR_CONF_BW = 0x9F"
definition ADDR_CONF_FREQ :: nat where [proto_defs]: "ADDR_CONF_FREQ = 0xA3"
definition ADDR_CONF_OK :: nat where [proto_defs]: "ADDR_CONF_OK = 0xA7"
definition INFO_LOCK_BYTE :: byte where [proto_defs]: "INFO_LOCK_BYTE = 0x73"
definition CONF_OK_BYTE :: byte where [proto_defs]: "CONF_OK_BYTE = 0x73"

record rom =
  eeprom :: "byte list"

definition new_rom :: "byte list \<Rightarrow> rom" where
  "new_rom e = \<lparr>eeprom = e\<rparr>"

definition getProduct :: "rom \<Rightarrow> byte option" where
  "getProduct r = js_at (eeprom r) ADDR_PRODUCT"

definition getModel :: "rom \<Rightarrow> byte option" where
  "getModel r = js_at (eeprom r) ADDR_MODEL"

definition getHardwareRevision :: "rom \<Rightarrow> byte option" where
  "getHardwareRevision r = js_at (eeprom r) ADDR_HW_REV"

definition getSerialNumber :: "rom \<Rightarrow> byte option list" where
  "getSerialNumber r = [js_at (eeprom r) ADDR_SERIAL, js_at (eeprom r) (ADDR_SERIAL + 1),
     js_at (eeprom r) (ADDR_SERIAL + 2), js_at (eeprom r) (ADDR_SERIAL + 3)]"

definition getMade :: "rom \<Rightarrow> byte option list" where
  "getMade r = [js_at (eeprom r) ADDR_MADE, js_at (eeprom r) (ADDR_MADE + 1),
     js_at (eeprom r) (ADDR_MADE + 2), js_at (eeprom r) (ADDR_MADE + 3)]"

definition getChecksum :: "rom \<Rightarrow> byte option list" where
  "getChecksum r = map (\<lambda>i. js_at (eeprom r) (ADDR_CHKSUM + i)) [0..<16]"

definition getSignature :: "rom \<Rightarrow> byte option list" where
  "getSignature r = map (\<lambda>i. js_at (eeprom r) (ADDR_SIGNATURE + i)) [0..<128]"

definition as_numbers :: "byte option list \<Rightarrow> int option list" where
  "as_numbers = map (map_option uint)"

definition getCalculatedChecksum :: "(rat \<Rightarrow> rat) \<Rightarrow> rom \<Rightarrow> int list option" where
  "getCalculatedChecksum sine r = utils_md5 sine (as_numbers
     ([getProduct r, getModel r, getHardwareRevision r] @ getSerialNumber r @ getMade r))"

definition getConfiguredSpreadingFactor :: "rom \<Rightarrow> byte option" where
  "getConfiguredSpreadingFactor r = js_at (eeprom r) ADDR_CONF_SF"

definition getConfiguredCodingRate :: "rom \<Rightarrow> byte option" where
  "getConfiguredCodingRate r = js_at (eeprom r) ADDR_CONF_CR"

definition getConfiguredTxPower :: "rom \<Rightarrow> byte option" where
  "getConfiguredTxPower r = js_at (eeprom r) ADDR_CONF_TXP"

definition getConfiguredFrequency :: "rom \<Rightarrow> int" where
  "getConfiguredFrequency r = be32_at (eeprom r) ADDR_CONF_FREQ"

definition getConfiguredBandwidth :: "rom \<Rightarrow> int" where
  "getConfiguredBandwidth r = be32_at (eeprom r) ADDR_CONF_BW"

definition isInfoLocked :: "rom \<Rightarrow> bool" where
  "isInfoLocked r \<longleftrightarrow> js_at (eeprom r) ADDR_INFO_LOCK = Some INFO_LOCK_BYTE"

definition isConfigured :: "rom \<Rightarrow> bool" where
  "isConfigured r \<longleftrightarrow> js_at (eeprom r) ADDR_CONF_OK = Some CONF_OK_BYTE"

subsection \<open>parse\<close>

record rom_config =
  configured_spreading_factor :: "byte option"
  configured_coding_rate :: "byte option"
  configured_tx_power :: "byte option"
  configured_frequency :: int
  configured_bandwidth :: int

record rom_details =
  is_provisioned :: bool
  is_configured :: bool
  product :: "byte option"
  model :: "byte option"
  hardware_revision :: "byte option"
  serial_number :: "int option"
  made :: "int option"
  checksum :: string
  calculated_checksum :: string
  signature_hex :: string
  configuration :: "rom_config option"

definition configuration_of :: "rom \<Rightarrow> rom_config" where
  "configuration_of r = \<lparr>
     configured_spreading_factor = getConfiguredSpreadingFactor r,
     configured_coding_rate = getConfiguredCodingRate r,
     configured_tx_power = getConfiguredTxPower r,
     configured_frequency = getConfiguredFrequency r,
     configured_bandwidth = getConfiguredBandwidth r\<rparr>"

definition parse_rom :: "(rat \<Rightarrow> rat) \<Rightarrow> rom \<Rightarrow> rom_details option" where
  "parse_rom sine r =
     (if \<not> isInfoLocked r then None
      else let checksumHex = bytesToHex (as_numbers (getChecksum r));
               calculatedChecksumHex = bytesToHex (case getCalculatedChecksum sine r of
                 Some c \<Rightarrow> map Some c | None \<Rightarrow> []);
               details = \<lparr>is_provisioned = True, is_configured = isConfigured r,
                 product = getProduct r, model = getModel r, hardware_revision = getHardwareRevision r,
                 serial_number = unpackUInt32BE (getSerialNumber r), made = unpackUInt32BE (getMade r),
                 checksum = checksumHex, calculated_checksum = calculatedChecksumHex,
                 signature_hex = bytesToHex (as_numbers (getSignature r)),
                 configuration = (if isConfigured r then Some (configuration_of r) else None)\<rparr>
           in Some (if checksum details \<noteq> calculated_checksum details
                    then details\<lparr>is_provisioned := False\<rparr> else details))"

text \<open>\<open>getRomAsObject\<close>: the answer to \<open>getRom\<close>, wrapped.\<close>

definition getRomAsObject :: "rom exchange" where
  "getRomAsObject = \<lparr>command = command getRom, payload = payload getRom,
     decode_response = (\<lambda>response. map_sum id new_rom (decode_response getRom response))\<rparr>"

end
