(* ===== verification/RNode_Session.thy ===== *)
theory RNode_Session
  imports RNode
begin

text \<open>
  Properties of the RNode flasher's link and command session: what the read loop makes of a chunked
  stream, which numbers survive the encoder, the invariant of the callback table over every
  interleaving of requests and received frames, and a request's path to its response.
\<close>

subsection \<open>The stream\<close>

text \<open>A frame of the wire, with line noise before it.\<close>

definition wire :: "(byte list \<times> byte list) list \<Rightarrow> byte list" where
  "wire items = concat (map (\<lambda>(n, d). n @ createKissFrame (map uint d)) items)"

lemma wire_eq: "wire items = concat (map (\<lambda>(n, d). n @ fend # kiss_escape d @ [fend]) items)"
  by (simp add: wire_def createKissFrame_bytes)

text \<open>
  C2. However the serial port cuts the stream into chunks, a sequence of encoded commands separated
  by noise that holds no delimiter is delivered as exactly those commands, in order, and the loop is
  idle again at the end.
\<close>

theorem readLoop_delivers_frames:
  assumes "\<forall>(n, d) \<in> set items. fend \<notin> set n"
    and "concat cs = wire items"
  shows "readLoop init_reader (map Chunk cs) =
    (init_reader, map (\<lambda>(n, d). FrameReceived d) items, LoopWaiting)"
  using rx.feed_chunked_frames [OF assms(1), of cs] assms(2)
  by (simp add: wire_eq readLoop_chunks read.feed_chunks_concat)

theorem readLoop_delivers_frames_witness:
  "readLoop init_reader (map Chunk [[0x11, 0xC0, 0x48], [0xDB], [0xDC, 0xC0]]) =
    (init_reader, [FrameReceived [0x48, 0xC0]], LoopWaiting)"
  using readLoop_delivers_frames [of "[([0x11], [0x48, 0xC0])]"
      "[[0x11, 0xC0, 0x48], [0xDB], [0xDC, 0xC0]]"]
  by (simp add: wire_eq kiss_escape_def)

definition inverted_reader :: reader where
  "inverted_reader = \<lparr>buffer = [], inFrame = True\<rparr>"

lemma inverted_frame:
  "read_chunk inverted_reader (fend # kiss_escape d @ [fend]) = (inverted_reader, [FrameReceived []])"
proof -
  have "read_byte inverted_reader fend = (init_reader, [FrameReceived []])"
    by (simp add: read_byte_def inverted_reader_def init_reader_def decodeKissFrame_def)
  moreover have "read_chunk init_reader (kiss_escape d @ [fend]) = (inverted_reader, [])"
    using read_chunk_skip [OF fend_notin_escape, of init_reader d]
    by (simp add: read.feed_append read_byte_def init_reader_def inverted_reader_def)
  ultimately show ?thesis by simp
qed

lemma inverted_frames: "read_chunk inverted_reader (concat (map (\<lambda>d. fend # kiss_escape d @ [fend]) ds)) =
    (inverted_reader, map (\<lambda>_. FrameReceived []) ds)"
proof (induction ds)
  case Nil
  then show ?case by simp
next
  case (Cons d ds)
  then show ?case
    using read.feed_append [of inverted_reader "fend # kiss_escape d @ [fend]"]
    by (simp only: list.map concat.simps inverted_frame) simp
qed

text \<open>
  The loop has no resynchronisation: after one stray delimiter every frame of the stream is read
  inside out. Each frame then yields one empty command, which \<open>onCommandReceived\<close> drops, so no
  command of the stream is delivered, and the loop is left in the same inverted phase.
\<close>

theorem readLoop_stray_delimiter:
  "readLoop init_reader (map Chunk ([fend] # map (\<lambda>d :: byte list. createKissFrame (map uint d)) ds)) =
    (inverted_reader, map (\<lambda>_. FrameReceived []) ds, LoopWaiting)"
proof -
  have "read_chunk init_reader [fend] = (inverted_reader, [])"
    by (simp add: read_byte_def init_reader_def inverted_reader_def)
  then have "read_chunk init_reader (fend # concat (map (\<lambda>d :: byte list. fend # kiss_escape d @ [fend]) ds)) =
      (inverted_reader, map (\<lambda>_. FrameReceived []) ds)"
    using read.feed_append [of init_reader "[fend]"] by (simp add: inverted_frames)
  then show ?thesis
    using readLoop_chunks [of init_reader "[fend] # map (\<lambda>d. createKissFrame (map uint d)) ds"]
    by (simp add: createKissFrame_bytes)
qed

subsection \<open>Commands on the wire\<close>

text \<open>
  Every command whose numbers are carried (all bytes 0..255 are) is framed between two
  delimiters, holds no other delimiter, and decodes to the bytes of its numbers.
\<close>

theorem createKissFrame_decodes:
  assumes "list_all carried data"
  shows "\<exists>body. createKissFrame data = fend # body @ [fend] \<and> fend \<notin> set body
    \<and> decodeKissFrame body = Some (map u8 data)"
  using foldl_kiss_push_carried [OF assms, of "[KISS_FEND]"]
  by (intro exI [of _ "kiss_escape (map u8 data)"])
    (simp add: createKissFrame_def decode_escape fend_notin_escape)

theorem createKissFrame_decodes_witness:
  "\<exists>body. createKissFrame [0x03, -9, 0xDB] = fend # body @ [fend] \<and> fend \<notin> set body
    \<and> decodeKissFrame body = Some [0x03, -9, 0xDB]"
  using createKissFrame_decodes [of "[0x03, -9, 0xDB]"] by (simp add: carried_def u8_def)

subsection \<open>Frequencies\<close>

lemma be32_split_word:
  "i32 (be32_at (map u8 (split_int32 v)) 0) = i32 v"
proof -
  have "i32 (be32_at (map u8 (split_int32 v)) 0) =
      ((push_bit 24 (take_bit 8 (signed_drop_bit 24 (i32 v))) OR
        push_bit 16 (take_bit 8 (signed_drop_bit 16 (i32 v)))) OR
       push_bit 8 (take_bit 8 (signed_drop_bit 8 (i32 v)))) OR take_bit 8 (i32 v)"
    by (simp add: be32_at_def num_at_def split_int32_def i32_uint_byte ucast_u8 i32_and_0xFF
        i32_js_or i32_js_shl i32_js_shr numeral_2_eq_2 numeral_3_eq_3 del: u8_i32)
  also have "\<dots> = i32 v"
  proof (rule bit_word_eqI)
    fix n :: nat
    assume n: "n < LENGTH(32)"
    consider "n < 8" | "8 \<le> n \<and> n < 16" | "16 \<le> n \<and> n < 24" | "24 \<le> n" by linarith
    then show "bit (((push_bit 24 (take_bit 8 (signed_drop_bit 24 (i32 v))) OR
          push_bit 16 (take_bit 8 (signed_drop_bit 16 (i32 v)))) OR
         push_bit 8 (take_bit 8 (signed_drop_bit 8 (i32 v)))) OR take_bit 8 (i32 v)) n \<longleftrightarrow> bit (i32 v) n"
      using n by cases (auto simp: bit_simps)
  qed
  finally show ?thesis .
qed

lemma be32_at_int32: "be32_at bs i = sint (i32 (be32_at bs i))"
  by (simp add: be32_at_def js_or_def)

lemma split_int32_range: "0 \<le> v \<Longrightarrow> v < 2 ^ 31 \<Longrightarrow> list_all (\<lambda>n. 0 \<le> n \<and> n < 256) (split_int32 v)"
proof -
  assume v: "0 \<le> v" "v < 2 ^ 31"
  then have "js_shr v 24 = v div 2 ^ 24" by (intro js_shr_div) simp_all
  moreover have "0 \<le> v div 2 ^ 24" "v div 2 ^ 24 < 256" using v by simp_all
  ultimately show ?thesis by (simp add: split_int32_def js_and_0xFF)
qed

lemma decode_getFrequency: "decode_response getFrequency (map u8 (split_int32 v)) = Inr (sint (i32 v))"
  using be32_at_int32 [of "map u8 (split_int32 v)" 0]
  by (simp add: getFrequency_def int32_response_def be32_split_word)

text \<open>
  The frequency read back from the four bytes that \<open>setFrequency\<close> writes is the requested one as a
  signed 32-bit number. Below \<open>2^31\<close> Hz the write is one decodable frame of the command and those
  bytes, and the value read back is the requested frequency itself; from \<open>2^31\<close> to \<open>2^32\<close> Hz it is
  negative.
\<close>

theorem frequency_roundtrip:
  assumes "0 \<le> v" and "v < 2 ^ 32"
  shows "decode_response getFrequency (map u8 (split_int32 v)) =
      Inr (if v < 2 ^ 31 then v else v - 2 ^ 32)
    \<and> (v < 2 ^ 31 \<longrightarrow> (\<exists>body s'. setFrequency True v s = (s', None)
         \<and> acts s' = acts s @ [Write (fend # body @ [fend])] \<and> fend \<notin> set body
         \<and> decodeKissFrame body = Some (map u8 (CMD_FREQUENCY # split_int32 v))))"
proof (intro conjI impI)
  have "sint (i32 v) = (if v < 2 ^ 31 then v else v - 2 ^ 32)"
  proof (cases "v < 2 ^ 31")
    case True
    with assms show ?thesis by (simp add: sint_i32)
  next
    case False
    have "i32 v = i32 (v - 2 ^ 32)"
      by (simp add: i32_def)
    with False assms show ?thesis by (simp add: sint_i32)
  qed
  then show "decode_response getFrequency (map u8 (split_int32 v)) =
      Inr (if v < 2 ^ 31 then v else v - 2 ^ 32)"
    by (simp only: decode_getFrequency)
next
  assume v: "v < 2 ^ 31"
  have "list_all carried (CMD_FREQUENCY # split_int32 v)"
    using split_int32_range [OF assms(1) v]
    by (auto simp: list_all_iff proto_defs intro: carried_byte)
  from createKissFrame_decodes [OF this]
  show "\<exists>body s'. setFrequency True v s = (s', None)
      \<and> acts s' = acts s @ [Write (fend # body @ [fend])] \<and> fend \<notin> set body
      \<and> decodeKissFrame body = Some (map u8 (CMD_FREQUENCY # split_int32 v))"
    by (auto simp: setFrequency_def sendKissCommand_def emit_def)
qed

theorem frequency_roundtrip_witness:
  "decode_response getFrequency (map u8 (split_int32 433775000)) = Inr 433775000"
  using frequency_roundtrip [of 433775000 init_rnode] by simp

subsection \<open>The callback table\<close>

text \<open>
  A step of a session: a request, a command without a response, the start of Bluetooth pairing, or a
  received frame. They interleave freely, because every one of them runs to its first \<open>await\<close>
  without being interrupted.
\<close>

lemma sendKissCommand_fields [simp]:
  "callbacks (fst (sendKissCommand ok d s)) = callbacks s"
  "settled (fst (sendKissCommand ok d s)) = settled s"
  "next_promise (fst (sendKissCommand ok d s)) = next_promise s"
  by (simp_all add: sendKissCommand_def emit_def)

lemma emit_fields [simp]:
  "callbacks (emit a s) = callbacks s" "settled (emit a s) = settled s"
  "next_promise (emit a s) = next_promise s"
  by (simp_all add: emit_def)

lemma settle_fields [simp]:
  "callbacks (settle p v s) = callbacks s" "next_promise (settle p v s) = next_promise s"
  "settled (settle p v s) = (if settled s p = None then (settled s)(p \<mapsto> v) else settled s)"
  by (simp_all add: settle_def)

lemma sendCommand_fields [simp]:
  "callbacks (fst (sendCommand ok c d s)) = (callbacks s)(c \<mapsto> Resolve (next_promise s))"
  "next_promise (fst (sendCommand ok c d s)) = Suc (next_promise s)"
  "settled (fst (sendCommand ok c d s)) =
     (if ok \<or> settled s (next_promise s) \<noteq> None then settled s
      else (settled s)(next_promise s \<mapsto> Rejected))"
  "snd (sendCommand ok c d s) = next_promise s"
  by (simp_all add: sendCommand_def sendKissCommand_def Let_def)

lemma startBluetoothPairing_fields [simp]:
  "callbacks (fst (startBluetoothPairing ok s)) = (callbacks s)(CMD_BT_PIN \<mapsto> PinListener)"
  "settled (fst (startBluetoothPairing ok s)) = settled s"
  "next_promise (fst (startBluetoothPairing ok s)) = next_promise s"
  by (simp_all add: startBluetoothPairing_def)

text \<open>What a received frame does to the table, by the entry of its command byte.\<close>

lemma onCommandReceived_cases:
  obtains (ignored) "onCommandReceived pc data s = s"
  | (resolved) c bytes p where "data = c # bytes" "callbacks s (uint c) = Some (Resolve p)"
      "callbacks (onCommandReceived pc data s) = (callbacks s)(uint c := None)"
      "settled (onCommandReceived pc data s) =
        (if settled s p = None then (settled s)(p \<mapsto> Resolved bytes) else settled s)"
      "next_promise (onCommandReceived pc data s) = next_promise s"
  | (pin) c where "callbacks s c = Some PinListener"
      "callbacks (onCommandReceived pc data s) \<in> {callbacks s, (callbacks s)(c := None)}"
      "settled (onCommandReceived pc data s) = settled s"
      "next_promise (onCommandReceived pc data s) = next_promise s"
proof (cases data)
  case Nil
  then show ?thesis by (intro ignored) (simp add: onCommandReceived_def)
next
  case (Cons c bytes)
  show ?thesis
  proof (cases "callbacks s (uint c)")
    case None
    with Cons show ?thesis by (intro ignored) (simp add: onCommandReceived_def)
  next
    case (Some cb)
    show ?thesis
    proof (cases cb)
      case (Resolve p)
      show ?thesis
        by (rule resolved [OF Cons])
          (use Cons Some Resolve in \<open>simp_all add: onCommandReceived_def Let_def\<close>)
    next
      case PinListener
      show ?thesis
        by (rule pin [of "uint c"])
          (use Cons Some PinListener in \<open>simp_all add: onCommandReceived_def Let_def\<close>)
    qed
  qed
qed

inductive rnode_step :: "(int \<Rightarrow> bool) \<Rightarrow> rnode \<Rightarrow> rnode \<Rightarrow> bool" for pinCallback where
  request: "rnode_step pinCallback s (fst (sendCommand ok c d s))"
| send: "rnode_step pinCallback s (fst (sendKissCommand ok d s))"
| pair: "rnode_step pinCallback s (fst (startBluetoothPairing ok s))"
| wait: "rnode_step pinCallback s (emit (Sleep ms) s)"
| receive: "rnode_step pinCallback s (dispatch_event pinCallback s e)"

inductive_cases rnode_stepE: "rnode_step pinCallback s t"

definition rnode_inv :: "rnode \<Rightarrow> bool" where
  "rnode_inv s \<longleftrightarrow>
     (\<forall>p. next_promise s \<le> p \<longrightarrow> settled s p = None)
   \<and> (\<forall>c p. callbacks s c = Some (Resolve p) \<longrightarrow>
        p < next_promise s \<and> (\<forall>r. settled s p \<noteq> Some (Resolved r)))
   \<and> (\<forall>c c' p. callbacks s c = Some (Resolve p) \<longrightarrow> callbacks s c' = Some (Resolve p) \<longrightarrow> c = c')
   \<and> (\<forall>c. callbacks s c = Some PinListener \<longrightarrow> c = CMD_BT_PIN)"

lemma rnode_inv_init: "rnode_inv init_rnode"
  by (simp add: rnode_inv_def init_rnode_def)

lemma rnode_inv_request: "rnode_inv s \<Longrightarrow> rnode_inv (fst (sendCommand ok c d s))"
  unfolding rnode_inv_def by (auto simp: less_Suc_eq split: if_splits)

lemma rnode_inv_receive: "rnode_inv s \<Longrightarrow> rnode_inv (onCommandReceived pc data s)"
proof (cases rule: onCommandReceived_cases [of pc data s])
  case (resolved c bytes p)
  assume inv: "rnode_inv s"
  then have "\<And>c'. c' \<noteq> uint c \<Longrightarrow> callbacks s c' \<noteq> Some (Resolve p)" and "p < next_promise s"
    using resolved(2) unfolding rnode_inv_def by metis+
  with inv resolved(3-) show ?thesis by (auto simp: rnode_inv_def split: if_splits)
qed (auto simp: rnode_inv_def split: if_splits)

lemma rnode_step_inv: "rnode_step pc s t \<Longrightarrow> rnode_inv s \<Longrightarrow> rnode_inv t"
proof (induction rule: rnode_step.induct)
  case (request s ok c d)
  then show ?case by (rule rnode_inv_request)
next
  case (receive s e)
  then show ?case by (cases e) (simp_all add: dispatch_event_def rnode_inv_receive)
qed (auto simp: rnode_inv_def)

definition rnode_run :: "(int \<Rightarrow> bool) \<Rightarrow> rnode \<Rightarrow> rnode \<Rightarrow> bool" where
  "rnode_run pc = (rnode_step pc)\<^sup>*\<^sup>*"

lemma rnode_run_inv: "rnode_run pc s t \<Longrightarrow> rnode_inv s \<Longrightarrow> rnode_inv t"
  unfolding rnode_run_def by (induction rule: rtranclp_induct) (auto intro: rnode_step_inv)


text \<open>A settled promise keeps its outcome.\<close>

lemma rnode_step_settled: "rnode_step pc s t \<Longrightarrow> settled s p = Some v \<Longrightarrow> settled t p = Some v"
proof (induction rule: rnode_step.induct)
  case (receive s e)
  show ?case
  proof (cases e)
    case (FrameReceived d)
    then show ?thesis
      using receive by (cases rule: onCommandReceived_cases [of pc d s]) (auto simp: dispatch_event_def)
  qed (use receive in \<open>simp add: dispatch_event_def\<close>)
qed auto

text \<open>A promise that no slot holds is never settled by a later step.\<close>

definition orphaned :: "rnode \<Rightarrow> nat \<Rightarrow> bool" where
  "orphaned s p \<longleftrightarrow> p < next_promise s \<and> settled s p = None \<and> (\<forall>c. callbacks s c \<noteq> Some (Resolve p))"

lemma orphaned_step: "rnode_step pc s t \<Longrightarrow> orphaned s p \<Longrightarrow> orphaned t p"
proof (induction rule: rnode_step.induct)
  case (receive s e)
  show ?case
  proof (cases e)
    case (FrameReceived d)
    then show ?thesis
      using receive
      by (cases rule: onCommandReceived_cases [of pc d s])
        (auto simp: dispatch_event_def orphaned_def split: if_splits)
  qed (use receive in \<open>simp add: dispatch_event_def\<close>)
qed (auto simp: orphaned_def)

lemma orphaned_run: "rnode_run pc s t \<Longrightarrow> orphaned s p \<Longrightarrow> orphaned t p"
  unfolding rnode_run_def by (induction rule: rtranclp_induct) (auto intro: orphaned_step)

text \<open>
  A second request for the same command takes the slot of the first one, whose promise then
  never settles: whatever requests and frames follow, the first caller waits forever. Every later
  response of that command goes to the second caller.
\<close>

theorem second_request_orphans_first:
  assumes "rnode_run pinCallback init_rnode s"
    and "sendCommand True c d s = (s1, p)"
    and "sendCommand True c d' s1 = (s2, q)"
    and "rnode_run pinCallback s2 t"
  shows "settled t p = None \<and> exchange_result e t p = None"
proof -
  from assms(1) have inv: "rnode_inv s" using rnode_run_inv rnode_inv_init by blast
  from assms(2,3) have s: "s1 = fst (sendCommand True c d s)" "p = next_promise s"
    "s2 = fst (sendCommand True c d' s1)"
    using sendCommand_fields(4) [of True c d s] by simp_all
  have "orphaned s2 p"
    using inv by (auto simp: orphaned_def s rnode_inv_def)
  then have "orphaned t p" using assms(4) orphaned_run by blast
  then show ?thesis by (simp add: orphaned_def exchange_result_def)
qed

theorem second_request_orphans_first_witness:
  "settled (fst (sendCommand True CMD_MCU [0x00] (fst (sendCommand True CMD_MCU [0x00] init_rnode)))) 0 = None"
proof -
  let ?s1 = "fst (sendCommand True CMD_MCU [0x00] init_rnode)"
  have "sendCommand True CMD_MCU [0x00] init_rnode = (?s1, 0)"
    using sendCommand_fields(4) [of True CMD_MCU "[0x00]" init_rnode]
    by (simp add: prod_eq_iff init_rnode_def)
  moreover have "sendCommand True CMD_MCU [0x00] ?s1 = (fst (sendCommand True CMD_MCU [0x00] ?s1), 1)"
    using sendCommand_fields(4) [of True CMD_MCU "[0x00]" ?s1]
    by (simp add: prod_eq_iff init_rnode_def)
  moreover have "rnode_run (\<lambda>_. True) t t" for t by (simp add: rnode_run_def)
  ultimately show ?thesis
    using second_request_orphans_first [of "\<lambda>_. True" init_rnode] by blast
qed


subsection \<open>From a request to its response\<close>

text \<open>A promise waiting for the response of command \<open>c\<close>.\<close>

definition waits_for :: "int \<Rightarrow> nat \<Rightarrow> rnode \<Rightarrow> bool" where
  "waits_for c p s \<longleftrightarrow> rnode_inv s \<and> callbacks s c = Some (Resolve p) \<and> settled s p = None"

lemma waits_for_other:
  assumes "waits_for c p s" and "d = [] \<or> uint (hd d) \<noteq> c"
  shows "waits_for c p (onCommandReceived pc d s)"
proof -
  have inv: "rnode_inv s" using assms(1) by (simp add: waits_for_def)
  then have q: "callbacks s c' = Some (Resolve p) \<Longrightarrow> c' = c" for c'
    using assms(1) unfolding rnode_inv_def waits_for_def by blast
  have inv': "rnode_inv (onCommandReceived pc d s)" by (rule rnode_inv_receive [OF inv])
  show ?thesis
  proof (cases rule: onCommandReceived_cases [of pc d s])
    case ignored
    with assms(1) show ?thesis by simp
  next
    case (resolved c' bytes p')
    with assms(2) have "uint c' \<noteq> c" by simp
    with q resolved(2) have "p' \<noteq> p" by blast
    with resolved \<open>uint c' \<noteq> c\<close> assms(1) inv' show ?thesis by (simp add: waits_for_def)
  next
    case (pin c')
    with assms(1) have "c' \<noteq> c" by (auto simp: waits_for_def)
    with pin assms(1) inv' show ?thesis by (auto simp: waits_for_def)
  qed
qed

lemma waits_for_others:
  assumes "waits_for c p s" and "\<forall>(n, d) \<in> set items. d = [] \<or> uint (hd d) \<noteq> c"
  shows "waits_for c p (foldl (dispatch_event pc) s (map (\<lambda>(n, d). FrameReceived d) items))"
  using assms
proof (induction items arbitrary: s)
  case Nil
  then show ?case by simp
next
  case (Cons item items)
  obtain n d where item: "item = (n, d)" by (cases item)
  with Cons.prems have "waits_for c p (onCommandReceived pc d s)"
    by (intro waits_for_other) auto
  with Cons item show ?case by (simp add: dispatch_event_def)
qed

lemma exchange_waits:
  assumes "rnode_inv s" and "exchange_send True e s = (s1, p)"
  shows "waits_for (command e) p s1"
proof -
  from assms(2) have s1: "s1 = fst (sendCommand True (command e) (payload e) s)"
    and p: "p = next_promise s"
    using sendCommand_fields(4) [of True "command e" "payload e" s]
    by (simp_all add: exchange_send_def)
  have "settled s p = None" using assms(1) p by (simp add: rnode_inv_def)
  then show ?thesis
    using rnode_inv_request [OF assms(1)] by (simp add: waits_for_def s1 p)
qed

text \<open>
  C4. A request made in any reachable session gets its own response: when the device's frame for that
  command arrives, however chunked, after noise and after any frames of other commands, the awaiting
  function returns the decoded response and the slot is free again.
\<close>

theorem request_gets_response:
  assumes "rnode_run pinCallback init_rnode s"
    and "exchange_send True e s = (s1, p)"
    and "\<forall>(n, d) \<in> set items. fend \<notin> set n \<and> (d = [] \<or> uint (hd d) \<noteq> command e)"
    and "uint c = command e" and "fend \<notin> set noise"
    and "concat cs = wire (items @ [(noise, c # response)])"
  shows "\<exists>events s2. readLoop init_reader (map Chunk cs) = (init_reader, events, LoopWaiting)
    \<and> s2 = foldl (dispatch_event pinCallback) s1 events
    \<and> exchange_result e s2 p = Some (decode_response e response)
    \<and> callbacks s2 (command e) = None"
proof -
  have read: "readLoop init_reader (map Chunk cs) =
      (init_reader, map (\<lambda>(n, d). FrameReceived d) (items @ [(noise, c # response)]), LoopWaiting)"
    by (rule readLoop_delivers_frames) (use assms in auto)
  define s' where "s' = foldl (dispatch_event pinCallback) s1 (map (\<lambda>(n, d). FrameReceived d) items)"
  have "waits_for (command e) p s'"
    unfolding s'_def
    by (rule waits_for_others) (use assms exchange_waits rnode_run_inv rnode_inv_init in blast)+
  then have "exchange_result e (onCommandReceived pinCallback (c # response) s') p =
        Some (decode_response e response)
      \<and> callbacks (onCommandReceived pinCallback (c # response) s') (command e) = None"
    using assms(4)
    by (simp add: waits_for_def onCommandReceived_def exchange_result_def)
  with read show ?thesis
    by (simp add: s'_def dispatch_event_def)
qed

theorem request_gets_response_witness:
  "\<exists>events s2. readLoop init_reader (map Chunk [[0xC0, 0x47, 0x31, 0xC0, 0xFF, 0xC0], [0x48, 0x80], [0xC0]])
      = (init_reader, events, LoopWaiting)
    \<and> s2 = foldl (dispatch_event (\<lambda>_. True)) (fst (exchange_send True getPlatform init_rnode)) events
    \<and> exchange_result getPlatform s2 0 = Some (Inr (Some 0x80))
    \<and> callbacks s2 (command getPlatform) = None"
proof -
  have "exchange_send True getPlatform init_rnode = (fst (exchange_send True getPlatform init_rnode), 0)"
    using sendCommand_fields(4) [of True "command getPlatform" "payload getPlatform" init_rnode]
    by (simp add: exchange_send_def prod_eq_iff) (simp add: init_rnode_def)
  moreover have "rnode_run (\<lambda>_. True) init_rnode init_rnode" by (simp add: rnode_run_def)
  ultimately show ?thesis
    using request_gets_response [of "\<lambda>_. True" init_rnode getPlatform
        "fst (exchange_send True getPlatform init_rnode)" 0 "[([], [0x47, 0x31])]" "0x48" "[0xFF]"
        "[[0xC0, 0x47, 0x31, 0xC0, 0xFF, 0xC0], [0x48, 0x80], [0xC0]]" "[0x80]"]
    by (simp add: wire_eq kiss_escape_def getPlatform_def proto_defs first_byte_def)
qed

subsection \<open>Detection and the firmware version\<close>

lemma detect_settled: "detected d \<noteq> None \<Longrightarrow> detected (foldl detect d es) = detected d"
proof (induction es arbitrary: d)
  case (Cons e es)
  have "detected (detect d e) = detected d" using Cons.prems by (cases e) (auto simp: resolve_detect_def)
  then show ?case using Cons by simp
qed simp

text \<open>
  Detection settles once, with the first of timeout, response and failed send, and a response
  after the timeout does not change the answer; it answers true exactly when a response that starts
  with \<open>DETECT_RESP\<close> comes first.
\<close>

theorem detect_first_event_decides:
  "detected (foldl detect start_detect (e # es)) =
    Some (case e of DetectResponse (b # _) \<Rightarrow> b = 0x46 | _ \<Rightarrow> False)"
proof -
  have "detected (detect start_detect e) =
      Some (case e of DetectResponse (b # _) \<Rightarrow> b = 0x46 | _ \<Rightarrow> False)"
    by (cases e) (auto simp: start_detect_def resolve_detect_def proto_defs uint_byte_eq split: list.splits)
  then show ?thesis using detect_settled [of "detect start_detect e" es] by simp
qed

text \<open>
  The minor version is never padded: two digits after the dot appear only when the device's byte
  is at least 10, so firmware 1.05 and 1.5 read the same, and a response with fewer than two bytes
  makes the getter throw.
\<close>

theorem firmware_version_unpadded:
  "firmware_version response =
    (if length response < 2 then Inl TypeErr
     else Inr (show_nat (unat (response ! 0)) @ ''.'' @ show_nat (unat (response ! 1))))"
  by (auto simp: firmware_version_def number_length_def js_at_nth Let_def split: option.splits)

end
