(* ===== verification/Rom_Props.thy ===== *)
theory Rom_Props
  imports Rom RNode_Session
begin

text \<open>
  A device counts as provisioned exactly if the checksum in its EEPROM is the MD5 digest of its info
  section, and an image written field by field is parsed back field by field.
\<close>

subsection \<open>Hexadecimal and the digest over numbers\<close>

lemma bytesToHex_bytes: "bytesToHex (map (\<lambda>b. Some (uint (b :: byte))) bs) = concat (map hex2 bs)"
proof -
  have "show_hex (nat (js_ushr (uint b) 4)) @ show_hex (nat (js_and (uint b) 0xF)) = hex2 b" for b :: byte
    by (rule hex2_of_byte)
  moreover have "\<not> uint b < 0" for b :: byte by simp
  ultimately show ?thesis unfolding bytesToHex_def by (simp add: comp_def Let_def)
qed

lemma hex2_inject: "concat (map hex2 xs) = concat (map hex2 ys) \<longleftrightarrow> xs = ys"
  using hex_parse_bytes [of xs] hex_parse_bytes [of ys] by (metis holds_bytes_of option.inject)

lemma length_rfc_md5: "length (rfc_md5 sine bs) = 16"
proof -
  have "length (foldl (rfc_compress sine) h bl) = 4" if "length h = 4" for h bl
    using that by (induction bl arbitrary: h) (auto simp: rfc_compress_def Let_def split: prod.splits)
  then have "length (foldl (rfc_compress sine) rfc_init bl) = 4" for bl by (simp add: rfc_init_def)
  moreover have "length (concat (map (\<lambda>w. le_bytes 4 (unat w)) ws)) = 4 * length ws" for ws :: "32 word list"
    by (induction ws) (simp_all add: le_bytes_def)
  ultimately show ?thesis by (simp add: rfc_md5_def)
qed

lemma utils_md5_bytes:
  assumes "8 * length bs + 64 < 2 ^ 31"
  shows "utils_md5 sine (map (\<lambda>b. Some (uint b)) bs) = Some (map uint (rfc_md5 sine bs))"
proof -
  obtain m where m: "hex_parse (concat (map hex2 bs)) = Some m" "holds m bs" using hex_parse_bytes by blast
  have "map (byte_at (wds h)) [0..<sigBytes h] = map uint (bytes_of h)" for h
    by (simp add: bytes_of_def byte_at_wbyte comp_def)
  then show ?thesis using m MD5_digest [OF m(2) assms, of sine]
    by (simp add: utils_md5_def bytesToHex_bytes Let_def flip: byte_at_def) 
qed

subsection \<open>Reading the image\<close>

lemma js_at_take: "n + k \<le> length e \<Longrightarrow> map (\<lambda>i. js_at e (n + i)) [0..<k] = map Some (take k (drop n e))"
  by (intro nth_equalityI) (auto simp: js_at_nth)

lemma getChecksum_bytes: "27 \<le> length e \<Longrightarrow> getChecksum (new_rom e) = map Some (take 16 (drop 11 e))"
  using js_at_take [of 11 16 e] by (simp add: getChecksum_def new_rom_def proto_defs)

lemma info_section: "11 \<le> length e \<Longrightarrow>
    [getProduct (new_rom e), getModel (new_rom e), getHardwareRevision (new_rom e)]
      @ getSerialNumber (new_rom e) @ getMade (new_rom e) = map Some (take 11 e)"
  using js_at_take [of 0 11 e]
  by (simp add: getProduct_def getModel_def getHardwareRevision_def getSerialNumber_def getMade_def
      new_rom_def proto_defs upt_rec numeral_eq_Suc)

lemma as_numbers_Some: "as_numbers (map Some bs) = map (\<lambda>b. Some (uint b)) bs"
  by (simp add: as_numbers_def)

lemma locked_length: "isInfoLocked (new_rom e) \<Longrightarrow> 155 < length e"
  by (auto simp: isInfoLocked_def new_rom_def proto_defs js_at_nth split: if_splits)

lemma calculated_checksum: "11 \<le> length e \<Longrightarrow>
    getCalculatedChecksum sine (new_rom e) = Some (map uint (rfc_md5 sine (take 11 e)))"
  using utils_md5_bytes [of "take 11 e" sine]
  by (simp only: getCalculatedChecksum_def info_section as_numbers_Some) simp

lemma parse_provisioned:
  assumes "parse_rom sine (new_rom e) = Some d"
  shows "is_provisioned d \<longleftrightarrow> take 16 (drop 11 e) = rfc_md5 sine (take 11 e)"
proof -
  have lock: "isInfoLocked (new_rom e)" using assms by (simp add: parse_rom_def split: if_splits)
  then have l: "155 < length e" by (rule locked_length)
  let ?c = "take 16 (drop 11 e)" and ?m = "rfc_md5 sine (take 11 e)"
  have c: "bytesToHex (as_numbers (getChecksum (new_rom e))) = concat (map hex2 ?c)"
    using l by (simp only: getChecksum_bytes as_numbers_Some bytesToHex_bytes)
  have m: "bytesToHex (case getCalculatedChecksum sine (new_rom e) of Some c \<Rightarrow> map Some c | None \<Rightarrow> [])
      = concat (map hex2 ?m)"
    using l bytesToHex_bytes [of ?m] by (simp add: calculated_checksum comp_def)
  show ?thesis using assms lock hex2_inject [of ?c ?m] by (auto simp: parse_rom_def Let_def c m)
qed

lemma parse_locked: "parse_rom sine (new_rom e) = None \<longleftrightarrow> js_at e 0x9B \<noteq> Some 0x73"
  by (simp add: parse_rom_def Let_def isInfoLocked_def new_rom_def proto_defs)

text \<open>
  C30. \<open>parse\<close> answers details exactly for a locked image, and then calls the device provisioned exactly
  if the 16 bytes at the checksum address are the RFC 1321 digest of the eleven info bytes before
  them.
\<close>

theorem rom_provisioned_iff:
  "(parse_rom sine (new_rom e) = None) = (js_at e 0x9B \<noteq> Some 0x73)
   \<and> map_option is_provisioned (parse_rom sine (new_rom e)) =
     (if js_at e 0x9B = Some 0x73 then Some (take 16 (drop 11 e) = rfc_md5 sine (take 11 e)) else None)"
  using parse_provisioned [of sine e] parse_locked [of sine e] by (cases "parse_rom sine (new_rom e)") auto

subsection \<open>Writing and reading numbers\<close>

lemma pack_nth: "packUInt32BE v = [ucast (drop_bit 24 (i32 v)), ucast (drop_bit 16 (i32 v)),
    ucast (drop_bit 8 (i32 v)), ucast (i32 v)]"
  by (simp add: packUInt32BE_def upt_rec numeral_eq_Suc)

lemma uint_byte_of: "uint (ucast (drop_bit n w) :: byte) = uint (w :: 32 word) div 2 ^ n mod 256"
proof -
  have "uint (ucast (drop_bit n w) :: byte) = take_bit 8 (drop_bit n (uint w))"
    by (rule bit_eqI) (auto simp: bit_simps dest: bit_imp_le_length)
  then show ?thesis by (simp add: drop_bit_eq_div take_bit_eq_mod)
qed

lemma base256_int:
  assumes "0 \<le> u" and "u < 4294967296"
  shows "u div 16777216 mod 256 * 16777216 + u div 65536 mod 256 * 65536 + u div 256 mod 256 * 256 + u mod 256 = (u :: int)"
proof -
  define x y z where "x = u div 256" and "y = x div 256" and "z = y div 256"
  have d: "u div 65536 = y" "u div 16777216 = z"
    using zdiv_zmult2_eq [of 256 u 256] zdiv_zmult2_eq [of 65536 u 256] zdiv_zmult2_eq [of 256 "u div 256" 256]
    by (simp_all add: x_def y_def z_def)
  have e: "u = 256 * x + u mod 256" "x = 256 * y + x mod 256" "y = 256 * z + y mod 256"
    by (simp_all add: x_def y_def z_def)
  have "0 \<le> u mod 256" "0 \<le> x mod 256" "0 \<le> y mod 256" by simp_all
  then have "z < 256" using e assms(2) by linarith
  moreover have "0 \<le> z" using assms(1) by (simp add: x_def y_def z_def pos_imp_zdiv_nonneg_iff)
  ultimately have "z mod 256 = z" by simp
  then show ?thesis using e unfolding d by (simp flip: x_def)
qed

lemma unpack_pack: "unpackUInt32BE (map Some (packUInt32BE v)) = Some (v mod 2 ^ 32)"
proof -
  define w where "w = i32 v"
  have u: "uint w = v mod 2 ^ 32" by (simp add: w_def i32_def unsigned_of_int take_bit_eq_mod)
  have r: "0 \<le> uint w" "uint w < 4294967296" unfolding u by simp_all
  have p: "(2 :: int) ^ 24 = 16777216" "(2 :: int) ^ 16 = 65536" "(2 :: int) ^ 8 = 256" by simp_all
  note b = uint_byte_of [of 24 w, unfolded p] uint_byte_of [of 16 w, unfolded p] uint_byte_of [of 8 w, unfolded p]
    uint_byte_of [of 0 w, unfolded drop_bit_0 id_apply power_0 div_by_1]
  have "unpackUInt32BE (map Some [b0, b1, b2, b3]) =
      Some (uint b0 * 16777216 + uint b1 * 65536 + uint b2 * 256 + uint b3)" for b0 b1 b2 b3 :: byte
    by (simp add: unpackUInt32BE_def)
  then have "unpackUInt32BE (map Some (packUInt32BE v)) = Some (uint (ucast (drop_bit 24 w) :: byte) * 16777216
      + uint (ucast (drop_bit 16 w) :: byte) * 65536 + uint (ucast (drop_bit 8 w) :: byte) * 256 + uint (ucast w :: byte))"
    unfolding pack_nth w_def [symmetric] .
  also have "\<dots> = Some (uint w)" by (simp only: b base256_int [OF r])
  finally show ?thesis by (simp only: u)
qed

lemma be32_pack:
  assumes "\<And>i. i < 4 \<Longrightarrow> js_at bs (n + i) = Some (packUInt32BE v ! i)"
  shows "be32_at bs n = sint (i32 v)"
proof -
  have a: "js_at bs n = Some (ucast (drop_bit 24 (i32 v)))" "js_at bs (n + 1) = Some (ucast (drop_bit 16 (i32 v)))"
    "js_at bs (n + 2) = Some (ucast (drop_bit 8 (i32 v)))" "js_at bs (n + 3) = Some (ucast (i32 v))"
    using assms [of 0] assms [of 1] assms [of 2] assms [of 3] by (simp_all add: pack_nth)
  have "i32 (be32_at bs n) = ((push_bit 24 (ucast (ucast (drop_bit 24 (i32 v)) :: byte))
      OR push_bit 16 (ucast (ucast (drop_bit 16 (i32 v)) :: byte)))
      OR push_bit 8 (ucast (ucast (drop_bit 8 (i32 v)) :: byte))) OR ucast (ucast (i32 v) :: byte)"
    by (simp add: be32_at_def num_at_def a [simplified] js_bits i32_uint_byte)
  also have "\<dots> = i32 v" (is "?l = _")
  proof (rule bit_word_eqI)
    fix k :: nat assume k: "k < LENGTH(32)"
    consider "k < 8" | "8 \<le> k \<and> k < 16" | "16 \<le> k \<and> k < 24" | "24 \<le> k" by linarith
    then show "bit ?l k \<longleftrightarrow> bit (i32 v) k" using k by cases (auto simp: bit_simps)
  qed
  finally show ?thesis using be32_at_int32 [of bs n] by simp
qed

subsection \<open>An image written field by field\<close>

definition rom_image :: "byte list \<Rightarrow> int \<Rightarrow> int \<Rightarrow> byte list \<Rightarrow> byte list \<Rightarrow> byte list \<Rightarrow> int \<Rightarrow> int \<Rightarrow> byte list" where
  "rom_image ids serial date digest signature conf bw freq =
     ids @ packUInt32BE serial @ packUInt32BE date @ digest @ signature @ [INFO_LOCK_BYTE] @ conf
       @ packUInt32BE bw @ packUInt32BE freq @ [CONF_OK_BYTE]"

lemma length_pack [simp]: "length (packUInt32BE v) = 4"
  by (simp add: packUInt32BE_def)

text \<open>
  C31. What is written field by field is parsed back field by field: the three identity bytes, the
  serial number and the date as unsigned 32-bit numbers, the configuration with frequency and
  bandwidth as signed ones; with the digest of the info section in place the device is provisioned.
\<close>

theorem rom_roundtrip:
  assumes "length ids = 3" and "length signature = 128" and "length conf = 3"
    and "digest = rfc_md5 sine (ids @ packUInt32BE serial @ packUInt32BE date)"
    and "parse_rom sine (new_rom (rom_image ids serial date digest signature conf bw freq)) = Some d"
  shows "is_provisioned d \<and> is_configured d
    \<and> [product d, model d, hardware_revision d] = map Some ids
    \<and> serial_number d = Some (serial mod 2 ^ 32) \<and> made d = Some (date mod 2 ^ 32)
    \<and> configuration d = Some \<lparr>configured_spreading_factor = Some (conf ! 0), configured_coding_rate = Some (conf ! 1),
        configured_tx_power = Some (conf ! 2), configured_frequency = sint (i32 freq), configured_bandwidth = sint (i32 bw)\<rparr>"
proof -
  let ?e = "rom_image ids serial date digest signature conf bw freq"
  have l: "length digest = 16" by (simp add: assms(4) length_rfc_md5)
  note sizes = assms(1-3) l
  have lock: "isInfoLocked (new_rom ?e)" and ok: "isConfigured (new_rom ?e)"
    by (simp_all add: isInfoLocked_def isConfigured_def new_rom_def proto_defs rom_image_def js_at_append sizes)
  have "is_provisioned d"
    using parse_provisioned [OF assms(5)] assms(4) sizes by (simp add: rom_image_def)
  moreover have ids: "[getProduct (new_rom ?e), getModel (new_rom ?e), getHardwareRevision (new_rom ?e)] = map Some ids"
    using sizes(1) by (cases ids rule: list.exhaust; cases "tl ids"; cases "tl (tl ids)")
      (auto simp: getProduct_def getModel_def getHardwareRevision_def new_rom_def proto_defs rom_image_def)
  moreover have "getSerialNumber (new_rom ?e) = map Some (packUInt32BE serial)"
    "getMade (new_rom ?e) = map Some (packUInt32BE date)"
  proof -
    have four: "map Some (packUInt32BE v) = [Some (packUInt32BE v ! 0), Some (packUInt32BE v ! 1),
        Some (packUInt32BE v ! 2), Some (packUInt32BE v ! 3)]" for v by (simp add: pack_nth)
    have s: "js_at ?e 3 = Some (packUInt32BE serial ! 0)" "js_at ?e 4 = Some (packUInt32BE serial ! 1)"
      "js_at ?e 5 = Some (packUInt32BE serial ! 2)" "js_at ?e 6 = Some (packUInt32BE serial ! 3)"
      "js_at ?e 7 = Some (packUInt32BE date ! 0)" "js_at ?e 8 = Some (packUInt32BE date ! 1)"
      "js_at ?e 9 = Some (packUInt32BE date ! 2)" "js_at ?e 10 = Some (packUInt32BE date ! 3)"
      by (simp_all add: rom_image_def js_at_append sizes) (simp_all add: js_at_nth sizes)
    show "getSerialNumber (new_rom ?e) = map Some (packUInt32BE serial)"
      "getMade (new_rom ?e) = map Some (packUInt32BE date)"
      unfolding four by (simp_all add: getSerialNumber_def getMade_def new_rom_def proto_defs s)
  qed
  moreover have "configuration_of (new_rom ?e) = \<lparr>configured_spreading_factor = Some (conf ! 0),
      configured_coding_rate = Some (conf ! 1), configured_tx_power = Some (conf ! 2),
      configured_frequency = sint (i32 freq), configured_bandwidth = sint (i32 bw)\<rparr>"
  proof -
    have "be32_at ?e 163 = sint (i32 freq)" "be32_at ?e 159 = sint (i32 bw)"
      by (rule be32_pack; simp add: rom_image_def js_at_append sizes; simp add: js_at_nth sizes)+
    then show ?thesis
      by (simp add: configuration_of_def getConfiguredSpreadingFactor_def getConfiguredCodingRate_def
          getConfiguredTxPower_def getConfiguredFrequency_def getConfiguredBandwidth_def new_rom_def proto_defs)
        (simp add: rom_image_def js_at_append sizes, simp add: js_at_nth sizes)
  qed
  ultimately show ?thesis
    using assms(5) lock ok by (auto simp: parse_rom_def Let_def unpack_pack split: if_splits)
qed

definition sample_image :: "byte list" where
  "sample_image = rom_image [0x03, 0xA4, 0x01] 7 1735689600
     (rfc_md5 (\<lambda>x. 1 / x) ([0x03, 0xA4, 0x01] @ packUInt32BE 7 @ packUInt32BE 1735689600))
     (replicate 128 0) [7, 5, 17] 125000 868000000"

lemma sample_parsed: "parse_rom (\<lambda>x. 1 / x) (new_rom sample_image) = Some (the (parse_rom (\<lambda>x. 1 / x) (new_rom sample_image)))"
proof -
  have "js_at sample_image 0x9B = Some 0x73"
    by (simp add: sample_image_def rom_image_def js_at_append length_rfc_md5 proto_defs)
  then show ?thesis using parse_locked [of "\<lambda>x. 1 / x" sample_image] by auto
qed

lemma rom_roundtrip_witness:
  "serial_number (the (parse_rom (\<lambda>x. 1 / x) (new_rom sample_image))) = Some 7
   \<and> is_provisioned (the (parse_rom (\<lambda>x. 1 / x) (new_rom sample_image)))"
  using rom_roundtrip [OF _ _ _ refl sample_parsed [unfolded sample_image_def]]
  unfolding sample_image_def by simp

end
