(* ===== verification/JsNum.thy ===== *)
theory JsNum
  imports Complex_Main JsStr
begin

text \<open>
  JavaScript numbers: IEEE-754 double precision on rationals. \<open>fl\<close> rounds an exact result to the
  nearest double, ties to even, gradual underflow included; \<open>number\<close> adds the infinities and \<open>NaN\<close>.
  The sign of zero is not represented: no modelled operation divides by a zero or observes its sign.
\<close>

subsection \<open>Rounding to an integer, ties to even\<close>

definition round_even :: "rat \<Rightarrow> int" where
  "round_even y = (let f = \<lfloor>y\<rfloor>; d = y - of_int f in
     if d < 1 / 2 \<or> (d = 1 / 2 \<and> even f) then f else f + 1)"

lemma round_even_int [simp]: "round_even (of_int n) = n"
  by (simp add: round_even_def)

lemma round_even_0 [simp]: "round_even 0 = 0"
  using round_even_int [of 0] by simp

lemma round_even_bounds: "y - 1 / 2 \<le> of_int (round_even y)" "of_int (round_even y) \<le> y + 1 / 2"
  unfolding round_even_def Let_def by (auto split: if_splits) linarith+

lemma round_even_mono: "x \<le> y \<Longrightarrow> round_even x \<le> round_even y"
proof -
  assume le: "x \<le> y"
  show ?thesis
  proof (cases "\<lfloor>x\<rfloor> = \<lfloor>y\<rfloor>")
    case True
    with le show ?thesis unfolding round_even_def Let_def by auto
  next
    case False
    with le have "\<lfloor>x\<rfloor> + 1 \<le> \<lfloor>y\<rfloor>" using floor_mono [OF le] by linarith
    moreover have "round_even x \<le> \<lfloor>x\<rfloor> + 1" "\<lfloor>y\<rfloor> \<le> round_even y"
      by (simp_all add: round_even_def Let_def)
    ultimately show ?thesis by linarith
  qed
qed

lemma round_even_minus: "round_even (- y) = - round_even y"
proof (cases "y = of_int \<lfloor>y\<rfloor>")
  case True
  then show ?thesis by (metis of_int_minus round_even_int)
next
  case False
  then have "\<lfloor>- y\<rfloor> = - \<lfloor>y\<rfloor> - 1"
    by (auto simp: floor_minus ceiling_altdef split: if_splits)
  then show ?thesis by (auto simp: round_even_def Let_def)
qed

subsection \<open>The binary exponent\<close>

fun bits :: "nat \<Rightarrow> nat" where
  "bits n = (if n = 0 then 0 else Suc (bits (n div 2)))"

declare bits.simps [simp del]

lemma double_half: "(e :: nat) \<le> n div 2 \<Longrightarrow> n div 2 < 2 * e \<Longrightarrow> 2 * e \<le> n \<and> n < 2 * (2 * e)"
  by presburger

lemma bits_bounds: "0 < n \<Longrightarrow> 2 ^ (bits n - 1) \<le> n \<and> n < 2 ^ bits n"
proof (induction n rule: bits.induct)
  case (1 n)
  show ?case
  proof (cases "n = 1")
    case True
    then show ?thesis by (simp add: bits.simps)
  next
    case False
    with "1.prems" have half: "0 < n div 2" by simp
    with 1 have "2 ^ (bits (n div 2) - 1) \<le> n div 2" "n div 2 < 2 ^ bits (n div 2)" by auto
    moreover have "bits n = Suc (bits (n div 2))" using "1.prems" by (simp add: bits.simps [of n])
    moreover have "0 < bits (n div 2)" using half by (simp add: bits.simps [of "n div 2"])
    then have "(2 :: nat) ^ bits (n div 2) = 2 * 2 ^ (bits (n div 2) - 1)"
      by (metis Suc_diff_1 power_Suc)
    ultimately show ?thesis
      using double_half [of "2 ^ (bits (n div 2) - 1)" n] by (simp only: power_Suc diff_Suc_1)
  qed
qed

definition elog2 :: "rat \<Rightarrow> int" where
  "elog2 x = (let (p, q) = quotient_of x; k = int (bits (nat p)) - int (bits (nat q))
     in if 2 powi k \<le> x then k else k - 1)"

lemma bits_rat:
  assumes "0 < p"
  shows "(2 :: rat) powi (int (bits (nat p)) - 1) \<le> of_int p"
    and "of_int p < (2 :: rat) powi int (bits (nat p))"
proof -
  define m where "m = bits (nat p) - 1"
  obtain n where n: "p = int n" "0 < n" using assms zero_less_imp_eq_int by blast
  have b: "2 ^ m \<le> n" "n < 2 ^ bits n" using bits_bounds [OF n(2)] by (simp_all add: m_def n)
  have e: "int (bits (nat p)) - 1 = int m"
    using n by (simp add: m_def bits.simps [of n])
  have "((2 :: rat) ^ m) \<le> of_nat n"
    using b(1) by (metis of_nat_le_iff of_nat_numeral of_nat_power)
  then show "(2 :: rat) powi (int (bits (nat p)) - 1) \<le> of_int p"
    unfolding e by (simp add: n)
  have "of_nat n < ((2 :: rat) ^ bits n)"
    using b(2) by (metis of_nat_less_iff of_nat_numeral of_nat_power)
  then show "of_int p < (2 :: rat) powi int (bits (nat p))" by (simp add: n)
qed

lemma elog2_bounds:
  assumes "0 < x"
  shows "2 powi elog2 x \<le> x" and "x < 2 powi (elog2 x + 1)"
proof -
  obtain p q where pq: "quotient_of x = (p, q)" by fastforce
  have q: "0 < q" using quotient_of_denom_pos [OF pq] .
  have x: "x = of_int p / of_int q" using quotient_of_div [OF pq] .
  with assms q have p: "0 < p" by (simp add: zero_less_divide_iff)
  define k where "k = int (bits (nat p)) - int (bits (nat q))"
  note bp = bits_rat [OF p] and bq = bits_rat [OF q]
  have "2 powi (k - 1) * of_int q \<le> 2 powi (k - 1) * (2 :: rat) powi int (bits (nat q))"
    using bq(2) by (intro mult_left_mono) (simp_all add: less_imp_le)
  also have "\<dots> = 2 powi (int (bits (nat p)) - 1)"
    unfolding k_def by (subst power_int_add [symmetric]) (simp_all add: algebra_simps)
  also note bp(1)
  finally have low: "2 powi (k - 1) \<le> x" using q by (simp add: x pos_le_divide_eq)
  have "of_int p < 2 powi (k + 1) * (2 :: rat) powi (int (bits (nat q)) - 1)"
    using bp(2) unfolding k_def by (subst power_int_add [symmetric]) (simp_all add: algebra_simps)
  also have "\<dots> \<le> 2 powi (k + 1) * of_int q" using bq(1) by simp
  finally have high: "x < 2 powi (k + 1)" using q by (simp add: x pos_divide_less_eq)
  have e: "elog2 x = (if 2 powi k \<le> x then k else k - 1)" by (simp add: elog2_def pq k_def)
  show "2 powi elog2 x \<le> x" using low by (simp add: e)
  show "x < 2 powi (elog2 x + 1)" using high by (simp add: e not_le)
qed

lemma elog2_mono: "0 < x \<Longrightarrow> x \<le> y \<Longrightarrow> elog2 x \<le> elog2 y"
proof -
  assume "0 < x" "x \<le> y"
  then have "(2 :: rat) powi elog2 x < 2 powi (elog2 y + 1)"
    using elog2_bounds(1) [of x] elog2_bounds(2) [of y] by linarith
  then have "\<not> elog2 y + 1 \<le> elog2 x"
    using power_int_increasing [of "elog2 y + 1" "elog2 x" "2 :: rat"] by auto
  then show ?thesis by simp
qed

subsection \<open>Rounding to double precision\<close>

text \<open>The distance of neighbouring doubles at the magnitude of a positive \<open>x\<close>.\<close>

definition ulp_exp :: "rat \<Rightarrow> int" where
  "ulp_exp x = max (elog2 x) (- 1022) - 52"

definition fl :: "rat \<Rightarrow> rat" where
  "fl x = (if x = 0 then 0 else
     let u = 2 powi ulp_exp \<bar>x\<bar> in of_int (round_even (x / u)) * u)"

lemma fl_0 [simp]: "fl 0 = 0"
  by (simp add: fl_def)

lemma fl_minus: "fl (- x) = - fl x"
  by (simp add: fl_def Let_def round_even_minus)

lemma fl_nonneg: "0 \<le> x \<Longrightarrow> 0 \<le> fl x"
proof -
  assume x: "0 \<le> x"
  have "round_even 0 \<le> round_even (x / 2 powi ulp_exp \<bar>x\<bar>)"
    using x by (intro round_even_mono) simp
  then show ?thesis by (simp add: fl_def Let_def)
qed

lemma ulp_exp_mono: "0 < x \<Longrightarrow> x \<le> y \<Longrightarrow> ulp_exp x \<le> ulp_exp y"
  using elog2_mono [of x y] by (simp add: ulp_exp_def)

text \<open>A value of a binade rounds into the closed binade.\<close>

lemma fl_below:
  assumes "0 < x"
  shows "fl x \<le> 2 powi (ulp_exp x + 53)"
proof -
  let ?u = "(2 :: rat) powi ulp_exp x"
  have "x < 2 powi (elog2 x + 1)" using elog2_bounds(2) [OF assms] .
  also have "\<dots> \<le> 2 powi (ulp_exp x + 53)"
    by (rule power_int_increasing) (simp_all add: ulp_exp_def)
  finally have "x / ?u \<le> of_int (2 ^ 53)"
    by (simp add: power_int_add pos_divide_le_eq mult.commute less_imp_le)
  then have "round_even (x / ?u) \<le> 2 ^ 53"
    using round_even_mono round_even_int by metis
  then have "(of_int (round_even (x / ?u)) :: rat) \<le> of_int (2 ^ 53)" by (simp only: of_int_le_iff)
  then show ?thesis using assms by (simp add: fl_def Let_def power_int_add mult.commute)
qed

lemma fl_above:
  assumes "0 < x" and "- 1022 \<le> elog2 x"
  shows "2 powi (ulp_exp x + 52) \<le> fl x"
proof -
  let ?u = "(2 :: rat) powi ulp_exp x"
  have "2 powi (ulp_exp x + 52) \<le> x"
    using elog2_bounds(1) [OF assms(1)] assms(2) by (simp add: ulp_exp_def)
  then have "of_int (2 ^ 52) \<le> x / ?u"
    by (simp add: power_int_add pos_le_divide_eq mult.commute)
  then have "2 ^ 52 \<le> round_even (x / ?u)"
    using round_even_mono round_even_int by metis
  then have "of_int (2 ^ 52) \<le> (of_int (round_even (x / ?u)) :: rat)" by (simp only: of_int_le_iff)
  then show ?thesis using assms by (simp add: fl_def Let_def power_int_add mult.commute)
qed

lemma fl_mono_pos:
  assumes "0 < x" and "x \<le> y"
  shows "fl x \<le> fl y"
proof (cases "ulp_exp x = ulp_exp y")
  case True
  have "round_even (x / 2 powi ulp_exp y) \<le> round_even (y / 2 powi ulp_exp y)"
    using assms by (intro round_even_mono) (simp add: divide_right_mono)
  with True assms show ?thesis by (simp add: fl_def Let_def)
next
  case False
  with ulp_exp_mono [OF assms] have less: "ulp_exp x < ulp_exp y" by simp
  then have "- 1022 \<le> elog2 y" by (auto simp: ulp_exp_def)
  with assms have "2 powi (ulp_exp y + 52) \<le> fl y" by (intro fl_above) simp_all
  moreover have "fl x \<le> 2 powi (ulp_exp x + 53)" using fl_below [OF assms(1)] .
  moreover have "(2 :: rat) powi (ulp_exp x + 53) \<le> 2 powi (ulp_exp y + 52)"
    using less by (intro power_int_increasing) simp_all
  ultimately show ?thesis by linarith
qed

lemma fl_mono: "x \<le> y \<Longrightarrow> fl x \<le> fl y"
proof -
  assume le: "x \<le> y"
  consider "0 < x" | "x \<le> 0" "0 \<le> y" | "y < 0" by linarith
  then show ?thesis
  proof cases
    case 1
    then show ?thesis using le by (rule fl_mono_pos)
  next
    case 2
    then have "fl (- x) \<ge> 0" "fl y \<ge> 0" by (auto intro: fl_nonneg)
    then show ?thesis by (simp add: fl_minus)
  next
    case 3
    then have "fl (- y) \<le> fl (- x)" using le by (intro fl_mono_pos) simp_all
    then show ?thesis by (simp add: fl_minus)
  qed
qed

text \<open>A multiple of a power of two that fits in 53 bits is exact.\<close>

lemma fl_exact_pos:
  assumes "0 < n" and "n < 2 ^ 53" and "- 1074 \<le> k"
  shows "fl (of_int n * 2 powi k) = of_int n * 2 powi k"
proof -
  let ?x = "of_int n * (2 :: rat) powi k"
  have pos: "0 < ?x" using assms by simp
  have "(of_int n :: rat) < of_int (2 ^ 53)" using assms(2) by (simp only: of_int_less_iff)
  then have "?x < 2 powi (k + 53)" by (simp add: power_int_add mult.commute)
  with elog2_bounds(1) [OF pos] have "(2 :: rat) powi elog2 ?x < 2 powi (k + 53)" by linarith
  then have "\<not> k + 53 \<le> elog2 ?x"
    using power_int_increasing [of "k + 53" "elog2 ?x" "2 :: rat"] by auto
  with assms(3) have "ulp_exp ?x \<le> k" by (simp add: ulp_exp_def)
  then obtain j where j: "k = ulp_exp ?x + int j" using zle_iff_zadd by blast
  define m u where "m = n * 2 ^ j" and "u = (2 :: rat) powi ulp_exp ?x"
  have x: "?x = of_int m * u"
    by (subst (1) j) (simp add: m_def u_def power_int_add)
  have "fl ?x = of_int (round_even (?x / u)) * u"
    using pos by (simp add: fl_def Let_def u_def)
  also have "?x / u = of_int m"
  proof -
    have "u \<noteq> 0" by (simp add: u_def)
    then show ?thesis by (simp add: x)
  qed
  finally show ?thesis by (simp add: x)
qed

lemma fl_exact:
  assumes "\<bar>n\<bar> \<le> 2 ^ 53" and "- 1074 \<le> k"
  shows "fl (of_int n * 2 powi k) = of_int n * 2 powi k"
proof -
  have pos: "fl (of_int n * 2 powi k) = of_int n * 2 powi k" if "0 < n" "n \<le> 2 ^ 53" for n
  proof (cases "n = 2 ^ 53")
    case True
    then have "of_int n * (2 :: rat) powi k = of_int 1 * 2 powi (k + 53)"
      by (simp add: power_int_add)
    then show ?thesis using fl_exact_pos [of 1 "k + 53"] assms(2) by simp
  next
    case False
    with that assms(2) show ?thesis by (intro fl_exact_pos) simp_all
  qed
  consider "n = 0" | "0 < n" | "0 < - n" by linarith
  then show ?thesis
  proof cases
    case 3
    with assms(1) pos [of "- n"] fl_minus [of "of_int (- n) * 2 powi k"] show ?thesis by simp
  qed (use assms pos in simp_all)
qed

lemma fl_int: "\<bar>n\<bar> \<le> 2 ^ 53 \<Longrightarrow> fl (of_int n) = of_int n"
  using fl_exact [of n 0] by simp

lemma fl_idem: "fl (fl x) = fl x"
proof (cases "x = 0")
  case False
  define u where "u = (2 :: rat) powi ulp_exp \<bar>x\<bar>"
  have pos: "0 < \<bar>x\<bar>" using False by simp
  have x: "fl x = of_int (round_even (x / u)) * u" using False by (simp add: fl_def Let_def u_def)
  have "fl \<bar>x\<bar> = \<bar>fl x\<bar>"
    using fl_minus [of x] fl_nonneg [of x] fl_nonneg [of "- x"] by (cases "0 \<le> x") simp_all
  with fl_below [OF pos] x have "\<bar>of_int (round_even (x / u))\<bar> * u \<le> of_int (2 ^ 53) * u"
    by (simp add: abs_mult u_def power_int_add mult.commute)
  then have "\<bar>round_even (x / u)\<bar> \<le> 2 ^ 53"
    unfolding u_def by (simp add: mult_le_cancel_right_pos flip: of_int_abs of_int_le_iff)
  then show ?thesis unfolding x u_def by (rule fl_exact) (simp add: ulp_exp_def)
qed simp

subsection \<open>Formatting\<close>

text \<open>
  \<open>x.toFixed(f)\<close> below \<open>1e21\<close>: the integer nearest to the exact value of \<open>x * 10^f\<close>, the larger one on a
  tie, written with \<open>f\<close> decimals; the sign is taken off first.
\<close>

definition pad_left :: "nat \<Rightarrow> string \<Rightarrow> string" where
  "pad_left n s = replicate (n - length s) CHR ''0'' @ s"

definition fixed_digits :: "nat \<Rightarrow> nat \<Rightarrow> string" where
  "fixed_digits f n =
     (if f = 0 then show_nat n
      else show_nat (n div 10 ^ f) @ ''.'' @ pad_left f (show_nat (n mod 10 ^ f)))"

definition toFixed :: "nat \<Rightarrow> rat \<Rightarrow> string" where
  "toFixed f x =
     (if x < 0 then ''-'' else '''') @ fixed_digits f (nat \<lfloor>\<bar>x\<bar> * 10 ^ f + 1 / 2\<rfloor>)"

lemma toFixed_nearest:
  "\<bar>of_int \<lfloor>\<bar>x\<bar> * 10 ^ f + 1 / 2\<rfloor> - \<bar>x :: rat\<bar> * 10 ^ f\<bar> \<le> 1 / 2"
  by linarith

subsection \<open>Numbers with infinities\<close>

datatype number = Fin rat | PosInf | NegInf | NaN

definition round_num :: "rat \<Rightarrow> number" where
  "round_num x = (let y = fl x in
     if 2 ^ 1024 \<le> y then PosInf else if y \<le> - (2 ^ 1024) then NegInf else Fin y)"

fun n_neg :: "number \<Rightarrow> number" where
  "n_neg (Fin x) = Fin (- x)"
| "n_neg PosInf = NegInf"
| "n_neg NegInf = PosInf"
| "n_neg NaN = NaN"

fun n_add :: "number \<Rightarrow> number \<Rightarrow> number" where
  "n_add (Fin x) (Fin y) = round_num (x + y)"
| "n_add NaN _ = NaN"
| "n_add _ NaN = NaN"
| "n_add PosInf NegInf = NaN"
| "n_add NegInf PosInf = NaN"
| "n_add PosInf _ = PosInf"
| "n_add NegInf _ = NegInf"
| "n_add (Fin _) y = y"

definition n_sub :: "number \<Rightarrow> number \<Rightarrow> number" where
  "n_sub x y = n_add x (n_neg y)"

text \<open>Products and quotients that involve an infinity, by the signs of the operands.\<close>

definition n_sgn :: "number \<Rightarrow> int" where
  "n_sgn x = (case x of Fin q \<Rightarrow> (if 0 < q then 1 else if q < 0 then - 1 else 0) | PosInf \<Rightarrow> 1 | NegInf \<Rightarrow> - 1 | NaN \<Rightarrow> 0)"

definition inf_of :: "int \<Rightarrow> number" where
  "inf_of s = (if 0 < s then PosInf else if s < 0 then NegInf else NaN)"

definition n_mul :: "number \<Rightarrow> number \<Rightarrow> number" where
  "n_mul x y = (case (x, y) of
     (Fin a, Fin b) \<Rightarrow> round_num (a * b)
   | _ \<Rightarrow> if x = NaN \<or> y = NaN then NaN else inf_of (n_sgn x * n_sgn y))"

definition n_div :: "number \<Rightarrow> number \<Rightarrow> number" where
  "n_div x y = (case (x, y) of
     (NaN, _) \<Rightarrow> NaN
   | (_, NaN) \<Rightarrow> NaN
   | (Fin a, Fin b) \<Rightarrow> if b = 0 then inf_of (n_sgn x) else round_num (a / b)
   | (Fin _, _) \<Rightarrow> Fin 0
   | (_, Fin b) \<Rightarrow> inf_of (n_sgn x * (if b = 0 then 1 else n_sgn y))
   | _ \<Rightarrow> NaN)"

fun n_lt :: "number \<Rightarrow> number \<Rightarrow> bool" where
  "n_lt (Fin x) (Fin y) \<longleftrightarrow> x < y"
| "n_lt (Fin _) PosInf \<longleftrightarrow> True"
| "n_lt NegInf (Fin _) \<longleftrightarrow> True"
| "n_lt NegInf PosInf \<longleftrightarrow> True"
| "n_lt _ _ \<longleftrightarrow> False"

definition n_le :: "number \<Rightarrow> number \<Rightarrow> bool" where
  "n_le x y \<longleftrightarrow> n_lt x y \<or> x = y \<and> x \<noteq> NaN"

text \<open>\<open>Math.max\<close> and \<open>Math.min\<close> of two arguments, \<open>Math.floor\<close>, \<open>Math.round\<close>, \<open>toFixed\<close>.\<close>

definition n_max :: "number \<Rightarrow> number \<Rightarrow> number" where
  "n_max x y = (if x = NaN \<or> y = NaN then NaN else if n_lt x y then y else x)"

definition n_min :: "number \<Rightarrow> number \<Rightarrow> number" where
  "n_min x y = (if x = NaN \<or> y = NaN then NaN else if n_lt y x then y else x)"

definition n_map :: "(rat \<Rightarrow> rat) \<Rightarrow> number \<Rightarrow> number" where
  "n_map f x = (case x of Fin q \<Rightarrow> Fin (f q) | _ \<Rightarrow> x)"

definition n_floor :: "number \<Rightarrow> number" where
  "n_floor = n_map (\<lambda>q. of_int \<lfloor>q\<rfloor>)"

definition n_round :: "number \<Rightarrow> number" where
  "n_round = n_map (\<lambda>q. of_int \<lfloor>q + 1 / 2\<rfloor>)"

definition n_show :: "(rat \<Rightarrow> string) \<Rightarrow> number \<Rightarrow> string" where
  "n_show f x = (case x of Fin q \<Rightarrow> f q | PosInf \<Rightarrow> ''Infinity'' | NegInf \<Rightarrow> ''-Infinity'' | NaN \<Rightarrow> ''NaN'')"

definition n_toFixed :: "nat \<Rightarrow> number \<Rightarrow> string" where
  "n_toFixed f = n_show (toFixed f)"

text \<open>\<open>String(n)\<close> of an integral number.\<close>

definition n_string :: "number \<Rightarrow> string" where
  "n_string = n_show (\<lambda>q. show_int \<lfloor>q\<rfloor>)"

lemma clamp_bounds:
  assumes "x \<noteq> NaN" and "lo \<le> hi"
  shows "\<exists>q. n_max (Fin lo) (n_min (Fin hi) x) = Fin q \<and> lo \<le> q \<and> q \<le> hi"
  using assms by (cases x) (auto simp: n_max_def n_min_def)

lemma round_num_fin: "\<bar>fl x\<bar> < 2 ^ 1024 \<Longrightarrow> round_num x = Fin (fl x)"
  by (auto simp: round_num_def Let_def)

end
