(* ===== verification/Dfu.thy ===== *)
theory Dfu
  imports Kiss JsNum
begin

text \<open>
  The nRF52 firmware flasher \<open>Nrf52DfuFlasher\<close> (\<open>rnode-flasher/js/nrf52_dfu_flasher.js\<close>): the CRC, the
  SLIP escaping, the HCI packet, and the transfer of a firmware image as a sequence of packets, waits
  and progress reports. Numbers in a packet under construction are JavaScript numbers; they become
  bytes when the packet is written to the port (or hashed). Waits and progress are computed in double
  precision (\<open>fl\<close> rounds each literal and each operation).
\<close>

subsection \<open>Constants\<close>

definition DFU_TOUCH_BAUD :: nat where [proto_defs]: "DFU_TOUCH_BAUD = 1200"
definition SERIAL_PORT_OPEN_WAIT_TIME :: rat where [proto_defs]: "SERIAL_PORT_OPEN_WAIT_TIME = fl (1 / 10)"
definition TOUCH_RESET_WAIT_TIME :: rat where [proto_defs]: "TOUCH_RESET_WAIT_TIME = fl (3 / 2)"
definition FLASH_BAUD :: nat where [proto_defs]: "FLASH_BAUD = 115200"
definition HEX_TYPE_APPLICATION :: int where [proto_defs]: "HEX_TYPE_APPLICATION = 4"
definition DFU_INIT_PACKET :: int where [proto_defs]: "DFU_INIT_PACKET = 1"
definition DFU_START_PACKET :: int where [proto_defs]: "DFU_START_PACKET = 3"
definition DFU_DATA_PACKET :: int where [proto_defs]: "DFU_DATA_PACKET = 4"
definition DFU_STOP_DATA_PACKET :: int where [proto_defs]: "DFU_STOP_DATA_PACKET = 5"
definition DATA_INTEGRITY_CHECK_PRESENT :: int where [proto_defs]: "DATA_INTEGRITY_CHECK_PRESENT = 1"
definition RELIABLE_PACKET :: int where [proto_defs]: "RELIABLE_PACKET = 1"
definition HCI_PACKET_TYPE :: int where [proto_defs]: "HCI_PACKET_TYPE = 14"
definition FLASH_PAGE_SIZE :: rat where [proto_defs]: "FLASH_PAGE_SIZE = 4096"
definition FLASH_PAGE_ERASE_TIME :: rat where [proto_defs]: "FLASH_PAGE_ERASE_TIME = fl (897 / 10000)"
definition FLASH_WORD_WRITE_TIME :: rat where [proto_defs]: "FLASH_WORD_WRITE_TIME = fl (1 / 10000)"
definition FLASH_PAGE_WRITE_TIME :: rat where
  [proto_defs]: "FLASH_PAGE_WRITE_TIME = fl (fl (FLASH_PAGE_SIZE / 4) * FLASH_WORD_WRITE_TIME)"
definition DFU_PACKET_MAX_SIZE :: nat where [proto_defs]: "DFU_PACKET_MAX_SIZE = 512"

subsection \<open>Bytes, checksum, escaping\<close>

definition int32ToBytes :: "int \<Rightarrow> int list" where
  "int32ToBytes num =
     [js_and num 0x000000ff,
      js_shr (js_and num 0x0000ff00) 8,
      js_shr (js_and num 0x00ff0000) 16,
      js_shr (js_and num 0xff000000) 24]"

definition int16ToBytes :: "int \<Rightarrow> int list" where
  "int16ToBytes num = [js_and num 0x00FF, js_shr (js_and num 0xFF00) 8]"

text \<open>One round of the loop of \<open>calcCrc16\<close>, statement by statement.\<close>

definition crc_round :: "int \<Rightarrow> byte \<Rightarrow> int" where
  "crc_round crc b =
     (let crc = js_or (js_and (js_shr crc 8) 0x00FF) (js_and (js_shl crc 8) 0xFF00);
          crc = js_xor crc (uint b);
          crc = js_xor crc (js_shr (js_and crc 0x00FF) 4);
          crc = js_xor crc (js_shl (js_shl crc 8) 4);
          crc = js_xor crc (js_shl (js_shl (js_and crc 0x00FF) 4) 1)
      in crc)"

definition calcCrc16 :: "byte list \<Rightarrow> int \<Rightarrow> int" where
  "calcCrc16 binaryData crc = js_and (foldl crc_round crc binaryData) 0xFFFF"

fun slipEncodeEscChars :: "int list \<Rightarrow> int list" where
  "slipEncodeEscChars [] = []"
| "slipEncodeEscChars (c # dataIn) =
     (if c = 0xC0 then [0xDB, 0xDC] else if c = 0xDB then [0xDB, 0xDD] else [c])
     @ slipEncodeEscChars dataIn"

definition createSlipHeader :: "int \<Rightarrow> int \<Rightarrow> int \<Rightarrow> int \<Rightarrow> int \<Rightarrow> byte list" where
  "createSlipHeader seq dip rp pktType pktLen =
     (let i0 = js_or (js_or (js_or seq (js_shl ((seq + 1) mod 8) 3)) (js_shl dip 6)) (js_shl rp 7);
          i1 = js_or pktType (js_shl (js_and pktLen 0x000F) 4);
          i2 = js_shr (js_and pktLen 0x0FF0) 4;
          i3 = js_and (js_not (i0 + i1 + i2) + 1) 0xFF
      in map u8 [i0, i1, i2, i3])"

subsection \<open>The flasher\<close>

text \<open>
  The object's fields, what it has done to the port and to the progress callback, and the number of
  writes so far. Whether the \<open>k\<close>-th write succeeds is an argument of the operations.
\<close>

datatype dfu_act =
    OpenPort nat
  | ClosePort
  | Packet "byte list"
  | SleepMillis rat
  | Progress int

datatype dfu_error = PortError | NoManifest | BadManifest | NoSuchFile | NotImplemented

record dfu =
  sequenceNumber :: int
  sd_size :: int
  total_size :: int
  dfu_acts :: "dfu_act list"
  writes :: nat

definition new_flasher :: dfu where
  "new_flasher = \<lparr>sequenceNumber = 0, sd_size = 0, total_size = 0, dfu_acts = [], writes = 0\<rparr>"

type_synonym dfu_step = "dfu \<Rightarrow> dfu \<times> dfu_error option"

definition perform :: "dfu_act \<Rightarrow> dfu_step" where
  "perform a s = (s\<lparr>dfu_acts := dfu_acts s @ [a]\<rparr>, None)"

text \<open>\<open>await p; q\<close>: the second step runs only when the first did not throw.\<close>

definition and_then :: "dfu_step \<Rightarrow> dfu_step \<Rightarrow> dfu_step" where
  "and_then p q s = (case p s of (s', None) \<Rightarrow> q s' | (s', Some e) \<Rightarrow> (s', Some e))"

fun in_order :: "dfu_step list \<Rightarrow> dfu_step" where
  "in_order [] = (\<lambda>s. (s, None))"
| "in_order (p # ps) = and_then p (in_order ps)"

definition sendPacket :: "(nat \<Rightarrow> bool) \<Rightarrow> int list \<Rightarrow> dfu_step" where
  "sendPacket port data s =
     (if port (writes s)
      then (s\<lparr>writes := Suc (writes s), dfu_acts := dfu_acts s @ [Packet (map u8 data)]\<rparr>, None)
      else (s\<lparr>writes := Suc (writes s)\<rparr>, Some PortError))"

definition enterDfuMode :: dfu_step where
  "enterDfuMode = in_order
     [perform (OpenPort DFU_TOUCH_BAUD),
      perform (SleepMillis (fl (SERIAL_PORT_OPEN_WAIT_TIME * 1000))),
      perform ClosePort,
      perform (SleepMillis (fl (TOUCH_RESET_WAIT_TIME * 1000)))]"

text \<open>The bytes of a packet before escaping: header, frame, and the checksum of both.\<close>

definition hci_data :: "int \<Rightarrow> int list \<Rightarrow> int list" where
  "hci_data seq frame =
     (let slipHeaderBytes = createSlipHeader seq DATA_INTEGRITY_CHECK_PRESENT RELIABLE_PACKET
            HCI_PACKET_TYPE (int (length frame));
          data = map uint slipHeaderBytes @ frame;
          crc = calcCrc16 (map u8 data) 0xffff
      in data @ [js_and crc 0xFF, js_shr (js_and crc 0xFF00) 8])"

definition createHciPacketFromFrame :: "int list \<Rightarrow> dfu \<Rightarrow> int list \<times> dfu" where
  "createHciPacketFromFrame frame s =
     (let seq = (sequenceNumber s + 1) mod 8
      in (0xc0 # slipEncodeEscChars (hci_data seq frame) @ [0xc0], s\<lparr>sequenceNumber := seq\<rparr>))"

definition send_frame :: "(nat \<Rightarrow> bool) \<Rightarrow> int list \<Rightarrow> dfu_step" where
  "send_frame port frame s =
     (let (packet, s') = createHciPacketFromFrame frame s in sendPacket port packet s')"

definition getEraseWaitTime :: "dfu \<Rightarrow> rat" where
  "getEraseWaitTime s =
     max (fl (1 / 2))
       (fl (fl (fl (of_int (total_size s) / FLASH_PAGE_SIZE) + 1) * FLASH_PAGE_ERASE_TIME))"

definition createImageSizePacket :: "int \<Rightarrow> int \<Rightarrow> int \<Rightarrow> int list" where
  "createImageSizePacket softdeviceSize bootloaderSize appSize =
     int32ToBytes softdeviceSize @ int32ToBytes bootloaderSize @ int32ToBytes appSize"

definition start_frame :: "int \<Rightarrow> int \<Rightarrow> int \<Rightarrow> int \<Rightarrow> int list" where
  "start_frame mode softdevice_size bootloader_size app_size =
     int32ToBytes DFU_START_PACKET @ int32ToBytes mode
     @ createImageSizePacket softdevice_size bootloader_size app_size"

definition sendStartDfu :: "(nat \<Rightarrow> bool) \<Rightarrow> int \<Rightarrow> int \<Rightarrow> int \<Rightarrow> int \<Rightarrow> dfu_step" where
  "sendStartDfu port mode softdevice_size bootloader_size app_size =
     and_then (send_frame port (start_frame mode softdevice_size bootloader_size app_size))
       (\<lambda>s. let s' = s\<lparr>sd_size := softdevice_size,
                       total_size := softdevice_size + bootloader_size + app_size\<rparr>
            in perform (SleepMillis (fl (getEraseWaitTime s' * 1000))) s')"

definition sendInitPacket :: "(nat \<Rightarrow> bool) \<Rightarrow> byte list \<Rightarrow> dfu_step" where
  "sendInitPacket port initPacket =
     send_frame port (int32ToBytes DFU_INIT_PACKET @ map uint initPacket @ int16ToBytes 0x0000)"

text \<open>The firmware in blocks; every packet is built before the first one is sent.\<close>

definition data_frame :: "byte list \<Rightarrow> int list" where
  "data_frame chunk = int32ToBytes DFU_DATA_PACKET @ map uint chunk"

fun build_packets :: "byte list list \<Rightarrow> dfu \<Rightarrow> int list list \<times> dfu" where
  "build_packets [] s = ([], s)"
| "build_packets (c # cs) s =
     (let (p, s') = createHciPacketFromFrame (data_frame c) s; (ps, s'') = build_packets cs s'
      in (p # ps, s''))"

definition percent :: "nat \<Rightarrow> nat \<Rightarrow> int" where
  "percent packetsSent count = \<lfloor>fl (fl (of_nat packetsSent / of_nat count) * 100)\<rfloor>"

fun send_packets :: "(nat \<Rightarrow> bool) \<Rightarrow> bool \<Rightarrow> nat \<Rightarrow> nat \<Rightarrow> int list list \<Rightarrow> dfu_step" where
  "send_packets port cb count packetsSent [] = (\<lambda>s. (s, None))"
| "send_packets port cb count packetsSent (p # ps) =
     in_order
       ([sendPacket port p, perform (SleepMillis (fl (FLASH_PAGE_WRITE_TIME * 1000)))]
        @ (if cb then [perform (Progress (percent (packetsSent + 1) count))] else [])
        @ [send_packets port cb count (packetsSent + 1) ps])"

definition sendFirmware :: "(nat \<Rightarrow> bool) \<Rightarrow> bool \<Rightarrow> byte list \<Rightarrow> dfu_step" where
  "sendFirmware port cb firmware s =
     (let (packets, s') = build_packets (blocks DFU_PACKET_MAX_SIZE firmware) s
      in in_order
        ((if cb then [perform (Progress 0)] else [])
         @ [send_packets port cb (length packets) 0 packets,
            send_frame port (int32ToBytes DFU_STOP_DATA_PACKET)]) s')"

text \<open>
  The archive is read by a library outside the repository: the model takes its entries as a list of
  names and contents, and the parsed manifest as an argument (\<open>None\<close>: the JSON does not parse, or has
  no \<open>manifest\<close>). A missing entry is \<open>undefined\<close>, so reading it throws.
\<close>

record image =
  bin_file :: string
  dat_file :: string

definition find_entry :: "string \<Rightarrow> (string \<times> byte list) list \<Rightarrow> byte list option" where
  "find_entry name entries = map_option snd (find (\<lambda>(n, _). n = name) entries)"

definition dfuSendImage :: "(nat \<Rightarrow> bool) \<Rightarrow> bool \<Rightarrow> int \<Rightarrow> (string \<times> byte list) list \<Rightarrow> image \<Rightarrow> dfu_step" where
  "dfuSendImage port cb programMode zipEntries firmwareManifest =
     and_then (in_order [perform (OpenPort FLASH_BAUD),
        perform (SleepMillis (fl (SERIAL_PORT_OPEN_WAIT_TIME * 1000)))])
     (\<lambda>s. case find_entry (bin_file firmwareManifest) zipEntries of
        None \<Rightarrow> (s, Some NoSuchFile)
      | Some firmware \<Rightarrow>
          (case find_entry (dat_file firmwareManifest) zipEntries of
             None \<Rightarrow> (s, Some NoSuchFile)
           | Some init_packet \<Rightarrow>
               if programMode \<noteq> HEX_TYPE_APPLICATION then (s, Some NotImplemented)
               else in_order
                 [sendStartDfu port programMode 0 0 (int (length firmware)),
                  sendInitPacket port init_packet,
                  sendFirmware port cb firmware] s))"

definition flash :: "(nat \<Rightarrow> bool) \<Rightarrow> bool \<Rightarrow> (byte list \<Rightarrow> image option option)
    \<Rightarrow> (string \<times> byte list) list \<Rightarrow> dfu_step" where
  "flash port cb parse_manifest zipEntries s =
     (case find_entry ''manifest.json'' zipEntries of
        None \<Rightarrow> (s, Some NoManifest)
      | Some text \<Rightarrow>
          (case parse_manifest text of
             None \<Rightarrow> (s, Some BadManifest)
           | Some None \<Rightarrow> (s, None)
           | Some (Some application) \<Rightarrow>
               dfuSendImage port cb HEX_TYPE_APPLICATION zipEntries application s))"

end
