(* ===== verification/Dfu_Props.thy ===== *)
theory Dfu_Props
  imports Dfu
begin

text \<open>
  Properties of the firmware transfer: the checksum is CRC-16/CCITT, every packet decodes to its
  header, frame and checksum, and the whole transfer delivers the firmware.
\<close>

subsection \<open>The checksum is CRC-16/CCITT\<close>

text \<open>The bit-serial definition: polynomial \<open>0x1021\<close>, most significant bit first, on 16 bits.\<close>

definition ccitt_step :: "16 word \<Rightarrow> 16 word" where
  "ccitt_step c = (if bit c 15 then push_bit 1 c XOR 0x1021 else push_bit 1 c)"

definition ccitt_byte :: "16 word \<Rightarrow> byte \<Rightarrow> 16 word" where
  "ccitt_byte c b = (ccitt_step ^^ 8) (c XOR push_bit 8 (ucast b))"

definition ccitt :: "byte list \<Rightarrow> 16 word \<Rightarrow> 16 word" where
  "ccitt bs c = foldl ccitt_byte c bs"

text \<open>The round of the program on 16 bits.\<close>

definition round16 :: "16 word \<Rightarrow> byte \<Rightarrow> 16 word" where
  "round16 c b =
     (let c = drop_bit 8 c OR push_bit 8 c;
          c = c XOR ucast b;
          c = c XOR drop_bit 4 (take_bit 8 c);
          c = c XOR push_bit 12 c;
          c = c XOR push_bit 5 (take_bit 8 c)
      in c)"

lemma less_16: "n < 16 \<longleftrightarrow> n \<in> {0, 1, 2, 3, 4, 5, 6, 7, 8, 9, 10, 11, 12, 13, 14, 15 :: nat}"
  by (auto simp: numeral_eq_Suc less_Suc_eq)

lemma bit_poly: "bit (0x1021 :: 16 word) n \<longleftrightarrow> n = 0 \<or> n = 5 \<or> n = 12"
proof (cases "n < 16")
  case True
  then show ?thesis unfolding less_16 by (auto simp: bit_simps)
next
  case False
  then show ?thesis by (auto dest: bit_imp_le_length)
qed

lemma bit_shl1: "bit (push_bit 1 (c :: 16 word)) n \<longleftrightarrow> 0 < n \<and> n < 16 \<and> bit c (n - 1)"
  by (simp only: bit_push_bit_iff) auto

lemma bit_ccitt_step: "bit (ccitt_step c) n \<longleftrightarrow> n < 16 \<and>
    (if n = 0 then bit c 15
     else if n = 5 \<or> n = 12 then bit c (n - 1) \<noteq> bit c 15 else bit c (n - 1))"
proof -
  have "bit (ccitt_step c) n \<longleftrightarrow> bit (push_bit 1 c) n \<noteq> (bit c 15 \<and> bit (0x1021 :: 16 word) n)"
    by (cases "bit c 15") (simp_all only: ccitt_step_def bit_xor_iff if_True if_False simp_thms)
  then show ?thesis unfolding bit_shl1 bit_poly by auto
qed

lemma ccitt_steps: "(ccitt_step ^^ 8) c =
    ccitt_step (ccitt_step (ccitt_step (ccitt_step (ccitt_step (ccitt_step (ccitt_step (ccitt_step c)))))))"
  by (simp add: numeral_eq_Suc)

lemma bit_high: "16 \<le> n \<Longrightarrow> \<not> bit (c :: 16 word) n" "8 \<le> n \<Longrightarrow> \<not> bit (b :: byte) n"
  by (auto dest: bit_imp_le_length)

lemma ccitt_byte_round16: "ccitt_byte c b = round16 c b"
proof (rule bit_word_eqI)
  fix n
  assume "n < LENGTH(16)"
  then have "n \<in> {0, 1, 2, 3, 4, 5, 6, 7, 8, 9, 10, 11, 12, 13, 14, 15}" using less_16 by simp
  then show "bit (ccitt_byte c b) n \<longleftrightarrow> bit (round16 c b) n"
    unfolding ccitt_byte_def round16_def Let_def ccitt_steps
    by (elim insertE emptyE; hypsubst; simp add: bit_ccitt_step bit_simps bit_high; argo?)
qed

text \<open>The program's round is the 16-bit round on the low half of its 32-bit value.\<close>

lemma crc_round_low: "ucast (i32 (crc_round crc b)) = round16 (ucast (i32 crc)) b"
proof (rule bit_word_eqI)
  fix n
  assume "n < LENGTH(16)"
  then have "n \<in> {0, 1, 2, 3, 4, 5, 6, 7, 8, 9, 10, 11, 12, 13, 14, 15}" using less_16 by simp
  moreover have mFF: "i32 (js_and a 255) = take_bit 8 (i32 a)" for a by (rule i32_and_0xFF)
  moreover have mFF00: "bit (i32 (js_and a 0xFF00)) k \<longleftrightarrow> 8 \<le> k \<and> k < 16 \<and> bit (i32 a) k" for a k
  proof -
    have "i32 (js_and a 0xFF00) = i32 a AND push_bit 8 (mask 8)"
      by (simp add: i32_js_and mask_eq_exp_minus_1)
    then show ?thesis by (simp only: bit_and_iff bit_push_bit_iff bit_mask_iff) auto
  qed
  ultimately show "bit (ucast (i32 (crc_round crc b)) :: 16 word) n \<longleftrightarrow>
      bit (round16 (ucast (i32 crc)) b) n"
    unfolding crc_round_def round16_def Let_def
    by (elim insertE emptyE; hypsubst;
        simp add: i32_js_xor i32_js_or i32_js_shl i32_js_shr mFF mFF00 i32_uint_byte bit_simps bit_high; argo?)
qed

lemma foldl_crc_round_low:
  "ucast (i32 (foldl crc_round crc bs)) = ccitt bs (ucast (i32 crc))"
  by (induction bs arbitrary: crc) (simp_all add: ccitt_def crc_round_low ccitt_byte_round16)

text \<open>
  C8. The checksum of \<open>calcCrc16\<close>, computed on unmasked 32-bit intermediate values, is the 16-bit
  CRC of polynomial \<open>0x1021\<close> for every message and every initial value.
\<close>

theorem calcCrc16_is_ccitt:
  "calcCrc16 binaryData crc = uint (ccitt binaryData (word_of_int crc))"
proof -
  have "js_and v 0xFFFF = uint (ucast (i32 v) :: 16 word)" for v
    by (simp add: js_and_0xFFFF i32_def unsigned_ucast_eq unsigned_of_int take_bit_eq_mod)
      (simp add: mod_mod_cancel)
  moreover have "(ucast (i32 crc) :: 16 word) = word_of_int crc"
    by (rule bit_word_eqI) (auto simp: i32_def bit_simps)
  ultimately show ?thesis by (simp add: calcCrc16_def foldl_crc_round_low)
qed

text \<open>The check value of this CRC.\<close>

lemma calcCrc16_check_value:
  "calcCrc16 [0x31, 0x32, 0x33, 0x34, 0x35, 0x36, 0x37, 0x38, 0x39] 0xFFFF = 0x29B1"
  by code_simp

subsection \<open>Packets\<close>

lemma slip_escape:
  "list_all carried data \<Longrightarrow> map u8 (slipEncodeEscChars data) = kiss_escape (map u8 data)"
proof (induction data)
  case Nil
  then show ?case by (simp add: kiss_escape_def)
next
  case (Cons c data)
  have "c = 0xC0 \<longleftrightarrow> u8 c = 0xC0" "c = 0xDB \<longleftrightarrow> u8 c = 0xDB"
    using Cons.prems by (auto simp: carried_def u8_def)
  with Cons show ?case by (auto simp: kiss_escape_def) (simp_all add: u8_def)
qed

text \<open>SLIP escaping on bytes, and its inverse: the decoder of the KISS frames.\<close>

interpretation slip: byte_stuffing fend "\<lambda>d. map u8 (slipEncodeEscChars (map uint d))" decodeKissFrame
proof unfold_locales
  fix d :: "byte list"
  have "list_all carried (map uint d)" by (simp add: list_all_iff)
  then have "map u8 (slipEncodeEscChars (map uint d)) = kiss_escape d"
    using slip_escape by (simp add: o_def)
  then show "decodeKissFrame (map u8 (slipEncodeEscChars (map uint d))) = Some d"
    and "fend \<notin> set (map u8 (slipEncodeEscChars (map uint d)))"
    by (simp_all add: decode_escape fend_notin_escape)
qed

text \<open>
  What a receiver of the protocol checks: the four header bytes sum to zero, the length field is
  the length of the payload, and the checksum matches. It answers the sequence number and the
  payload.
\<close>

definition hci_accept :: "byte list \<Rightarrow> (nat \<times> byte list) option" where
  "hci_accept d =
     (case d of
        h0 # h1 # h2 # h3 # rest \<Rightarrow>
          let n = unat h1 div 16 + 16 * unat h2; crc = ccitt (h0 # h1 # h2 # h3 # take n rest) 0xFFFF
          in if h0 + h1 + h2 + h3 = 0 \<and> unat h1 mod 16 = 14 \<and> length rest = n + 2
                \<and> rest ! n = ucast crc \<and> rest ! (n + 1) = ucast (drop_bit 8 crc)
             then Some (unat h0 mod 8, take n rest) else None
      | _ \<Rightarrow> None)"

lemma less_8_cases: "0 \<le> n \<Longrightarrow> n < 8 \<Longrightarrow> n \<in> {0, 1, 2, 3, 4, 5, 6, 7 :: int}"
  by auto

lemma header_byte0:
  assumes "0 \<le> seq" and "seq < 8"
  shows "js_or (js_or (js_or seq (js_shl ((seq + 1) mod 8) 3)) (js_shl 1 6)) (js_shl 1 7) =
    seq + 8 * ((seq + 1) mod 8) + 192"
  using less_8_cases [OF assms]
  by (elim insertE emptyE; hypsubst; code_simp)

lemma header_byte1: "js_or 14 (js_shl (js_and len 0x000F) 4) = 14 + 16 * (len mod 16)"
  using js_or_fields [of 14 4 "len mod 16"] by (simp add: js_and_0xF)

text \<open>\<open>(v & (0xFF << k)) >> k\<close> is the \<open>k\<close>-th byte field of \<open>v\<close>.\<close>

lemma js_field: "k + 8 < 32 \<Longrightarrow> js_shr (js_and v (255 * 2 ^ k)) k = (v div 2 ^ k) mod 256"
proof -
  assume k: "k + 8 < 32"
  have m: "i32 (255 * 2 ^ k) = push_bit k (mask 8)"
    by (simp add: i32_def push_bit_eq_mult mask_eq_exp_minus_1)
  have "i32 (js_shr (js_and v (255 * 2 ^ k)) k) = i32 (take_bit 8 (drop_bit k v))"
  proof (rule bit_word_eqI)
    fix n :: nat
    assume n: "n < LENGTH(32)"
    have "bit (i32 (js_shr (js_and v (255 * 2 ^ k)) k)) n \<longleftrightarrow> n < 8 \<and> bit v (k + n)"
      using n k unfolding i32_js_shr [of k, OF add_lessD1 [OF k]] i32_js_and m
      by (simp only: bit_signed_drop_bit_iff bit_and_iff bit_push_bit_iff bit_mask_iff i32_def bit_word_of_int_iff)
        auto
    also have "\<dots> \<longleftrightarrow> bit (take_bit 8 (drop_bit k v)) n"
      by (simp only: bit_take_bit_iff bit_drop_bit_eq o_apply)
    also have "\<dots> \<longleftrightarrow> bit (i32 (take_bit 8 (drop_bit k v))) n"
      using n by (simp only: i32_def bit_word_of_int_iff simp_thms)
    finally show "bit (i32 (js_shr (js_and v (255 * 2 ^ k)) k)) n \<longleftrightarrow> bit (i32 (take_bit 8 (drop_bit k v))) n" .
  qed
  then have "sint (i32 (js_shr (js_and v (255 * 2 ^ k)) k)) = sint (i32 (take_bit 8 (drop_bit k v)))" by simp
  moreover have "sint (i32 (js_shr (js_and v (255 * 2 ^ k)) k)) = js_shr (js_and v (255 * 2 ^ k)) k"
    by (simp add: js_shr_def)
  moreover have "take_bit 8 (drop_bit k v) = (v div 2 ^ k) mod 256"
    by (simp add: take_bit_eq_mod drop_bit_eq_div)
  moreover have "sint (i32 ((v div 2 ^ k) mod 256)) = (v div 2 ^ k) mod 256"
  proof (rule sint_i32)
    have "0 \<le> (v div 2 ^ k) mod 256" "(v div 2 ^ k) mod 256 < 256" by simp_all
    moreover have "- (2 ^ 31) \<le> (0 :: int)" "256 \<le> (2 ^ 31 :: int)" by simp_all
    ultimately show "- (2 ^ 31) \<le> (v div 2 ^ k) mod 256" "(v div 2 ^ k) mod 256 < 2 ^ 31"
      by (blast intro: order_trans less_le_trans)+
  qed
  ultimately show ?thesis by simp
qed

lemma header_byte2: "0 \<le> len \<Longrightarrow> len < 4096 \<Longrightarrow> js_shr (js_and len 0x0FF0) 4 = len div 16"
  using js_field [of 4 len] by simp

lemma field_8: "js_shr (js_and v 0xFF00) 8 = (v div 256) mod 256"
  and field_16: "js_shr (js_and v 0x00FF0000) 16 = (v div 65536) mod 256"
  using js_field [of 8 v] js_field [of 16 v] by simp_all

lemma u8_negate: "u8 (js_and (js_not S + 1) 0xFF) = - u8 S"
proof -
  have "i32 (js_not S + 1) = i32 (- S)"
    by (simp only: i32_add i32_js_not minus_eq_not_plus_1 i32_not)
  then have "u8 (js_not S + 1) = u8 (- S)" by (simp add: u8_i32)
  moreover have "u8 (x mod 256) = u8 x" for x
    by (rule bit_word_eqI) (auto simp: u8_def bit_simps simp flip: take_bit_eq_mod [of 8, simplified])
  ultimately show ?thesis by (simp add: js_and_0xFF) (simp add: u8_def)
qed

lemma u8_add: "u8 (a + b) = u8 a + u8 b"
  by (simp add: u8_def)

lemma unat_u8: "0 \<le> n \<Longrightarrow> n < 256 \<Longrightarrow> unat (u8 n) = nat n"
  by (simp add: u8_def unsigned_of_int take_bit_int_eq_self)

lemma slip_header:
  assumes "0 \<le> seq" and "seq < 8" and "0 \<le> len" and "len < 4096"
  obtains h0 h1 h2 h3 where "createSlipHeader seq 1 1 14 len = [h0, h1, h2, h3]"
    and "h0 + h1 + h2 + h3 = 0" and "unat h0 mod 8 = nat seq"
    and "unat h1 = 14 + 16 * nat (len mod 16)" and "unat h2 = nat (len div 16)"
proof -
  let ?i0 = "seq + 8 * ((seq + 1) mod 8) + 192"
  let ?i1 = "14 + 16 * (len mod 16)"
  let ?i2 = "len div 16"
  let ?i3 = "js_and (js_not (?i0 + ?i1 + ?i2) + 1) 0xFF"
  have "createSlipHeader seq 1 1 14 len = [u8 ?i0, u8 ?i1, u8 ?i2, u8 ?i3]"
    unfolding createSlipHeader_def Let_def header_byte0 [OF assms(1,2)] header_byte1
      header_byte2 [OF assms(3,4)] by simp
  moreover have "u8 ?i0 + u8 ?i1 + u8 ?i2 + u8 ?i3 = 0"
    unfolding u8_negate by (simp add: u8_add) (simp add: u8_def)
  moreover have "unat (u8 ?i0) mod 8 = nat seq"
    using less_8_cases [OF assms(1,2)] by (elim insertE emptyE; hypsubst; simp add: u8_def)
  moreover have "unat (u8 ?i1) = 14 + 16 * nat (len mod 16)"
  proof -
    have "0 \<le> len mod 16" "len mod 16 < 16" by simp_all
    then show ?thesis by (subst unat_u8) (auto simp: nat_add_distrib nat_mult_distrib)
  qed
  moreover have "unat (u8 ?i2) = nat (len div 16)"
    by (rule unat_u8) (use assms in presburger)+
  ultimately show ?thesis by (rule that)
qed

lemma hci_accept_build:
  assumes "h0 + h1 + h2 + h3 = 0" and "unat h1 = 14 + 16 * (length fr mod 16)"
    and "unat h2 = length fr div 16"
    and "crc = ccitt (h0 # h1 # h2 # h3 # fr) 0xFFFF"
  shows "hci_accept (h0 # h1 # h2 # h3 # fr @ [ucast crc, ucast (drop_bit 8 crc)]) =
    Some (unat h0 mod 8, fr)"
proof -
  have "unat h1 div 16 + 16 * unat h2 = length fr" and "unat h1 mod 16 = 14"
    using assms(2,3) by simp_all
  then show ?thesis using assms(1,4) by (simp add: hci_accept_def nth_append)
qed

lemma crc_bytes:
  "map u8 [js_and (calcCrc16 d 0xffff) 0xFF, js_shr (js_and (calcCrc16 d 0xffff) 0xFF00) 8] =
     [ucast (ccitt d 0xFFFF), ucast (drop_bit 8 (ccitt d 0xFFFF))]"
  "list_all carried [js_and (calcCrc16 d 0xffff) 0xFF, js_shr (js_and (calcCrc16 d 0xffff) 0xFF00) 8]"
proof -
  let ?c = "ccitt d 0xFFFF"
  have c: "calcCrc16 d 0xffff = uint ?c" by (simp add: calcCrc16_is_ccitt)
  have "u8 (uint ?c mod 256) = ucast ?c"
    by (rule bit_word_eqI) (auto simp: u8_def bit_simps simp flip: take_bit_eq_mod [of 8, simplified])
  moreover have "u8 ((uint ?c div 256) mod 256) = ucast (drop_bit 8 ?c)"
    by (rule bit_word_eqI)
      (auto simp: u8_def bit_simps simp flip: take_bit_eq_mod [of 8, simplified] drop_bit_eq_div [of 8, simplified])
  ultimately show "map u8 [js_and (calcCrc16 d 0xffff) 0xFF, js_shr (js_and (calcCrc16 d 0xffff) 0xFF00) 8] =
     [ucast ?c, ucast (drop_bit 8 ?c)]"
    by (simp add: c js_and_0xFF field_8)
  show "list_all carried [js_and (calcCrc16 d 0xffff) 0xFF, js_shr (js_and (calcCrc16 d 0xffff) 0xFF00) 8]"
    by (simp add: js_and_0xFF field_8 carried_byte)
qed

lemma hci_data_accept:
  assumes "0 \<le> seq" and "seq < 8" and "list_all carried frame" and "length frame < 4096"
  shows "list_all carried (hci_data seq frame)"
    and "hci_accept (map u8 (hci_data seq frame)) = Some (nat seq, map u8 frame)"
proof -
  obtain h0 h1 h2 h3 where h: "createSlipHeader seq 1 1 14 (int (length frame)) = [h0, h1, h2, h3]"
    "h0 + h1 + h2 + h3 = 0" "unat h0 mod 8 = nat seq"
    "unat h1 = 14 + 16 * nat (int (length frame) mod 16)" "unat h2 = nat (int (length frame) div 16)"
    by (rule slip_header [of seq "int (length frame)"]) (use assms in simp_all)
  let ?d = "h0 # h1 # h2 # h3 # map u8 frame"
  have data: "hci_data seq frame = map uint [h0, h1, h2, h3] @ frame
      @ [js_and (calcCrc16 ?d 0xffff) 0xFF, js_shr (js_and (calcCrc16 ?d 0xffff) 0xFF00) 8]"
    by (simp add: hci_data_def h(1) DATA_INTEGRITY_CHECK_PRESENT_def RELIABLE_PACKET_def
        HCI_PACKET_TYPE_def Let_def o_def)
  show "list_all carried (hci_data seq frame)"
    unfolding data using assms(3) crc_bytes(2) by simp
  have "map u8 (hci_data seq frame) =
      h0 # h1 # h2 # h3 # map u8 frame @ [ucast (ccitt ?d 0xFFFF), ucast (drop_bit 8 (ccitt ?d 0xFFFF))]"
    unfolding data using crc_bytes(1) [of ?d] by simp
  moreover have "hci_accept \<dots> = Some (unat h0 mod 8, map u8 frame)"
    by (rule hci_accept_build) (use h in \<open>simp_all add: nat_mod_distrib nat_div_distrib\<close>)
  ultimately show "hci_accept (map u8 (hci_data seq frame)) = Some (nat seq, map u8 frame)"
    by (simp add: h(3))
qed

text \<open>
  C12. Every packet of a frame of at most 4095 bytes is delimited, holds no other delimiter, and after
  unescaping passes the receiver's checks of header sum, length and checksum, yielding the next
  sequence number modulo 8 and exactly the frame's bytes.
\<close>

theorem packet_accepted:
  assumes "list_all carried frame" and "length frame < 4096"
    and "createHciPacketFromFrame frame s = (packet, s')"
  shows "sequenceNumber s' = (sequenceNumber s + 1) mod 8
    \<and> (\<exists>body d. map u8 packet = fend # body @ [fend] \<and> fend \<notin> set body
         \<and> decodeKissFrame body = Some d
         \<and> hci_accept d = Some (nat (sequenceNumber s'), map u8 frame))"
proof -
  let ?seq = "(sequenceNumber s + 1) mod 8"
  have s': "sequenceNumber s' = ?seq"
    and packet: "packet = 0xc0 # slipEncodeEscChars (hci_data ?seq frame) @ [0xc0]"
    using assms(3) by (auto simp: createHciPacketFromFrame_def Let_def)
  have "0 \<le> ?seq" "?seq < 8" by simp_all
  note hd = hci_data_accept [OF this assms(1,2)]
  have "map u8 packet = fend # kiss_escape (map u8 (hci_data ?seq frame)) @ [fend]"
    using slip_escape [OF hd(1)] by (simp add: packet) (simp add: u8_def)
  then show ?thesis
    using hd(2) s' decode_escape fend_notin_escape by (metis (no_types, lifting))
qed

theorem packet_accepted_witness:
  "\<exists>body d. map u8 (fst (createHciPacketFromFrame [5, 0, 0, 0] new_flasher)) = fend # body @ [fend]
     \<and> fend \<notin> set body \<and> decodeKissFrame body = Some d \<and> hci_accept d = Some (1, [5, 0, 0, 0])"
proof -
  let ?r = "createHciPacketFromFrame [5, 0, 0, 0] new_flasher"
  have c: "list_all carried [5, 0, 0, 0]" by (simp add: carried_byte)
  have n: "nat (sequenceNumber (snd ?r)) = 1"
    by (simp add: createHciPacketFromFrame_def new_flasher_def)
  have u: "map u8 [5, 0, 0, 0] = [5, 0, 0, 0]" by (simp add: u8_def)
  show ?thesis
    using packet_accepted [OF c, of new_flasher "fst ?r" "snd ?r"] unfolding n u by simp
qed

end
