(* ===== verification/Dfu_Transfer.thy ===== *)
theory Dfu_Transfer
  imports Dfu_Props
begin

text \<open>
  The transfer of an image, from the firmware's bytes to what the device accepts, under every pattern
  of failing writes: which packets leave the port, in which order, with which progress reports.
\<close>

subsection \<open>What the device makes of the packets on the port\<close>

fun packets_of :: "dfu_act list \<Rightarrow> byte list list" where
  "packets_of [] = []"
| "packets_of (Packet p # as) = p # packets_of as"
| "packets_of (_ # as) = packets_of as"

fun progress_of :: "dfu_act list \<Rightarrow> int list" where
  "progress_of [] = []"
| "progress_of (Progress v # as) = v # progress_of as"
| "progress_of (_ # as) = progress_of as"

lemma packets_of_append [simp]: "packets_of (as @ bs) = packets_of as @ packets_of bs"
  by (induction as rule: packets_of.induct) simp_all

lemma progress_of_append [simp]: "progress_of (as @ bs) = progress_of as @ progress_of bs"
  by (induction as rule: progress_of.induct) simp_all

definition unpack :: "byte list \<Rightarrow> (nat \<times> byte list) option" where
  "unpack p = (case p of
     [] \<Rightarrow> None
   | b # rest \<Rightarrow> if b = fend \<and> rest \<noteq> [] \<and> last rest = fend
                then Option.bind (decodeKissFrame (butlast rest)) hci_accept else None)"

lemma unpack_packet:
  assumes "list_all carried frame" and "length frame < 4096"
  shows "unpack (map u8 (fst (createHciPacketFromFrame frame s))) =
    Some (nat ((sequenceNumber s + 1) mod 8), map u8 frame)"
proof -
  obtain packet s' where p: "createHciPacketFromFrame frame s = (packet, s')" by fastforce
  from packet_accepted [OF assms this] show ?thesis by (auto simp: p unpack_def)
qed

lemma created_seq: "snd (createHciPacketFromFrame frame s) = s\<lparr>sequenceNumber := (sequenceNumber s + 1) mod 8\<rparr>"
  by (simp add: createHciPacketFromFrame_def Let_def)

subsection \<open>The packets of a firmware\<close>

text \<open>The \<open>i\<close>-th packet after state \<open>s\<close> carries sequence number \<open>seq + 1 + i\<close> modulo 8.\<close>

fun frames_from :: "int \<Rightarrow> byte list list \<Rightarrow> (nat \<times> byte list) list" where
  "frames_from seq [] = []"
| "frames_from seq (c # cs) = (nat ((seq + 1) mod 8), c) # frames_from ((seq + 1) mod 8) cs"

lemma length_frames_from [simp]: "length (frames_from seq cs) = length cs"
  by (induction cs arbitrary: seq) simp_all

lemma map_snd_frames_from [simp]: "map snd (frames_from seq cs) = cs"
  by (induction cs arbitrary: seq) simp_all

lemma frames_from_append: "frames_from seq (cs @ ds) =
    frames_from seq cs @ frames_from (if cs = [] then seq else (seq + int (length cs)) mod 8) ds"
  by (induction cs arbitrary: seq) (auto simp: mod_simps add.assoc add.commute add.left_commute)

lemma frames_from_nth:
  "i < length cs \<Longrightarrow> frames_from seq cs ! i = (nat ((seq + 1 + int i) mod 8), cs ! i)"
proof (induction cs arbitrary: seq i)
  case (Cons c cs)
  then show ?case
    by (cases i) (simp_all add: mod_simps add.commute add.left_commute)
qed simp

lemma top_byte: "js_shr (js_and v 0xff000000) 24 = js_shr v 24"
proof -
  have m: "i32 0xff000000 = push_bit 24 (mask 8)" by (simp add: mask_eq_exp_minus_1)
  have "signed_drop_bit 24 (i32 (js_and v 0xff000000)) = signed_drop_bit 24 (i32 v)"
    unfolding i32_js_and m
    by (rule bit_word_eqI)
      (auto simp only: bit_signed_drop_bit_iff bit_and_iff bit_push_bit_iff bit_mask_iff split: if_splits, auto)
  then show ?thesis by (simp add: js_shr_def)
qed

lemma int32ToBytes_div: "0 \<le> v \<Longrightarrow> v < 2 ^ 31 \<Longrightarrow> int32ToBytes v =
    [v mod 256, (v div 256) mod 256, (v div 65536) mod 256, v div 16777216]"
  using js_shr_div [of v 24] by (simp add: int32ToBytes_def js_and_0xFF field_8 field_16 top_byte)

lemma int32ToBytes_carried: "0 \<le> v \<Longrightarrow> v < 2 ^ 31 \<Longrightarrow> list_all carried (int32ToBytes v)"
proof -
  assume v: "0 \<le> v" "v < 2 ^ 31"
  then have "0 \<le> v div 16777216" "v div 16777216 < 256" by simp_all
  then show ?thesis by (simp add: int32ToBytes_div [OF v] carried_byte)
qed

lemma length_int32ToBytes [simp]: "length (int32ToBytes v) = 4"
  by (simp add: int32ToBytes_def)

text \<open>Little-endian reading of a field.\<close>

definition le32 :: "byte list \<Rightarrow> nat" where
  "le32 bs = foldr (\<lambda>b n. unat b + 256 * n) (take 4 bs) 0"

lemma base256: "256 * q + r = v \<Longrightarrow> 256 * q2 + r2 = q \<Longrightarrow> 256 * q3 + r3 = q2 \<Longrightarrow>
    r + 256 * (r2 + 256 * (r3 + 256 * q3)) = (v :: int)"
  by simp

lemma le32_int32ToBytes:
  assumes "0 \<le> v" and "v < 2 ^ 31"
  shows "le32 (map u8 (int32ToBytes v) @ bs) = nat v"
proof -
  have b: "0 \<le> v div 16777216" "v div 16777216 < 256" using assms by simp_all
  have "le32 (map u8 (int32ToBytes v) @ bs) =
      nat (v mod 256) + 256 * (nat ((v div 256) mod 256) + 256 * (nat ((v div 65536) mod 256)
        + 256 * nat (v div 16777216)))"
    by (simp add: le32_def int32ToBytes_div [OF assms] unat_u8 b)
  also have "\<dots> = nat (v mod 256 + 256 * ((v div 256) mod 256 + 256 * ((v div 65536) mod 256
        + 256 * (v div 16777216))))"
    using b by (simp add: nat_add_distrib nat_mult_distrib)
  also have "v mod 256 + 256 * ((v div 256) mod 256 + 256 * ((v div 65536) mod 256
        + 256 * (v div 16777216))) = v"
  proof -
    have "v div 65536 = v div 256 div 256" "v div 16777216 = v div 256 div 256 div 256"
      by (simp_all flip: zdiv_zmult2_eq)
    then show ?thesis
      using base256 [of "v div 256" "v mod 256" v "v div 256 div 256" "(v div 256) mod 256"
          "v div 256 div 256 div 256" "(v div 256 div 256) mod 256"]
      by (simp only: mult_div_mod_eq simp_thms)
  qed
  finally show ?thesis .
qed

lemma data_header: "int32ToBytes DFU_DATA_PACKET = [4, 0, 0, 0]"
  and stop_header: "int32ToBytes DFU_STOP_DATA_PACKET = [5, 0, 0, 0]"
  by (simp_all add: proto_defs int32ToBytes_div)

lemma data_frame_carried: "list_all carried (data_frame c)"
  by (simp add: data_frame_def data_header list_all_iff carried_byte)

lemma data_frame_bytes: "map u8 (data_frame c) = [4, 0, 0, 0] @ c"
  by (simp add: data_frame_def data_header o_def) (simp add: u8_def)

lemma build_packets_spec:
  assumes "\<forall>c \<in> set cs. length c \<le> 512" and "build_packets cs s = (ps, s')"
  shows "map (\<lambda>p. unpack (map u8 p)) ps =
      map (\<lambda>(q, c). Some (q, [4, 0, 0, 0] @ c)) (frames_from (sequenceNumber s) cs)
    \<and> length ps = length cs
    \<and> s' = s\<lparr>sequenceNumber := (if cs = [] then sequenceNumber s
                else (sequenceNumber s + int (length cs)) mod 8)\<rparr>"
  using assms
proof (induction cs arbitrary: s ps s')
  case Nil
  then show ?case by simp
next
  case (Cons c cs)
  define s1 where "s1 = s\<lparr>sequenceNumber := (sequenceNumber s + 1) mod 8\<rparr>"
  obtain ps' where b: "build_packets cs s1 = (ps', s')"
    and ps: "ps = fst (createHciPacketFromFrame (data_frame c) s) # ps'"
    using Cons.prems(2) created_seq [of "data_frame c" s]
    by (auto simp: s1_def Let_def split: prod.splits)
  have "length (data_frame c) < 4096"
    using Cons.prems(1) by (simp add: data_frame_def)
  note u = unpack_packet [OF data_frame_carried this, of s, unfolded data_frame_bytes]
  have "map (\<lambda>p. unpack (map u8 p)) ps' =
      map (\<lambda>(q, c). Some (q, [4, 0, 0, 0] @ c)) (frames_from (sequenceNumber s1) cs)
    \<and> length ps' = length cs
    \<and> s' = s1\<lparr>sequenceNumber := (if cs = [] then sequenceNumber s1
                else (sequenceNumber s1 + int (length cs)) mod 8)\<rparr>"
    by (rule Cons.IH) (use Cons.prems(1) b in auto)
  then show ?case
    by (simp add: ps u s1_def mod_simps add.commute add.left_commute)
qed

subsection \<open>Sending under failing writes\<close>

lemma and_then_None: "p s = (s', None) \<Longrightarrow> and_then p q s = q s'"
  by (simp add: and_then_def)

lemma and_then_Some: "p s = (s', Some e) \<Longrightarrow> and_then p q s = (s', Some e)"
  by (simp add: and_then_def)

text \<open>
  Of \<open>n\<close> writes attempted one after the other, \<open>ok_writes\<close> is the number before the first failure.
\<close>

definition ok_writes :: "(nat \<Rightarrow> bool) \<Rightarrow> nat \<Rightarrow> nat \<Rightarrow> nat" where
  "ok_writes port from n = length (takeWhile port [from ..< from + n])"

lemma ok_writes_0 [simp]: "ok_writes port from 0 = 0"
  by (simp add: ok_writes_def)

lemma ok_writes_Suc: "ok_writes port from (Suc n) =
    (if port from then Suc (ok_writes port (Suc from) n) else 0)"
  by (simp add: ok_writes_def upt_conv_Cons del: upt_Suc)

lemma ok_writes_le: "ok_writes port from n \<le> n"
  unfolding ok_writes_def by (metis length_takeWhile_le length_upt add_diff_cancel_left')

definition reports :: "bool \<Rightarrow> nat \<Rightarrow> nat \<Rightarrow> nat \<Rightarrow> int list" where
  "reports cb count packetsSent k =
     (if cb then map (\<lambda>i. percent (packetsSent + i + 1) count) [0 ..< k] else [])"

lemma reports_Suc: "reports cb count packetsSent (Suc k) =
    (if cb then [percent (packetsSent + 1) count] else [])
      @ reports cb count (packetsSent + 1) k"
  by (simp add: reports_def upt_conv_Cons map_Suc_upt [symmetric] o_def del: upt_Suc)

lemma send_packets_spec:
  assumes "k = ok_writes port (writes s) (length ps)"
    and "send_packets port cb count packetsSent ps s = (s', e)"
  shows "packets_of (dfu_acts s') = packets_of (dfu_acts s) @ map (map u8) (take k ps)
    \<and> progress_of (dfu_acts s') = progress_of (dfu_acts s) @ reports cb count packetsSent k
    \<and> e = (if k = length ps then None else Some PortError)
    \<and> sequenceNumber s' = sequenceNumber s
    \<and> (k = length ps \<longrightarrow> writes s' = writes s + k)"
  using assms
proof (induction ps arbitrary: s k packetsSent)
  case Nil
  then show ?case by (simp add: reports_def)
next
  case (Cons p ps)
  show ?case
  proof (cases "port (writes s)")
    case False
    then have "sendPacket port p s = (s\<lparr>writes := Suc (writes s)\<rparr>, Some PortError)"
      by (simp add: sendPacket_def)
    with Cons.prems False show ?thesis
      by (auto simp: and_then_Some ok_writes_Suc reports_def)
  next
    case True
    define t where "t = s\<lparr>writes := Suc (writes s), dfu_acts := dfu_acts s
      @ [Packet (map u8 p), SleepMillis (fl (FLASH_PAGE_WRITE_TIME * 1000))]
      @ (if cb then [Progress (percent (packetsSent + 1) count)] else [])\<rparr>"
    have "send_packets port cb count packetsSent (p # ps) s =
        send_packets port cb count (packetsSent + 1) ps t"
      using True
      by (cases cb) (auto simp: t_def and_then_def sendPacket_def perform_def split: prod.splits option.splits)
    with Cons.prems(2) have run: "send_packets port cb count (packetsSent + 1) ps t = (s', e)" by simp
    obtain k' where k: "k = Suc k'" and k': "k' = ok_writes port (writes t) (length ps)"
      using Cons.prems(1) True by (auto simp: ok_writes_Suc t_def)
    from Cons.IH [OF k' run] show ?thesis
      by (auto simp: k t_def reports_Suc)
  qed
qed

lemma send_frame_spec:
  assumes "list_all carried frame" and "length frame < 4096"
    and "send_frame port frame s = (s', e)"
  shows "if port (writes s)
     then e = None \<and> sequenceNumber s' = (sequenceNumber s + 1) mod 8 \<and> writes s' = Suc (writes s)
       \<and> total_size s' = total_size s \<and> sd_size s' = sd_size s
       \<and> progress_of (dfu_acts s') = progress_of (dfu_acts s)
       \<and> (\<exists>p. dfu_acts s' = dfu_acts s @ [Packet p]
            \<and> unpack p = Some (nat ((sequenceNumber s + 1) mod 8), map u8 frame))
     else e = Some PortError \<and> dfu_acts s' = dfu_acts s"
  using assms(3) unpack_packet [OF assms(1,2), of s] created_seq [of frame s]
  by (auto simp: send_frame_def sendPacket_def Let_def split: prod.splits if_splits)

lemma stop_frame_carried: "list_all carried [5, 0, 0, 0]"
  by (simp add: carried_byte)

lemma ok_writes_add: "ok_writes port from (m + n) =
    (if ok_writes port from m = m then m + ok_writes port (from + m) n else ok_writes port from m)"
proof (induction m arbitrary: "from")
  case (Suc m)
  then show ?case by (simp add: ok_writes_Suc)
qed simp

lemma packets_then_stop:
  assumes run: "and_then (send_packets port cb count 0 ps) (send_frame port [5, 0, 0, 0]) s = (s', e)"
    and k: "k = ok_writes port (writes s) (length ps + 1)"
  shows "(\<exists>sent. packets_of (dfu_acts s') = packets_of (dfu_acts s) @ sent
       \<and> map unpack sent = take k (map (\<lambda>p. unpack (map u8 p)) ps
            @ [Some (nat ((sequenceNumber s + 1) mod 8), [5, 0, 0, 0])]))
    \<and> e = (if k = length ps + 1 then None else Some PortError)
    \<and> progress_of (dfu_acts s') = progress_of (dfu_acts s) @ reports cb count 0 (min k (length ps))"
proof -
  obtain s3 e3 where sp: "send_packets port cb count 0 ps s = (s3, e3)" by fastforce
  define j where "j = ok_writes port (writes s) (length ps)"
  note sent = send_packets_spec [OF j_def sp]
  have kj: "k = (if j = length ps then j + ok_writes port (writes s + length ps) 1 else j)"
    using ok_writes_add [of port "writes s" "length ps" 1] by (simp add: k j_def)
  have j: "j \<le> length ps" by (simp add: j_def ok_writes_le)
  show ?thesis
  proof (cases "j = length ps")
    case False
    with run sent sp have "s' = s3" "e = Some PortError" by (simp_all add: and_then_Some)
    with sent kj False j show ?thesis
      by (intro conjI exI [of _ "map (map u8) (take j ps)"]) (simp_all add: take_map o_def)
  next
    case True
    with run sent sp have last: "send_frame port [5, 0, 0, 0] s3 = (s', e)"
      by (simp add: and_then_None)
    note stop = send_frame_spec [OF stop_frame_carried _ last, simplified]
    show ?thesis
    proof (cases "port (writes s + length ps)")
      case ok: True
      from stop ok True sent obtain p where "dfu_acts s' = dfu_acts s3 @ [Packet p]" "e = None"
        "unpack p = Some (nat ((sequenceNumber s + 1) mod 8), [5, 0, 0, 0])"
        by (auto simp: u8_def)
      with True sent kj ok show ?thesis
        by (intro conjI exI [of _ "map (map u8) ps @ [p]"]) (simp_all add: ok_writes_Suc o_def)
    next
      case bad: False
      with stop True sent have "dfu_acts s' = dfu_acts s3" "e = Some PortError" by auto
      with True sent kj bad show ?thesis
        by (intro conjI exI [of _ "map (map u8) ps"]) (simp_all add: ok_writes_Suc o_def)
    qed
  qed
qed

lemma frames_from_map: "frames_from q (map f cs) = map (\<lambda>(q, c). (q, f c)) (frames_from q cs)"
  by (induction cs arbitrary: q) simp_all

text \<open>
  Whatever writes fail, the packets of \<open>sendFirmware\<close> that leave the port are, in order and with
  consecutive sequence numbers, the first ones of: one data packet per block of 512 bytes, whose
  blocks concatenate to the firmware, then the stop packet. Exactly as many leave as writes succeed
  before the first failure, the call throws unless all of them do, and progress is reported once
  before the first packet and once after each data packet sent.
\<close>

lemma sendFirmware_transfer:
  assumes "sendFirmware port cb firmware s = (s', e)"
    and "n = length (blocks DFU_PACKET_MAX_SIZE firmware)"
    and "k = ok_writes port (writes s) (n + 1)"
  shows "(\<exists>sent. packets_of (dfu_acts s') = packets_of (dfu_acts s) @ sent
       \<and> map unpack sent = map Some (take k (frames_from (sequenceNumber s)
            (map (\<lambda>c. [4, 0, 0, 0] @ c) (blocks DFU_PACKET_MAX_SIZE firmware) @ [[5, 0, 0, 0]]))))
    \<and> concat (blocks DFU_PACKET_MAX_SIZE firmware) = firmware
    \<and> e = (if k = n + 1 then None else Some PortError)
    \<and> progress_of (dfu_acts s') = progress_of (dfu_acts s)
        @ (if cb then [0] else []) @ reports cb n 0 (min k n)"
proof -
  let ?chunks = "blocks DFU_PACKET_MAX_SIZE firmware"
  obtain ps s1 where bp: "build_packets ?chunks s = (ps, s1)" by fastforce
  have small: "\<forall>c \<in> set ?chunks. length c \<le> 512"
    using blocks_bound [of _ DFU_PACKET_MAX_SIZE firmware] by (auto simp: DFU_PACKET_MAX_SIZE_def)
  note spec = build_packets_spec [OF small bp]
  define s2 where "s2 = s1\<lparr>dfu_acts := dfu_acts s1 @ (if cb then [Progress 0] else [])\<rparr>"
  have run: "and_then (send_packets port cb (length ps) 0 ps) (send_frame port [5, 0, 0, 0]) s2 = (s', e)"
    using assms(1) bp
    by (cases cb) (auto simp: sendFirmware_def s2_def and_then_def perform_def stop_header
        split: prod.splits option.splits)
  have s2: "writes s2 = writes s" "packets_of (dfu_acts s2) = packets_of (dfu_acts s)"
    "progress_of (dfu_acts s2) = progress_of (dfu_acts s) @ (if cb then [0] else [])"
    "sequenceNumber s2 = (if ?chunks = [] then sequenceNumber s
       else (sequenceNumber s + int (length ?chunks)) mod 8)"
    using spec by (simp_all add: s2_def)
  have frames: "map Some (frames_from (sequenceNumber s) (map (\<lambda>c. [4, 0, 0, 0] @ c) ?chunks @ [[5, 0, 0, 0]]))
      = map (\<lambda>p. unpack (map u8 p)) ps @ [Some (nat ((sequenceNumber s2 + 1) mod 8), [5, 0, 0, 0])]"
    using spec s2(4) by (simp add: frames_from_append frames_from_map split_def)
  have n: "length ps = n" using spec assms(2) by simp
  have k: "k = ok_writes port (writes s2) (length ps + 1)" using assms(3) s2(1) n by simp
  have whole: "concat ?chunks = firmware"
    by (rule concat_blocks) (simp add: DFU_PACKET_MAX_SIZE_def)
  show ?thesis
    using packets_then_stop [OF run k] whole
    unfolding take_map [where f = Some and n = k, symmetric] frames s2(1-3) n by simp
qed

end
