(* ===== verification/Dfu_Flash.thy ===== *)
theory Dfu_Flash
  imports Dfu_Transfer
begin

text \<open>
  A whole flashing: start packet, init packet, firmware and stop packet as one delivery, the error
  paths that touch nothing, the progress the page sees, and the erase wait.
\<close>

subsection \<open>Deliveries compose\<close>

text \<open>
  A step delivers a list of frames when the packets that leave the port are those of the first
  \<open>k\<close> frames with consecutive sequence numbers, \<open>k\<close> writes succeed before the first failure, and
  the step throws unless all frames leave.
\<close>

definition delivers :: "(nat \<Rightarrow> bool) \<Rightarrow> dfu \<Rightarrow> byte list list \<Rightarrow> dfu \<times> dfu_error option \<Rightarrow> bool" where
  "delivers port s frames r =
     (let k = ok_writes port (writes s) (length frames) in
       (\<exists>sent. packets_of (dfu_acts (fst r)) = packets_of (dfu_acts s) @ sent
          \<and> map unpack sent = map Some (take k (frames_from (sequenceNumber s) frames)))
       \<and> snd r = (if k = length frames then None else Some PortError))"

lemma delivers_send_then:
  assumes "list_all carried frame" and "length frame < 4096"
    and rest: "\<And>t. writes t = Suc (writes s) \<Longrightarrow> sequenceNumber t = (sequenceNumber s + 1) mod 8 \<Longrightarrow>
      delivers port t frames (q t)"
  shows "delivers port s (map u8 frame # frames) (and_then (send_frame port frame) q s)"
proof -
  obtain s1 e1 where send: "send_frame port frame s = (s1, e1)" by fastforce
  note spec = send_frame_spec [OF assms(1,2) send]
  show ?thesis
  proof (cases "port (writes s)")
    case False
    with spec send show ?thesis by (auto simp: delivers_def and_then_Some ok_writes_Suc)
  next
    case True
    with spec obtain p where w: "writes s1 = Suc (writes s)" and e1: "e1 = None"
      and seq: "sequenceNumber s1 = (sequenceNumber s + 1) mod 8"
      and p: "dfu_acts s1 = dfu_acts s @ [Packet p]"
        "unpack p = Some (nat ((sequenceNumber s + 1) mod 8), map u8 frame)" by auto
    from rest [OF w seq] obtain sent where
      "packets_of (dfu_acts (fst (q s1))) = packets_of (dfu_acts s1) @ sent"
      "map unpack sent = map Some (take (ok_writes port (Suc (writes s)) (length frames))
          (frames_from ((sequenceNumber s + 1) mod 8) frames))"
      "snd (q s1) = (if ok_writes port (Suc (writes s)) (length frames) = length frames
          then None else Some PortError)"
      by (auto simp: delivers_def Let_def w seq)
    with True send e1 p show ?thesis
      by (auto simp: delivers_def and_then_None ok_writes_Suc intro!: exI [of _ "p # sent"])
  qed
qed

lemma and_then_assoc: "and_then (and_then p q) r = and_then p (and_then q r)"
  by (rule ext) (simp add: and_then_def split: prod.splits option.splits)

lemma and_then_perform: "and_then (perform a) q s = q (s\<lparr>dfu_acts := dfu_acts s @ [a]\<rparr>)"
  by (simp add: and_then_def perform_def)

lemma and_then_performs:
  "and_then (in_order [perform a, perform b]) q s = q (s\<lparr>dfu_acts := dfu_acts s @ [a, b]\<rparr>)"
  by (simp add: and_then_def perform_def)

lemma and_then_done [simp]: "and_then p (\<lambda>s. (s, None)) = p"
  by (rule ext) (simp add: and_then_def split: prod.splits option.splits)

lemma delivers_quiet:
  "packets_of (dfu_acts t) = packets_of (dfu_acts s) \<Longrightarrow> writes t = writes s \<Longrightarrow>
    sequenceNumber t = sequenceNumber s \<Longrightarrow> delivers port t frames r \<longleftrightarrow> delivers port s frames r"
  by (simp add: delivers_def)

lemma sendFirmware_delivers:
  "delivers port s (map (\<lambda>c. [4, 0, 0, 0] @ c) (blocks DFU_PACKET_MAX_SIZE firmware) @ [[5, 0, 0, 0]])
     (sendFirmware port cb firmware s)"
proof -
  obtain s' e where run: "sendFirmware port cb firmware s = (s', e)" by fastforce
  from sendFirmware_transfer [OF run refl refl] show ?thesis
    unfolding delivers_def Let_def run fst_conv snd_conv by (simp del: append_Cons append_Nil)
qed

subsection \<open>The frames of a flashing\<close>

definition start_bytes :: "nat \<Rightarrow> byte list" where
  "start_bytes app_size =
     [3, 0, 0, 0] @ [4, 0, 0, 0] @ [0, 0, 0, 0] @ [0, 0, 0, 0] @ map u8 (int32ToBytes (int app_size))"

definition firmware_frames :: "byte list \<Rightarrow> byte list \<Rightarrow> byte list list" where
  "firmware_frames init_packet firmware =
     start_bytes (length firmware) # ([1, 0, 0, 0] @ init_packet @ [0, 0])
     # map (\<lambda>c. [4, 0, 0, 0] @ c) (blocks DFU_PACKET_MAX_SIZE firmware) @ [[5, 0, 0, 0]]"

lemma start_header: "int32ToBytes DFU_START_PACKET = [3, 0, 0, 0]"
  "int32ToBytes HEX_TYPE_APPLICATION = [4, 0, 0, 0]" "int32ToBytes DFU_INIT_PACKET = [1, 0, 0, 0]"
  "int32ToBytes 0 = [0, 0, 0, 0]" "int16ToBytes 0 = [0, 0]"
  by (simp_all add: proto_defs int32ToBytes_div int16ToBytes_def js_and_def js_shr_def)

lemma u8_digits [simp]: "u8 0 = 0" "u8 1 = 1" "u8 3 = 3" "u8 4 = 4" "u8 5 = 5"
  by (simp_all add: u8_def)

lemma start_frame_bytes:
  "map u8 (start_frame HEX_TYPE_APPLICATION 0 0 (int n)) = start_bytes n"
  by (simp add: start_frame_def createImageSizePacket_def start_header start_bytes_def)

lemma start_frame_carried:
  assumes "n < 2 ^ 31"
  shows "list_all carried (start_frame HEX_TYPE_APPLICATION 0 0 (int n))"
proof -
  have "list_all carried (int32ToBytes (int n))" using assms by (intro int32ToBytes_carried) simp_all
  then show ?thesis
    by (simp add: start_frame_def createImageSizePacket_def start_header carried_byte)
qed

lemma dfuSendImage_delivers:
  assumes "find_entry (bin_file app) entries = Some firmware"
    and "find_entry (dat_file app) entries = Some init_packet"
    and "length firmware < 2 ^ 31" and "length init_packet < 4090"
  shows "delivers port s (firmware_frames init_packet firmware)
    (dfuSendImage port cb HEX_TYPE_APPLICATION entries app s)"
proof -
  let ?rest = "map (\<lambda>c. [4, 0, 0, 0] @ c) (blocks DFU_PACKET_MAX_SIZE firmware) @ [[5, 0, 0, 0]]"
  let ?init = "int32ToBytes DFU_INIT_PACKET @ map uint init_packet @ int16ToBytes 0"
  have init: "list_all carried ?init" "length ?init < 4096"
    "map u8 ?init = [1, 0, 0, 0] @ init_packet @ [0, 0]"
    using assms(4) by (simp_all add: start_header carried_byte list_all_iff o_def)
  have last: "delivers port t (([1, 0, 0, 0] @ init_packet @ [0, 0]) # ?rest)
      (and_then (send_frame port ?init) (sendFirmware port cb firmware) t)" for t
    using delivers_send_then [OF init(1,2) sendFirmware_delivers, where s = t] unfolding init(3) .
  define s1 where "s1 = s\<lparr>dfu_acts := dfu_acts s @ [OpenPort FLASH_BAUD,
      SleepMillis (fl (SERIAL_PORT_OPEN_WAIT_TIME * 1000))]\<rparr>"
  let ?start = "start_frame HEX_TYPE_APPLICATION 0 0 (int (length firmware))"
  define wait where "wait t = and_then
      (\<lambda>s. let s' = s\<lparr>sd_size := 0, total_size := 0 + 0 + int (length firmware)\<rparr>
            in perform (SleepMillis (fl (getEraseWaitTime s' * 1000))) s')
      (and_then (send_frame port ?init) (sendFirmware port cb firmware)) t" for t
  have quiet: "delivers port t (([1, 0, 0, 0] @ init_packet @ [0, 0]) # ?rest) (wait t)" for t
  proof -
    obtain t' where t': "wait t = and_then (send_frame port ?init) (sendFirmware port cb firmware) t'"
      "packets_of (dfu_acts t') = packets_of (dfu_acts t)" "writes t' = writes t"
      "sequenceNumber t' = sequenceNumber t"
      by (simp add: wait_def and_then_def [of "\<lambda>s. _ s"] perform_def Let_def)
    show ?thesis unfolding t'(1) using delivers_quiet [OF t'(2-4)] last [of t'] by simp
  qed
  have len: "length ?start < 4096" by (simp add: start_frame_def createImageSizePacket_def)
  have run: "dfuSendImage port cb HEX_TYPE_APPLICATION entries app s = and_then (send_frame port ?start) wait s1"
    by (simp add: dfuSendImage_def assms(1,2) sendStartDfu_def sendInitPacket_def and_then_assoc
        and_then_perform wait_def [abs_def] s1_def)
  have "delivers port s1 (firmware_frames init_packet firmware) (and_then (send_frame port ?start) wait s1)"
    using delivers_send_then [OF start_frame_carried [OF assms(3)] len quiet, where s = s1]
    unfolding start_frame_bytes firmware_frames_def .
  then show ?thesis
    unfolding run by (subst (asm) delivers_quiet [of _ s]) (simp_all add: s1_def)
qed

text \<open>
  C1. A flashing whose archive is complete sends, with consecutive sequence numbers and whatever
  writes fail, the first \<open>k\<close> of: a start packet with the image size, the init packet, one data packet
  per block, the stop packet; \<open>k\<close> is the number of writes before the first failure, and the call
  throws unless all frames leave. Start packet and blocks carry the size and the bytes of the image.
\<close>

theorem flash_delivers:
  assumes "find_entry ''manifest.json'' entries = Some manifest"
    and "parse_manifest manifest = Some (Some app)"
    and "find_entry (bin_file app) entries = Some firmware"
    and "find_entry (dat_file app) entries = Some init_packet"
    and "length firmware < 2 ^ 31" and "length init_packet < 4090"
    and "frames = firmware_frames init_packet firmware"
    and "k = ok_writes port (writes s) (length frames)"
    and "flash port cb parse_manifest entries s = (s', e)"
  shows "(\<exists>sent. packets_of (dfu_acts s') = packets_of (dfu_acts s) @ sent
      \<and> map unpack sent = map Some (take k (frames_from (sequenceNumber s) frames)))
    \<and> e = (if k = length frames then None else Some PortError)
    \<and> le32 (drop 16 (hd frames)) = length firmware
    \<and> concat (map (drop 4) (butlast (drop 2 frames))) = firmware"
proof -
  have run: "flash port cb parse_manifest entries s = dfuSendImage port cb HEX_TYPE_APPLICATION entries app s"
    by (simp add: flash_def assms(1,2))
  have "le32 (drop 16 (hd frames)) = length firmware"
    using le32_int32ToBytes [of "int (length firmware)" "[]"] assms(5)
    by (simp add: assms(7) firmware_frames_def start_bytes_def)
  moreover have "0 < DFU_PACKET_MAX_SIZE" by (simp add: DFU_PACKET_MAX_SIZE_def)
  then have "concat (map (drop 4) (butlast (drop 2 frames))) = firmware"
    by (simp add: assms(7) firmware_frames_def o_def concat_blocks)
  moreover note dfuSendImage_delivers [OF assms(3-6), of port s cb, folded run assms(7), unfolded assms(9)]
  ultimately show ?thesis by (simp add: delivers_def Let_def assms(8))
qed

text \<open>A small archive, whose port fails at the third write of the flashing.\<close>

definition demo_app :: image where
  "demo_app = \<lparr>bin_file = ''fw.bin'', dat_file = ''fw.dat''\<rparr>"

definition demo_zip :: "(string \<times> byte list) list" where
  "demo_zip = [(''fw.bin'', [0xC0, 0x01]), (''fw.dat'', [0xDB]), (''manifest.json'', [0x7B, 0x7D])]"

lemma demo_entries [simp]: "find_entry ''manifest.json'' demo_zip = Some [0x7B, 0x7D]"
  "find_entry (bin_file demo_app) demo_zip = Some [0xC0, 0x01]"
  "find_entry (dat_file demo_app) demo_zip = Some [0xDB]"
  by (simp_all add: find_entry_def demo_zip_def demo_app_def)

theorem flash_delivers_witness:
  "\<exists>sent. packets_of (dfu_acts (fst (flash (\<lambda>i. i \<noteq> 2) True (\<lambda>_. Some (Some demo_app)) demo_zip new_flasher)))
      = packets_of (dfu_acts new_flasher) @ sent
    \<and> map unpack sent = map Some (take 2 (frames_from 0 (firmware_frames [0xDB] [0xC0, 0x01])))"
proof -
  let ?run = "flash (\<lambda>i. i \<noteq> 2) True (\<lambda>_. Some (Some demo_app)) demo_zip new_flasher"
  have "flash (\<lambda>i. i \<noteq> 2) True (\<lambda>_. Some (Some demo_app)) demo_zip new_flasher = (fst ?run, snd ?run)"
    by simp
  moreover have "length (firmware_frames [0xDB] [0xC0, 0x01]) = 4"
    by (simp add: firmware_frames_def length_blocks DFU_PACKET_MAX_SIZE_def)
  then have "2 = ok_writes (\<lambda>i. i \<noteq> 2) (writes new_flasher) (length (firmware_frames [0xDB] [0xC0, 0x01]))"
    by (simp add: new_flasher_def ok_writes_def upt_rec)
  ultimately show ?thesis
    using flash_delivers [of demo_zip "[0x7B, 0x7D]" "\<lambda>_. Some (Some demo_app)" demo_app
        "[0xC0, 0x01]" "[0xDB]" "firmware_frames [0xDB] [0xC0, 0x01]" 2 "\<lambda>i. i \<noteq> 2" new_flasher True]
    by (cases ?run) (simp add: new_flasher_def)
qed

text \<open>Steps whose only error is the port's.\<close>

definition only_port :: "dfu_step \<Rightarrow> bool" where
  "only_port p \<longleftrightarrow> (\<forall>s. snd (p s) \<in> {None, Some PortError})"

lemma only_port_and_then [intro]: "only_port p \<Longrightarrow> only_port q \<Longrightarrow> only_port (and_then p q)"
  unfolding only_port_def and_then_def by (auto split: prod.splits option.splits) (metis option.distinct(1) option.inject snd_conv)

lemma only_port_perform [intro, simp]: "only_port (perform a)"
  by (simp add: only_port_def perform_def)

lemma only_port_in_order [intro]: "\<forall>p \<in> set ps. only_port p \<Longrightarrow> only_port (in_order ps)"
  by (induction ps) (auto, simp add: only_port_def)

lemma only_port_sendPacket [intro, simp]: "only_port (sendPacket port p)"
  by (simp add: only_port_def sendPacket_def)

lemma only_port_send_frame [intro, simp]: "only_port (send_frame port frame)"
  by (auto simp: only_port_def send_frame_def sendPacket_def split: prod.splits)

lemma only_port_send_packets [intro, simp]: "only_port (send_packets port cb count sent ps)"
proof (induction ps arbitrary: sent)
  case Nil
  then show ?case by (simp add: only_port_def)
next
  case (Cons p ps)
  then show ?case unfolding send_packets.simps by (intro only_port_in_order) auto
qed

lemma only_port_send:
  "snd (in_order [sendStartDfu port m 0 0 n, sendInitPacket port i, sendFirmware port cb fw] s)
     \<in> {None, Some PortError}"
proof -
  have "only_port (sendStartDfu port m 0 0 n)"
    unfolding sendStartDfu_def
    by (rule only_port_and_then [OF only_port_send_frame]) (simp add: only_port_def perform_def Let_def)
  moreover have "only_port (sendInitPacket port i)" by (simp add: sendInitPacket_def)
  moreover have "only_port (sendFirmware port cb fw)"
  proof -
    have "only_port (in_order ((if cb then [perform (Progress 0)] else [])
        @ [send_packets port cb (length ps) 0 ps, send_frame port (int32ToBytes DFU_STOP_DATA_PACKET)]))" for ps
      by (intro only_port_in_order) auto
    then show ?thesis
      unfolding only_port_def sendFirmware_def split_beta Let_def by blast
  qed
  ultimately have "only_port (in_order [sendStartDfu port m 0 0 n, sendInitPacket port i,
      sendFirmware port cb fw])" by (intro only_port_in_order) auto
  then show ?thesis unfolding only_port_def by (rule spec)
qed

text \<open>
  C16. A flashing that fails for another reason than the port writes no packet. A missing or
  unreadable manifest changes nothing; a missing image file (or another type) is found after the port
  was opened, which then stays open.
\<close>

theorem flash_error_paths:
  assumes "flash port cb parse_manifest entries s = (s', Some e)" and "e \<noteq> PortError"
  shows "if e = NoSuchFile
    then s' = s\<lparr>dfu_acts := dfu_acts s @ [OpenPort FLASH_BAUD,
           SleepMillis (fl (SERIAL_PORT_OPEN_WAIT_TIME * 1000))]\<rparr>
         \<and> (\<exists>m app. find_entry ''manifest.json'' entries = Some m \<and> parse_manifest m = Some (Some app)
           \<and> (find_entry (bin_file app) entries = None \<or> find_entry (dat_file app) entries = None))
    else s' = s \<and> (e = NoManifest \<and> find_entry ''manifest.json'' entries = None
         \<or> e = BadManifest \<and> (\<exists>m. find_entry ''manifest.json'' entries = Some m \<and> parse_manifest m = None))"
proof (cases "find_entry ''manifest.json'' entries")
  case None
  with assms(1) show ?thesis by (auto simp: flash_def)
next
  case (Some m)
  consider "parse_manifest m = None" | "parse_manifest m = Some None"
    | app where "parse_manifest m = Some (Some app)" by (metis option.exhaust)
  then show ?thesis
  proof cases
    case 3
    let ?s = "s\<lparr>dfu_acts := dfu_acts s @ [OpenPort FLASH_BAUD,
        SleepMillis (fl (SERIAL_PORT_OPEN_WAIT_TIME * 1000))]\<rparr>"
    have run: "dfuSendImage port cb HEX_TYPE_APPLICATION entries app s = (s', Some e)"
      using 3 assms(1) Some by (simp add: flash_def)
    show ?thesis
    proof (cases "find_entry (bin_file app) entries = None \<or> find_entry (dat_file app) entries = None")
      case True
      then have "e = NoSuchFile" "s' = ?s" using run
        by (auto simp: dfuSendImage_def and_then_assoc and_then_perform split: option.splits)
      with True 3 Some show ?thesis by auto
    next
      case False
      then obtain fw ip where "in_order [sendStartDfu port HEX_TYPE_APPLICATION 0 0 (int (length fw)),
          sendInitPacket port ip, sendFirmware port cb fw] ?s = (s', Some e)" using run
        by (auto simp: dfuSendImage_def and_then_performs simp del: in_order.simps(2))
      with only_port_send [of port HEX_TYPE_APPLICATION "int (length fw)" ip cb fw ?s] assms(2)
      show ?thesis by simp
    qed
  qed (use assms(1) Some in \<open>auto simp: flash_def\<close>)
qed

theorem flash_error_paths_witness:
  "packets_of (dfu_acts (fst (flash (\<lambda>i. True) True (\<lambda>_. Some (Some demo_app)) (tl demo_zip) new_flasher))) = []"
proof -
  have run: "flash (\<lambda>i. True) True (\<lambda>_. Some (Some demo_app)) (tl demo_zip) new_flasher =
     (new_flasher\<lparr>dfu_acts := [OpenPort FLASH_BAUD, SleepMillis (fl (SERIAL_PORT_OPEN_WAIT_TIME * 1000))]\<rparr>,
      Some NoSuchFile)"
    by (simp add: flash_def dfuSendImage_def and_then_assoc and_then_perform demo_zip_def demo_app_def
        find_entry_def new_flasher_def)
  from flash_error_paths [OF run] show ?thesis unfolding run by (auto simp: new_flasher_def)
qed

subsection \<open>Progress\<close>

lemma percent_mono: "a \<le> b \<Longrightarrow> percent a n \<le> percent b n"
  unfolding percent_def by (intro floor_mono fl_mono) (simp add: fl_mono divide_right_mono)

lemma percent_full: "0 < n \<Longrightarrow> percent n n = 100"
  using fl_int [of 1] fl_int [of 100] by (simp add: percent_def)

lemma percent_0: "percent 0 n = 0"
  by (simp add: percent_def)

text \<open>
  C15. The percentages the page sees during a transfer never decrease and stay within 0 and 100, rounding
  errors of the double arithmetic included, and a completed transfer of a non-empty firmware ends on
  exactly 100.
\<close>

theorem progress_monotone:
  assumes "sendFirmware port True firmware s = (s', e)" and "progress_of (dfu_acts s) = []"
  shows "sorted (progress_of (dfu_acts s')) \<and> set (progress_of (dfu_acts s')) \<subseteq> {0..100}
    \<and> (e = None \<and> firmware \<noteq> [] \<longrightarrow> last (progress_of (dfu_acts s')) = 100)"
proof -
  let ?n = "length (blocks DFU_PACKET_MAX_SIZE firmware)"
  obtain k where p: "progress_of (dfu_acts s') = 0 # reports True ?n 0 (min k ?n)"
    and e: "e = (if k = ?n + 1 then None else Some PortError)"
    using sendFirmware_transfer [OF assms(1) refl refl] assms(2) by auto
  have r: "progress_of (dfu_acts s') = map (\<lambda>i. percent i ?n) [0 ..< Suc (min k ?n)]"
    by (simp add: p reports_def percent_0 upt_conv_Cons map_Suc_upt [symmetric] o_def del: upt_Suc)
  have "0 \<le> percent i ?n \<and> percent i ?n \<le> 100" if "i \<le> ?n" for i
    using percent_mono [of 0 i ?n] percent_mono [OF that, of ?n] percent_full [of ?n]
    by (cases "?n = 0") (simp_all add: percent_0 percent_def)
  then have range: "set (progress_of (dfu_acts s')) \<subseteq> {0..100}"
    by (auto simp: r simp del: upt_Suc)
  have "sorted (progress_of (dfu_acts s'))"
    unfolding r sorted_map by (rule sorted_wrt_mono_rel [OF _ sorted_upt]) (simp add: percent_mono)
  moreover have "last (progress_of (dfu_acts s')) = 100" if "e = None" "firmware \<noteq> []"
  proof -
    from that have "k = ?n + 1" by (simp add: e split: if_splits)
    moreover from that have "0 < ?n" by (simp add: blocks_step DFU_PACKET_MAX_SIZE_def)
    ultimately show ?thesis by (simp add: r percent_full min_def)
  qed
  ultimately show ?thesis using range by simp
qed

theorem progress_monotone_witness:
  "sorted (progress_of (dfu_acts (fst (sendFirmware (\<lambda>i. True) True [1, 2, 3] new_flasher))))
   \<and> last (progress_of (dfu_acts (fst (sendFirmware (\<lambda>i. True) True [1, 2, 3] new_flasher)))) = 100"
proof -
  obtain s' e where run: "sendFirmware (\<lambda>i. True) True [1, 2, 3] new_flasher = (s', e)" by fastforce
  have "e = None"
    using sendFirmware_transfer [OF run refl refl] by (simp add: ok_writes_def)
  with progress_monotone [OF run] show ?thesis by (simp add: run) (simp add: new_flasher_def)
qed

end
