(* ===== verification/Poller.thy ===== *)
theory Poller
  imports Prelude
begin

text \<open>
  The contract of the console's polling scripts: at most one request in flight, no timer while the
  page does not want polling, and never stuck while it does. A script provides the contract with an
  invariant of its own states; the reachable states then keep the promises.
\<close>

locale poller =
  fixes init :: "'s \<Rightarrow> bool"
    and step :: "'s \<Rightarrow> 's \<Rightarrow> bool"
    and inv :: "'s \<Rightarrow> bool"
    and outstanding :: "'s \<Rightarrow> nat"
    and armed :: "'s \<Rightarrow> bool"
    and active :: "'s \<Rightarrow> bool"
  assumes inv_init: "init s \<Longrightarrow> inv s"
    and inv_step: "step s t \<Longrightarrow> inv s \<Longrightarrow> inv t"
    and inv_single: "inv s \<Longrightarrow> outstanding s \<le> 1"
    and inv_idle: "inv s \<Longrightarrow> \<not> active s \<Longrightarrow> \<not> armed s"
    and inv_live: "inv s \<Longrightarrow> active s \<Longrightarrow> armed s \<or> 0 < outstanding s"
begin

lemma inv_run: "step\<^sup>*\<^sup>* s t \<Longrightarrow> inv s \<Longrightarrow> inv t"
  by (induction rule: rtranclp_induct) (auto intro: inv_step)

lemma polling_contract:
  assumes "init s" and "step\<^sup>*\<^sup>* s t"
  shows "outstanding t \<le> 1 \<and> (\<not> active t \<longrightarrow> \<not> armed t) \<and> (active t \<longrightarrow> armed t \<or> outstanding t = 1)"
proof -
  have "inv t" using assms inv_run inv_init by blast
  with inv_single [of t] inv_idle [of t] inv_live [of t] show ?thesis by linarith
qed

end

text \<open>
  With the two environment events that drive it, a script polls for ever: the timer fires into a
  request, and the answer to a request arms the timer again.
\<close>

locale driven_poller = poller +
  fixes fire :: "'a \<Rightarrow> 'a"
    and answer :: "'a \<Rightarrow> 'a"
    and requests :: "'a \<Rightarrow> nat"
  assumes fire_step: "armed s \<Longrightarrow> step s (fire s)"
    and fire_requests: "inv s \<Longrightarrow> armed s \<Longrightarrow> requests s < requests (fire s)"
    and answer_step: "0 < outstanding s \<Longrightarrow> step s (answer s)"
    and answer_arms: "inv s \<Longrightarrow> active s \<Longrightarrow> 0 < outstanding s \<Longrightarrow>
      requests s < requests (answer s) \<or> armed (answer s) \<and> requests s \<le> requests (answer s)"
begin

lemma polls_again:
  assumes "init s" and "step\<^sup>*\<^sup>* s t" and "active t"
  shows "\<exists>u. step\<^sup>*\<^sup>* t u \<and> requests t < requests u"
proof -
  have inv: "inv t" using assms inv_run inv_init by blast
  have again: "\<exists>u. step\<^sup>*\<^sup>* r u \<and> requests r < requests u" if "inv r" "armed r" for r
    using fire_step [OF that(2)] fire_requests [OF that] by blast
  from inv_live [OF inv assms(3)] show ?thesis
  proof
    assume "armed t"
    then show ?thesis using again inv by blast
  next
    assume out: "0 < outstanding t"
    note step = answer_step [OF out]
    from answer_arms [OF inv assms(3) out] show ?thesis
    proof
      assume "armed (answer t) \<and> requests t \<le> requests (answer t)"
      with again [of "answer t"] inv_step [OF step inv] obtain u
        where "step\<^sup>*\<^sup>* (answer t) u" "requests t < requests u" by auto
      with step show ?thesis by (meson converse_rtranclp_into_rtranclp)
    qed (use step in blast)
  qed
qed

end

end
