(* ===== verification/Taskbanner.thy ===== *)
theory Taskbanner
  imports Poller JsStr
begin

text \<open>
  The running-task indicator (\<open>static/taskbanner.js\<close>): the rows of the banner, the "starting" badges,
  the one reload per finished start attempt, and the polling of \<open>/api/tasks\<close>. An absent string and
  the empty string are both \<open>''''\<close>: the script tests them with \<open>||\<close> only. Objects used as sets of
  keys are lists of distinct keys in insertion order.
\<close>

subsection \<open>The feed\<close>

record task =
  kind :: string
  run_id :: string
  state :: string
  op :: string
  stack :: string
  attempt_id :: string
  admitted :: bool
  label :: string
  hint :: string
  href :: string
  no_dismiss :: bool

definition keyOf :: "task \<Rightarrow> string" where
  "keyOf t = kind t @ ''-'' @ run_id t"

definition isStartJob :: "task \<Rightarrow> bool" where
  "isStartJob t \<longleftrightarrow> kind t = ''job'' \<and> (op t = ''start'' \<or> op t = ''restart'')"

definition changedThePage :: "task \<Rightarrow> bool" where
  "changedThePage t \<longleftrightarrow> state t = ''done'' \<or> (state t = ''failed'' \<and> admitted t)"

definition LABELS :: "string \<rightharpoonup> string" where
  "LABELS = [''running'' \<mapsto> ''running'' @ ellipsis, ''done'' \<mapsto> ''finished'', ''failed'' \<mapsto> ''failed'',
             ''unsafe'' \<mapsto> ''UNSAFE '' @ em_dash @ '' needs attention'']"

text \<open>\<open>set[key] = true\<close> on an object used as a set.\<close>

definition add_key :: "'a list \<Rightarrow> 'a \<Rightarrow> 'a list" where
  "add_key ks k = (if k \<in> set ks then ks else ks @ [k])"

subsection \<open>The starting badges\<close>

text \<open>
  A host is an element that stands for a stack (a row's status cell or a tagged element), with the
  badges it holds: the stack a badge was made for and its text.
\<close>

record host =
  host_stack :: string
  badges :: "(string \<times> string) list"

definition starting_stacks :: "task list \<Rightarrow> string \<rightharpoonup> string" where
  "starting_stacks tasks = foldl (\<lambda>want t.
     if isStartJob t \<and> state t = ''running'' \<and> stack t \<noteq> '''' then want(stack t \<mapsto> op t) else want)
     Map.empty tasks"

definition badge_text :: "string \<Rightarrow> string" where
  "badge_text opr = (if opr = ''restart'' then ''restarting'' else ''starting'') @ ellipsis"

definition mark_host :: "(string \<rightharpoonup> string) \<Rightarrow> host \<Rightarrow> host" where
  "mark_host want h =
     (let kept = filter (\<lambda>(sid, _). want sid \<noteq> None) (badges h)
      in case want (host_stack h) of
           None \<Rightarrow> h\<lparr>badges := kept\<rparr>
         | Some opr \<Rightarrow> h\<lparr>badges := (if kept = [] then [(host_stack h, badge_text opr)] else kept)\<rparr>)"

definition markStarting :: "task list \<Rightarrow> host list \<Rightarrow> host list" where
  "markStarting tasks hosts = map (mark_host (starting_stacks tasks)) hosts"

subsection \<open>Rows\<close>

datatype button = NoButton | Dismiss | Recover

record row =
  row_key :: string
  row_class :: string
  row_label :: string
  row_state :: string
  row_hint :: string
  hint_empty :: bool
  row_href :: string
  row_button :: button

text \<open>\<open>x || y\<close> on strings.\<close>

definition or_else :: "string \<Rightarrow> string \<Rightarrow> string" where
  "or_else x y = (if x = '''' then y else x)"

definition button_of :: "task \<Rightarrow> button" where
  "button_of t =
     (if state t = ''failed'' \<and> \<not> no_dismiss t then Dismiss
      else if state t = ''unsafe'' \<and> kind t = ''job'' then Recover
      else NoButton)"

definition new_row :: "string \<Rightarrow> row" where
  "new_row key = \<lparr>row_key = key, row_class = '''', row_label = '''', row_state = '''', row_hint = '''',
     hint_empty = False, row_href = '''', row_button = NoButton\<rparr>"

definition fill_row :: "task \<Rightarrow> row \<Rightarrow> row" where
  "fill_row t r = r\<lparr>row_class := ''taskitem taskitem-'' @ state t,
     row_label := label t,
     row_state := (case LABELS (state t) of Some l \<Rightarrow> l | None \<Rightarrow> state t),
     row_hint := hint t,
     hint_empty := (hint t = ''''),
     row_href := or_else (href t) ''#'',
     row_button := button_of t\<rparr>"

text \<open>The first row with the task's key is refilled; without one a new row is appended.\<close>

fun put_row :: "task \<Rightarrow> row list \<Rightarrow> row list" where
  "put_row t [] = [fill_row t (new_row (keyOf t))]"
| "put_row t (r # rs) = (if row_key r = keyOf t then fill_row t r # rs else r # put_row t rs)"

definition render_rows :: "task list \<Rightarrow> row list \<Rightarrow> row list" where
  "render_rows tasks banner =
     foldl (\<lambda>b t. put_row t b) (filter (\<lambda>r. row_key r \<in> keyOf ` set tasks) banner) tasks"

subsection \<open>Reloading on a finished start\<close>

text \<open>
  \<open>sessionStorage\<close>: whether the tab has it, and the attempts remembered there. Reading without it
  gives the empty set, writing without it reports failure.
\<close>

record storage =
  available :: bool
  remembered :: "string list"

definition reloadedSet :: "storage \<Rightarrow> string list" where
  "reloadedSet st = (if available st then remembered st else [])"

definition markReloaded :: "string list \<Rightarrow> storage \<Rightarrow> storage \<times> bool" where
  "markReloaded ids st = (if available st then (st\<lparr>remembered := ids\<rparr>, True) else (st, False))"

definition see_attempt :: "string list \<Rightarrow> string list \<times> bool \<Rightarrow> task \<Rightarrow> string list \<times> bool" where
  "see_attempt old acc t =
     (let (seen, fresh) = acc in
      if \<not> isStartJob t \<or> attempt_id t = '''' then (seen, fresh)
      else if attempt_id t \<in> set old then (add_key seen (attempt_id t), fresh)
      else if changedThePage t then (add_key seen (attempt_id t), True)
      else (seen, fresh))"

record task_page =
  rows :: "row list"
  hosts :: "host list"
  store :: storage
  reloading :: bool
  reloads :: nat

text \<open>\<open>typing\<close>: the focus is in a form field; \<open>dashOwnsReload\<close>: the page is the dashboard.\<close>

definition reloadOnFinish :: "bool \<Rightarrow> bool \<Rightarrow> task list \<Rightarrow> task_page \<Rightarrow> task_page" where
  "reloadOnFinish dashOwnsReload typing tasks p =
     (if reloading p then p
      else
        let old = reloadedSet (store p); (seen, fresh) = foldl (see_attempt old) ([], False) tasks in
        if \<not> fresh then
          (if length old \<noteq> length seen then p\<lparr>store := fst (markReloaded seen (store p))\<rparr> else p)
        else if typing then p
        else
          let (st, ok) = markReloaded seen (store p) in
          if \<not> ok \<or> dashOwnsReload then p\<lparr>store := st\<rparr>
          else p\<lparr>store := st, reloading := True, reloads := reloads p + 1\<rparr>)"

definition render_tasks :: "bool \<Rightarrow> bool \<Rightarrow> task list \<Rightarrow> task_page \<Rightarrow> task_page" where
  "render_tasks dashOwnsReload typing tasks p =
     (let p1 = p\<lparr>hosts := markStarting tasks (hosts p)\<rparr>;
          p2 = reloadOnFinish dashOwnsReload typing tasks p1
      in p2\<lparr>rows := render_rows tasks (rows p2)\<rparr>)"

text \<open>The form a button posts, field by field.\<close>

definition post_task :: "string \<Rightarrow> task \<Rightarrow> (string \<times> string) list" where
  "post_task csrf t = [(''_csrf'', csrf), (''kind'', kind t), (''run_id'', run_id t), (''attempt_id'', attempt_id t)]"

text \<open>
  A successful dismissal removes the button's row, named by its key; when a poll has already removed
  that row nothing happens.
\<close>

definition dismissed_row :: "string \<Rightarrow> task_page \<Rightarrow> task_page" where
  "dismissed_row key p = p\<lparr>rows := filter (\<lambda>r. row_key r \<noteq> key) (rows p)\<rparr>"

subsection \<open>Polling\<close>

definition FAST_MS :: nat where "FAST_MS = 2000"
definition SLOW_MS :: nat where "SLOW_MS = 15000"

record banner =
  page :: task_page
  timer :: "nat option"
  polling :: bool
  hidden :: bool
  outstanding :: nat
  requests :: nat

definition clearTimer_tasks :: "banner \<Rightarrow> banner" where
  [poll_defs]: "clearTimer_tasks s = s\<lparr>timer := None\<rparr>"

definition schedule_tasks :: "nat \<Rightarrow> banner \<Rightarrow> banner" where
  [poll_defs]: "schedule_tasks ms s =
     (let s = clearTimer_tasks s in if reloading (page s) \<or> hidden s then s else s\<lparr>timer := Some ms\<rparr>)"

definition tick_tasks :: "banner \<Rightarrow> banner" where
  [poll_defs]: "tick_tasks s =
     (let s = clearTimer_tasks s in
      if polling s then s
      else s\<lparr>polling := True, outstanding := outstanding s + 1, requests := requests s + 1\<rparr>)"

text \<open>
  The settled request: the feed's tasks, or \<open>None\<close> for a failed fetch or an answer that is not JSON.
\<close>

definition settled_tasks :: "bool \<Rightarrow> bool \<Rightarrow> task list option \<Rightarrow> banner \<Rightarrow> banner" where
  [poll_defs]: "settled_tasks dashOwnsReload typing feed s =
     (let s = s\<lparr>outstanding := outstanding s - 1\<rparr> in
      case feed of
        Some tasks \<Rightarrow>
          schedule_tasks (if \<exists>t \<in> set tasks. state t = ''running'' then FAST_MS else SLOW_MS)
            (s\<lparr>page := render_tasks dashOwnsReload typing tasks (page s), polling := False\<rparr>)
      | None \<Rightarrow> schedule_tasks SLOW_MS (s\<lparr>polling := False\<rparr>))"

definition visibility_tasks :: "bool \<Rightarrow> banner \<Rightarrow> banner" where
  [poll_defs]: "visibility_tasks hide s =
     (let s = s\<lparr>hidden := hide\<rparr> in if hide then clearTimer_tasks s else tick_tasks s)"

text \<open>Loading the page: one request goes out at once.\<close>

definition load_tasks :: "row list \<Rightarrow> host list \<Rightarrow> storage \<Rightarrow> bool \<Rightarrow> banner" where
  [poll_defs]: "load_tasks server_rows page_hosts st hide =
     tick_tasks \<lparr>page = \<lparr>rows = server_rows, hosts = page_hosts, store = st, reloading = False, reloads = 0\<rparr>,
           timer = None, polling = False, hidden = hide, outstanding = 0, requests = 0\<rparr>"

inductive banner_step :: "bool \<Rightarrow> banner \<Rightarrow> banner \<Rightarrow> bool" for dash where
  timer_fires: "timer s \<noteq> None \<Longrightarrow> banner_step dash s (tick_tasks s)"
| answered: "0 < outstanding s \<Longrightarrow> banner_step dash s (settled_tasks dash typing feed s)"
| visibility: "banner_step dash s (visibility_tasks hide s)"
| dismiss: "banner_step dash s (s\<lparr>page := dismissed_row key (page s)\<rparr>)"
| recovered: "banner_step dash s (tick_tasks s)"

inductive_cases banner_stepE: "banner_step dash s t"

end
