(* ===== verification/Taskbanner_Props.thy ===== *)
theory Taskbanner_Props
  imports Taskbanner
begin

text \<open>
  What the task indicator guarantees: the banner shows the feed, a stack is marked exactly while it
  starts, a finished attempt reloads the page once, and polling keeps its contract.
\<close>

subsection \<open>The banner shows the feed\<close>

definition row_of :: "task \<Rightarrow> row" where
  "row_of t = fill_row t (new_row (keyOf t))"

lemma fill_row_of: "row_key r = keyOf t \<Longrightarrow> fill_row t r = row_of t"
  by (cases r) (simp add: row_of_def fill_row_def new_row_def)

lemma row_key_row_of [simp]: "row_key (row_of t) = keyOf t"
  by (simp add: row_of_def fill_row_def new_row_def)

lemma put_row_keys: "map row_key (put_row t rs) =
    map row_key rs @ (if keyOf t \<in> row_key ` set rs then [] else [keyOf t])"
  by (induction rs) (auto simp: fill_row_of row_of_def [symmetric])

lemma put_row_set: "distinct (map row_key rs) \<Longrightarrow>
    set (put_row t rs) = insert (row_of t) {r \<in> set rs. row_key r \<noteq> keyOf t}"
  by (induction rs) (auto simp: fill_row_of row_of_def [symmetric] image_iff)

lemma put_rows:
  assumes "distinct (map row_key b)" and "distinct (map keyOf ts)"
  shows "map row_key (foldl (\<lambda>b t. put_row t b) b ts) =
      map row_key b @ filter (\<lambda>k. k \<notin> row_key ` set b) (map keyOf ts)
    \<and> set (foldl (\<lambda>b t. put_row t b) b ts) = {r \<in> set b. row_key r \<notin> keyOf ` set ts} \<union> row_of ` set ts"
  using assms(2)
proof (induction ts rule: rev_induct)
  case (snoc t ts)
  let ?b = "foldl (\<lambda>b t. put_row t b) b ts"
  from snoc have IH: "map row_key ?b = map row_key b @ filter (\<lambda>k. k \<notin> row_key ` set b) (map keyOf ts)"
    "set ?b = {r \<in> set b. row_key r \<notin> keyOf ` set ts} \<union> row_of ` set ts" and new: "keyOf t \<notin> keyOf ` set ts"
    by auto
  have "distinct (map row_key ?b)"
    unfolding IH(1) using assms(1) snoc.prems by (auto intro: distinct_filter)
  from put_row_set [OF this, of t] have "set (put_row t ?b) =
      {r \<in> set b. row_key r \<notin> keyOf ` set (ts @ [t])} \<union> row_of ` set (ts @ [t])"
    using new by (auto simp: IH(2) image_iff)
  moreover have "row_key ` set ?b = row_key ` set b \<union> keyOf ` set ts"
    unfolding set_map [symmetric] IH(1) by auto
  then have "map row_key (put_row t ?b) =
      map row_key b @ filter (\<lambda>k. k \<notin> row_key ` set b) (map keyOf (ts @ [t]))"
    using new by (simp add: put_row_keys IH(1))
  ultimately show ?case by simp
qed simp


definition demo_task :: "string \<Rightarrow> string \<Rightarrow> task" where
  "demo_task r st = \<lparr>kind = ''job'', run_id = r, state = st, op = ''start'', stack = ''meshcom'',
     attempt_id = r, admitted = False, label = ''Start'', hint = '''', href = '''', no_dismiss = False\<rparr>"


subsection \<open>Starting badges\<close>

text \<open>The badges of a host were made for the host's own stack, and there is at most one.\<close>

definition host_ok :: "host \<Rightarrow> bool" where
  "host_ok h \<longleftrightarrow> (\<forall>(sid, _) \<in> set (badges h). sid = host_stack h) \<and> length (badges h) \<le> 1"

lemma mark_host_cases:
  assumes "host_ok h"
  shows "mark_host want h = (case want (host_stack h) of
     None \<Rightarrow> h\<lparr>badges := []\<rparr>
   | Some opr \<Rightarrow> if badges h = [] then h\<lparr>badges := [(host_stack h, badge_text opr)]\<rparr> else h)"
proof -
  have "filter (\<lambda>(sid, _). want sid \<noteq> None) (badges h) = (if want (host_stack h) = None then [] else badges h)"
    using assms by (auto simp: host_ok_def filter_empty_conv intro!: filter_True)
  then show ?thesis
    by (cases h) (auto simp: mark_host_def Let_def split: option.splits)
qed

lemma starting_stacks_dom: "starting_stacks tasks sid \<noteq> None \<longleftrightarrow>
    (\<exists>t \<in> set tasks. isStartJob t \<and> state t = ''running'' \<and> stack t = sid \<and> sid \<noteq> '''')"
  unfolding starting_stacks_def by (induction tasks rule: rev_induct) auto

text \<open>
  After each poll an element of the page carries a starting badge exactly when a running start or
  restart job names its stack; it never carries two, the badge is its own stack's, and a badge
  already there stays as it is.
\<close>

theorem starting_badges_exact:
  assumes "\<forall>h \<in> set hs. host_ok h"
  shows "list_all2 (\<lambda>h h'. host_stack h' = host_stack h \<and> host_ok h'
      \<and> (badges h' \<noteq> [] \<longleftrightarrow> (\<exists>t \<in> set tasks. isStartJob t \<and> state t = ''running''
            \<and> stack t = host_stack h \<and> host_stack h \<noteq> ''''))
      \<and> (badges h \<noteq> [] \<and> badges h' \<noteq> [] \<longrightarrow> badges h' = badges h)) hs (markStarting tasks hs)"
proof -
  have "host_stack (mark_host want h) = host_stack h \<and> host_ok (mark_host want h)
    \<and> (badges (mark_host want h) \<noteq> [] \<longleftrightarrow> want (host_stack h) \<noteq> None)
    \<and> (badges h \<noteq> [] \<and> badges (mark_host want h) \<noteq> [] \<longrightarrow> badges (mark_host want h) = badges h)"
    if "host_ok h" for want h
    using that unfolding mark_host_cases [OF that]
    by (auto simp: host_ok_def split: option.splits)
  with assms show ?thesis
    unfolding markStarting_def list_all2_map2
    by (auto simp: list_all2_same starting_stacks_dom [symmetric])
qed

theorem starting_badges_exact_witness:
  "badges (hd (markStarting [demo_task ''1'' ''running''] [\<lparr>host_stack = ''meshcom'', badges = []\<rparr>])) \<noteq> []"
  using starting_badges_exact [of "[\<lparr>host_stack = ''meshcom'', badges = []\<rparr>]" "[demo_task ''1'' ''running'']"]
  by (simp add: host_ok_def markStarting_def isStartJob_def demo_task_def)

subsection \<open>One reload per attempt\<close>

definition attempts :: "task list \<Rightarrow> string set" where
  "attempts tasks = {attempt_id t | t. t \<in> set tasks \<and> isStartJob t \<and> attempt_id t \<noteq> ''''}"

definition changed_attempts :: "task list \<Rightarrow> string set" where
  "changed_attempts tasks =
     {attempt_id t | t. t \<in> set tasks \<and> isStartJob t \<and> attempt_id t \<noteq> '''' \<and> changedThePage t}"

lemma finite_changed [simp]: "finite (changed_attempts tasks)"
  by (rule finite_subset [of _ "attempt_id ` set tasks"]) (auto simp: changed_attempts_def)

lemma set_add_key [simp]: "set (add_key ks k) = insert k (set ks)"
  by (auto simp: add_key_def)

lemma distinct_add_key: "distinct ks \<Longrightarrow> distinct (add_key ks k)"
  by (simp add: add_key_def)

lemma see_attempts:
  assumes "foldl (see_attempt old) ([], False) tasks = (seen, fresh)"
  shows "set seen = set old \<inter> attempts tasks \<union> changed_attempts tasks \<and> distinct seen
    \<and> (fresh \<longleftrightarrow> \<not> changed_attempts tasks \<subseteq> set old)"
  using assms
proof (induction tasks arbitrary: seen fresh rule: rev_induct)
  case Nil
  then show ?case by (simp add: attempts_def changed_attempts_def)
next
  case (snoc t tasks)
  obtain seen0 fresh0 where before: "foldl (see_attempt old) ([], False) tasks = (seen0, fresh0)"
    by fastforce
  note IH = snoc.IH [OF before]
  have parts: "attempts (tasks @ [t]) = attempts tasks \<union> attempts [t]"
    "changed_attempts (tasks @ [t]) = changed_attempts tasks \<union> changed_attempts [t]"
    "attempts [t] = (if isStartJob t \<and> attempt_id t \<noteq> '''' then {attempt_id t} else {})"
    "changed_attempts [t] =
      (if isStartJob t \<and> attempt_id t \<noteq> '''' \<and> changedThePage t then {attempt_id t} else {})"
    by (auto simp: attempts_def changed_attempts_def)
  from snoc.prems have run: "see_attempt old (seen0, fresh0) t = (seen, fresh)"
    by (simp add: before)
  have step: "set seen = set seen0 \<union> (set old \<inter> attempts [t] \<union> changed_attempts [t])"
    "distinct seen0 \<longrightarrow> distinct seen" "fresh \<longleftrightarrow> fresh0 \<or> \<not> changed_attempts [t] \<subseteq> set old"
    using run by (auto simp: see_attempt_def parts(3,4) distinct_add_key split: if_splits)
  show ?case unfolding parts(1,2) using IH step by auto
qed

text \<open>
  One poll as the browser sees it: when the script asks for a reload the page is loaded anew, with the
  tab's storage.
\<close>

definition poll_page :: "bool \<Rightarrow> task_page \<Rightarrow> bool \<times> task list \<Rightarrow> task_page" where
  "poll_page dash p = (\<lambda>(typing, tasks). (reloadOnFinish dash typing tasks p)\<lparr>reloading := False\<rparr>)"

lemma poll_page_step:
  assumes "\<not> reloading p" and "set (remembered (store p)) \<subseteq> attempts tasks" and "distinct (remembered (store p))"
  shows "let q = poll_page dash p (typing, tasks); R = set (remembered (store p));
             R' = set (remembered (store q))
    in \<not> reloading q \<and> distinct (remembered (store q)) \<and> available (store q) = available (store p)
      \<and> (R' = R \<and> reloads q = reloads p
         \<or> available (store p) \<and> R' = R \<union> changed_attempts tasks \<and> \<not> changed_attempts tasks \<subseteq> R
            \<and> reloads q \<le> reloads p + 1)"
proof -
  define old where "old = reloadedSet (store p)"
  obtain seen fresh where see: "foldl (see_attempt old) ([], False) tasks = (seen, fresh)" by fastforce
  note s = see_attempts [OF see]
  have sub: "set old \<subseteq> attempts tasks" "distinct old"
    using assms by (auto simp: old_def reloadedSet_def split: if_splits)
  have same: "set seen = set old \<Longrightarrow> length old = length seen"
    using s sub(2) by (metis distinct_card)
  show ?thesis
  proof (cases fresh)
    case False
    with s sub have "set seen = set old" by blast
    from same [OF this] False assms(1,3) show ?thesis
      by (simp add: poll_page_def reloadOnFinish_def old_def [symmetric] see Let_def)
  next
    case True
    with s sub have seen: "set seen = set old \<union> changed_attempts tasks" by blast
    note run = poll_page_def reloadOnFinish_def old_def [symmetric] see Let_def markReloaded_def
    show ?thesis
    proof (cases "typing \<or> \<not> available (store p)")
      case idle: True
      then have "reloads (poll_page dash p (typing, tasks)) = reloads p"
        "store (poll_page dash p (typing, tasks)) = store p" "\<not> reloading (poll_page dash p (typing, tasks))"
        using True assms(1) by (auto simp: run)
      with assms(3) show ?thesis by simp
    next
      case False
      then have "reloads (poll_page dash p (typing, tasks)) \<le> reloads p + 1"
        "store (poll_page dash p (typing, tasks)) = (store p)\<lparr>remembered := seen\<rparr>"
        "\<not> reloading (poll_page dash p (typing, tasks))" "old = remembered (store p)"
        using True assms(1) by (auto simp: run) (simp add: old_def reloadedSet_def)
      with False True seen s show ?thesis by simp
    qed
  qed
qed


definition demo_page :: task_page where
  "demo_page = \<lparr>rows = [], hosts = [], store = \<lparr>available = True, remembered = []\<rparr>, reloading = False,
     reloads = 0\<rparr>"


subsection \<open>Polling\<close>

text \<open>The page wants polling while it is visible and not being reloaded.\<close>

definition wants_polling :: "banner \<Rightarrow> bool" where
  "wants_polling s \<longleftrightarrow> \<not> hidden s \<and> \<not> reloading (page s)"

definition banner_inv :: "banner \<Rightarrow> bool" where
  "banner_inv s \<longleftrightarrow>
     outstanding s = (if polling s then 1 else 0)
   \<and> (polling s \<longrightarrow> timer s = None)
   \<and> (\<not> wants_polling s \<longrightarrow> timer s = None)
   \<and> (wants_polling s \<longrightarrow> timer s \<noteq> None \<or> polling s)"

definition loaded :: "banner \<Rightarrow> bool" where
  "loaded s \<longleftrightarrow> (\<exists>server_rows page_hosts st hide. s = load_tasks server_rows page_hosts st hide)"

lemma reloading_render: "reloading p \<Longrightarrow> reloading (render_tasks dash typing tasks p)"
  by (simp add: render_tasks_def reloadOnFinish_def Let_def)

lemma banner_inv_tick: "banner_inv s \<Longrightarrow> banner_inv (tick_tasks s)"
  by (auto simp: banner_inv_def wants_polling_def tick_tasks_def clearTimer_tasks_def Let_def)

lemma banner_inv_step: "banner_step dash s t \<Longrightarrow> banner_inv s \<Longrightarrow> banner_inv t"
proof (induction rule: banner_step.induct)
  case (answered s typing feed)
  then show ?case
    by (cases feed) (auto simp: banner_inv_def wants_polling_def poll_defs Let_def split: if_splits)
next
  case (visibility s hide)
  then show ?case
    by (cases hide) (auto simp: banner_inv_def wants_polling_def poll_defs Let_def)
next
  case (dismiss s key)
  then show ?case by (simp add: banner_inv_def wants_polling_def dismissed_row_def)
qed (rule banner_inv_tick, assumption)+

interpretation tasks: driven_poller loaded "banner_step dash" banner_inv outstanding
  "\<lambda>s. timer s \<noteq> None" wants_polling tick_tasks "settled_tasks dash True None" requests for dash
proof unfold_locales
  show "banner_inv s" if "loaded s" for s
    using that by (auto simp: loaded_def load_tasks_def banner_inv_def tick_tasks_def clearTimer_tasks_def)
  show "banner_inv t" if "banner_step dash s t" "banner_inv s" for s t
    using that by (rule banner_inv_step)
  show "banner_step dash s (tick_tasks s)" if "timer s \<noteq> None" for s
    using that by (rule banner_step.timer_fires)
  show "banner_step dash s (settled_tasks dash True None s)" if "0 < outstanding s" for s
    using that by (rule banner_step.answered)
qed (auto simp: banner_inv_def wants_polling_def poll_defs Let_def split: if_splits)

text \<open>
  Whatever the order of timer, answers, visibility changes and button presses, there is never more
  than one request in flight, no timer is armed while the page is hidden or reloading, and a visible
  page always has a timer or a request.
\<close>

theorem tasks_polling_contract:
  assumes "s = load_tasks server_rows page_hosts st hide" and "(banner_step dash)\<^sup>*\<^sup>* s t"
  shows "outstanding t \<le> 1
    \<and> (hidden t \<or> reloading (page t) \<longrightarrow> timer t = None)
    \<and> (\<not> hidden t \<and> \<not> reloading (page t) \<longrightarrow> timer t \<noteq> None \<or> outstanding t = 1)"
proof -
  have "loaded s" unfolding loaded_def using assms(1) by blast
  from tasks.polling_contract [OF this assms(2)] show ?thesis by (auto simp: wants_polling_def)
qed

theorem tasks_polling_contract_witness:
  "outstanding (visibility_tasks True (load_tasks [] [] \<lparr>available = True, remembered = []\<rparr> False)) \<le> 1
  \<and> timer (visibility_tasks True (load_tasks [] [] \<lparr>available = True, remembered = []\<rparr> False)) = None"
proof -
  let ?s = "load_tasks [] [] \<lparr>available = True, remembered = []\<rparr> False"
  have "(banner_step False)\<^sup>*\<^sup>* ?s (visibility_tasks True ?s)"
    by (rule r_into_rtranclp) (rule banner_step.visibility)
  from tasks_polling_contract [OF refl this] show ?thesis
    by (simp add: visibility_tasks_def clearTimer_tasks_def)
qed

text \<open>
  Polling never dies: from every reachable state of a visible page the timer and failing answers
  alone lead to a further request.
\<close>

theorem tasks_poll_again:
  assumes "s = load_tasks server_rows page_hosts st hide" and "(banner_step dash)\<^sup>*\<^sup>* s t"
    and "\<not> hidden t" and "\<not> reloading (page t)"
  shows "\<exists>u. (banner_step dash)\<^sup>*\<^sup>* t u \<and> requests t < requests u"
proof -
  have "loaded s" unfolding loaded_def using assms(1) by blast
  from tasks.polls_again [OF this assms(2)] assms(3,4) show ?thesis by (auto simp: wants_polling_def)
qed

theorem tasks_poll_again_witness:
  "\<exists>u. (banner_step False)\<^sup>*\<^sup>* (load_tasks [] [] \<lparr>available = True, remembered = []\<rparr> False) u
     \<and> requests u > 1"
  using tasks_poll_again [OF refl rtranclp.rtrancl_refl, of "[]" "[]" "\<lparr>available = True, remembered = []\<rparr>" False False]
  by (simp add: load_tasks_def tick_tasks_def clearTimer_tasks_def)

end
