(* ===== verification/Gps.thy ===== *)
theory Gps
  imports Poller JsNum
begin

text \<open>
  The GPS monitor (\<open>static/gps.js\<close>): rendering of a sample and of the sky view, and the two polling
  loops, \<open>/api/gps\<close> while the pane is open and \<open>/api/gps/nmea\<close> while the NMEA box is shown. Numbers of
  a sample are doubles, \<open>null\<close> is \<open>None\<close>, an absent or empty string is \<open>''''\<close>; the elements the
  script looks up are taken to exist. \<open>Math.cos\<close> and \<open>Math.sin\<close> are arguments.
\<close>

subsection \<open>Samples\<close>

record satellite =
  el :: "rat option"
  az :: "rat option"
  ss :: "rat option"
  used :: "bool option"
  talker :: string
  prn :: string

record sample =
  slabel :: string
  sstate :: string
  error :: string
  notice :: string
  lat :: "rat option"
  lon :: "rat option"
  alt :: "rat option"
  alt_kind :: string
  time :: string
  time_has_date :: bool
  sats_used :: "int option"
  sats_seen :: "int option"
  device :: string
  devices :: "string list"
  satellites :: "satellite list"
  nmea_ok :: bool
  source :: string
  nmea :: "string list"

text \<open>\<open>x || y\<close> on strings, and what \<open>text(id, v)\<close> writes.\<close>

definition str_or :: "string \<Rightarrow> string \<Rightarrow> string" where
  "str_or x y = (if x = '''' then y else x)"

definition shown :: "string option \<Rightarrow> string" where
  "shown v = (case v of None \<Rightarrow> em_dash | Some s \<Rightarrow> str_or s em_dash)"

definition fmtCoord :: "rat option \<Rightarrow> nat \<Rightarrow> string option" where
  "fmtCoord v digits = map_option (toFixed digits) v"

definition fmtAlt :: "sample \<Rightarrow> string option" where
  "fmtAlt d = map_option (\<lambda>a. toFixed 1 a @ '' '' @
     (if alt_kind d = ''msl'' then ''m MSL'' else if alt_kind d = ''hae'' then ''m HAE'' else ''m (legacy alt)''))
     (alt d)"

definition sats_text :: "sample \<Rightarrow> string option" where
  "sats_text d =
     (if sats_used d = None \<and> sats_seen d = None then None
      else Some ((case sats_used d of None \<Rightarrow> ''?'' | Some n \<Rightarrow> show_int n) @ '' of '' @
                 (case sats_seen d of None \<Rightarrow> ''n/a'' | Some n \<Rightarrow> show_int n)))"

definition state_text :: "sample \<Rightarrow> string" where
  "state_text d =
     str_or (slabel d) (str_or (sstate d) ''?'')
     @ (if error d = '''' then '''' else '' ('' @ error d @ '')'')"

definition device_text :: "sample \<Rightarrow> string option" where
  "device_text d =
     (if device d \<noteq> '''' then Some (device d)
      else if devices d \<noteq> [] then Some (join '', '' (devices d)) else None)"

text \<open>The texts the monitor shows, by element.\<close>

definition monitor_texts :: "sample \<Rightarrow> (string \<times> string) list" where
  "monitor_texts d =
     (let showPos = lat d \<noteq> None \<and> lon d \<noteq> None in
      [(''gps-mon-state'', shown (Some (state_text d))),
       (''gps-mon-summary'', shown (Some (slabel d))),
       (''gps-mon-note'', notice d),
       (''gps-mon-lat'', shown (if showPos then fmtCoord (lat d) 6 else None)),
       (''gps-mon-lon'', shown (if showPos then fmtCoord (lon d) 6 else None)),
       (''gps-mon-alt'', shown (if showPos then fmtAlt d else None)),
       (''gps-mon-time'', shown (if time d = '''' then None
          else Some (time d @ (if time_has_date d then '''' else '' (date unavailable)'')))),
       (''gps-mon-sats'', shown (sats_text d)),
       (''gps-mon-device'', shown (device_text d))])"

subsection \<open>The sky view\<close>

datatype svg =
    Ring rat
  | Line rat rat rat rat
  | Dot string string rat bool "string"
  | Tag string string string
  | North rat
  | NoSatellites rat

definition above_horizon :: "satellite \<Rightarrow> bool" where
  "above_horizon s \<longleftrightarrow> (case el s of None \<Rightarrow> False | Some e \<Rightarrow> 0 \<le> e) \<and> az s \<noteq> None"

definition dot_radius :: "rat option \<Rightarrow> rat" where
  "dot_radius strength = (case strength of
     None \<Rightarrow> 5 | Some v \<Rightarrow> max 3 (min 11 (fl (3 + fl (v / 6)))))"

text \<open>\<open>math_pi\<close> is the double \<open>Math.PI\<close>.\<close>

definition sky_dot :: "(rat \<Rightarrow> rat) \<Rightarrow> (rat \<Rightarrow> rat) \<Rightarrow> rat \<Rightarrow> satellite \<Rightarrow> svg list" where
  "sky_dot js_cos js_sin math_pi s =
     (let r = fl (140 * fl (1 - fl (the (el s) / 90)));
          a = fl (fl (fl (the (az s) - 90) * math_pi) / 180);
          x = fl (160 + fl (r * js_cos a));
          y = fl (160 + fl (r * js_sin a));
          radius = dot_radius (ss s)
      in [Dot (toFixed 1 x) (toFixed 1 y) radius (used s = Some True)
            (if used s = None then ''0.5'' else ''1''),
          Tag (toFixed 1 (fl (fl (x + radius) + 2))) (toFixed 1 (fl (y + 4)))
            ((if talker s = '''' then '''' else talker s @ '' '') @ prn s)])"

definition renderSky :: "(rat \<Rightarrow> rat) \<Rightarrow> (rat \<Rightarrow> rat) \<Rightarrow> rat \<Rightarrow> sample \<Rightarrow> svg list" where
  "renderSky js_cos js_sin math_pi d =
     (let sats = filter above_horizon (satellites d) in
      map (\<lambda>elev. Ring (fl (140 * fl (1 - fl (elev / 90))))) [90, 60, 30, 0]
      @ [Line 160 20 160 300, Line 20 160 300 160, North 16]
      @ concat (map (sky_dot js_cos js_sin math_pi) sats)
      @ (if sats = [] then [NoSatellites 164] else []))"

subsection \<open>The pane\<close>

text \<open>
  The two details elements, the visibility of the page, the shown boxes, and per loop its timer, its
  in-flight flag, its generation, and the generations of the requests that are out. \<open>toggles\<close> counts
  the toggle events the browser has queued and not yet delivered.
\<close>

record gps =
  mon_open :: bool
  outer_open :: bool
  page_hidden :: bool
  toggles :: nat
  monTimer :: "nat option"
  monInFlight :: bool
  monGen :: nat
  monOut :: "nat list"
  monRequests :: nat
  nmeaTimer :: "nat option"
  nmeaInFlight :: bool
  nmeaGen :: nat
  nmeaOut :: "nat list"
  nmeaRequests :: nat
  wrap_hidden :: bool
  sky_hidden :: bool
  last_sample :: "sample option"
  texts :: "string \<Rightarrow> string"
  sky :: "svg list"
  nmea_body :: string
  nmea_label :: string
  nmea_btn_disabled :: bool

definition MON_MS :: nat where "MON_MS = 3000"
definition NMEA_MS :: nat where "NMEA_MS = 2000"

definition paneOpen :: "gps \<Rightarrow> bool" where
  [poll_defs]: "paneOpen s \<longleftrightarrow> mon_open s \<and> outer_open s \<and> \<not> page_hidden s"

definition nmeaOpen :: "gps \<Rightarrow> bool" where
  [poll_defs]: "nmeaOpen s \<longleftrightarrow> paneOpen s \<and> \<not> wrap_hidden s"

definition text_gps :: "string \<Rightarrow> string option \<Rightarrow> gps \<Rightarrow> gps" where
  [poll_defs]: "text_gps i v s = s\<lparr>texts := (texts s)(i := shown v)\<rparr>"

definition stopNmea :: "gps \<Rightarrow> gps" where
  [poll_defs]: "stopNmea s = s\<lparr>nmeaTimer := None, nmeaGen := nmeaGen s + 1\<rparr>"

definition stop_gps :: "gps \<Rightarrow> gps" where
  [poll_defs]: "stop_gps s = stopNmea (s\<lparr>monTimer := None, monGen := monGen s + 1\<rparr>)"

definition suppressNmea :: "string \<Rightarrow> gps \<Rightarrow> gps" where
  [poll_defs]: "suppressNmea why s = (stopNmea s)\<lparr>nmea_body := '''', nmea_label := why\<rparr>"

definition renderNmeaLines :: "string list \<Rightarrow> gps \<Rightarrow> gps" where
  [poll_defs]: "renderNmeaLines nls s = s\<lparr>nmea_body := join [CHR 0x0A] nls\<rparr>"

definition render_gps :: "(sample \<Rightarrow> svg list) \<Rightarrow> sample \<Rightarrow> gps \<Rightarrow> gps" where
  "render_gps draw d s =
     (let s = s\<lparr>last_sample := Some d,
                texts := override_on (texts s) (\<lambda>i. the (map_of (monitor_texts d) i))
                           (fst ` set (monitor_texts d)),
                sky := draw d, nmea_btn_disabled := \<not> nmea_ok d\<rparr>
      in if \<not> nmea_ok d then
           suppressNmea (if sstate d = ''ambiguous''
                         then ''several GPS data sources '' @ em_dash @ '' combined NMEA not shown''
                         else ''no NMEA stream in this state'') s
         else if source d = ''nmea'' \<and> nmeaOpen s then renderNmeaLines (nmea d) s
         else s)"

text \<open>The monitor's loop. An answer is the sample, or \<open>None\<close> for a refusal.\<close>

definition schedule_gps :: "nat \<Rightarrow> gps \<Rightarrow> gps" where
  [poll_defs]: "schedule_gps ms s =
     (let s = s\<lparr>monTimer := None\<rparr> in if paneOpen s then s\<lparr>monTimer := Some ms\<rparr> else s)"

definition tick_gps :: "gps \<Rightarrow> gps" where
  [poll_defs]: "tick_gps s =
     (let s = s\<lparr>monTimer := None\<rparr> in
      if \<not> paneOpen s \<or> monInFlight s then s
      else s\<lparr>monInFlight := True, monGen := monGen s + 1, monOut := monOut s @ [monGen s + 1],
             monRequests := monRequests s + 1\<rparr>)"

definition answered_gps :: "(sample \<Rightarrow> svg list) \<Rightarrow> nat \<Rightarrow> sample option \<Rightarrow> gps \<Rightarrow> gps" where
  [poll_defs]: "answered_gps draw gen d s =
     (let s = s\<lparr>monInFlight := False, monOut := remove1 gen (monOut s)\<rparr> in
      if gen \<noteq> monGen s then schedule_gps 0 s
      else if \<not> paneOpen s then s
      else schedule_gps MON_MS
             (case d of Some v \<Rightarrow> render_gps draw v s
              | None \<Rightarrow> text_gps ''gps-mon-state'' (Some ''request failed'') s))"

definition failed_gps :: "nat \<Rightarrow> gps \<Rightarrow> gps" where
  [poll_defs]: "failed_gps gen s =
     (let s = s\<lparr>monInFlight := False, monOut := remove1 gen (monOut s)\<rparr>;
          s' = (if gen = monGen s then text_gps ''gps-mon-state'' (Some ''request failed'') s else s)
      in schedule_gps (if gen = monGen s then MON_MS else 0) s')"

text \<open>The NMEA loop. An answer is its lines (none for a refusal).\<close>

definition nmeaSchedule :: "nat \<Rightarrow> gps \<Rightarrow> gps" where
  [poll_defs]: "nmeaSchedule ms s =
     (let s = s\<lparr>nmeaTimer := None\<rparr> in if nmeaOpen s then s\<lparr>nmeaTimer := Some ms\<rparr> else s)"

definition nmeaTick :: "gps \<Rightarrow> gps" where
  [poll_defs]: "nmeaTick s =
     (let s = s\<lparr>nmeaTimer := None\<rparr> in
      if \<not> nmeaOpen s \<or> nmeaInFlight s then s
      else case last_sample s of
             None \<Rightarrow> s
           | Some d \<Rightarrow>
               if \<not> nmea_ok d then s
               else if source d = ''nmea'' then nmeaSchedule NMEA_MS (renderNmeaLines (nmea d) s)
               else s\<lparr>nmeaInFlight := True, nmeaGen := nmeaGen s + 1,
                      nmeaOut := nmeaOut s @ [nmeaGen s + 1], nmeaRequests := nmeaRequests s + 1\<rparr>)"

definition nmea_answered :: "nat \<Rightarrow> string list \<Rightarrow> gps \<Rightarrow> gps" where
  [poll_defs]: "nmea_answered gen nls s =
     (let s = s\<lparr>nmeaInFlight := False, nmeaOut := remove1 gen (nmeaOut s)\<rparr> in
      if gen \<noteq> nmeaGen s then nmeaSchedule 0 s
      else if \<not> nmeaOpen s \<or> (case last_sample s of None \<Rightarrow> True | Some d \<Rightarrow> \<not> nmea_ok d) then s
      else nmeaSchedule NMEA_MS (renderNmeaLines nls s))"

definition nmea_failed :: "nat \<Rightarrow> gps \<Rightarrow> gps" where
  [poll_defs]: "nmea_failed gen s =
     (let s = s\<lparr>nmeaInFlight := False, nmeaOut := remove1 gen (nmeaOut s)\<rparr>
      in nmeaSchedule (if gen = nmeaGen s then NMEA_MS else 0) s)"

text \<open>Events of the page.\<close>

definition toggle_event :: "gps \<Rightarrow> gps" where
  [poll_defs]: "toggle_event s =
     (let s = s\<lparr>toggles := toggles s - 1\<rparr> in if paneOpen s then tick_gps s else stop_gps s)"

definition visibility_gps :: "bool \<Rightarrow> gps \<Rightarrow> gps" where
  [poll_defs]: "visibility_gps hide s =
     (let s = s\<lparr>page_hidden := hide\<rparr> in
      if hide then stop_gps s else if mon_open s then tick_gps s else s)"

definition open_sky :: "(sample \<Rightarrow> svg list) \<Rightarrow> gps \<Rightarrow> gps" where
  [poll_defs]: "open_sky draw s =
     (let s = s\<lparr>sky_hidden := False\<rparr> in
      case last_sample s of Some d \<Rightarrow> s\<lparr>sky := draw d\<rparr> | None \<Rightarrow> s)"

definition open_nmea :: "gps \<Rightarrow> gps" where
  [poll_defs]: "open_nmea s =
     (let from_sample = (case last_sample s of Some d \<Rightarrow> source d = ''nmea'' | None \<Rightarrow> False) in
      nmeaTick (s\<lparr>nmea_label := (if from_sample then ''receiver NMEA (the last sample)'' else ''gpsd NMEA output''),
                  wrap_hidden := False\<rparr>))"

definition close_nmea :: "gps \<Rightarrow> gps" where
  [poll_defs]: "close_nmea s = stopNmea (s\<lparr>wrap_hidden := True\<rparr>)"

definition load_gps :: "bool \<Rightarrow> bool \<Rightarrow> bool \<Rightarrow> gps" where
  [poll_defs]: "load_gps mopen oopen hide =
     (let s = \<lparr>mon_open = mopen, outer_open = oopen, page_hidden = hide, toggles = 0, monTimer = None,
        monInFlight = False, monGen = 0, monOut = [], monRequests = 0, nmeaTimer = None,
        nmeaInFlight = False, nmeaGen = 0, nmeaOut = [], nmeaRequests = 0, wrap_hidden = True,
        sky_hidden = True, last_sample = None, texts = (\<lambda>_. ''''), sky = [], nmea_body = '''',
        nmea_label = '''', nmea_btn_disabled = False\<rparr>
      in if mopen then tick_gps s else s)"

inductive gps_event :: "(sample \<Rightarrow> svg list) \<Rightarrow> gps \<Rightarrow> gps \<Rightarrow> bool" for draw where
  mon_timer: "monTimer s \<noteq> None \<Longrightarrow> gps_event draw s (tick_gps s)"
| mon_answer: "gen \<in> set (monOut s) \<Longrightarrow> gps_event draw s (answered_gps draw gen d s)"
| mon_fail: "gen \<in> set (monOut s) \<Longrightarrow> gps_event draw s (failed_gps gen s)"
| nmea_timer: "nmeaTimer s \<noteq> None \<Longrightarrow> gps_event draw s (nmeaTick s)"
| nmea_answer: "gen \<in> set (nmeaOut s) \<Longrightarrow> gps_event draw s (nmea_answered gen nls s)"
| nmea_fail: "gen \<in> set (nmeaOut s) \<Longrightarrow> gps_event draw s (nmea_failed gen s)"
| user_toggles: "gps_event draw s (s\<lparr>mon_open := mo, outer_open := oo, toggles := toggles s + 1\<rparr>)"
| toggled: "0 < toggles s \<Longrightarrow> gps_event draw s (toggle_event s)"
| visibility: "gps_event draw s (visibility_gps hide s)"
| sky_opened: "gps_event draw s (open_sky draw s)"
| sky_closed: "gps_event draw s (s\<lparr>sky_hidden := True\<rparr>)"
| nmea_closed: "gps_event draw s (close_nmea s)"

inductive_cases gps_eventE: "gps_event draw s t"

text \<open>The NMEA button is kept apart: it is the only way to start the NMEA loop.\<close>

inductive gps_step :: "(sample \<Rightarrow> svg list) \<Rightarrow> gps \<Rightarrow> gps \<Rightarrow> bool" for draw where
  event: "gps_event draw s t \<Longrightarrow> gps_step draw s t"
| nmea_button: "gps_step draw s (open_nmea s)"

end
