(* ===== verification/Gps_Props.thy ===== *)
theory Gps_Props
  imports Gps
begin

text \<open>
  The two loops of the GPS monitor: the polling contract of \<open>/api/gps\<close>, obsolete answers never shown,
  single flight of \<open>/api/gps/nmea\<close>, and the NMEA loop that stays dead after an interruption.
\<close>

subsection \<open>Invariant\<close>

definition mon_inv :: "gps \<Rightarrow> bool" where
  "mon_inv s \<longleftrightarrow>
     (if monInFlight s then \<exists>g. monOut s = [g] \<and> g \<le> monGen s else monOut s = [])
   \<and> (monInFlight s \<longrightarrow> monTimer s = None)
   \<and> (toggles s = 0 \<longrightarrow> (monTimer s \<noteq> None \<or> monInFlight s \<or> \<not> paneOpen s)
        \<and> (\<not> paneOpen s \<longrightarrow> monTimer s = None))"

definition nmea_inv :: "gps \<Rightarrow> bool" where
  "nmea_inv s \<longleftrightarrow>
     (if nmeaInFlight s then \<exists>g. nmeaOut s = [g] \<and> g \<le> nmeaGen s else nmeaOut s = [])
   \<and> (nmeaInFlight s \<longrightarrow> nmeaTimer s = None)"

lemma mon_fields [simp]:
  "monTimer (stopNmea s) = monTimer s" "monInFlight (stopNmea s) = monInFlight s"
  "monGen (stopNmea s) = monGen s" "monOut (stopNmea s) = monOut s" "toggles (stopNmea s) = toggles s"
  "mon_open (stopNmea s) = mon_open s" "outer_open (stopNmea s) = outer_open s"
  "page_hidden (stopNmea s) = page_hidden s" "monRequests (stopNmea s) = monRequests s"
  "monTimer (render_gps draw d s) = monTimer s" "monInFlight (render_gps draw d s) = monInFlight s"
  "monGen (render_gps draw d s) = monGen s" "monOut (render_gps draw d s) = monOut s"
  "toggles (render_gps draw d s) = toggles s" "mon_open (render_gps draw d s) = mon_open s"
  "outer_open (render_gps draw d s) = outer_open s" "page_hidden (render_gps draw d s) = page_hidden s"
  "monRequests (render_gps draw d s) = monRequests s"
  "monTimer (nmeaTick s) = monTimer s" "monInFlight (nmeaTick s) = monInFlight s"
  "monGen (nmeaTick s) = monGen s" "monOut (nmeaTick s) = monOut s" "toggles (nmeaTick s) = toggles s"
  "mon_open (nmeaTick s) = mon_open s" "outer_open (nmeaTick s) = outer_open s"
  "page_hidden (nmeaTick s) = page_hidden s" "monRequests (nmeaTick s) = monRequests s"
  by (auto simp: poll_defs render_gps_def Let_def split: option.splits)

lemma mon_inv_cong:
  "mon_inv s \<Longrightarrow> monTimer t = monTimer s \<Longrightarrow> monInFlight t = monInFlight s \<Longrightarrow> monGen t = monGen s \<Longrightarrow>
    monOut t = monOut s \<Longrightarrow> toggles t = toggles s \<Longrightarrow> mon_open t = mon_open s \<Longrightarrow>
    outer_open t = outer_open s \<Longrightarrow> page_hidden t = page_hidden s \<Longrightarrow> mon_inv t"
  by (simp add: mon_inv_def paneOpen_def)

lemma mon_inv_tick: "mon_inv s \<Longrightarrow> mon_inv (tick_gps s)"
  by (auto simp: mon_inv_def tick_gps_def paneOpen_def Let_def)

lemma mon_inv_settle:
  assumes "mon_inv s" and "gen \<in> set (monOut s)"
  shows "mon_inv (answered_gps draw gen d s)" and "mon_inv (failed_gps gen s)"
  using assms
  by (auto simp: mon_inv_def answered_gps_def failed_gps_def schedule_gps_def text_gps_def paneOpen_def
      Let_def split: if_splits option.splits)

lemma mon_inv_event: "gps_event draw s t \<Longrightarrow> mon_inv s \<Longrightarrow> mon_inv t"
proof (induction rule: gps_event.induct)
  case (mon_timer s)
  then show ?case by (simp add: mon_inv_tick)
next
  case (mon_answer gen s d)
  then show ?case by (simp add: mon_inv_settle)
next
  case (mon_fail gen s)
  then show ?case by (simp add: mon_inv_settle)
next
  case (toggled s)
  then show ?case
    by (auto simp: mon_inv_def toggle_event_def tick_gps_def stop_gps_def paneOpen_def Let_def)
next
  case (visibility s hide)
  then show ?case
    by (auto simp: mon_inv_def visibility_gps_def tick_gps_def stop_gps_def paneOpen_def Let_def)
next
  case (user_toggles s mo oo)
  then show ?case by (auto simp: mon_inv_def)
next
  case (nmea_answer gen s nls)
  then show ?case
    by (auto intro!: mon_inv_cong [of s] simp: nmea_answered_def nmeaSchedule_def renderNmeaLines_def Let_def
        split: option.splits)
next
  case (nmea_fail gen s)
  then show ?case
    by (auto intro!: mon_inv_cong [of s] simp: nmea_failed_def nmeaSchedule_def Let_def)
next
  case (sky_opened s)
  then show ?case
    by (auto intro!: mon_inv_cong [of s] simp: open_sky_def Let_def split: option.splits)
qed (auto elim: mon_inv_cong simp: close_nmea_def Let_def)

lemma mon_inv_step: "gps_step draw s t \<Longrightarrow> mon_inv s \<Longrightarrow> mon_inv t"
  by (induction rule: gps_step.induct)
    (auto dest: mon_inv_event elim: mon_inv_cong simp: open_nmea_def Let_def)

lemma nmea_inv_tick: "nmea_inv s \<Longrightarrow> nmea_inv (nmeaTick s)"
  by (auto simp: nmea_inv_def nmeaTick_def nmeaSchedule_def renderNmeaLines_def Let_def split: option.splits)

lemma nmea_inv_mon [simp]:
  "nmea_inv (tick_gps s) = nmea_inv s" "nmea_inv (schedule_gps ms s) = nmea_inv s"
  "nmea_inv (text_gps i v s) = nmea_inv s" "nmea_inv (s\<lparr>monInFlight := b, monOut := l\<rparr>) = nmea_inv s"
  by (simp_all add: nmea_inv_def tick_gps_def schedule_gps_def text_gps_def Let_def)

lemma nmea_inv_stop: "nmea_inv s \<Longrightarrow> nmea_inv (stop_gps s)" "nmea_inv s \<Longrightarrow> nmea_inv (stopNmea s)"
  by (auto simp: nmea_inv_def stop_gps_def stopNmea_def le_Suc_eq)

lemma nmea_inv_render: "nmea_inv s \<Longrightarrow> nmea_inv (render_gps draw d s)"
  by (auto simp: nmea_inv_def render_gps_def suppressNmea_def stopNmea_def renderNmeaLines_def Let_def)

lemma nmea_inv_settle:
  assumes "nmea_inv s" and "gen \<in> set (nmeaOut s)"
  shows "nmea_inv (nmea_answered gen nls s)" and "nmea_inv (nmea_failed gen s)"
  using assms
  by (auto simp: nmea_inv_def nmea_answered_def nmea_failed_def nmeaSchedule_def renderNmeaLines_def Let_def
      split: if_splits option.splits)

lemma nmea_inv_event: "gps_event draw s t \<Longrightarrow> nmea_inv s \<Longrightarrow> nmea_inv t"
proof (induction rule: gps_event.induct)
  case (mon_answer gen s d)
  then show ?case
    by (cases d) (simp_all add: answered_gps_def Let_def nmea_inv_render)
next
  case (toggled s)
  moreover from this have "nmea_inv (s\<lparr>toggles := toggles s - 1\<rparr>)" by (simp add: nmea_inv_def)
  ultimately show ?case by (simp add: toggle_event_def Let_def nmea_inv_stop)
next
  case (visibility s hide)
  moreover from this have "nmea_inv (s\<lparr>page_hidden := hide\<rparr>)" by (simp add: nmea_inv_def)
  ultimately show ?case by (cases hide) (simp_all add: visibility_gps_def Let_def nmea_inv_stop)
next
  case (nmea_closed s)
  then have "nmea_inv (s\<lparr>wrap_hidden := True\<rparr>)" by (simp add: nmea_inv_def)
  then show ?case unfolding close_nmea_def by (rule nmea_inv_stop)
next
  case (sky_opened s)
  then show ?case by (auto simp: nmea_inv_def open_sky_def Let_def split: option.splits)
qed (auto simp: nmea_inv_tick nmea_inv_settle failed_gps_def Let_def, auto simp: nmea_inv_def)

lemma nmea_inv_step: "gps_step draw s t \<Longrightarrow> nmea_inv s \<Longrightarrow> nmea_inv t"
proof (induction rule: gps_step.induct)
  case (nmea_button s)
  then have "nmea_inv (s\<lparr>nmea_label := l, wrap_hidden := False\<rparr>)" for l by (simp add: nmea_inv_def)
  then show ?case unfolding open_nmea_def Let_def by (rule nmea_inv_tick)
qed (rule nmea_inv_event)

subsection \<open>The contract of the main loop\<close>

definition gps_loaded :: "gps \<Rightarrow> bool" where
  "gps_loaded s \<longleftrightarrow> (\<exists>mopen oopen hide. s = load_gps mopen oopen hide)"

lemma mon_inv_loaded: "gps_loaded s \<Longrightarrow> mon_inv s \<and> nmea_inv s"
proof -
  have "mon_inv (load_gps mopen oopen hide) \<and> nmea_inv (load_gps mopen oopen hide)" for mopen oopen hide
    by (cases mopen; cases oopen; cases hide)
      (simp_all add: load_gps_def mon_inv_def nmea_inv_def tick_gps_def paneOpen_def)
  then show "gps_loaded s \<Longrightarrow> mon_inv s \<and> nmea_inv s" by (auto simp: gps_loaded_def)
qed

interpretation gps: driven_poller gps_loaded "gps_step draw" mon_inv "\<lambda>s. length (monOut s)"
  "\<lambda>s. monTimer s \<noteq> None \<and> toggles s = 0" "\<lambda>s. paneOpen s \<and> toggles s = 0"
  tick_gps "\<lambda>s. failed_gps (hd (monOut s)) s" monRequests for draw
proof unfold_locales
  show "mon_inv s" if "gps_loaded s" for s using that mon_inv_loaded by blast
  show "mon_inv t" if "gps_step draw s t" "mon_inv s" for s t using that by (rule mon_inv_step)
  show "gps_step draw s (tick_gps s)" if "monTimer s \<noteq> None \<and> toggles s = 0" for s
    using that by (intro gps_step.event gps_event.mon_timer) simp
  show "gps_step draw s (failed_gps (hd (monOut s)) s)" if "0 < length (monOut s)" for s
    using that by (intro gps_step.event gps_event.mon_fail) simp
  show "monRequests s < monRequests (tick_gps s)" if "mon_inv s" "monTimer s \<noteq> None \<and> toggles s = 0" for s
    using that by (auto simp: mon_inv_def tick_gps_def paneOpen_def Let_def)
  show "monRequests s < monRequests (failed_gps (hd (monOut s)) s)
      \<or> (monTimer (failed_gps (hd (monOut s)) s) \<noteq> None \<and> toggles (failed_gps (hd (monOut s)) s) = 0)
        \<and> monRequests s \<le> monRequests (failed_gps (hd (monOut s)) s)"
    if "paneOpen s \<and> toggles s = 0" for s
    using that by (auto simp: failed_gps_def schedule_gps_def text_gps_def paneOpen_def Let_def)
qed (auto simp: mon_inv_def split: if_splits)

text \<open>
  Once the browser has delivered the pane's toggle events, the monitor has at most one request in
  flight, no timer while the pane is closed or the page hidden, and a timer or a request while it is
  open; from there the timer and failing answers alone lead to a further request.
\<close>

theorem gps_polling_contract:
  assumes "s = load_gps mopen oopen hide" and "(gps_step draw)\<^sup>*\<^sup>* s t" and "toggles t = 0"
  shows "length (monOut t) \<le> 1
    \<and> (\<not> paneOpen t \<longrightarrow> monTimer t = None)
    \<and> (paneOpen t \<longrightarrow> (monTimer t \<noteq> None \<or> monOut t \<noteq> [])
        \<and> (\<exists>u. (gps_step draw)\<^sup>*\<^sup>* t u \<and> monRequests t < monRequests u))"
proof -
  have "gps_loaded s" unfolding gps_loaded_def using assms(1) by blast
  note c = gps.polling_contract [OF this assms(2)] gps.polls_again [OF this assms(2)]
  then show ?thesis using assms(3) by auto
qed

theorem gps_polling_contract_witness:
  "monTimer (toggle_event (load_gps True True False\<lparr>mon_open := False, outer_open := True, toggles := 1\<rparr>)) = None"
proof -
  let ?s = "load_gps True True False"
  let ?t = "?s\<lparr>mon_open := False, outer_open := True, toggles := toggles ?s + 1\<rparr>"
  have "gps_step (\<lambda>_. []) ?s ?t" by (intro gps_step.event gps_event.user_toggles)
  moreover have "gps_step (\<lambda>_. []) ?t (toggle_event ?t)" by (intro gps_step.event gps_event.toggled) simp
  ultimately have "(gps_step (\<lambda>_. []))\<^sup>*\<^sup>* ?s (toggle_event ?t)" by simp
  from gps_polling_contract [OF refl this] show ?thesis
    by (simp add: toggle_event_def load_gps_def tick_gps_def paneOpen_def stop_gps_def stopNmea_def)
qed

subsection \<open>Obsolete answers\<close>

lemma monGen_mono_event: "gps_event draw s t \<Longrightarrow> monGen s \<le> monGen t"
  by (erule gps_eventE)
    (auto simp: tick_gps_def answered_gps_def failed_gps_def schedule_gps_def text_gps_def
      nmea_answered_def nmea_failed_def nmeaSchedule_def renderNmeaLines_def toggle_event_def
      visibility_gps_def stop_gps_def open_sky_def close_nmea_def Let_def
      split: option.splits)

lemma monGen_mono: "gps_step draw s t \<Longrightarrow> monGen s \<le> monGen t"
  by (induction rule: gps_step.induct) (auto dest: monGen_mono_event simp: open_nmea_def Let_def)

lemma monGen_mono_run: "(gps_step draw)\<^sup>*\<^sup>* s t \<Longrightarrow> monGen s \<le> monGen t"
  by (induction rule: rtranclp_induct) (auto dest: monGen_mono)

text \<open>
  The answer to a request that was out when the pane was closed or the page hidden is never shown,
  whatever happens before it arrives: texts, sky view, NMEA box and remembered sample stay.
\<close>

theorem obsolete_answer_ignored:
  assumes "s = load_gps mopen oopen hide" and "(gps_step draw)\<^sup>*\<^sup>* s t" and "gen \<in> set (monOut t)"
    and "(gps_step draw)\<^sup>*\<^sup>* (stop_gps t) u"
  shows "texts (answered_gps draw gen d u) = texts u \<and> sky (answered_gps draw gen d u) = sky u
    \<and> nmea_body (answered_gps draw gen d u) = nmea_body u
    \<and> last_sample (answered_gps draw gen d u) = last_sample u"
proof -
  have "gps_loaded s" unfolding gps_loaded_def using assms(1) by blast
  then have "mon_inv t" using gps.inv_run [OF assms(2)] mon_inv_loaded by blast
  then have "gen \<le> monGen t" using assms(3) by (auto simp: mon_inv_def split: if_splits)
  moreover have "monGen (stop_gps t) = Suc (monGen t)" by (simp add: stop_gps_def)
  ultimately have "gen < monGen u" using monGen_mono_run [OF assms(4)] by simp
  then show ?thesis by (simp add: answered_gps_def schedule_gps_def Let_def)
qed

theorem obsolete_answer_ignored_witness:
  "texts (answered_gps (\<lambda>_. []) 1 None (stop_gps (load_gps True True False))) ''gps-mon-state'' = ''''"
  using obsolete_answer_ignored [OF refl rtranclp.rtrancl_refl _ rtranclp.rtrancl_refl, of 1 True True False "\<lambda>_. []" None]
  by (simp add: load_gps_def tick_gps_def paneOpen_def stop_gps_def stopNmea_def)

subsection \<open>The NMEA loop\<close>

text \<open>No timer and no request: nothing but the NMEA button starts the loop again.\<close>

definition nmea_idle :: "gps \<Rightarrow> bool" where
  "nmea_idle s \<longleftrightarrow> nmeaTimer s = None \<and> nmeaOut s = [] \<and> \<not> nmeaInFlight s"

lemma nmea_idle_step: "gps_event draw s t \<Longrightarrow> nmea_idle s \<Longrightarrow>
    nmea_idle t \<and> nmeaRequests t = nmeaRequests s"
  by (erule gps_eventE)
    (auto simp: nmea_idle_def tick_gps_def answered_gps_def failed_gps_def schedule_gps_def text_gps_def
      toggle_event_def visibility_gps_def stop_gps_def stopNmea_def open_sky_def close_nmea_def
      render_gps_def suppressNmea_def renderNmeaLines_def Let_def split: option.splits)

text \<open>
  The NMEA loop does not survive an interruption between two requests: when the page is hidden
  then, no NMEA request is ever sent again after it is shown, although the box is still open, until
  the user presses the NMEA button.
\<close>

theorem nmea_not_resumed:
  assumes "s = load_gps mopen oopen hide" and "(gps_step draw)\<^sup>*\<^sup>* s t" and "\<not> nmeaInFlight t"
    and "(gps_event draw)\<^sup>*\<^sup>* (visibility_gps False (visibility_gps True t)) u"
  shows "nmeaTimer u = None \<and> nmeaRequests u = nmeaRequests t"
proof -
  have "gps_loaded s" unfolding gps_loaded_def using assms(1) by blast
  then have "nmea_inv s" using mon_inv_loaded by blast
  with assms(2) have inv: "nmea_inv t" by (induction rule: rtranclp_induct) (auto intro: nmea_inv_step)
  let ?v = "visibility_gps False (visibility_gps True t)"
  have "nmea_idle ?v \<and> nmeaRequests ?v = nmeaRequests t"
    using inv assms(3)
    by (auto simp: nmea_idle_def nmea_inv_def visibility_gps_def stop_gps_def stopNmea_def tick_gps_def Let_def)
  moreover have "nmea_idle u \<and> nmeaRequests u = nmeaRequests ?v" if "nmea_idle ?v"
    using assms(4)
    by (induction rule: rtranclp_induct)
      (auto simp: that dest: nmea_idle_step)
  ultimately show ?thesis by (simp add: nmea_idle_def)
qed

text \<open>A session with gpsd: a sample, the button, one NMEA answer, then the page is hidden and shown.\<close>

definition gpsd_sample :: sample where
  "gpsd_sample = \<lparr>slabel = ''3D fix'', sstate = ''ok'', error = '''', notice = '''', lat = None, lon = None,
     alt = None, alt_kind = '''', time = '''', time_has_date = False, sats_used = None, sats_seen = None,
     device = '''', devices = [], satellites = [], nmea_ok = True, source = ''gpsd'', nmea = []\<rparr>"

definition gpsd_session :: gps where
  "gpsd_session = nmea_answered 1 [''GGA'']
     (open_nmea (answered_gps (\<lambda>_. []) 1 (Some gpsd_sample) (load_gps True True False)))"

lemma gpsd_session_facts: "nmeaRequests gpsd_session = 1" "nmeaTimer gpsd_session = Some NMEA_MS"
  "nmeaInFlight gpsd_session = False" "nmeaOpen gpsd_session"
  by (simp_all add: gpsd_session_def load_gps_def tick_gps_def paneOpen_def answered_gps_def
      schedule_gps_def render_gps_def gpsd_sample_def open_nmea_def nmeaTick_def nmeaOpen_def
      nmea_answered_def nmeaSchedule_def renderNmeaLines_def)

lemma gpsd_session_run: "(gps_step (\<lambda>_. []))\<^sup>*\<^sup>* (load_gps True True False) gpsd_session"
proof -
  let ?s0 = "load_gps True True False" and ?d = "\<lambda>_ :: sample. [] :: svg list"
  let ?s1 = "answered_gps ?d 1 (Some gpsd_sample) ?s0"
  let ?s2 = "open_nmea ?s1"
  have "1 \<in> set (monOut ?s0)" by (simp add: load_gps_def tick_gps_def paneOpen_def)
  then have "gps_step ?d ?s0 ?s1" by (intro gps_step.event gps_event.mon_answer)
  moreover have "gps_step ?d ?s1 ?s2" by (rule gps_step.nmea_button)
  moreover have "1 \<in> set (nmeaOut ?s2)"
    by (simp add: load_gps_def tick_gps_def paneOpen_def answered_gps_def schedule_gps_def render_gps_def
        gpsd_sample_def open_nmea_def nmeaTick_def nmeaOpen_def)
  then have "gps_step ?d ?s2 gpsd_session"
    unfolding gpsd_session_def by (intro gps_step.event gps_event.nmea_answer)
  ultimately show ?thesis by (meson converse_rtranclp_into_rtranclp rtranclp.rtrancl_refl)
qed

theorem nmea_not_resumed_witness:
  "nmeaTimer gpsd_session \<noteq> None
  \<and> nmeaTimer (visibility_gps False (visibility_gps True gpsd_session)) = None
  \<and> nmeaRequests (visibility_gps False (visibility_gps True gpsd_session)) = 1"
  using nmea_not_resumed [OF refl gpsd_session_run _ rtranclp.rtrancl_refl]
  by (simp add: gpsd_session_facts)

end
