(* ===== verification/Dash.thy ===== *)
theory Dash
  imports Poller JsStr
begin

text \<open>
  The radio dashboard (\<open>static/dash.js\<close>): what a daemon answer writes into a band's column, the
  column's polling, the reload on a structural change with the open panels carried across it, and the
  explicit channel scan. Texts of the page are a map from element ids; the script's elements are taken
  to exist. A daemon answer's sections are partial maps of strings.
\<close>

subsection \<open>A band's column\<close>

record daemon_answer =
  reachable :: bool
  channel :: "(string \<rightharpoonup> string) option"
  status :: "(string \<rightharpoonup> string) option"
  stats :: "(string \<rightharpoonup> string) option"
  feed :: "string list"

record column =
  texts :: "string \<rightharpoonup> string"
  meter :: string
  badge_class :: string

text \<open>
  \<open>set(id, text)\<close>: the comparison only avoids a repaint, so it is an assignment unless the text is
  \<open>undefined\<close>. \<open>field\<close> reads a string of a section, \<open>''''\<close> when it is absent; \<open>or_mark\<close> is \<open>x || "?"\<close>.
\<close>

definition set_text :: "string \<Rightarrow> string option \<Rightarrow> column \<Rightarrow> column" where
  "set_text i v c = (case v of None \<Rightarrow> c | Some t \<Rightarrow> c\<lparr>texts := (texts c)(i \<mapsto> t)\<rparr>)"

definition field :: "(string \<rightharpoonup> string) \<Rightarrow> string \<Rightarrow> string" where
  "field m k = (case m k of None \<Rightarrow> '''' | Some v \<Rightarrow> v)"

definition or_mark :: "string \<Rightarrow> string" where
  "or_mark x = (if x = '''' then ''?'' else x)"

definition set_nonempty :: "string \<Rightarrow> string \<Rightarrow> column \<Rightarrow> column" where
  "set_nonempty i v c = (if v = '''' then c else set_text i (Some v) c)"

definition cad_text :: "(string \<rightharpoonup> string) \<Rightarrow> string" where
  "cad_text ch =
     (let scanned = (ch ''CADSCAN'' = Some ''1''); cad = or_mark (field ch ''CADSTATE'')
      in if scanned \<or> cad = ''PENDING'' then cad else em_dash)"

definition show_channel :: "string \<Rightarrow> (string \<rightharpoonup> string) option \<Rightarrow> column \<Rightarrow> column" where
  "show_channel band ch c =
     (let rssi = (case ch of None \<Rightarrow> '''' | Some m \<Rightarrow> field m ''LIVERSSI'');
          c = (if rssi \<noteq> '''' then c\<lparr>meter := rssi\<rparr> else c);
          c = set_text (''rd-rssiv-'' @ band) (Some (or_mark rssi)) c
      in case ch of
           None \<Rightarrow> c
         | Some m \<Rightarrow> set_text (''rd-pktrssi-'' @ band) (Some (or_mark (field m ''PACKETRSSI'')))
                      (set_text (''rd-cad-'' @ band) (Some (cad_text m)) c))"

definition show_status :: "string \<Rightarrow> (string \<rightharpoonup> string) option \<Rightarrow> column \<Rightarrow> column" where
  "show_status band st c = (case st of None \<Rightarrow> c | Some m \<Rightarrow>
     (let c = set_nonempty (''rd-txmode-'' @ band) (field m ''TXMODE'') c;
          c = set_text (''rd-tx-'' @ band) (Some (or_mark (field m ''TX''))) c;
          c = set_nonempty (''rd-radio-'' @ band) (field m ''RADIO'') c;
          c = set_nonempty (''rd-cadrssi-'' @ band) (field m ''CADRSSI'') c
      in set_nonempty (''rd-cadwait-'' @ band) (field m ''CADWAIT'') c))"

definition show_stats :: "string \<Rightarrow> (string \<rightharpoonup> string) option \<Rightarrow> column \<Rightarrow> column" where
  "show_stats band st c = (case st of None \<Rightarrow> c | Some m \<Rightarrow>
     (let c = set_text (''rd-rx-'' @ band) (Some (or_mark (field m ''RX''))) c;
          c = set_text (''rd-txok-'' @ band) (Some (or_mark (field m ''TXOK''))) c;
          c = set_text (''rd-txerr-'' @ band) (Some (or_mark (field m ''TXERR''))) c
      in set_text (''rd-uptime-'' @ band) (Some (or_mark (field m ''UPTIME'') @ '' s'')) c))"

definition show_feed :: "string \<Rightarrow> string list \<Rightarrow> column \<Rightarrow> column" where
  "show_feed band fd c =
     set_text (''rd-feed-'' @ band)
       (Some (if fd \<noteq> [] then join [CHR 0x0A] fd else ''(no recent RX/TX activity)'')) c"

text \<open>The body of \<open>poll\<close> for a parsed answer; \<open>None\<close> is a \<open>null\<close> body.\<close>

definition apply_answer :: "string \<Rightarrow> daemon_answer option \<Rightarrow> column \<Rightarrow> column" where
  "apply_answer band answer c = (case answer of None \<Rightarrow> c | Some d \<Rightarrow>
     (let c = set_text (''rd-badge-'' @ band) (Some (if reachable d then ''daemon live'' else ''daemon offline'')) c;
          c = c\<lparr>badge_class := ''badge badge-'' @ (if reachable d then ''running'' else ''stopped'')\<rparr>
      in if \<not> reachable d then c
         else show_feed band (feed d) (show_stats band (stats d)
                (show_status band (status d) (show_channel band (channel d) c)))))"

subsection \<open>Polling of a column\<close>

definition POLL_MS :: nat where "POLL_MS = 3000"
definition ERROR_MS :: nat where "ERROR_MS = 15000"

record poller_state =
  column :: column
  timer :: "nat option"
  polling :: bool
  hidden :: bool
  outstanding :: nat
  requests :: nat

definition clearTimer_dash :: "poller_state \<Rightarrow> poller_state" where
  [poll_defs]: "clearTimer_dash s = s\<lparr>timer := None\<rparr>"

definition schedule_dash :: "nat \<Rightarrow> poller_state \<Rightarrow> poller_state" where
  [poll_defs]: "schedule_dash ms s =
     (let s = clearTimer_dash s in if hidden s then s else s\<lparr>timer := Some ms\<rparr>)"

definition tick_dash :: "poller_state \<Rightarrow> poller_state" where
  [poll_defs]: "tick_dash s =
     (let s = clearTimer_dash s in
      if polling s \<or> hidden s then s
      else s\<lparr>polling := True, outstanding := outstanding s + 1, requests := requests s + 1\<rparr>)"

text \<open>\<open>Inl ()\<close>: an HTTP or network error, or an unreadable body.\<close>

definition polled_dash :: "string \<Rightarrow> unit + daemon_answer option \<Rightarrow> poller_state \<Rightarrow> poller_state" where
  [poll_defs]: "polled_dash band r s =
     (let s = s\<lparr>outstanding := outstanding s - 1\<rparr>;
          s = (case r of Inl _ \<Rightarrow> s | Inr answer \<Rightarrow> s\<lparr>column := apply_answer band answer (column s)\<rparr>);
          s = s\<lparr>polling := False\<rparr>
      in schedule_dash (case r of Inl _ \<Rightarrow> ERROR_MS | Inr _ \<Rightarrow> POLL_MS) s)"

definition visibility_dash :: "bool \<Rightarrow> poller_state \<Rightarrow> poller_state" where
  [poll_defs]: "visibility_dash hide s =
     (let s = s\<lparr>hidden := hide\<rparr> in if hide then clearTimer_dash s else tick_dash s)"

definition load_dash :: "column \<Rightarrow> bool \<Rightarrow> poller_state" where
  [poll_defs]: "load_dash c hide =
     tick_dash \<lparr>column = c, timer = None, polling = False, hidden = hide, outstanding = 0, requests = 0\<rparr>"

inductive dash_step :: "string \<Rightarrow> poller_state \<Rightarrow> poller_state \<Rightarrow> bool" for band where
  timer_fires: "timer s \<noteq> None \<Longrightarrow> dash_step band s (tick_dash s)"
| polled: "0 < outstanding s \<Longrightarrow> dash_step band s (polled_dash band r s)"
| visibility: "dash_step band s (visibility_dash hide s)"

subsection \<open>Reloading on a structural change\<close>

text \<open>A panel: its id (none for an element without one) and whether it is open.\<close>

type_synonym panel = "string \<times> bool"

definition save_details :: "panel list \<Rightarrow> string \<rightharpoonup> nat" where
  "save_details els = foldl (\<lambda>m (i, opened). if i = '''' then m else m(i \<mapsto> if opened then 1 else 0)) Map.empty els"

definition restore_details :: "(string \<rightharpoonup> nat) option \<Rightarrow> panel list \<Rightarrow> panel list" where
  "restore_details saved els = (case saved of None \<Rightarrow> els | Some m \<Rightarrow>
     map (\<lambda>(i, opened). case (if i = '''' then None else m i) of
            None \<Rightarrow> (i, opened) | Some n \<Rightarrow> (i, n = 1)) els)"

record signature_poll =
  sig :: string
  store :: "(string \<rightharpoonup> nat) option"
  reloaded :: bool

text \<open>
  The answer of \<open>/api/dash-signature\<close>; \<open>busy\<close>: the focus is in a form field, \<open>selecting\<close>: text is
  selected, \<open>storage_ok\<close>: the tab can store.
\<close>

definition on_signature :: "bool \<Rightarrow> bool \<Rightarrow> bool \<Rightarrow> panel list \<Rightarrow> string option \<Rightarrow> signature_poll \<Rightarrow> signature_poll" where
  "on_signature busy selecting storage_ok els answer s =
     (case answer of None \<Rightarrow> s | Some d \<Rightarrow>
        if d = sig s then s
        else if \<not> busy \<and> \<not> selecting
             then s\<lparr>store := (if storage_ok then Some (save_details els) else store s), reloaded := True\<rparr>
             else s)"

definition signature_interval :: "bool \<Rightarrow> nat" where
  "signature_interval pending = (if pending then 2000 else 10000)"

subsection \<open>Scan now\<close>

record scan_button =
  cell :: string
  disabled :: bool
  posts :: "(string \<times> string) list"

definition scan_click :: "string \<Rightarrow> string \<Rightarrow> scan_button \<Rightarrow> scan_button" where
  "scan_click band csrf b =
     (if band = '''' \<or> csrf = '''' then b
      else b\<lparr>disabled := True, cell := ''scanning'' @ ellipsis,
             posts := posts b @ [(''/api/daemon/'' @ band @ ''/scan'', csrf)]\<rparr>)"

text \<open>\<open>None\<close>: the request failed or was refused; otherwise the channel section of the answer.\<close>

definition scan_settled :: "(string \<rightharpoonup> string) option \<Rightarrow> scan_button \<Rightarrow> scan_button" where
  "scan_settled ch b =
     b\<lparr>cell := or_mark (case ch of None \<Rightarrow> '''' | Some m \<Rightarrow> field m ''CADSTATE''), disabled := False\<rparr>"

subsection \<open>The webserver box\<close>

definition wsbox_open :: "string option \<Rightarrow> bool \<Rightarrow> bool" where
  "wsbox_open stored opened = (if stored = Some ''1'' \<and> \<not> opened then True else opened)"

definition wsbox_toggled :: "bool \<Rightarrow> string option \<Rightarrow> bool \<Rightarrow> string option" where
  "wsbox_toggled storage_ok stored opened =
     (if storage_ok then Some (if opened then ''1'' else ''0'') else stored)"

end
