(* ===== verification/Dash_Props.thy ===== *)
theory Dash_Props
  imports Dash
begin

text \<open>
  The dashboard never shows a carrier verdict that was not measured, its columns keep the polling
  contract, and open panels survive a reload.
\<close>

subsection \<open>No verdict without a scan\<close>

lemma set_text_other [simp]: "i \<noteq> j \<Longrightarrow> texts (set_text i v c) j = texts c j"
  by (auto simp: set_text_def split: option.splits)

lemma set_nonempty_other [simp]: "i \<noteq> j \<Longrightarrow> texts (set_nonempty i v c) j = texts c j"
  by (simp add: set_nonempty_def)

lemma set_text_same [simp]: "texts (set_text i (Some v) c) i = Some v"
  by (simp add: set_text_def)

lemma cad_after_answer: "texts (apply_answer band answer c) (''rd-cad-'' @ band) =
    (case answer of None \<Rightarrow> texts c (''rd-cad-'' @ band) | Some d \<Rightarrow>
       if reachable d then (case channel d of None \<Rightarrow> texts c (''rd-cad-'' @ band) | Some m \<Rightarrow> Some (cad_text m))
       else texts c (''rd-cad-'' @ band))"
  by (auto simp: apply_answer_def show_feed_def show_stats_def show_status_def show_channel_def Let_def
      split: option.splits)

text \<open>
  C25. A poll shows a carrier-detect state only when the daemon says it scanned (\<open>CADSCAN=1\<close>) or a
  packet is pending; after any other answer with channel data the cell holds a dash, and an answer
  without channel data leaves it alone.
\<close>

theorem no_unmeasured_verdict:
  assumes "texts (apply_answer band (Some d) c) (''rd-cad-'' @ band) = Some v"
    and "texts c (''rd-cad-'' @ band) \<noteq> Some v" and "v \<noteq> em_dash"
  shows "\<exists>m. channel d = Some m \<and> reachable d
    \<and> (m ''CADSCAN'' = Some ''1'' \<and> (m ''CADSTATE'' = Some v \<or> v = ''?'')
       \<or> m ''CADSTATE'' = Some ''PENDING'' \<and> v = ''PENDING'')"
  using assms unfolding cad_after_answer
  by (auto simp: cad_text_def or_mark_def field_def Let_def split: option.splits if_splits)

theorem no_unmeasured_verdict_witness:
  "\<exists>m. channel \<lparr>reachable = True, channel = Some [''CADSTATE'' \<mapsto> ''PENDING''], status = None, stats = None,
      feed = []\<rparr> = Some m \<and> m ''CADSTATE'' = Some ''PENDING''"
  using no_unmeasured_verdict [of "''868''" "\<lparr>reachable = True, channel = Some [''CADSTATE'' \<mapsto> ''PENDING''],
      status = None, stats = None, feed = []\<rparr>" "\<lparr>texts = Map.empty, meter = '''', badge_class = ''''\<rparr>" "''PENDING''"]
  by (simp add: cad_after_answer cad_text_def or_mark_def field_def em_dash_def)

subsection \<open>Polling\<close>

definition dash_inv :: "poller_state \<Rightarrow> bool" where
  "dash_inv s \<longleftrightarrow> outstanding s = (if polling s then 1 else 0)
     \<and> (polling s \<or> hidden s \<longrightarrow> timer s = None) \<and> (hidden s \<or> timer s \<noteq> None \<or> polling s)"

definition dash_loaded :: "poller_state \<Rightarrow> bool" where
  "dash_loaded s \<longleftrightarrow> (\<exists>c hide. s = load_dash c hide)"

lemma dash_inv_step: "dash_step band s t \<Longrightarrow> dash_inv s \<Longrightarrow> dash_inv t"
proof (induction rule: dash_step.induct)
  case (polled s r)
  then show ?case
    by (cases r) (auto simp: dash_inv_def poll_defs Let_def split: if_splits)
qed (auto simp: dash_inv_def poll_defs Let_def)

interpretation dash: driven_poller dash_loaded "dash_step band" dash_inv outstanding
  "\<lambda>s. timer s \<noteq> None" "\<lambda>s. \<not> hidden s" tick_dash "polled_dash band (Inl ())" requests for band
proof unfold_locales
  show "dash_inv s" if "dash_loaded s" for s
  proof -
    from \<open>dash_loaded s\<close> obtain c hide where "s = load_dash c hide" by (auto simp: dash_loaded_def)
    then show ?thesis
      by (cases hide) (simp_all add: load_dash_def dash_inv_def tick_dash_def clearTimer_dash_def)
  qed
  show "dash_inv t" if "dash_step band s t" "dash_inv s" for s t using that by (rule dash_inv_step)
  show "dash_step band s (tick_dash s)" if "timer s \<noteq> None" for s
    using that by (rule dash_step.timer_fires)
  show "dash_step band s (polled_dash band (Inl ()) s)" if "0 < outstanding s" for s
    using that by (rule dash_step.polled)
qed (auto simp: dash_inv_def poll_defs Let_def split: if_splits)

text \<open>
  A column has at most one request in flight, no timer and no new request while the page is
  hidden, and on a visible page it polls for ever, whatever the answers are.
\<close>

theorem dash_polling_contract:
  assumes "s = load_dash c hide" and "(dash_step band)\<^sup>*\<^sup>* s t"
  shows "outstanding t \<le> 1 \<and> (hidden t \<longrightarrow> timer t = None \<and> requests (tick_dash t) = requests t)
    \<and> (\<not> hidden t \<longrightarrow> (\<exists>u. (dash_step band)\<^sup>*\<^sup>* t u \<and> requests t < requests u))"
proof -
  have "dash_loaded s" using assms(1) by (auto simp: dash_loaded_def)
  note c = dash.polling_contract [OF this assms(2)] dash.polls_again [OF this assms(2)]
  then show ?thesis by (auto simp: tick_dash_def clearTimer_dash_def Let_def)
qed

theorem dash_polling_contract_witness:
  "\<exists>u. (dash_step ''868'')\<^sup>*\<^sup>* (load_dash \<lparr>texts = Map.empty, meter = '''', badge_class = ''''\<rparr> False) u
     \<and> requests u > 1"
  using dash_polling_contract [OF refl rtranclp.rtrancl_refl,
      of "\<lparr>texts = Map.empty, meter = '''', badge_class = ''''\<rparr>" False "''868''"]
  by (simp add: load_dash_def tick_dash_def clearTimer_dash_def)

subsection \<open>Panels across a reload\<close>

lemma save_details_lookup: "distinct (filter (\<lambda>i. i \<noteq> '''') (map fst els)) \<Longrightarrow> (i, b) \<in> set els \<Longrightarrow>
    i \<noteq> '''' \<Longrightarrow> save_details els i = Some (if b then 1 else 0)"
  unfolding save_details_def
  by (induction els rule: rev_induct) (auto simp: filter_empty_conv image_iff, force+)

text \<open>
  A reload brings the panels back: whatever panels the new page renders and however it opens them,
  each one that has an id of the old page is open exactly when it was before, and all others stay as
  rendered. The page reloads only on a changed signature and never while the user types or selects.
\<close>

theorem panels_survive_reload:
  assumes "distinct (filter (\<lambda>i. i \<noteq> '''') (map fst old))"
    and "s' = on_signature busy selecting True old answer s" and "\<not> reloaded s" and "reloaded s'"
  shows "list_all2 (\<lambda>(i, b) (j, b'). j = i \<and>
      (if i \<noteq> '''' \<and> i \<in> fst ` set old then (i, b') \<in> set old else b' = b))
    new (restore_details (store s') new) \<and> answer \<noteq> None \<and> answer \<noteq> Some (sig s) \<and> \<not> busy \<and> \<not> selecting"
proof -
  from assms(2-4) have s': "store s' = Some (save_details old)" "answer \<noteq> None" "answer \<noteq> Some (sig s)"
    "\<not> busy" "\<not> selecting"
    by (auto simp: on_signature_def split: option.splits if_splits)
  have none: "save_details old i = None" if "i = '''' \<or> i \<notin> fst ` set old" for i
    using that unfolding save_details_def by (induction old rule: rev_induct) (auto split: prod.splits)
  have some: "(i, save_details old i = Some 1) \<in> set old" "save_details old i \<noteq> None"
    if "i \<noteq> ''''" "i \<in> fst ` set old" for i
  proof -
    from that(2) obtain b where b: "(i, b) \<in> set old" by auto
    note l = save_details_lookup [OF assms(1) b that(1)]
    then show "(i, save_details old i = Some 1) \<in> set old" "save_details old i \<noteq> None"
      using b by (cases b; simp)+
  qed
  have one: "fst r = i \<and> (if i \<noteq> '''' \<and> i \<in> fst ` set old then (i, snd r) \<in> set old else snd r = b)"
    if "r = (case (if i = '''' then None else save_details old i) of None \<Rightarrow> (i, b) | Some n \<Rightarrow> (i, n = 1))"
    for i b r
  proof (cases "i \<noteq> '''' \<and> i \<in> fst ` set old")
    case True
    with some [of i] that show ?thesis by auto
  next
    case False
    with none [of i] have "r = (i, b)" by (auto simp: that)
    with False show ?thesis by auto
  qed
  show ?thesis
    using s'(2-5) one unfolding s'(1) restore_details_def
    by (simp add: list_all2_map2 list_all2_same split_beta)
qed

theorem panels_survive_reload_witness:
  "list_all2 (\<lambda>(i, b) (j, b'). j = i \<and>
      (if i \<noteq> '''' \<and> i \<in> fst ` set [(''a'', True), ('''', False)] then (i, b') \<in> set [(''a'', True), ('''', False)]
       else b' = b)) [(''b'', False), (''a'', False)]
    (restore_details (Some (save_details [(''a'', True), ('''', False)])) [(''b'', False), (''a'', False)])"
  using panels_survive_reload [of "[(''a'', True), ('''', False)]" _ False False "Some ''x''"
      "\<lparr>sig = ''y'', store = None, reloaded = False\<rparr>" "[(''b'', False), (''a'', False)]", OF _ refl]
  by (simp add: on_signature_def)

end
