(* ===== verification/JsDate.thy ===== *)
theory JsDate
  imports JsNum
begin

text \<open>
  The part of the JavaScript \<open>Date\<close> the console uses: the UTC fields of an instant, and \<open>Date.parse\<close>
  on \<open>YYYY-MM-DDTHH:MM:SSZ\<close>. Instants are integers, milliseconds since 1970. The proleptic calendar
  is computed by taking whole years and months off a day count.
\<close>

subsection \<open>The calendar\<close>

definition leap :: "int \<Rightarrow> bool" where
  "leap y \<longleftrightarrow> 4 dvd y \<and> (\<not> 100 dvd y \<or> 400 dvd y)"

definition ylen :: "int \<Rightarrow> nat" where
  "ylen y = (if leap y then 366 else 365)"

definition mlens :: "int \<Rightarrow> nat list" where
  "mlens y = [31, if leap y then 29 else 28, 31, 30, 31, 30, 31, 31, 30, 31, 30, 31]"

function year_split :: "int \<Rightarrow> nat \<Rightarrow> int \<times> nat" where
  "year_split y d = (if d < ylen y then (y, d) else year_split (y + 1) (d - ylen y))"
  by pat_completeness auto
termination by (relation "measure snd") (auto simp: ylen_def)

declare year_split.simps [simp del]

fun month_split :: "nat list \<Rightarrow> nat \<Rightarrow> nat \<times> nat" where
  "month_split [] d = (0, d)"
| "month_split (l # ls) d =
     (if d < l then (0, d) else let (m, r) = month_split ls (d - l) in (Suc m, r))"

definition civil :: "int \<Rightarrow> int \<times> nat \<times> nat" where
  "civil z =
     (let (y, d) = year_split (1970 + 400 * (z div 146097)) (nat (z mod 146097));
          (m, r) = month_split (mlens y) d
      in (y, m + 1, r + 1))"

definition leaps :: "int \<Rightarrow> int" where
  "leaps y = (y - 1) div 4 - (y - 1) div 100 + (y - 1) div 400"

definition days_before_year :: "int \<Rightarrow> int" where
  "days_before_year y = 365 * (y - 1970) + leaps y - 477"

definition days_of_civil :: "int \<Rightarrow> nat \<Rightarrow> nat \<Rightarrow> int" where
  "days_of_civil y m d = days_before_year y + int (sum_list (take (m - 1) (mlens y))) + int d - 1"

lemma div_step:
  assumes "0 < (n :: int)"
  shows "y div n = (y - 1) div n + (if n dvd y then 1 else 0)"
proof -
  define q r where "q = y div n" and "r = y mod n"
  have y: "y = n * q + r" and r: "0 \<le> r" "r < n" using assms by (simp_all add: q_def r_def)
  have dvd: "n dvd y \<longleftrightarrow> r = 0" by (simp add: r_def dvd_eq_mod_eq_0)
  show ?thesis
  proof (cases "r = 0")
    case True
    have "(y - 1) div n = ((q - 1) * n + (n - 1)) div n" by (simp add: y True algebra_simps)
    also have "\<dots> = q - 1" using assms by (subst div_mult_self3) simp_all
    finally show ?thesis using True dvd by (simp add: q_def)
  next
    case False
    have "(y - 1) div n = (q * n + (r - 1)) div n" by (simp add: y algebra_simps)
    also have "\<dots> = q" using assms r False by (subst div_mult_self3) simp_all
    finally show ?thesis using False dvd by (simp add: q_def)
  qed
qed

lemma leap_count: "a = a' + (if P then 1 else 0) \<Longrightarrow> b = b' + (if Q then 1 else 0) \<Longrightarrow>
    c = c' + (if R then 1 else 0) \<Longrightarrow> (Q \<Longrightarrow> P) \<Longrightarrow> (R \<Longrightarrow> Q) \<Longrightarrow>
    a - b + c = a' - b' + c' + (if P \<and> (\<not> Q \<or> R) then 1 else (0 :: int))"
  by (cases P; cases Q; cases R; simp)

lemma div_exact: "0 \<le> r \<Longrightarrow> r < n \<Longrightarrow> (r + q * n) div n = (q :: int)"
  by simp

lemma days_before_Suc: "days_before_year (y + 1) = days_before_year y + int (ylen y)"
proof -
  have d: "100 dvd y \<Longrightarrow> 4 dvd y" "400 dvd y \<Longrightarrow> 100 dvd y"
    using dvd_trans [of 4 100 y] dvd_trans [of 100 400 y] by simp_all
  have "leaps (y + 1) = leaps y + (if leap y then 1 else 0)"
    unfolding leaps_def leap_def add_diff_cancel_right'
    by (rule leap_count) (use d div_step [of _ y] in \<open>simp_all only: zero_less_numeral simp_thms\<close>)
  then show ?thesis by (simp add: days_before_year_def ylen_def)
qed

lemma days_before_era: "days_before_year (1970 + 400 * k) = 146097 * k"
proof -
  have "(1969 + 400 * k) div 4 = 492 + 100 * k" "(1969 + 400 * k) div 100 = 19 + 4 * k"
    "(1969 + 400 * k) div 400 = 4 + k"
    using div_exact [of 1 4 "492 + 100 * k"] div_exact [of 69 100 "19 + 4 * k"] div_exact [of 369 400 "4 + k"]
    by (simp_all add: algebra_simps)
  then show ?thesis by (simp add: days_before_year_def leaps_def)
qed

lemma year_split_days: "year_split y d = (y', r) \<Longrightarrow>
    days_before_year y' + int r = days_before_year y + int d \<and> r < ylen y' \<and> y \<le> y'"
proof (induction y d rule: year_split.induct)
  case (1 y d)
  show ?case
  proof (cases "d < ylen y")
    case False
    with 1 days_before_Suc [of y] show ?thesis by (simp add: year_split.simps [of y d])
  qed (use "1.prems" in \<open>simp add: year_split.simps [of y d]\<close>)
qed

lemma month_split_days: "month_split ls d = (m, r) \<Longrightarrow> d < sum_list ls \<Longrightarrow>
    m < length ls \<and> r < ls ! m \<and> sum_list (take m ls) + r = d"
proof (induction ls arbitrary: d m r)
  case (Cons l ls)
  show ?case
  proof (cases "d < l")
    case False
    obtain m' r' where s: "month_split ls (d - l) = (m', r')" by fastforce
    from Cons.prems False s have mr: "m = Suc m'" "r = r'" by auto
    from Cons.prems(2) False have "d - l < sum_list ls" by simp
    from Cons.IH [OF s this] False show ?thesis by (simp add: mr) linarith
  qed (use Cons.prems in auto)
qed simp

lemma sum_mlens: "sum_list (mlens y) = ylen y"
  by (simp add: mlens_def ylen_def)

lemma civil_days:
  assumes "civil z = (y, m, d)"
  shows "days_of_civil y m d = z \<and> 1 \<le> m \<and> m \<le> 12 \<and> 1 \<le> d \<and> d \<le> mlens y ! (m - 1)"
proof -
  obtain y' r where ys: "year_split (1970 + 400 * (z div 146097)) (nat (z mod 146097)) = (y', r)" by fastforce
  obtain m' r' where ms: "month_split (mlens y') r = (m', r')" by fastforce
  have eq: "y = y'" "m = m' + 1" "d = r' + 1" using assms by (simp_all add: civil_def ys ms)
  note Y = year_split_days [OF ys]
  note M = month_split_days [OF ms, unfolded sum_mlens]
  have "146097 * (z div 146097) + z mod 146097 = z" by simp
  with Y M show ?thesis
    by (auto simp: eq days_of_civil_def days_before_era mlens_def)
qed

subsection \<open>Printing and parsing an instant\<close>

definition two :: "nat \<Rightarrow> string" where
  "two n = (if n < 10 then ''0'' else '''') @ show_nat n"

definition hms :: "nat \<Rightarrow> string" where
  "hms t = two (t div 3600) @ '':'' @ two (t div 60 mod 60) @ '':'' @ two (t mod 60)"

text \<open>The stamp of the console: the UTC fields of an instant.\<close>

definition stamp :: "int \<Rightarrow> string" where
  "stamp ms =
     (let secs = ms div 1000; (y, m, d) = civil (secs div 86400)
      in show_int y @ ''-'' @ two m @ ''-'' @ two d @ '' '' @ hms (nat (secs mod 86400)))"

definition is_digit :: "char \<Rightarrow> bool" where
  "is_digit c \<longleftrightarrow> c \<in> set ''0123456789''"

definition all_digits :: "string \<Rightarrow> bool" where
  "all_digits s = list_all is_digit s"

text \<open>
  \<open>Date.parse\<close> on \<open>YYYY-MM-DDTHH:MM:SSZ\<close>; a string of another shape or with a field out of range
  gives \<open>NaN\<close> (\<open>None\<close>).
\<close>

definition parse_iso :: "string \<Rightarrow> int option" where
  "parse_iso s =
     (let num = (\<lambda>i n. read_nat (take n (drop i s))) in
      if length s = 20 \<and> s ! 4 = CHR ''-'' \<and> s ! 7 = CHR ''-'' \<and> s ! 10 = CHR ''T'' \<and> s ! 13 = CHR '':''
         \<and> s ! 16 = CHR '':'' \<and> s ! 19 = CHR ''Z''
         \<and> all_digits (take 4 s @ take 2 (drop 5 s) @ take 2 (drop 8 s) @ take 2 (drop 11 s)
              @ take 2 (drop 14 s) @ take 2 (drop 17 s))
      then
        let y = int (num 0 4); m = num 5 2; d = num 8 2; h = num 11 2; mi = num 14 2; se = num 17 2 in
        if 1 \<le> m \<and> m \<le> 12 \<and> 1 \<le> d \<and> d \<le> mlens y ! (m - 1) \<and> mi < 60 \<and> se < 60
           \<and> (h < 24 \<or> h = 24 \<and> mi = 0 \<and> se = 0)
        then Some (1000 * (86400 * days_of_civil y m d + int (3600 * h + 60 * mi + se)))
        else None
      else None)"

text \<open>\<open>s.replace(" ", "T")\<close>: the first space only.\<close>

fun replace_space :: "string \<Rightarrow> string" where
  "replace_space [] = []"
| "replace_space (c # s) = (if c = CHR '' '' then CHR ''T'' # s else c # replace_space s)"

lemma show_nat_all_digits [simp]: "all_digits (show_nat n)"
  unfolding all_digits_def list_all_iff is_digit_def using show_nat_digits [of n] by blast

lemma all_digits_append [simp]: "all_digits (a @ b) \<longleftrightarrow> all_digits a \<and> all_digits b"
  by (simp add: all_digits_def)

lemma all_digits_no_space: "all_digits s \<Longrightarrow> CHR '' '' \<notin> set s"
proof -
  have "\<not> is_digit (CHR '' '')" by (simp add: is_digit_def)
  then show "all_digits s \<Longrightarrow> CHR '' '' \<notin> set s" unfolding all_digits_def list_all_iff by blast
qed

lemma replace_space_append: "CHR '' '' \<notin> set a \<Longrightarrow> replace_space (a @ b) = a @ replace_space b"
  by (induction a) auto

lemma show_nat_2: "10 \<le> n \<Longrightarrow> n < 100 \<Longrightarrow> show_nat n = [digit_char (n div 10), digit_char (n mod 10)]"
proof -
  assume n: "10 \<le> n" "n < 100"
  then have "n div 10 < 10" "\<not> n < 10" by linarith+
  then show ?thesis by (simp add: show_nat.simps [of n] show_nat.simps [of "n div 10"])
qed

lemma two_facts:
  assumes "n < 100"
  shows "length (two n) = 2 \<and> read_nat (two n) = n \<and> all_digits (two n)"
proof (cases "n < 10")
  case True
  then have s: "show_nat n = [digit_char n]" by (simp add: show_nat.simps [of n])
  have "is_digit (CHR ''0'')" "is_digit (digit_char n)"
    using show_nat_all_digits [of n] by (simp_all add: is_digit_def [of "CHR ''0''"] all_digits_def s)
  moreover have "read_nat (''0'' @ [digit_char n]) = n"
    using True by (simp add: read_nat_def digit_val_char) (simp add: digit_val_def)
  ultimately show ?thesis
    using True by (simp add: two_def s all_digits_def)
next
  case False
  then show ?thesis
    using assms read_show_nat [of n] show_nat_all_digits [of n] by (simp add: two_def show_nat_2)
qed

lemma show_nat_4:
  assumes "1000 \<le> n" and "n < 10000"
  shows "length (show_nat n) = 4"
proof -
  have b: "\<not> n < 10" "\<not> n div 10 < 10" "\<not> n div 10 div 10 < 10" "n div 10 div 10 div 10 < 10"
    using assms by linarith+
  then have "show_nat n = show_nat (n div 10 div 10 div 10) @ [digit_char (n div 10 div 10 mod 10),
      digit_char (n div 10 mod 10), digit_char (n mod 10)]"
    by (simp only: show_nat.simps [of n] show_nat.simps [of "n div 10"]
        show_nat.simps [of "n div 10 div 10"] if_False append_assoc append_Cons append_Nil)
  moreover have "length (show_nat (n div 10 div 10 div 10)) = 1"
    using b(4) by (simp only: show_nat.simps [of "n div 10 div 10 div 10"]) simp
  ultimately show ?thesis by simp
qed

lemma parse_fields:
  assumes "length Y = 4" "length M = 2" "length D = 2" "length H = 2" "length N = 2" "length S = 2"
    and "all_digits (Y @ M @ D @ H @ N @ S)"
    and "1 \<le> read_nat M" "read_nat M \<le> 12" "1 \<le> read_nat D"
    and "read_nat D \<le> mlens (int (read_nat Y)) ! (read_nat M - 1)"
    and "read_nat H < 24" "read_nat N < 60" "read_nat S < 60"
  shows "parse_iso (Y @ ''-'' @ M @ ''-'' @ D @ ''T'' @ H @ '':'' @ N @ '':'' @ S @ ''Z'') =
    Some (1000 * (86400 * days_of_civil (int (read_nat Y)) (read_nat M) (read_nat D)
      + int (3600 * read_nat H + 60 * read_nat N + read_nat S)))"
proof -
  obtain a b c d where Y: "Y = [a, b, c, d]" using assms(1) by (auto simp: length_Suc_conv numeral_eq_Suc)
  obtain e f where M: "M = [e, f]" using assms(2) by (auto simp: length_Suc_conv numeral_2_eq_2)
  obtain g h where D: "D = [g, h]" using assms(3) by (auto simp: length_Suc_conv numeral_2_eq_2)
  obtain i j where H: "H = [i, j]" using assms(4) by (auto simp: length_Suc_conv numeral_2_eq_2)
  obtain k l where N: "N = [k, l]" using assms(5) by (auto simp: length_Suc_conv numeral_2_eq_2)
  obtain m n where S: "S = [m, n]" using assms(6) by (auto simp: length_Suc_conv numeral_2_eq_2)
  show ?thesis
    using assms(7-) unfolding parse_iso_def Y M D H N S by (simp add: Let_def numeral_eq_Suc)
qed

lemma hms_parts:
  fixes t :: nat
  assumes "t < 86400"
  shows "t div 3600 < 24" "t div 60 mod 60 < 60" "t mod 60 < 60"
    "3600 * (t div 3600) + 60 * (t div 60 mod 60) + t mod 60 = t"
proof -
  have "t = 60 * (t div 60) + t mod 60" "t div 60 = 60 * (t div 60 div 60) + t div 60 mod 60" by simp_all
  moreover have "t div 60 div 60 = t div 3600" by (simp add: div_mult2_eq [symmetric])
  ultimately show "3600 * (t div 3600) + 60 * (t div 60 mod 60) + t mod 60 = t" by linarith
  show "t div 3600 < 24" using assms by (simp add: div_less_iff_less_mult)
qed simp_all

lemma parse_stamp:
  assumes "civil (ms div 1000 div 86400) = (y, m, d)" and "1000 \<le> y" and "y < 10000"
  shows "parse_iso (replace_space (stamp ms) @ ''Z'') = Some (1000 * (ms div 1000))"
proof -
  define t where "t = nat (ms div 1000 mod 86400)"
  have t: "t < 86400" "int t = ms div 1000 mod 86400" by (simp_all add: t_def)
  note h = hms_parts [OF t(1)]
  note c = civil_days [OF assms(1)]
  have "mlens y ! (m - 1) \<le> 31"
  proof -
    from c have "m - 1 < length (mlens y)" by (auto simp: mlens_def)
    then have "mlens y ! (m - 1) \<in> set (mlens y)" by (rule nth_mem)
    moreover have "\<forall>l \<in> set (mlens y). l \<le> 31" by (simp add: mlens_def)
    ultimately show ?thesis by blast
  qed
  with c have "m < 100" "d < 100" by auto
  note f = two_facts [OF \<open>m < 100\<close>] two_facts [OF \<open>d < 100\<close>] two_facts [of "t div 3600"]
    two_facts [of "t div 60 mod 60"] two_facts [of "t mod 60"]
  have Y: "length (show_nat (nat y)) = 4" "int (read_nat (show_nat (nat y))) = y"
    using assms(2,3) show_nat_4 [of "nat y"] by (simp_all add: read_show_nat)
  have st: "stamp ms = (show_nat (nat y) @ ''-'' @ two m @ ''-'' @ two d) @ '' '' @ hms t"
    using assms(1,2) by (simp add: stamp_def t_def show_int_def)
  have space: "CHR '' '' \<notin> set (show_nat (nat y) @ ''-'' @ two m @ ''-'' @ two d)"
    using f all_digits_no_space by auto
  have s: "replace_space (stamp ms) @ ''Z'' =
      show_nat (nat y) @ ''-'' @ two m @ ''-'' @ two d @ ''T'' @ two (t div 3600) @ '':''
        @ two (t div 60 mod 60) @ '':'' @ two (t mod 60) @ ''Z''"
    unfolding st replace_space_append [OF space] by (simp add: hms_def)
  have r: "read_nat (two m) = m" "read_nat (two d) = d" "read_nat (two (t div 3600)) = t div 3600"
    "read_nat (two (t div 60 mod 60)) = t div 60 mod 60" "read_nat (two (t mod 60)) = t mod 60"
    using f h(1-3) by simp_all
  have l: "length (two m) = 2" "length (two d) = 2" "length (two (t div 3600)) = 2"
    "length (two (t div 60 mod 60)) = 2" "length (two (t mod 60)) = 2"
    "all_digits (show_nat (nat y) @ two m @ two d @ two (t div 3600) @ two (t div 60 mod 60) @ two (t mod 60))"
    using f h(1-3) by simp_all
  have day: "86400 * (ms div 1000 div 86400) + int t = ms div 1000" by (simp add: t(2))
  have "parse_iso (replace_space (stamp ms) @ ''Z'') =
      Some (1000 * (86400 * days_of_civil y m d
        + int (3600 * (t div 3600) + 60 * (t div 60 mod 60) + t mod 60)))"
    unfolding s using parse_fields [OF Y(1) l] unfolding r Y(2) using c h(1-3) by blast
  then show ?thesis using c unfolding h(4) by (simp only: day)
qed

end
