(* ===== verification/System_View.thy ===== *)
theory System_View
  imports JsDate
begin

text \<open>
  The System box (\<open>static/system.js\<close>), first part: formatting, the clock, the graphs, and what one
  sample of \<open>/api/system\<close> writes into the box. A number of a sample that is absent is \<open>NaN\<close>, as it is
  in every computation that uses it; an absent string is \<open>''''\<close>. Elements are named by the ids the
  script looks up and taken to exist; a table row is named by the id of its bar.
\<close>

subsection \<open>Formatting\<close>

definition num :: "number \<Rightarrow> bool" where
  "num v \<longleftrightarrow> (case v of Fin _ \<Rightarrow> True | _ \<Rightarrow> False)"

text \<open>\<open>while (b >= 1000 && i < units.length - 1) { b /= 1000; i++; }\<close> with \<open>k\<close> units left.\<close>

fun scale_bytes :: "nat \<Rightarrow> number \<Rightarrow> nat \<Rightarrow> number \<times> nat" where
  "scale_bytes 0 b i = (b, i)"
| "scale_bytes (Suc k) b i =
     (if n_le (Fin 1000) b then scale_bytes k (n_div b (Fin 1000)) (Suc i) else (b, i))"

definition units :: "string list" where
  "units = [''B'', ''kB'', ''MB'', ''GB'', ''TB'']"

definition fmtBytes :: "number \<Rightarrow> string" where
  "fmtBytes b =
     (if \<not> num b then ''?''
      else let (b, i) = scale_bytes 4 b 0;
               v = (if i = 0 then n_string (n_round b)
                    else if n_le (Fin 100) b then n_toFixed 0 b else n_toFixed 1 b)
           in v @ '' '' @ units ! i)"

definition fmtRate :: "number \<Rightarrow> string" where
  "fmtRate b = fmtBytes b @ ''/s''"

text \<open>\<open>%\<close> on doubles is exact; here on a finite dividend and a positive divisor, the sign of the dividend.\<close>

definition n_rem :: "number \<Rightarrow> rat \<Rightarrow> number" where
  "n_rem x m = n_map (\<lambda>q. if 0 \<le> q then q - m * of_int \<lfloor>q / m\<rfloor> else - (- q - m * of_int \<lfloor>- q / m\<rfloor>)) x"

definition fmtUptime :: "number \<Rightarrow> string" where
  "fmtUptime s =
     (if \<not> num s then ''?''
      else let d = n_floor (n_div s (Fin 86400));
               h = n_floor (n_div (n_rem s 86400) (Fin 3600));
               m = n_floor (n_div (n_rem s 3600) (Fin 60))
           in (if d = Fin 0 then '''' else n_string d @ ''d '') @ n_string h @ ''h '' @ n_string m @ ''m'')"

subsection \<open>The box\<close>

record system_box =
  texts :: "string \<Rightarrow> string"
  bars :: "string \<Rightarrow> number"
  levels :: "string \<Rightarrow> string"
  row_hidden :: "string \<Rightarrow> bool"
  pills :: "string \<Rightarrow> string \<times> string"
  sparks :: "string \<Rightarrow> string"
  core_bars :: "(number \<times> string) list"
  net_lines :: "(string \<times> string) option"
  time_title :: string
  info :: "string list"

definition set_val :: "string \<Rightarrow> string \<Rightarrow> system_box \<Rightarrow> system_box" where
  "set_val i t b = b\<lparr>texts := (texts b)(i := t)\<rparr>"

definition setBar :: "string \<Rightarrow> number \<Rightarrow> system_box \<Rightarrow> system_box" where
  "setBar i pct b =
     (if num pct then b\<lparr>bars := (bars b)(i := n_max (Fin 0) (n_min (Fin 100) pct))\<rparr> else b)"

definition setLevel :: "string \<Rightarrow> string \<Rightarrow> system_box \<Rightarrow> system_box" where
  "setLevel row level b = b\<lparr>levels := (levels b)(row := level)\<rparr>"

definition hideOptionalRows :: "system_box \<Rightarrow> system_box" where
  "hideOptionalRows b =
     b\<lparr>row_hidden := (row_hidden b)(''sys-swap-row'' := True, ''sys-disk2-row'' := True,
         ''sys-power-row'' := True, ''sys-time-row'' := True)\<rparr>"

definition show_row :: "string \<Rightarrow> system_box \<Rightarrow> system_box" where
  "show_row i b = b\<lparr>row_hidden := (row_hidden b)(i := False)\<rparr>"

text \<open>Warning levels by percentage, and the server's level of a disk.\<close>

definition warn_level :: "rat \<Rightarrow> rat \<Rightarrow> number \<Rightarrow> string" where
  "warn_level warn crit v =
     (if n_le (Fin crit) v then ''sys-crit'' else if n_le (Fin warn) v then ''sys-warn'' else '''')"

definition levelClass :: "string \<Rightarrow> string" where
  "levelClass level =
     (if level = ''critical'' then ''sys-crit'' else if level = ''low'' then ''sys-warn'' else '''')"

subsection \<open>Graphs\<close>

definition HIST :: nat where "HIST = 60"

definition pushHist :: "number list \<Rightarrow> number \<Rightarrow> number list" where
  "pushHist = push_shift HIST"

text \<open>\<open>(hi - lo) || 1\<close>.\<close>

definition span_of :: "number \<Rightarrow> number \<Rightarrow> number" where
  "span_of lo hi = (let w = n_sub hi lo in if w = Fin 0 \<or> w = NaN then Fin 1 else w)"

definition spark_step :: number where
  "spark_step = n_div (Fin 60) (Fin (of_nat (HIST - 1)))"

definition spark_y :: "number \<Rightarrow> number \<Rightarrow> number \<Rightarrow> number" where
  "spark_y lo hi v =
     n_max (Fin 0) (n_min (Fin 20)
       (n_sub (Fin 20) (n_mul (Fin 20) (n_div (n_sub v lo) (span_of lo hi)))))"

definition spark_points :: "number list \<Rightarrow> number \<Rightarrow> number \<Rightarrow> string list" where
  "spark_points arr lo hi =
     map (\<lambda>i. n_toFixed 1 (n_mul (Fin (of_nat (length arr - 1 - i))) spark_step) @ '','' @
              n_toFixed 1 (spark_y lo hi (arr ! i))) [0 ..< length arr]"

definition drawSpark :: "string \<Rightarrow> number list \<Rightarrow> number \<Rightarrow> number \<Rightarrow> system_box \<Rightarrow> system_box" where
  "drawSpark i arr lo hi b = b\<lparr>sparks := (sparks b)(i := join '' '' (spark_points arr lo hi))\<rparr>"

definition rolling_peak :: "number list \<Rightarrow> number list \<Rightarrow> number" where
  "rolling_peak rx tx =
     foldl (\<lambda>peak v. if n_lt peak v then v else peak) (Fin 1000) (rx @ tx)"

subsection \<open>The cores\<close>

definition n_at :: "number list \<Rightarrow> nat \<Rightarrow> number" where
  "n_at xs i = (case js_at xs i of Some v \<Rightarrow> v | None \<Rightarrow> NaN)"

definition n_sum :: "number list \<Rightarrow> number" where
  "n_sum = foldl n_add (Fin 0)"

definition coreLoads :: "number list list \<Rightarrow> (number \<times> number) list" where
  "coreLoads percore = map (\<lambda>row. (n_sum row, n_add (n_at row 3) (n_at row 4))) percore"

definition busy_percent :: "number \<Rightarrow> number \<Rightarrow> number" where
  "busy_percent dIdle dSum = n_mul (Fin 100) (n_sub (Fin 1) (n_div dIdle dSum))"

definition core_bar :: "number \<times> number \<Rightarrow> number \<times> number \<Rightarrow> number \<times> string \<Rightarrow> number \<times> string" where
  "core_bar c p bar =
     (let ds = n_sub (fst c) (fst p); di = n_sub (snd c) (snd p) in
      if n_lt (Fin 0) ds \<and> n_le (Fin 0) di then
        let cp = n_max (Fin 0) (n_min (Fin 100) (busy_percent di ds))
        in (cp, warn_level 70 90 cp)
      else bar)"

definition drawCoreBars :: "(number \<times> number) list \<Rightarrow> (number \<times> number) list \<Rightarrow> system_box \<Rightarrow> system_box" where
  "drawCoreBars cores prevCores b =
     (if cores = [] then b
      else
        let bars0 = (if length (core_bars b) \<noteq> length cores then replicate (length cores) (NaN, '''')
                     else core_bars b);
            bars1 = (if length prevCores \<noteq> length cores then bars0
                     else map (\<lambda>(c, p, bar). core_bar c p bar) (zip cores (zip prevCores bars0)))
        in b\<lparr>core_bars := bars1\<rparr>)"

definition setNetVal :: "string \<Rightarrow> string \<Rightarrow> system_box \<Rightarrow> system_box" where
  "setNetVal rxText txText b = b\<lparr>net_lines := Some (rxText, txText)\<rparr>"

end
