(* ===== verification/System_Apply.thy ===== *)
theory System_Apply
  imports System_View
begin

text \<open>
  The System box, second part: \<open>apply(d)\<close>, section by section, with the graph histories, the baselines
  of the rates and the clock anchored at each sample.
\<close>

subsection \<open>A sample\<close>

record cpu_sample =
  cpu_total :: "number list"
  percore :: "number list list"
  cores :: number

record mem_sample =
  total_kb :: number
  available_kb :: number
  swap_total_kb :: number
  swap_free_kb :: number

record disk_row =
  total_b :: number
  free_b :: number
  level :: string
  reason :: string
  total_inodes :: number
  free_inodes :: number

record power_sample =
  psource :: string
  undervolt_alarm :: bool
  core_mv :: number

record time_sample =
  local_time :: string
  utc :: string
  tzname :: string
  epoch :: number
  tstate :: string
  tlabel :: string
  hint :: string
  hint_cmd :: string
  tsource :: string
  detail :: string
  synced_age_s :: number
  maxerror_us :: number
  rtc_present :: "bool option"

record info_sample =
  hostname :: string
  model :: string
  os :: string
  kernel :: string
  arch :: string

record sys_sample =
  ts :: number
  cpu :: "cpu_sample option"
  mem :: "mem_sample option"
  net :: "(number \<times> number) option"
  disk_root :: "disk_row option"
  disk_runtime :: "disk_row option"
  temp_mc :: number
  power :: "power_sample option"
  time :: "time_sample option"
  sinfo :: "info_sample option"
  uptime_s :: number
  wifi :: "string \<Rightarrow> number"

subsection \<open>State between samples\<close>

record hist =
  h_cpu :: "number list"
  h_rx :: "number list"
  h_tx :: "number list"
  h_temp :: "number list"
  h_mem :: "number list"
  h_disk :: "number list"
  h_disk2 :: "number list"
  h_swap :: "number list"

definition empty_hist :: hist where
  "empty_hist = \<lparr>h_cpu = [], h_rx = [], h_tx = [], h_temp = [], h_mem = [], h_disk = [], h_disk2 = [], h_swap = []\<rparr>"

text \<open>\<open>prev\<close>: the last processor sums with the cores, and the last byte counters with their time.\<close>

record baseline =
  p_cpu :: "(number \<times> number \<times> (number \<times> number) list) option"
  p_net :: "(number \<times> number \<times> number) option"

definition no_baseline :: baseline where
  "no_baseline = \<lparr>p_cpu = None, p_net = None\<rparr>"

record clock =
  skew :: "number option"
  offset_s :: int
  tz :: string

record sysbox =
  box :: system_box
  hist :: hist
  prev :: baseline
  clock :: clock

abbreviation on_box :: "(system_box \<Rightarrow> system_box) \<Rightarrow> sysbox \<Rightarrow> sysbox" where
  "on_box f s \<equiv> s\<lparr>box := f (box s)\<rparr>"

subsection \<open>Processor, memory, network\<close>

definition apply_cpu :: "sys_sample \<Rightarrow> sysbox \<Rightarrow> sysbox" where
  "apply_cpu d s = (case cpu d of None \<Rightarrow> s | Some c \<Rightarrow>
     (let sum = n_sum (cpu_total c); idle = n_add (n_at (cpu_total c) 3) (n_at (cpu_total c) 4);
          loads = coreLoads (percore c);
          s = (case p_cpu (prev s) of None \<Rightarrow> s | Some (psum, pidle, pcores) \<Rightarrow>
                 let dSum = n_sub sum psum; dIdle = n_sub idle pidle;
                     s = (if n_lt (Fin 0) dSum \<and> n_le (Fin 0) dIdle then
                            let pct = busy_percent dIdle dSum;
                                h = pushHist (h_cpu (hist s)) pct
                            in on_box (drawSpark ''sys-cpu-spark'' h (Fin 0) (Fin 100)
                                  \<circ> set_val ''sys-cpu-val'' (n_toFixed 0 pct @ '' %''))
                                 (s\<lparr>hist := (hist s)\<lparr>h_cpu := h\<rparr>\<rparr>)
                          else s)
                 in on_box (drawCoreBars loads pcores) s)
      in s\<lparr>prev := (prev s)\<lparr>p_cpu := Some (sum, idle, loads)\<rparr>\<rparr>))"

definition kb_text :: "number \<Rightarrow> number \<Rightarrow> string" where
  "kb_text usedKb totalKb =
     fmtBytes (n_mul usedKb (Fin 1024)) @ '' / '' @ fmtBytes (n_mul totalKb (Fin 1024))"

definition percent_of :: "number \<Rightarrow> number \<Rightarrow> number" where
  "percent_of part whole = n_div (n_mul (Fin 100) part) whole"

definition positive :: "number \<Rightarrow> bool" where
  "positive v \<longleftrightarrow> num v \<and> n_lt (Fin 0) v"

definition apply_swap :: "mem_sample \<Rightarrow> sysbox \<Rightarrow> sysbox" where
  "apply_swap m s =
     (if positive (swap_total_kb m) then
        let sUsedKb = n_sub (swap_total_kb m) (swap_free_kb m);
            spct = percent_of sUsedKb (swap_total_kb m);
            h = pushHist (h_swap (hist s)) spct
        in on_box (drawSpark ''sys-swap-spark'' h (Fin 0) (Fin 100)
              \<circ> setLevel ''sys-swap-row'' (warn_level 80 95 spct)
              \<circ> set_val ''sys-swap-val'' (kb_text sUsedKb (swap_total_kb m))
              \<circ> setBar ''sys-swap-bar'' spct \<circ> show_row ''sys-swap-row'')
             (s\<lparr>hist := (hist s)\<lparr>h_swap := h\<rparr>\<rparr>)
      else s)"

definition apply_mem :: "sys_sample \<Rightarrow> sysbox \<Rightarrow> sysbox" where
  "apply_mem d s = (case mem d of None \<Rightarrow> s | Some m \<Rightarrow>
     if positive (total_kb m) then
       let usedKb = n_sub (total_kb m) (available_kb m);
           mpct = percent_of usedKb (total_kb m);
           h = pushHist (h_mem (hist s)) mpct
       in apply_swap m
            (on_box (drawSpark ''sys-mem-spark'' h (Fin 0) (Fin 100)
               \<circ> setLevel ''sys-mem-bar'' (warn_level 80 92 mpct)
               \<circ> set_val ''sys-mem-val'' (kb_text usedKb (total_kb m))
               \<circ> setBar ''sys-mem-bar'' mpct)
              (s\<lparr>hist := (hist s)\<lparr>h_mem := h\<rparr>\<rparr>))
     else s)"

definition apply_net :: "sys_sample \<Rightarrow> sysbox \<Rightarrow> sysbox" where
  "apply_net d s = (case net d of None \<Rightarrow> s | Some (rx_bytes, tx_bytes) \<Rightarrow>
     if \<not> num rx_bytes then s
     else
       let s = (case p_net (prev s) of None \<Rightarrow> s | Some (prx, ptx, pts) \<Rightarrow>
             let dt = n_sub (ts d) pts; dRx = n_sub rx_bytes prx; dTx = n_sub tx_bytes ptx in
             if n_lt (Fin 0) dt \<and> n_le (Fin 0) dRx \<and> n_le (Fin 0) dTx then
               let rx = n_div dRx dt; tx = n_div dTx dt;
                   hrx = pushHist (h_rx (hist s)) rx; htx = pushHist (h_tx (hist s)) tx;
                   peak = rolling_peak hrx htx
               in on_box (drawSpark ''sys-nettx-spark'' htx (Fin 0) peak
                     \<circ> drawSpark ''sys-netrx-spark'' hrx (Fin 0) peak
                     \<circ> setNetVal (fmtRate rx) (fmtRate tx))
                    (s\<lparr>hist := (hist s)\<lparr>h_rx := hrx, h_tx := htx\<rparr>\<rparr>)
             else s)
       in s\<lparr>prev := (prev s)\<lparr>p_net := Some (rx_bytes, tx_bytes, ts d)\<rparr>\<rparr>)"

subsection \<open>Disks, temperature, power\<close>

definition middot :: string where "middot = [CHR 0xC2, CHR 0xB7]"

definition inodeText :: "disk_row \<Rightarrow> string" where
  "inodeText row =
     (if reason row = ''inodes'' \<and> positive (total_inodes row)
      then '' '' @ middot @ '' '' @
        n_string (n_floor (percent_of (free_inodes row) (total_inodes row))) @ '' % inodes free''
      else '''')"

definition disk_used :: "disk_row \<Rightarrow> number" where
  "disk_used r = n_mul (Fin 100) (n_sub (Fin 1) (n_div (free_b r) (total_b r)))"

definition disk_text :: "disk_row \<Rightarrow> string" where
  "disk_text r = fmtBytes (n_sub (total_b r) (free_b r)) @ '' / '' @ fmtBytes (total_b r) @ inodeText r"

definition apply_disk :: "sys_sample \<Rightarrow> sysbox \<Rightarrow> sysbox" where
  "apply_disk d s = (case disk_root d of None \<Rightarrow> s | Some r \<Rightarrow>
     if positive (total_b r) then
       let rused = disk_used r; h = pushHist (h_disk (hist s)) rused
       in on_box (drawSpark ''sys-disk-spark'' h (Fin 0) (Fin 100)
            \<circ> setLevel ''sys-disk-bar'' (levelClass (level r))
            \<circ> set_val ''sys-disk-val'' (disk_text r) \<circ> setBar ''sys-disk-bar'' rused)
           (s\<lparr>hist := (hist s)\<lparr>h_disk := h\<rparr>\<rparr>)
     else s)"

definition apply_disk2 :: "sys_sample \<Rightarrow> sysbox \<Rightarrow> sysbox" where
  "apply_disk2 d s = (case disk_runtime d of None \<Rightarrow> s | Some q \<Rightarrow>
     if num (total_b q) then
       let qused = disk_used q; h = pushHist (h_disk2 (hist s)) qused
       in on_box (drawSpark ''sys-disk2-spark'' h (Fin 0) (Fin 100)
            \<circ> setLevel ''sys-disk2-row'' (levelClass (level q))
            \<circ> set_val ''sys-disk2-val'' (disk_text q) \<circ> setBar ''sys-disk2-bar'' qused
            \<circ> show_row ''sys-disk2-row'')
           (s\<lparr>hist := (hist s)\<lparr>h_disk2 := h\<rparr>\<rparr>)
     else s)"

definition degree_c :: string where "degree_c = [CHR 0xC2, CHR 0xB0] @ ''C''"

definition apply_temp :: "sys_sample \<Rightarrow> sysbox \<Rightarrow> sysbox" where
  "apply_temp d s =
     (if num (temp_mc d) then
        let c = n_div (temp_mc d) (Fin 1000); h = pushHist (h_temp (hist s)) c
        in on_box (drawSpark ''sys-temp-spark'' h (Fin 0) (Fin 90)
             \<circ> setLevel ''sys-temp-bar'' (warn_level 70 80 c)
             \<circ> set_val ''sys-temp-val'' (n_toFixed 1 c @ '' '' @ degree_c)
             \<circ> setBar ''sys-temp-bar'' (n_div (n_mul (Fin 100) c) (Fin 90)))
            (s\<lparr>hist := (hist s)\<lparr>h_temp := h\<rparr>\<rparr>)
      else s)"

definition set_pill :: "string \<Rightarrow> string \<Rightarrow> string \<Rightarrow> system_box \<Rightarrow> system_box" where
  "set_pill i t cls b = b\<lparr>pills := (pills b)(i := (t, cls))\<rparr>"

definition apply_power :: "sys_sample \<Rightarrow> sysbox \<Rightarrow> sysbox" where
  "apply_power d s = (case power d of None \<Rightarrow> s | Some p \<Rightarrow>
     if psource p = ''hwmon-alarm'' then
       on_box (set_val ''sys-power-val''
            (if num (core_mv p) then ''core '' @ n_toFixed 3 (n_div (core_mv p) (Fin 1000)) @ '' V'' else '''')
          \<circ> set_pill ''sys-power-pill''
            (if undervolt_alarm p then ''UNDER-VOLTAGE alarm'' else ''no under-voltage alarm'')
            (''pill '' @ (if undervolt_alarm p then ''pill-bad'' else ''''))
          \<circ> show_row ''sys-power-row'') s
     else s)"

subsection \<open>The clock\<close>

definition trunc_ms :: "number \<Rightarrow> int" where
  "trunc_ms v = (case v of Fin q \<Rightarrow> (if 0 \<le> q then \<lfloor>q\<rfloor> else \<lceil>q\<rceil>) | _ \<Rightarrow> 0)"

definition tzOffsetSeconds :: "string \<Rightarrow> string \<Rightarrow> int" where
  "tzOffsetSeconds local_s utc_s =
     (case (parse_iso (replace_space local_s @ ''Z''), parse_iso (replace_space utc_s @ ''Z'')) of
        (Some l, Some u) \<Rightarrow> \<lfloor>fl (of_int (l - u) / 1000) + 1 / 2\<rfloor>
      | _ \<Rightarrow> 0)"

definition space_before :: "string \<Rightarrow> string" where
  "space_before t = (if t = '''' then '''' else '' '' @ t)"

definition tickClock :: "int \<Rightarrow> sysbox \<Rightarrow> sysbox" where
  "tickClock now s = (case skew (clock s) of None \<Rightarrow> s | Some k \<Rightarrow>
     (let utcMs = n_add (Fin (of_int now)) k in
      on_box (set_val ''sys-time-utc'' (stamp (trunc_ms utcMs) @ '' UTC'')
        \<circ> set_val ''sys-time-val''
            (stamp (trunc_ms (n_add utcMs (Fin (of_int (offset_s (clock s) * 1000)))))
             @ space_before (tz (clock s)))) s))"

definition time_pill_class :: "string \<Rightarrow> string" where
  "time_pill_class st = ''pill '' @ (if st = ''green'' then ''pill-ok'' else if st = ''yellow'' then ''pill-warn''
     else if st = ''red'' then ''pill-bad'' else '''')"

definition plus_minus :: string where "plus_minus = [CHR 0xC2, CHR 0xB1]"

definition time_bits :: "time_sample \<Rightarrow> string list" where
  "time_bits t =
     (if tsource t \<noteq> '''' then [''source: '' @ tsource t] else [])
     @ (if detail t \<noteq> '''' then [detail t] else [])
     @ (if num (synced_age_s t) then [''synced '' @ fmtUptime (synced_age_s t) @ '' ago''] else [])
     @ (if num (maxerror_us t)
        then [''est. error '' @ plus_minus @ n_toFixed 1 (n_div (maxerror_us t) (Fin 1000000)) @ '' s''] else [])
     @ (case rtc_present t of None \<Rightarrow> [] | Some b \<Rightarrow> [''RTC: '' @ (if b then ''yes'' else ''no'')])"

definition show_hint :: "string \<Rightarrow> string \<Rightarrow> system_box \<Rightarrow> system_box" where
  "show_hint i t b = (set_val i t b)\<lparr>row_hidden := (row_hidden b)(i := (t = ''''))\<rparr>"

text \<open>\<open>now\<close> is \<open>Date.now()\<close> at this sample.\<close>

definition apply_time :: "int \<Rightarrow> sys_sample \<Rightarrow> sysbox \<Rightarrow> sysbox" where
  "apply_time now d s = (case time d of None \<Rightarrow> s | Some t \<Rightarrow>
     if local_time t = '''' then s
     else
       let s = on_box (set_pill ''sys-time-pill'' (if tlabel t = '''' then ellipsis else tlabel t)
                         (time_pill_class (tstate t)) \<circ> show_row ''sys-time-row'') s;
           s = (if num (epoch t) \<and> utc t \<noteq> '''' then
                  tickClock now (s\<lparr>clock := \<lparr>skew = Some (n_sub (n_mul (epoch t) (Fin 1000)) (Fin (of_int now))),
                    offset_s = tzOffsetSeconds (local_time t) (utc t), tz = tzname t\<rparr>\<rparr>)
                else
                  on_box (set_val ''sys-time-utc'' (if utc t = '''' then '''' else utc t @ '' UTC'')
                    \<circ> set_val ''sys-time-val'' (local_time t @ space_before (tzname t)))
                   (s\<lparr>clock := (clock s)\<lparr>skew := None\<rparr>\<rparr>));
           s = on_box (show_hint ''sys-time-cmd'' (hint_cmd t) \<circ> show_hint ''sys-time-hint'' (hint t)) s;
           s = (if tstate t \<noteq> ''green'' \<and> detail t \<noteq> '''' \<and> tlabel t = ''dup''
                then on_box (show_row ''sys-time-hint''
                       \<circ> set_val ''sys-time-hint'' (detail t @ '' '' @ em_dash @ '' '' @ hint t)) s
                else s)
       in on_box (\<lambda>b. b\<lparr>time_title := join [CHR 0x0A] (time_bits t)\<rparr>) s)"

definition info_parts :: "sys_sample \<Rightarrow> info_sample \<Rightarrow> string list" where
  "info_parts d i =
     filter (\<lambda>x. x \<noteq> '''') [hostname i, model i, os i]
     @ (if kernel i = '''' then [] else [kernel i @ '' '' @ arch i])
     @ (case cpu d of Some c \<Rightarrow> if positive (cores c) then [n_string (cores c) @ '' cores''] else [] | None \<Rightarrow> [])
     @ (if num (uptime_s d) then [''up '' @ fmtUptime (uptime_s d)] else [])"

definition apply_info :: "sys_sample \<Rightarrow> sysbox \<Rightarrow> sysbox" where
  "apply_info d s = (case sinfo d of None \<Rightarrow> s | Some i \<Rightarrow> on_box (\<lambda>b. b\<lparr>info := info_parts d i\<rparr>) s)"

text \<open>The sections in the order of the code.\<close>

definition apply_sample :: "int \<Rightarrow> sys_sample \<Rightarrow> sysbox \<Rightarrow> sysbox" where
  "apply_sample now d s =
     apply_info d (apply_time now d (apply_power d (apply_temp d (apply_disk2 d (apply_disk d
       (apply_net d (apply_mem d (apply_cpu d (on_box hideOptionalRows s)))))))))"

end
