(* ===== verification/System_Poll.thy ===== *)
theory System_Poll
  imports System_Apply Poller
begin

text \<open>
  The System box, third part: polling of \<open>/api/system\<close> and \<open>/api/gps\<close> with abort controllers as
  ownership tokens, opening and closing, and the graph histories kept in \<open>localStorage\<close>. A controller
  is a number; \<open>live\<close> lists the controllers of requests that are out and not aborted. Times are
  milliseconds of the browser's clock.
\<close>

subsection \<open>The pills riding on a poll\<close>

definition renderWifi :: "string \<Rightarrow> sys_sample option \<Rightarrow> system_box \<Rightarrow> system_box" where
  "renderWifi dev d b =
     (let dbm = (case d of None \<Rightarrow> NaN | Some v \<Rightarrow> wifi v dev) in
      if \<not> num dbm then set_pill ''sys-wifi-pill'' ''Wi-Fi'' '''' b
      else set_pill ''sys-wifi-pill'' (n_string dbm @ '' dBm'')
             (if n_le (Fin (- 67)) dbm then ''pill-ok'' else if n_le (Fin (- 75)) dbm then ''pill-warn''
              else ''pill-bad'') b)"

record gps_answer =
  gstate :: string
  glabel :: string
  glat :: number
  glon :: number

definition GPS_PILL :: "string \<rightharpoonup> string" where
  "GPS_PILL = [''3d'' \<mapsto> ''pill-ok'', ''2d'' \<mapsto> ''pill-warn'', ''fix'' \<mapsto> ''pill-warn'',
     ''no-fix'' \<mapsto> ''pill-bad'', ''stale'' \<mapsto> ''pill-bad'', ''gpsd-no-data'' \<mapsto> ''pill-bad'',
     ''no-data'' \<mapsto> ''pill-bad'']"

definition GPS_WORD :: "string \<rightharpoonup> string" where
  "GPS_WORD = [''3d'' \<mapsto> ''3D fix'', ''2d'' \<mapsto> ''2D fix'', ''fix'' \<mapsto> ''fix'', ''no-fix'' \<mapsto> ''no fix'',
     ''stale'' \<mapsto> ''stale'', ''gpsd-no-data'' \<mapsto> ''no data'', ''no-data'' \<mapsto> ''no data'',
     ''no-device'' \<mapsto> ''no GPS'', ''auto-off'' \<mapsto> ''no GPS'', ''off'' \<mapsto> ''off'',
     ''unavailable'' \<mapsto> ''no gpsd'', ''fixed'' \<mapsto> ''fixed'', ''held'' \<mapsto> ''held'',
     ''via-feed'' \<mapsto> ''feed'', ''ambiguous'' \<mapsto> ''ambiguous'']"

definition renderGps :: "gps_answer option \<Rightarrow> system_box \<Rightarrow> system_box" where
  "renderGps d b =
     (let pos = (case d of None \<Rightarrow> False | Some g \<Rightarrow> num (glat g) \<and> num (glon g));
          cls = (case d of None \<Rightarrow> '''' | Some g \<Rightarrow> (case GPS_PILL (gstate g) of Some c \<Rightarrow> c | None \<Rightarrow> ''''));
          word = (case d of None \<Rightarrow> ''error'' | Some g \<Rightarrow>
             (case GPS_WORD (gstate g) of Some w \<Rightarrow> w | None \<Rightarrow> if gstate g = '''' then ''?'' else gstate g))
      in set_val ''sys-gps-lon'' (case d of Some g \<Rightarrow> if pos then n_toFixed 6 (glon g) else '''' | None \<Rightarrow> '''')
          (set_val ''sys-gps-lat'' (case d of Some g \<Rightarrow> if pos then n_toFixed 6 (glat g) else em_dash | None \<Rightarrow> em_dash)
            (set_pill ''sys-gps-state'' word cls b)))"

subsection \<open>Histories across a reload\<close>

record saved_hist =
  saved_at :: int
  saved_series :: hist

definition HIST_MAX_AGE_MS :: int where "HIST_MAX_AGE_MS = 10 * 60 * 1000"

text \<open>\<open>JSON.stringify\<close> writes \<open>null\<close> for a number that is not finite; the filter drops it again.\<close>

definition restore_series :: "number list \<Rightarrow> number list" where
  "restore_series xs = last_n HIST (filter num xs)"

definition map_hist :: "(number list \<Rightarrow> number list) \<Rightarrow> hist \<Rightarrow> hist" where
  "map_hist f h = \<lparr>h_cpu = f (h_cpu h), h_rx = f (h_rx h), h_tx = f (h_tx h), h_temp = f (h_temp h),
     h_mem = f (h_mem h), h_disk = f (h_disk h), h_disk2 = f (h_disk2 h), h_swap = f (h_swap h)\<rparr>"

definition redrawFromHist :: "hist \<Rightarrow> system_box \<Rightarrow> system_box" where
  "redrawFromHist h =
     (let peak = rolling_peak (h_rx h) (h_tx h) in
      drawSpark ''sys-nettx-spark'' (h_tx h) (Fin 0) peak
      \<circ> drawSpark ''sys-netrx-spark'' (h_rx h) (Fin 0) peak
      \<circ> drawSpark ''sys-temp-spark'' (h_temp h) (Fin 0) (Fin 90)
      \<circ> drawSpark ''sys-disk2-spark'' (h_disk2 h) (Fin 0) (Fin 100)
      \<circ> drawSpark ''sys-disk-spark'' (h_disk h) (Fin 0) (Fin 100)
      \<circ> drawSpark ''sys-swap-spark'' (h_swap h) (Fin 0) (Fin 100)
      \<circ> drawSpark ''sys-mem-spark'' (h_mem h) (Fin 0) (Fin 100)
      \<circ> drawSpark ''sys-cpu-spark'' (h_cpu h) (Fin 0) (Fin 100))"

text \<open>\<open>None\<close>: nothing stored, or something that is not a history of this version.\<close>

definition restoreHist :: "int \<Rightarrow> saved_hist option \<Rightarrow> sysbox \<Rightarrow> sysbox" where
  "restoreHist now stored s = (case stored of None \<Rightarrow> s | Some d \<Rightarrow>
     if HIST_MAX_AGE_MS < now - saved_at d then s
     else let h = map_hist restore_series (saved_series d)
          in on_box (redrawFromHist h) (s\<lparr>hist := h\<rparr>))"

definition resetDynamic :: "system_box \<Rightarrow> system_box" where
  "resetDynamic b =
     (let b = set_val ''sys-cpu-val'' ellipsis (hideOptionalRows b)
      in b\<lparr>net_lines := None, sparks := (\<lambda>_. ''''), core_bars := map (\<lambda>_. (Fin 0, '''')) (core_bars b)\<rparr>)"

subsection \<open>The poller\<close>

record system =
  view :: sysbox
  interval :: bool
  inflight :: "nat option"
  gpsCtl :: "nat option"
  gpsTick :: nat
  next_ctl :: nat
  live :: "nat list"
  sent :: nat
  box_open :: bool
  page_hidden :: bool
  toggles :: nat
  stored :: "saved_hist option"
  persisted :: "string option"

definition GPS_EVERY :: nat where "GPS_EVERY = 2"

definition fresh_ctl :: "system \<Rightarrow> nat \<times> system" where
  "fresh_ctl s = (next_ctl s, s\<lparr>next_ctl := next_ctl s + 1, live := live s @ [next_ctl s], sent := sent s + 1\<rparr>)"

definition gpsPoll :: "system \<Rightarrow> system" where
  [poll_defs]: "gpsPoll s =
     (if gpsCtl s \<noteq> None then s
      else
        let due = (gpsTick s mod GPS_EVERY = 0); s = s\<lparr>gpsTick := gpsTick s + 1\<rparr> in
        if \<not> due then s
        else let (ctl, s) = fresh_ctl s in s\<lparr>gpsCtl := Some ctl\<rparr>)"

definition poll_sys :: "system \<Rightarrow> system" where
  [poll_defs]: "poll_sys s =
     (if page_hidden s then s
      else
        let s = gpsPoll s in
        if inflight s \<noteq> None then s
        else let (ctl, s) = fresh_ctl s in s\<lparr>inflight := Some ctl\<rparr>)"

text \<open>
  The answers, owned by the controller that holds the slot. \<open>None\<close>: refused or failed.
\<close>

definition sys_answer :: "int \<Rightarrow> string \<Rightarrow> nat \<Rightarrow> sys_sample option \<Rightarrow> system \<Rightarrow> system" where
  [poll_defs]: "sys_answer now dev ctl d s =
     (if inflight s \<noteq> Some ctl then s
      else
        let s = s\<lparr>inflight := None, live := remove1 ctl (live s)\<rparr> in
        case d of None \<Rightarrow> s
        | Some v \<Rightarrow> s\<lparr>view := on_box (renderWifi dev d) (apply_sample now v (view s))\<rparr>)"

definition gps_arrives :: "nat \<Rightarrow> gps_answer option \<Rightarrow> system \<Rightarrow> system" where
  [poll_defs]: "gps_arrives ctl d s =
     (if gpsCtl s \<noteq> Some ctl then s
      else s\<lparr>gpsCtl := None, live := remove1 ctl (live s), view := on_box (renderGps d) (view s)\<rparr>)"

definition saveHist :: "bool \<Rightarrow> int \<Rightarrow> system \<Rightarrow> system" where
  [poll_defs]: "saveHist storage_ok now s =
     (if storage_ok then s\<lparr>stored := Some \<lparr>saved_at = now, saved_series = hist (view s)\<rparr>\<rparr> else s)"

definition start_sys :: "int \<Rightarrow> string \<Rightarrow> system \<Rightarrow> system" where
  [poll_defs]: "start_sys now dev s =
     (if interval s then s
      else
        let v = on_box resetDynamic ((view s)\<lparr>prev := no_baseline, hist := empty_hist\<rparr>);
            v = restoreHist now (stored s) v;
            v = on_box (renderWifi dev None \<circ> set_val ''sys-gps-lat'' ''''
                  \<circ> set_pill ''sys-gps-state'' ellipsis '''' \<circ> renderGps None) v
        in (poll_sys (s\<lparr>view := v, gpsTick := 0\<rparr>))\<lparr>interval := True\<rparr>)"

definition abort_all :: "system \<Rightarrow> system" where
  [poll_defs]: "abort_all s =
     (let gone = (\<lambda>c. Some c = inflight s \<or> Some c = gpsCtl s)
      in s\<lparr>live := filter (\<lambda>c. \<not> gone c) (live s), inflight := None, gpsCtl := None\<rparr>)"

definition stop_sys :: "bool \<Rightarrow> int \<Rightarrow> system \<Rightarrow> system" where
  [poll_defs]: "stop_sys storage_ok now s =
     (if \<not> interval s then s
      else
        let s = s\<lparr>interval := False, view := (view s)\<lparr>clock := (clock (view s))\<lparr>skew := None\<rparr>\<rparr>\<rparr>;
            s = saveHist storage_ok now (abort_all s)
        in s\<lparr>view := (view s)\<lparr>prev := no_baseline, hist := empty_hist\<rparr>\<rparr>)"

definition toggled_sys :: "bool \<Rightarrow> int \<Rightarrow> string \<Rightarrow> system \<Rightarrow> system" where
  [poll_defs]: "toggled_sys storage_ok now dev s =
     (let s = s\<lparr>toggles := toggles s - 1,
                persisted := (if storage_ok then Some (if box_open s then ''1'' else ''0'') else persisted s)\<rparr>
      in if box_open s then start_sys now dev s else stop_sys storage_ok now s)"

definition visibility_sys :: "bool \<Rightarrow> bool \<Rightarrow> int \<Rightarrow> string \<Rightarrow> system \<Rightarrow> system" where
  [poll_defs]: "visibility_sys hide storage_ok now dev s =
     (let s = s\<lparr>page_hidden := hide\<rparr> in
      if \<not> box_open s then s else if hide then stop_sys storage_ok now s else start_sys now dev s)"

definition pagehide_sys :: "bool \<Rightarrow> int \<Rightarrow> system \<Rightarrow> system" where
  [poll_defs]: "pagehide_sys storage_ok now s = (if interval s then saveHist storage_ok now s else s)"

text \<open>
  Loading: a box remembered as open is opened (which queues a toggle event), and an open box starts.
\<close>

definition load_sys :: "int \<Rightarrow> string \<Rightarrow> system_box \<Rightarrow> saved_hist option \<Rightarrow> string option \<Rightarrow> bool \<Rightarrow> bool \<Rightarrow> system" where
  [poll_defs]: "load_sys now dev b st persist opened hide =
     (let reopen = (persist = Some ''1'' \<and> \<not> opened);
          s = \<lparr>view = \<lparr>box = b, hist = empty_hist, prev = no_baseline,
                 clock = \<lparr>skew = None, offset_s = 0, tz = ''''\<rparr>\<rparr>,
               interval = False, inflight = None, gpsCtl = None, gpsTick = 0, next_ctl = 0, live = [], sent = 0,
               box_open = opened \<or> reopen, page_hidden = hide, toggles = (if reopen then 1 else 0),
               stored = st, persisted = persist\<rparr>
      in if box_open s then start_sys now dev s else s)"

inductive sys_step :: "string \<Rightarrow> system \<Rightarrow> system \<Rightarrow> bool" for dev where
  poll_fires: "interval s \<Longrightarrow> sys_step dev s (poll_sys s)"
| clock_fires: "interval s \<Longrightarrow> sys_step dev s (s\<lparr>view := tickClock now (view s)\<rparr>)"
| answer: "ctl < next_ctl s \<Longrightarrow> sys_step dev s (sys_answer now dev ctl d s)"
| gps_arrives: "ctl < next_ctl s \<Longrightarrow> sys_step dev s (gps_arrives ctl g s)"
| user_toggles: "sys_step dev s (s\<lparr>box_open := \<not> box_open s, toggles := toggles s + 1\<rparr>)"
| toggled: "0 < toggles s \<Longrightarrow> sys_step dev s (toggled_sys storage_ok now dev s)"
| visibility: "sys_step dev s (visibility_sys hide storage_ok now dev s)"
| pagehide: "sys_step dev s (pagehide_sys storage_ok now s)"

end
