(* ===== verification/System_Props.thy ===== *)
theory System_Props
  imports System_Poll
begin

text \<open>
  The System box: requests and their ownership, histories that stay bounded and survive a collapse,
  rates computed over the right interval, rows shown only from current data, and a clock that shows
  the server's time.
\<close>

subsection \<open>Requests and ownership\<close>

definition slots :: "system \<Rightarrow> nat list" where
  "slots s = (case inflight s of Some c \<Rightarrow> [c] | None \<Rightarrow> []) @ (case gpsCtl s of Some c \<Rightarrow> [c] | None \<Rightarrow> [])"

definition req_inv :: "system \<Rightarrow> bool" where
  "req_inv s \<longleftrightarrow> set (live s) = set (slots s) \<and> distinct (live s) \<and> distinct (slots s)
     \<and> (\<forall>c \<in> set (live s). c < next_ctl s)"

definition life_inv :: "system \<Rightarrow> bool" where
  "life_inv s \<longleftrightarrow> (\<not> interval s \<longrightarrow> slots s = [])
     \<and> (toggles s = 0 \<longrightarrow> (interval s \<longrightarrow> box_open s) \<and> (box_open s \<and> \<not> page_hidden s \<longrightarrow> interval s))"

lemma req_inv_cong: "req_inv s \<Longrightarrow> live t = live s \<Longrightarrow> inflight t = inflight s \<Longrightarrow> gpsCtl t = gpsCtl s \<Longrightarrow>
    next_ctl t = next_ctl s \<Longrightarrow> req_inv t"
  by (simp add: req_inv_def slots_def)

lemma req_inv_poll: "req_inv s \<Longrightarrow> req_inv (poll_sys s)"
  by (auto simp: req_inv_def slots_def poll_sys_def gpsPoll_def fresh_ctl_def Let_def less_Suc_eq
      split: option.splits)

lemma poll_fields [simp]:
  "view (poll_sys s) = view s" "interval (poll_sys s) = interval s" "box_open (poll_sys s) = box_open s"
  "page_hidden (poll_sys s) = page_hidden s" "toggles (poll_sys s) = toggles s"
  "stored (poll_sys s) = stored s"
  by (simp_all add: poll_sys_def gpsPoll_def fresh_ctl_def Let_def)

lemma poll_next: "next_ctl s \<le> next_ctl (poll_sys s)"
  by (simp add: poll_sys_def gpsPoll_def fresh_ctl_def Let_def)

lemma slots_empty: "slots s = [] \<longleftrightarrow> inflight s = None \<and> gpsCtl s = None"
  by (simp add: slots_def split: option.splits)

lemma req_inv_empty: "live s = [] \<Longrightarrow> inflight s = None \<Longrightarrow> gpsCtl s = None \<Longrightarrow> req_inv s"
  by (simp add: req_inv_def slots_def)

lemma abort_all_fields:
  "req_inv s \<Longrightarrow> live (abort_all s) = []" "inflight (abort_all s) = None" "gpsCtl (abort_all s) = None"
  by (auto simp: req_inv_def abort_all_def slots_def filter_empty_conv Let_def split: option.splits)

lemma stop_fields:
  "req_inv s \<Longrightarrow> req_inv (stop_sys ok now s)"
  "req_inv s \<Longrightarrow> interval s \<Longrightarrow> slots (stop_sys ok now s) = []"
  "interval (stop_sys ok now s) = False"
  "box_open (stop_sys ok now s) = box_open s" "page_hidden (stop_sys ok now s) = page_hidden s"
  "toggles (stop_sys ok now s) = toggles s" "next_ctl (stop_sys ok now s) = next_ctl s"
proof -
  let ?s = "s\<lparr>interval := False, view := (view s)\<lparr>clock := (clock (view s))\<lparr>skew := None\<rparr>\<rparr>\<rparr>"
  have a: "live (abort_all ?s) = []" if "req_inv s"
    using abort_all_fields(1) [OF req_inv_cong [OF that], of ?s] by simp
  show "req_inv (stop_sys ok now s)" if "req_inv s"
  proof (cases "interval s")
    case True
    then show ?thesis
      using a [OF that] by (intro req_inv_empty) (simp_all add: stop_sys_def Let_def saveHist_def abort_all_fields)
  next
    case False
    with that show ?thesis by (simp add: stop_sys_def)
  qed
  show "req_inv s \<Longrightarrow> interval s \<Longrightarrow> slots (stop_sys ok now s) = []"
    by (simp add: slots_empty stop_sys_def Let_def saveHist_def abort_all_fields)
qed (simp_all add: stop_sys_def Let_def saveHist_def abort_all_def)

lemma start_fields:
  "req_inv s \<Longrightarrow> req_inv (start_sys now dev s)"
  "interval (start_sys now dev s) = True" "box_open (start_sys now dev s) = box_open s"
  "page_hidden (start_sys now dev s) = page_hidden s" "toggles (start_sys now dev s) = toggles s"
  "next_ctl s \<le> next_ctl (start_sys now dev s)"
proof -
  obtain v where v: "\<not> interval s \<Longrightarrow>
      start_sys now dev s = (poll_sys (s\<lparr>view := v, gpsTick := 0\<rparr>))\<lparr>interval := True\<rparr>"
    by (simp add: start_sys_def Let_def)
  show "req_inv (start_sys now dev s)" if "req_inv s"
  proof (cases "interval s")
    case False
    have "req_inv (s\<lparr>view := v, gpsTick := 0\<rparr>)" using that by (rule req_inv_cong) simp_all
    from req_inv_poll [OF this] show ?thesis unfolding v [OF False] by (rule req_inv_cong) simp_all
  qed (use that in \<open>simp add: start_sys_def\<close>)
  show "next_ctl s \<le> next_ctl (start_sys now dev s)"
    using v poll_next [of "s\<lparr>view := v, gpsTick := 0\<rparr>"] by (cases "interval s") (simp_all add: start_sys_def)
qed (simp_all add: start_sys_def Let_def)

lemma answer_fields:
  "req_inv s \<Longrightarrow> req_inv (sys_answer now dev ctl d s)" "req_inv s \<Longrightarrow> req_inv (gps_arrives ctl g s)"
  "slots s = [] \<Longrightarrow> slots (sys_answer now dev ctl d s) = []" "slots s = [] \<Longrightarrow> slots (gps_arrives ctl g s) = []"
  by (auto simp: sys_answer_def gps_arrives_def req_inv_def slots_def Let_def split: option.splits if_splits)

lemma answer_same:
  "interval (sys_answer now dev ctl d s) = interval s" "box_open (sys_answer now dev ctl d s) = box_open s"
  "page_hidden (sys_answer now dev ctl d s) = page_hidden s" "toggles (sys_answer now dev ctl d s) = toggles s"
  "interval (gps_arrives ctl g s) = interval s" "box_open (gps_arrives ctl g s) = box_open s"
  "page_hidden (gps_arrives ctl g s) = page_hidden s" "toggles (gps_arrives ctl g s) = toggles s"
  by (simp_all add: sys_answer_def gps_arrives_def Let_def split: option.splits)

lemma req_inv_step: "sys_step dev s t \<Longrightarrow> req_inv s \<Longrightarrow> req_inv t \<and> next_ctl s \<le> next_ctl t"
proof (induction rule: sys_step.induct)
  case (toggled s storage_ok now)
  moreover have "req_inv (s\<lparr>toggles := n, persisted := p\<rparr>)" for n p
    using toggled.prems by (rule req_inv_cong) simp_all
  ultimately show ?case
    using start_fields(1,6) [of "s\<lparr>toggles := n, persisted := p\<rparr>" now dev for n p] stop_fields(1,7)
    by (auto simp: toggled_sys_def Let_def)
next
  case (visibility s hide storage_ok now)
  moreover have "req_inv (s\<lparr>page_hidden := hide\<rparr>)"
    using visibility.prems by (rule req_inv_cong) simp_all
  ultimately show ?case
    using start_fields(1,6) [of "s\<lparr>page_hidden := hide\<rparr>" now dev] stop_fields(1,7)
    by (auto simp: visibility_sys_def Let_def)
next
  case (answer ctl s now d)
  then show ?case by (simp add: answer_fields) (simp add: sys_answer_def Let_def split: option.splits)
next
  case (gps_arrives ctl s g)
  then show ?case by (simp add: answer_fields) (simp add: gps_arrives_def Let_def)
qed (auto simp: req_inv_poll poll_next pagehide_sys_def saveHist_def elim: req_inv_cong)

lemma life_inv_step: "sys_step dev s t \<Longrightarrow> req_inv s \<Longrightarrow> life_inv s \<Longrightarrow> life_inv t"
proof (induction rule: sys_step.induct)
  case (toggled s storage_ok now)
  let ?s = "s\<lparr>toggles := toggles s - 1,
    persisted := (if storage_ok then Some (if box_open s then ''1'' else ''0'') else persisted s)\<rparr>"
  have inv: "req_inv ?s" using toggled.prems(1) by (rule req_inv_cong) simp_all
  have idle: "\<not> interval ?s \<Longrightarrow> slots ?s = []" using toggled.prems(2) by (simp add: life_inv_def slots_empty)
  have "slots (stop_sys storage_ok now ?s) = []"
    using stop_fields(2) [OF inv] idle by (cases "interval ?s") (simp_all add: stop_sys_def)
  then show ?case
    by (simp add: toggled_sys_def Let_def life_inv_def stop_fields(3-) start_fields)
next
  case (visibility s hide storage_ok now)
  let ?s = "s\<lparr>page_hidden := hide\<rparr>"
  have inv: "req_inv ?s" using visibility.prems(1) by (rule req_inv_cong) simp_all
  have idle: "\<not> interval ?s \<Longrightarrow> slots ?s = []" using visibility.prems(2) by (simp add: life_inv_def slots_empty)
  have "slots (stop_sys storage_ok now ?s) = []"
    using stop_fields(2) [OF inv] idle by (cases "interval ?s") (simp_all add: stop_sys_def)
  then show ?case
    using visibility.prems(2) idle
    by (auto simp: visibility_sys_def Let_def life_inv_def stop_fields(3-) start_fields slots_empty)
next
  case (answer ctl s now d)
  then show ?case using answer_fields(3) [of s] by (simp add: life_inv_def answer_same)
next
  case (gps_arrives ctl s g)
  then show ?case using answer_fields(4) [of s] by (simp add: life_inv_def answer_same)
qed (auto simp: life_inv_def pagehide_sys_def saveHist_def slots_empty)

definition sys_loaded :: "string \<Rightarrow> system \<Rightarrow> bool" where
  "sys_loaded dev s \<longleftrightarrow> (\<exists>now b st persist opened hide. s = load_sys now dev b st persist opened hide)"

lemma loaded_inv: "sys_loaded dev s \<Longrightarrow> req_inv s \<and> life_inv s"
proof -
  have base: "req_inv s0 \<and> life_inv (if box_open s0 then start_sys now dev s0 else s0)"
    if "live s0 = []" "inflight s0 = None" "gpsCtl s0 = None" "\<not> interval s0" for s0 :: system and now
    using that by (simp add: req_inv_empty life_inv_def start_fields slots_empty)
  assume "sys_loaded dev s"
  then obtain now b st persist opened hide where s: "s = load_sys now dev b st persist opened hide"
    by (auto simp: sys_loaded_def)
  define s0 where "s0 = \<lparr>view = \<lparr>box = b, hist = empty_hist, prev = no_baseline,
      clock = \<lparr>skew = None, offset_s = 0, tz = ''''\<rparr>\<rparr>,
    interval = False, inflight = None, gpsCtl = None, gpsTick = 0, next_ctl = 0, live = [], sent = 0,
    box_open = opened \<or> persist = Some ''1'' \<and> \<not> opened, page_hidden = hide,
    toggles = (if persist = Some ''1'' \<and> \<not> opened then 1 else 0), stored = st, persisted = persist\<rparr>"
  have s: "s = (if box_open s0 then start_sys now dev s0 else s0)"
    unfolding s load_sys_def Let_def s0_def ..
  have "live s0 = []" "inflight s0 = None" "gpsCtl s0 = None" "\<not> interval s0" by (simp_all add: s0_def)
  from base [OF this, of now] show ?thesis by (auto simp: s start_fields)
qed

interpretation sys: poller "sys_loaded dev" "sys_step dev" "\<lambda>s. req_inv s \<and> life_inv s"
  "\<lambda>s. length (filter (\<lambda>c. Some c \<noteq> gpsCtl s) (live s))"
  "\<lambda>s. interval s \<and> toggles s = 0 \<and> \<not> page_hidden s" "\<lambda>s. box_open s \<and> toggles s = 0 \<and> \<not> page_hidden s" for dev
proof unfold_locales
  show "req_inv s \<and> life_inv s" if "sys_loaded dev s" for s using that by (rule loaded_inv)
  show "req_inv t \<and> life_inv t" if "sys_step dev s t" "req_inv s \<and> life_inv s" for s t
    using that req_inv_step life_inv_step by blast
  show "length (filter (\<lambda>c. Some c \<noteq> gpsCtl s) (live s)) \<le> 1" if "req_inv s \<and> life_inv s" for s
  proof -
    have "set (filter (\<lambda>c. Some c \<noteq> gpsCtl s) (live s)) \<subseteq> set_option (inflight s)"
      using that by (auto simp: req_inv_def slots_def split: option.splits)
    moreover have "distinct (filter (\<lambda>c. Some c \<noteq> gpsCtl s) (live s))" using that by (simp add: req_inv_def)
    moreover have "finite (set_option (inflight s))" by (cases "inflight s") simp_all
    ultimately have "length (filter (\<lambda>c. Some c \<noteq> gpsCtl s) (live s)) \<le> card (set_option (inflight s))"
      by (metis card_mono distinct_card)
    then show ?thesis by (cases "inflight s") simp_all
  qed
qed (auto simp: life_inv_def)


definition blank_box :: system_box where
  "blank_box = \<lparr>texts = (\<lambda>_. ''''), bars = (\<lambda>_. NaN), levels = (\<lambda>_. ''''), row_hidden = (\<lambda>_. True),
     pills = (\<lambda>_. ('''', '''')), sparks = (\<lambda>_. ''''), core_bars = [], net_lines = None, time_title = '''', info = []\<rparr>"


text \<open>Controllers taken after a point in time are new.\<close>

definition newer :: "nat \<Rightarrow> system \<Rightarrow> bool" where
  "newer n s \<longleftrightarrow> n \<le> next_ctl s \<and> (\<forall>c \<in> set (slots s). n \<le> c)"

lemma newer_cong: "newer n s \<Longrightarrow> inflight t = inflight s \<Longrightarrow> gpsCtl t = gpsCtl s \<Longrightarrow>
    next_ctl t = next_ctl s \<Longrightarrow> newer n t"
  by (simp add: newer_def slots_def)

lemma newer_poll: "newer n s \<Longrightarrow> newer n (poll_sys s)"
  by (auto simp: newer_def slots_def poll_sys_def gpsPoll_def fresh_ctl_def Let_def split: option.splits)

lemma newer_start: "newer n s \<Longrightarrow> newer n (start_sys now dev s)"
proof (cases "interval s")
  case False
  assume n: "newer n s"
  obtain v where v: "start_sys now dev s = (poll_sys (s\<lparr>view := v, gpsTick := 0\<rparr>))\<lparr>interval := True\<rparr>"
    using False by (simp add: start_sys_def Let_def)
  have "newer n (s\<lparr>view := v, gpsTick := 0\<rparr>)" using n by (rule newer_cong) simp_all
  from newer_poll [OF this] show ?thesis unfolding v by (rule newer_cong) simp_all
qed (simp add: start_sys_def)

lemma newer_stop: "newer n s \<Longrightarrow> newer n (stop_sys ok now s)"
  by (auto simp: newer_def stop_sys_def slots_def saveHist_def abort_all_def Let_def)

lemma newer_step: "sys_step dev s t \<Longrightarrow> newer n s \<Longrightarrow> newer n t"
proof (induction rule: sys_step.induct)
  case (toggled s storage_ok now)
  have "newer n (s\<lparr>toggles := k, persisted := p\<rparr>)" for k p
    using toggled.prems by (rule newer_cong) simp_all
  then show ?case by (simp add: toggled_sys_def Let_def newer_start newer_stop)
next
  case (visibility s hide storage_ok now)
  have "newer n (s\<lparr>page_hidden := hide\<rparr>)" using visibility.prems by (rule newer_cong) simp_all
  then show ?case by (cases hide) (simp_all add: visibility_sys_def Let_def newer_start newer_stop)
next
  case (answer ctl s now d)
  then show ?case
    by (auto simp: newer_def slots_def sys_answer_def Let_def split: option.splits)
next
  case (gps_arrives ctl s g)
  then show ?case by (auto simp: newer_def slots_def gps_arrives_def Let_def)
qed (auto simp: newer_poll pagehide_sys_def saveHist_def elim: newer_cong)

lemma newer_run: "(sys_step dev)\<^sup>*\<^sup>* s t \<Longrightarrow> newer n s \<Longrightarrow> newer n t"
  by (induction rule: rtranclp_induct) (auto intro: newer_step)

text \<open>
  C23. The answer of a request that was out when the box was stopped changes nothing, however late it
  arrives and whatever was started since.
\<close>

theorem sys_stale_answer_ignored:
  assumes "s = load_sys now dev b st persist opened hide" and "(sys_step dev)\<^sup>*\<^sup>* s t"
    and "ctl \<in> set (live t)" and "(sys_step dev)\<^sup>*\<^sup>* (stop_sys storage_ok now' t) u"
  shows "sys_answer now'' dev ctl d u = u \<and> gps_arrives ctl g u = u"
proof -
  have "sys_loaded dev s" unfolding sys_loaded_def using assms(1) by blast
  then have inv: "req_inv t" "life_inv t" using sys.inv_run [OF assms(2)] loaded_inv by blast+
  then have old: "ctl < next_ctl t" and on: "interval t"
    using assms(3) by (auto simp: req_inv_def life_inv_def)
  have "newer (next_ctl t) (stop_sys storage_ok now' t)"
    using stop_fields(2) [OF inv(1) on] by (simp add: newer_def stop_fields(7))
  from newer_run [OF assms(4) this] old
  have "inflight u \<noteq> Some ctl" "gpsCtl u \<noteq> Some ctl" by (auto simp: newer_def slots_def)
  then show ?thesis by (simp add: sys_answer_def gps_arrives_def)
qed

theorem sys_stale_answer_ignored_witness:
  "sys_answer 5 ''wlan0'' 1 None (stop_sys True 3 (load_sys 0 ''wlan0'' blank_box None None True False))
    = stop_sys True 3 (load_sys 0 ''wlan0'' blank_box None None True False)"
proof -
  have "1 \<in> set (live (load_sys 0 ''wlan0'' blank_box None None True False))"
    by (simp add: load_sys_def start_sys_def poll_sys_def gpsPoll_def fresh_ctl_def GPS_EVERY_def Let_def)
  from sys_stale_answer_ignored [OF refl rtranclp.rtrancl_refl this rtranclp.rtrancl_refl]
  show ?thesis by blast
qed

end
