(* ===== verification/System_Content.thy ===== *)
theory System_Content
  imports System_Props
begin

text \<open>
  What the System box shows: bounded histories that survive a collapse, rates over the interval of their
  own counters, optional rows only from the current sample, and the server's clock.
\<close>

subsection \<open>Sections of a sample\<close>

lemma set_val_fields [simp]:
  "texts (set_val i t b) = (texts b)(i := t)" "row_hidden (set_val i t b) = row_hidden b"
  "net_lines (set_val i t b) = net_lines b" "sparks (set_val i t b) = sparks b"
  by (simp_all add: set_val_def)

lemma box_fields [simp]:
  "row_hidden (setBar i p b) = row_hidden b" "net_lines (setBar i p b) = net_lines b" "texts (setBar i p b) = texts b"
  "row_hidden (setLevel i l b) = row_hidden b" "net_lines (setLevel i l b) = net_lines b" "texts (setLevel i l b) = texts b"
  "row_hidden (drawSpark i xs lo hi b) = row_hidden b" "net_lines (drawSpark i xs lo hi b) = net_lines b"
  "texts (drawSpark i xs lo hi b) = texts b"
  "row_hidden (drawCoreBars cs ps b) = row_hidden b" "net_lines (drawCoreBars cs ps b) = net_lines b"
  "texts (drawCoreBars cs ps b) = texts b"
  "row_hidden (set_pill i t c b) = row_hidden b" "net_lines (set_pill i t c b) = net_lines b"
  "texts (set_pill i t c b) = texts b"
  "row_hidden (setNetVal r t b) = row_hidden b" "texts (setNetVal r t b) = texts b"
  "net_lines (setNetVal r t b) = Some (r, t)"
  "row_hidden (show_row i b) = (row_hidden b)(i := False)" "net_lines (show_row i b) = net_lines b"
  "texts (show_row i b) = texts b"
  "row_hidden (show_hint i t b) = (row_hidden b)(i := (t = ''''))" "net_lines (show_hint i t b) = net_lines b"
  "net_lines (hideOptionalRows b) = net_lines b" "texts (hideOptionalRows b) = texts b"
  by (simp_all add: setBar_def setLevel_def drawSpark_def drawCoreBars_def set_pill_def setNetVal_def
      show_row_def show_hint_def hideOptionalRows_def set_val_def Let_def)

subsection \<open>Histories\<close>

definition hist_ok :: "hist \<Rightarrow> bool" where
  "hist_ok h \<longleftrightarrow> (\<forall>xs \<in> {h_cpu h, h_rx h, h_tx h, h_temp h, h_mem h, h_disk h, h_disk2 h, h_swap h}.
     length xs \<le> HIST)"

lemma pushHist_length: "length xs \<le> HIST \<Longrightarrow> length (pushHist xs v) \<le> HIST"
  unfolding pushHist_def by (rule push_shift_length)

lemma hist_ok_sections:
  "hist_ok (hist s) \<Longrightarrow> hist_ok (hist (apply_cpu d s))" "hist_ok (hist s) \<Longrightarrow> hist_ok (hist (apply_mem d s))"
  "hist_ok (hist s) \<Longrightarrow> hist_ok (hist (apply_net d s))" "hist_ok (hist s) \<Longrightarrow> hist_ok (hist (apply_disk d s))"
  "hist_ok (hist s) \<Longrightarrow> hist_ok (hist (apply_disk2 d s))" "hist_ok (hist s) \<Longrightarrow> hist_ok (hist (apply_temp d s))"
  by (auto simp: apply_cpu_def apply_mem_def apply_swap_def apply_net_def apply_disk_def apply_disk2_def
      apply_temp_def Let_def hist_ok_def pushHist_length split: option.splits prod.splits)

lemma hist_kept:
  "hist (tickClock now s) = hist s" "hist (apply_power d s) = hist s" "hist (apply_time now d s) = hist s"
  "hist (apply_info d s) = hist s"
  by (simp_all add: tickClock_def apply_power_def apply_time_def apply_info_def Let_def split: option.splits)

lemma hist_ok_sample: "hist_ok (hist s) \<Longrightarrow> hist_ok (hist (apply_sample now d s))"
  unfolding apply_sample_def by (simp add: hist_kept hist_ok_sections)

lemma hist_ok_empty [simp]: "hist_ok empty_hist"
  by (simp add: hist_ok_def empty_hist_def)

lemma hist_ok_restore: "hist_ok (hist s) \<Longrightarrow> hist_ok (hist (restoreHist now st s))"
  by (auto simp: restoreHist_def hist_ok_def map_hist_def restore_series_def Let_def split: option.splits)

lemma hist_ok_start: "hist_ok (hist (view s)) \<Longrightarrow> hist_ok (hist (view (start_sys now dev s)))"
  by (auto simp: start_sys_def Let_def hist_ok_restore)

lemma hist_ok_stop: "hist_ok (hist (view s)) \<Longrightarrow> hist_ok (hist (view (stop_sys ok now s)))"
  by (simp add: stop_sys_def Let_def)

lemma hist_ok_step: "sys_step dev s t \<Longrightarrow> hist_ok (hist (view s)) \<Longrightarrow> hist_ok (hist (view t))"
proof (induction rule: sys_step.induct)
  case (answer ctl s now d)
  then show ?case by (cases d) (auto simp: sys_answer_def Let_def hist_ok_sample)
next
  case (visibility s hide storage_ok now)
  then show ?case by (cases hide) (auto simp: visibility_sys_def Let_def hist_ok_start hist_ok_stop)
qed (auto simp: hist_kept gps_arrives_def toggled_sys_def pagehide_sys_def saveHist_def Let_def
    hist_ok_start hist_ok_stop)

lemma hist_ok_run:
  assumes "s = load_sys now dev b st persist opened hide" and "(sys_step dev)\<^sup>*\<^sup>* s t"
  shows "hist_ok (hist (view t))"
proof -
  have "hist_ok (hist (view s))" unfolding assms(1) load_sys_def Let_def by (auto simp: hist_ok_start)
  with assms(2) show ?thesis by (induction rule: rtranclp_induct) (auto intro: hist_ok_step)
qed

lemma restore_series_finite: "length xs \<le> HIST \<Longrightarrow> \<forall>x \<in> set xs. num x \<Longrightarrow> restore_series xs = xs"
  by (simp add: restore_series_def filter_id_conv)

definition finite_hist :: "hist \<Rightarrow> bool" where
  "finite_hist h \<longleftrightarrow> (\<forall>xs \<in> {h_cpu h, h_rx h, h_tx h, h_temp h, h_mem h, h_disk h, h_disk2 h, h_swap h}.
     \<forall>x \<in> set xs. num x)"

lemma restore_hist_finite: "hist_ok h \<Longrightarrow> finite_hist h \<Longrightarrow> map_hist restore_series h = h"
  by (cases h) (simp add: map_hist_def hist_ok_def finite_hist_def restore_series_finite)



subsection \<open>Rates\<close>

lemma p_net_sections:
  "p_net (prev (apply_cpu d s)) = p_net (prev s)" "p_net (prev (apply_mem d s)) = p_net (prev s)"
  "p_net (prev (apply_disk d s)) = p_net (prev s)" "p_net (prev (apply_disk2 d s)) = p_net (prev s)"
  "p_net (prev (apply_temp d s)) = p_net (prev s)" "p_net (prev (apply_power d s)) = p_net (prev s)"
  "p_net (prev (apply_time now d s)) = p_net (prev s)" "p_net (prev (apply_info d s)) = p_net (prev s)"
  by (simp_all add: apply_cpu_def apply_mem_def apply_swap_def apply_disk_def apply_disk2_def apply_temp_def
      apply_power_def apply_time_def apply_info_def tickClock_def Let_def split: option.splits prod.splits)

lemma net_lines_sections:
  "net_lines (box (apply_disk d s)) = net_lines (box s)" "net_lines (box (apply_disk2 d s)) = net_lines (box s)"
  "net_lines (box (apply_temp d s)) = net_lines (box s)" "net_lines (box (apply_power d s)) = net_lines (box s)"
  "net_lines (box (apply_time now d s)) = net_lines (box s)" "net_lines (box (apply_info d s)) = net_lines (box s)"
  by (simp_all add: apply_disk_def apply_disk2_def apply_temp_def apply_power_def apply_time_def
      apply_info_def tickClock_def Let_def split: option.splits)

lemma p_net_sample: "p_net (prev (apply_sample now d s)) =
    (case net d of Some (rx, tx) \<Rightarrow> if num rx then Some (rx, tx, ts d) else p_net (prev s) | None \<Rightarrow> p_net (prev s))"
  by (simp add: apply_sample_def p_net_sections apply_net_def Let_def split: option.splits prod.splits)

text \<open>
  The network rates are the byte differences of two consecutive samples that carry counters, divided
  by the time between exactly those two, however many samples without counters come in between.
\<close>

theorem net_rate_interval:
  assumes "net d1 = Some (rx1, tx1)" and "num rx1" and "\<forall>(now, d) \<in> set between. net d = None"
    and "net d2 = Some (rx2, tx2)" and "num rx2"
    and "n_lt (Fin 0) (n_sub (ts d2) (ts d1))" and "n_le (Fin 0) (n_sub rx2 rx1)" and "n_le (Fin 0) (n_sub tx2 tx1)"
  shows "net_lines (box (foldl (\<lambda>s (now, d). apply_sample now d s) s ((now1, d1) # between @ [(now2, d2)]))) =
    Some (fmtRate (n_div (n_sub rx2 rx1) (n_sub (ts d2) (ts d1))),
          fmtRate (n_div (n_sub tx2 tx1) (n_sub (ts d2) (ts d1))))"
proof -
  let ?run = "foldl (\<lambda>s (now, d). apply_sample now d s)"
  have "p_net (prev (?run (apply_sample now1 d1 s) between)) = Some (rx1, tx1, ts d1)"
    using assms(3)
    by (induction between rule: rev_induct) (auto simp: p_net_sample assms(1,2) split: prod.splits)
  then show ?thesis
    using assms(4-8)
    by (simp add: apply_sample_def net_lines_sections apply_net_def p_net_sections Let_def)
qed

definition empty_sample :: sys_sample where
  "empty_sample = \<lparr>ts = NaN, cpu = None, mem = None, net = None, disk_root = None, disk_runtime = None,
     temp_mc = NaN, power = None, time = None, sinfo = None, uptime_s = NaN, wifi = (\<lambda>_. NaN)\<rparr>"

definition blank_sysbox :: sysbox where
  "blank_sysbox = \<lparr>box = blank_box, hist = empty_hist, prev = no_baseline,
     clock = \<lparr>skew = None, offset_s = 0, tz = ''''\<rparr>\<rparr>"

lemma small_nums:
  "round_num 4 = Fin 4" "round_num 2000 = Fin 2000" "round_num 1000 = Fin 1000" "round_num 500 = Fin 500"
  "round_num 250 = Fin 250" "round_num 0 = Fin 0"
  using fl_int [of 4] fl_int [of 2000] fl_int [of 1000] fl_int [of 500] fl_int [of 250]
  by (simp_all add: round_num_def Let_def)

theorem net_rate_interval_witness:
  "net_lines (box (foldl (\<lambda>s (now, d). apply_sample now d s) blank_sysbox
     [(0, empty_sample\<lparr>ts := Fin 1, net := Some (Fin 1000, Fin 0)\<rparr>), (2000, empty_sample),
      (4000, empty_sample\<lparr>ts := Fin 5, net := Some (Fin 3000, Fin 1000)\<rparr>)]))
   = Some (''500 B/s'', ''250 B/s'')"
proof -
  have "fmtRate (Fin 500) = ''500 B/s''" "fmtRate (Fin 250) = ''250 B/s''" by code_simp+
  then show ?thesis
    using net_rate_interval [of "empty_sample\<lparr>ts := Fin 1, net := Some (Fin 1000, Fin 0)\<rparr>" "Fin 1000" "Fin 0"
      "[(2000, empty_sample)]" "empty_sample\<lparr>ts := Fin 5, net := Some (Fin 3000, Fin 1000)\<rparr>" "Fin 3000" "Fin 1000"
      blank_sysbox 0 4000]
    by (simp add: num_def n_sub_def n_le_def n_div_def small_nums empty_sample_def)
qed

subsection \<open>Optional rows\<close>

lemma rows_sections:
  "row_hidden (box (apply_cpu d s)) = row_hidden (box s)" "row_hidden (box (apply_net d s)) = row_hidden (box s)"
  "row_hidden (box (apply_disk d s)) = row_hidden (box s)" "row_hidden (box (apply_temp d s)) = row_hidden (box s)"
  "row_hidden (box (apply_info d s)) = row_hidden (box s)" "row_hidden (box (tickClock now s)) = row_hidden (box s)"
  by (simp_all add: apply_cpu_def apply_net_def apply_disk_def apply_temp_def apply_info_def tickClock_def
      Let_def split: option.splits prod.splits)

text \<open>
  After a sample each optional row is visible exactly when that very sample proves it: swap when the
  memory section has swap, the second disk, the power alarm and the clock when their sections are
  present; whatever was on screen before.
\<close>

theorem optional_rows_current:
  "let r = row_hidden (box (apply_sample now d s)) in
     (\<not> r ''sys-swap-row'' \<longleftrightarrow> (\<exists>m. mem d = Some m \<and> positive (total_kb m) \<and> positive (swap_total_kb m)))
   \<and> (\<not> r ''sys-disk2-row'' \<longleftrightarrow> (\<exists>q. disk_runtime d = Some q \<and> num (total_b q)))
   \<and> (\<not> r ''sys-power-row'' \<longleftrightarrow> (\<exists>p. power d = Some p \<and> psource p = ''hwmon-alarm''))
   \<and> (\<not> r ''sys-time-row'' \<longleftrightarrow> (\<exists>t. time d = Some t \<and> local_time t \<noteq> ''''))"
proof -
  define s1 where "s1 = apply_cpu d (on_box hideOptionalRows s)"
  have r1: "row_hidden (box s1) = (row_hidden (box s))(''sys-swap-row'' := True, ''sys-disk2-row'' := True,
      ''sys-power-row'' := True, ''sys-time-row'' := True)"
    by (simp add: s1_def rows_sections hideOptionalRows_def)
  have m: "row_hidden (box (apply_mem d s1)) = (if \<exists>m. mem d = Some m \<and> positive (total_kb m) \<and> positive (swap_total_kb m)
      then (row_hidden (box s1))(''sys-swap-row'' := False) else row_hidden (box s1))"
    by (auto simp: apply_mem_def apply_swap_def Let_def split: option.splits)
  have q: "row_hidden (box (apply_disk2 d v)) = (if \<exists>q. disk_runtime d = Some q \<and> num (total_b q)
      then (row_hidden (box v))(''sys-disk2-row'' := False) else row_hidden (box v))" for v
    by (auto simp: apply_disk2_def Let_def split: option.splits)
  have p: "row_hidden (box (apply_power d v)) = (if \<exists>p. power d = Some p \<and> psource p = ''hwmon-alarm''
      then (row_hidden (box v))(''sys-power-row'' := False) else row_hidden (box v))" for v
    by (auto simp: apply_power_def split: option.splits)
  have t: "row_hidden (box (apply_time now d v)) i = (if (\<exists>t. time d = Some t \<and> local_time t \<noteq> '''') \<and> i = ''sys-time-row''
      then False else row_hidden (box v) i)" if "i \<noteq> ''sys-time-hint''" "i \<noteq> ''sys-time-cmd''" for v i
    using that by (auto simp: apply_time_def rows_sections Let_def split: option.splits)
  show ?thesis
    unfolding apply_sample_def s1_def [symmetric] Let_def rows_sections
    by (simp add: rows_sections t p q m r1)
qed

subsection \<open>The clock\<close>

lemma round_num_int:
  assumes "\<bar>n\<bar> \<le> 2 ^ 53"
  shows "round_num (of_int n) = Fin (of_int n)"
proof -
  have "\<bar>of_int n :: rat\<bar> \<le> of_int (2 ^ 53)" using assms by (simp only: of_int_abs [symmetric] of_int_le_iff)
  then have "\<bar>fl (of_int n)\<bar> < 2 ^ 1024" using fl_int [OF assms] by simp
  from round_num_fin [OF this] show ?thesis by (simp add: fl_int [OF assms])
qed

lemma n_add_int: "\<bar>a + b\<bar> \<le> 2 ^ 53 \<Longrightarrow> n_add (Fin (of_int a)) (Fin (of_int b)) = Fin (of_int (a + b))"
  using round_num_int [of "a + b"] by simp

lemma trunc_int [simp]: "trunc_ms (Fin (of_int n)) = n"
  by (simp add: trunc_ms_def)

definition four_digit_year :: "int \<Rightarrow> bool" where
  "four_digit_year ms \<longleftrightarrow> (let (y, _, _) = civil (ms div 1000 div 86400) in 1000 \<le> y \<and> y < 10000)"

lemma tzOffset_stamps:
  assumes "four_digit_year (1000 * e)" and "four_digit_year (1000 * (e + off))" and "\<bar>off\<bar> \<le> 2 ^ 53"
  shows "tzOffsetSeconds (stamp (1000 * (e + off))) (stamp (1000 * e)) = off"
proof -
  have p: "parse_iso (replace_space (stamp (1000 * k)) @ ''Z'') = Some (1000 * k)" if "four_digit_year (1000 * k)" for k
    using that parse_stamp [of "1000 * k"] by (auto simp: four_digit_year_def split: prod.splits)
  have "fl (of_int (1000 * (e + off) - 1000 * e) / 1000) = of_int off"
    using fl_int [OF assms(3)] by simp
  moreover have "\<lfloor>of_int off + 1 / 2 :: rat\<rfloor> = off" by linarith
  ultimately show ?thesis
    unfolding tzOffsetSeconds_def p [OF assms(1)] p [OF assms(2)] prod.case option.case by simp
qed

lemma stamp_nonempty: "stamp ms \<noteq> ''''"
  by (simp add: stamp_def Let_def split_beta)

lemma clock_sections:
  "clock (apply_cpu d s) = clock s" "clock (apply_mem d s) = clock s" "clock (apply_net d s) = clock s"
  "clock (apply_disk d s) = clock s" "clock (apply_disk2 d s) = clock s" "clock (apply_temp d s) = clock s"
  "clock (apply_power d s) = clock s" "clock (apply_info d s) = clock s" "clock (tickClock now s) = clock s"
  by (simp_all add: apply_cpu_def apply_mem_def apply_swap_def apply_net_def apply_disk_def apply_disk2_def
      apply_temp_def apply_power_def apply_info_def tickClock_def Let_def split: option.splits prod.splits)

lemma clock_sample:
  assumes "time d = Some t" and "local_time t \<noteq> ''''" and "utc t \<noteq> ''''" and "num (epoch t)"
  shows "clock (apply_sample now d s) = \<lparr>skew = Some (n_sub (n_mul (epoch t) (Fin 1000)) (Fin (of_int now))),
    offset_s = tzOffsetSeconds (local_time t) (utc t), tz = tzname t\<rparr>"
  unfolding apply_sample_def clock_sections apply_time_def [of now d]
  using assms by (simp add: Let_def clock_sections)

text \<open>
  The clock runs on the server's time: after a sample that reports the server's time \<open>e\<close> and a zone
  offset, every later tick of the browser shows the server's instant advanced by the browser's
  elapsed time, in UTC and in the server's zone, whatever the browser's own clock and zone are.
\<close>

theorem clock_follows_server:
  assumes "time d = Some t" and "epoch t = Fin (of_int e)"
    and "local_time t = stamp (1000 * (e + off))" and "utc t = stamp (1000 * e)"
    and "four_digit_year (1000 * e)" and "four_digit_year (1000 * (e + off))"
    and "\<bar>e\<bar> \<le> 2 ^ 40" and "\<bar>off\<bar> \<le> 2 ^ 40" and "\<bar>now\<bar> \<le> 2 ^ 50" and "\<bar>later\<bar> \<le> 2 ^ 50"
  shows "let s' = tickClock later (apply_sample now d s) in
      texts (box s') ''sys-time-utc'' = stamp (1000 * e + (later - now)) @ '' UTC''
    \<and> texts (box s') ''sys-time-val'' =
        stamp (1000 * (e + off) + (later - now)) @ space_before (tzname t)"
proof -
  have ne: "local_time t \<noteq> ''''" "utc t \<noteq> ''''"
    using stamp_nonempty by (simp_all add: assms(3,4))
  have "n_mul (Fin (of_int e)) (Fin 1000) = Fin (of_int (1000 * e))"
    using round_num_int [of "1000 * e"] assms(7) by (simp add: n_mul_def mult.commute)
  then have skew: "n_sub (n_mul (epoch t) (Fin 1000)) (Fin (of_int now)) = Fin (of_int (1000 * e - now))"
    using n_add_int [of "1000 * e" "- now"] assms(2,7,9) by (simp add: n_sub_def)
  have off: "tzOffsetSeconds (local_time t) (utc t) = off"
    using tzOffset_stamps [OF assms(5,6)] assms(8) by (simp add: assms(3,4))
  let ?c = "\<lparr>skew = Some (Fin (of_int (1000 * e - now))), offset_s = off, tz = tzname t\<rparr>"
  have clock: "clock (apply_sample now d s) = ?c"
    using clock_sample [OF assms(1) ne, of now s] skew off by (simp add: num_def assms(2))
  have sum: "n_add (Fin (of_int later)) (Fin (of_int (1000 * e - now))) = Fin (of_int (1000 * e + (later - now)))"
    using n_add_int [of later "1000 * e - now"] assms(7,9,10) by (simp add: algebra_simps)
  have "n_add (Fin (of_int (1000 * e + (later - now)))) (Fin (of_int (off * 1000))) =
      Fin (of_int (1000 * (e + off) + (later - now)))"
    using n_add_int [of "1000 * e + (later - now)" "off * 1000"] assms(7-10) by (simp add: algebra_simps)
  with sum show ?thesis
    unfolding tickClock_def [of later] clock clock.simps option.case Let_def sum
    by (simp del: n_add.simps of_int_add of_int_diff of_int_mult)
qed

definition berlin :: time_sample where
  "berlin = \<lparr>local_time = ''2024-02-29 13:00:00'', utc = ''2024-02-29 12:00:00'', tzname = ''CET'',
     epoch = Fin 1709208000, tstate = ''green'', tlabel = ''ok'', hint = '''', hint_cmd = '''', tsource = ''ntp'',
     detail = '''', synced_age_s = NaN, maxerror_us = NaN, rtc_present = None\<rparr>"

theorem clock_follows_server_witness:
  "texts (box (tickClock 5000 (apply_sample 2000 (empty_sample\<lparr>time := Some berlin\<rparr>) blank_sysbox))) ''sys-time-utc''
    = ''2024-02-29 12:00:03 UTC''"
proof -
  have c: "civil 19782 = (2024, 2, 29)"
    by (simp add: civil_def year_split.simps ylen_def leap_def mlens_def)
  have "stamp (1000 * (1709208000 + 3600)) = ''2024-02-29 13:00:00''" "stamp (1000 * 1709208000) = ''2024-02-29 12:00:00''"
    "stamp (1000 * 1709208000 + (5000 - 2000)) = ''2024-02-29 12:00:03''"
    by (simp_all add: stamp_def c hms_def two_def show_nat.simps show_int_def digit_char_def)
  moreover have "four_digit_year (1000 * 1709208000)" "four_digit_year (1000 * (1709208000 + 3600))"
    by (simp_all add: four_digit_year_def c)
  ultimately show ?thesis
    using clock_follows_server [of "empty_sample\<lparr>time := Some berlin\<rparr>" berlin 1709208000 3600 2000 5000 blank_sysbox]
    by (simp add: berlin_def Let_def)
qed

subsection \<open>A disk of size zero\<close>

text \<open>
  The second disk lacks the guard of the first: for a file system that reports size zero (with
  nothing free) the row is shown and \<open>NaN\<close> enters its history, while the same report for the root
  disk is ignored.
\<close>

theorem disk2_zero_size_nan:
  assumes "disk_runtime d = Some q" and "total_b q = Fin 0" and "free_b q = Fin 0"
    and "disk_root d' = Some q"
  shows "last (h_disk2 (hist (apply_disk2 d s))) = NaN \<and> \<not> row_hidden (box (apply_disk2 d s)) ''sys-disk2-row''
    \<and> apply_disk d' s = s"
proof -
  have "disk_used q = NaN" using assms(2,3) by (simp add: disk_used_def n_div_def inf_of_def n_sgn_def n_sub_def n_mul_def)
  moreover have "last (pushHist xs v) = v" for xs v
    by (cases xs) (simp_all add: pushHist_def push_shift_def HIST_def Let_def)
  ultimately show ?thesis
    using assms by (simp add: apply_disk2_def apply_disk_def num_def positive_def Let_def)
qed

theorem disk2_zero_size_nan_witness:
  "last (h_disk2 (hist (apply_disk2 (empty_sample\<lparr>disk_runtime := Some \<lparr>total_b = Fin 0, free_b = Fin 0, level = '''',
      reason = '''', total_inodes = NaN, free_inodes = NaN\<rparr>\<rparr>) blank_sysbox))) = NaN"
  using disk2_zero_size_nan [of "empty_sample\<lparr>disk_runtime := Some \<lparr>total_b = Fin 0, free_b = Fin 0, level = '''',
      reason = '''', total_inodes = NaN, free_inodes = NaN\<rparr>\<rparr>" _ "empty_sample\<lparr>disk_root := Some \<lparr>total_b = Fin 0,
      free_b = Fin 0, level = '''', reason = '''', total_inodes = NaN, free_inodes = NaN\<rparr>\<rparr>" blank_sysbox]
  by simp

end
