(* ===== verification/Select.thy ===== *)
theory Select
  imports Prelude
begin

text \<open>
  The selection table of the auto-install page (second part of \<open>static/auto_install.js\<close>): forced and
  recommended dependencies, the master rows, and the channel rules for tests. A row's controls are
  options: \<open>None\<close> for a control the row does not have.
\<close>

subsection \<open>The table\<close>

record dep =
  dep_stack :: string
  mandatory :: bool
  ready :: bool

record checkbox =
  checked :: bool
  disabled :: bool

record version_select =
  options :: "string list"
  default_option :: "string option"
  version_value :: string

record table_row =
  sid :: string
  deps :: "dep list"
  testable :: bool
  txCapable :: bool
  tests_box :: "checkbox option"
  tx_box :: "checkbox option"
  version :: "version_select option"

text \<open>
  The Install boxes by stack, apart from the rows: they are what the dependency assistance changes.
\<close>

type_synonym boxes = "string \<rightharpoonup> checkbox"

definition row_by_id :: "table_row list \<Rightarrow> string \<Rightarrow> table_row option" where
  "row_by_id rows i = find (\<lambda>r. sid r = i) (rev rows)"

definition depsOf :: "table_row list \<Rightarrow> string \<Rightarrow> dep list" where
  "depsOf rows i = (case row_by_id rows i of None \<Rightarrow> [] | Some r \<Rightarrow> deps r)"

definition set_box :: "string \<Rightarrow> (checkbox \<Rightarrow> checkbox) \<Rightarrow> boxes \<Rightarrow> boxes" where
  "set_box i f b = (case b i of None \<Rightarrow> b | Some c \<Rightarrow> b(i \<mapsto> f c))"

definition is_checked :: "boxes \<Rightarrow> string \<Rightarrow> bool" where
  "is_checked b i \<longleftrightarrow> (case b i of Some c \<Rightarrow> checked c | None \<Rightarrow> False)"

definition is_disabled :: "boxes \<Rightarrow> string \<Rightarrow> bool" where
  "is_disabled b i \<longleftrightarrow> (case b i of Some c \<Rightarrow> disabled c | None \<Rightarrow> False)"

subsection \<open>Forced dependencies\<close>

definition forces :: "dep \<Rightarrow> bool" where
  "forces d \<longleftrightarrow> mandatory d \<and> \<not> ready d"

text \<open>The dependencies of one stack: the boxes forced, and the stacks pushed to the queue.\<close>

definition force_deps :: "string set \<Rightarrow> dep list \<Rightarrow> boxes \<times> string list \<Rightarrow> boxes \<times> string list" where
  "force_deps seen ds acc = foldl (\<lambda>(b, queue) d.
     if b (dep_stack d) \<noteq> None \<and> forces d
     then (set_box (dep_stack d) (\<lambda>c. c\<lparr>checked := True, disabled := True\<rparr>) b,
           if dep_stack d \<notin> seen then queue @ [dep_stack d] else queue)
     else (b, queue)) acc ds"

function force_loop :: "table_row list \<Rightarrow> string set \<Rightarrow> string list \<Rightarrow> boxes \<Rightarrow> boxes" where
  "force_loop rows seen [] b = b"
| "force_loop rows seen (i # queue) b =
     (if i \<in> seen then force_loop rows seen queue b
      else if i \<notin> sid ` set rows then force_loop rows (insert i seen) queue b
      else let (b', queue') = force_deps (insert i seen) (depsOf rows i) (b, queue)
           in force_loop rows (insert i seen) queue' b')"
  by pat_completeness auto
termination
proof (relation "measures [\<lambda>(rows, seen, queue, b). card (sid ` set rows - seen), \<lambda>(rows, seen, queue, b). length queue]")
  fix rows :: "table_row list" and seen i queue b x b' queue'
  assume "i \<notin> seen" "\<not> i \<notin> sid ` set rows"
  then have "sid ` set rows - insert i seen \<subset> sid ` set rows - seen" by blast
  then have "card (sid ` set rows - insert i seen) < card (sid ` set rows - seen)"
    by (intro psubset_card_mono) simp_all
  then show "((rows, insert i seen, queue', b'), rows, seen, i # queue, b)
    \<in> measures [\<lambda>(rows, seen, queue, b). card (sid ` set rows - seen), \<lambda>(rows, seen, queue, b). length queue]"
    by simp
qed auto

definition recompute :: "table_row list \<Rightarrow> boxes \<Rightarrow> boxes" where
  "recompute rows b =
     (let b1 = foldl (\<lambda>b r. set_box (sid r) (\<lambda>c. c\<lparr>disabled := False\<rparr>) b) b rows
      in force_loop rows {} (filter (is_checked b1) (map sid rows)) b1)"

subsection \<open>Recommended dependencies\<close>

text \<open>
  \<open>nudge\<close> recurses inside its loop over the dependencies; the model keeps the dependencies still to
  visit as a list, those of the stack just checked in front.
\<close>

function nudge_deps :: "table_row list \<Rightarrow> dep list \<Rightarrow> boxes \<Rightarrow> boxes" where
  "nudge_deps rows [] b = b"
| "nudge_deps rows (d # ds) b =
     (if forces d then nudge_deps rows ds b
      else if dep_stack d \<in> sid ` set rows \<and> b (dep_stack d) \<noteq> None
              \<and> \<not> is_disabled b (dep_stack d) \<and> \<not> is_checked b (dep_stack d)
      then nudge_deps rows (depsOf rows (dep_stack d) @ ds)
             (set_box (dep_stack d) (\<lambda>c. c\<lparr>checked := True\<rparr>) b)
      else nudge_deps rows ds b)"
  by pat_completeness auto
termination
proof (relation "measures [\<lambda>(rows, ds, b). card {i \<in> sid ` set rows. \<not> is_checked b i}, \<lambda>(rows, ds, b). length ds]")
  fix rows :: "table_row list" and d :: dep and ds :: "dep list" and b :: boxes
  let ?b = "set_box (dep_stack d) (\<lambda>c. c\<lparr>checked := True\<rparr>) b"
  assume "dep_stack d \<in> sid ` set rows \<and> b (dep_stack d) \<noteq> None
    \<and> \<not> is_disabled b (dep_stack d) \<and> \<not> is_checked b (dep_stack d)"
  then have "{i \<in> sid ` set rows. \<not> is_checked ?b i} \<subset> {i \<in> sid ` set rows. \<not> is_checked b i}"
    by (auto simp: is_checked_def set_box_def split: option.splits if_splits)
  then show "((rows, depsOf rows (dep_stack d) @ ds, ?b), rows, d # ds, b)
    \<in> measures [\<lambda>(rows, ds, b). card {i \<in> sid ` set rows. \<not> is_checked b i}, \<lambda>(rows, ds, b). length ds]"
    by (simp add: psubset_card_mono)
qed auto

definition nudge :: "table_row list \<Rightarrow> string \<Rightarrow> boxes \<Rightarrow> boxes" where
  "nudge rows i b = nudge_deps rows (depsOf rows i) b"

text \<open>The user sets the Install box of a row; the browser allows it on an enabled box only.\<close>

definition install_changed :: "table_row list \<Rightarrow> string \<Rightarrow> bool \<Rightarrow> boxes \<Rightarrow> boxes" where
  "install_changed rows i value b =
     (let b1 = set_box i (\<lambda>c. c\<lparr>checked := value\<rparr>) b;
          b2 = (if value then nudge rows i b1 else b1)
      in recompute rows b2)"

definition all_install :: "table_row list \<Rightarrow> bool \<Rightarrow> boxes \<Rightarrow> boxes" where
  "all_install rows value b =
     recompute rows (foldl (\<lambda>b r. if is_disabled b (sid r) then b
        else set_box (sid r) (\<lambda>c. c\<lparr>checked := value\<rparr>) b) b rows)"

text \<open>Submitting enables the boxes that are disabled and checked; a disabled box is not posted.\<close>

definition submit :: "table_row list \<Rightarrow> boxes \<Rightarrow> boxes" where
  "submit rows b = foldl (\<lambda>b r. if is_disabled b (sid r) \<and> is_checked b (sid r)
     then set_box (sid r) (\<lambda>c. c\<lparr>disabled := False\<rparr>) b else b) b rows"

definition posted :: "boxes \<Rightarrow> string set" where
  "posted b = {i. is_checked b i \<and> \<not> is_disabled b i}"

subsection \<open>Channels\<close>

definition sync_box :: "bool \<Rightarrow> bool \<Rightarrow> checkbox \<Rightarrow> checkbox" where
  "sync_box binary capable c =
     (let off = binary \<or> \<not> capable in c\<lparr>disabled := off, checked := checked c \<and> \<not> off\<rparr>)"

definition row_binary :: "table_row \<Rightarrow> bool" where
  "row_binary r \<longleftrightarrow> (case version r of Some v \<Rightarrow> version_value v = ''binary'' | None \<Rightarrow> False)"

definition syncRowChannel :: "table_row \<Rightarrow> table_row" where
  "syncRowChannel r =
     r\<lparr>tests_box := map_option (sync_box (row_binary r) (testable r)) (tests_box r),
       tx_box := map_option (sync_box (row_binary r) (txCapable r)) (tx_box r)\<rparr>"

definition syncAllChannels :: "table_row list \<Rightarrow> table_row list" where
  "syncAllChannels rows = map syncRowChannel rows"

text \<open>The master version row: a value the row's list lacks leaves the row alone.\<close>

definition master_version :: "string \<Rightarrow> version_select \<Rightarrow> version_select" where
  "master_version m v =
     (if m = ''default'' then (case default_option v of Some d \<Rightarrow> v\<lparr>version_value := d\<rparr> | None \<Rightarrow> v)
      else if m \<in> set (options v) then v\<lparr>version_value := m\<rparr> else v)"

definition all_version :: "string \<Rightarrow> table_row list \<Rightarrow> table_row list" where
  "all_version m rows =
     (if m = '''' then rows
      else syncAllChannels (map (\<lambda>r. r\<lparr>version := map_option (master_version m) (version r)\<rparr>) rows))"

definition version_changed :: "string \<Rightarrow> string \<Rightarrow> table_row list \<Rightarrow> table_row list" where
  "version_changed i value rows = map (\<lambda>r. if sid r = i
     then syncRowChannel (r\<lparr>version := map_option (\<lambda>v. v\<lparr>version_value := value\<rparr>) (version r)\<rparr>) else r) rows"

definition set_enabled :: "bool \<Rightarrow> checkbox \<Rightarrow> checkbox" where
  "set_enabled value c = (if disabled c then c else c\<lparr>checked := value\<rparr>)"

definition all_tests :: "bool \<Rightarrow> table_row list \<Rightarrow> table_row list" where
  "all_tests value rows = map (\<lambda>r. r\<lparr>tests_box := map_option (set_enabled value) (tests_box r)\<rparr>) rows"

definition all_tx :: "bool \<Rightarrow> table_row list \<Rightarrow> table_row list" where
  "all_tx value rows = map (\<lambda>r. r\<lparr>tx_box := map_option (set_enabled value) (tx_box r)\<rparr>) rows"

end
