(* ===== verification/Select_Props.thy ===== *)
theory Select_Props
  imports Select
begin

text \<open>
  The dependency assistance computes exactly the closure it is meant to compute, the recommendations
  only ever add, a binary channel and host tests exclude each other, and what is posted is what is
  checked.
\<close>

subsection \<open>Forced dependencies are the closure\<close>

definition force_edge :: "table_row list \<Rightarrow> boxes \<Rightarrow> string \<Rightarrow> string \<Rightarrow> bool" where
  "force_edge rows b i j \<longleftrightarrow> i \<in> sid ` set rows \<and> b j \<noteq> None
     \<and> (\<exists>d \<in> set (depsOf rows i). dep_stack d = j \<and> forces d)"

definition needed :: "table_row list \<Rightarrow> boxes \<Rightarrow> string \<Rightarrow> bool" where
  "needed rows b j \<longleftrightarrow> (\<exists>i. is_checked b i \<and> (force_edge rows b)\<^sup>*\<^sup>* i j)"

lemma set_box_dom [simp]: "dom (set_box i f b) = dom b"
  by (auto simp: set_box_def split: option.splits)

lemma set_box_None [simp]: "set_box i f b j = None \<longleftrightarrow> b j = None"
  by (auto simp: set_box_def split: option.splits)

lemma is_checked_set_box: "is_checked (set_box i f b) j =
    (if i = j \<and> b j \<noteq> None then checked (f (the (b j))) else is_checked b j)"
  by (auto simp: is_checked_def set_box_def split: option.splits)

lemma is_disabled_set_box: "is_disabled (set_box i f b) j =
    (if i = j \<and> b j \<noteq> None then disabled (f (the (b j))) else is_disabled b j)"
  by (auto simp: is_disabled_def set_box_def split: option.splits)

lemmas set_box_simps = is_checked_set_box is_disabled_set_box

definition forced_in :: "dep list \<Rightarrow> boxes \<Rightarrow> string set" where
  "forced_in ds b = {dep_stack d | d. d \<in> set ds \<and> b (dep_stack d) \<noteq> None \<and> forces d}"

lemma force_deps_spec:
  assumes "force_deps seen ds (b, q) = (b', q')"
  shows "dom b' = dom b \<and> (\<forall>j. is_checked b' j \<longleftrightarrow> is_checked b j \<or> j \<in> forced_in ds b)
    \<and> (\<forall>j. is_disabled b' j \<longleftrightarrow> is_disabled b j \<or> j \<in> forced_in ds b)
    \<and> set q' = set q \<union> (forced_in ds b - seen)"
  using assms
proof (induction ds arbitrary: b' q' rule: rev_induct)
  case Nil
  then show ?case by (simp add: force_deps_def forced_in_def)
next
  case (snoc d ds)
  obtain b1 q1 where before: "force_deps seen ds (b, q) = (b1, q1)" by fastforce
  note IH = snoc.IH [OF before]
  have n: "b1 j = None \<longleftrightarrow> b j = None" for j using IH by (metis domIff)
  have F: "forced_in (ds @ [d]) b = forced_in ds b
      \<union> (if b (dep_stack d) \<noteq> None \<and> forces d then {dep_stack d} else {})"
    by (auto simp: forced_in_def)
  have run: "(if b1 (dep_stack d) \<noteq> None \<and> forces d
     then (set_box (dep_stack d) (\<lambda>c. c\<lparr>checked := True, disabled := True\<rparr>) b1,
           if dep_stack d \<notin> seen then q1 @ [dep_stack d] else q1) else (b1, q1)) = (b', q')"
    using snoc.prems before by (simp add: force_deps_def)
  show ?case
  proof (cases "b (dep_stack d) \<noteq> None \<and> forces d")
    case True
    with run n have "b' = set_box (dep_stack d) (\<lambda>c. c\<lparr>checked := True, disabled := True\<rparr>) b1"
      "q' = (if dep_stack d \<notin> seen then q1 @ [dep_stack d] else q1)" by (auto split: if_splits)
    with IH True n show ?thesis unfolding F by (auto simp: set_box_simps)
  next
    case False
    with run n have "b' = b1" "q' = q1" by (auto split: if_splits)
    with IH False show ?thesis unfolding F by auto
  qed
qed

definition loop_inv :: "table_row list \<Rightarrow> boxes \<Rightarrow> string set \<Rightarrow> string list \<Rightarrow> boxes \<Rightarrow> bool" where
  "loop_inv rows b0 seen queue b \<longleftrightarrow>
     dom b = dom b0
   \<and> (\<forall>j. is_checked b0 j \<longrightarrow> is_checked b j \<and> j \<in> seen \<union> set queue)
   \<and> (\<forall>j. is_checked b j \<longrightarrow> needed rows b0 j)
   \<and> (\<forall>j \<in> seen \<union> set queue. needed rows b0 j)
   \<and> (\<forall>i \<in> seen. \<forall>j. force_edge rows b0 i j \<longrightarrow> is_checked b j \<and> is_disabled b j \<and> j \<in> seen \<union> set queue)
   \<and> (\<forall>j. is_disabled b j \<longrightarrow> (\<exists>i \<in> seen. force_edge rows b0 i j))"

lemma loop_inv_visit:
  assumes "loop_inv rows b0 seen (i # queue) b" and "i \<notin> seen" and "i \<in> sid ` set rows"
    and "force_deps (insert i seen) (depsOf rows i) (b, queue) = (b', queue')"
  shows "loop_inv rows b0 (insert i seen) queue' b'"
proof -
  note s = force_deps_spec [OF assms(4)]
  have n: "b j = None \<longleftrightarrow> b0 j = None" for j using assms(1) by (metis domIff loop_inv_def)
  have F: "forced_in (depsOf rows i) b = {j. force_edge rows b0 i j}"
    using assms(3) n by (auto simp: forced_in_def force_edge_def)
  note s = s [unfolded F]
  have need: "needed rows b0 i" using assms(1) by (simp add: loop_inv_def)
  have "needed rows b0 j" if "force_edge rows b0 i j" for j
    using need that unfolding needed_def by (meson rtranclp.rtrancl_into_rtrancl)
  note needs = this
  show ?thesis unfolding loop_inv_def
  proof (intro conjI)
    show "dom b' = dom b0" using assms(1) s by (simp add: loop_inv_def)
    show "\<forall>j. is_checked b0 j \<longrightarrow> is_checked b' j \<and> j \<in> insert i seen \<union> set queue'"
      using assms(1) s by (auto simp: loop_inv_def)
    show "\<forall>j. is_checked b' j \<longrightarrow> needed rows b0 j" using assms(1) s needs by (auto simp: loop_inv_def)
    show "\<forall>j \<in> insert i seen \<union> set queue'. needed rows b0 j"
      using assms(1) s needs need by (auto simp: loop_inv_def)
    show "\<forall>k \<in> insert i seen. \<forall>j. force_edge rows b0 k j \<longrightarrow>
        is_checked b' j \<and> is_disabled b' j \<and> j \<in> insert i seen \<union> set queue'"
      using assms(1) s by (auto simp: loop_inv_def)
    show "\<forall>j. is_disabled b' j \<longrightarrow> (\<exists>k \<in> insert i seen. force_edge rows b0 k j)"
      using assms(1) s by (auto simp: loop_inv_def)
  qed
qed

lemma loop_inv_skip:
  assumes "loop_inv rows b0 seen (i # queue) b" and "i \<in> seen \<or> i \<notin> sid ` set rows"
  shows "loop_inv rows b0 (insert i seen) queue b"
proof -
  have none: "\<not> force_edge rows b0 i j" if "i \<notin> seen" for j
    using assms(2) that by (auto simp: force_edge_def)
  have sets: "insert i seen \<union> set queue = seen \<union> set (i # queue)" by auto
  have "(\<exists>k \<in> insert i seen. force_edge rows b0 k j) \<longleftrightarrow> (\<exists>k \<in> seen. force_edge rows b0 k j)" for j
    using none by blast
  moreover have "force_edge rows b0 k j \<Longrightarrow> k \<in> insert i seen \<Longrightarrow> k \<in> seen" for k j using none by blast
  ultimately show ?thesis using assms(1) unfolding loop_inv_def sets by blast
qed

lemma force_loop_inv: "loop_inv rows b0 seen queue b \<Longrightarrow>
    \<exists>seen'. loop_inv rows b0 seen' [] (force_loop rows seen queue b)"
proof (induction rows seen queue b rule: force_loop.induct)
  case (1 rows seen b)
  then show ?case by auto
next
  case (2 rows seen i queue b)
  show ?case
  proof (cases "i \<in> seen \<or> i \<notin> sid ` set rows")
    case True
    with loop_inv_skip [OF "2.prems"] have "loop_inv rows b0 (insert i seen) queue b" by blast
    with True 2 show ?thesis by (cases "i \<in> seen") (simp_all add: insert_absorb)
  next
    case False
    obtain b' queue' where f: "force_deps (insert i seen) (depsOf rows i) (b, queue) = (b', queue')" by fastforce
    with False loop_inv_visit [OF "2.prems" _ _ f] 2 show ?thesis by auto
  qed
qed

lemma force_loop_closure:
  assumes "\<forall>j. \<not> is_disabled b j" and "\<forall>j. is_checked b j \<longrightarrow> j \<in> set queue" and "\<forall>j \<in> set queue. is_checked b j"
  shows "let b' = force_loop rows {} queue b in dom b' = dom b
    \<and> (\<forall>j. is_checked b' j \<longleftrightarrow> needed rows b j)
    \<and> (\<forall>j. is_disabled b' j \<longleftrightarrow> (\<exists>i. needed rows b i \<and> force_edge rows b i j))"
proof -
  have "loop_inv rows b {} queue b"
    using assms unfolding loop_inv_def needed_def by blast
  then obtain seen where inv: "loop_inv rows b seen [] (force_loop rows {} queue b)"
    using force_loop_inv by blast
  have seen: "j \<in> seen" if "needed rows b j" for j
  proof -
    from that obtain i where i: "is_checked b i" "(force_edge rows b)\<^sup>*\<^sup>* i j" by (auto simp: needed_def)
    from i(1) inv have "i \<in> seen" by (auto simp: loop_inv_def)
    with i(2) show ?thesis by (induction rule: rtranclp_induct) (use inv in \<open>auto simp: loop_inv_def\<close>)
  qed
  have "is_checked (force_loop rows {} queue b) j" if n: "needed rows b j" for j
  proof -
    from n obtain i where i: "is_checked b i" "(force_edge rows b)\<^sup>*\<^sup>* i j" by (auto simp: needed_def)
    from i(2) show ?thesis
    proof (cases rule: rtranclp.cases)
      case rtrancl_refl
      with i(1) inv show ?thesis by (auto simp: loop_inv_def)
    next
      case (rtrancl_into_rtrancl k)
      with i(1) have "k \<in> seen" by (intro seen) (auto simp: needed_def)
      with rtrancl_into_rtrancl inv show ?thesis by (auto simp: loop_inv_def)
    qed
  qed
  with inv seen show ?thesis unfolding loop_inv_def Let_def by blast
qed

lemma clear_disabled:
  "dom (foldl (\<lambda>b r. set_box (sid r) (\<lambda>c. c\<lparr>disabled := False\<rparr>) b) b rows) = dom b
   \<and> is_checked (foldl (\<lambda>b r. set_box (sid r) (\<lambda>c. c\<lparr>disabled := False\<rparr>) b) b rows) j = is_checked b j
   \<and> is_disabled (foldl (\<lambda>b r. set_box (sid r) (\<lambda>c. c\<lparr>disabled := False\<rparr>) b) b rows) j
     = (is_disabled b j \<and> j \<notin> sid ` set rows)"
proof (induction rows arbitrary: b)
  case (Cons r rows)
  show ?case unfolding foldl_Cons
    by (simp add: Cons.IH [of "set_box (sid r) (\<lambda>c. c\<lparr>disabled := False\<rparr>) b"])
      (auto simp: set_box_simps, auto simp: is_checked_def is_disabled_def split: option.splits)
qed simp

lemma disabled_in_dom: "is_disabled b j \<Longrightarrow> j \<in> dom b"
  by (auto simp: is_disabled_def split: option.splits)

lemma checked_in_dom: "is_checked b j \<Longrightarrow> j \<in> dom b"
  by (auto simp: is_checked_def split: option.splits)

lemma force_edge_cong: "dom b = dom c \<Longrightarrow> force_edge rows b = force_edge rows c"
  by (intro ext) (auto simp: force_edge_def domIff set_eq_iff)

lemma needed_cong: "dom b = dom c \<Longrightarrow> is_checked b = is_checked c \<Longrightarrow> needed rows b = needed rows c"
  by (intro ext) (simp add: needed_def force_edge_cong [of b c])

lemma recompute_spec:
  assumes "dom b \<subseteq> sid ` set rows"
  shows "dom (recompute rows b) = dom b
    \<and> (\<forall>j. is_checked (recompute rows b) j \<longleftrightarrow> needed rows b j)
    \<and> (\<forall>j. is_disabled (recompute rows b) j \<longleftrightarrow> (\<exists>i. needed rows b i \<and> force_edge rows b i j))"
proof -
  define b1 where "b1 = foldl (\<lambda>b r. set_box (sid r) (\<lambda>c. c\<lparr>disabled := False\<rparr>) b) b rows"
  note c = clear_disabled [where b = b and rows = rows, folded b1_def]
  have dom1: "dom b1 = dom b" and chk: "is_checked b1 = is_checked b" using c by auto
  have off: "\<not> is_disabled b1 j" for j using c [of j] assms disabled_in_dom [of b j] by auto
  have q: "\<forall>j. is_checked b1 j \<longleftrightarrow> j \<in> set (filter (is_checked b1) (map sid rows))"
    using assms checked_in_dom [of b1] dom1 by fastforce
  have r: "recompute rows b = force_loop rows {} (filter (is_checked b1) (map sid rows)) b1"
    by (simp add: recompute_def b1_def Let_def)
  show ?thesis
    using force_loop_closure [of b1 "filter (is_checked b1) (map sid rows)" rows, OF _ _ _] off q
    unfolding r needed_cong [OF dom1 chk] force_edge_cong [OF dom1] dom1 Let_def by blast
qed

definition sample_rows :: "table_row list" where
  "sample_rows = [
     \<lparr>sid = ''chat'', deps = [\<lparr>dep_stack = ''radio'', mandatory = True, ready = False\<rparr>,
        \<lparr>dep_stack = ''maps'', mandatory = False, ready = False\<rparr>],
      testable = True, txCapable = True, tests_box = None, tx_box = None, version = None\<rparr>,
     \<lparr>sid = ''radio'', deps = [], testable = True, txCapable = False, tests_box = Some \<lparr>checked = True, disabled = False\<rparr>,
      tx_box = None, version = Some \<lparr>options = [''source'', ''binary''], default_option = Some ''source'', version_value = ''source''\<rparr>\<rparr>,
     \<lparr>sid = ''maps'', deps = [], testable = False, txCapable = False, tests_box = None, tx_box = None, version = None\<rparr>]"

definition sample_boxes :: boxes where
  "sample_boxes = [''chat'' \<mapsto> \<lparr>checked = True, disabled = False\<rparr>,
     ''radio'' \<mapsto> \<lparr>checked = False, disabled = False\<rparr>, ''maps'' \<mapsto> \<lparr>checked = False, disabled = True\<rparr>]"

lemma sample_rows_dom: "dom sample_boxes \<subseteq> sid ` set sample_rows"
  by (auto simp: sample_boxes_def sample_rows_def split: if_splits)

lemma sample_needed: "needed sample_rows sample_boxes ''radio''"
proof -
  have "force_edge sample_rows sample_boxes ''chat'' ''radio''"
    by (simp add: force_edge_def sample_rows_def sample_boxes_def depsOf_def row_by_id_def forces_def)
  moreover have "is_checked sample_boxes ''chat''" by (simp add: is_checked_def sample_boxes_def)
  ultimately show ?thesis unfolding needed_def by blast
qed

lemma submit_spec:
  "is_checked (submit rows b) j = is_checked b j
   \<and> is_disabled (submit rows b) j = (is_disabled b j \<and> \<not> (is_checked b j \<and> j \<in> sid ` set rows))"
proof (induction rows arbitrary: b)
  case (Cons r rows)
  let ?b = "if is_disabled b (sid r) \<and> is_checked b (sid r)
     then set_box (sid r) (\<lambda>c. c\<lparr>disabled := False\<rparr>) b else b"
  have "submit (r # rows) b = submit rows ?b" by (simp add: submit_def)
  then show ?case using Cons.IH [of ?b]
    by (auto simp: set_box_simps) (auto simp: is_checked_def is_disabled_def split: option.splits)
qed (simp add: submit_def)

text \<open>
  C17. The selection assistance computes the closure: whatever the boxes were, after \<open>recompute\<close> a
  stack is checked exactly if it is reachable from a stack that was checked over mandatory
  dependencies that are not ready, and its box is locked exactly if such a dependency points at it.
  So a box locked by a stack that is no longer needed is released. Submitting then posts exactly that
  closure, locked boxes included, although a browser does not post a disabled control.
\<close>

theorem recompute_closure:
  assumes "dom b \<subseteq> sid ` set rows"
  shows "(\<forall>j. is_checked (recompute rows b) j \<longleftrightarrow> needed rows b j)
    \<and> (\<forall>j. is_disabled (recompute rows b) j \<longleftrightarrow> (\<exists>i. needed rows b i \<and> force_edge rows b i j))
    \<and> posted (submit rows (recompute rows b)) = {j. needed rows b j}"
proof -
  note r = recompute_spec [OF assms]
  have "j \<in> sid ` set rows" if "is_checked (recompute rows b) j" for j
    using checked_in_dom [OF that] r assms by auto
  then have "posted (submit rows (recompute rows b)) = {j. is_checked (recompute rows b) j}"
    by (simp add: posted_def submit_spec del: imp_disjL) blast
  then show ?thesis using r by simp
qed

lemma recompute_closure_witness:
  "''radio'' \<in> posted (submit sample_rows (recompute sample_rows sample_boxes))"
  using recompute_closure [OF sample_rows_dom] sample_needed by simp

subsection \<open>Recommendations\<close>

lemma nudge_deps_mono: "dom (nudge_deps rows ds b) = dom b
    \<and> is_disabled (nudge_deps rows ds b) = is_disabled b
    \<and> (is_checked b j \<longrightarrow> is_checked (nudge_deps rows ds b) j)"
proof (induction rows ds b rule: nudge_deps.induct)
  case (2 rows d ds b)
  have "is_disabled (set_box i (\<lambda>c. c\<lparr>checked := True\<rparr>) b) = is_disabled b" for i
    by (intro ext) (auto simp: is_disabled_def set_box_def split: option.splits)
  with 2 show ?case by (simp add: is_checked_set_box)
qed simp

text \<open>The recommendations a stack makes are followed: a box that can be changed is checked.\<close>

definition followed :: "table_row list \<Rightarrow> dep list \<Rightarrow> boxes \<Rightarrow> bool" where
  "followed rows ds b \<longleftrightarrow> (\<forall>d \<in> set ds. \<not> forces d \<and> dep_stack d \<in> sid ` set rows
     \<and> b (dep_stack d) \<noteq> None \<and> \<not> is_disabled b (dep_stack d) \<longrightarrow> is_checked b (dep_stack d))"

lemma followed_mono:
  assumes "followed rows ds b"
  shows "followed rows ds (nudge_deps rows ds' b)"
proof -
  have "dom (nudge_deps rows ds' b) = dom b" "is_disabled (nudge_deps rows ds' b) = is_disabled b"
    using nudge_deps_mono by blast+
  with assms show ?thesis unfolding followed_def using nudge_deps_mono by (metis domIff)
qed

lemma nudge_deps_closed: "followed rows ds (nudge_deps rows ds b)
    \<and> (\<forall>k. is_checked (nudge_deps rows ds b) k \<longrightarrow> is_checked b k
        \<or> followed rows (depsOf rows k) (nudge_deps rows ds b))"
proof (induction rows ds b rule: nudge_deps.induct)
  case (1 rows b)
  then show ?case by (simp add: followed_def)
next
  case (2 rows d ds b)
  let ?b = "set_box (dep_stack d) (\<lambda>c. c\<lparr>checked := True\<rparr>) b"
  have head: "followed rows (d # ds) c"
    if "followed rows [d] c" "followed rows ds c" for c using that by (simp add: followed_def)
  consider "forces d" | "\<not> forces d"
      "dep_stack d \<in> sid ` set rows \<and> b (dep_stack d) \<noteq> None
              \<and> \<not> is_disabled b (dep_stack d) \<and> \<not> is_checked b (dep_stack d)"
    | "\<not> forces d" "\<not> (dep_stack d \<in> sid ` set rows \<and> b (dep_stack d) \<noteq> None
              \<and> \<not> is_disabled b (dep_stack d) \<and> \<not> is_checked b (dep_stack d))" by blast
  then show ?case
  proof cases
    case 1
    with "2.IH"(1) show ?thesis by (simp add: followed_def)
  next
    case 2
    let ?n = "nudge_deps rows (depsOf rows (dep_stack d) @ ds) ?b"
    have run: "nudge_deps rows (d # ds) b = ?n" using 2 by simp
    note IH = "2.IH"(2) [OF 2]
    have "is_checked ?b (dep_stack d)" using 2 by (simp add: is_checked_set_box)
    then have "is_checked ?n (dep_stack d)" using nudge_deps_mono by blast
    then have "followed rows [d] ?n" by (simp add: followed_def)
    moreover have "followed rows (depsOf rows (dep_stack d)) ?n" "followed rows ds ?n"
      using IH by (auto simp: followed_def)
    moreover have "is_checked ?b k \<Longrightarrow> k = dep_stack d \<or> is_checked b k" for k
      by (auto simp: is_checked_set_box split: if_splits)
    ultimately show ?thesis unfolding run using IH head by metis
  next
    case 3
    have run: "nudge_deps rows (d # ds) b = nudge_deps rows ds b" using 3 by auto
    have "followed rows [d] b" using 3 by (auto simp: followed_def)
    then have "followed rows [d] (nudge_deps rows ds b)" by (rule followed_mono)
    with "2.IH"(3) [OF 3] head show ?thesis unfolding run by metis
  qed
qed

text \<open>
  A recommendation only ever adds: checking a stack unchecks and locks nothing, and it follows
  every recommendation of that stack and of each stack it newly checked, whose box can be changed.
\<close>

theorem nudge_follows_recommendations:
  assumes "k = i \<or> is_checked (nudge rows i b) k \<and> \<not> is_checked b k"
  shows "is_disabled (nudge rows i b) = is_disabled b
    \<and> {j. is_checked b j} \<subseteq> {j. is_checked (nudge rows i b) j}
    \<and> followed rows (depsOf rows k) (nudge rows i b)"
  using assms nudge_deps_mono [of rows "depsOf rows i" b] nudge_deps_closed [of rows "depsOf rows i" b]
  unfolding nudge_def by auto

lemma nudge_follows_recommendations_witness:
  "followed sample_rows (depsOf sample_rows ''chat'') (nudge sample_rows ''chat'' sample_boxes)"
  using nudge_follows_recommendations [of "''chat''" "''chat''" sample_rows sample_boxes] by simp

subsection \<open>Channels and host tests\<close>

text \<open>What the operator can do to the lower columns: the rows' own controls and the master row's.\<close>

datatype table_event =
    Version string string
  | AllVersion string
  | AllTests bool
  | AllTx bool
  | Tests string bool
  | Tx string bool

definition table_step :: "table_event \<Rightarrow> table_row list \<Rightarrow> table_row list" where
  "table_step e rows = (case e of
     Version i v \<Rightarrow> version_changed i v rows
   | AllVersion m \<Rightarrow> all_version m rows
   | AllTests v \<Rightarrow> all_tests v rows
   | AllTx v \<Rightarrow> all_tx v rows
   | Tests i v \<Rightarrow> map (\<lambda>r. if sid r = i then r\<lparr>tests_box := map_option (set_enabled v) (tests_box r)\<rparr> else r) rows
   | Tx i v \<Rightarrow> map (\<lambda>r. if sid r = i then r\<lparr>tx_box := map_option (set_enabled v) (tx_box r)\<rparr> else r) rows)"

definition box_off :: "checkbox option \<Rightarrow> bool" where
  "box_off c = (case c of None \<Rightarrow> True | Some b \<Rightarrow> disabled b \<and> \<not> checked b)"

definition consistent_row :: "table_row \<Rightarrow> bool" where
  "consistent_row r \<longleftrightarrow> (row_binary r \<or> \<not> testable r \<longrightarrow> box_off (tests_box r))
     \<and> (row_binary r \<or> \<not> txCapable r \<longrightarrow> box_off (tx_box r))"

lemma consistent_sync [intro, simp]: "consistent_row (syncRowChannel r)"
  by (auto simp: consistent_row_def syncRowChannel_def sync_box_def row_binary_def box_off_def Let_def
      split: option.splits)

lemma box_off_enabled [simp]: "box_off c \<Longrightarrow> box_off (map_option (set_enabled v) c)"
  by (auto simp: box_off_def set_enabled_def split: option.splits)

lemma consistent_enabled:
  "consistent_row r \<Longrightarrow> consistent_row (r\<lparr>tests_box := map_option (set_enabled v) (tests_box r)\<rparr>)"
  "consistent_row r \<Longrightarrow> consistent_row (r\<lparr>tx_box := map_option (set_enabled v) (tx_box r)\<rparr>)"
  by (auto simp: consistent_row_def row_binary_def)

lemma consistent_step: "list_all consistent_row rows \<Longrightarrow> list_all consistent_row (table_step e rows)"
  by (cases e) (auto simp: table_step_def list_all_iff version_changed_def all_version_def syncAllChannels_def
      all_tests_def all_tx_def consistent_enabled)

text \<open>
  A binary install never has host tests: from the initial synchronisation on, whatever the operator
  does to the channel selects, the test boxes and the master row, a row on the binary channel (or a row
  that is not testable) has its tests unchecked and locked, and its transmit test too.
\<close>

theorem binary_excludes_tests:
  assumes "r \<in> set (fold table_step events (syncAllChannels rows))"
  shows "(row_binary r \<or> \<not> testable r \<longrightarrow> box_off (tests_box r))
    \<and> (row_binary r \<or> \<not> txCapable r \<longrightarrow> box_off (tx_box r))"
proof -
  have "list_all consistent_row (fold table_step events rs)" if "list_all consistent_row rs" for rs
    using that by (induction events arbitrary: rs) (simp_all add: consistent_step)
  moreover have "list_all consistent_row (syncAllChannels rows)"
    by (simp add: syncAllChannels_def list_all_iff)
  ultimately have "list_all consistent_row (fold table_step events (syncAllChannels rows))" by blast
  with assms have "consistent_row r" unfolding list_all_iff by blast
  then show ?thesis unfolding consistent_row_def .
qed

definition sample_run :: "table_row list" where
  "sample_run = fold table_step [Version ''radio'' ''binary'', AllTests True] (syncAllChannels sample_rows)"

lemma sample_run_radio: "length sample_run = 3 \<and> row_binary (sample_run ! 1)"
  by (simp add: sample_run_def table_step_def version_changed_def all_tests_def syncAllChannels_def
      sample_rows_def syncRowChannel_def row_binary_def)

lemma binary_excludes_tests_witness: "box_off (tests_box (sample_run ! 1))"
  using binary_excludes_tests [of "sample_run ! 1" "[Version ''radio'' ''binary'', AllTests True]" sample_rows,
      folded sample_run_def, OF nth_mem] sample_run_radio by simp

end
