(* ===== verification/Select_Loop.thy ===== *)
theory Select_Loop
  imports Select_Props "HOL-Library.While_Combinator"
begin

text \<open>
  The \<open>while\<close> loop of \<open>recompute\<close> as the code runs it: one pass of its body at a time, on the stacks
  seen, the queue and the boxes. The dependencies may form cycles, so the queue grows while it is read;
  the loop ends because a stack is expanded once. The bound counts the passes: a pass takes one stack
  from the queue, and only the first visit of a row appends to it, at most once per dependency.
\<close>

type_synonym force_state = "string set \<times> string list \<times> boxes"

fun force_step :: "table_row list \<Rightarrow> force_state \<Rightarrow> force_state" where
  "force_step rows (seen, [], b) = (seen, [], b)"
| "force_step rows (seen, i # queue, b) =
     (if i \<in> seen then (seen, queue, b)
      else if i \<notin> sid ` set rows then (insert i seen, queue, b)
      else let (b', queue') = force_deps (insert i seen) (depsOf rows i) (b, queue)
           in (insert i seen, queue', b'))"

fun queue_left :: "force_state \<Rightarrow> bool" where
  "queue_left (seen, queue, b) \<longleftrightarrow> queue \<noteq> []"

definition force_start :: "table_row list \<Rightarrow> boxes \<Rightarrow> force_state" where
  "force_start rows b =
     (let b1 = foldl (\<lambda>b r. set_box (sid r) (\<lambda>c. c\<lparr>disabled := False\<rparr>) b) b rows
      in ({}, filter (is_checked b1) (map sid rows), b1))"

fun force_end :: "table_row list \<Rightarrow> force_state \<Rightarrow> boxes" where
  "force_end rows (seen, queue, b) = force_loop rows seen queue b"

fun work_left :: "table_row list \<Rightarrow> force_state \<Rightarrow> nat" where
  "work_left rows (seen, queue, b) = length queue + (\<Sum>i \<in> sid ` set rows - seen. length (depsOf rows i))"

lemma force_deps_length: "force_deps seen ds (b, queue) = (b', queue') \<Longrightarrow> length queue' \<le> length queue + length ds"
proof (induction ds arbitrary: b queue)
  case (Cons d ds)
  show ?case
  proof (cases "b (dep_stack d) \<noteq> None \<and> forces d \<and> dep_stack d \<notin> seen")
    case True
    then show ?thesis
      using Cons.IH [of "set_box (dep_stack d) (\<lambda>c. c\<lparr>checked := True, disabled := True\<rparr>) b" "queue @ [dep_stack d]"]
        Cons.prems by (simp add: force_deps_def)
  next
    case False
    then obtain c where "force_deps seen ds (c, queue) = (b', queue')"
      using Cons.prems by (auto simp: force_deps_def split: if_splits)
    then show ?thesis using Cons.IH by fastforce
  qed
qed (simp add: force_deps_def)

lemma force_step_work: "queue_left st \<Longrightarrow> work_left rows (force_step rows st) < work_left rows st"
proof (cases "(rows, st)" rule: force_step.cases)
  case (2 rows' seen i queue b)
  then have st: "st = (seen, i # queue, b)" by simp
  show ?thesis
  proof (cases "i \<in> seen \<or> i \<notin> sid ` set rows")
    case True
    then consider (old) "i \<in> seen" | (gone) "i \<notin> seen" "i \<notin> sid ` set rows" by blast
    then show ?thesis
    proof cases
      case old
      then have step: "force_step rows st = (seen, queue, b)" by (simp add: st)
      show ?thesis unfolding step unfolding st by simp
    next
      case gone
      then have same: "sid ` set rows - insert i seen = sid ` set rows - seen" by blast
      have step: "force_step rows st = (insert i seen, queue, b)" using gone by (simp add: st)
      show ?thesis unfolding step unfolding st work_left.simps same by simp
    qed
  next
    case False
    obtain b' queue' where f: "force_deps (insert i seen) (depsOf rows i) (b, queue) = (b', queue')" by fastforce
    have split: "(\<Sum>j \<in> sid ` set rows - seen. length (depsOf rows j))
        = length (depsOf rows i) + (\<Sum>j \<in> sid ` set rows - insert i seen. length (depsOf rows j))"
    proof -
      have "i \<in> sid ` set rows - seen" using False by blast
      from sum.remove [OF _ this] show ?thesis by (simp add: Diff_insert [of _ i seen])
    qed
    have step: "force_step rows st = (insert i seen, queue', b')" using False f by (simp add: st)
    show ?thesis unfolding step unfolding st work_left.simps split using force_deps_length [OF f] by simp
  qed
qed auto

lemma force_step_end: "force_end rows (force_step rows st) = force_end rows st"
  by (cases "(rows, st)" rule: force_step.cases) (auto split: prod.split)

lemma force_end_done: "\<not> queue_left st \<Longrightarrow> \<exists>seen. st = (seen, [], force_end rows st)"
  by (cases st) auto

lemma force_step_done: "\<not> queue_left st \<Longrightarrow> (force_step rows ^^ n) st = st"
proof (induction n)
  case (Suc n)
  then show ?case by (cases st) simp
qed simp

lemma force_passes: "work_left rows st \<le> n \<Longrightarrow>
    \<exists>seen. (force_step rows ^^ n) st = (seen, [], force_end rows st)
       \<and> while_option queue_left (force_step rows) st = Some (seen, [], force_end rows st)"
proof (induction n arbitrary: st)
  case 0
  then have "\<not> queue_left st" using force_step_work [of st rows] by fastforce
  with force_end_done [OF this, of rows] show ?case by (auto simp: while_option_unfold)
next
  case (Suc n)
  show ?case
  proof (cases "queue_left st")
    case True
    with Suc force_step_work [OF True, of rows] have "work_left rows (force_step rows st) \<le> n" by simp
    from Suc.IH [OF this] True show ?thesis
      by (auto simp: force_step_end while_option_unfold [of _ _ st] funpow_Suc_right simp del: funpow.simps)
  next
    case False
    with force_end_done [OF False, of rows] force_step_done [OF False] show ?thesis
      by (metis while_option_unfold)
  qed
qed

lemma depsOf_sum: "(\<Sum>i \<in> sid ` set rows. length (depsOf rows i)) \<le> (\<Sum>r\<leftarrow>rows. length (deps r))"
proof (induction rows rule: rev_induct)
  case (snoc r rows)
  have d: "depsOf (rows @ [r]) i = (if i = sid r then deps r else depsOf rows i)" for i
    by (simp add: depsOf_def row_by_id_def)
  have "(\<Sum>i \<in> sid ` set (rows @ [r]). length (depsOf (rows @ [r]) i))
      = length (deps r) + (\<Sum>i \<in> sid ` set rows - {sid r}. length (depsOf rows i))"
    by (simp add: sum.insert_remove) (simp add: d)
  also have "(\<Sum>i \<in> sid ` set rows - {sid r}. length (depsOf rows i)) \<le> (\<Sum>i \<in> sid ` set rows. length (depsOf rows i))"
    by (intro sum_mono2) auto
  finally show ?case using snoc by simp
qed simp

lemma force_start_work: "work_left rows (force_start rows b) \<le> length rows + (\<Sum>r\<leftarrow>rows. length (deps r))"
  using depsOf_sum [of rows] length_filter_le [where xs = "map sid rows"]
  by (simp add: force_start_def Let_def) (meson add_mono length_filter_le length_map le_trans)

text \<open>
  C18. The loop of \<open>recompute\<close> ends for every table, cyclic dependencies included: it returns with an
  empty queue and the boxes of \<open>recompute\<close>, after at most as many passes as there are rows and
  dependencies together.
\<close>

theorem recompute_terminates:
  "\<exists>seen. while_option queue_left (force_step rows) (force_start rows b) = Some (seen, [], recompute rows b)
     \<and> (force_step rows ^^ (length rows + (\<Sum>r\<leftarrow>rows. length (deps r)))) (force_start rows b)
       = (seen, [], recompute rows b)"
proof -
  have "force_end rows (force_start rows b) = recompute rows b"
    by (simp add: force_start_def recompute_def Let_def)
  with force_passes [OF force_start_work, of rows b] show ?thesis by auto
qed

text \<open>Two stacks that need each other: five passes are allowed, and the loop locks both.\<close>

definition cyclic_rows :: "table_row list" where
  "cyclic_rows = [
     \<lparr>sid = ''a'', deps = [\<lparr>dep_stack = ''b'', mandatory = True, ready = False\<rparr>],
      testable = False, txCapable = False, tests_box = None, tx_box = None, version = None\<rparr>,
     \<lparr>sid = ''b'', deps = [\<lparr>dep_stack = ''a'', mandatory = True, ready = False\<rparr>],
      testable = False, txCapable = False, tests_box = None, tx_box = None, version = None\<rparr>]"

lemma cyclic_passes:
  "fst (snd ((force_step cyclic_rows ^^ 3)
     (force_start cyclic_rows [''a'' \<mapsto> \<lparr>checked = True, disabled = False\<rparr>, ''b'' \<mapsto> \<lparr>checked = False, disabled = False\<rparr>]))) = []"
  by (simp add: cyclic_rows_def force_start_def force_deps_def depsOf_def row_by_id_def set_box_def
      is_checked_def forces_def numeral_3_eq_3)

end
