(* ===== verification/Run_View.thy ===== *)
theory Run_View
  imports JsStr "HOL-Library.Sublist"
begin

text \<open>
  The two run views: the first part of \<open>static/auto_install.js\<close> and \<open>static/hmac.js\<close>. Both poll their
  run on a fixed interval, write the state of every stack or step into its row, and append what a
  cursor has not shown yet to a log window. A character stands for one unit of text, so the lengths
  the code compares are exact for ASCII text (an ellipsis counts three units instead of one, which
  only makes the bounds on a window larger). Scrolling is left out.
\<close>

subsection \<open>Shared pieces\<close>

text \<open>\<open>encodeURIComponent\<close> on ASCII: the unreserved characters stay, any other becomes \<open>%XX\<close>.\<close>

definition unreserved :: "char \<Rightarrow> bool" where
  "unreserved c \<longleftrightarrow> (let n = of_char c :: nat in
     (48 \<le> n \<and> n \<le> 57) \<or> (65 \<le> n \<and> n \<le> 90) \<or> (97 \<le> n \<and> n \<le> 122)) \<or> c \<in> set ''-_.!~*()'' \<or> c = CHR 0x27"

definition encodeURIComponent :: "string \<Rightarrow> string" where
  "encodeURIComponent s = concat (map (\<lambda>c. if unreserved c then [c]
     else [CHR ''%'', ''0123456789ABCDEF'' ! (of_char c div 16), ''0123456789ABCDEF'' ! (of_char c mod 16)]) s)"

record log_chunk =
  chunk_offset :: "nat option"
  chunk_data :: string

record comp_chunk =
  comp_index :: "nat option"
  comp_offset :: "nat option"
  comp_data :: string

fun update_first :: "('a \<Rightarrow> bool) \<Rightarrow> ('a \<Rightarrow> 'a) \<Rightarrow> 'a list \<Rightarrow> 'a list" where
  "update_first P f [] = []"
| "update_first P f (x # xs) = (if P x then f x # xs else x # update_first P f xs)"

text \<open>The position of the first newline from \<open>i\<close> on (\<open>indexOf\<close>).\<close>

fun newline_from :: "nat \<Rightarrow> string \<Rightarrow> nat option" where
  "newline_from i [] = None"
| "newline_from 0 (c # s) = (if c = CHR 0x0A then Some 0 else map_option Suc (newline_from 0 s))"
| "newline_from (Suc i) (c # s) = map_option Suc (newline_from i s)"

subsection \<open>The auto-install run\<close>

record test_result =
  ran :: bool
  passed :: bool
  test_detail :: string

record stack_item =
  item_id :: string
  item_status :: string
  item_tests :: "test_result option"
  item_tx :: "test_result option"
  item_detail :: string

record run_state =
  absent :: bool
  unsafe_state :: bool
  stacks :: "stack_item list"
  tx_phase :: "(string \<times> string) option"
  run_phase :: string

record run_answer =
  answer_run :: string
  spawn_live :: bool
  run_alive :: bool
  answer_state :: run_state
  answer_log :: log_chunk
  answer_complog :: "comp_chunk option"

text \<open>A row of the task table: how many cells it has, the badge of the status cell, two text cells.\<close>

record run_row =
  run_row_id :: string
  cells :: nat
  status_span :: "(string \<times> string) option"
  tests_cell :: string
  detail_cell :: string

record run_page =
  runId :: string
  expect :: string
  log_cursor :: nat
  ci :: "nat option"
  co :: "nat option"
  interval :: nat
  box_text :: string
  comp_text :: "string option"
  run_badge :: "(string \<times> string) option"
  run_rows :: "run_row list"
  page_reloads :: nat
  navigated :: "string option"

definition active_status :: "string \<Rightarrow> bool" where
  "active_status s \<longleftrightarrow> s = ''downloading'' \<or> s = ''building'' \<or> s = ''testing''"

definition statusBadge :: "string \<Rightarrow> run_row \<Rightarrow> run_row" where
  "statusBadge s r = r\<lparr>status_span := map_option (\<lambda>_.
     (if active_status s then s @ ellipsis else s,
      ''badge badge-'' @ (if active_status s then ''running'' else if s = ''success'' then ''ok''
        else if s = ''fail'' then ''failed'' else ''stopped''))) (status_span r)\<rparr>"

definition verdict :: "test_result \<Rightarrow> string" where
  "verdict t = (if passed t then ''passed'' else ''FAILED'')"

definition tests_text :: "stack_item \<Rightarrow> string" where
  "tests_text i =
     (case item_tests i of
        None \<Rightarrow> ''''
      | Some t \<Rightarrow> if ran t then verdict t else if test_detail t = '''' then em_dash else test_detail t)
     @ (case item_tx i of Some x \<Rightarrow> if ran x then '' / TX '' @ verdict x else '''' | None \<Rightarrow> '''')"

definition show_stack :: "stack_item \<Rightarrow> run_row list \<Rightarrow> run_row list" where
  "show_stack i = update_first (\<lambda>r. run_row_id r = item_id i) (\<lambda>r.
     if cells r < 4 then r
     else (statusBadge (item_status i) r)\<lparr>tests_cell := tests_text i, detail_cell := item_detail i\<rparr>)"

definition show_tx_phase :: "(string \<times> string) option \<Rightarrow> run_row list \<Rightarrow> run_row list" where
  "show_tx_phase t = (case t of None \<Rightarrow> id | Some (s, d) \<Rightarrow>
     update_first (\<lambda>r. run_row_id r = ''__tx__'') (\<lambda>r.
       case status_span r of
         None \<Rightarrow> r
       | Some (_, cls) \<Rightarrow> r\<lparr>status_span := Some (s, cls), detail_cell := (if cells r < 4 then detail_cell r else d)\<rparr>))"

text \<open>Writing the phase throws, and ends the handler, when the row lacks the badge or the detail cell.\<close>

definition tx_throws :: "(string \<times> string) option \<Rightarrow> run_row list \<Rightarrow> bool" where
  "tx_throws t rows \<longleftrightarrow> t \<noteq> None \<and> (case find (\<lambda>r. run_row_id r = ''__tx__'') rows of
     None \<Rightarrow> False
   | Some r \<Rightarrow> status_span r = None \<or> cells r < 4)"

definition run_badge_text :: "bool \<Rightarrow> string \<Rightarrow> string \<times> string" where
  "run_badge_text running phase =
     (if running then (''run in progress'', ''badge-running'')
      else if phase = ''completed'' then (''run completed'', ''badge-ok'')
      else if phase = ''completed-with-failures'' then (''completed with failures'', ''badge-failed'')
      else if phase = ''aborted'' then (''aborted by operator'', ''badge-stopped'')
      else (''ended unexpectedly '' @ em_dash @ '' incomplete'', ''badge-failed''))"

definition setBadge :: "string \<times> string \<Rightarrow> (string \<times> string) option \<Rightarrow> (string \<times> string) option" where
  "setBadge tc b = map_option (\<lambda>_. (fst tc, ''badge '' @ snd tc)) b"

definition show_log :: "log_chunk \<Rightarrow> run_page \<Rightarrow> run_page" where
  "show_log l p = (case chunk_offset l of
     None \<Rightarrow> p
   | Some off \<Rightarrow>
       let p1 = (if off < log_cursor p then p\<lparr>log_cursor := 0, box_text := ''''\<rparr> else p)
       in if chunk_data l = '''' then p1\<lparr>log_cursor := off\<rparr>
          else let restarted = (off = length (chunk_data l) \<and> log_cursor p1 \<noteq> 0);
                   t = (if restarted then '''' else box_text p1)
               in p1\<lparr>box_text := t @ chunk_data l, log_cursor := off\<rparr>)"

definition COMPLOG_MAX :: nat where "COMPLOG_MAX = 1500000"

definition trimmed_mark :: string where
  "trimmed_mark = ''['' @ ellipsis @ '' older output trimmed '' @ ellipsis @ '']'' @ [CHR 0x0A]"

definition trim_complog :: "string \<Rightarrow> string" where
  "trim_complog t =
     (if COMPLOG_MAX < length t
      then let cut = length t - (COMPLOG_MAX - 200000)
           in trimmed_mark @ drop (case newline_from cut t of Some nl \<Rightarrow> nl + 1 | None \<Rightarrow> cut) t
      else t)"

text \<open>A cursor that the answer lacks is \<open>undefined\<close> (\<open>None\<close>), and below nothing.\<close>

definition below :: "nat option \<Rightarrow> nat option \<Rightarrow> bool" where
  "below a b = (case (a, b) of (Some x, Some y) \<Rightarrow> x < y | _ \<Rightarrow> False)"

definition stream_restarted :: "comp_chunk \<Rightarrow> run_page \<Rightarrow> bool" where
  "stream_restarted c p \<longleftrightarrow> below (comp_index c) (ci p)
     \<or> (comp_index c = ci p \<and> below (comp_offset c) (co p))"

definition show_complog :: "comp_chunk option \<Rightarrow> run_page \<Rightarrow> run_page" where
  "show_complog cl p = (case (comp_text p, cl) of
     (Some t, Some c) \<Rightarrow>
       if comp_data c = '''' \<and> comp_index c = None then p
       else let t1 = (if stream_restarted c p then '''' else t);
                t2 = (if comp_data c = '''' then t1 else trim_complog (t1 @ comp_data c))
            in p\<lparr>comp_text := Some t2, ci := comp_index c, co := comp_offset c\<rparr>
   | _ \<Rightarrow> p)"

definition slow_down :: "bool \<Rightarrow> run_page \<Rightarrow> run_page" where
  "slow_down running p = (if \<not> running \<and> interval p < 10000 then p\<lparr>interval := 10000\<rparr> else p)"

definition render_run :: "run_answer \<Rightarrow> run_page \<Rightarrow> run_page" where
  "render_run d p =
     (let st = answer_state d in
      if expect p \<noteq> '''' then
        (if answer_run d = expect p then p\<lparr>page_reloads := Suc (page_reloads p)\<rparr>
         else if \<not> spawn_live d
         then p\<lparr>navigated := Some (''/auto-install?spawn='' @ encodeURIComponent (expect p))\<rparr>
         else p)
      else if absent st \<or> unsafe_state st then p
      else if answer_run d \<noteq> '''' \<and> answer_run d \<noteq> runId p then
        p\<lparr>runId := answer_run d, log_cursor := 0, box_text := '''', page_reloads := Suc (page_reloads p)\<rparr>
      else
        let rows = fold show_stack (stacks st) (run_rows p);
            p0 = p\<lparr>run_rows := show_tx_phase (tx_phase st) rows\<rparr>;
            p1 = p0\<lparr>run_badge := setBadge (run_badge_text (run_alive d) (run_phase st)) (run_badge p)\<rparr>
        in if tx_throws (tx_phase st) rows then p0
           else slow_down (run_alive d) (show_complog (answer_complog d) (show_log (answer_log d) p1)))"

text \<open>The request a tick sends.\<close>

definition show_cursor :: "nat option \<Rightarrow> string" where
  "show_cursor c = (case c of Some n \<Rightarrow> show_nat n | None \<Rightarrow> ''undefined'')"

definition run_url :: "run_page \<Rightarrow> string" where
  "run_url p = ''/api/auto-install?offset='' @ show_nat (log_cursor p)
     @ ''&ci='' @ show_cursor (ci p) @ ''&co='' @ show_cursor (co p)"

definition load_run :: "string \<Rightarrow> string \<Rightarrow> string \<Rightarrow> string option \<Rightarrow> (string \<times> string) option \<Rightarrow> run_row list \<Rightarrow> run_page" where
  "load_run run exp seed clog bdg rows = \<lparr>runId = run, expect = exp, log_cursor = 0, ci = Some 0, co = Some 0,
     interval = 2000, box_text = seed, comp_text = clog, run_badge = bdg, run_rows = rows,
     page_reloads = 0, navigated = None\<rparr>"

subsection \<open>The HMAC apply run\<close>

record step_item =
  step_key :: string
  step_state :: string

record hmac_answer =
  hmac_run :: string
  hmac_absent :: bool
  hmac_unsafe :: bool
  hmac_steps :: "step_item list"
  phase :: "string option"
  hmac_log :: log_chunk
  hmac_complog :: comp_chunk

record step_row =
  step_row_key :: string
  step_cells :: nat
  step_span :: "(string \<times> string) option"

record hmac_page =
  hmac_runId :: string
  hmac_cursor :: nat
  hmac_ci :: "nat option"
  hmac_co :: "nat option"
  hmac_box :: "string option"
  hmac_comp :: "string option"
  hmac_badge :: "(string \<times> string) option"
  step_rows :: "step_row list"
  hmac_reloaded :: bool
  hmac_polling :: bool
  hmac_reloads :: nat

definition stepBadge :: "string \<Rightarrow> step_row \<Rightarrow> step_row" where
  "stepBadge s r = r\<lparr>step_span := map_option (\<lambda>_.
     (s @ (if s = ''running'' then ellipsis else ''''),
      ''badge badge-'' @ (if s = ''running'' then ''running'' else if s = ''done'' then ''ok''
        else if s = ''failed'' then ''failed'' else ''stopped''))) (step_span r)\<rparr>"

definition show_step :: "step_item \<Rightarrow> step_row list \<Rightarrow> step_row list" where
  "show_step i = update_first (\<lambda>r. step_row_key r = step_key i)
     (\<lambda>r. if 2 \<le> step_cells r then stepBadge (step_state i) r else r)"

definition hmac_badge_text :: "string option \<Rightarrow> string \<times> string" where
  "hmac_badge_text ph =
     (if ph = Some ''running'' then (''in progress'', ''badge-running'')
      else if ph = Some ''done'' then (''done'', ''badge-ok'')
      else if ph = Some ''unsafe'' then (''UNSAFE '' @ em_dash @ '' build not proven stopped'', ''badge-failed'')
      else if ph = Some ''interrupted''
      then (''ended unexpectedly '' @ em_dash @ '' incomplete'', ''badge-failed'')
      else (''failed'', ''badge-failed''))"

text \<open>The new text and the new cursor of a log window.\<close>

definition appendLog :: "string option \<Rightarrow> log_chunk \<Rightarrow> nat \<Rightarrow> string option \<times> nat" where
  "appendLog el chunk cur = (case (el, chunk_offset chunk) of
     (Some t, Some off) \<Rightarrow> (Some ((if off < cur then '''' else t) @ chunk_data chunk), off)
   | _ \<Rightarrow> (el, cur))"

text \<open>
  The component window; \<open>None\<close> when the handler throws: a restarted stream clears the element before
  the test that there is one.
\<close>

definition hmac_show_complog :: "comp_chunk \<Rightarrow> hmac_page \<Rightarrow> hmac_page option" where
  "hmac_show_complog c p = (case comp_index c of
     None \<Rightarrow> Some p
   | Some i \<Rightarrow>
       let restarted = (below (comp_index c) (hmac_ci p)
             \<or> (comp_index c = hmac_ci p \<and> below (comp_offset c) (hmac_co p)))
       in if restarted \<and> hmac_comp p = None then None
          else Some (p\<lparr>hmac_comp := map_option (\<lambda>t. (if restarted then '''' else t) @ comp_data c) (hmac_comp p),
                 hmac_ci := comp_index c, hmac_co := comp_offset c\<rparr>))"

definition reload_when_terminal :: "string option \<Rightarrow> hmac_page \<Rightarrow> hmac_page" where
  "reload_when_terminal ph p = (case ph of
     None \<Rightarrow> p
   | Some s \<Rightarrow> if s \<noteq> '''' \<and> s \<noteq> ''running'' \<and> \<not> hmac_reloaded p
       then p\<lparr>hmac_reloaded := True, hmac_polling := False, hmac_reloads := Suc (hmac_reloads p)\<rparr> else p)"

definition render_hmac :: "hmac_answer \<Rightarrow> hmac_page \<Rightarrow> hmac_page" where
  "render_hmac d p =
     (if hmac_absent d \<or> hmac_unsafe d then p
      else if hmac_run d \<noteq> '''' \<and> hmac_run d \<noteq> hmac_runId p then p\<lparr>hmac_reloads := Suc (hmac_reloads p)\<rparr>
      else
        let (t, cur) = appendLog (hmac_box p) (hmac_log d) (hmac_cursor p);
            p1 = p\<lparr>step_rows := fold show_step (hmac_steps d) (step_rows p),
                   hmac_badge := setBadge (hmac_badge_text (phase d)) (hmac_badge p),
                   hmac_box := t, hmac_cursor := cur\<rparr>
        in case hmac_show_complog (hmac_complog d) p1 of
             None \<Rightarrow> p1
           | Some p2 \<Rightarrow> reload_when_terminal (phase d) p2)"

definition load_hmac :: "string \<Rightarrow> string option \<Rightarrow> string option \<Rightarrow> (string \<times> string) option \<Rightarrow> step_row list \<Rightarrow> hmac_page" where
  "load_hmac run box clog bdg rows = \<lparr>hmac_runId = run, hmac_cursor = 0, hmac_ci = Some 0, hmac_co = Some 0,
     hmac_box = box, hmac_comp = clog, hmac_badge = bdg, step_rows = rows,
     hmac_reloaded = False, hmac_polling = True, hmac_reloads = 0\<rparr>"

end
