(* ===== verification/Run_Props.thy ===== *)
theory Run_Props
  imports Run_View
begin

text \<open>
  What the run views' windows show: sequential polls of an append-only log show it exactly, after
  whatever the page was rendered with; overlapping polls repeat what both fetched; the component
  window stays below its limit and keeps the end of the stream; a finished run reloads once.
\<close>

subsection \<open>The log window under sequential polls\<close>

text \<open>What the server answers to a request at cursor \<open>o\<close>: some of the log from there on.\<close>

definition serves :: "string \<Rightarrow> nat \<Rightarrow> log_chunk \<Rightarrow> bool" where
  "serves L k c \<longleftrightarrow> (\<exists>n. chunk_data c = take n (drop k L)) \<and> chunk_offset c = Some (k + length (chunk_data c))"

text \<open>An answer about the run the page shows.\<close>

definition about_this_run :: "run_answer \<Rightarrow> run_page \<Rightarrow> bool" where
  "about_this_run d p \<longleftrightarrow> expect p = '''' \<and> \<not> absent (answer_state d) \<and> \<not> unsafe_state (answer_state d)
     \<and> (answer_run d = '''' \<or> answer_run d = runId p)
     \<and> \<not> tx_throws (tx_phase (answer_state d)) (fold show_stack (stacks (answer_state d)) (run_rows p))"

lemma render_run_log:
  assumes "about_this_run d p"
  shows "box_text (render_run d p) = box_text (show_log (answer_log d) p)
    \<and> log_cursor (render_run d p) = log_cursor (show_log (answer_log d) p)
    \<and> expect (render_run d p) = expect p \<and> runId (render_run d p) = runId p"
  using assms
  by (auto simp: render_run_def about_this_run_def Let_def slow_down_def show_complog_def show_log_def
      split: option.splits)

inductive log_step :: "string \<times> run_page \<Rightarrow> string \<times> run_page \<Rightarrow> bool" where
  grow: "log_step (L, p) (L @ x, p)"
| answered: "about_this_run d p \<Longrightarrow> serves L (log_cursor p) (answer_log d) \<Longrightarrow> log_step (L, p) (L, render_run d p)"

lemma show_log_serves:
  assumes "serves L (log_cursor p) c" and "log_cursor p \<le> length L" and "box_text p = seed @ take (log_cursor p) L"
  shows "log_cursor (show_log c p) \<le> length L
    \<and> box_text (show_log c p) = seed @ take (log_cursor (show_log c p)) L"
proof -
  obtain n where n: "chunk_data c = take n (drop (log_cursor p) L)"
    and off: "chunk_offset c = Some (log_cursor p + length (chunk_data c))"
    using assms(1) by (auto simp: serves_def)
  have "take (log_cursor p) L @ chunk_data c = take (log_cursor p + length (chunk_data c)) L"
    unfolding n by (simp add: take_add min_def)
  moreover have "log_cursor p + length (chunk_data c) \<le> length L" using assms(2) n by simp
  moreover have "\<not> (log_cursor p + length (chunk_data c) = length (chunk_data c) \<and> log_cursor p \<noteq> 0)" by auto
  ultimately show ?thesis using assms(3) by (auto simp: show_log_def off Let_def)
qed

text \<open>
  C32. Polls that do not overlap show an append-only log exactly: whatever the chunks, and whenever the
  log grows, the window holds what the page was loaded with followed by the part of the log up to the
  cursor. A window loaded with the beginning of the log therefore shows that beginning twice, since
  the cursor starts at 0 all the same.
\<close>

theorem run_log_window:
  assumes "log_step\<^sup>*\<^sup>* (L, load_run run '''' seed clog bdg rows) (L', p)"
  shows "box_text p = seed @ take (log_cursor p) L' \<and> log_cursor p \<le> length L'"
proof -
  have "log_cursor q \<le> length M \<and> box_text q = seed @ take (log_cursor q) M"
    if "log_step\<^sup>*\<^sup>* (L, load_run run '''' seed clog bdg rows) (M, q)" for M q
    using that
  proof (induction "(M, q)" arbitrary: M q rule: rtranclp_induct)
    case base
    then show ?case by (simp add: load_run_def)
  next
    case (step y)
    from step(2) show ?case
    proof cases
      case (grow N x)
      with step show ?thesis by auto
    next
      case (answered d r)
      with step show ?thesis using show_log_serves [of M r "answer_log d" seed] render_run_log [of d r] by auto
    qed
  qed
  with assms show ?thesis by blast
qed

definition quiet_answer :: "log_chunk \<Rightarrow> run_answer" where
  "quiet_answer c = \<lparr>answer_run = ''r1'', spawn_live = False, run_alive = True,
     answer_state = \<lparr>absent = False, unsafe_state = False, stacks = [], tx_phase = None, run_phase = ''running''\<rparr>,
     answer_log = c, answer_complog = None\<rparr>"

lemma run_log_window_witness:
  "box_text (render_run (quiet_answer \<lparr>chunk_offset = Some 2, chunk_data = ''ab''\<rparr>)
     (load_run ''r1'' '''' ''ab'' None None [])) = ''abab''"
proof -
  let ?p = "load_run ''r1'' '''' ''ab'' None None []" and ?d = "quiet_answer \<lparr>chunk_offset = Some 2, chunk_data = ''ab''\<rparr>"
  have "serves ''ab'' (log_cursor ?p) (answer_log ?d)"
    by (auto simp: serves_def load_run_def quiet_answer_def intro: exI [of _ 2])
  moreover have "about_this_run ?d ?p" by (simp add: about_this_run_def quiet_answer_def load_run_def tx_throws_def)
  ultimately have "log_step (''ab'', ?p) (''ab'', render_run ?d ?p)" by (intro log_step.answered)
  then have "log_step\<^sup>*\<^sup>* (''ab'', ?p) (''ab'', render_run ?d ?p)" by blast
  from run_log_window [OF this]
  have "box_text (render_run ?d ?p) = ''ab'' @ take (log_cursor (render_run ?d ?p)) ''ab''" by blast
  moreover have "log_cursor (render_run ?d ?p) = 2"
    using render_run_log [OF \<open>about_this_run ?d ?p\<close>] by (simp add: show_log_def quiet_answer_def load_run_def)
  ultimately show ?thesis by simp
qed

subsection \<open>Overlapping polls\<close>

text \<open>
  A poll sent before the previous one was answered asks for the same bytes, and both answers are
  appended: with nothing new in the log, the second answer repeats the chunk of the first. Nothing
  keeps a tick from sending while a request is out.
\<close>

theorem overlapping_polls_repeat:
  assumes "about_this_run d p" and "about_this_run d (render_run d p)" and "0 < log_cursor p" and "answer_log d = \<lparr>chunk_offset = Some (log_cursor p + length x), chunk_data = x\<rparr>"
    and "x \<noteq> ''''"
  shows "box_text (render_run d (render_run d p)) = box_text p @ x @ x"
proof -
  note first = render_run_log [OF assms(1)] and second = render_run_log [OF assms(2)]
  show ?thesis using first second assms(3-5) by (simp add: show_log_def)
qed

lemma overlapping_polls_repeat_witness:
  "box_text (render_run (quiet_answer \<lparr>chunk_offset = Some 3, chunk_data = ''c''\<rparr>)
     (render_run (quiet_answer \<lparr>chunk_offset = Some 3, chunk_data = ''c''\<rparr>)
       ((load_run ''r1'' '''' ''ab'' None None [])\<lparr>log_cursor := 2\<rparr>))) = ''abcc''"
  using overlapping_polls_repeat [of "quiet_answer \<lparr>chunk_offset = Some 3, chunk_data = ''c''\<rparr>"
      "(load_run ''r1'' '''' ''ab'' None None [])\<lparr>log_cursor := 2\<rparr>" "''c''"]
  by (simp add: about_this_run_def quiet_answer_def load_run_def tx_throws_def render_run_def show_log_def
      show_complog_def slow_down_def show_tx_phase_def)

subsection \<open>The component window\<close>

lemma newline_from_bounds: "newline_from i s = Some n \<Longrightarrow> i \<le> n \<and> n < length s"
  by (induction i s arbitrary: n rule: newline_from.induct) (auto split: if_splits)

text \<open>
  The component window never grows past its limit, and keeps the end of the stream: after a chunk
  it holds the old text and the chunk, or, when that is too long, the mark and at most 1.3 million
  units of its end, cut at a line start if there is one.
\<close>

theorem complog_window:
  assumes "comp_text p = Some t" and "comp_index c = Some i" and "\<not> stream_restarted c p" and "length t \<le> COMPLOG_MAX"
  shows "(\<exists>u. comp_text (show_complog (Some c) p) = Some u \<and> length u \<le> COMPLOG_MAX
    \<and> (if length (t @ comp_data c) \<le> COMPLOG_MAX then u = t @ comp_data c
       else \<exists>v. suffix v (t @ comp_data c) \<and> length v \<le> 1300000 \<and> u = trimmed_mark @ v))"
proof -
  let ?w = "t @ comp_data c"
  have e: "comp_text (show_complog (Some c) p) = Some (if comp_data c = '''' then t else trim_complog ?w)"
    using assms by (simp add: show_complog_def Let_def)
  show ?thesis
  proof (cases "length ?w \<le> COMPLOG_MAX")
    case True
    then have "trim_complog ?w = ?w" by (simp add: trim_complog_def)
    with e True show ?thesis by auto
  next
    case False
    then have data: "comp_data c \<noteq> ''''" using assms(4) by auto
    let ?cut = "length ?w - (COMPLOG_MAX - 200000)"
    obtain k where k: "trim_complog ?w = trimmed_mark @ drop k ?w" "?cut \<le> k"
    proof (cases "newline_from ?cut ?w")
      case None
      with False show ?thesis by (intro that [of ?cut]) (simp_all add: trim_complog_def Let_def)
    next
      case (Some n)
      then have "?cut \<le> n" by (simp add: newline_from_bounds)
      with False Some show ?thesis by (intro that [of "n + 1"]) (simp_all add: trim_complog_def Let_def)
    qed
    define v where "v = drop k ?w"
    have len: "length v \<le> 1300000"
      unfolding v_def using False k(2) by (simp add: COMPLOG_MAX_def)
    have suf: "suffix v ?w" unfolding v_def by (rule suffix_drop)
    have "length trimmed_mark \<le> 200000" by (simp add: trimmed_mark_def ellipsis_def)
    with len have "length (trimmed_mark @ v) \<le> COMPLOG_MAX" by (simp add: COMPLOG_MAX_def)
    moreover have "comp_text (show_complog (Some c) p) = Some (trimmed_mark @ v)"
      using e data k(1) by (simp add: v_def)
    ultimately show ?thesis using False len suf by auto
  qed
qed

lemma complog_window_witness:
  "comp_text (show_complog (Some \<lparr>comp_index = Some 0, comp_offset = Some 1, comp_data = ''b''\<rparr>)
     (load_run ''r1'' '''' '''' (Some ''a'') None [])) = Some ''ab''"
  using complog_window [of "load_run ''r1'' '''' '''' (Some ''a'') None []" "''a''"
      "\<lparr>comp_index = Some 0, comp_offset = Some 1, comp_data = ''b''\<rparr>" 0]
  by (simp add: load_run_def stream_restarted_def below_def COMPLOG_MAX_def)

subsection \<open>The HMAC view reloads once\<close>

lemma appendLog_frame: "appendLog el c k = (el', k') \<Longrightarrow> (el' = None) = (el = None)"
  by (auto simp: appendLog_def split: option.splits)

text \<open>
  While the page belongs to the run, a terminal phase reloads it once and stops the polling: over
  any sequence of answers about the run, the page has been reloaded exactly if its polling has been
  stopped, and then once.
\<close>

theorem hmac_reloads_once:
  assumes "\<forall>d \<in> set ds. hmac_run d = '''' \<or> hmac_run d = run"
  shows "let p = fold render_hmac ds (load_hmac run box clog bdg rows)
    in hmac_reloads p = (if hmac_polling p then 0 else 1)"
proof -
  define ok where "ok = (\<lambda>p :: hmac_page. hmac_runId p = run \<and> hmac_reloads p = (if hmac_reloaded p then 1 else 0) \<and> (hmac_polling p \<longleftrightarrow> \<not> hmac_reloaded p))"
  have "ok (render_hmac d p)" if "ok p" "hmac_run d = '''' \<or> hmac_run d = run" for d and p :: hmac_page
    using that unfolding ok_def render_hmac_def
    by (auto simp: Let_def hmac_show_complog_def reload_when_terminal_def split: prod.splits option.splits if_splits)
  then have "ok (fold render_hmac ds p)" if "ok p" for p
    using that assms by (induction ds arbitrary: p) auto
  moreover have "ok (load_hmac run box clog bdg rows)" by (simp add: ok_def load_hmac_def)
  ultimately have "ok (fold render_hmac ds (load_hmac run box clog bdg rows))" by blast
  then show ?thesis by (simp add: ok_def)
qed

definition passed_answer :: hmac_answer where
  "passed_answer = \<lparr>hmac_run = ''r'', hmac_absent = False, hmac_unsafe = False, hmac_steps = [], phase = Some ''done'',
     hmac_log = \<lparr>chunk_offset = None, chunk_data = ''''\<rparr>,
     hmac_complog = \<lparr>comp_index = None, comp_offset = None, comp_data = ''''\<rparr>\<rparr>"

lemma hmac_reloads_once_witness:
  "hmac_reloads (fold render_hmac [passed_answer, passed_answer] (load_hmac ''r'' None None None [])) = 1"
  using hmac_reloads_once [of "[passed_answer, passed_answer]" "''r''" None None None "[]"]
  by (simp add: passed_answer_def Let_def render_hmac_def load_hmac_def appendLog_def hmac_show_complog_def
      reload_when_terminal_def)

end
