(* ===== verification/Js_Sort.thy ===== *)
theory Js_Sort
  imports Complex_Main Prelude "HOL-Library.Multiset"
begin

text \<open>
  \<open>Array.prototype.sort\<close> with a comparator. The language fixes the result for a consistent
  comparator only: the stable ordering. An insertion sort computes it.
\<close>

fun insert_by :: "('a \<Rightarrow> 'a \<Rightarrow> rat) \<Rightarrow> 'a \<Rightarrow> 'a list \<Rightarrow> 'a list" where
  "insert_by cmp x [] = [x]"
| "insert_by cmp x (y # ys) = (if cmp x y \<le> 0 then x # y # ys else y # insert_by cmp x ys)"

definition js_sort :: "('a \<Rightarrow> 'a \<Rightarrow> rat) \<Rightarrow> 'a list \<Rightarrow> 'a list" where
  "js_sort cmp xs = foldr (insert_by cmp) xs []"

lemma js_sort_simps [simp]: "js_sort cmp [] = []" "js_sort cmp (x # xs) = insert_by cmp x (js_sort cmp xs)"
  by (simp_all add: js_sort_def)

lemma mset_insert_by [simp]: "mset (insert_by cmp x xs) = add_mset x (mset xs)"
  by (induction xs) auto

lemma set_insert_by [simp]: "set (insert_by cmp x xs) = insert x (set xs)"
  by (induction xs) auto

lemma mset_js_sort [simp]: "mset (js_sort cmp xs) = mset xs"
  by (induction xs) auto

lemma set_js_sort [simp]: "set (js_sort cmp xs) = set xs"
  by (metis mset_js_sort set_mset_mset)

text \<open>
  The contract of a comparator: its sign is antisymmetric and \<open>\<le>\<close> is transitive. Under it the sort
  delivers the order, and keeps the list order of equivalent elements.
\<close>

locale consistent_comparator =
  fixes cmp :: "'a \<Rightarrow> 'a \<Rightarrow> rat"
  assumes antisym: "0 < cmp x y \<longleftrightarrow> cmp y x < 0"
    and trans: "cmp x y \<le> 0 \<Longrightarrow> cmp y z \<le> 0 \<Longrightarrow> cmp x z \<le> 0"
begin

lemma sorted_insert: "sorted_wrt (\<lambda>a b. cmp a b \<le> 0) xs \<Longrightarrow> sorted_wrt (\<lambda>a b. cmp a b \<le> 0) (insert_by cmp x xs)"
proof (induction xs)
  case (Cons y ys)
  show ?case
  proof (cases "cmp x y \<le> 0")
    case True
    with Cons.prems show ?thesis by (auto intro: trans)
  next
    case False
    then have "cmp y x \<le> 0" using antisym [of x y] by simp
    with False Cons show ?thesis by auto
  qed
qed simp

lemma sorted_js_sort: "sorted_wrt (\<lambda>a b. cmp a b \<le> 0) (js_sort cmp xs)"
  by (induction xs) (auto intro: sorted_insert)

lemma equivalents_insert:
  assumes "\<And>a b. P a \<Longrightarrow> P b \<Longrightarrow> cmp a b \<le> 0"
  shows "filter P (insert_by cmp x xs) = (if P x then x # filter P xs else filter P xs)"
  using assms by (induction xs) auto

text \<open>Stability: any class of pairwise equivalent elements keeps its order.\<close>

lemma stable_js_sort:
  assumes "\<And>a b. P a \<Longrightarrow> P b \<Longrightarrow> cmp a b \<le> 0"
  shows "filter P (js_sort cmp xs) = filter P xs"
  by (induction xs) (auto simp: equivalents_insert [OF assms])

text \<open>Elements that come after all others form the end of the result.\<close>

lemma last_class:
  assumes last: "\<And>a b. P a \<Longrightarrow> 0 < cmp a b \<longleftrightarrow> \<not> P b"
  shows "js_sort cmp xs = filter (\<lambda>x. \<not> P x) (js_sort cmp xs) @ filter P xs"
proof -
  have split: "ys = filter (\<lambda>x. \<not> P x) ys @ filter P ys" if "sorted_wrt (\<lambda>a b. cmp a b \<le> 0) ys" for ys
    using that
  proof (induction ys)
    case (Cons y ys)
    show ?case
    proof (cases "P y")
      case True
      have "P b" if "b \<in> set ys" for b
      proof -
        have "cmp y b \<le> 0" using Cons.prems that by simp
        with last [OF True] show ?thesis by (metis not_le)
      qed
      then have "filter (\<lambda>x. \<not> P x) ys = []" "filter P ys = ys" by (auto simp: filter_empty_conv filter_id_conv)
      with True show ?thesis by simp
    qed (use Cons in auto)
  qed simp
  have "cmp a b \<le> 0" if "P a" "P b" for a b using last [OF that(1), of b] that(2) by linarith
  then have "filter P (js_sort cmp xs) = filter P xs" by (rule stable_js_sort)
  with split [OF sorted_js_sort [of xs]] show ?thesis by metis
qed

end

end
