(* ===== verification/Rflog.thy ===== *)
theory Rflog
  imports Js_Sort JsNum Run_View
begin

text \<open>
  The RF log page, \<open>static/rflog.js\<close>: the records table with its order and column choice, the raw
  view, and the Decrypt toggle. A record is what the server's \<open>parse_line\<close> delivers, a field it
  lacks is \<open>None\<close>. \<open>lc\<close> is the browser's collation, \<open>localeCompare\<close>.
\<close>

subsection \<open>Records and their fields\<close>

record rf_record =
  rf_key :: string
  rf_raw :: string
  rf_ts :: "string option"
  rf_dir :: "string option"
  rf_rssi :: "rat option"
  rf_snr :: "rat option"
  rf_len :: "int option"
  rf_outcome :: "string option"
  rf_summary :: "string option"
  rf_hex :: "string option"
  rf_ascii :: "string option"
  rf_status :: "string option"
  rf_kind :: "string option"
  rf_peer :: "string option"
  rf_decoded :: "string option"

datatype jval = JNum rat | JStr string

definition number_field :: "string \<Rightarrow> (rf_record \<Rightarrow> rat option) option" where
  "number_field c = map_of
     [(''rssi'', rf_rssi), (''snr'', rf_snr), (''len'', \<lambda>r. map_option of_int (rf_len r))] c"

definition text_field :: "string \<Rightarrow> (rf_record \<Rightarrow> string option) option" where
  "text_field c = map_of
     [(''key'', Some \<circ> rf_key), (''raw'', Some \<circ> rf_raw), (''ts'', rf_ts), (''dir'', rf_dir), (''outcome'', rf_outcome),
      (''summary'', rf_summary), (''hex'', rf_hex), (''ascii'', rf_ascii), (''status'', rf_status), (''kind'', rf_kind),
      (''peer'', rf_peer), (''decoded'', rf_decoded)] c"

text \<open>\<open>r[c]\<close>: \<open>None\<close> for \<open>null\<close> and \<open>undefined\<close>.\<close>

definition field_of :: "string \<Rightarrow> rf_record \<Rightarrow> jval option" where
  "field_of c r = (case number_field c of
     Some f \<Rightarrow> map_option JNum (f r)
   | None \<Rightarrow> (case text_field c of Some f \<Rightarrow> map_option JStr (f r) | None \<Rightarrow> None))"

text \<open>\<open>String(v)\<close>; the only number it is applied to is a length, an integer.\<close>

definition js_string :: "jval \<Rightarrow> string" where
  "js_string v = (case v of JStr s \<Rightarrow> s | JNum q \<Rightarrow> n_string (Fin q))"

definition fmt :: "jval option \<Rightarrow> string \<Rightarrow> string" where
  "fmt v c = (case v of
     None \<Rightarrow> ''''
   | Some x \<Rightarrow>
       if x = JStr '''' then ''''
       else (case x of
           JNum q \<Rightarrow> if c = ''rssi'' \<or> c = ''snr'' then toFixed 2 q else js_string x
         | JStr _ \<Rightarrow> js_string x))"

subsection \<open>The order of the table\<close>

text \<open>
  Of the comparator's value only the sign matters; a difference of two doubles is rounded to zero
  only when they are equal, so the exact difference has the same sign.
\<close>

definition compare_values :: "(string \<Rightarrow> string \<Rightarrow> int) \<Rightarrow> bool \<Rightarrow> jval option \<Rightarrow> jval option \<Rightarrow> rat" where
  "compare_values lc desc x y = (let d = (if desc then -1 else 1) in
     case (x, y) of
       (None, None) \<Rightarrow> 0
     | (None, _) \<Rightarrow> 1
     | (_, None) \<Rightarrow> -1
     | (Some (JNum a), Some (JNum b)) \<Rightarrow> (a - b) * d
     | (Some a, Some b) \<Rightarrow> of_int (lc (js_string a) (js_string b)) * d)"

definition rf_compare :: "(string \<Rightarrow> string \<Rightarrow> int) \<Rightarrow> string \<Rightarrow> bool \<Rightarrow> rf_record \<Rightarrow> rf_record \<Rightarrow> rat" where
  "rf_compare lc c desc a b = compare_values lc desc (field_of c a) (field_of c b)"

definition sorted_records :: "(string \<Rightarrow> string \<Rightarrow> int) \<Rightarrow> string \<Rightarrow> bool \<Rightarrow> rf_record list \<Rightarrow> rf_record list" where
  "sorted_records lc c desc = js_sort (rf_compare lc c desc)"

subsection \<open>The page\<close>

record rf_choice =
  shown_cols :: "string \<Rightarrow> bool"
  sort_col :: string
  sort_desc :: bool
  raw_view :: bool

record rf_cell =
  cell_text :: string
  payload :: bool
  cell_hidden :: bool

record rf_row =
  rf_row_class :: string
  rf_row_open :: bool
  rf_cells :: "rf_cell list"

record rf_view =
  head_hidden :: "string \<Rightarrow> bool"
  aria_sort :: "string \<Rightarrow> string"
  checks :: "string \<Rightarrow> bool"
  rf_rows :: "rf_row list"
  table_hidden :: bool
  rf_box_hidden :: bool
  rf_box_text :: string
  notice_text :: string
  notice_hidden :: bool
  dec_button :: "string \<times> string"
  raw_pressed :: string

record rf_page =
  can_decrypt :: bool
  choice :: rf_choice
  decrypt :: bool
  records :: "rf_record list"
  last_sig :: string
  last_error :: string
  generation :: nat
  rf_shown :: rf_view
  rf_mark :: "(string \<times> string) option"
  rf_store :: "rf_choice option"
  rf_flight :: "(nat \<times> bool) list"

definition COLS :: "bool \<Rightarrow> string list" where
  "COLS dec = [''ts'', ''dir'', ''rssi'', ''snr'', ''len'', ''outcome'', ''summary'', ''hex'', ''ascii'']
     @ (if dec then [''decoded''] else [])"

definition rf_save :: "rf_page \<Rightarrow> rf_page" where
  "rf_save p = p\<lparr>rf_store := Some (choice p)\<rparr>"

definition bad_status :: "rf_record \<Rightarrow> string option" where
  "bad_status r = (case rf_status r of
     None \<Rightarrow> None
   | Some s \<Rightarrow> if s \<noteq> '''' \<and> s \<noteq> ''ok'' then Some s else None)"

definition rf_cell_of :: "(string \<Rightarrow> bool) \<Rightarrow> rf_record \<Rightarrow> string \<Rightarrow> rf_cell" where
  "rf_cell_of cols r c = \<lparr>
     cell_text = (case (c = ''decoded'', bad_status r) of
        (True, Some s) \<Rightarrow> ''['' @ (case rf_decoded r of Some d \<Rightarrow> if d = '''' then s else d | None \<Rightarrow> s) @ '']''
      | _ \<Rightarrow> fmt (field_of c r) c),
     payload = (c = ''hex'' \<or> c = ''ascii'' \<or> c = ''decoded''),
     cell_hidden = (\<not> cols c)\<rparr>"

definition rf_row_of :: "bool \<Rightarrow> (string \<Rightarrow> bool) \<Rightarrow> rf_record \<Rightarrow> rf_row" where
  "rf_row_of dec cols r = \<lparr>
     rf_row_class = (case bad_status r of Some s \<Rightarrow> ''rf-'' @ s | None \<Rightarrow> ''''),
     rf_row_open = False,
     rf_cells = map (rf_cell_of cols r) (COLS dec)\<rparr>"

definition render_rf :: "(string \<Rightarrow> string \<Rightarrow> int) \<Rightarrow> rf_page \<Rightarrow> rf_page" where
  "render_rf lc p = (let ch = choice p in p\<lparr>rf_shown := (rf_shown p)\<lparr>
     head_hidden := (\<lambda>c. \<not> shown_cols ch c),
     aria_sort := (\<lambda>c. if sort_col ch = c then (if sort_desc ch then ''descending'' else ''ascending'') else ''none''),
     checks := shown_cols ch,
     rf_rows := map (rf_row_of (can_decrypt p) (shown_cols ch)) (sorted_records lc (sort_col ch) (sort_desc ch) (records p)),
     table_hidden := raw_view ch,
     rf_box_hidden := \<not> raw_view ch,
     rf_box_text := (if raw_view ch
        then (if records p = [] then ''(no output yet)'' else join [CHR 0x0A] (map rf_raw (records p)))
        else rf_box_text (rf_shown p)),
     notice_text := last_error p,
     notice_hidden := (last_error p = ''''),
     dec_button := (if decrypt p then (''true'', ''Decrypt: on'') else (''false'', ''Decrypt: off''))\<rparr>\<rparr>)"

subsection \<open>Polling\<close>

record rf_answer =
  ans_records :: "rf_record list"
  ans_error :: string
  ans_running :: bool

datatype rf_outcome = Answered rf_answer | Not_ok | Broken

definition rf_sig :: "rf_answer \<Rightarrow> string" where
  "rf_sig d = (let o' = (\<lambda>x. case x of None \<Rightarrow> '''' | Some s \<Rightarrow> s) in
     join '','' (map (\<lambda>r. rf_key r @ '':'' @ o' (rf_status r) @ '':'' @ o' (rf_kind r) @ '':'' @ o' (rf_peer r)
       @ '':'' @ o' (rf_decoded r)) (ans_records d)) @ ''|'' @ ans_error d)"

definition mark_running :: "bool \<Rightarrow> rf_page \<Rightarrow> rf_page" where
  "mark_running run p = p\<lparr>rf_mark := map_option (\<lambda>_.
     (if run then ''process running'' else ''process ended'', ''badge badge-'' @ (if run then ''running'' else ''stopped''))) (rf_mark p)\<rparr>"

text \<open>The addresses: \<open>base\<close> and, for decoded records, its first \<open>?job=\<close> replaced.\<close>

fun replace_first :: "string \<Rightarrow> string \<Rightarrow> string \<Rightarrow> string" where
  "replace_first pat rep [] = []"
| "replace_first pat rep (c # s) =
     (if take (length pat) (c # s) = pat then rep @ drop (length pat) (c # s) else c # replace_first pat rep s)"

definition rf_base :: "string \<Rightarrow> string \<Rightarrow> string" where
  "rf_base target job = ''/api/rflog/'' @ encodeURIComponent target @ ''?job='' @ encodeURIComponent job"

definition rf_url :: "string \<Rightarrow> string \<Rightarrow> bool \<Rightarrow> string" where
  "rf_url target job dec = (if dec then replace_first ''?job='' ''/decoded?job='' (rf_base target job) else rf_base target job)"

text \<open>A request carries the generation it was sent in, and whether it asks for decoded records.\<close>

definition poll_rf :: "rf_page \<Rightarrow> rf_page" where
  "poll_rf p = p\<lparr>rf_flight := rf_flight p @ [(generation p, decrypt p)]\<rparr>"

definition answered_rf :: "(string \<Rightarrow> string \<Rightarrow> int) \<Rightarrow> nat \<Rightarrow> rf_answer \<Rightarrow> rf_page \<Rightarrow> rf_page" where
  "answered_rf lc mine d p =
     (if mine \<noteq> generation p then p
      else let p1 = mark_running (ans_running d) p
           in if rf_sig d = last_sig p then p1
              else render_rf lc (p1\<lparr>last_sig := rf_sig d, records := ans_records d, last_error := ans_error d\<rparr>))"

definition settle_rf :: "(string \<Rightarrow> string \<Rightarrow> int) \<Rightarrow> nat \<Rightarrow> rf_outcome \<Rightarrow> rf_page \<Rightarrow> rf_page" where
  "settle_rf lc i out p =
     (let (mine, _) = rf_flight p ! i; q = p\<lparr>rf_flight := take i (rf_flight p) @ drop (Suc i) (rf_flight p)\<rparr>
      in case out of
           Answered d \<Rightarrow> answered_rf lc mine d q
         | Not_ok \<Rightarrow> q
         | Broken \<Rightarrow> q\<lparr>rf_mark := map_option (\<lambda>(_, cls). (''retrying'' @ ellipsis, cls)) (rf_mark q)\<rparr>)"

subsection \<open>The buttons\<close>

definition sort_click :: "(string \<Rightarrow> string \<Rightarrow> int) \<Rightarrow> string \<Rightarrow> rf_page \<Rightarrow> rf_page" where
  "sort_click lc c p = (let ch = choice p in render_rf lc (rf_save (p\<lparr>choice :=
     (if sort_col ch = c then ch\<lparr>sort_desc := \<not> sort_desc ch\<rparr> else ch\<lparr>sort_col := c, sort_desc := False\<rparr>)\<rparr>)))"

definition column_change :: "(string \<Rightarrow> string \<Rightarrow> int) \<Rightarrow> string \<Rightarrow> bool \<Rightarrow> rf_page \<Rightarrow> rf_page" where
  "column_change lc c b p = render_rf lc (rf_save (p\<lparr>choice := (choice p)\<lparr>shown_cols := (shown_cols (choice p))(c := b)\<rparr>\<rparr>))"

definition raw_click :: "(string \<Rightarrow> string \<Rightarrow> int) \<Rightarrow> rf_page \<Rightarrow> rf_page" where
  "raw_click lc p = (let b = (\<not> raw_view (choice p)) in
     render_rf lc (rf_save (p\<lparr>choice := (choice p)\<lparr>raw_view := b\<rparr>,
       rf_shown := (rf_shown p)\<lparr>raw_pressed := (if b then ''true'' else ''false'')\<rparr>\<rparr>)))"

definition strip_decoded :: "rf_record \<Rightarrow> rf_record" where
  "strip_decoded r = r\<lparr>rf_status := None, rf_kind := None, rf_peer := None, rf_decoded := None\<rparr>"

definition decrypt_click :: "(string \<Rightarrow> string \<Rightarrow> int) \<Rightarrow> rf_page \<Rightarrow> rf_page" where
  "decrypt_click lc p =
     (let p1 = p\<lparr>decrypt := \<not> decrypt p, generation := generation p + 1\<rparr>;
          p2 = (if decrypt p1 then p1\<lparr>choice := (choice p1)\<lparr>shown_cols := (shown_cols (choice p1))(''decoded'' := True)\<rparr>\<rparr>
                else p1\<lparr>records := map strip_decoded (records p1), last_error := ''''\<rparr>)
      in poll_rf (render_rf lc (rf_save (p2\<lparr>last_sig := ''''\<rparr>))))"

definition row_click :: "nat \<Rightarrow> rf_page \<Rightarrow> rf_page" where
  "row_click i p = p\<lparr>rf_shown := (rf_shown p)\<lparr>rf_rows := (rf_rows (rf_shown p))[i := (rf_rows (rf_shown p) ! i)
     \<lparr>rf_row_open := \<not> rf_row_open (rf_rows (rf_shown p) ! i)\<rparr>]\<rparr>\<rparr>"

text \<open>Clearing asks first; the form is not sent unless the operator confirms.\<close>

definition clear_prompt :: "string option \<Rightarrow> string" where
  "clear_prompt data_confirm = (case data_confirm of
     Some s \<Rightarrow> if s = '''' then ''Clear the RF log?'' else s
   | None \<Rightarrow> ''Clear the RF log?'')"

definition clear_submits :: "(string \<Rightarrow> bool) \<Rightarrow> string option \<Rightarrow> bool" where
  "clear_submits confirm data_confirm = confirm (clear_prompt data_confirm)"

subsection \<open>Loading the page\<close>

definition default_choice :: "bool \<Rightarrow> rf_choice" where
  "default_choice dec = \<lparr>shown_cols = (\<lambda>c. c \<in> set (COLS dec) \<and> (c = ''dir'' \<or> c = ''ascii'' \<or> c = ''decoded'')),
     sort_col = ''ts'', sort_desc = False, raw_view = False\<rparr>"

text \<open>The template's markup before the first rendering.\<close>

definition blank_view :: rf_view where
  "blank_view = \<lparr>head_hidden = (\<lambda>_. False), aria_sort = (\<lambda>_. ''''), checks = (\<lambda>_. False), rf_rows = [], table_hidden = False,
     rf_box_hidden = True, rf_box_text = '''', notice_text = '''', notice_hidden = True,
     dec_button = (''false'', ''Decrypt: off''), raw_pressed = ''false''\<rparr>"

definition load_rf :: "(string \<Rightarrow> string \<Rightarrow> int) \<Rightarrow> bool \<Rightarrow> (string \<times> string) option \<Rightarrow> rf_choice option \<Rightarrow> rf_page" where
  "load_rf lc dec badge saved = poll_rf (render_rf lc \<lparr>can_decrypt = dec,
     choice = (case saved of Some ch \<Rightarrow> ch | None \<Rightarrow> default_choice dec), decrypt = False, records = [],
     last_sig = '''', last_error = '''', generation = 0, rf_shown = blank_view, rf_mark = badge, rf_store = saved,
     rf_flight = []\<rparr>)"

text \<open>
  What can happen to a loaded page. The plain endpoint answers with records that carry nothing
  decoded and with no error.
\<close>

definition undecoded :: "rf_record \<Rightarrow> bool" where
  "undecoded r \<longleftrightarrow> rf_status r = None \<and> rf_kind r = None \<and> rf_peer r = None \<and> rf_decoded r = None"

definition plain_answer :: "rf_outcome \<Rightarrow> bool" where
  "plain_answer out = (case out of Answered d \<Rightarrow> list_all undecoded (ans_records d) \<and> ans_error d = '''' | _ \<Rightarrow> True)"

inductive rf_step :: "(string \<Rightarrow> string \<Rightarrow> int) \<Rightarrow> rf_page \<Rightarrow> rf_page \<Rightarrow> bool" for lc where
  tick: "rf_step lc p (poll_rf p)"
| settle: "i < length (rf_flight p) \<Longrightarrow> (\<not> snd (rf_flight p ! i) \<Longrightarrow> plain_answer out) \<Longrightarrow> rf_step lc p (settle_rf lc i out p)"
| sort_clicked: "rf_step lc p (sort_click lc c p)"
| column_changed: "rf_step lc p (column_change lc c b p)"
| raw_clicked: "rf_step lc p (raw_click lc p)"
| decrypt_clicked: "rf_step lc p (decrypt_click lc p)"
| row_clicked: "i < length (rf_rows (rf_shown p)) \<Longrightarrow> rf_step lc p (row_click i p)"

end
