(* ===== verification/Rflog_Props.thy ===== *)
theory Rflog_Props
  imports Rflog
begin

text \<open>
  The RF log page: with Decrypt off nothing decoded is kept or shown, whatever answers are still on
  their way; the table is a stable ordering with the empty fields last; the display choice survives a
  reload and the reveal does not.
\<close>

subsection \<open>The reveal\<close>

text \<open>A row that shows nothing decoded.\<close>

definition plain_row :: "bool \<Rightarrow> rf_row \<Rightarrow> bool" where
  "plain_row dec r \<longleftrightarrow> rf_row_class r = '''' \<and>
     (\<forall>(c, x) \<in> set (zip (COLS dec) (rf_cells r)). c = ''decoded'' \<longrightarrow> cell_text x = '''')"

lemma bad_status_undecoded: "undecoded r \<Longrightarrow> bad_status r = None"
  by (simp add: undecoded_def bad_status_def)

lemma decoded_field: "field_of ''decoded'' r = map_option JStr (rf_decoded r)"
  by (simp add: field_of_def number_field_def text_field_def)

lemma plain_row_of: "undecoded r \<Longrightarrow> plain_row dec (rf_row_of dec cols r)"
  by (auto simp: plain_row_def rf_row_of_def zip_map2 zip_same_conv_map rf_cell_of_def bad_status_undecoded
      decoded_field fmt_def undecoded_def)

text \<open>The invariant of the page: no request of the current generation asks for the other kind of records.\<close>

definition reveal_inv :: "rf_page \<Rightarrow> bool" where
  "reveal_inv p \<longleftrightarrow>
     (\<forall>(g, d) \<in> set (rf_flight p). g \<le> generation p \<and> (g = generation p \<longrightarrow> d = decrypt p)) \<and>
     (\<not> decrypt p \<longrightarrow> list_all undecoded (records p) \<and> last_error p = ''''
        \<and> list_all (plain_row (can_decrypt p)) (rf_rows (rf_shown p)))"

lemma render_rf_simps [simp]:
  "decrypt (render_rf lc p) = decrypt p" "records (render_rf lc p) = records p" "choice (render_rf lc p) = choice p"
  "last_error (render_rf lc p) = last_error p" "generation (render_rf lc p) = generation p"
  "rf_flight (render_rf lc p) = rf_flight p" "can_decrypt (render_rf lc p) = can_decrypt p" "rf_store (render_rf lc p) = rf_store p"
  by (simp_all add: render_rf_def Let_def)

lemma render_rf_rows:
  "rf_rows (rf_shown (render_rf lc p)) = map (rf_row_of (can_decrypt p) (shown_cols (choice p)))
     (sorted_records lc (sort_col (choice p)) (sort_desc (choice p)) (records p))"
  by (simp add: render_rf_def Let_def)

lemma reveal_render:
  assumes "\<forall>(g, d) \<in> set (rf_flight p). g \<le> generation p \<and> (g = generation p \<longrightarrow> d = decrypt p)"
    and "\<not> decrypt p \<Longrightarrow> list_all undecoded (records p) \<and> last_error p = ''''"
  shows "reveal_inv (render_rf lc p)"
  using assms by (auto simp: reveal_inv_def render_rf_rows list_all_iff plain_row_of sorted_records_def)

lemma reveal_poll: "reveal_inv p \<Longrightarrow> reveal_inv (poll_rf p)"
  by (auto simp: reveal_inv_def poll_rf_def)

text \<open>An answer is dropped, only marks the process, or replaces the records.\<close>

lemma answered_rf_cases:
  obtains (drop) "answered_rf lc mine d p = p"
  | (mark) "answered_rf lc mine d p = mark_running (ans_running d) p"
  | (replaced) "mine = generation p" "answered_rf lc mine d p = render_rf lc
      ((mark_running (ans_running d) p)\<lparr>last_sig := rf_sig d, records := ans_records d, last_error := ans_error d\<rparr>)"
  by (cases "mine = generation p"; cases "rf_sig d = last_sig p") (simp_all add: answered_rf_def Let_def)

text \<open>A settled request is answered, or changes at most the mark.\<close>

lemma settle_rf_cases:
  obtains (answered) d where "out = Answered d" "settle_rf lc i out p = answered_rf lc (fst (rf_flight p ! i)) d
      (p\<lparr>rf_flight := take i (rf_flight p) @ drop (Suc i) (rf_flight p)\<rparr>)"
  | (other) m where "settle_rf lc i out p = p\<lparr>rf_flight := take i (rf_flight p) @ drop (Suc i) (rf_flight p), rf_mark := m\<rparr>"
proof (cases out)
  case Not_ok
  then have "settle_rf lc i out p = p\<lparr>rf_flight := take i (rf_flight p) @ drop (Suc i) (rf_flight p), rf_mark := rf_mark p\<rparr>"
    by (simp add: settle_rf_def split: prod.splits)
  then show ?thesis by (rule other)
next
  case Broken
  then show ?thesis by (intro other) (simp add: settle_rf_def split: prod.splits)
qed (use answered in \<open>simp add: settle_rf_def split: prod.splits\<close>)

lemma mark_running_simps [simp]:
  "choice (mark_running b p) = choice p" "rf_store (mark_running b p) = rf_store p" "can_decrypt (mark_running b p) = can_decrypt p"
  "rf_shown (mark_running b p) = rf_shown p" "decrypt (mark_running b p) = decrypt p" "rf_flight (mark_running b p) = rf_flight p"
  "generation (mark_running b p) = generation p" "records (mark_running b p) = records p" "last_error (mark_running b p) = last_error p"
  by (simp_all add: mark_running_def)

lemma reveal_answered:
  assumes "reveal_inv p" and "mine = generation p \<Longrightarrow> \<not> decrypt p \<Longrightarrow> plain_answer (Answered d)"
  shows "reveal_inv (answered_rf lc mine d p)"
proof (cases rule: answered_rf_cases [of lc mine d p])
  case replaced
  show ?thesis unfolding replaced(2)
    by (rule reveal_render) (use assms replaced(1) in \<open>auto simp: reveal_inv_def plain_answer_def\<close>)
qed (use assms(1) in \<open>simp_all add: reveal_inv_def\<close>)

lemma reveal_settle:
  assumes inv: "reveal_inv p" and i: "i < length (rf_flight p)" and out: "\<not> snd (rf_flight p ! i) \<Longrightarrow> plain_answer out"
  shows "reveal_inv (settle_rf lc i out p)"
proof -
  define q where "q = p\<lparr>rf_flight := take i (rf_flight p) @ drop (Suc i) (rf_flight p)\<rparr>"
  have rest: "set (rf_flight q) \<subseteq> set (rf_flight p)"
    using set_take_subset [of i "rf_flight p"] set_drop_subset [of "Suc i" "rf_flight p"] by (auto simp: q_def)
  have q: "reveal_inv q" using inv rest unfolding reveal_inv_def q_def by auto
  have "rf_flight p ! i \<in> set (rf_flight p)" using i by simp
  with inv have cur: "fst (rf_flight p ! i) = generation p \<Longrightarrow> snd (rf_flight p ! i) = decrypt p"
    by (fastforce simp: reveal_inv_def)
  show ?thesis
  proof (cases rule: settle_rf_cases [of out lc i p])
    case (answered d)
    show ?thesis unfolding answered(2) q_def [symmetric]
      by (rule reveal_answered [OF q]) (use cur out answered(1) in \<open>simp add: q_def\<close>)
  next
    case (other m)
    show ?thesis unfolding other using q by (simp add: reveal_inv_def q_def)
  qed
qed

lemma reveal_decrypt_click:
  assumes "reveal_inv p"
  shows "reveal_inv (decrypt_click lc p)"
  unfolding decrypt_click_def Let_def
  by (rule reveal_poll, rule reveal_render)
    (use assms in \<open>auto simp: reveal_inv_def rf_save_def strip_decoded_def undecoded_def list_all_iff\<close>)

lemma plain_row_toggle: "plain_row dec r \<Longrightarrow> plain_row dec (r\<lparr>rf_row_open := b\<rparr>)"
  by (simp add: plain_row_def)

lemma reveal_step: "rf_step lc p q \<Longrightarrow> reveal_inv p \<Longrightarrow> reveal_inv q"
proof (induction rule: rf_step.induct)
  case (row_clicked i p)
  then have "list_all (plain_row (can_decrypt p)) (rf_rows (rf_shown (row_click i p)))" if "\<not> decrypt p"
    using that set_update_subset_insert [of "rf_rows (rf_shown p)" i]
    by (fastforce simp: row_click_def reveal_inv_def list_all_iff plain_row_toggle)
  with row_clicked show ?case by (auto simp: reveal_inv_def row_click_def)
next
  case (sort_clicked p c)
  show ?case unfolding sort_click_def Let_def
    by (rule reveal_render) (use sort_clicked in \<open>auto simp: reveal_inv_def rf_save_def\<close>)
next
  case (column_changed p c b)
  show ?case unfolding column_change_def
    by (rule reveal_render) (use column_changed in \<open>auto simp: reveal_inv_def rf_save_def\<close>)
next
  case (raw_clicked p)
  show ?case unfolding raw_click_def Let_def
    by (rule reveal_render) (use raw_clicked in \<open>auto simp: reveal_inv_def rf_save_def\<close>)
qed (simp_all add: reveal_poll reveal_settle reveal_decrypt_click)

lemma reveal_load: "reveal_inv (load_rf lc dec badge saved)"
  unfolding load_rf_def by (rule reveal_poll, rule reveal_render) auto

lemma reveal_reachable: "(rf_step lc)\<^sup>*\<^sup>* (load_rf lc dec badge saved) p \<Longrightarrow> reveal_inv p"
  by (induction rule: rtranclp_induct) (auto intro: reveal_load reveal_step)

text \<open>
  C33. While Decrypt is off, the page neither keeps nor shows anything decoded, in any state it can
  reach: no record carries a decoded field, no row is marked or shows a plaintext, and no error of
  the decoder is shown. Answers that were on their way when it was turned off change nothing. The
  plain endpoint is taken to deliver records without decoded fields.
\<close>

theorem decrypt_off_reveals_nothing:
  assumes "(rf_step lc)\<^sup>*\<^sup>* (load_rf lc dec badge saved) p" and "\<not> decrypt p"
  shows "list_all undecoded (records p) \<and> last_error p = '''' \<and> list_all (plain_row (can_decrypt p)) (rf_rows (rf_shown p))"
  using reveal_reachable [OF assms(1)] assms(2) by (simp add: reveal_inv_def)

definition secret_record :: rf_record where
  "secret_record = \<lparr>rf_key = ''k'', rf_raw = ''r'', rf_ts = Some ''t'', rf_dir = Some ''RX'', rf_rssi = Some (-80), rf_snr = None,
     rf_len = Some 3, rf_outcome = None, rf_summary = None, rf_hex = None, rf_ascii = None,
     rf_status = Some ''ok'', rf_kind = None, rf_peer = None, rf_decoded = Some ''hello''\<rparr>"

definition late_reveal :: "(string \<Rightarrow> string \<Rightarrow> int) \<Rightarrow> rf_page" where
  "late_reveal lc = settle_rf lc 1 (Answered \<lparr>ans_records = [secret_record], ans_error = '''', ans_running = True\<rparr>)
     (decrypt_click lc (decrypt_click lc (load_rf lc True None None)))"

lemma decrypt_off_reveals_nothing_witness:
  "list_all undecoded (records (late_reveal (\<lambda>_ _. 0))) \<and> last_error (late_reveal (\<lambda>_ _. 0)) = ''''
     \<and> list_all (plain_row (can_decrypt (late_reveal (\<lambda>_ _. 0)))) (rf_rows (rf_shown (late_reveal (\<lambda>_ _. 0))))"
proof (rule decrypt_off_reveals_nothing)
  let ?lc = "\<lambda>_ _. 0 :: int" and ?p = "load_rf (\<lambda>_ _. 0) True None None"
  have flight: "rf_flight (decrypt_click ?lc (decrypt_click ?lc ?p)) = [(0, False), (1, True), (2, False)]"
    by (simp add: decrypt_click_def load_rf_def poll_rf_def rf_save_def Let_def)
  have "(rf_step ?lc)\<^sup>*\<^sup>* ?p (decrypt_click ?lc (decrypt_click ?lc ?p))"
    by (meson rf_step.decrypt_clicked rtranclp.rtrancl_into_rtrancl rtranclp.rtrancl_refl)
  moreover have "rf_step ?lc (decrypt_click ?lc (decrypt_click ?lc ?p)) (late_reveal ?lc)"
    unfolding late_reveal_def by (rule rf_step.settle) (simp_all add: flight)
  ultimately show "(rf_step ?lc)\<^sup>*\<^sup>* ?p (late_reveal ?lc)" by (rule rtranclp.rtrancl_into_rtrancl)
  show "\<not> decrypt (late_reveal ?lc)"
    by (simp add: late_reveal_def settle_rf_def flight answered_rf_def decrypt_click_def load_rf_def poll_rf_def rf_save_def Let_def)
qed

subsection \<open>The order of the table\<close>

text \<open>A collation, as the language requires of \<open>localeCompare\<close>: a consistent order of the strings.\<close>

definition collation :: "(string \<Rightarrow> string \<Rightarrow> int) \<Rightarrow> bool" where
  "collation lc \<longleftrightarrow> (\<forall>a b. 0 < lc a b \<longleftrightarrow> lc b a < 0) \<and> (\<forall>a b c. lc a b \<le> 0 \<longrightarrow> lc b c \<le> 0 \<longrightarrow> lc a c \<le> 0)"

lemma collation_dual: "collation lc \<Longrightarrow> collation (\<lambda>a b. lc b a)"
  by (auto simp: collation_def)

text \<open>The comparator of a column of numbers is consistent, and of a column of texts with a collation.\<close>

interpretation number_column: consistent_comparator
  "\<lambda>a b. compare_values lc desc (map_option JNum (f a)) (map_option JNum (f b))"
  for lc :: "string \<Rightarrow> string \<Rightarrow> int" and desc :: bool and f :: "rf_record \<Rightarrow> rat option"
  by unfold_locales (auto simp: compare_values_def Let_def split: option.splits if_splits)

lemma text_column:
  assumes "collation lc"
  shows "consistent_comparator (\<lambda>a b. compare_values lc desc (map_option JStr (f a)) (map_option JStr (f b)))"
proof -
  have c1: "0 < lc a b \<longleftrightarrow> lc b a < 0" for a b using assms by (auto simp: collation_def)
  have c2: "lc a b \<le> 0 \<Longrightarrow> lc b c \<le> 0 \<Longrightarrow> lc a c \<le> 0" for a b c using assms by (auto simp: collation_def)
  have c3: "0 \<le> lc a b \<longleftrightarrow> lc b a \<le> 0" for a b using c1 [of b a] by linarith
  have str: "compare_values lc desc (Some (JStr a)) (Some (JStr b)) = of_int ((if desc then -1 else 1) * lc a b)" for a b
    by (simp add: compare_values_def js_string_def)
  have none: "compare_values lc desc None None = 0" "compare_values lc desc None (Some v) = 1"
    "compare_values lc desc (Some v) None = -1" for v
    by (simp_all add: compare_values_def split: jval.splits)
  show ?thesis
  proof
    fix x y z
    show "0 < compare_values lc desc (map_option JStr (f x)) (map_option JStr (f y)) \<longleftrightarrow>
        compare_values lc desc (map_option JStr (f y)) (map_option JStr (f x)) < 0"
      by (cases "f x"; cases "f y") (simp_all add: str none c1)
    assume "compare_values lc desc (map_option JStr (f x)) (map_option JStr (f y)) \<le> 0"
      "compare_values lc desc (map_option JStr (f y)) (map_option JStr (f z)) \<le> 0"
    then show "compare_values lc desc (map_option JStr (f x)) (map_option JStr (f z)) \<le> 0"
      by (cases "f x"; cases "f y"; cases "f z")
        (auto simp: str none c3 split: if_splits intro: c2)
  qed
qed

lemma column_cases:
  obtains (number) f where "field_of c = (\<lambda>r. map_option JNum (f r))"
  | (str) f where "field_of c = (\<lambda>r. map_option JStr (f r))"
proof (cases "number_field c")
  case (Some f)
  then show ?thesis by (intro number [of f]) (simp add: field_of_def fun_eq_iff)
next
  case None
  show ?thesis
  proof (cases "text_field c")
    case (Some f)
    with None show ?thesis by (intro str [of f]) (simp add: field_of_def fun_eq_iff)
  next
    case n: None
    with None show ?thesis by (intro str [of "\<lambda>_. None"]) (simp add: field_of_def fun_eq_iff)
  qed
qed

lemma rf_comparator: "collation lc \<Longrightarrow> consistent_comparator (rf_compare lc c desc)"
  by (cases c rule: column_cases)
    (simp_all add: rf_compare_def [abs_def] number_column.consistent_comparator_axioms text_column)

text \<open>The order the header promises, between two fields that are present.\<close>

definition in_order :: "(string \<Rightarrow> string \<Rightarrow> int) \<Rightarrow> bool \<Rightarrow> jval option \<Rightarrow> jval option \<Rightarrow> bool" where
  "in_order lc desc x y \<longleftrightarrow> (case (x, y) of
     (Some (JNum a), Some (JNum b)) \<Rightarrow> if desc then b \<le> a else a \<le> b
   | (Some (JStr a), Some (JStr b)) \<Rightarrow> if desc then 0 \<le> lc a b else lc a b \<le> 0
   | _ \<Rightarrow> False)"

lemma in_order_compare:
  "compare_values lc desc (field_of c a) (field_of c b) \<le> 0 \<Longrightarrow> field_of c a \<noteq> None \<Longrightarrow> field_of c b \<noteq> None \<Longrightarrow>
     in_order lc desc (field_of c a) (field_of c b)"
  by (cases c rule: column_cases) (auto simp: compare_values_def in_order_def js_string_def split: if_splits)

lemma compare_same: "collation lc \<Longrightarrow> compare_values lc desc v v = 0"
proof -
  assume "collation lc"
  then have "0 < lc s s \<longleftrightarrow> lc s s < 0" for s by (auto simp: collation_def)
  then have "lc s s = 0" for s by (metis linorder_neqE_linordered_idom order_less_asym)
  then show ?thesis by (simp add: compare_values_def split: option.split jval.split)
qed

lemma compare_missing: "field_of c a = None \<Longrightarrow> 0 < rf_compare lc c desc a b \<longleftrightarrow> field_of c b \<noteq> None"
  by (auto simp: rf_compare_def compare_values_def split: option.splits)

text \<open>
  The table shows every record once: those that have the chosen field, in its order, up or down,
  and after them, in either direction, those that lack it. Records that tie keep the order the server
  delivered them in.
\<close>

theorem table_is_stable_order:
  assumes "collation lc"
  shows "\<exists>xs. rf_rows (rf_shown (render_rf lc p))
        = map (rf_row_of (can_decrypt p) (shown_cols (choice p))) (xs @ filter (\<lambda>r. field_of (sort_col (choice p)) r = None) (records p))
    \<and> mset xs = mset (filter (\<lambda>r. field_of (sort_col (choice p)) r \<noteq> None) (records p))
    \<and> sorted_wrt (\<lambda>a b. in_order lc (sort_desc (choice p)) (field_of (sort_col (choice p)) a) (field_of (sort_col (choice p)) b)) xs
    \<and> (\<forall>v. v \<noteq> None \<longrightarrow> filter (\<lambda>r. field_of (sort_col (choice p)) r = v) xs
         = filter (\<lambda>r. field_of (sort_col (choice p)) r = v) (records p))"
proof -
  define c where "c = sort_col (choice p)"
  define desc where "desc = sort_desc (choice p)"
  define ys where "ys = sorted_records lc c desc (records p)"
  define xs where "xs = filter (\<lambda>r. field_of c r \<noteq> None) ys"
  note cmp = rf_comparator [OF assms, of c desc]
  have ys: "ys = js_sort (rf_compare lc c desc) (records p)" by (simp add: ys_def sorted_records_def)
  have split: "ys = xs @ filter (\<lambda>r. field_of c r = None) (records p)"
    unfolding ys xs_def
    by (rule consistent_comparator.last_class [OF cmp]) (simp add: compare_missing)
  have m: "mset xs = mset (filter (\<lambda>r. field_of c r \<noteq> None) (records p))"
    unfolding xs_def ys by (simp only: mset_filter mset_js_sort)
  have "sorted_wrt (\<lambda>a b. rf_compare lc c desc a b \<le> 0) xs"
    unfolding xs_def ys by (rule sorted_wrt_filter) (rule consistent_comparator.sorted_js_sort [OF cmp])
  then have s: "sorted_wrt (\<lambda>a b. in_order lc desc (field_of c a) (field_of c b)) xs"
    by (rule sorted_wrt_mono_rel [rotated])
      (auto simp: xs_def rf_compare_def intro!: in_order_compare)
  have "filter (\<lambda>r. field_of c r = v) xs = filter (\<lambda>r. field_of c r = v) (records p)" if "v \<noteq> None" for v
  proof -
    have "filter (\<lambda>r. field_of c r = v) xs = filter (\<lambda>r. field_of c r = v) ys"
      unfolding xs_def filter_filter by (rule filter_cong) (use that in auto)
    also have "\<dots> = filter (\<lambda>r. field_of c r = v) (records p)"
      unfolding ys
      by (rule consistent_comparator.stable_js_sort [OF cmp])
        (simp add: rf_compare_def compare_same [OF assms])
    finally show ?thesis .
  qed
  with m s split show ?thesis
    unfolding render_rf_rows c_def [symmetric] desc_def [symmetric] ys_def [symmetric] by auto
qed

subsection \<open>What a reload keeps\<close>

text \<open>The header and the views agree with the display choice, and the choice is the stored one.\<close>

definition shows_choice :: "rf_view \<Rightarrow> rf_choice \<Rightarrow> bool" where
  "shows_choice v ch \<longleftrightarrow> head_hidden v = (\<lambda>c. \<not> shown_cols ch c) \<and> table_hidden v = raw_view ch
     \<and> aria_sort v = (\<lambda>c. if sort_col ch = c then (if sort_desc ch then ''descending'' else ''ascending'') else ''none'')"

lemma shows_render: "shows_choice (rf_shown (render_rf lc p)) (choice p)"
  by (simp add: shows_choice_def render_rf_def Let_def)

definition stored_choice :: "rf_page \<Rightarrow> rf_choice" where
  "stored_choice p = (case rf_store p of Some ch \<Rightarrow> ch | None \<Rightarrow> default_choice (can_decrypt p))"

definition choice_inv :: "rf_page \<Rightarrow> bool" where
  "choice_inv p \<longleftrightarrow> stored_choice p = choice p \<and> shows_choice (rf_shown p) (choice p)"

lemma choice_render: "stored_choice p = choice p \<Longrightarrow> choice_inv (render_rf lc p)"
  using shows_render [of lc p] by (simp add: choice_inv_def stored_choice_def split: option.splits)

lemma choice_click: "choice_inv (render_rf lc (rf_save p))"
  by (rule choice_render) (simp add: stored_choice_def rf_save_def)

lemma choice_poll: "choice_inv (poll_rf p) = choice_inv p"
  by (simp add: choice_inv_def stored_choice_def poll_rf_def split: option.splits)

lemma choice_settle: "choice_inv p \<Longrightarrow> choice_inv (settle_rf lc i out p)"
proof (cases rule: settle_rf_cases [of out lc i p])
  case (answered d)
  assume inv: "choice_inv p"
  define q where "q = p\<lparr>rf_flight := take i (rf_flight p) @ drop (Suc i) (rf_flight p)\<rparr>"
  have q: "choice_inv q" using inv by (simp add: choice_inv_def stored_choice_def q_def split: option.splits)
  show ?thesis unfolding answered(2) q_def [symmetric]
  proof (cases rule: answered_rf_cases [of lc "fst (rf_flight p ! i)" d q])
    case replaced
    show "choice_inv (answered_rf lc (fst (rf_flight p ! i)) d q)" unfolding replaced(2)
      by (rule choice_render) (use q in \<open>simp add: choice_inv_def stored_choice_def split: option.splits\<close>)
  qed (use q in \<open>simp_all add: choice_inv_def stored_choice_def split: option.splits\<close>)
next
  case (other m)
  assume "choice_inv p"
  then show ?thesis unfolding other by (simp add: choice_inv_def stored_choice_def split: option.splits)
qed

lemma choice_step: "rf_step lc p q \<Longrightarrow> choice_inv p \<Longrightarrow> choice_inv q"
  by (induction rule: rf_step.induct)
    (simp_all add: choice_poll choice_settle choice_click sort_click_def column_change_def raw_click_def decrypt_click_def
      Let_def row_click_def, simp add: choice_inv_def stored_choice_def shows_choice_def split: option.splits)

lemma same_decoder: "rf_step lc p q \<Longrightarrow> can_decrypt q = can_decrypt p"
  by (induction rule: rf_step.induct)
    (auto simp: poll_rf_def settle_rf_def answered_rf_def mark_running_def sort_click_def column_change_def raw_click_def
      decrypt_click_def row_click_def rf_save_def Let_def split: prod.splits rf_outcome.splits)

lemma load_rf_choice: "choice_inv (load_rf lc dec badge saved) \<and> can_decrypt (load_rf lc dec badge saved) = dec
    \<and> choice (load_rf lc dec badge saved) = (case saved of Some ch \<Rightarrow> ch | None \<Rightarrow> default_choice dec)
    \<and> \<not> decrypt (load_rf lc dec badge saved) \<and> records (load_rf lc dec badge saved) = []"
  unfolding load_rf_def choice_poll
  by (intro conjI choice_render) (simp_all add: stored_choice_def poll_rf_def split: option.splits)

lemma choice_reachable:
  assumes "(rf_step lc)\<^sup>*\<^sup>* (load_rf lc dec badge saved) p"
  shows "choice_inv p \<and> can_decrypt p = dec"
  using assms
  by (induction rule: rtranclp_induct) (use load_rf_choice in \<open>auto intro: choice_step simp: same_decoder\<close>)

text \<open>
  The display choice survives a reload from any state the page can reach: the columns, the order and
  the view are those it had, and the header shows them; the reveal is off again and no record is kept.
  The browser storage is taken to work.
\<close>

theorem choice_survives_reload:
  assumes "(rf_step lc)\<^sup>*\<^sup>* (load_rf lc dec badge saved) p"
  shows "let q = load_rf lc dec badge (rf_store p) in
    choice q = choice p \<and> head_hidden (rf_shown q) = head_hidden (rf_shown p) \<and> aria_sort (rf_shown q) = aria_sort (rf_shown p)
      \<and> table_hidden (rf_shown q) = table_hidden (rf_shown p) \<and> \<not> decrypt q \<and> records q = []"
  using choice_reachable [OF assms] load_rf_choice [of lc dec badge "rf_store p"]
  by (auto simp: choice_inv_def shows_choice_def stored_choice_def Let_def)

lemma choice_survives_reload_witness:
  "raw_view (choice (load_rf (\<lambda>_ _. 0) True None (rf_store (raw_click (\<lambda>_ _. 0) (load_rf (\<lambda>_ _. 0) True None None)))))"
proof -
  let ?p = "raw_click (\<lambda>_ _. 0) (load_rf (\<lambda>_ _. 0) True None None)"
  have "(rf_step (\<lambda>_ _. 0))\<^sup>*\<^sup>* (load_rf (\<lambda>_ _. 0) True None None) ?p" by (blast intro: rf_step.raw_clicked)
  from choice_survives_reload [OF this]
  have "choice (load_rf (\<lambda>_ _. 0) True None (rf_store ?p)) = choice ?p" by (simp add: Let_def)
  then show ?thesis by (simp add: raw_click_def rf_save_def load_rf_def poll_rf_def default_choice_def Let_def)
qed

text \<open>The pressed state of the Raw button is not among what a rendering writes, and is lost.\<close>

lemma raw_button_forgets:
  "let q = load_rf lc dec badge (rf_store (raw_click lc (load_rf lc dec badge None)))
   in table_hidden (rf_shown q) \<and> raw_pressed (rf_shown q) = ''false''"
  by (simp add: raw_click_def rf_save_def load_rf_def poll_rf_def render_rf_def default_choice_def blank_view_def Let_def)

definition plain_record :: "string \<Rightarrow> rat option \<Rightarrow> rf_record" where
  "plain_record k v = secret_record\<lparr>rf_key := k, rf_rssi := v, rf_decoded := None, rf_status := None\<rparr>"

lemma table_is_stable_order_witness:
  "\<exists>xs. mset xs = {#plain_record ''a'' (Some 1), plain_record ''c'' (Some 2)#}"
  using table_is_stable_order [of "\<lambda>_ _. 0" "(load_rf (\<lambda>_ _. 0) True None None)
      \<lparr>choice := (default_choice True)\<lparr>sort_col := ''rssi''\<rparr>,
       records := [plain_record ''a'' (Some 1), plain_record ''b'' None, plain_record ''c'' (Some 2)]\<rparr>"]
  by (auto simp: collation_def field_of_def number_field_def plain_record_def)

end
