(* ===== verification/Dom.thy ===== *)
theory Dom
  imports Prelude
begin

text \<open>
  The document as the section scripts walk it: the elements in document order, each with its parent's
  position. A parent comes before its children, so the way up from an element ends.
\<close>

record node =
  node_parent :: "nat option"
  is_details :: bool
  node_id :: string
  classes :: "string list"
  force_open :: bool
  force_scroll :: bool
  opened :: bool

type_synonym dom = "node list"

text \<open>An element and its ancestors (\<open>parentElement\<close> iterated), up to \<open>body\<close>.\<close>

function chain :: "dom \<Rightarrow> nat \<Rightarrow> nat list" where
  "chain d i = i # (case node_parent (d ! i) of
     Some j \<Rightarrow> if j < i then chain d j else []
   | None \<Rightarrow> [])"
  by pat_completeness auto

termination chain by (relation "measure snd") auto

declare chain.simps [simp del]

lemma chain_self [simp]: "i \<in> set (chain d i)" "chain d i \<noteq> []" "hd (chain d i) = i"
  by (subst chain.simps, simp)+

lemma in_chain_iff:
  "j \<in> set (chain d i) \<longleftrightarrow> j = i \<or> (\<exists>k. node_parent (d ! i) = Some k \<and> k < i \<and> j \<in> set (chain d k))"
  by (subst chain.simps) (cases "node_parent (d ! i)", auto)

lemma chain_le: "j \<in> set (chain d i) \<Longrightarrow> j \<le> i"
proof (induction d i rule: chain.induct)
  case (1 d i)
  from "1.prems" show ?case unfolding in_chain_iff [of j d i] using "1.IH" by fastforce
qed

lemma chain_suffix: "j \<in> set (chain d i) \<Longrightarrow> set (chain d j) \<subseteq> set (chain d i)"
proof (induction d i rule: chain.induct)
  case (1 d i)
  from "1.prems" consider "j = i" | k where "node_parent (d ! i) = Some k" "k < i" "j \<in> set (chain d k)"
    unfolding in_chain_iff [of j d i] by blast
  then show ?case
  proof cases
    case 2
    with "1.IH" have "set (chain d j) \<subseteq> set (chain d k)" by blast
    moreover have "set (chain d k) \<subseteq> set (chain d i)" using 2 in_chain_iff [of _ d i] by blast
    ultimately show ?thesis by blast
  qed simp
qed

lemma chain_linear:
  "a \<in> set (chain d i) \<Longrightarrow> b \<in> set (chain d i) \<Longrightarrow> a \<in> set (chain d b) \<or> b \<in> set (chain d a)"
proof (induction d i rule: chain.induct)
  case (1 d i)
  from "1.prems" consider "a = i" | "b = i"
    | k where "node_parent (d ! i) = Some k" "k < i" "a \<in> set (chain d k)" "b \<in> set (chain d k)"
    unfolding in_chain_iff [of a d i] in_chain_iff [of b d i] by auto
  then show ?case by cases (use 1 in blast)+
qed

lemma chain_trans: "a \<in> set (chain d b) \<Longrightarrow> b \<in> set (chain d c) \<Longrightarrow> a \<in> set (chain d c)"
  using chain_suffix by blast

lemma chain_antisym: "a \<in> set (chain d b) \<Longrightarrow> b \<in> set (chain d a) \<Longrightarrow> a = b"
  using chain_le [of a d b] chain_le [of b d a] by simp

text \<open>\<open>o.contains(s)\<close>, and \<open>closest\<close> of a predicate.\<close>

definition within :: "dom \<Rightarrow> nat \<Rightarrow> nat \<Rightarrow> bool" where
  "within d a i \<longleftrightarrow> a \<in> set (chain d i)"

definition closest :: "(node \<Rightarrow> bool) \<Rightarrow> dom \<Rightarrow> nat \<Rightarrow> nat option" where
  "closest P d i = find (\<lambda>j. P (d ! j)) (chain d i)"

definition has_class :: "string \<Rightarrow> node \<Rightarrow> bool" where
  "has_class c n \<longleftrightarrow> c \<in> set (classes n)"

text \<open>A descendant selector \<open>.a .b\<close>: an element with a proper ancestor of a class.\<close>

definition under_class :: "string \<Rightarrow> dom \<Rightarrow> nat \<Rightarrow> bool" where
  "under_class c d i \<longleftrightarrow> list_ex (\<lambda>j. has_class c (d ! j)) (tl (chain d i))"

definition all_nodes :: "(nat \<Rightarrow> bool) \<Rightarrow> dom \<Rightarrow> nat list" where
  "all_nodes P d = filter P [0..<length d]"

lemma set_all_nodes [simp]: "set (all_nodes P d) = {i. i < length d \<and> P i}"
  by (auto simp: all_nodes_def)

text \<open>Writing \<open>open\<close> leaves the structure alone.\<close>

definition set_open :: "bool \<Rightarrow> dom \<Rightarrow> nat \<Rightarrow> dom" where
  "set_open b d i = d[i := (d ! i)\<lparr>opened := b\<rparr>]"

definition set_opens :: "bool \<Rightarrow> nat list \<Rightarrow> dom \<Rightarrow> dom" where
  "set_opens b is d = foldl (set_open b) d is"

definition shape :: "node \<Rightarrow> node" where
  "shape n = n\<lparr>opened := False\<rparr>"

definition same_structure :: "dom \<Rightarrow> dom \<Rightarrow> bool" where
  "same_structure d e \<longleftrightarrow> map shape d = map shape e"

lemma length_set_opens [simp]: "length (set_opens b is d) = length d"
  by (induction "is" arbitrary: d) (auto simp: set_opens_def set_open_def)

lemma nth_set_opens: "i < length d \<Longrightarrow> set_opens b is d ! i = (if i \<in> set is then (d ! i)\<lparr>opened := b\<rparr> else d ! i)"
proof (induction "is" arbitrary: d)
  case (Cons j js)
  have e: "set_opens b (j # js) d = set_opens b js (set_open b d j)" by (simp add: set_opens_def)
  have "set_open b d j ! i = (if i = j then (d ! i)\<lparr>opened := b\<rparr> else d ! i)"
    using Cons.prems by (simp add: set_open_def nth_list_update)
  with Cons show ?case unfolding e by (cases "j = i") (auto simp: set_open_def)
qed (simp add: set_opens_def)

lemma opened_set_opens: "i < length d \<Longrightarrow> opened (set_opens b is d ! i) = (if i \<in> set is then b else opened (d ! i))"
  by (simp add: nth_set_opens)

lemma parent_set_opens: "i < length d \<Longrightarrow> node_parent (set_opens b is d ! i) = node_parent (d ! i)"
  by (simp add: nth_set_opens)

lemma chain_cong:
  "i < length d \<Longrightarrow> length d = length e \<Longrightarrow> \<forall>j < length d. node_parent (d ! j) = node_parent (e ! j) \<Longrightarrow> chain d i = chain e i"
proof (induction d i rule: chain.induct)
  case (1 d i)
  show ?case by (subst (1 2) chain.simps) (use 1 in \<open>auto split: option.splits\<close>)
qed

lemma chain_set_opens [simp]: "i < length d \<Longrightarrow> chain (set_opens b is d) i = chain d i"
  by (rule chain_cong) (auto simp: parent_set_opens)

end
