(* ===== verification/Stacks.thy ===== *)
theory Stacks
  imports Dom JsStr Run_View
begin

text \<open>
  Open and close behaviour of the stacks page, \<open>static/stacks_state.js\<close>: the path key of a section,
  the section a load or a link opens, the two accordions, and the memory of the open rows. Scrolling
  (\<open>pinDuring\<close>, \<open>scrollIntoView\<close>) and storage failures are left out.
\<close>

subsection \<open>Keys\<close>

definition earlier_siblings :: "dom \<Rightarrow> nat \<Rightarrow> nat" where
  "earlier_siblings d i = length (filter (\<lambda>j. node_parent (d ! j) = node_parent (d ! i) \<and> is_details (d ! j)) [0..<i])"

definition key_part :: "dom \<Rightarrow> nat \<Rightarrow> string" where
  "key_part d i = (if node_id (d ! i) \<noteq> '''' then CHR ''#'' # node_id (d ! i) else CHR ''d'' # show_nat (earlier_siblings d i))"

definition details_chain :: "dom \<Rightarrow> nat \<Rightarrow> nat list" where
  "details_chain d i = filter (\<lambda>j. is_details (d ! j)) (chain d i)"

definition keyFor :: "dom \<Rightarrow> nat \<Rightarrow> string" where
  "keyFor d i = join ''/'' (rev (map (key_part d) (details_chain d i)))"

definition nested :: "dom \<Rightarrow> nat \<Rightarrow> bool" where
  "nested d i \<longleftrightarrow> list_ex (\<lambda>j. is_details (d ! j)) (tl (chain d i))"

subsection \<open>The fragment of the address\<close>

definition hex_digit :: "char \<Rightarrow> nat option" where
  "hex_digit c = (let n = of_char c :: nat in
     if 48 \<le> n \<and> n \<le> 57 then Some (n - 48)
     else if 65 \<le> n \<and> n \<le> 70 then Some (n - 55)
     else if 97 \<le> n \<and> n \<le> 102 then Some (n - 87) else None)"

text \<open>\<open>decodeURIComponent\<close>: the escapes first, each byte marked as escaped or not; then the escaped bytes
  from 128 on must form well-formed UTF-8 sequences.\<close>

fun unescape :: "string \<Rightarrow> (nat \<times> bool) list option" where
  "unescape (c # a # b # s) =
     (if c = CHR ''%''
      then (case (hex_digit a, hex_digit b) of
          (Some x, Some y) \<Rightarrow> map_option ((#) (16 * x + y, True)) (unescape s)
        | _ \<Rightarrow> None)
      else map_option ((#) (of_char c, False)) (unescape (a # b # s)))"
| "unescape s = (if CHR ''%'' \<in> set s then None else Some (map (\<lambda>c. (of_char c, False)) s))"

fun utf8_ok :: "nat \<Rightarrow> nat \<Rightarrow> nat \<Rightarrow> (nat \<times> bool) list \<Rightarrow> bool" where
  "utf8_ok k lo hi [] \<longleftrightarrow> k = 0"
| "utf8_ok (Suc k) lo hi ((b, esc) # s) \<longleftrightarrow> esc \<and> lo \<le> b \<and> b \<le> hi \<and> utf8_ok k 128 191 s"
| "utf8_ok 0 lo hi ((b, esc) # s) \<longleftrightarrow>
     (if \<not> esc \<or> b < 128 then utf8_ok 0 128 191 s
      else if 194 \<le> b \<and> b \<le> 223 then utf8_ok 1 128 191 s
      else if b = 224 then utf8_ok 2 160 191 s
      else if b = 237 then utf8_ok 2 128 159 s
      else if 225 \<le> b \<and> b \<le> 239 then utf8_ok 2 128 191 s
      else if b = 240 then utf8_ok 3 144 191 s
      else if 241 \<le> b \<and> b \<le> 243 then utf8_ok 3 128 191 s
      else if b = 244 then utf8_ok 3 128 143 s
      else False)"

definition decodeURIComponent :: "string \<Rightarrow> string option" where
  "decodeURIComponent s = (case unescape s of
     None \<Rightarrow> None
   | Some bs \<Rightarrow> if utf8_ok 0 128 191 bs then Some (map (char_of \<circ> fst) bs) else None)"

definition getElementById :: "dom \<Rightarrow> string \<Rightarrow> nat option" where
  "getElementById d s = (if s = '''' then None else find (\<lambda>i. node_id (d ! i) = s) [0..<length d])"

definition detailsForHash :: "dom \<Rightarrow> string \<Rightarrow> nat option" where
  "detailsForHash d hash =
     (if length hash \<le> 1 then None
      else case getElementById d (case decodeURIComponent (tl hash) of Some s \<Rightarrow> s | None \<Rightarrow> tl hash) of
          None \<Rightarrow> None
        | Some i \<Rightarrow> closest is_details d i)"

subsection \<open>The page\<close>

text \<open>
  The toggle events that are queued for elements whose \<open>open\<close> changed: an element has at most one.
  \<open>timers\<close> counts the pending resets of \<open>programmaticOpen\<close>.
\<close>

record stacks_page =
  doc :: dom
  toggles :: "nat list"
  programmatic :: bool
  timers :: nat
  bound :: bool
  open_cookie :: string
  secure_page :: bool
  acted :: "(string \<times> nat) option"

definition queue_toggle :: "nat \<Rightarrow> nat list \<Rightarrow> nat list" where
  "queue_toggle i q = filter (\<lambda>j. j \<noteq> i) q @ [i]"

definition write_open :: "bool \<Rightarrow> nat list \<Rightarrow> stacks_page \<Rightarrow> stacks_page" where
  "write_open b is p = p\<lparr>doc := set_opens b is (doc p),
     toggles := fold queue_toggle (filter (\<lambda>i. opened (doc p ! i) \<noteq> b) is) (toggles p)\<rparr>"

definition openWithAncestors :: "nat \<Rightarrow> stacks_page \<Rightarrow> stacks_page" where
  "openWithAncestors i p = write_open True (details_chain (doc p) i) p"

definition openTarget :: "nat \<Rightarrow> stacks_page \<Rightarrow> stacks_page" where
  "openTarget i p = (openWithAncestors i (p\<lparr>programmatic := True\<rparr>))\<lparr>timers := timers p + 1\<rparr>"

text \<open>\<open>replace(/^stackrow-/, "")\<close>.\<close>

definition strip_stackrow :: "string \<Rightarrow> string" where
  "strip_stackrow s = (if take 9 s = ''stackrow-'' then drop 9 s else s)"

definition open_rows :: "dom \<Rightarrow> nat list" where
  "open_rows d = all_nodes (\<lambda>i. is_details (d ! i) \<and> under_class ''stacklist'' d i
     \<and> opened (d ! i) \<and> has_class ''stackrow'' (d ! i) \<and> node_id (d ! i) \<noteq> '''') d"

definition saveOpenSet :: "stacks_page \<Rightarrow> stacks_page" where
  "saveOpenSet p = p\<lparr>open_cookie := ''lhpc_open=''
     @ encodeURIComponent (join '','' (map (\<lambda>i. strip_stackrow (node_id (doc p ! i))) (open_rows (doc p))))
     @ '';path=/;samesite=strict'' @ (if secure_page p then '';secure'' else '''')\<rparr>"

subsection \<open>The accordions\<close>

definition main_rows :: "dom \<Rightarrow> nat list" where
  "main_rows d = all_nodes (\<lambda>i. has_class ''stackrow'' (d ! i) \<and> under_class ''stacklist'' d i) d"

text \<open>\<open>o.querySelectorAll("details")\<close>.\<close>

definition sub_details :: "dom \<Rightarrow> nat \<Rightarrow> nat list" where
  "sub_details d r = all_nodes (\<lambda>i. is_details (d ! i) \<and> r \<in> set (tl (chain d i))) d"

definition on_row_toggle :: "nat \<Rightarrow> stacks_page \<Rightarrow> stacks_page" where
  "on_row_toggle row p =
     (if \<not> opened (doc p ! row) \<or> programmatic p then p
      else let d = doc p in
        write_open False (sub_details d row)
          (write_open False (concat (map (\<lambda>r. r # sub_details d r) (filter (\<lambda>r. r \<noteq> row) (main_rows d)))) p))"

definition sub_panels :: "dom \<Rightarrow> nat list" where
  "sub_panels d = all_nodes (\<lambda>i. has_class ''advcfg'' (d ! i) \<and> under_class ''stackrow-body'' d i) d"

definition panels_in :: "dom \<Rightarrow> nat \<Rightarrow> nat list" where
  "panels_in d b = all_nodes (\<lambda>i. is_details (d ! i) \<and> has_class ''advcfg'' (d ! i) \<and> b \<in> set (tl (chain d i))) d"

definition on_sub_toggle :: "nat \<Rightarrow> stacks_page \<Rightarrow> stacks_page" where
  "on_sub_toggle s p =
     (if \<not> opened (doc p ! s) \<or> programmatic p then p
      else case closest (has_class ''stackrow-body'') (doc p) s of
          None \<Rightarrow> p
        | Some b \<Rightarrow> write_open False
            (filter (\<lambda>o'. o' \<noteq> s \<and> opened (doc p ! o') \<and> \<not> within (doc p) o' s \<and> \<not> within (doc p) s o') (panels_in (doc p) b)) p)"

text \<open>A queued toggle event: the capturing listener of the document first, then those of the element.\<close>

definition fire_toggle :: "nat \<Rightarrow> stacks_page \<Rightarrow> stacks_page" where
  "fire_toggle i p =
     (let p1 = saveOpenSet (p\<lparr>toggles := filter (\<lambda>j. j \<noteq> i) (toggles p)\<rparr>);
          p2 = (if bound p \<and> i \<in> set (main_rows (doc p)) then on_row_toggle i p1 else p1)
      in if bound p \<and> i \<in> set (sub_panels (doc p)) then on_sub_toggle i p2 else p2)"

definition reset_timer :: "stacks_page \<Rightarrow> stacks_page" where
  "reset_timer p = p\<lparr>timers := timers p - 1, programmatic := False\<rparr>"

text \<open>A click on a summary.\<close>

definition user_toggle :: "nat \<Rightarrow> stacks_page \<Rightarrow> stacks_page" where
  "user_toggle i p = write_open (\<not> opened (doc p ! i)) [i] p"

definition hashchange :: "string \<Rightarrow> stacks_page \<Rightarrow> stacks_page" where
  "hashchange hash p = (case detailsForHash (doc p) hash of
     None \<Rightarrow> p
   | Some i \<Rightarrow> openTarget i (write_open False (all_nodes (\<lambda>j. is_details (doc p ! j)) (doc p)) p))"

subsection \<open>Loading the page\<close>

text \<open>The section a submit sits in: the submitter's, or else the form's.\<close>

definition acted_section :: "dom \<Rightarrow> nat option \<Rightarrow> nat option \<Rightarrow> nat option" where
  "acted_section d btn form = (case btn of
     Some b \<Rightarrow> (case closest is_details d b of Some s \<Rightarrow> Some s | None \<Rightarrow> Option.bind form (closest is_details d))
   | None \<Rightarrow> Option.bind form (closest is_details d))"

definition submit_page :: "nat option \<Rightarrow> nat option \<Rightarrow> nat \<Rightarrow> stacks_page \<Rightarrow> stacks_page" where
  "submit_page btn form scroll p = (case acted_section (doc p) btn form of
     None \<Rightarrow> p
   | Some s \<Rightarrow> p\<lparr>acted := Some (keyFor (doc p) s, scroll)\<rparr>)"

definition forced_target :: "dom \<Rightarrow> nat option \<Rightarrow> nat option" where
  "forced_target d hashDetails =
     (case find (\<lambda>i. force_scroll (d ! i)) [0..<length d] of
        Some i \<Rightarrow> Some i
      | None \<Rightarrow> (case find (\<lambda>i. is_details (d ! i) \<and> force_open (d ! i) \<and> nested d i) [0..<length d] of
            Some i \<Rightarrow> Some i
          | None \<Rightarrow> (case hashDetails of Some h \<Rightarrow> if nested d h then Some h else None | None \<Rightarrow> None)))"

definition act_element :: "dom \<Rightarrow> (string \<times> nat) option \<Rightarrow> nat option" where
  "act_element d act = (case act of
     Some (k, _) \<Rightarrow> if k = '''' then None else find (\<lambda>i. is_details (d ! i) \<and> keyFor d i = k) [0..<length d]
   | None \<Rightarrow> None)"

definition load_target :: "dom \<Rightarrow> (string \<times> nat) option \<Rightarrow> bool \<Rightarrow> string \<Rightarrow> nat option" where
  "load_target d act flash hash =
     (let h = detailsForHash d hash; forced = forced_target d h;
          returned = (act \<noteq> None \<and> (flash \<or> forced \<noteq> None \<or> h \<noteq> None))
      in case act_element d act of
           Some a \<Rightarrow> if returned then Some a else (case forced of Some f \<Rightarrow> Some f | None \<Rightarrow> h)
         | None \<Rightarrow> (case forced of Some f \<Rightarrow> Some f | None \<Rightarrow> h))"

definition load_stacks :: "dom \<Rightarrow> (string \<times> nat) option \<Rightarrow> bool \<Rightarrow> string \<Rightarrow> string \<Rightarrow> bool \<Rightarrow> stacks_page" where
  "load_stacks d act flash hash cookie sec =
     (let p = \<lparr>doc = d, toggles = [], programmatic = False, timers = 0, bound = False, open_cookie = cookie,
                secure_page = sec, acted = None\<rparr>
      in case load_target d act flash hash of Some i \<Rightarrow> openWithAncestors i p | None \<Rightarrow> p)"

text \<open>The deferred binding of the accordions.\<close>

definition bind_accordions :: "stacks_page \<Rightarrow> stacks_page" where
  "bind_accordions p = p\<lparr>bound := True\<rparr>"

subsection \<open>What can happen to a bound page\<close>

text \<open>The operator sees, and can click, the summaries of the sections whose ancestors are open.\<close>

definition visible :: "dom \<Rightarrow> nat \<Rightarrow> bool" where
  "visible d i \<longleftrightarrow> is_details (d ! i) \<and> list_all (\<lambda>j. is_details (d ! j) \<longrightarrow> opened (d ! j)) (tl (chain d i))"

inductive stacks_step :: "stacks_page \<Rightarrow> stacks_page \<Rightarrow> bool" where
  clicked: "i < length (doc p) \<Longrightarrow> visible (doc p) i \<Longrightarrow> \<not> programmatic p \<Longrightarrow> stacks_step p (user_toggle i p)"
| toggled: "i \<in> set (toggles p) \<Longrightarrow> stacks_step p (fire_toggle i p)"
| timer: "0 < timers p \<Longrightarrow> stacks_step p (reset_timer p)"
| hash_changed: "stacks_step p (hashchange hash p)"
| submitted: "stacks_step p (submit_page btn form y p)"

end
