(* ===== verification/Stacks_Props.thy ===== *)
theory Stacks_Props
  imports Stacks
begin

text \<open>
  The stacks page: the accordions keep one section open per level, a load opens the chain of its target
  and closes nothing, a link within the page shows exactly its target, and the key of a section that
  has an id finds that section again.
\<close>

subsection \<open>The structure is never changed\<close>

lemma same_structure_refl [simp]: "same_structure d d"
  by (simp add: same_structure_def)

lemma same_structure_sym: "same_structure d e \<Longrightarrow> same_structure e d"
  by (simp add: same_structure_def)

lemma same_structure_trans: "same_structure d e \<Longrightarrow> same_structure e f \<Longrightarrow> same_structure d f"
  by (simp add: same_structure_def)

lemma same_structure_set_opens: "same_structure (set_opens b is d) d"
  unfolding same_structure_def by (rule nth_equalityI) (auto simp: nth_set_opens shape_def)

lemma same_length: "same_structure d e \<Longrightarrow> length d = length e"
  unfolding same_structure_def by (rule map_eq_imp_length_eq)

lemma same_node:
  assumes "same_structure d e" and "i < length d"
  shows "node_parent (d ! i) = node_parent (e ! i)" "is_details (d ! i) = is_details (e ! i)" "node_id (d ! i) = node_id (e ! i)"
    "classes (d ! i) = classes (e ! i)" "force_open (d ! i) = force_open (e ! i)" "force_scroll (d ! i) = force_scroll (e ! i)"
proof -
  have "shape (d ! i) = shape (e ! i)"
    using assms same_length [OF assms(1)] unfolding same_structure_def by (metis nth_map)
  then show "node_parent (d ! i) = node_parent (e ! i)" "is_details (d ! i) = is_details (e ! i)" "node_id (d ! i) = node_id (e ! i)"
    "classes (d ! i) = classes (e ! i)" "force_open (d ! i) = force_open (e ! i)" "force_scroll (d ! i) = force_scroll (e ! i)"
    by (cases "d ! i"; cases "e ! i"; simp add: shape_def)+
qed

lemma same_chain: "same_structure d e \<Longrightarrow> i < length d \<Longrightarrow> chain d i = chain e i"
  by (rule chain_cong) (auto simp: same_length same_node)

lemma chain_bound: "j \<in> set (chain d i) \<Longrightarrow> i < length d \<Longrightarrow> j < length d"
  using chain_le by fastforce

lemma tl_chain_bound: "j \<in> set (tl (chain d i)) \<Longrightarrow> i < length d \<Longrightarrow> j < length d"
  by (meson chain_bound list.set_sel(2) chain_self(2))

lemma same_under: "same_structure d e \<Longrightarrow> i < length d \<Longrightarrow> under_class c d i = under_class c e i"
  by (auto simp: under_class_def same_chain list_ex_iff has_class_def same_node tl_chain_bound same_length)

lemma same_main_rows: "same_structure d e \<Longrightarrow> main_rows d = main_rows e"
  unfolding main_rows_def all_nodes_def
  by (rule filter_cong) (auto simp: same_length same_under has_class_def same_node)

lemma same_sub_panels: "same_structure d e \<Longrightarrow> sub_panels d = sub_panels e"
  unfolding sub_panels_def all_nodes_def
  by (rule filter_cong) (auto simp: same_length same_under has_class_def same_node)

lemma same_within: "same_structure d e \<Longrightarrow> i < length d \<Longrightarrow> within d a i = within e a i"
  by (simp add: within_def same_chain)

definition body_of :: "dom \<Rightarrow> nat \<Rightarrow> nat option" where
  "body_of d i = closest (has_class ''stackrow-body'') d i"

lemma find_cong: "(\<And>x. x \<in> set xs \<Longrightarrow> P x = Q x) \<Longrightarrow> find P xs = find Q xs"
  by (induction xs) auto

lemma same_body: "same_structure d e \<Longrightarrow> i < length d \<Longrightarrow> body_of d i = body_of e i"
proof -
  assume same: "same_structure d e" and i: "i < length d"
  have "has_class c (d ! x) = has_class c (e ! x)" if "x \<in> set (chain d i)" for c x
    using same_node(4) [OF same chain_bound [OF that i]] by (simp add: has_class_def)
  then show ?thesis unfolding body_of_def closest_def same_chain [OF same i, symmetric] by (intro find_cong)
qed

subsection \<open>Rivals\<close>

definition panel :: "dom \<Rightarrow> nat \<Rightarrow> bool" where
  "panel d i \<longleftrightarrow> i \<in> set (sub_panels d) \<and> is_details (d ! i)"

definition rival_rows :: "dom \<Rightarrow> nat \<Rightarrow> nat \<Rightarrow> bool" where
  "rival_rows d a b \<longleftrightarrow> a \<in> set (main_rows d) \<and> b \<in> set (main_rows d) \<and> a \<noteq> b"

text \<open>Two panels of one stack body of which neither contains the other, and a panel that tells them apart.\<close>

definition rival_panels :: "dom \<Rightarrow> nat \<Rightarrow> nat \<Rightarrow> bool" where
  "rival_panels d a b \<longleftrightarrow> panel d a \<and> panel d b \<and> body_of d a = body_of d b \<and> \<not> within d a b \<and> \<not> within d b a"

definition separates :: "dom \<Rightarrow> nat \<Rightarrow> nat \<Rightarrow> nat \<Rightarrow> bool" where
  "separates d t a b \<longleftrightarrow> panel d t \<and> body_of d t = body_of d a \<and>
     (within d t a \<and> \<not> within d t b \<or> within d t b \<and> \<not> within d t a)"

lemma panel_bound: "panel d i \<Longrightarrow> i < length d"
  by (simp add: panel_def sub_panels_def)

lemma row_bound: "i \<in> set (main_rows d) \<Longrightarrow> i < length d"
  by (simp add: main_rows_def)

lemma same_panel: "same_structure d e \<Longrightarrow> panel d i = panel e i"
proof -
  assume same: "same_structure d e"
  have "i < length d" if "i \<in> set (sub_panels e)"
    using that by (simp add: same_sub_panels [OF same, symmetric]) (simp add: sub_panels_def)
  then show ?thesis unfolding panel_def same_sub_panels [OF same] using same_node(2) [OF same] by blast
qed

lemma same_rivals:
  assumes "same_structure d e"
  shows "rival_rows d = rival_rows e" "rival_panels d = rival_panels e" "rival_panels d a b \<Longrightarrow> separates d t a b = separates e t a b"
proof -
  show "rival_rows d = rival_rows e" by (simp add: rival_rows_def fun_eq_iff same_main_rows [OF assms])
  have pan: "panel d x = panel e x" for x by (rule same_panel [OF assms])
  have wit: "within d y x = within e y x" and bod: "body_of d x = body_of e x" if "panel e x" for x y
    using that panel_bound [of d x] same_within [OF assms] same_body [OF assms] by (simp_all add: pan)
  have "rival_panels d x y = rival_panels e x y" for x y
  proof (cases "panel e x \<and> panel e y")
    case True
    then show ?thesis by (simp add: rival_panels_def pan wit bod)
  qed (auto simp: rival_panels_def pan)
  then show "rival_panels d = rival_panels e" by (simp add: fun_eq_iff)
  assume "rival_panels d a b"
  then have "panel e a" "panel e b" by (simp_all add: rival_panels_def pan)
  then show "separates d t a b = separates e t a b"
    by (cases "panel e t") (simp_all add: separates_def pan wit bod)
qed

text \<open>A well-formed document: main rows are sections and none is inside another; no panel is a body.\<close>

definition wf_doc :: "dom \<Rightarrow> bool" where
  "wf_doc d \<longleftrightarrow> (\<forall>a \<in> set (main_rows d). is_details (d ! a)) \<and>
     (\<forall>a \<in> set (main_rows d). \<forall>b \<in> set (main_rows d). within d a b \<longrightarrow> a = b) \<and>
     (\<forall>a \<in> set (sub_panels d). \<not> has_class ''stackrow-body'' (d ! a))"

lemma same_wf: "same_structure d e \<Longrightarrow> wf_doc d = wf_doc e"
proof -
  assume same: "same_structure d e"
  note node = same_node [OF same] and within = same_within [OF same]
  have r: "\<And>a. a \<in> set (main_rows e) \<Longrightarrow> a < length d" "\<And>a. a \<in> set (sub_panels e) \<Longrightarrow> a < length d"
    using same_length [OF same] by (simp_all add: main_rows_def sub_panels_def)
  show ?thesis
    unfolding wf_doc_def same_main_rows [OF same] same_sub_panels [OF same] has_class_def
    using r node(2,4) within by auto
qed

subsection \<open>The invariant of the accordions\<close>

text \<open>A section is settled if it is closed, or if its toggle event is still to be handled.\<close>

definition settled :: "stacks_page \<Rightarrow> nat \<Rightarrow> bool" where
  "settled p t \<longleftrightarrow> \<not> opened (doc p ! t) \<or> \<not> programmatic p \<and> t \<in> set (toggles p)"

definition accordion_inv :: "stacks_page \<Rightarrow> bool" where
  "accordion_inv p \<longleftrightarrow> bound p \<and> wf_doc (doc p)
     \<and> (\<forall>a b. rival_rows (doc p) a b \<longrightarrow> settled p a \<or> settled p b)
     \<and> (\<forall>a b. rival_panels (doc p) a b \<longrightarrow> (\<exists>t. separates (doc p) t a b \<and> settled p t))"

lemma set_queue_toggle [simp]: "set (queue_toggle i q) = insert i (set q)"
  by (auto simp: queue_toggle_def)

lemma set_fold_queue [simp]: "set (fold queue_toggle is q) = set is \<union> set q"
  by (induction "is" arbitrary: q) auto

lemma write_open_simps [simp]:
  "programmatic (write_open b is p) = programmatic p" "bound (write_open b is p) = bound p" "timers (write_open b is p) = timers p"
  "doc (write_open b is p) = set_opens b is (doc p)" "set (toggles p) \<subseteq> set (toggles (write_open b is p))"
  by (auto simp: write_open_def)

lemma settled_close: "t < length (doc p) \<Longrightarrow> settled p t \<Longrightarrow> settled (write_open False is p) t"
  using write_open_simps(5) [of p False "is"] by (auto simp: settled_def opened_set_opens simp del: write_open_simps(5))

lemma closed_close: "t < length (doc p) \<Longrightarrow> t \<in> set is \<or> \<not> opened (doc p ! t) \<Longrightarrow> \<not> opened (doc (write_open False is p) ! t)"
  by (auto simp: opened_set_opens)

text \<open>What a handler may do: close sections and queue their events.\<close>

definition only_closes :: "stacks_page \<Rightarrow> stacks_page \<Rightarrow> bool" where
  "only_closes p q \<longleftrightarrow> same_structure (doc q) (doc p) \<and> bound q = bound p \<and> programmatic q = programmatic p
     \<and> (\<forall>t < length (doc p). opened (doc q ! t) \<longrightarrow> opened (doc p ! t)) \<and> set (toggles p) \<subseteq> set (toggles q)"

lemma only_closes_refl [simp]: "only_closes p p"
  by (simp add: only_closes_def)

lemma only_closes_trans: "only_closes p q \<Longrightarrow> only_closes q r \<Longrightarrow> only_closes p r"
  unfolding only_closes_def using same_structure_trans same_length by (auto; metis)

lemma only_closes_write: "only_closes p (write_open False is p)"
  by (simp add: only_closes_def same_structure_set_opens opened_set_opens)

lemma only_closes_row: "only_closes p (on_row_toggle i p)"
  unfolding on_row_toggle_def Let_def by (auto intro: only_closes_trans only_closes_write)

lemma only_closes_sub: "only_closes p (on_sub_toggle i p)"
  unfolding on_sub_toggle_def by (auto intro: only_closes_write split: option.split)

lemma only_closes_settled: "only_closes p q \<Longrightarrow> t < length (doc p) \<Longrightarrow> settled p t \<Longrightarrow> settled q t"
  unfolding only_closes_def settled_def by auto

lemma only_closes_closed: "only_closes p q \<Longrightarrow> t < length (doc p) \<Longrightarrow> \<not> opened (doc p ! t) \<Longrightarrow> \<not> opened (doc q ! t)"
  unfolding only_closes_def by auto

text \<open>What the handlers close.\<close>

lemma row_toggle_closes:
  assumes "opened (doc p ! i)" and "\<not> programmatic p" and "rival_rows (doc p) i b"
  shows "\<not> opened (doc (on_row_toggle i p) ! b)"
proof -
  have b: "b < length (doc p)" "b \<in> set (main_rows (doc p))" "b \<noteq> i"
    using assms(3) by (auto simp: rival_rows_def row_bound)
  then have "b \<in> set (concat (map (\<lambda>r. r # sub_details (doc p) r) (filter (\<lambda>r. r \<noteq> i) (main_rows (doc p)))))" by auto
  with b assms(1,2) show ?thesis unfolding on_row_toggle_def Let_def by (simp add: opened_set_opens)
qed

lemma closest_within: "closest P d i = Some b \<Longrightarrow> within d b i"
  unfolding closest_def within_def find_Some_iff by (metis nth_mem)

lemma body_proper:
  assumes "wf_doc d" and "panel d i" and "body_of d i = Some b"
  shows "b \<in> set (tl (chain d i))"
proof -
  have "b \<in> set (chain d i)" using closest_within assms(3) unfolding body_of_def within_def by blast
  moreover have "b \<noteq> i"
  proof
    assume "b = i"
    with assms(3) have "has_class ''stackrow-body'' (d ! i)" by (auto simp: body_of_def closest_def find_Some_iff)
    with assms(1,2) show False by (simp add: wf_doc_def panel_def)
  qed
  moreover have "chain d i = i # tl (chain d i)" by (metis chain_self(2,3) list.collapse)
  ultimately show ?thesis by (metis set_ConsD)
qed

lemma sub_panel_details: "panel d i \<Longrightarrow> is_details (d ! i) \<and> has_class ''advcfg'' (d ! i) \<and> i < length d"
  by (simp add: panel_def sub_panels_def)

lemma panel_body: "panel d i \<Longrightarrow> body_of d i \<noteq> None"
proof -
  assume "panel d i"
  then obtain j where "j \<in> set (tl (chain d i))" "has_class ''stackrow-body'' (d ! j)"
    by (auto simp: panel_def sub_panels_def under_class_def list_ex_iff)
  then show ?thesis unfolding body_of_def closest_def find_None_iff by (metis chain_self(2) list.set_sel(2))
qed

lemma sub_toggle_closes:
  assumes "wf_doc (doc p)" and "opened (doc p ! i)" and "\<not> programmatic p" and "rival_panels (doc p) i b"
  shows "\<not> opened (doc (on_sub_toggle i p) ! b)"
proof -
  from assms(4) have pan: "panel (doc p) i" "panel (doc p) b" and body: "body_of (doc p) i = body_of (doc p) b"
    and far: "\<not> within (doc p) b i" "\<not> within (doc p) i b" by (auto simp: rival_panels_def)
  obtain c where c: "body_of (doc p) b = Some c" using panel_body [OF pan(2)] by blast
  have "b \<in> set (panels_in (doc p) c)"
    using sub_panel_details [OF pan(2)] body_proper [OF assms(1) pan(2) c] by (simp add: panels_in_def)
  moreover have "b \<noteq> i" using far by (auto simp: within_def)
  ultimately show ?thesis
    using assms(2,3) body c far sub_panel_details [OF pan(2)]
    by (auto simp: on_sub_toggle_def body_of_def [symmetric] opened_set_opens)
qed

subsection \<open>The invariant is kept\<close>

lemma inv_intro:
  assumes str: "same_structure (doc q) d" and "bound q" and "wf_doc d"
    and "\<And>a b. rival_rows d a b \<Longrightarrow> settled q a \<or> settled q b"
    and "\<And>a b. rival_panels d a b \<Longrightarrow> \<exists>t. separates d t a b \<and> settled q t"
  shows "accordion_inv q"
proof -
  note rivals = same_rivals [OF str]
  have "separates (doc q) t a b = separates d t a b" if "rival_panels d a b" for t a b
    using rivals(3) that unfolding rivals(2) .
  then show ?thesis
    unfolding accordion_inv_def same_wf [OF str] rivals(1,2) using assms(2-5) by blast
qed

lemma separates_self: "rival_panels d a b \<Longrightarrow> separates d a a b \<and> separates d b a b"
  by (auto simp: rival_panels_def separates_def within_def)

lemma separates_panel: "separates d t a b \<Longrightarrow> panel d t"
  by (simp add: separates_def)

text \<open>A panel that tells two rivals apart is itself a rival of one of them.\<close>

lemma separates_rival:
  assumes "rival_panels d a b" and "separates d t a b"
  shows "rival_panels d t a \<and> separates d a a b \<or> rival_panels d t b \<and> separates d b a b"
proof -
  note self = separates_self [OF assms(1)]
  have "\<not> within d b t" if "within d t a" using that assms(1) chain_trans unfolding rival_panels_def within_def by blast
  moreover have "\<not> within d a t" if "within d t b" using that assms(1) chain_trans unfolding rival_panels_def within_def by blast
  ultimately show ?thesis using assms self unfolding separates_def rival_panels_def by metis
qed

lemma fire_toggle_only_closes:
  "only_closes (p\<lparr>toggles := filter (\<lambda>j. j \<noteq> i) (toggles p), open_cookie := open_cookie (saveOpenSet p)\<rparr>) (fire_toggle i p)"
proof -
  let ?p = "p\<lparr>toggles := filter (\<lambda>j. j \<noteq> i) (toggles p), open_cookie := open_cookie (saveOpenSet p)\<rparr>"
  define p1 where "p1 = saveOpenSet (p\<lparr>toggles := filter (\<lambda>j. j \<noteq> i) (toggles p)\<rparr>)"
  define p2 where "p2 = (if bound p \<and> i \<in> set (main_rows (doc p)) then on_row_toggle i p1 else p1)"
  have "p1 = ?p" by (simp add: p1_def saveOpenSet_def)
  moreover have "only_closes p1 p2" by (simp add: p2_def only_closes_row)
  moreover have "fire_toggle i p = (if bound p \<and> i \<in> set (sub_panels (doc p)) then on_sub_toggle i p2 else p2)"
    by (simp add: fire_toggle_def Let_def p1_def p2_def)
  ultimately show ?thesis by (metis only_closes_trans only_closes_sub)
qed

lemma fire_toggle_structure:
  "same_structure (doc (fire_toggle i p)) (doc p)" "bound (fire_toggle i p) = bound p" "programmatic (fire_toggle i p) = programmatic p"
  using fire_toggle_only_closes [of p i] by (auto simp: only_closes_def)

lemma fire_toggle_settled:
  assumes "t < length (doc p)" and "settled p t" and "t \<noteq> i \<or> \<not> opened (doc p ! t)"
  shows "settled (fire_toggle i p) t"
  using fire_toggle_only_closes [of p i] assms by (auto simp: only_closes_def settled_def)

lemma fire_toggle_closes:
  assumes "bound p" and "wf_doc (doc p)" and "opened (doc p ! i)" and "\<not> programmatic p"
    and "rival_rows (doc p) i b \<or> rival_panels (doc p) i b"
  shows "\<not> opened (doc (fire_toggle i p) ! b) \<or> \<not> opened (doc (fire_toggle i p) ! i)"
proof -
  define p1 where "p1 = saveOpenSet (p\<lparr>toggles := filter (\<lambda>j. j \<noteq> i) (toggles p)\<rparr>)"
  define p2 where "p2 = (if bound p \<and> i \<in> set (main_rows (doc p)) then on_row_toggle i p1 else p1)"
  have p1: "doc p1 = doc p" "programmatic p1 = programmatic p" by (simp_all add: p1_def saveOpenSet_def)
  have fire: "fire_toggle i p = (if bound p \<and> i \<in> set (sub_panels (doc p)) then on_sub_toggle i p2 else p2)"
    by (simp add: fire_toggle_def Let_def p1_def p2_def)
  have step: "only_closes p1 p2" by (simp add: p2_def only_closes_row)
  then have p2: "same_structure (doc p2) (doc p)" "programmatic p2 = programmatic p" "length (doc p2) = length (doc p)"
    using p1 same_length by (auto simp: only_closes_def)
  have last: "only_closes p2 (fire_toggle i p)" unfolding fire by (simp add: only_closes_sub)
  from assms(5) show ?thesis
  proof
    assume r: "rival_rows (doc p) i b"
    then have "p2 = on_row_toggle i p1" using assms(1) by (simp add: p2_def rival_rows_def)
    then have "\<not> opened (doc p2 ! b)" using row_toggle_closes [of p1 i b] assms(3,4) r p1 by simp
    moreover have "b < length (doc p2)" using r p2(3) by (simp add: rival_rows_def row_bound)
    ultimately show ?thesis using only_closes_closed [OF last] by blast
  next
    assume r: "rival_panels (doc p) i b"
    then have i: "i < length (doc p2)" using p2(3) panel_bound by (auto simp: rival_panels_def)
    show ?thesis
    proof (cases "opened (doc p2 ! i)")
      case True
      have "fire_toggle i p = on_sub_toggle i p2" using r assms(1) by (simp add: fire rival_panels_def panel_def)
      then show ?thesis
        using sub_toggle_closes [of p2 i b] True assms(2,4) p2 same_wf [OF p2(1)] same_rivals(2) [OF p2(1)] r by simp
    qed (use only_closes_closed [OF last i] in blast)
  qed
qed

lemma inv_fire:
  assumes inv: "accordion_inv p"
  shows "accordion_inv (fire_toggle i p)"
proof -
  let ?q = "fire_toggle i p"
  note str = fire_toggle_structure [where p = p and i = i]
  have b: "bound p" "wf_doc (doc p)" using inv by (simp_all add: accordion_inv_def)
  have trouble: "\<not> programmatic p \<and> opened (doc p ! i)" if "settled p t" "t < length (doc p)" "\<not> settled ?q t" "t = i" for t
    using that fire_toggle_settled [OF that(2,1)] by (auto simp: settled_def)
  have rows: "settled ?q x \<or> settled ?q y" if r: "rival_rows (doc p) x y" for x y
  proof -
    have len: "x < length (doc p)" "y < length (doc p)" using r by (simp_all add: rival_rows_def row_bound)
    have r': "rival_rows (doc p) y x" using r by (auto simp: rival_rows_def)
    from inv r have "settled p x \<or> settled p y" by (simp add: accordion_inv_def)
    with len trouble fire_toggle_settled [of x p i] fire_toggle_settled [of y p i]
      fire_toggle_closes [OF b, of y] fire_toggle_closes [OF b, of x] r r'
    show ?thesis by (auto simp: settled_def)
  qed
  have panels: "\<exists>t. separates (doc p) t x y \<and> settled ?q t" if r: "rival_panels (doc p) x y" for x y
  proof -
    from inv r obtain t where t: "separates (doc p) t x y" "settled p t" unfolding accordion_inv_def by blast
    have len: "t < length (doc p)" using separates_panel [OF t(1)] by (rule panel_bound)
    show ?thesis
    proof (cases "settled ?q t")
      case False
      then have i: "t = i" using fire_toggle_settled [OF len t(2)] by auto
      then have on: "\<not> programmatic p" "opened (doc p ! i)" using trouble [OF t(2) len False] by blast+
      have open_i: "opened (doc ?q ! i)" using False i by (simp add: settled_def)
      from separates_rival [OF r t(1)] obtain z where "rival_panels (doc p) i z" "separates (doc p) z x y"
        using i by blast
      moreover from this have "\<not> opened (doc ?q ! z)"
        using fire_toggle_closes [OF b on(2,1), of z] open_i by blast
      ultimately show ?thesis by (auto simp: settled_def)
    qed (use t in blast)
  qed
  show ?thesis by (rule inv_intro [OF str(1)]) (use b str(2) rows panels in auto)
qed

lemma inv_cong:
  assumes inv: "accordion_inv p" and str: "same_structure (doc q) (doc p)" "bound q = bound p"
    and settled: "\<And>t. t < length (doc p) \<Longrightarrow> settled p t \<Longrightarrow> settled q t"
  shows "accordion_inv q"
proof -
  have rows: "settled q x \<or> settled q y" if "rival_rows (doc p) x y" for x y
    using inv that settled row_bound unfolding accordion_inv_def rival_rows_def by blast
  have panels: "\<exists>t. separates (doc p) t x y \<and> settled q t" if "rival_panels (doc p) x y" for x y
    using inv that settled separates_panel panel_bound unfolding accordion_inv_def by meson
  show ?thesis
    by (rule inv_intro [OF str(1)]) (use inv str(2) rows panels in \<open>auto simp: accordion_inv_def\<close>)
qed

lemma inv_click:
  assumes "accordion_inv p" and "\<not> programmatic p"
  shows "accordion_inv (user_toggle i p)"
proof (rule inv_cong [OF assms(1)])
  fix t assume t: "t < length (doc p)" "settled p t"
  have "toggles (user_toggle i p) = queue_toggle i (toggles p)" by (simp add: user_toggle_def write_open_def)
  then show "settled (user_toggle i p) t"
    using t assms(2) by (auto simp: settled_def user_toggle_def opened_set_opens)
qed (simp_all add: user_toggle_def same_structure_set_opens)

lemma inv_timer: "accordion_inv p \<Longrightarrow> accordion_inv (reset_timer p)"
  by (erule inv_cong) (auto simp: reset_timer_def settled_def)

lemma inv_submit: "accordion_inv p \<Longrightarrow> accordion_inv (submit_page btn form y p)"
  by (erule inv_cong) (auto simp: submit_page_def settled_def split: option.split)

lemma find_in: "find P xs = Some x \<Longrightarrow> x \<in> set xs \<and> P x"
  by (metis find_Some_iff nth_mem)

lemma closest_in: "closest P d i = Some j \<Longrightarrow> j \<in> set (chain d i) \<and> P (d ! j)"
  unfolding closest_def by (drule find_in) simp

lemma detailsForHash_bound: "detailsForHash d h = Some i \<Longrightarrow> i < length d \<and> is_details (d ! i)"
proof -
  assume "detailsForHash d h = Some i"
  then obtain s e where e: "getElementById d s = Some e" "closest is_details d e = Some i"
    by (auto simp: detailsForHash_def split: if_splits option.splits)
  then have "e < length d" by (auto simp: getElementById_def dest: find_in split: if_splits)
  with closest_in [OF e(2)] chain_bound show ?thesis by blast
qed

lemma hashchange_some:
  assumes "detailsForHash (doc p) h = Some i" and "j < length (doc p)" and "is_details (doc p ! j)"
  shows "opened (doc (hashchange h p) ! j) \<longleftrightarrow> j \<in> set (chain (doc p) i)"
proof -
  let ?c = "set_opens False (all_nodes (\<lambda>j. is_details (doc p ! j)) (doc p)) (doc p)"
  have i: "i < length (doc p)" using detailsForHash_bound [OF assms(1)] by blast
  have "details_chain ?c i = details_chain (doc p) i"
    unfolding details_chain_def chain_set_opens [OF i]
    by (rule filter_cong) (use chain_bound [OF _ i] in \<open>auto simp: nth_set_opens\<close>)
  then have "doc (hashchange h p) = set_opens True (details_chain (doc p) i) ?c"
    by (simp add: hashchange_def assms(1) openTarget_def openWithAncestors_def)
  then show ?thesis using assms(2,3) by (auto simp: opened_set_opens details_chain_def)
qed

lemma hashchange_structure:
  "same_structure (doc (hashchange h p)) (doc p)" "bound (hashchange h p) = bound p"
  "detailsForHash (doc p) h \<noteq> None \<Longrightarrow> programmatic (hashchange h p)"
  by (auto simp: hashchange_def openTarget_def openWithAncestors_def split: option.split
      intro: same_structure_trans [OF same_structure_set_opens same_structure_set_opens])

lemma inv_hash:
  assumes inv: "accordion_inv p"
  shows "accordion_inv (hashchange h p)"
proof (cases "detailsForHash (doc p) h")
  case None
  with inv show ?thesis by (simp add: hashchange_def)
next
  case (Some i)
  note str = hashchange_structure [where h = h and p = p] and opn = hashchange_some [OF Some]
  have wf: "wf_doc (doc p)" using inv by (simp add: accordion_inv_def)
  have rows: "\<not> opened (doc (hashchange h p) ! x) \<or> \<not> opened (doc (hashchange h p) ! y)" if r: "rival_rows (doc p) x y" for x y
  proof -
    from r wf have "is_details (doc p ! x)" "is_details (doc p ! y)" "x < length (doc p)" "y < length (doc p)"
      by (auto simp: rival_rows_def wf_doc_def row_bound)
    moreover have "\<not> (x \<in> set (chain (doc p) i) \<and> y \<in> set (chain (doc p) i))"
      using r wf chain_linear [of x "doc p" i y] unfolding rival_rows_def wf_doc_def within_def by metis
    ultimately show ?thesis using opn by blast
  qed
  have panels: "\<not> opened (doc (hashchange h p) ! x) \<or> \<not> opened (doc (hashchange h p) ! y)" if r: "rival_panels (doc p) x y" for x y
  proof -
    from r have "is_details (doc p ! x)" "is_details (doc p ! y)" "x < length (doc p)" "y < length (doc p)"
      by (auto simp: rival_panels_def sub_panel_details)
    moreover have "\<not> (x \<in> set (chain (doc p) i) \<and> y \<in> set (chain (doc p) i))"
      using r chain_linear [of x "doc p" i y] unfolding rival_panels_def within_def by blast
    ultimately show ?thesis using opn by blast
  qed
  have panels': "\<exists>t. separates (doc p) t x y \<and> settled (hashchange h p) t" if "rival_panels (doc p) x y" for x y
    using panels [OF that] separates_self [OF that] unfolding settled_def by blast
  show ?thesis
    by (rule inv_intro [OF str(1)]) (use inv str(2) wf rows panels' in \<open>auto simp: accordion_inv_def settled_def\<close>)
qed

lemma accordion_step: "stacks_step p q \<Longrightarrow> accordion_inv p \<Longrightarrow> accordion_inv q"
  by (induction rule: stacks_step.induct) (auto intro: inv_click inv_fire inv_timer inv_hash inv_submit)

lemma accordion_run: "stacks_step\<^sup>*\<^sup>* p q \<Longrightarrow> accordion_inv p \<Longrightarrow> accordion_inv q"
  by (induction rule: rtranclp_induct) (auto intro: accordion_step)

text \<open>
  A document that keeps the rule of the page: at most one main row is open, and of two rival panels
  some panel around only one of them is closed.
\<close>

definition tidy :: "dom \<Rightarrow> bool" where
  "tidy d \<longleftrightarrow> (\<forall>a b. rival_rows d a b \<longrightarrow> \<not> (opened (d ! a) \<and> opened (d ! b)))
     \<and> (\<forall>a b. rival_panels d a b \<longrightarrow> (\<exists>t. separates d t a b \<and> \<not> opened (d ! t)))"

lemma tidy_inv: "wf_doc (doc p) \<Longrightarrow> bound p \<Longrightarrow> tidy (doc p) \<Longrightarrow> accordion_inv p"
  unfolding accordion_inv_def tidy_def settled_def by blast


text \<open>A page with two stacks, the first with two panels.\<close>

definition el :: "nat option \<Rightarrow> bool \<Rightarrow> string \<Rightarrow> string \<Rightarrow> bool \<Rightarrow> node" where
  "el par det i c b = \<lparr>node_parent = par, is_details = det, node_id = i, classes = [c], force_open = False, force_scroll = False, opened = b\<rparr>"

definition sample_doc :: "bool \<Rightarrow> dom" where
  "sample_doc b = [el None False '''' ''stacklist'' False, el (Some 0) True ''stackrow-a'' ''stackrow'' b,
     el (Some 1) False '''' ''stackrow-body'' False, el (Some 2) True ''a1'' ''advcfg'' False,
     el (Some 2) True ''a2'' ''advcfg'' False, el (Some 0) True ''stackrow-b'' ''stackrow'' False]"

definition bare_page :: "dom \<Rightarrow> stacks_page" where
  "bare_page d = \<lparr>doc = d, toggles = [], programmatic = False, timers = 0, bound = True, open_cookie = '''',
     secure_page = False, acted = None\<rparr>"

lemma sample_chains:
  "chain (sample_doc b) 0 = [0]" "chain (sample_doc b) 1 = [1, 0]" "chain (sample_doc b) (Suc 0) = [1, 0]" "chain (sample_doc b) 2 = [2, 1, 0]"
  "chain (sample_doc b) 3 = [3, 2, 1, 0]" "chain (sample_doc b) 4 = [4, 2, 1, 0]" "chain (sample_doc b) 5 = [5, 0]"
  by (simp_all add: chain.simps sample_doc_def el_def)

lemma length_sample [simp]: "length (sample_doc b) = 6"
  by (simp add: sample_doc_def)

lemma upt_6: "[0..<6] = [0, 1, 2, 3, 4, 5 :: nat]"
  by (simp add: upt_rec)

lemma sample_rows: "main_rows (sample_doc b) = [1, 5]" "sub_panels (sample_doc b) = [3, 4]"
  by (simp_all add: main_rows_def sub_panels_def all_nodes_def upt_6 under_class_def sample_chains has_class_def)
    (simp_all add: sample_doc_def el_def)

lemma sample_wf: "wf_doc (sample_doc b)"
  by (simp add: wf_doc_def sample_rows within_def sample_chains) (simp add: sample_doc_def el_def has_class_def)

lemma sample_closed: "i < 6 \<Longrightarrow> \<not> opened (sample_doc False ! i)"
proof -
  assume "i < 6"
  then have "i \<in> {0, 1, 2, 3, 4, 5}" by auto
  then show ?thesis by (auto simp: sample_doc_def el_def)
qed

lemma sample_tidy: "tidy (sample_doc False)"
  unfolding tidy_def
proof (intro conjI allI impI)
  fix a b assume "rival_rows (sample_doc False) a b"
  then have "a < 6" using row_bound [of a "sample_doc False"] by (simp add: rival_rows_def)
  then show "\<not> (opened (sample_doc False ! a) \<and> opened (sample_doc False ! b))" using sample_closed by blast
next
  fix a b assume r: "rival_panels (sample_doc False) a b"
  then have "a < 6" using panel_bound [of "sample_doc False" a] by (simp add: rival_panels_def)
  then show "\<exists>t. separates (sample_doc False) t a b \<and> \<not> opened (sample_doc False ! t)"
    using sample_closed separates_self [OF r] by blast
qed


subsection \<open>Links within the page\<close>

lemma fire_programmatic: "programmatic p \<Longrightarrow> doc (fire_toggle i p) = doc p \<and> programmatic (fire_toggle i p)"
  by (simp add: fire_toggle_def Let_def on_row_toggle_def on_sub_toggle_def saveOpenSet_def)

text \<open>
  A link within the page shows its target and nothing else: after it the open sections are those
  around the target, and the toggle events handled before the flag is reset leave it so.
\<close>

theorem link_shows_target_only:
  assumes "detailsForHash (doc p) h = Some i" and "j < length (doc p)" and "is_details (doc p ! j)"
  shows "opened (doc (fold fire_toggle is (hashchange h p)) ! j) \<longleftrightarrow> within (doc p) j i"
proof -
  have "doc (fold fire_toggle is q) = doc q" if "programmatic q" for q
    using that by (induction "is" arbitrary: q) (auto simp: fire_programmatic)
  then show ?thesis
    using hashchange_structure(3) [of p h] hashchange_some [OF assms] assms(1) by (simp add: within_def)
qed

lemma decode_example: "decodeURIComponent ''stackrow-b'' = Some ''stackrow-b''"
  by code_simp

lemma sample_hash: "detailsForHash (sample_doc b) ''#stackrow-b'' = Some 5"
proof -
  have "getElementById (sample_doc b) ''stackrow-b'' = Some 5"
    by (simp add: getElementById_def upt_6) (simp add: sample_doc_def el_def)
  then show ?thesis
    by (simp add: detailsForHash_def decode_example closest_def sample_chains) (simp add: sample_doc_def el_def)
qed

lemma link_shows_target_only_witness:
  "opened (doc (fold fire_toggle [1, 5] (hashchange ''#stackrow-b'' (bare_page (sample_doc True)))) ! 5)
   \<and> \<not> opened (doc (fold fire_toggle [1, 5] (hashchange ''#stackrow-b'' (bare_page (sample_doc True)))) ! 1)"
proof -
  have h: "detailsForHash (doc (bare_page (sample_doc True))) ''#stackrow-b'' = Some 5" by (simp add: bare_page_def sample_hash)
  have d: "is_details (doc (bare_page (sample_doc True)) ! 5)" "is_details (doc (bare_page (sample_doc True)) ! 1)"
    by (simp_all add: bare_page_def sample_doc_def el_def)
  show ?thesis
    using link_shows_target_only [OF h _ d(1), of "[1, 5]"] link_shows_target_only [OF h _ d(2), of "[1, 5]"]
    by (simp add: bare_page_def within_def sample_chains)
qed

subsection \<open>Loading\<close>

lemma load_opened:
  assumes "j < length d" and "is_details (d ! j)"
  shows "opened (doc (load_stacks d act flash hash cookie sec) ! j) \<longleftrightarrow>
    opened (d ! j) \<or> (\<exists>t. load_target d act flash hash = Some t \<and> within d j t)"
  using assms
  by (auto simp: load_stacks_def Let_def openWithAncestors_def opened_set_opens details_chain_def within_def split: option.split)

text \<open>
  Loading the page opens the sections around the resolved target and closes nothing: a section is
  open afterwards exactly if the server rendered it open or it is around the target.
\<close>

theorem load_only_opens:
  assumes "j < length d" and "is_details (d ! j)"
  shows "opened (doc (load_stacks d act flash hash cookie sec) ! j) \<longleftrightarrow>
    opened (d ! j) \<or> (\<exists>t. load_target d act flash hash = Some t \<and> within d j t)"
  using assms by (rule load_opened)

text \<open>
  A remembered row and a link to another row leave both open, as nothing is closed: the rule of the
  page does not hold after such a load.
\<close>

lemma sample_target: "load_target (sample_doc b) None False ''#stackrow-b'' = Some 5"
proof -
  have "find (\<lambda>i. force_scroll (sample_doc b ! i)) [0..<6] = None"
    "find (\<lambda>i. is_details (sample_doc b ! i) \<and> force_open (sample_doc b ! i) \<and> nested (sample_doc b) i) [0..<6] = None"
    unfolding upt_6 by (simp_all add: sample_doc_def el_def)
  moreover have "\<not> nested (sample_doc b) 5" by (simp add: nested_def sample_chains) (simp add: sample_doc_def el_def)
  ultimately show ?thesis by (simp add: load_target_def sample_hash act_element_def forced_target_def Let_def)
qed

lemma load_leaves_two_rows:
  "let d = doc (load_stacks (sample_doc True) None False ''#stackrow-b'' '''' False)
   in opened (d ! 1) \<and> opened (d ! 5) \<and> \<not> tidy d"
proof -
  let ?d = "doc (load_stacks (sample_doc True) None False ''#stackrow-b'' '''' False)"
  have det: "is_details (sample_doc True ! 1)" "is_details (sample_doc True ! 5)" "opened (sample_doc True ! 1)"
    by (simp_all add: sample_doc_def el_def)
  have open15: "opened (?d ! 1)" "opened (?d ! 5)"
    using load_opened [of 1 "sample_doc True"] load_opened [of 5 "sample_doc True"] det sample_target
    by (simp_all add: within_def sample_chains)
  have "same_structure ?d (sample_doc True)"
    by (simp add: load_stacks_def Let_def openWithAncestors_def same_structure_set_opens split: option.split)
  from same_rivals(1) [OF this] have "rival_rows ?d 1 5" by (simp add: rival_rows_def sample_rows)
  with open15 show ?thesis unfolding Let_def tidy_def by blast
qed

lemma load_only_opens_witness:
  "opened (doc (load_stacks (sample_doc True) None False ''#stackrow-b'' '''' False) ! 5)"
  using load_only_opens [of 5 "sample_doc True" None False "''#stackrow-b''" "''''" False] sample_target
  by (simp add: within_def sample_chains) (simp add: sample_doc_def el_def)

subsection \<open>Keys\<close>

definition last_segment :: "string \<Rightarrow> string" where
  "last_segment s = rev (takeWhile (\<lambda>c. c \<noteq> CHR ''/'') (rev s))"

lemma join_snoc: "join sep (xs @ [x]) = (if xs = [] then x else join sep xs @ sep @ x)"
proof (induction xs)
  case (Cons a xs)
  then show ?case by (cases xs) auto
qed simp

lemma last_segment_join:
  assumes "CHR ''/'' \<notin> set x"
  shows "last_segment (join ''/'' (xs @ [x])) = x"
proof -
  have t: "takeWhile (\<lambda>c. c \<noteq> CHR ''/'') (rev x) = rev x" using assms by (auto simp: takeWhile_eq_all_conv)
  have "takeWhile (\<lambda>c. c \<noteq> CHR ''/'') (rev x @ CHR ''/'' # ys) = rev x" for ys
    using assms by (subst takeWhile_append2) auto
  then show ?thesis by (simp add: last_segment_def join_snoc t)
qed

lemma details_chain_self: "is_details (d ! i) \<Longrightarrow> \<exists>rest. details_chain d i = i # rest"
  unfolding details_chain_def by (subst chain.simps) simp

lemma key_last_segment:
  assumes "is_details (d ! i)" and "CHR ''/'' \<notin> set (node_id (d ! i))"
  shows "last_segment (keyFor d i) = key_part d i"
proof -
  obtain rest where "details_chain d i = i # rest" using details_chain_self [where d = d and i = i] assms(1) by blast
  moreover have "CHR ''/'' \<notin> set (key_part d i)"
    using assms(2) show_nat_digits [of "earlier_siblings d i"] by (auto simp: key_part_def)
  ultimately show ?thesis by (simp add: keyFor_def last_segment_join)
qed

text \<open>
  The key of a section with an id leads back to it: in any rendering of the page whose ids are free
  of slashes, the section found for the remembered key carries the id of the section the operator acted
  in.
\<close>

theorem key_leads_back:
  assumes "is_details (d ! i)" and "node_id (d ! i) \<noteq> ''''" and "CHR ''/'' \<notin> set (node_id (d ! i))"
    and "\<forall>k < length e. CHR ''/'' \<notin> set (node_id (e ! k))"
    and "act_element e (Some (keyFor d i, y)) = Some j"
  shows "is_details (e ! j) \<and> node_id (e ! j) = node_id (d ! i)"
proof -
  from assms(5) have j: "j < length e" "is_details (e ! j)" "keyFor e j = keyFor d i"
    by (auto simp: act_element_def dest!: find_in split: if_splits)
  then have "key_part e j = key_part d i"
    using key_last_segment [OF assms(1,3)] key_last_segment [of e j] assms(4) by simp
  then have "node_id (e ! j) = node_id (d ! i)" using assms(2) by (auto simp: key_part_def split: if_splits)
  with j show ?thesis by blast
qed

lemma key_leads_back_witness:
  "node_id (sample_doc True ! 3) = node_id (sample_doc False ! 3)"
proof -
  have ids: "CHR ''/'' \<notin> set (node_id (sample_doc True ! k))" if "k < 6" for k
  proof -
    from that have "k \<in> {0, 1, 2, 3, 4, 5}" by auto
    then show ?thesis by (auto simp: sample_doc_def el_def)
  qed
  have keys: "keyFor (sample_doc False) 3 = ''#stackrow-a/#a1''" "keyFor (sample_doc True) 1 = ''#stackrow-a''"
    "keyFor (sample_doc True) 3 = ''#stackrow-a/#a1''"
    by (simp_all add: keyFor_def details_chain_def sample_chains key_part_def) (simp_all add: sample_doc_def el_def)
  have det: "\<not> is_details (sample_doc True ! 0)" "\<not> is_details (sample_doc True ! 2)" "is_details (sample_doc True ! 3)"
    by (simp_all add: sample_doc_def el_def)
  have "act_element (sample_doc True) (Some (keyFor (sample_doc False) 3, 0)) = Some 3"
    using keys(2) by (simp add: act_element_def keys det upt_6)
  moreover have "is_details (sample_doc False ! 3)" "node_id (sample_doc False ! 3) \<noteq> ''''" "CHR ''/'' \<notin> set (node_id (sample_doc False ! 3))"
    by (simp_all add: sample_doc_def el_def)
  ultimately show ?thesis using key_leads_back [of "sample_doc False" 3 "sample_doc True" 0 3] ids by simp
qed

text \<open>
  Sections without an id are counted among their siblings, but the path names no element between
  sections: two of them in different wrappers of one panel have one key, and the memory of the second
  reopens the first.
\<close>

definition wrapped_doc :: dom where
  "wrapped_doc = [el None True ''webserver-row'' ''advcfg'' True, el (Some 0) False '''' ''ws-sub-wrap'' False,
     el (Some 1) True '''' ''advcfg'' True, el (Some 0) False '''' ''ws-sub-wrap'' False, el (Some 3) True '''' ''advcfg'' False]"

lemma anonymous_sections_collide:
  "act_element wrapped_doc (Some (keyFor wrapped_doc 4, 0)) = Some 2"
proof -
  have c: "chain wrapped_doc 0 = [0]" "chain wrapped_doc 2 = [2, 1, 0]" "chain wrapped_doc 4 = [4, 3, 0]"
    by (simp_all add: chain.simps wrapped_doc_def el_def)
  have up: "[0..<5] = [0, 1, 2, 3, 4 :: nat]" "[0..<4] = [0, 1, 2, 3 :: nat]" "[0..<2] = [0, 1 :: nat]" by (simp_all add: upt_rec)
  have s: "earlier_siblings wrapped_doc 2 = 0" "earlier_siblings wrapped_doc 4 = 0"
    unfolding earlier_siblings_def up by (simp_all add: wrapped_doc_def el_def)
  have d: "details_chain wrapped_doc 0 = [0]" "details_chain wrapped_doc 2 = [2, 0]" "details_chain wrapped_doc 4 = [4, 0]"
    unfolding details_chain_def c by (simp_all add: wrapped_doc_def el_def)
  have i: "node_id (wrapped_doc ! 0) = ''webserver-row''" "node_id (wrapped_doc ! 2) = ''''" "node_id (wrapped_doc ! 4) = ''''"
    "\<not> is_details (wrapped_doc ! Suc 0)" "is_details (wrapped_doc ! 2)" "length wrapped_doc = 5"
    by (simp_all add: wrapped_doc_def el_def)
  have k: "keyFor wrapped_doc 0 = ''#webserver-row''" "keyFor wrapped_doc 2 = ''#webserver-row/d0''" "keyFor wrapped_doc 4 = ''#webserver-row/d0''"
    by (simp_all add: keyFor_def d key_part_def i s show_nat.simps digit_char_def)
  show ?thesis using k(1) by (simp add: act_element_def k i up)
qed

end
