(* ===== verification/Stacklazy.thy ===== *)
theory Stacklazy
  imports Prelude Run_View
begin

text \<open>
  The lazily loaded body of a stack row, \<open>static/stacklazy.js\<close>: one placeholder per row, a fetch when
  the row opens, the body in place of the placeholder or a link when the fetch fails.
\<close>

datatype ph_child = Noscript_link string | Spinner | Fallback_link string

record placeholder =
  data_loading :: bool
  data_loaded :: bool
  body_url :: "string option"
  ph_children :: "ph_child list"

text \<open>A row: the fetches on their way for it, and how often a body was inserted and announced.\<close>

record lazy_row =
  row_id :: string
  row_open :: bool
  lazy_body :: "placeholder option"
  fetches :: nat
  bodies :: nat
  announced :: nat

definition row_sid :: "string \<Rightarrow> string" where
  "row_sid s = (if take 9 s = ''stackrow-'' then drop 9 s else s)"

definition fallback_href :: "string \<Rightarrow> placeholder \<Rightarrow> string" where
  "fallback_href sid ph =
     (case find (\<lambda>c. case c of Noscript_link _ \<Rightarrow> True | _ \<Rightarrow> False) (ph_children ph) of
        Some (Noscript_link h) \<Rightarrow> h
      | _ \<Rightarrow> ''/stacks?open='' @ encodeURIComponent sid @ ''#stackrow-'' @ encodeURIComponent sid)"

definition fallbackLink :: "string \<Rightarrow> placeholder \<Rightarrow> placeholder" where
  "fallbackLink i ph = ph\<lparr>data_loading := False, ph_children := [Fallback_link (fallback_href (row_sid i) ph)]\<rparr>"

definition showLoading :: "placeholder \<Rightarrow> placeholder" where
  "showLoading ph = (if Spinner \<in> set (ph_children ph) then ph else ph\<lparr>ph_children := ph_children ph @ [Spinner]\<rparr>)"

definition loadBody :: "lazy_row \<Rightarrow> lazy_row" where
  "loadBody r = (case lazy_body r of
     None \<Rightarrow> r
   | Some ph \<Rightarrow>
       if data_loading ph \<or> data_loaded ph then r
       else (case body_url ph of
           None \<Rightarrow> r
         | Some u \<Rightarrow> if u = '''' then r
             else r\<lparr>lazy_body := Some (showLoading (ph\<lparr>data_loading := True\<rparr>)), fetches := Suc (fetches r)\<rparr>))"

text \<open>The continuation of a fetch holds the placeholder it was started for.\<close>

definition body_arrives :: "lazy_row \<Rightarrow> lazy_row" where
  "body_arrives r = r\<lparr>fetches := fetches r - 1, lazy_body := None, bodies := Suc (bodies r), announced := Suc (announced r)\<rparr>"

definition body_fails :: "lazy_row \<Rightarrow> lazy_row" where
  "body_fails r = r\<lparr>fetches := fetches r - 1, lazy_body := map_option (fallbackLink (row_id r)) (lazy_body r)\<rparr>"

definition toggle_lazy :: "bool \<Rightarrow> lazy_row \<Rightarrow> lazy_row" where
  "toggle_lazy b r = (let r' = r\<lparr>row_open := b\<rparr> in if b then loadBody r' else r')"

definition wire_row :: "lazy_row \<Rightarrow> lazy_row" where
  "wire_row r = (if row_open r then loadBody r else r)"

definition server_row :: "string \<Rightarrow> bool \<Rightarrow> (string \<times> string) option \<Rightarrow> lazy_row" where
  "server_row i b ph = \<lparr>row_id = i, row_open = b,
     lazy_body = map_option (\<lambda>(url, href). \<lparr>data_loading = False, data_loaded = False, body_url = Some url,
       ph_children = [Noscript_link href]\<rparr>) ph,
     fetches = 0, bodies = 0, announced = 0\<rparr>"

inductive lazy_step :: "lazy_row \<Rightarrow> lazy_row \<Rightarrow> bool" where
  toggled: "lazy_step r (toggle_lazy b r)"
| arrives: "0 < fetches r \<Longrightarrow> lazy_step r (body_arrives r)"
| fails: "0 < fetches r \<Longrightarrow> lazy_step r (body_fails r)"

text \<open>A row is waiting for its body, or has it, or could fetch it.\<close>

definition lazy_inv :: "lazy_row \<Rightarrow> bool" where
  "lazy_inv r \<longleftrightarrow> bodies r = announced r \<and> (case lazy_body r of
     None \<Rightarrow> fetches r = 0 \<and> bodies r \<le> 1
   | Some ph \<Rightarrow> bodies r = 0 \<and> fetches r = (if data_loading ph then 1 else 0))"

lemma loadBody_inv: "lazy_inv r \<Longrightarrow> lazy_inv (loadBody r)"
  by (auto simp: lazy_inv_def loadBody_def showLoading_def split: option.splits)

lemma lazy_inv_step: "lazy_step r s \<Longrightarrow> lazy_inv r \<Longrightarrow> lazy_inv s"
proof (induction rule: lazy_step.induct)
  case (toggled r b)
  have "lazy_inv (r\<lparr>row_open := b\<rparr>)" using toggled by (simp add: lazy_inv_def split: option.splits)
  then show ?case by (auto simp: toggle_lazy_def Let_def intro: loadBody_inv)
qed (auto simp: lazy_inv_def body_arrives_def body_fails_def fallbackLink_def split: option.splits if_splits)

lemma server_row_inv: "lazy_inv (wire_row (server_row i b ph))"
proof -
  have "lazy_inv (server_row i b ph)" by (auto simp: server_row_def lazy_inv_def split: option.split)
  then show ?thesis by (simp add: wire_row_def loadBody_inv)
qed

lemma lazy_reachable: "lazy_step\<^sup>*\<^sup>* (wire_row (server_row i b ph)) r \<Longrightarrow> lazy_inv r"
  by (induction rule: rtranclp_induct) (auto intro: server_row_inv lazy_inv_step)

text \<open>
  C35. A stack body is fetched by one request at a time and inserted at most once, however often the row
  is opened and closed and however its requests end; and while the body is missing and no request is
  out, opening the row sends one: a failed load can be repeated.
\<close>

theorem body_loaded_once:
  assumes "lazy_step\<^sup>*\<^sup>* (wire_row (server_row i b (Some (url, href)))) r" and "url \<noteq> ''''"
  shows "fetches r \<le> 1 \<and> bodies r \<le> 1 \<and> announced r = bodies r \<and> (bodies r = 1 \<longrightarrow> fetches r = 0)
    \<and> (bodies r = 0 \<and> fetches r = 0 \<longrightarrow> fetches (toggle_lazy True r) = 1)"
proof -
  have url: "\<exists>ph. lazy_body r = Some ph \<and> body_url ph = Some url \<and> \<not> data_loaded ph" if "bodies r = 0"
    using assms(1) that
  proof (induction rule: rtranclp_induct)
    case base
    then show ?case by (auto simp: wire_row_def loadBody_def server_row_def showLoading_def split: option.splits)
  next
    case (step s t)
    from step(2) show ?case
    proof cases
      case (toggled c)
      with step show ?thesis by (auto simp: toggle_lazy_def Let_def loadBody_def showLoading_def split: option.splits if_splits)
    qed (use step in \<open>auto simp: body_arrives_def body_fails_def fallbackLink_def\<close>)
  qed
  have inv: "lazy_inv r" by (rule lazy_reachable [OF assms(1)])
  have "fetches (toggle_lazy True r) = 1" if "bodies r = 0" "fetches r = 0"
    using url [OF that(1)] inv that(2) assms(2)
    by (auto simp: toggle_lazy_def loadBody_def lazy_inv_def split: if_splits)
  with inv show ?thesis by (auto simp: lazy_inv_def split: option.splits if_splits)
qed

lemma body_loaded_once_witness:
  "fetches (toggle_lazy True (body_fails (toggle_lazy True (wire_row (server_row ''stackrow-x'' False (Some (''/b'', ''/h'')))))) ) = 1"
proof -
  let ?r = "wire_row (server_row ''stackrow-x'' False (Some (''/b'', ''/h'')))"
  have f: "fetches (toggle_lazy True ?r) = 1"
    by (simp add: wire_row_def server_row_def toggle_lazy_def loadBody_def)
  have "lazy_step ?r (toggle_lazy True ?r)" by (rule lazy_step.toggled)
  moreover have "lazy_step (toggle_lazy True ?r) (body_fails (toggle_lazy True ?r))" by (rule lazy_step.fails) (simp add: f)
  ultimately have "lazy_step\<^sup>*\<^sup>* ?r (body_fails (toggle_lazy True ?r))" by (meson rtranclp.rtrancl_into_rtrancl r_into_rtranclp)
  from body_loaded_once [OF this] f show ?thesis
    by (simp add: body_fails_def) (simp add: wire_row_def server_row_def toggle_lazy_def loadBody_def)
qed

end
