(* ===== verification/Daemoncfg.thy ===== *)
theory Daemoncfg
  imports JsDate Run_View
begin

text \<open>
  The daemon panel, \<open>static/daemoncfg.js\<close>: the one-shot STATUS and STATS read, the rolling window on the
  daemon's socket and the RX/TX feed window, per band. A click starts a session of a window; its
  requests carry the session, as the closures do.
\<close>

subsection \<open>Texts\<close>

definition SOCKET_LINES :: nat where "SOCKET_LINES = 22"

definition render_pairs :: "(string \<times> string) list option \<Rightarrow> string" where
  "render_pairs obj = (case obj of
     None \<Rightarrow> ''(no data)''
   | Some kvs \<Rightarrow> if kvs = [] then ''(no data)'' else join [CHR 0x0A] (map (\<lambda>(k, v). k @ ''='' @ v) kvs))"

definition clock_stamp :: "nat \<times> nat \<times> nat \<Rightarrow> string" where
  "clock_stamp t = (case t of (h, m, s) \<Rightarrow> two h @ '':'' @ two m @ '':'' @ two s)"

subsection \<open>STATUS and STATS\<close>

record live_view =
  live_hidden :: bool
  live_text :: string

record daemon_reply =
  reachable :: bool
  reply_stats :: "(string \<times> string) list option"
  reply_status :: "(string \<times> string) list option"

text \<open>A request ends with an answer (\<open>None\<close> when the response is not ok) or fails.\<close>

datatype 'a fetched = Got "'a option" | Failed

definition live_click :: "live_view \<Rightarrow> live_view" where
  "live_click v = v\<lparr>live_hidden := False, live_text := ''loading'' @ ellipsis\<rparr>"

text \<open>\<open>toUpperCase\<close> of the two kinds, which are written in lower-case ASCII.\<close>

definition upper :: "string \<Rightarrow> string" where
  "upper = map (\<lambda>c. let n = of_char c :: nat in if 97 \<le> n \<and> n \<le> 122 then char_of (n - 32) else c)"

definition live_answer :: "string \<Rightarrow> string \<Rightarrow> daemon_reply fetched \<Rightarrow> live_view \<Rightarrow> live_view" where
  "live_answer band kind out v = v\<lparr>live_text := (case out of
     Failed \<Rightarrow> ''request failed''
   | Got None \<Rightarrow> ''daemon not reachable on '' @ band @ '' MHz''
   | Got (Some d) \<Rightarrow>
       if \<not> reachable d then ''daemon not reachable on '' @ band @ '' MHz''
       else upper kind @ '' '' @ em_dash @ '' '' @ band @ '' MHz (live)'' @ [CHR 0x0A]
         @ render_pairs (if kind = ''stats'' then reply_stats d else reply_status d))\<rparr>"

definition live_close :: "live_view \<Rightarrow> live_view" where
  "live_close v = v\<lparr>live_hidden := True\<rparr>"

subsection \<open>A window with an interval\<close>

text \<open>
  What the two windows share: \<open>dataset.timer\<close> and the intervals that run, each with the session it
  polls for. Timer numbers are positive.
\<close>

record poll_window =
  win_hidden :: bool
  win_text :: string
  win_timer :: "nat option"
  win_intervals :: "(nat \<times> nat) list"
  win_next :: nat
  win_session :: nat
  win_flight :: "nat list"

definition open_window :: "string \<Rightarrow> 'a poll_window_scheme \<Rightarrow> 'a poll_window_scheme" where
  "open_window t w = (if win_timer w \<noteq> None then w else
     w\<lparr>win_hidden := False, win_text := t, win_session := win_session w + 1,
       win_flight := win_flight w @ [win_session w + 1],
       win_timer := Some (win_next w), win_intervals := win_intervals w @ [(win_next w, win_session w + 1)],
       win_next := win_next w + 1\<rparr>)"

definition close_window :: "'a poll_window_scheme \<Rightarrow> 'a poll_window_scheme" where
  "close_window w = (case win_timer w of
     None \<Rightarrow> w
   | Some t \<Rightarrow> w\<lparr>win_intervals := filter (\<lambda>(i, _). i \<noteq> t) (win_intervals w), win_timer := None\<rparr>)\<lparr>win_hidden := True\<rparr>"

definition window_tick :: "nat \<Rightarrow> 'a poll_window_scheme \<Rightarrow> 'a poll_window_scheme" where
  "window_tick s w = w\<lparr>win_flight := win_flight w @ [s]\<rparr>"

definition take_flight :: "nat \<Rightarrow> 'a poll_window_scheme \<Rightarrow> 'a poll_window_scheme" where
  "take_flight i w = w\<lparr>win_flight := take i (win_flight w) @ drop (Suc i) (win_flight w)\<rparr>"

subsection \<open>The socket window\<close>

record socket_reply =
  sock_reachable :: bool
  sock_line :: string

text \<open>Each session has its own buffer.\<close>

record socket_window = poll_window +
  bufs :: "nat \<Rightarrow> string list"

definition socket_click :: "string \<Rightarrow> socket_window \<Rightarrow> socket_window" where
  "socket_click band w = (if win_timer w \<noteq> None then w else
     (open_window (''connecting to config socket ('' @ band @ '' MHz)'' @ ellipsis) w)
       \<lparr>bufs := (bufs w)(win_session w + 1 := [])\<rparr>)"

definition socket_push :: "nat \<Rightarrow> nat \<times> nat \<times> nat \<Rightarrow> string \<Rightarrow> socket_window \<Rightarrow> socket_window" where
  "socket_push s t line w =
     (let b = bufs w s @ [''['' @ clock_stamp t @ ''] '' @ line];
          b' = (if SOCKET_LINES < length b then last_n SOCKET_LINES b else b)
      in w\<lparr>bufs := (bufs w)(s := b'), win_text := join [CHR 0x0A] b'\<rparr>)"

definition socket_text :: "string \<Rightarrow> socket_reply fetched \<Rightarrow> string" where
  "socket_text band out = (case out of
     Failed \<Rightarrow> ''(request failed)''
   | Got None \<Rightarrow> ''(no response on '' @ band @ '' MHz)''
   | Got (Some d) \<Rightarrow> if sock_reachable d \<and> sock_line d \<noteq> '''' then sock_line d else ''(no response on '' @ band @ '' MHz)'')"

definition socket_answer :: "string \<Rightarrow> nat \<Rightarrow> nat \<times> nat \<times> nat \<Rightarrow> socket_reply fetched \<Rightarrow> socket_window \<Rightarrow> socket_window" where
  "socket_answer band i t out w = socket_push (win_flight w ! i) t (socket_text band out) (take_flight i w)"

subsection \<open>The feed window\<close>

definition tx_click :: "string \<Rightarrow> poll_window \<Rightarrow> poll_window" where
  "tx_click band w = open_window (''loading RX/TX activity ('' @ band @ '' MHz)'' @ ellipsis) w"

text \<open>The answer's feed; \<open>None\<close> for a failed request, which changes nothing.\<close>

definition tx_answer :: "nat \<Rightarrow> string list fetched \<Rightarrow> poll_window \<Rightarrow> poll_window" where
  "tx_answer i out w = (case out of
     Failed \<Rightarrow> take_flight i w
   | Got d \<Rightarrow> (take_flight i w)\<lparr>win_text :=
       (case d of Some f \<Rightarrow> if f = [] then ''(no recent RX/TX activity)'' else join [CHR 0x0A] f
        | None \<Rightarrow> ''(no recent RX/TX activity)'')\<rparr>)"

subsection \<open>Runs\<close>

definition fresh_window :: "string \<Rightarrow> poll_window" where
  "fresh_window t = \<lparr>win_hidden = True, win_text = t, win_timer = None, win_intervals = [], win_next = 1, win_session = 0, win_flight = []\<rparr>"

definition fresh_socket :: "string \<Rightarrow> socket_window" where
  "fresh_socket t = poll_window.extend (fresh_window t) \<lparr>bufs = (\<lambda>_. [])\<rparr>"

inductive socket_step :: "string \<Rightarrow> socket_window \<Rightarrow> socket_window \<Rightarrow> bool" for band where
  view: "socket_step band w (socket_click band w)"
| closed: "socket_step band w (close_window w)"
| ticks: "(t, s) \<in> set (win_intervals w) \<Longrightarrow> socket_step band w (window_tick s w)"
| answers: "i < length (win_flight w) \<Longrightarrow> socket_step band w (socket_answer band i t out w)"

inductive tx_step :: "string \<Rightarrow> poll_window \<Rightarrow> poll_window \<Rightarrow> bool" for band where
  view: "tx_step band w (tx_click band w)"
| closed: "tx_step band w (close_window w)"
| ticks: "(t, s) \<in> set (win_intervals w) \<Longrightarrow> tx_step band w (window_tick s w)"
| answers: "i < length (win_flight w) \<Longrightarrow> tx_step band w (tx_answer i out w)"

subsection \<open>One interval per window\<close>

text \<open>The interval of an open window is the only one, and polls for the current session.\<close>

definition window_inv :: "'a poll_window_scheme \<Rightarrow> bool" where
  "window_inv w \<longleftrightarrow> win_intervals w = (case win_timer w of None \<Rightarrow> [] | Some t \<Rightarrow> [(t, win_session w)])
     \<and> (win_timer w = None \<longleftrightarrow> win_hidden w) \<and> (\<forall>s \<in> set (win_flight w). s \<le> win_session w)"

lemma window_open: "window_inv w \<Longrightarrow> window_inv (open_window t w)"
  by (auto simp: window_inv_def open_window_def)

lemma window_close: "window_inv w \<Longrightarrow> window_inv (close_window w)"
  by (auto simp: window_inv_def close_window_def split: option.splits)

lemma window_ticks: "window_inv w \<Longrightarrow> (t, s) \<in> set (win_intervals w) \<Longrightarrow> window_inv (window_tick s w)"
  by (auto simp: window_inv_def window_tick_def split: option.splits)

lemma window_take: "window_inv w \<Longrightarrow> window_inv (take_flight i w)"
  by (auto simp: window_inv_def take_flight_def dest: in_set_takeD in_set_dropD split: option.splits)

lemma tx_inv: "tx_step band v w \<Longrightarrow> window_inv v \<Longrightarrow> window_inv w"
proof (induction rule: tx_step.induct)
  case (answers i w out)
  then show ?case using window_take [of w i] by (auto simp: tx_answer_def window_inv_def split: fetched.split)
qed (auto simp: tx_click_def intro: window_open window_close window_ticks)

lemma push_window: "window_inv (socket_push s t line w) = window_inv w"
  by (simp add: socket_push_def window_inv_def Let_def split: option.split)

lemma socket_inv: "socket_step band v w \<Longrightarrow> window_inv v \<Longrightarrow> window_inv w"
proof (induction rule: socket_step.induct)
  case (view w)
  then show ?case using window_open [of w] by (auto simp: socket_click_def window_inv_def split: option.split)
qed (auto simp: socket_answer_def push_window intro: window_close window_ticks window_take)

lemma window_inits: "window_inv (fresh_socket a)" "window_inv (fresh_window b)"
  by (simp_all add: fresh_socket_def fresh_window_def window_inv_def poll_window.defs)

lemma socket_reachable: "(socket_step band)\<^sup>*\<^sup>* (fresh_socket a) v \<Longrightarrow> window_inv v"
  by (induction rule: rtranclp_induct) (auto intro: window_inits socket_inv)

lemma tx_reachable: "(tx_step band)\<^sup>*\<^sup>* (fresh_window b) w \<Longrightarrow> window_inv w"
  by (induction rule: rtranclp_induct) (auto intro: window_inits tx_inv)

text \<open>
  Each daemon window has at most one interval: it runs exactly while the window is open, whatever
  is clicked and whenever answers arrive, and closing the window stops it.
\<close>

theorem one_interval_per_window:
  assumes "(socket_step band)\<^sup>*\<^sup>* (fresh_socket a) v" and "(tx_step band)\<^sup>*\<^sup>* (fresh_window b) w"
  shows "length (win_intervals v) = (if win_hidden v then 0 else 1) \<and> length (win_intervals w) = (if win_hidden w then 0 else 1)"
  using socket_reachable [OF assms(1)] tx_reachable [OF assms(2)] by (auto simp: window_inv_def split: option.splits)

lemma one_interval_per_window_witness:
  "length (win_intervals (socket_click ''868'' (fresh_socket ''''))) = 1"
proof -
  have "(socket_step ''868'')\<^sup>*\<^sup>* (fresh_socket '''') (socket_click ''868'' (fresh_socket ''''))" by (blast intro: socket_step.view)
  from one_interval_per_window [OF this rtranclp.rtrancl_refl, of "''''"] show ?thesis
    by (simp add: socket_click_def open_window_def fresh_socket_def fresh_window_def poll_window.defs)
qed

subsection \<open>The rolling window\<close>

text \<open>The lines a session has been given so far are kept by their end.\<close>

fun feed_socket :: "string \<Rightarrow> nat \<Rightarrow> ((nat \<times> nat \<times> nat) \<times> socket_reply fetched) list \<Rightarrow> socket_window \<Rightarrow> socket_window" where
  "feed_socket band s [] w = w"
| "feed_socket band s ((t, out) # xs) w = feed_socket band s xs (socket_push s t (socket_text band out) w)"

definition stamped :: "string \<Rightarrow> (nat \<times> nat \<times> nat) \<times> socket_reply fetched \<Rightarrow> string" where
  "stamped band x = ''['' @ clock_stamp (fst x) @ ''] '' @ socket_text band (snd x)"

lemma push_buf: "bufs (socket_push s t l w) s = last_n SOCKET_LINES (bufs w s @ [''['' @ clock_stamp t @ ''] '' @ l])"
  by (simp add: socket_push_def Let_def)

lemma feed_buf: "bufs w s = last_n SOCKET_LINES ys \<Longrightarrow>
    bufs (feed_socket band s xs w) s = last_n SOCKET_LINES (ys @ map (stamped band) xs)"
proof (induction xs arbitrary: w ys)
  case (Cons x xs)
  obtain t out where x: "x = (t, out)" by fastforce
  have "bufs (socket_push s t (socket_text band out) w) s = last_n SOCKET_LINES (ys @ [stamped band x])"
    using Cons.prems by (simp add: push_buf x stamped_def last_n_snoc SOCKET_LINES_def)
  from Cons.IH [OF this] show ?case by (simp add: x)
qed simp

text \<open>
  The socket window shows the last 22 lines of its session, oldest first, each with its time: the
  ones that answers delivered, and a marker for each answer without a line.
\<close>

theorem socket_shows_last_lines:
  assumes "win_timer w = None" and "xs \<noteq> []"
  shows "win_text (feed_socket band (win_session w + 1) xs (socket_click band w))
    = join [CHR 0x0A] (last_n SOCKET_LINES (map (stamped band) xs))"
proof -
  let ?s = "win_session w + 1" and ?w = "socket_click band w"
  have "bufs ?w ?s = last_n SOCKET_LINES []" using assms(1) by (simp add: socket_click_def)
  note buf = feed_buf [OF this, simplified append_Nil]
  have last: "win_text (feed_socket band s (ys @ [y]) v) = join [CHR 0x0A] (bufs (feed_socket band s (ys @ [y]) v) s)" for s ys y v
  proof (induction ys arbitrary: v)
    case Nil
    then show ?case by (cases y) (simp add: socket_push_def Let_def)
  next
    case (Cons a ys)
    then show ?case by (cases a) simp
  qed
  obtain ys y where "xs = ys @ [y]" using assms(2) by (metis rev_exhaust)
  with last buf show ?thesis by metis
qed

lemma socket_shows_last_lines_witness:
  "win_text (feed_socket ''868'' 1 [((1, 2, 3), Failed)] (socket_click ''868'' (fresh_socket '''')))
    = ''[01:02:03] (request failed)''"
  using socket_shows_last_lines [of "fresh_socket ''''" "[((1, 2, 3), Failed)]" "''868''"]
  by (simp add: fresh_socket_def fresh_window_def poll_window.defs stamped_def clock_stamp_def two_def show_nat.simps digit_char_def
      socket_text_def SOCKET_LINES_def)

text \<open>An answer to a closed session's request writes its old buffer into the window opened since.\<close>

definition reopened :: socket_window where
  "reopened = socket_click ''868'' (close_window (socket_click ''868'' (fresh_socket '''')))"

lemma late_answer_overwrites:
  "win_session reopened = 2 \<and> win_flight reopened = [1, 2]
   \<and> win_text (socket_answer ''868'' 0 (1, 2, 3) (Got (Some \<lparr>sock_reachable = True, sock_line = ''x''\<rparr>)) reopened) = ''[01:02:03] x''
   \<and> bufs (socket_answer ''868'' 0 (1, 2, 3) (Got (Some \<lparr>sock_reachable = True, sock_line = ''x''\<rparr>)) reopened) 2 = []"
  by (simp add: reopened_def socket_click_def open_window_def close_window_def fresh_socket_def fresh_window_def poll_window.defs
      socket_answer_def socket_push_def take_flight_def socket_text_def clock_stamp_def two_def show_nat.simps digit_char_def Let_def
      SOCKET_LINES_def)

end
