(* ===== verification/Audio.thy ===== *)
theory Audio
  imports JsNum JsInt
begin

text \<open>
  Recording audio for codec2: the audio worklet \<open>processor.js\<close>, the WAV encoder \<open>wav-encoder.js\<close>, the
  wrappers of \<open>codec2-lib.js\<close> around the compiled encoder, decoder and SoX, and the microphone recorder
  \<open>codec2-microphone-recorder.js\<close>. A sample is a JavaScript number.
\<close>

subsection \<open>The audio worklet\<close>

definition bufferSize :: nat where "bufferSize = 4096"

definition targetRate :: nat where "targetRate = 8000"

record worklet =
  inputBuffer :: "number list"
  bufferIndex :: nat

definition new_worklet :: worklet where
  "new_worklet = \<lparr>inputBuffer = replicate bufferSize (Fin 0), bufferIndex = 0\<rparr>"

text \<open>The worklet asks for its own rate, so the buffer is handed on as it is.\<close>

definition downsampleBuffer :: "(number list \<Rightarrow> nat \<Rightarrow> number list) \<Rightarrow> number list \<Rightarrow> nat \<Rightarrow> number list" where
  "downsampleBuffer resample buffer target = (if target = targetRate then buffer else resample buffer target)"

definition take_sample :: "(number list \<Rightarrow> nat \<Rightarrow> number list) \<Rightarrow> worklet \<Rightarrow> number \<Rightarrow> worklet \<times> number list list" where
  "take_sample resample w x =
     (let w1 = (if bufferIndex w < bufferSize
                then w\<lparr>inputBuffer := (inputBuffer w)[bufferIndex w := x], bufferIndex := bufferIndex w + 1\<rparr> else w)
      in if bufferIndex w1 = bufferSize
         then (w1\<lparr>bufferIndex := 0\<rparr>, [downsampleBuffer resample (inputBuffer w1) targetRate])
         else (w1, []))"

text \<open>\<open>process\<close>: the channels of the first input; the messages posted.\<close>

definition process_audio :: "(number list \<Rightarrow> nat \<Rightarrow> number list) \<Rightarrow> worklet \<Rightarrow> number list list \<Rightarrow> worklet \<times> number list list" where
  "process_audio resample w input = (case input of
     [] \<Rightarrow> (w, [])
   | first # _ \<Rightarrow> run_step (take_sample resample) w first)"

subsection \<open>The WAV encoder\<close>

text \<open>The bytes of a \<open>DataView\<close> write, little endian; a buffer is written at an offset.\<close>

definition le_bytes_of :: "nat \<Rightarrow> int \<Rightarrow> byte list" where
  "le_bytes_of n v = map (\<lambda>k. word_of_int (v div 256 ^ k)) [0..<n]"

definition put :: "nat \<Rightarrow> byte list \<Rightarrow> byte list \<Rightarrow> byte list" where
  "put off bs buf = take off buf @ bs @ drop (off + length bs) buf"

definition writeString :: "nat \<Rightarrow> string \<Rightarrow> byte list \<Rightarrow> byte list" where
  "writeString off s = put off (map of_char s)"

text \<open>\<open>ToInt16\<close> of a number: truncate; the wrap-around is in taking the bytes.\<close>

definition to_int :: "number \<Rightarrow> int" where
  "to_int x = (case x of Fin q \<Rightarrow> (if q < 0 then - \<lfloor>- q\<rfloor> else \<lfloor>q\<rfloor>) | _ \<Rightarrow> 0)"

definition pcm16 :: "number \<Rightarrow> int" where
  "pcm16 x = (let s = n_max (Fin (-1)) (n_min (Fin 1) x)
     in to_int (if n_lt s (Fin 0) then n_mul s (Fin 0x8000) else n_mul s (Fin 0x7FFF)))"

fun floatTo16BitPCM :: "nat \<Rightarrow> number list \<Rightarrow> byte list \<Rightarrow> byte list" where
  "floatTo16BitPCM off [] buf = buf"
| "floatTo16BitPCM off (x # xs) buf = floatTo16BitPCM (off + 2) xs (put off (le_bytes_of 2 (pcm16 x)) buf)"

definition encodeWAV :: "number list \<Rightarrow> int \<Rightarrow> int \<Rightarrow> byte list" where
  "encodeWAV samples rate channels =
     (let n = int (length samples);
          b0 = replicate (44 + length samples * 2) 0;
          b1 = writeString 0 ''RIFF'' b0;
          b2 = put 4 (le_bytes_of 4 (36 + n * 2)) b1;
          b3 = writeString 8 ''WAVE'' b2;
          b4 = writeString 12 ''fmt '' b3;
          b5 = put 16 (le_bytes_of 4 16) b4;
          b6 = put 20 (le_bytes_of 2 1) b5;
          b7 = put 22 (le_bytes_of 2 channels) b6;
          b8 = put 24 (le_bytes_of 4 rate) b7;
          b9 = put 28 (le_bytes_of 4 (rate * channels * 2)) b8;
          b10 = put 32 (le_bytes_of 2 (channels * 2)) b9;
          b11 = put 34 (le_bytes_of 2 16) b10;
          b12 = writeString 36 ''data'' b11;
          b13 = put 40 (le_bytes_of 4 (n * 2)) b12
      in floatTo16BitPCM 44 samples b13)"

subsection \<open>The library wrappers\<close>

definition b64_alphabet :: string where
  "b64_alphabet = ''ABCDEFGHIJKLMNOPQRSTUVWXYZabcdefghijklmnopqrstuvwxyz0123456789+/''"

definition b64_char :: "nat \<Rightarrow> char" where
  "b64_char n = b64_alphabet ! n"

text \<open>\<open>btoa\<close> of a byte string.\<close>

fun b64_encode :: "nat list \<Rightarrow> string" where
  "b64_encode (a # b # c # xs) =
     b64_char (a div 4) # b64_char (a mod 4 * 16 + b div 16) # b64_char (b mod 16 * 4 + c div 64) # b64_char (c mod 64) # b64_encode xs"
| "b64_encode [a, b] = [b64_char (a div 4), b64_char (a mod 4 * 16 + b div 16), b64_char (b mod 16 * 4), CHR ''='']"
| "b64_encode [a] = [b64_char (a div 4), b64_char (a mod 4 * 16), CHR ''='', CHR ''='']"
| "b64_encode [] = []"

definition b64_val :: "char \<Rightarrow> nat option" where
  "b64_val ch = map_of (zip b64_alphabet [0..<64]) ch"

text \<open>
  \<open>atob\<close> on padded text without white space, which is what \<open>btoa\<close> writes; \<open>None\<close> for any other text.
\<close>

fun b64_decode :: "string \<Rightarrow> nat list option" where
  "b64_decode [] = Some []"
| "b64_decode (p # q # r # s # xs) =
     (case (b64_val p, b64_val q) of
        (Some a, Some b) \<Rightarrow>
          if r = CHR ''='' \<and> s = CHR ''='' \<and> xs = [] then Some [a * 4 + b div 16]
          else (case b64_val r of
              None \<Rightarrow> None
            | Some c \<Rightarrow>
                if s = CHR ''='' \<and> xs = [] then Some [a * 4 + b div 16, b mod 16 * 16 + c div 4]
                else (case (b64_val s, b64_decode xs) of
                    (Some d, Some rest) \<Rightarrow> Some ((a * 4 + b div 16) # (b mod 16 * 16 + c div 4) # (c mod 4 * 64 + d) # rest)
                  | _ \<Rightarrow> None))
      | _ \<Rightarrow> None)"
| "b64_decode _ = None"

definition arrayBufferToBase64 :: "byte list \<Rightarrow> string" where
  "arrayBufferToBase64 bs = b64_encode (map unat bs)"

definition base64ToArrayBuffer :: "string \<Rightarrow> byte list option" where
  "base64ToArrayBuffer s = map_option (map of_nat) (b64_decode s)"

text \<open>
  A compiled program: from its arguments and files to its files. A wrapper writes the input, runs it
  and reads the output; \<open>None\<close> when there is no output, and the promise stays pending.
\<close>

type_synonym wasm_main = "string list \<Rightarrow> (string \<rightharpoonup> byte list) \<Rightarrow> (string \<rightharpoonup> byte list)"

definition run_wasm :: "wasm_main \<Rightarrow> string list \<Rightarrow> string \<Rightarrow> byte list \<Rightarrow> string \<Rightarrow> byte list option" where
  "run_wasm main args infile data outfile = main args [infile \<mapsto> data] outfile"

definition runDecode :: "wasm_main \<Rightarrow> string \<Rightarrow> byte list \<Rightarrow> byte list option" where
  "runDecode c2dec mode data = run_wasm c2dec [mode, ''input.bit'', ''output.raw''] ''input.bit'' data ''output.raw''"

definition runEncode :: "wasm_main \<Rightarrow> string \<Rightarrow> byte list \<Rightarrow> byte list option" where
  "runEncode c2enc mode data = run_wasm c2enc [mode, ''input.raw'', ''output.bit''] ''input.raw'' data ''output.bit''"

definition sox_format :: "string list" where
  "sox_format = [''-r'', ''8000'', ''-L'', ''-e'', ''signed-integer'', ''-b'', ''16'', ''-c'', ''1'']"

definition rawToWav :: "wasm_main \<Rightarrow> byte list \<Rightarrow> byte list option" where
  "rawToWav sox data = run_wasm sox (sox_format @ [''input.raw'', ''output.wav'']) ''input.raw'' data ''output.wav''"

definition audioFileToRaw :: "wasm_main \<Rightarrow> byte list \<Rightarrow> string \<Rightarrow> byte list option" where
  "audioFileToRaw sox data filename = run_wasm sox (filename # sox_format @ [''output.raw'']) filename data ''output.raw''"

subsection \<open>The microphone recorder\<close>

datatype ctx_state = Running | Closed

record recorder =
  codec2Mode :: string
  audioChunks :: "number list list"
  audioContext :: "ctx_state option"
  worklet_connected :: "bool option"
  tracks_live :: "bool option"
  source_connected :: "bool option"

definition new_recorder :: recorder where
  "new_recorder = \<lparr>codec2Mode = ''1200'', audioChunks = [], audioContext = None, worklet_connected = None, tracks_live = None, source_connected = None\<rparr>"

text \<open>Where \<open>start\<close> can fail: at the context, at the worklet module, at the microphone.\<close>

datatype start_outcome = No_context | No_module | No_microphone | Started

definition start_recorder :: "start_outcome \<Rightarrow> recorder \<Rightarrow> bool \<times> recorder" where
  "start_recorder out r =
     (if out = No_context then (False, r)
      else let r1 = r\<lparr>audioContext := Some Running\<rparr>
      in if out = No_module then (False, r1)
      else let r2 = r1\<lparr>worklet_connected := Some True\<rparr>
      in if out = No_microphone then (False, r2)
      else (True, r2\<lparr>tracks_live := Some True, source_connected := Some True\<rparr>))"

definition audio_message :: "number list \<Rightarrow> recorder \<Rightarrow> recorder" where
  "audio_message chunk r = r\<lparr>audioChunks := audioChunks r @ [chunk]\<rparr>"

definition release_recorder :: "recorder \<Rightarrow> recorder" where
  "release_recorder r = r\<lparr>source_connected := map_option (\<lambda>_. False) (source_connected r),
     tracks_live := map_option (\<lambda>_. False) (tracks_live r),
     worklet_connected := map_option (\<lambda>_. False) (worklet_connected r),
     audioContext := map_option (\<lambda>_. Closed) (audioContext r)\<rparr>"

definition stop_recorder :: "wasm_main \<Rightarrow> wasm_main \<Rightarrow> recorder \<Rightarrow> recorder \<times> byte list option" where
  "stop_recorder sox c2enc r =
     (release_recorder r,
      Option.bind (audioFileToRaw sox (encodeWAV (concat (audioChunks r)) 8000 1) ''audio.wav'') (runEncode c2enc (codec2Mode r)))"

end
