(* ===== verification/Audio_Props.thy ===== *)
theory Audio_Props
  imports Audio
begin

text \<open>
  The audio path: samples never wrap when they become 16-bit integers, the WAV file holds them under a
  consistent header, base64 is undone by its inverse, and a recording consists of the full buffers of
  its input.
\<close>

subsection \<open>Samples as 16-bit integers\<close>

lemma to_int_mono: "x \<le> y \<Longrightarrow> to_int (Fin x) \<le> to_int (Fin y)"
proof -
  assume le: "x \<le> y"
  consider "y < 0" | "x < 0" "0 \<le> y" | "0 \<le> x" by linarith
  then show ?thesis
  proof cases
    case 1
    with le have "\<lfloor>- y\<rfloor> \<le> \<lfloor>- x\<rfloor>" by (intro floor_mono) simp
    with 1 le show ?thesis by (simp add: to_int_def)
  next
    case 2
    then have "0 \<le> \<lfloor>- x\<rfloor>" "0 \<le> \<lfloor>y\<rfloor>" by simp_all
    then have "- \<lfloor>- x\<rfloor> \<le> \<lfloor>y\<rfloor>" by linarith
    with 2 show ?thesis by (simp add: to_int_def)
  next
    case 3
    with le show ?thesis by (simp add: to_int_def floor_mono)
  qed
qed

lemma to_int_int [simp]: "to_int (Fin (of_int n)) = n"
proof -
  have "\<lfloor>- (of_int n :: rat)\<rfloor> = - n" by (metis floor_of_int of_int_minus)
  then show ?thesis by (simp add: to_int_def)
qed

definition scaled :: "rat \<Rightarrow> rat" where
  "scaled q = fl (if q < 0 then q * 0x8000 else q * 0x7FFF)"

lemma scaled_bounds: "-1 \<le> q \<Longrightarrow> q \<le> 1 \<Longrightarrow> -32768 \<le> scaled q \<and> scaled q \<le> 32767 \<and> (q < 0 \<longrightarrow> scaled q \<le> 0) \<and> (0 \<le> q \<longrightarrow> 0 \<le> scaled q)"
proof -
  assume q: "-1 \<le> q" "q \<le> 1"
  have i: "fl (-32768) = -32768" "fl 32767 = 32767" using fl_int [of "-32768"] fl_int [of 32767] by simp_all
  show ?thesis
  proof (cases "q < 0")
    case True
    have "fl (-32768) \<le> fl (q * 0x8000)" by (rule fl_mono) (use q in simp)
    moreover have "fl (q * 0x8000) \<le> fl 0" by (rule fl_mono) (use True in simp)
    ultimately show ?thesis using True i by (simp add: scaled_def)
  next
    case False
    have "fl 0 \<le> fl (q * 0x7FFF)" by (rule fl_mono) (use False in simp)
    moreover have "fl (q * 0x7FFF) \<le> fl 32767" by (rule fl_mono) (use q in simp)
    ultimately show ?thesis using False i by (simp add: scaled_def)
  qed
qed

lemma scaled_mono: "-1 \<le> p \<Longrightarrow> p \<le> q \<Longrightarrow> q \<le> 1 \<Longrightarrow> scaled p \<le> scaled q"
proof -
  assume "-1 \<le> p" "p \<le> q" "q \<le> 1"
  then show ?thesis
    using scaled_bounds [of p] scaled_bounds [of q]
    by (cases "p < 0"; cases "q < 0") (auto simp: scaled_def intro: fl_mono)
qed

lemma pcm16_scaled: "-1 \<le> q \<Longrightarrow> q \<le> 1 \<Longrightarrow> pcm16 (Fin q) = to_int (Fin (scaled q))"
proof -
  assume q: "-1 \<le> q" "q \<le> 1"
  have "\<bar>scaled q\<bar> \<le> 32768" using scaled_bounds [OF q] by auto
  then have "\<bar>scaled q\<bar> < 2 ^ 1024" by (rule order_le_less_trans) simp
  moreover have "n_max (Fin (-1)) (n_min (Fin 1) (Fin q)) = Fin q"
    using q by (auto simp: n_max_def n_min_def)
  ultimately show ?thesis by (auto simp: pcm16_def n_mul_def scaled_def round_num_fin)
qed

lemma pcm16_clamped: "x \<noteq> NaN \<Longrightarrow> \<exists>q. -1 \<le> q \<and> q \<le> 1 \<and> n_max (Fin (-1)) (n_min (Fin 1) x) = Fin q \<and> pcm16 x = pcm16 (Fin q)"
proof -
  assume "x \<noteq> NaN"
  from clamp_bounds [OF this, of "-1" 1] obtain q where q: "n_max (Fin (-1)) (n_min (Fin 1) x) = Fin q" "-1 \<le> q" "q \<le> 1" by auto
  moreover have "n_max (Fin (-1)) (n_min (Fin 1) (Fin q)) = Fin q" using q by (auto simp: n_max_def n_min_def)
  ultimately show ?thesis by (metis pcm16_def)
qed

lemma pcm16_NaN: "pcm16 NaN = 0"
  by (simp add: pcm16_def n_max_def n_min_def to_int_def n_mul_def)

lemma pcm16_range: "-32768 \<le> pcm16 x \<and> pcm16 x \<le> 32767"
proof (cases "x = NaN")
  case False
  then obtain q where q: "-1 \<le> q" "q \<le> 1" "pcm16 x = pcm16 (Fin q)" using pcm16_clamped by blast
  have "to_int (Fin (of_int (-32768))) \<le> to_int (Fin (scaled q))" "to_int (Fin (scaled q)) \<le> to_int (Fin (of_int 32767))"
    by (rule to_int_mono, use scaled_bounds [OF q(1,2)] in simp)+
  then show ?thesis using q pcm16_scaled unfolding to_int_int by simp
qed (simp add: pcm16_NaN)

subsection \<open>Bytes at an offset\<close>

lemma length_put: "off + length bs \<le> length buf \<Longrightarrow> length (put off bs buf) = length buf"
  by (simp add: put_def)

lemma nth_put: "off + length bs \<le> length buf \<Longrightarrow> i < length buf \<Longrightarrow>
    put off bs buf ! i = (if off \<le> i \<and> i < off + length bs then bs ! (i - off) else buf ! i)"
  by (auto simp: put_def nth_append min_def)

lemma length_le_bytes [simp]: "length (le_bytes_of n v) = n"
  by (simp add: le_bytes_of_def)

text \<open>Reading a little-endian number back.\<close>

definition read_le :: "nat \<Rightarrow> nat \<Rightarrow> byte list \<Rightarrow> int" where
  "read_le n off bs = (\<Sum>k < n. uint (bs ! (off + k)) * 256 ^ k)"

definition signed16 :: "int \<Rightarrow> int" where
  "signed16 v = (if v < 32768 then v else v - 65536)"

lemma read_le_cong: "(\<And>k. k < n \<Longrightarrow> bs ! (off + k) = cs ! (off' + k)) \<Longrightarrow> read_le n off bs = read_le n off' cs"
  by (simp add: read_le_def)

lemma read_le_of: "read_le n 0 (le_bytes_of n v) = v mod 256 ^ n"
proof (induction n)
  case (Suc n)
  have nth: "le_bytes_of (Suc n) v ! k = le_bytes_of n v ! k" if "k < n" for k
    using that by (simp add: le_bytes_of_def nth_append)
  have "read_le (Suc n) 0 (le_bytes_of (Suc n) v) = v mod 256 ^ n + (v div 256 ^ n mod 256) * 256 ^ n"
    using Suc nth by (simp add: read_le_def le_bytes_of_def nth_append uint_word_of_int)
  also have "\<dots> = v mod 256 ^ Suc n"
    using zmod_zmult2_eq [of 256 v "256 ^ n"] by (simp add: ac_simps)
  finally show ?case .
qed (simp add: read_le_def le_bytes_of_def)

lemma read_put_same: "off + length bs \<le> length buf \<Longrightarrow> length bs = n \<Longrightarrow> read_le n off (put off bs buf) = read_le n 0 bs"
  by (rule read_le_cong) (simp add: nth_put)

lemma read_put_other: "off + length bs \<le> length buf \<Longrightarrow> o' + n \<le> length buf \<Longrightarrow> o' + n \<le> off \<or> off + length bs \<le> o' \<Longrightarrow>
    read_le n o' (put off bs buf) = read_le n o' buf"
  by (rule read_le_cong) (auto simp: nth_put)

subsection \<open>The WAV file\<close>

lemma length_pcm: "off + 2 * length xs \<le> length buf \<Longrightarrow> length (floatTo16BitPCM off xs buf) = length buf"
  by (induction off xs buf rule: floatTo16BitPCM.induct) (simp_all add: length_put)

lemma pcm_before: "off + 2 * length xs \<le> length buf \<Longrightarrow> o' + n \<le> off \<Longrightarrow> read_le n o' (floatTo16BitPCM off xs buf) = read_le n o' buf"
  by (induction off xs buf rule: floatTo16BitPCM.induct) (simp_all add: length_put read_put_other)

lemma pcm_read: "off + 2 * length xs \<le> length buf \<Longrightarrow> i < length xs \<Longrightarrow>
    read_le 2 (off + 2 * i) (floatTo16BitPCM off xs buf) = pcm16 (xs ! i) mod 65536"
proof (induction off xs buf arbitrary: i rule: floatTo16BitPCM.induct)
  case (2 off x xs buf)
  let ?b = "put off (le_bytes_of 2 (pcm16 x)) buf"
  have len: "off + 2 + 2 * length xs \<le> length ?b" using "2.prems" by (simp add: length_put)
  show ?case
  proof (cases i)
    case 0
    have "read_le 2 off (floatTo16BitPCM (off + 2) xs ?b) = read_le 2 off ?b" by (rule pcm_before [OF len]) simp
    also have "\<dots> = pcm16 x mod 65536"
      using "2.prems" read_le_of [of 2 "pcm16 x"] by (simp add: read_put_same)
    finally show ?thesis using 0 by simp
  next
    case (Suc j)
    then show ?thesis using "2.IH" [OF len, of j] "2.prems" by simp
  qed
qed simp

lemma signed16_pcm: "signed16 (pcm16 x mod 65536) = pcm16 x"
proof -
  have "pcm16 x mod 65536 = (if pcm16 x < 0 then pcm16 x + 65536 else pcm16 x)"
  proof (cases "pcm16 x < 0")
    case True
    have "pcm16 x mod 65536 = (pcm16 x + 65536) mod 65536" by simp
    also have "\<dots> = pcm16 x + 65536" using True pcm16_range [of x] by (intro mod_pos_pos_trivial) simp_all
    finally show ?thesis using True by simp
  qed (use pcm16_range [of x] in simp)
  then show ?thesis using pcm16_range [of x] by (simp add: signed16_def)
qed

definition wav_header :: "nat \<Rightarrow> int \<Rightarrow> int \<Rightarrow> byte list" where
  "wav_header n rate channels = writeString 36 ''data'' (put 34 (le_bytes_of 2 16) (put 32 (le_bytes_of 2 (channels * 2))
     (put 28 (le_bytes_of 4 (rate * channels * 2)) (put 24 (le_bytes_of 4 rate) (put 22 (le_bytes_of 2 channels)
     (put 20 (le_bytes_of 2 1) (put 16 (le_bytes_of 4 16) (writeString 12 ''fmt '' (writeString 8 ''WAVE''
     (put 4 (le_bytes_of 4 (36 + int n * 2)) (writeString 0 ''RIFF'' (replicate (44 + n * 2) 0))))))))))))"

lemma encodeWAV_eq: "encodeWAV xs rate channels
    = floatTo16BitPCM 44 xs (put 40 (le_bytes_of 4 (int (length xs) * 2)) (wav_header (length xs) rate channels))"
  by (simp add: encodeWAV_def wav_header_def Let_def)

lemma length_header: "length (wav_header n rate channels) = 44 + n * 2"
  by (simp add: wav_header_def writeString_def length_put)

lemma header_fields:
  "read_le 4 4 (wav_header n rate channels) = (36 + int n * 2) mod 2 ^ 32"
  "read_le 2 22 (wav_header n rate channels) = channels mod 2 ^ 16"
  "read_le 4 24 (wav_header n rate channels) = rate mod 2 ^ 32"
  "read_le 4 28 (wav_header n rate channels) = rate * channels * 2 mod 2 ^ 32"
  unfolding wav_header_def writeString_def
  by (simp_all add: length_put read_put_other read_put_same read_le_of)

text \<open>
  C36. A WAV file holds its samples: for a length that fits the header, the length fields agree with the
  size of the file, the rate and the channels are those given, and reading a sample back as a signed
  16-bit number gives the clamped and scaled sample, which never wraps.
\<close>

theorem wav_roundtrip:
  assumes "36 + 2 * int (length xs) < 2 ^ 32" and "0 \<le> rate" and "0 \<le> channels" and "rate * channels * 2 < 2 ^ 32"
    and "rate < 2 ^ 32" and "channels < 2 ^ 16"
  shows "let w = encodeWAV xs rate channels in
    int (length w) = read_le 4 4 w + 8 \<and> read_le 4 40 w = int (length w) - 44
    \<and> read_le 2 22 w = channels \<and> read_le 4 24 w = rate \<and> read_le 4 28 w = rate * channels * 2
    \<and> (\<forall>i < length xs. signed16 (read_le 2 (44 + 2 * i) w) = pcm16 (xs ! i) \<and> -32768 \<le> pcm16 (xs ! i) \<and> pcm16 (xs ! i) \<le> 32767)"
proof -
  let ?h = "put 40 (le_bytes_of 4 (int (length xs) * 2)) (wav_header (length xs) rate channels)"
  have len: "length ?h = 44 + length xs * 2" by (simp add: length_put length_header)
  then have room: "44 + 2 * length xs \<le> length ?h" by simp
  have field: "read_le n off (encodeWAV xs rate channels) = read_le n off ?h" if "off + n \<le> 44" for n off
    unfolding encodeWAV_eq by (rule pcm_before [OF room that])
  have data: "read_le 4 40 ?h = int (length xs) * 2"
    using assms(1) read_le_of [of 4 "int (length xs) * 2"] by (simp add: read_put_same length_header)
  have other: "read_le n off ?h = read_le n off (wav_header (length xs) rate channels)" if "off + n \<le> 40" for n off
    using that by (simp add: read_put_other length_header)
  have size: "length (encodeWAV xs rate channels) = 44 + length xs * 2"
    unfolding encodeWAV_eq using length_pcm [OF room] len by simp
  have pos: "0 \<le> rate * channels * 2" using assms(2,3) by simp
  have samples: "read_le 2 (44 + 2 * i) (encodeWAV xs rate channels) = pcm16 (xs ! i) mod 65536" if "i < length xs" for i
    unfolding encodeWAV_eq by (rule pcm_read [OF room that])
  show ?thesis
    unfolding Let_def using assms pos
    by (simp add: field data other header_fields size samples signed16_pcm pcm16_range)
qed

lemma wav_roundtrip_witness:
  "signed16 (read_le 2 44 (encodeWAV [Fin (1 / 2), NaN] 8000 1)) = pcm16 (Fin (1 / 2))"
  using wav_roundtrip [of "[Fin (1 / 2), NaN]" 8000 1] by (simp add: Let_def All_less_Suc)

subsection \<open>Recording\<close>

text \<open>
  The worklet after a run of samples: its buffer begins with the samples since the last message.
\<close>

definition holds_tail :: "worklet \<Rightarrow> number list \<Rightarrow> bool" where
  "holds_tail w xs \<longleftrightarrow> length (inputBuffer w) = bufferSize \<and> bufferIndex w = length xs mod bufferSize
     \<and> take (bufferIndex w) (inputBuffer w) = drop (length xs - bufferIndex w) xs"

lemma take_sample_step:
  assumes "holds_tail w xs"
  shows "let (w', msgs) = take_sample resample w x in holds_tail w' (xs @ [x]) \<and>
    msgs = (if (length xs + 1) mod bufferSize = 0 then [drop (length xs + 1 - bufferSize) (xs @ [x])] else [])"
proof -
  define k where "k = length xs mod bufferSize"
  have pos: "0 < bufferSize" by (simp add: bufferSize_def)
  then have k: "k < bufferSize" "k \<le> length xs" by (simp_all add: k_def)
  have h: "length (inputBuffer w) = bufferSize" "bufferIndex w = k" "take k (inputBuffer w) = drop (length xs - k) xs"
    using assms by (auto simp: holds_tail_def k_def)
  let ?b = "(inputBuffer w)[k := x]"
  have b: "take (k + 1) ?b = drop (length xs - k) (xs @ [x])"
    using h k by (simp add: take_Suc_conv_app_nth)
  show ?thesis
  proof (cases "k + 1 = bufferSize")
    case True
    then have m: "(length xs + 1) mod bufferSize = 0" unfolding k_def by (metis mod_Suc Suc_eq_plus1)
    have "?b = drop (length xs - k) (xs @ [x])" using b h(1) True by simp
    moreover have "length xs - k = length xs + 1 - bufferSize" using True by simp
    ultimately show ?thesis
      using True m h k pos by (simp add: take_sample_def Let_def holds_tail_def downsampleBuffer_def)
  next
    case False
    then have m: "(length xs + 1) mod bufferSize = k + 1" unfolding k_def by (metis mod_Suc Suc_eq_plus1)
    then show ?thesis
      using False h k pos b by (simp add: take_sample_def Let_def holds_tail_def)
  qed
qed

lemma worklet_run:
  "let (w, msgs) = run_step (take_sample resample) new_worklet xs in holds_tail w xs
    \<and> concat msgs = take (length xs div bufferSize * bufferSize) xs \<and> (\<forall>m \<in> set msgs. length m = bufferSize)"
proof (induction xs rule: rev_induct)
  case Nil
  show ?case by (simp add: holds_tail_def new_worklet_def)
next
  case (snoc x xs)
  obtain w msgs where r: "run_step (take_sample resample) new_worklet xs = (w, msgs)" by fastforce
  with snoc have IH: "holds_tail w xs" "concat msgs = take (length xs div bufferSize * bufferSize) xs" "\<forall>m \<in> set msgs. length m = bufferSize"
    by auto
  obtain w' new where s: "take_sample resample w x = (w', new)" by fastforce
  have step: "holds_tail w' (xs @ [x])"
    "new = (if (length xs + 1) mod bufferSize = 0 then [drop (length xs + 1 - bufferSize) (xs @ [x])] else [])"
    using take_sample_step [OF IH(1), of resample x] by (simp_all add: s Let_def)
  have run: "run_step (take_sample resample) new_worklet (xs @ [x]) = (w', msgs @ new)"
    by (simp add: run_step_append r s Let_def)
  define n where "n = length xs"
  have "concat (msgs @ new) = take ((n + 1) div bufferSize * bufferSize) (xs @ [x]) \<and> (\<forall>m \<in> set new. length m = bufferSize)"
  proof (cases "(n + 1) mod bufferSize = 0")
    case True
    then obtain q where q: "n + 1 = q * bufferSize" by (metis mod_0_imp_dvd dvd_div_mult_self)
    have pos: "0 < bufferSize" by (simp add: bufferSize_def)
    then have q0: "0 < q" using q by (cases q) auto
    have n: "n = (q - 1) * bufferSize + (bufferSize - 1)" using q q0 pos by (cases q) (auto simp: algebra_simps)
    have "n div bufferSize = q - 1" by (rule div_nat_eqI) (use n pos in \<open>simp_all add: algebra_simps\<close>)
    then have "concat msgs = take ((q - 1) * bufferSize) xs" using IH(2) by (simp add: n_def)
    moreover have "(q - 1) * bufferSize = n + 1 - bufferSize" "bufferSize \<le> n + 1" using q q0 by (cases q; simp)+
    moreover have "(n + 1) div bufferSize * bufferSize = n + 1" using q pos by simp
    moreover have "length (xs @ [x]) = n + 1" by (simp add: n_def)
    moreover have "Suc 0 - bufferSize = 0" "Suc (bufferSize - Suc 0) = bufferSize" using pos by simp_all
    ultimately show ?thesis using step(2) True by (simp add: n_def flip: append_assoc)
  next
    case False
    then have "(n + 1) div bufferSize = n div bufferSize" by (metis Suc_eq_plus1 div_Suc mod_eq_0_iff_dvd)
    moreover have "n div bufferSize * bufferSize \<le> n" by simp
    ultimately show ?thesis using IH(2) step(2) False by (simp add: n_def)
  qed
  with run step(1) IH(3) show ?case by (auto simp: n_def)
qed

text \<open>
  A recording consists of the full buffers of its input, in order, whatever blocks the browser
  hands over: the chunks of the recorder hold the first \<open>4096 * (n div 4096)\<close> samples of \<open>n\<close>, and
  the file that is encoded when it stops has those samples. The up to 4095 samples after the last full
  buffer are in neither.
\<close>

theorem recording_keeps_full_buffers:
  "let (w, msgs) = feed_chunks (\<lambda>w b. process_audio resample w [b]) new_worklet parts;
       r = fold audio_message msgs new_recorder;
       kept = take (length (concat parts) div 4096 * 4096) (concat parts)
   in concat (audioChunks r) = kept
     \<and> snd (stop_recorder sox c2enc r) = Option.bind (audioFileToRaw sox (encodeWAV kept 8000 1) ''audio.wav'') (runEncode c2enc ''1200'')
     \<and> bufferIndex w = length (concat parts) - length kept"
proof -
  have "(\<lambda>w b. process_audio resample w [b]) = run_step (take_sample resample)" by (simp add: process_audio_def fun_eq_iff)
  then have feed: "feed_chunks (\<lambda>w b. process_audio resample w [b]) new_worklet parts
      = run_step (take_sample resample) new_worklet (concat parts)"
    by (simp add: run_step.feed_chunks_concat)
  obtain w msgs where r: "run_step (take_sample resample) new_worklet (concat parts) = (w, msgs)" by fastforce
  have chunks: "audioChunks (fold audio_message ms p) = audioChunks p @ ms \<and> codec2Mode (fold audio_message ms p) = codec2Mode p" for ms p
    by (induction ms arbitrary: p) (auto simp: audio_message_def)
  from worklet_run [of resample "concat parts"] r
  have "holds_tail w (concat parts)" "concat msgs = take (length (concat parts) div 4096 * 4096) (concat parts)"
    by (simp_all add: bufferSize_def)
  then show ?thesis
    unfolding feed r by (simp add: chunks stop_recorder_def new_recorder_def holds_tail_def bufferSize_def minus_div_mult_eq_mod)
qed

text \<open>A start that fails at the microphone leaves the audio context open.\<close>

lemma failed_start_leaks: "start_recorder No_microphone new_recorder =
    (False, new_recorder\<lparr>audioContext := Some Running, worklet_connected := Some True\<rparr>)"
  by (simp add: start_recorder_def)

subsection \<open>Base 64\<close>

lemma b64_val_char: "n < 64 \<Longrightarrow> b64_val (b64_char n) = Some n"
proof -
  have "list_all (\<lambda>n. b64_val (b64_char n) = Some n) [0..<64]" by code_simp
  then show "n < 64 \<Longrightarrow> ?thesis" by (simp add: list_all_iff)
qed

lemma b64_char_pad: "n < 64 \<Longrightarrow> b64_char n \<noteq> CHR ''=''"
proof -
  have "list_all (\<lambda>n. b64_char n \<noteq> CHR ''='') [0..<64]" by code_simp
  then show "n < 64 \<Longrightarrow> ?thesis" by (simp add: list_all_iff)
qed

lemma digits_join: "y < m \<Longrightarrow> (x * m + y) div m = (x :: nat)" "y < m \<Longrightarrow> (x * m + y) mod m = y"
  by simp_all

lemma b64_decode_encode: "\<forall>x \<in> set xs. x < 256 \<Longrightarrow> b64_decode (b64_encode xs) = Some xs"
proof (induction xs rule: b64_encode.induct)
  case (1 a b c xs)
  then have byte: "a < 256" "b < 256" "c < 256" by auto
  define x y z w where def: "x = a div 4" "y = a mod 4 * 16 + b div 16" "z = b mod 16 * 4 + c div 64" "w = c mod 64"
  have lt: "x < 64" "y < 64" "z < 64" "w < 64" using byte by (auto simp: def)
  have join: "x * 4 + y div 16 = a" "y mod 16 * 16 + z div 4 = b" "z mod 4 * 64 + w = c"
    unfolding def using digits_join [of "b div 16" 16 "a mod 4"] digits_join [of "c div 64" 4 "b mod 16"] byte by auto
  have enc: "b64_encode (a # b # c # xs) = b64_char x # b64_char y # b64_char z # b64_char w # b64_encode xs" by (simp add: def)
  show ?case unfolding enc using 1 lt join by (simp add: b64_val_char b64_char_pad)
next
  case (2 a b)
  then have byte: "a < 256" "b < 256" by auto
  define x y z where def: "x = a div 4" "y = a mod 4 * 16 + b div 16" "z = b mod 16 * 4"
  have lt: "x < 64" "y < 64" "z < 64" using byte by (auto simp: def)
  have join: "x * 4 + y div 16 = a" "y mod 16 * 16 + z div 4 = b"
    unfolding def using digits_join [of "b div 16" 16 "a mod 4"] byte by auto
  have enc: "b64_encode [a, b] = [b64_char x, b64_char y, b64_char z, CHR ''='']" by (simp add: def)
  show ?case unfolding enc using lt join by (simp add: b64_val_char b64_char_pad)
next
  case (3 a)
  then have byte: "a < 256" by auto
  define x y where def: "x = a div 4" "y = a mod 4 * 16"
  have lt: "x < 64" "y < 64" using byte by (auto simp: def)
  have join: "x * 4 + y div 16 = a" by (simp add: def)
  have enc: "b64_encode [a] = [b64_char x, b64_char y, CHR ''='', CHR ''='']" by (simp add: def)
  show ?case unfolding enc using lt join by (simp add: b64_val_char)
qed simp

text \<open>
  Base 64 loses nothing: decoding the text of a buffer gives the buffer back.
\<close>

theorem base64_roundtrip: "base64ToArrayBuffer (arrayBufferToBase64 bs) = Some bs"
proof -
  have "\<forall>x \<in> set (map unat bs). x < 256" using unsigned_less [where ?'a = nat and ?'b = 8] by auto
  from b64_decode_encode [OF this] show ?thesis
    by (simp add: base64ToArrayBuffer_def arrayBufferToBase64_def o_def map_idI)
qed

end
