(* ===== verification/WebSerial.thy ===== *)
theory WebSerial
  imports JsInt JsNum
begin

text \<open>
  The Web Serial polyfill \<open>web-serial-polyfill/dist/serial.js\<close>: a serial port over the CDC-ACM
  interfaces of a WebUSB device. The device is a parameter: its own state of type \<open>'d\<close>, one
  answering function for the asynchronous calls (a rejection is \<open>Inl\<close>, with the text the rejection's
  \<open>toString\<close> gives), and the attributes \<open>opened\<close> and \<open>configuration\<close>. An operation takes the port
  and returns the port and an exception or a result; a call that is awaited is one step. The streams
  are those of the Streams standard, as far as the port uses them: a state, a queue, a lock.
\<close>

subsection \<open>Constants\<close>

definition kSetLineCoding :: int where "kSetLineCoding = 0x20"
definition kSetControlLineState :: int where "kSetControlLineState = 0x22"
definition kSendBreak :: int where "kSendBreak = 0x23"
definition kDefaultBufferSize :: rat where "kDefaultBufferSize = 255"
definition kDefaultDataBits :: rat where "kDefaultDataBits = 8"
definition kDefaultParity :: string where "kDefaultParity = ''none''"
definition kDefaultStopBits :: rat where "kDefaultStopBits = 1"
definition kAcceptableDataBits :: "rat list" where "kAcceptableDataBits = [16, 8, 7, 6, 5]"
definition kAcceptableStopBits :: "rat list" where "kAcceptableStopBits = [1, 2]"
definition kAcceptableParity :: "string list" where "kAcceptableParity = [''none'', ''even'', ''odd'']"
definition kParityIndexMapping :: "string list" where "kParityIndexMapping = [''none'', ''odd'', ''even'']"
definition kStopBitsIndexMapping :: "rat list" where "kStopBitsIndexMapping = [1, 3 / 2, 2]"

text \<open>
  A property of an object passed in: \<open>None\<close> when absent, \<open>Some None\<close> when present with the value
  \<open>undefined\<close>. \<open>Object.assign\<close> copies the present ones, \<open>undefined\<close> included.
\<close>

type_synonym 'a js_prop = "'a option option"

definition assign :: "'a option \<Rightarrow> 'a js_prop \<Rightarrow> 'a option" where
  "assign old p = (case p of None \<Rightarrow> old | Some v \<Rightarrow> v)"

definition given :: "'a js_prop \<Rightarrow> 'a option" where
  "given p = (case p of None \<Rightarrow> None | Some v \<Rightarrow> v)"

lemma assign_simps [simp]: "assign old None = old" "assign old (Some v) = v"
  by (simp_all add: assign_def)

lemma given_simps [simp]: "given None = None" "given (Some v) = v"
  by (simp_all add: given_def)

record polyfill_options =
  usbControlInterfaceClass :: "int option"
  usbTransferInterfaceClass :: "int option"

record polyfill_patch =
  pa_control :: "int js_prop"
  pa_transfer :: "int js_prop"

definition kDefaultPolyfillOptions :: polyfill_options where
  "kDefaultPolyfillOptions = \<lparr>usbControlInterfaceClass = Some 2, usbTransferInterfaceClass = Some 10\<rparr>"

definition assign_polyfill :: "polyfill_options \<Rightarrow> polyfill_patch \<Rightarrow> polyfill_options" where
  "assign_polyfill o1 p =
     \<lparr>usbControlInterfaceClass = assign (usbControlInterfaceClass o1) (pa_control p),
      usbTransferInterfaceClass = assign (usbTransferInterfaceClass o1) (pa_transfer p)\<rparr>"

subsection \<open>The device\<close>

record usb_endpoint =
  endpointNumber :: nat
  direction :: string
  packetSize :: nat

record usb_alternate =
  interfaceClass :: int
  endpoints :: "usb_endpoint list"

record usb_interface =
  interfaceNumber :: int
  alternates :: "usb_alternate list"

record usb_descriptor =
  vendorId :: int
  productId :: int
  configurations :: "usb_interface list list"

record usb_setup =
  requestType :: string
  recipient :: string
  request :: int
  setup_value :: int
  setup_index :: int

datatype usb_call =
    UOpen
  | USelectConfiguration int
  | UClaimInterface int
  | UControlTransferOut usb_setup "byte list"
  | UTransferIn nat nat
  | UTransferOut nat "byte list"
  | UClose
  | UForget

text \<open>A resolved call: nothing, a status, a status with the data (\<open>None\<close> for none).\<close>

datatype usb_reply = UDone | UOut string | UIn string "byte list option"

record 'd usb =
  u_call :: "usb_call \<Rightarrow> 'd \<Rightarrow> 'd \<times> (string + usb_reply)"
  u_opened :: "'d \<Rightarrow> bool"
  u_configured :: "'d \<Rightarrow> bool"

subsection \<open>Exceptions\<close>

text \<open>
  What the device calls of a setup throw: a rejection, or the \<open>DOMException\<close> of \<open>setLineCoding\<close>
  with its name and message, or its read of unset options. \<open>UndefinedRead\<close> is the \<open>TypeError\<close> of a property read of \<open>undefined\<close>,
  \<open>StreamLocked\<close> the one of \<open>cancel\<close> and \<open>abort\<close> on a locked stream.
\<close>

datatype usb_exn = UsbExn string | DomExn string string | NoOptions

datatype stream_error = ErrUsb string | ErrStatus string | ErrThrown string | ErrEnqueue | ErrAborted

datatype port_exn =
    NotFound string
  | UndefinedRead
  | BadBaudRate "number option"
  | BadDataBits "number option"
  | BadStopBits "number option"
  | BadParity "string option"
  | SetupFailed string
  | Device usb_exn
  | BadHighWaterMark
  | StreamLocked
  | StreamError stream_error

text \<open>\<open>Error.prototype.toString\<close>.\<close>

fun usb_exn_string :: "usb_exn \<Rightarrow> string" where
  "usb_exn_string (UsbExn s) = s"
| "usb_exn_string (DomExn name message) =
     (if name = '''' then message else if message = '''' then name else name @ '': '' @ message)"
| "usb_exn_string NoOptions = ''TypeError''"

text \<open>Sequencing: the rest of the body runs when the awaited operation did not throw.\<close>

definition andThen :: "('s \<Rightarrow> 's \<times> ('e + 'a)) \<Rightarrow> ('a \<Rightarrow> 's \<Rightarrow> 's \<times> ('e + 'b)) \<Rightarrow> 's \<Rightarrow> 's \<times> ('e + 'b)" where
  "andThen m f s = (case m s of (s', Inl e) \<Rightarrow> (s', Inl e) | (s', Inr x) \<Rightarrow> f x s')"

lemma andThen_Inr_iff: "andThen m f s = (s'', Inr y) \<longleftrightarrow>
    (\<exists>s' x. m s = (s', Inr x) \<and> f x s' = (s'', Inr y))"
  by (auto simp: andThen_def split: prod.splits sum.splits)

lemma andThen_Inl_iff: "andThen m f s = (s'', Inl e) \<longleftrightarrow>
    m s = (s'', Inl e) \<or> (\<exists>s' x. m s = (s', Inr x) \<and> f x s' = (s'', Inl e))"
  by (auto simp: andThen_def split: prod.splits sum.splits)

subsection \<open>Finding interfaces and endpoints\<close>

definition show_class :: "int option \<Rightarrow> string" where
  "show_class c = (case c of None \<Rightarrow> ''undefined'' | Some n \<Rightarrow> show_int n)"

fun findInterface_loop :: "int option \<Rightarrow> usb_interface list \<Rightarrow> port_exn + usb_interface" where
  "findInterface_loop classCode [] =
     Inl (NotFound (''Unable to find interface with class '' @ show_class classCode @ ''.''))"
| "findInterface_loop classCode (iface # ifaces) =
     (case js_at (alternates iface) 0 of
        None \<Rightarrow> Inl UndefinedRead
      | Some alternate \<Rightarrow>
          if Some (interfaceClass alternate) = classCode then Inr iface
          else findInterface_loop classCode ifaces)"

definition findInterface :: "usb_descriptor \<Rightarrow> int option \<Rightarrow> port_exn + usb_interface" where
  "findInterface device classCode =
     (case js_at (configurations device) 0 of
        None \<Rightarrow> Inl UndefinedRead
      | Some interfaces \<Rightarrow> findInterface_loop classCode interfaces)"

fun findEndpoint_loop :: "usb_interface \<Rightarrow> string \<Rightarrow> usb_endpoint list \<Rightarrow> port_exn + usb_endpoint" where
  "findEndpoint_loop iface dir [] =
     Inl (NotFound (''Interface '' @ show_int (interfaceNumber iface) @ '' does not have an '' @
       dir @ '' endpoint.''))"
| "findEndpoint_loop iface dir (e # es) =
     (if direction e = dir then Inr e else findEndpoint_loop iface dir es)"

definition findEndpoint :: "usb_interface \<Rightarrow> string \<Rightarrow> port_exn + usb_endpoint" where
  "findEndpoint iface dir =
     (case js_at (alternates iface) 0 of
        None \<Rightarrow> Inl UndefinedRead
      | Some alternate \<Rightarrow> findEndpoint_loop iface dir (endpoints alternate))"

subsection \<open>Options and signals\<close>

record serial_options =
  baudRate :: "number option"
  dataBits :: "number option"
  stopBits :: "number option"
  parity_of :: "string option"
  bufferSize :: "number option"

record options_patch =
  pa_baudRate :: "number js_prop"
  pa_dataBits :: "number js_prop"
  pa_stopBits :: "number js_prop"
  pa_parity :: "string js_prop"
  pa_bufferSize :: "number js_prop"

definition no_options :: serial_options where
  "no_options = \<lparr>baudRate = None, dataBits = None, stopBits = None, parity_of = None, bufferSize = None\<rparr>"

definition assign_options :: "serial_options \<Rightarrow> options_patch \<Rightarrow> serial_options" where
  "assign_options o1 p =
     \<lparr>baudRate = assign (baudRate o1) (pa_baudRate p),
      dataBits = assign (dataBits o1) (pa_dataBits p),
      stopBits = assign (stopBits o1) (pa_stopBits p),
      parity_of = assign (parity_of o1) (pa_parity p),
      bufferSize = assign (bufferSize o1) (pa_bufferSize p)\<rparr>"

record signals =
  dataTerminalReady :: "bool option"
  requestToSend :: "bool option"
  break_signal :: "bool option"

record signals_patch =
  sp_dtr :: "bool js_prop"
  sp_rts :: "bool js_prop"
  sp_break :: "bool js_prop"

definition assign_signals :: "signals \<Rightarrow> signals_patch \<Rightarrow> signals" where
  "assign_signals s p =
     \<lparr>dataTerminalReady = assign (dataTerminalReady s) (sp_dtr p),
      requestToSend = assign (requestToSend s) (sp_rts p),
      break_signal = assign (break_signal s) (sp_break p)\<rparr>"

text \<open>\<open>baudRate % 1 === 0\<close>: \<open>undefined\<close>, \<open>NaN\<close> and the infinities give \<open>NaN\<close>.\<close>

definition isValidBaudRate :: "number option \<Rightarrow> bool" where
  "isValidBaudRate b = (case b of Some (Fin q) \<Rightarrow> of_int \<lfloor>q\<rfloor> = q | _ \<Rightarrow> False)"

definition isValidDataBits :: "number option \<Rightarrow> bool" where
  "isValidDataBits d = (case d of None \<Rightarrow> True | Some n \<Rightarrow> n \<in> Fin ` set kAcceptableDataBits)"

definition isValidStopBits :: "number option \<Rightarrow> bool" where
  "isValidStopBits s = (case s of None \<Rightarrow> True | Some n \<Rightarrow> n \<in> Fin ` set kAcceptableStopBits)"

definition isValidParity :: "string option \<Rightarrow> bool" where
  "isValidParity s = (case s of None \<Rightarrow> True | Some n \<Rightarrow> n \<in> set kAcceptableParity)"

text \<open>The exception \<open>validateOptions\<close> throws, if any.\<close>

definition validateOptions :: "serial_options \<Rightarrow> port_exn option" where
  "validateOptions so =
     (if \<not> isValidBaudRate (baudRate so) then Some (BadBaudRate (baudRate so))
      else if \<not> isValidDataBits (dataBits so) then Some (BadDataBits (dataBits so))
      else if \<not> isValidStopBits (stopBits so) then Some (BadStopBits (stopBits so))
      else if \<not> isValidParity (parity_of so) then Some (BadParity (parity_of so))
      else None)"

subsection \<open>The line coding\<close>

text \<open>\<open>ToUint32\<close> and \<open>ToUint8\<close> truncate towards zero; \<open>NaN\<close>, \<open>undefined\<close> and the infinities give 0.\<close>

definition to_integer :: "number option \<Rightarrow> int" where
  "to_integer n = (case n of Some (Fin q) \<Rightarrow> (if q < 0 then \<lceil>q\<rceil> else \<lfloor>q\<rfloor>) | _ \<Rightarrow> 0)"

definition uint32_bytes :: "32 word \<Rightarrow> byte list" where
  "uint32_bytes w = map (\<lambda>k. ucast (drop_bit (8 * k) w)) [0, 1, 2, 3]"

fun indexOf :: "'a list \<Rightarrow> 'a \<Rightarrow> int" where
  "indexOf [] x = - 1"
| "indexOf (y # ys) x = (if x = y then 0 else let i = indexOf ys x in if i < 0 then - 1 else i + 1)"

text \<open>\<open>a ?? b\<close>\<close>

definition nullish :: "'a option \<Rightarrow> 'a \<Rightarrow> 'a" where
  "nullish a b = (case a of None \<Rightarrow> b | Some x \<Rightarrow> x)"

definition lineCoding :: "serial_options \<Rightarrow> byte list" where
  "lineCoding so =
     uint32_bytes (i32 (to_integer (baudRate so))) @
     [u8 (indexOf (map Fin kStopBitsIndexMapping) (nullish (stopBits so) (Fin kDefaultStopBits))),
      u8 (indexOf kParityIndexMapping (nullish (parity_of so) kDefaultParity)),
      u8 (to_integer (Some (nullish (dataBits so) (Fin kDefaultDataBits))))]"

subsection \<open>Streams\<close>

datatype stream_state = Live | Closed | Errored stream_error

record in_stream =
  is_state :: stream_state
  is_queue :: "byte list list"
  is_mark :: number
  is_locked :: bool

record out_stream =
  os_state :: stream_state
  os_mark :: number
  os_locked :: bool

text \<open>
  The port. The streams it made so far are kept, a stream is named by its position among them: a
  transfer in flight still refers to the stream it was started for.
\<close>

record 'd port =
  device :: 'd
  descriptor :: usb_descriptor
  outputSignals :: signals
  controlInterface :: usb_interface
  transferInterface :: usb_interface
  inEndpoint :: usb_endpoint
  outEndpoint :: usb_endpoint
  serialOptions :: "serial_options option"
  readable :: "nat option"
  writable :: "nat option"
  in_streams :: "in_stream list"
  out_streams :: "out_stream list"

definition SerialPort :: "'d \<Rightarrow> usb_descriptor \<Rightarrow> polyfill_patch \<Rightarrow> port_exn + 'd port" where
  "SerialPort d desc patch =
     (let opts = assign_polyfill kDefaultPolyfillOptions patch in
      case findInterface desc (usbControlInterfaceClass opts) of
        Inl e \<Rightarrow> Inl e
      | Inr ctrl \<Rightarrow>
      case findInterface desc (usbTransferInterfaceClass opts) of
        Inl e \<Rightarrow> Inl e
      | Inr ti \<Rightarrow>
      case findEndpoint ti ''in'' of
        Inl e \<Rightarrow> Inl e
      | Inr inp \<Rightarrow>
      case findEndpoint ti ''out'' of
        Inl e \<Rightarrow> Inl e
      | Inr outp \<Rightarrow> Inr
          \<lparr>device = d, descriptor = desc,
           outputSignals = \<lparr>dataTerminalReady = Some False, requestToSend = Some False, break_signal = Some False\<rparr>,
           controlInterface = ctrl, transferInterface = ti, inEndpoint = inp, outEndpoint = outp,
           serialOptions = None, readable = None, writable = None, in_streams = [], out_streams = []\<rparr>)"

text \<open>A highWaterMark must be a number that is not negative; infinity is allowed.\<close>

definition bad_mark :: "number \<Rightarrow> bool" where
  "bad_mark n \<longleftrightarrow> n = NaN \<or> n_lt n (Fin 0)"

definition buffer_mark :: "serial_options \<Rightarrow> number" where
  "buffer_mark so = nullish (bufferSize so) (Fin kDefaultBufferSize)"

definition get_readable :: "'d usb \<Rightarrow> 'd port \<Rightarrow> 'd port \<times> (port_exn + nat option)" where
  "get_readable u p =
     (if readable p = None \<and> u_opened u (device p) then
        case serialOptions p of
          None \<Rightarrow> (p, Inl UndefinedRead)
        | Some so \<Rightarrow>
            if bad_mark (buffer_mark so) then (p, Inl BadHighWaterMark)
            else let sid = length (in_streams p) in
              (p\<lparr>readable := Some sid,
                 in_streams := in_streams p @
                   [\<lparr>is_state = Live, is_queue = [], is_mark = buffer_mark so, is_locked = False\<rparr>]\<rparr>,
               Inr (Some sid))
      else (p, Inr (readable p)))"

definition get_writable :: "'d usb \<Rightarrow> 'd port \<Rightarrow> 'd port \<times> (port_exn + nat option)" where
  "get_writable u p =
     (if writable p = None \<and> u_opened u (device p) then
        case serialOptions p of
          None \<Rightarrow> (p, Inl UndefinedRead)
        | Some so \<Rightarrow>
            if bad_mark (buffer_mark so) then (p, Inl BadHighWaterMark)
            else let sid = length (out_streams p) in
              (p\<lparr>writable := Some sid,
                 out_streams := out_streams p @
                   [\<lparr>os_state = Live, os_mark = buffer_mark so, os_locked = False\<rparr>]\<rparr>,
               Inr (Some sid))
      else (p, Inr (writable p)))"

text \<open>The stream a controller belongs to, and the change of one stream.\<close>

definition map_in :: "nat \<Rightarrow> (in_stream \<Rightarrow> in_stream) \<Rightarrow> 'd port \<Rightarrow> 'd port" where
  "map_in sid f p = (if sid < length (in_streams p)
     then p\<lparr>in_streams := (in_streams p)[sid := f (in_streams p ! sid)]\<rparr> else p)"

definition map_out :: "nat \<Rightarrow> (out_stream \<Rightarrow> out_stream) \<Rightarrow> 'd port \<Rightarrow> 'd port" where
  "map_out sid f p = (if sid < length (out_streams p)
     then p\<lparr>out_streams := (out_streams p)[sid := f (out_streams p ! sid)]\<rparr> else p)"

text \<open>\<open>controller.error\<close> acts on a live stream only, and drops the chunks it holds.\<close>

definition in_error :: "stream_error \<Rightarrow> in_stream \<Rightarrow> in_stream" where
  "in_error e s = (if is_state s = Live then s\<lparr>is_state := Errored e, is_queue := []\<rparr> else s)"

definition out_error :: "stream_error \<Rightarrow> out_stream \<Rightarrow> out_stream" where
  "out_error e s = (if os_state s = Live then s\<lparr>os_state := Errored e\<rparr> else s)"

text \<open>
  \<open>controller.enqueue\<close> of a byte stream throws on an empty chunk and on a stream that is not live.
\<close>

definition in_enqueue :: "byte list \<Rightarrow> in_stream \<Rightarrow> in_stream option" where
  "in_enqueue chunk s = (if chunk = [] \<or> is_state s \<noteq> Live then None
     else Some (s\<lparr>is_queue := is_queue s @ [chunk]\<rparr>))"

subsection \<open>Reading from the device\<close>

text \<open>\<open>controller.desiredSize\<close>: \<open>null\<close> for an errored stream, 0 for a closed one.\<close>

definition desiredSize :: "in_stream \<Rightarrow> number option" where
  "desiredSize s = (case is_state s of
     Live \<Rightarrow> Some (n_sub (is_mark s) (Fin (of_nat (length (concat (is_queue s))))))
   | Closed \<Rightarrow> Some (Fin 0)
   | Errored _ \<Rightarrow> None)"

definition n_ceil :: "number \<Rightarrow> number" where
  "n_ceil = n_map (\<lambda>q. of_int \<lceil>q\<rceil>)"

text \<open>The chunk size of \<open>pull\<close>, and the call it makes.\<close>

definition chunkSize :: "usb_endpoint \<Rightarrow> in_stream \<Rightarrow> number" where
  "chunkSize ep s =
     (let size = Fin (of_nat (packetSize ep)) in
      case desiredSize s of
        None \<Rightarrow> size
      | Some d \<Rightarrow> if d = Fin 0 \<or> d = NaN then size else n_mul (n_ceil (n_div d size)) size)"

definition pull_call :: "'d port \<Rightarrow> nat \<Rightarrow> usb_call" where
  "pull_call p sid = UTransferIn (endpointNumber (inEndpoint p))
     (unat (i32 (to_integer (Some (chunkSize (inEndpoint p) (in_streams p ! sid))))))"

text \<open>The \<open>onError\<close> callbacks the getters pass.\<close>

definition read_onError :: "'d port \<Rightarrow> 'd port" where
  "read_onError p = p\<lparr>readable := None\<rparr>"

definition write_onError :: "'d port \<Rightarrow> 'd port" where
  "write_onError p = p\<lparr>writable := None\<rparr>"

fun reply_status :: "usb_reply \<Rightarrow> string" where
  "reply_status UDone = ''undefined''"
| "reply_status (UOut s) = s"
| "reply_status (UIn s _) = s"

fun reply_data :: "usb_reply \<Rightarrow> byte list option" where
  "reply_data (UIn _ d) = d"
| "reply_data _ = None"

text \<open>
  The rest of \<open>pull\<close>, when \<open>transferIn\<close> settles: \<open>sid\<close> is the stream the transfer was started for.
\<close>

definition pull_fail :: "nat \<Rightarrow> stream_error \<Rightarrow> 'd port \<Rightarrow> 'd port" where
  "pull_fail sid e p = read_onError (map_in sid (in_error e) p)"

definition pull_data :: "nat \<Rightarrow> byte list option \<Rightarrow> 'd port \<Rightarrow> 'd port" where
  "pull_data sid data p =
     (case data of
        None \<Rightarrow> p
      | Some chunk \<Rightarrow>
          if sid < length (in_streams p) then
            case in_enqueue chunk (in_streams p ! sid) of
              Some s \<Rightarrow> map_in sid (\<lambda>_. s) p
            | None \<Rightarrow> pull_fail sid ErrEnqueue p
          else p)"

fun pull_settle :: "nat \<Rightarrow> string + usb_reply \<Rightarrow> 'd port \<Rightarrow> 'd port" where
  "pull_settle sid (Inl e) p = pull_fail sid (ErrThrown e) p"
| "pull_settle sid (Inr r) p =
     pull_data sid (reply_data r)
       (if reply_status r \<noteq> ''ok'' then pull_fail sid (ErrUsb (''USB error: '' @ reply_status r)) p else p)"

text \<open>The sink's \<open>write\<close>: the call, and the rest when \<open>transferOut\<close> settles.\<close>

definition write_call :: "'d port \<Rightarrow> byte list \<Rightarrow> usb_call" where
  "write_call p chunk = UTransferOut (endpointNumber (outEndpoint p)) chunk"

fun write_settle :: "nat \<Rightarrow> string + usb_reply \<Rightarrow> 'd port \<Rightarrow> 'd port" where
  "write_settle sid (Inl e) p = write_onError (map_out sid (out_error (ErrThrown e)) p)"
| "write_settle sid (Inr r) p =
     (if reply_status r \<noteq> ''ok'' then write_onError (map_out sid (out_error (ErrStatus (reply_status r))) p)
      else p)"

subsection \<open>Control transfers\<close>

definition device_call :: "'d usb \<Rightarrow> usb_call \<Rightarrow> 'd port \<Rightarrow> 'd port \<times> (usb_exn + usb_reply)" where
  "device_call u c p = (case u_call u c (device p) of
     (d', Inl e) \<Rightarrow> (p\<lparr>device := d'\<rparr>, Inl (UsbExn e))
   | (d', Inr r) \<Rightarrow> (p\<lparr>device := d'\<rparr>, Inr r))"

definition class_request :: "int \<Rightarrow> int \<Rightarrow> 'd port \<Rightarrow> usb_setup" where
  "class_request req v p = \<lparr>requestType = ''class'', recipient = ''interface'', request = req,
     setup_value = v, setup_index = interfaceNumber (controlInterface p)\<rparr>"

definition setLineCoding :: "'d usb \<Rightarrow> 'd port \<Rightarrow> 'd port \<times> (usb_exn + unit)" where
  "setLineCoding u p =
     (case serialOptions p of
        None \<Rightarrow> (p, Inl NoOptions)
      | Some so \<Rightarrow>
          andThen (device_call u (UControlTransferOut (class_request kSetLineCoding 0 p) (lineCoding so)))
            (\<lambda>result p'. if reply_status result \<noteq> ''ok''
               then (p', Inl (DomExn ''Failed to set line coding.'' ''NetworkError''))
               else (p', Inr ())) p)"

definition signal_bits :: "signals \<Rightarrow> int" where
  "signal_bits s = js_or (if dataTerminalReady s = Some True then js_shl 1 0 else 0)
                         (if requestToSend s = Some True then js_shl 1 1 else 0)"

definition line_state :: "'d usb \<Rightarrow> signals_patch \<Rightarrow> 'd port \<Rightarrow> 'd port \<times> (usb_exn + unit)" where
  "line_state u patch p =
     (if given (sp_dtr patch) \<noteq> None \<or> given (sp_rts patch) \<noteq> None then
        andThen (device_call u
          (UControlTransferOut (class_request kSetControlLineState (signal_bits (outputSignals p)) p) []))
          (\<lambda>_ p'. (p', Inr ())) p
      else (p, Inr ()))"

definition send_break :: "'d usb \<Rightarrow> signals_patch \<Rightarrow> 'd port \<Rightarrow> 'd port \<times> (usb_exn + unit)" where
  "send_break u patch p =
     (if given (sp_break patch) \<noteq> None then
        andThen (device_call u (UControlTransferOut
            (class_request kSendBreak (if break_signal (outputSignals p) = Some True then 0xFFFF else 0) p) []))
          (\<lambda>_ p'. (p', Inr ())) p
      else (p, Inr ()))"

definition setSignals :: "'d usb \<Rightarrow> signals_patch \<Rightarrow> 'd port \<Rightarrow> 'd port \<times> (usb_exn + unit)" where
  "setSignals u patch p =
     andThen (line_state u patch) (\<lambda>_. send_break u patch)
       (p\<lparr>outputSignals := assign_signals (outputSignals p) patch\<rparr>)"

subsection \<open>Opening and closing\<close>

text \<open>The body of the \<open>try\<close> in \<open>open\<close>.\<close>

definition select_configuration :: "'d usb \<Rightarrow> 'd port \<Rightarrow> 'd port \<times> (usb_exn + usb_reply)" where
  "select_configuration u p =
     (if \<not> u_configured u (device p) then device_call u (USelectConfiguration 1) p else (p, Inr UDone))"

definition claim_transfer :: "'d usb \<Rightarrow> 'd port \<Rightarrow> 'd port \<times> (usb_exn + usb_reply)" where
  "claim_transfer u p =
     (if controlInterface p \<noteq> transferInterface p
      then device_call u (UClaimInterface (interfaceNumber (transferInterface p))) p
      else (p, Inr UDone))"

definition claim_control :: "'d usb \<Rightarrow> 'd port \<Rightarrow> 'd port \<times> (usb_exn + usb_reply)" where
  "claim_control u p = device_call u (UClaimInterface (interfaceNumber (controlInterface p))) p"

definition open_signals :: signals_patch where
  "open_signals = \<lparr>sp_dtr = Some (Some True), sp_rts = None, sp_break = None\<rparr>"

definition close_signals :: signals_patch where
  "close_signals = \<lparr>sp_dtr = Some (Some False), sp_rts = Some (Some False), sp_break = None\<rparr>"

definition port_setup :: "'d usb \<Rightarrow> 'd port \<Rightarrow> 'd port \<times> (usb_exn + unit)" where
  "port_setup u =
     andThen (device_call u UOpen) (\<lambda>_.
     andThen (select_configuration u) (\<lambda>_.
     andThen (claim_control u) (\<lambda>_.
     andThen (claim_transfer u) (\<lambda>_.
     andThen (setLineCoding u) (\<lambda>_.
     setSignals u open_signals)))))"

definition port_validate :: "'d port \<Rightarrow> port_exn option" where
  "port_validate p = (case serialOptions p of None \<Rightarrow> Some UndefinedRead | Some so \<Rightarrow> validateOptions so)"

definition setup_failed :: "usb_exn \<Rightarrow> port_exn" where
  "setup_failed e = SetupFailed (''Error setting up device: '' @ usb_exn_string e)"

definition port_open :: "'d usb \<Rightarrow> serial_options option \<Rightarrow> 'd port \<Rightarrow> 'd port \<times> (port_exn + unit)" where
  "port_open u options p =
     (let p1 = p\<lparr>serialOptions := options\<rparr> in
      case port_validate p1 of
        Some e \<Rightarrow> (p1, Inl e)
      | None \<Rightarrow>
          (case port_setup u p1 of
             (p2, Inr _) \<Rightarrow> (p2, Inr ())
           | (p2, Inl e) \<Rightarrow>
               if u_opened u (device p2) then
                 (case device_call u UClose p2 of
                    (p3, Inl e') \<Rightarrow> (p3, Inl (Device e'))
                  | (p3, Inr _) \<Rightarrow> (p3, Inl (setup_failed e)))
               else (p2, Inl (setup_failed e))))"

text \<open>\<open>stream.cancel()\<close> and \<open>stream.abort()\<close>.\<close>

definition in_cancel :: "in_stream \<Rightarrow> in_stream \<times> (port_exn + unit)" where
  "in_cancel s =
     (if is_locked s then (s, Inl StreamLocked)
      else case is_state s of
        Live \<Rightarrow> (s\<lparr>is_state := Closed, is_queue := []\<rparr>, Inr ())
      | Closed \<Rightarrow> (s, Inr ())
      | Errored e \<Rightarrow> (s, Inl (StreamError e)))"

definition out_abort :: "out_stream \<Rightarrow> out_stream \<times> (port_exn + unit)" where
  "out_abort s =
     (if os_locked s then (s, Inl StreamLocked) else (out_error ErrAborted s, Inr ()))"

definition cancel_readable :: "'d port \<Rightarrow> 'd port \<times> (port_exn + unit)" where
  "cancel_readable p =
     (case readable p of
        None \<Rightarrow> (p, Inr ())
      | Some sid \<Rightarrow> (map_in sid (fst \<circ> in_cancel) p, snd (in_cancel (in_streams p ! sid))))"

definition abort_writable :: "'d port \<Rightarrow> 'd port \<times> (port_exn + unit)" where
  "abort_writable p =
     (case writable p of
        None \<Rightarrow> (p, Inr ())
      | Some sid \<Rightarrow> (map_out sid (fst \<circ> out_abort) p, snd (out_abort (out_streams p ! sid))))"

definition release_device :: "'d usb \<Rightarrow> 'd port \<Rightarrow> 'd port \<times> (usb_exn + usb_reply)" where
  "release_device u = andThen (setSignals u close_signals) (\<lambda>_. device_call u UClose)"

definition port_close :: "'d usb \<Rightarrow> 'd port \<Rightarrow> 'd port \<times> (port_exn + unit)" where
  "port_close u p =
     (let (p1, r1) = cancel_readable p; (p2, r2) = abort_writable p1 in
      case (r1, r2) of
        (Inl e, _) \<Rightarrow> (p2, Inl e)
      | (_, Inl e) \<Rightarrow> (p2, Inl e)
      | _ \<Rightarrow>
          let p3 = p2\<lparr>readable := None, writable := None\<rparr> in
          if u_opened u (device p3) then
            (case release_device u p3 of
               (p4, Inl e) \<Rightarrow> (p4, Inl (Device e))
             | (p4, Inr _) \<Rightarrow> (p4, Inr ()))
          else (p3, Inr ()))"

definition port_forget :: "'d usb \<Rightarrow> 'd port \<Rightarrow> 'd port \<times> (usb_exn + usb_reply)" where
  "port_forget u = device_call u UForget"

definition getInfo :: "'d port \<Rightarrow> int \<times> int" where
  "getInfo p = (vendorId (descriptor p), productId (descriptor p))"

definition reconfigure :: "'d usb \<Rightarrow> options_patch \<Rightarrow> 'd port \<Rightarrow> 'd port \<times> (port_exn + unit)" where
  "reconfigure u patch p =
     (let p1 = p\<lparr>serialOptions := Some (assign_options (nullish (serialOptions p) no_options) patch)\<rparr> in
      case port_validate p1 of
        Some e \<Rightarrow> (p1, Inl e)
      | None \<Rightarrow> (case setLineCoding u p1 of
          (p2, Inl e) \<Rightarrow> (p2, Inl (Device e)) | (p2, Inr _) \<Rightarrow> (p2, Inr ())))"

subsection \<open>\<open>navigator.serial\<close>\<close>

record port_filter =
  pf_usbVendorId :: "int option"
  pf_usbProductId :: "int option"

record usb_filter =
  uf_classCode :: "int option"
  uf_vendorId :: "int option"
  uf_productId :: "int option"

definition usb_filter_of :: "polyfill_options \<Rightarrow> port_filter \<Rightarrow> usb_filter" where
  "usb_filter_of opts f = \<lparr>uf_classCode = usbControlInterfaceClass opts,
     uf_vendorId = pf_usbVendorId f, uf_productId = pf_usbProductId f\<rparr>"

text \<open>
  The filters \<open>requestPort\<close> hands to \<open>requestDevice\<close>: \<open>None\<close> for options that are absent or have no
  \<open>filters\<close>.
\<close>

definition request_filters :: "port_filter list option \<Rightarrow> polyfill_patch \<Rightarrow> usb_filter list" where
  "request_filters filters patch =
     (let opts = assign_polyfill kDefaultPolyfillOptions patch;
          usbFilters = map (usb_filter_of opts) (nullish filters []) in
      if usbFilters = [] then
        [\<lparr>uf_classCode = usbControlInterfaceClass opts, uf_vendorId = None, uf_productId = None\<rparr>]
      else usbFilters)"

text \<open>
  \<open>pick\<close> is the browser's \<open>requestDevice\<close>: a rejection or the chosen device. \<open>SerialPort\<close> is called
  with the completed options; completing twice changes nothing.
\<close>

definition complete_patch :: "polyfill_patch \<Rightarrow> polyfill_patch" where
  "complete_patch patch = (let opts = assign_polyfill kDefaultPolyfillOptions patch in
     \<lparr>pa_control = Some (usbControlInterfaceClass opts), pa_transfer = Some (usbTransferInterfaceClass opts)\<rparr>)"

definition requestPort ::
  "(usb_filter list \<Rightarrow> string + ('d \<times> usb_descriptor)) \<Rightarrow> port_filter list option \<Rightarrow> polyfill_patch \<Rightarrow>
   port_exn + 'd port" where
  "requestPort pick filters patch =
     (case pick (request_filters filters patch) of
        Inl e \<Rightarrow> Inl (Device (UsbExn e))
      | Inr (d, desc) \<Rightarrow> SerialPort d desc (complete_patch patch))"

fun getPorts :: "('d \<times> usb_descriptor) list \<Rightarrow> polyfill_patch \<Rightarrow> 'd port list" where
  "getPorts [] patch = []"
| "getPorts ((d, desc) # devices) patch =
     (case SerialPort d desc (complete_patch patch) of
        Inr port \<Rightarrow> port # getPorts devices patch
      | Inl _ \<Rightarrow> getPorts devices patch)"

end
