(* ===== verification/RNode_Port.thy ===== *)
theory RNode_Port
  imports WebSerial RNode
begin

text \<open>
  The class \<open>RNode\<close> on a port of the polyfill: the constructor, which locks the readable stream and
  starts the read loop, the writes, which lock the writable stream for one chunk, and \<open>close\<close>.
\<close>

text \<open>
  A session. \<open>reader_on\<close> is the stream the reader holds, \<open>None\<close> once it is released; the loop runs
  exactly while the reader holds its stream, because its \<open>finally\<close> block releases it and a release
  under the pending \<open>read()\<close> ends it. \<open>out_on\<close> is \<open>this.writable\<close>, \<open>in_flight\<close> the chunk whose write
  has not settled: the writer is held meanwhile.
\<close>

record 'd session =
  sport :: "'d port"
  node :: rnode
  rx_state :: reader
  reader_on :: "nat option"
  out_on :: "nat option"
  in_flight :: "byte list option"

subsection \<open>Opening\<close>

definition rnode_options :: serial_options where
  "rnode_options = no_options\<lparr>baudRate := Some (Fin 115200)\<rparr>"

definition lock_in :: "nat \<Rightarrow> bool \<Rightarrow> 'd port \<Rightarrow> 'd port" where
  "lock_in sid b = map_in sid (\<lambda>s. s\<lparr>is_locked := b\<rparr>)"

definition lock_out :: "nat \<Rightarrow> bool \<Rightarrow> 'd port \<Rightarrow> 'd port" where
  "lock_out sid b = map_out sid (\<lambda>s. s\<lparr>os_locked := b\<rparr>)"

text \<open>
  The constructor: \<open>null.getReader()\<close> and a second reader are \<open>TypeError\<close>s. The port comes back with
  the exception, as what was done to it stays done.
\<close>

definition new_rnode :: "'d usb \<Rightarrow> 'd port \<Rightarrow> ('d port \<times> port_exn) + 'd session" where
  "new_rnode u p = (case get_readable u p of
     (p1, Inl e) \<Rightarrow> Inl (p1, e)
   | (p1, Inr None) \<Rightarrow> Inl (p1, UndefinedRead)
   | (p1, Inr (Some sid)) \<Rightarrow>
       if is_locked (in_streams p1 ! sid) then Inl (p1, StreamLocked)
       else (case get_writable u (lock_in sid True p1) of
          (p2, Inl e) \<Rightarrow> Inl (p2, e)
        | (p2, Inr w) \<Rightarrow> Inr \<lparr>sport = p2, node = init_rnode, rx_state = init_reader,
            reader_on = Some sid, out_on = w, in_flight = None\<rparr>))"

definition fromSerialPort :: "'d usb \<Rightarrow> 'd port \<Rightarrow> ('d port \<times> port_exn) + 'd session" where
  "fromSerialPort u p = (case port_open u (Some rnode_options) p of
     (p', Inl e) \<Rightarrow> Inl (p', e)
   | (p', Inr _) \<Rightarrow> new_rnode u p')"

subsection \<open>Reading\<close>

definition release_reader :: "'d session \<Rightarrow> 'd session" where
  "release_reader s = (case reader_on s of
     None \<Rightarrow> s
   | Some sid \<Rightarrow> s\<lparr>sport := lock_in sid False (sport s), reader_on := None\<rparr>)"

text \<open>
  One turn of the read loop: a chunk is read and its frames dispatched, a stream that ended or failed
  ends the loop, and an empty live stream leaves it waiting.
\<close>

definition take_chunk :: "(int \<Rightarrow> bool) \<Rightarrow> nat \<Rightarrow> byte list \<Rightarrow> byte list list \<Rightarrow> 'd session \<Rightarrow> 'd session" where
  "take_chunk pinCallback sid chunk rest s =
     (let (r, out) = read_chunk (rx_state s) chunk in
      s\<lparr>sport := map_in sid (\<lambda>st. st\<lparr>is_queue := rest\<rparr>) (sport s), rx_state := r,
        node := foldl (dispatch_event pinCallback) (node s) out\<rparr>)"

definition read_turn :: "(int \<Rightarrow> bool) \<Rightarrow> 'd session \<Rightarrow> 'd session" where
  "read_turn pinCallback s = (case reader_on s of
     None \<Rightarrow> s
   | Some sid \<Rightarrow>
       (case is_queue (in_streams (sport s) ! sid) of
          chunk # rest \<Rightarrow> take_chunk pinCallback sid chunk rest s
        | [] \<Rightarrow> if is_state (in_streams (sport s) ! sid) = Live then s else release_reader s))"

subsection \<open>Writing\<close>

text \<open>
  \<open>getWriter()\<close> throws on a locked stream, and \<open>writer.write\<close> rejects on one that is not live; the lock
  is given back in both cases. Otherwise the sink starts the transfer and the write is in flight.
\<close>

definition can_write :: "'d session \<Rightarrow> bool" where
  "can_write s \<longleftrightarrow> (case out_on s of
     None \<Rightarrow> False
   | Some w \<Rightarrow> \<not> os_locked (out_streams (sport s) ! w) \<and> os_state (out_streams (sport s) ! w) = Live)"

definition write_begin :: "'d usb \<Rightarrow> byte list \<Rightarrow> 'd session \<Rightarrow> 'd session" where
  "write_begin u bytes s = (case out_on s of
     None \<Rightarrow> s
   | Some w \<Rightarrow>
       if can_write s then
         (let p = lock_out w True (sport s) in
          s\<lparr>sport := fst (device_call u (write_call p bytes) p), in_flight := Some bytes\<rparr>)
       else s)"

text \<open>
  The transfer settles. The sink's \<open>write\<close> catches its failure and returns, so the pending write
  resolves in any case; only the stream is errored. The \<open>finally\<close> block gives the writer back.
\<close>

definition write_end :: "string + usb_reply \<Rightarrow> 'd session \<Rightarrow> 'd session" where
  "write_end r s = (case (out_on s, in_flight s) of
     (Some w, Some _) \<Rightarrow> s\<lparr>sport := lock_out w False (write_settle w r (sport s)), in_flight := None\<rparr>
   | _ \<Rightarrow> s)"

text \<open>A request and a command without a response, up to the pending write.\<close>

definition session_request :: "'d usb \<Rightarrow> int \<Rightarrow> int list \<Rightarrow> 'd session \<Rightarrow> 'd session \<times> nat" where
  "session_request u c data s =
     (let (n, p) = sendCommand (can_write s) c data (node s)
      in (write_begin u (createKissFrame (c # data)) (s\<lparr>node := n\<rparr>), p))"

definition session_send :: "'d usb \<Rightarrow> int list \<Rightarrow> 'd session \<Rightarrow> 'd session \<times> serial_error option" where
  "session_send u data s =
     (let (n, e) = sendKissCommand (can_write s) data (node s)
      in (write_begin u (createKissFrame data) (s\<lparr>node := n\<rparr>), e))"

subsection \<open>Closing\<close>

text \<open>Both steps of \<open>close\<close> swallow what they throw.\<close>

definition rnode_close :: "'d usb \<Rightarrow> 'd session \<Rightarrow> 'd session" where
  "rnode_close u s =
     (let s1 = release_reader s in s1\<lparr>sport := fst (port_close u (sport s1))\<rparr>)"

end
