(* ===== verification/WebSerial_Props.thy ===== *)
theory WebSerial_Props
  imports WebSerial RNode_Session
begin

text \<open>
  What the Web Serial polyfill promises its clients: the shape of the port and of every request it
  makes of the device, the outcomes of opening and closing, the line coding, the sizes it asks
  for, and the bytes it hands to the RNode read loop.
\<close>

subsection \<open>Everything that can happen to a port\<close>

text \<open>
  The operations of the interface, the transfers the streams start and their answers, what a
  consumer does to a stream (take or give back the lock, take a chunk, cancel), and the device
  changing on its own, for example being unplugged.
\<close>

datatype 'd port_op =
    OpOpen "serial_options option"
  | OpClose
  | OpForget
  | OpReconfigure options_patch
  | OpSetSignals signals_patch
  | OpReadable
  | OpWritable
  | OpPull nat
  | OpPullSettle nat "string + usb_reply"
  | OpWrite "byte list"
  | OpWriteSettle nat "string + usb_reply"
  | OpLockIn nat bool
  | OpLockOut nat bool
  | OpTake nat
  | OpCancel nat
  | OpDevice "'d \<Rightarrow> 'd"

primrec port_step :: "'d usb \<Rightarrow> 'd port_op \<Rightarrow> 'd port \<Rightarrow> 'd port" where
  "port_step u (OpOpen opts) p = fst (port_open u opts p)"
| "port_step u OpClose p = fst (port_close u p)"
| "port_step u OpForget p = fst (port_forget u p)"
| "port_step u (OpReconfigure patch) p = fst (reconfigure u patch p)"
| "port_step u (OpSetSignals patch) p = fst (setSignals u patch p)"
| "port_step u OpReadable p = fst (get_readable u p)"
| "port_step u OpWritable p = fst (get_writable u p)"
| "port_step u (OpPull sid) p = fst (device_call u (pull_call p sid) p)"
| "port_step u (OpPullSettle sid r) p = pull_settle sid r p"
| "port_step u (OpWrite chunk) p = fst (device_call u (write_call p chunk) p)"
| "port_step u (OpWriteSettle sid r) p = write_settle sid r p"
| "port_step u (OpLockIn sid b) p = map_in sid (\<lambda>s. s\<lparr>is_locked := b\<rparr>) p"
| "port_step u (OpLockOut sid b) p = map_out sid (\<lambda>s. s\<lparr>os_locked := b\<rparr>) p"
| "port_step u (OpTake sid) p = map_in sid (\<lambda>s. s\<lparr>is_queue := tl (is_queue s)\<rparr>) p"
| "port_step u (OpCancel sid) p = map_in sid (\<lambda>s. fst (in_cancel (s\<lparr>is_locked := False\<rparr>))) p"
| "port_step u (OpDevice f) p = p\<lparr>device := f (device p)\<rparr>"

definition port_run :: "'d usb \<Rightarrow> 'd port_op list \<Rightarrow> 'd port \<Rightarrow> 'd port" where
  "port_run u ops p = fold (port_step u) ops p"

lemma port_run_invariant:
  assumes "\<And>op p. P p \<Longrightarrow> P (port_step u op p)" and "P p"
  shows "P (port_run u ops p)"
  using assms(2) by (induction ops arbitrary: p) (auto simp: port_run_def assms(1))

subsection \<open>What an operation keeps\<close>

text \<open>What the constructor fixes.\<close>

definition wiring :: "'d port \<Rightarrow> usb_descriptor \<times> usb_interface \<times> usb_interface \<times> usb_endpoint \<times> usb_endpoint" where
  "wiring p = (descriptor p, controlInterface p, transferInterface p, inEndpoint p, outEndpoint p)"

text \<open>A device that also writes down the calls made of it.\<close>

definition logged :: "'d usb \<Rightarrow> ('d \<times> usb_call list) usb" where
  "logged u = \<lparr>u_call = (\<lambda>c (d, l). let (d', r) = u_call u c d in ((d', l @ [c]), r)),
     u_opened = (\<lambda>(d, l). u_opened u d), u_configured = (\<lambda>(d, l). u_configured u d)\<rparr>"

abbreviation call_log :: "('d \<times> usb_call list) port \<Rightarrow> usb_call list" where
  "call_log p \<equiv> snd (device p)"

text \<open>
  What CDC-ACM and WebUSB accept: the control requests of the class on the control interface, with
  their values in range and a coding of seven bytes in its ranges, and transfers on the two endpoints.
\<close>

definition coding_ok :: "byte list \<Rightarrow> bool" where
  "coding_ok bs \<longleftrightarrow> length bs = 7 \<and> bs ! 4 \<in> {0, 2} \<and> bs ! 5 \<in> {0, 1, 2} \<and> bs ! 6 \<in> {5, 6, 7, 8, 16}"

definition control_ok :: "usb_interface \<Rightarrow> usb_setup \<Rightarrow> byte list \<Rightarrow> bool" where
  "control_ok ctrl s data \<longleftrightarrow>
     requestType s = ''class'' \<and> recipient s = ''interface'' \<and> setup_index s = interfaceNumber ctrl \<and>
     (request s = kSetLineCoding \<and> setup_value s = 0 \<and> coding_ok data \<or>
      request s = kSetControlLineState \<and> setup_value s \<in> {0, 1, 2, 3} \<and> data = [] \<or>
      request s = kSendBreak \<and> setup_value s \<in> {0, 0xFFFF} \<and> data = [])"

fun call_ok :: "'d port \<Rightarrow> usb_call \<Rightarrow> bool" where
  "call_ok p (USelectConfiguration n) \<longleftrightarrow> n = 1"
| "call_ok p (UClaimInterface n) \<longleftrightarrow>
     n \<in> {interfaceNumber (controlInterface p), interfaceNumber (transferInterface p)}"
| "call_ok p (UControlTransferOut s data) \<longleftrightarrow> control_ok (controlInterface p) s data"
| "call_ok p (UTransferIn ep len) \<longleftrightarrow> ep = endpointNumber (inEndpoint p)"
| "call_ok p (UTransferOut ep data) \<longleftrightarrow> ep = endpointNumber (outEndpoint p)"
| "call_ok p _ \<longleftrightarrow> True"

definition extends :: "('d \<times> usb_call list) port \<Rightarrow> ('d \<times> usb_call list) port \<Rightarrow> bool" where
  "extends p p' \<longleftrightarrow> wiring p' = wiring p \<and>
     (\<exists>cs. call_log p' = call_log p @ cs \<and> list_all (call_ok p) cs)"

lemma extends_refl [simp]: "wiring p' = wiring p \<Longrightarrow> call_log p' = call_log p \<Longrightarrow> extends p p'"
  by (simp add: extends_def)

lemma call_ok_cong: "wiring p' = wiring p \<Longrightarrow> call_ok p' c = call_ok p c"
  by (cases c) (simp_all add: wiring_def)

lemma extends_trans: "extends p p' \<Longrightarrow> extends p' p'' \<Longrightarrow> extends p p''"
proof -
  assume a: "extends p p'" and b: "extends p' p''"
  then have w: "wiring p' = wiring p" by (simp add: extends_def)
  have "call_ok p' = call_ok p" using call_ok_cong [OF w] by (rule ext)
  with a b show ?thesis by (auto simp: extends_def)
qed

lemma extends_andThen:
  assumes "extends p (fst (m p))" and "\<And>x p'. m p = (p', Inr x) \<Longrightarrow> extends p' (fst (f x p'))"
  shows "extends p (fst (andThen m f p))"
  using assms extends_trans
  by (auto simp: andThen_def split: prod.splits sum.splits) blast

lemma extends_call: "call_ok p c \<Longrightarrow> extends p (fst (device_call (logged u) c p))"
  by (auto simp: device_call_def logged_def extends_def wiring_def Let_def split: prod.splits sum.splits)

lemma wiring_simps [simp]:
  "wiring (p\<lparr>device := d\<rparr>) = wiring p" "wiring (p\<lparr>outputSignals := s\<rparr>) = wiring p"
  "wiring (p\<lparr>serialOptions := so\<rparr>) = wiring p" "wiring (p\<lparr>readable := r\<rparr>) = wiring p"
  "wiring (p\<lparr>writable := w\<rparr>) = wiring p" "wiring (p\<lparr>in_streams := i\<rparr>) = wiring p"
  "wiring (p\<lparr>out_streams := t\<rparr>) = wiring p"
  by (simp_all add: wiring_def)

lemma map_in_frame [simp]:
  "wiring (map_in sid f p) = wiring p" "device (map_in sid f p) = device p"
  "readable (map_in sid f p) = readable p" "writable (map_in sid f p) = writable p"
  "serialOptions (map_in sid f p) = serialOptions p" "out_streams (map_in sid f p) = out_streams p"
  "outputSignals (map_in sid f p) = outputSignals p"
  by (simp_all add: map_in_def)

lemma map_out_frame [simp]:
  "wiring (map_out sid f p) = wiring p" "device (map_out sid f p) = device p"
  "readable (map_out sid f p) = readable p" "writable (map_out sid f p) = writable p"
  "serialOptions (map_out sid f p) = serialOptions p" "in_streams (map_out sid f p) = in_streams p"
  "outputSignals (map_out sid f p) = outputSignals p"
  by (simp_all add: map_out_def)

lemma pull_settle_frame: "wiring (pull_settle sid r p) = wiring p \<and> device (pull_settle sid r p) = device p"
  by (cases "(sid, r, p)" rule: pull_settle.cases)
    (auto simp: pull_fail_def pull_data_def read_onError_def split: option.splits)

lemma write_settle_frame: "wiring (write_settle sid r p) = wiring p \<and> device (write_settle sid r p) = device p"
  by (cases "(sid, r, p)" rule: write_settle.cases) (auto simp: write_onError_def)

subsection \<open>A validated coding is in range\<close>

lemma length_uint32_bytes [simp]: "length (uint32_bytes w) = 4"
  by (simp add: uint32_bytes_def)

lemma mark_bytes:
  "isValidStopBits s \<Longrightarrow> u8 (indexOf (map Fin kStopBitsIndexMapping) (nullish s (Fin kDefaultStopBits))) \<in> {0, 2}"
  "isValidParity t \<Longrightarrow> u8 (indexOf kParityIndexMapping (nullish t kDefaultParity)) \<in> {0, 1, 2}"
  "isValidDataBits d \<Longrightarrow> u8 (to_integer (Some (nullish d (Fin kDefaultDataBits)))) \<in> {5, 6, 7, 8, 16}"
  by (auto simp: isValidStopBits_def isValidParity_def isValidDataBits_def nullish_def to_integer_def
      kStopBitsIndexMapping_def kParityIndexMapping_def kAcceptableStopBits_def kAcceptableParity_def
      kAcceptableDataBits_def kDefaultStopBits_def kDefaultParity_def kDefaultDataBits_def u8_def
      split: option.splits)

lemma validateOptions_None: "validateOptions so = None \<longleftrightarrow> isValidBaudRate (baudRate so) \<and>
    isValidDataBits (dataBits so) \<and> isValidStopBits (stopBits so) \<and> isValidParity (parity_of so)"
  by (auto simp: validateOptions_def)

lemma valid_coding_ok: "validateOptions so = None \<Longrightarrow> coding_ok (lineCoding so)"
  using mark_bytes(1) [of "stopBits so"] mark_bytes(2) [of "parity_of so"] mark_bytes(3) [of "dataBits so"]
  unfolding coding_ok_def lineCoding_def validateOptions_None by (simp add: nth_append)

lemma port_validate_coding: "port_validate p = None \<Longrightarrow> \<exists>so. serialOptions p = Some so \<and> coding_ok (lineCoding so)"
  by (auto simp: port_validate_def valid_coding_ok split: option.splits)

subsection \<open>Every request is well formed\<close>

lemma extends_setLineCoding:
  "(\<And>so. serialOptions p = Some so \<Longrightarrow> coding_ok (lineCoding so)) \<Longrightarrow>
   extends p (fst (setLineCoding (logged u) p))"
  by (auto simp: setLineCoding_def control_ok_def class_request_def
      intro!: extends_andThen extends_call split: option.splits)

lemma signal_bits_range: "signal_bits s \<in> {0, 1, 2, 3}"
  by (simp add: signal_bits_def js_or_def js_shl_def i32_def)

lemma extends_line_state: "extends p (fst (line_state (logged u) patch p))"
  using signal_bits_range [of "outputSignals p"]
  by (auto simp: line_state_def control_ok_def class_request_def intro!: extends_andThen extends_call)

lemma extends_send_break: "extends p (fst (send_break (logged u) patch p))"
  by (auto simp: send_break_def control_ok_def class_request_def intro!: extends_andThen extends_call)

lemma extends_setSignals: "extends p (fst (setSignals (logged u) patch p))"
proof -
  let ?p = "p\<lparr>outputSignals := assign_signals (outputSignals p) patch\<rparr>"
  have "extends ?p (fst (setSignals (logged u) patch p))"
    unfolding setSignals_def by (intro extends_andThen extends_line_state extends_send_break)
  moreover have "extends p ?p" by simp
  ultimately show ?thesis using extends_trans by blast
qed

lemma device_call_frame: "device_call u c p = (p', r) \<Longrightarrow>
    serialOptions p' = serialOptions p \<and> readable p' = readable p \<and> writable p' = writable p \<and>
    in_streams p' = in_streams p \<and> out_streams p' = out_streams p \<and> wiring p' = wiring p \<and>
    outputSignals p' = outputSignals p"
  by (auto simp: device_call_def wiring_def split: prod.splits sum.splits)

lemma claim_frames: 
  "select_configuration u p = (p', r) \<Longrightarrow> serialOptions p' = serialOptions p"
  "claim_control u p = (p', r) \<Longrightarrow> serialOptions p' = serialOptions p"
  "claim_transfer u p = (p', r) \<Longrightarrow> serialOptions p' = serialOptions p"
  by (auto simp: select_configuration_def claim_control_def claim_transfer_def dest: device_call_frame
      split: if_splits)

lemma extends_setup:
  assumes "\<And>so. serialOptions p = Some so \<Longrightarrow> coding_ok (lineCoding so)"
  shows "extends p (fst (port_setup (logged u) p))"
  unfolding port_setup_def
proof (intro extends_andThen)
  fix x1 p1 x2 p2 x3 p3 x4 p4
  assume "device_call (logged u) UOpen p = (p1, Inr x1)"
    and "select_configuration (logged u) p1 = (p2, Inr x2)"
    and "claim_control (logged u) p2 = (p3, Inr x3)"
    and "claim_transfer (logged u) p3 = (p4, Inr x4)"
  then have "serialOptions p4 = serialOptions p" by (metis device_call_frame claim_frames)
  then show "extends p4 (fst (setLineCoding (logged u) p4))"
    using assms by (intro extends_setLineCoding) simp
qed (auto simp: select_configuration_def claim_control_def claim_transfer_def
    intro: extends_call extends_setSignals)

lemma extends_update: "extends p' q \<Longrightarrow> wiring p' = wiring p \<Longrightarrow> device p' = device p \<Longrightarrow> extends p q"
  using extends_trans [of p p' q] by simp

lemma extends_open: "extends p (fst (port_open (logged u) opts p))"
proof -
  let ?p = "p\<lparr>serialOptions := opts\<rparr>"
  have "extends ?p (fst (port_open (logged u) opts p))" if v: "port_validate ?p = None"
  proof -
    obtain p2 r where s: "port_setup (logged u) ?p = (p2, r)" by fastforce
    then have "extends ?p p2"
      using extends_setup [of ?p u] port_validate_coding [OF v] by fastforce
    moreover have "extends p2 (fst (device_call (logged u) UClose p2))" by (rule extends_call) simp
    ultimately show ?thesis
      using v s by (auto simp: port_open_def Let_def split: sum.splits prod.splits dest: extends_trans)
  qed
  then show ?thesis
    by (cases "port_validate ?p") (auto simp: port_open_def Let_def intro: extends_update)
qed

lemma extends_release: "extends p (fst (release_device (logged u) p))"
  by (auto simp: release_device_def intro!: extends_andThen extends_setSignals extends_call)

lemma cancel_frames: "wiring (fst (cancel_readable p)) = wiring p" "device (fst (cancel_readable p)) = device p"
    "wiring (fst (abort_writable p)) = wiring p" "device (fst (abort_writable p)) = device p"
  by (auto simp: cancel_readable_def abort_writable_def split: option.splits)

lemma extends_close: "extends p (fst (port_close (logged u) p))"
proof -
  obtain p1 r1 where c: "cancel_readable p = (p1, r1)" by fastforce
  obtain p2 r2 where a: "abort_writable p1 = (p2, r2)" by fastforce
  have f: "wiring p2 = wiring p" "device p2 = device p"
    using cancel_frames [of p] cancel_frames [of p1] c a by simp_all
  let ?p = "p2\<lparr>readable := None, writable := None\<rparr>"
  have "extends p (fst (release_device (logged u) ?p))"
    by (rule extends_update [OF extends_release]) (simp_all add: f)
  then show ?thesis
    using f by (auto simp: port_close_def c a Let_def split: sum.splits prod.splits)
qed

lemma extends_reconfigure: "extends p (fst (reconfigure (logged u) patch p))"
proof -
  let ?p = "p\<lparr>serialOptions := Some (assign_options (nullish (serialOptions p) no_options) patch)\<rparr>"
  have "extends ?p (fst (reconfigure (logged u) patch p))"
  proof (cases "port_validate ?p")
    case None
    then have "extends ?p (fst (setLineCoding (logged u) ?p))"
      using port_validate_coding [OF None] by (intro extends_setLineCoding) auto
    with None show ?thesis
      by (auto simp: reconfigure_def split: sum.splits prod.splits)
  qed (simp add: reconfigure_def)
  then show ?thesis by (rule extends_update) simp_all
qed

text \<open>A change of the device on its own does not touch the log.\<close>

fun keeps_log :: "('d \<times> usb_call list) port_op \<Rightarrow> bool" where
  "keeps_log (OpDevice f) \<longleftrightarrow> (\<forall>x. snd (f x) = snd x)"
| "keeps_log _ \<longleftrightarrow> True"

lemma extends_step: "keeps_log op \<Longrightarrow> extends p (port_step (logged u) op p)"
proof (cases op)
  case (OpDevice f)
  then show "keeps_log op \<Longrightarrow> extends p (port_step (logged u) op p)"
    by (cases "device p") (auto intro!: extends_refl)
qed (auto simp: extends_open extends_close extends_reconfigure extends_setSignals pull_call_def
    write_call_def port_forget_def pull_settle_frame write_settle_frame get_readable_def
    get_writable_def Let_def intro!: extends_call split: option.splits)


text \<open>A device with the two CDC interfaces that answers every call, for the examples.\<close>

definition cdc_descriptor :: usb_descriptor where
  "cdc_descriptor = \<lparr>vendorId = 0x239A, productId = 0x4405, configurations =
     [[\<lparr>interfaceNumber = 0, alternates = [\<lparr>interfaceClass = 2, endpoints = []\<rparr>]\<rparr>,
       \<lparr>interfaceNumber = 1, alternates = [\<lparr>interfaceClass = 10, endpoints =
          [\<lparr>endpointNumber = 2, direction = ''out'', packetSize = 64\<rparr>,
           \<lparr>endpointNumber = 3, direction = ''in'', packetSize = 64\<rparr>]\<rparr>]\<rparr>]]\<rparr>"

fun cdc_call :: "usb_call \<Rightarrow> bool \<Rightarrow> bool \<times> (string + usb_reply)" where
  "cdc_call UOpen d = (True, Inr UDone)"
| "cdc_call UClose d = (False, Inr UDone)"
| "cdc_call (UControlTransferOut s data) d = (d, Inr (UOut ''ok''))"
| "cdc_call (UTransferIn ep len) d = (d, Inr (UIn ''ok'' (Some [0xC0])))"
| "cdc_call (UTransferOut ep data) d = (d, Inr (UOut ''ok''))"
| "cdc_call _ d = (d, Inr UDone)"

definition cdc_usb :: "bool usb" where
  "cdc_usb = \<lparr>u_call = cdc_call, u_opened = (\<lambda>d. d), u_configured = (\<lambda>d. True)\<rparr>"

definition no_patch :: polyfill_patch where
  "no_patch = \<lparr>pa_control = None, pa_transfer = None\<rparr>"

definition cdc_port :: "'d \<Rightarrow> 'd port" where
  "cdc_port d = (case SerialPort d cdc_descriptor no_patch of Inr p \<Rightarrow> p | Inl _ \<Rightarrow> undefined)"

definition baud_options :: "rat \<Rightarrow> serial_options" where
  "baud_options b = no_options\<lparr>baudRate := Some (Fin b)\<rparr>"

lemmas port_defs = SerialPort_def findInterface_def findEndpoint_def assign_polyfill_def
  kDefaultPolyfillOptions_def

lemma cdc_port_eq: "SerialPort d cdc_descriptor no_patch = Inr (cdc_port d)"
  by (simp add: cdc_port_def port_defs cdc_descriptor_def no_patch_def)

lemmas cdc_defs = cdc_port_def port_defs cdc_descriptor_def no_patch_def cdc_usb_def baud_options_def
  no_options_def

definition logged_port :: "(bool \<times> usb_call list) port" where
  "logged_port = cdc_port (False, [])"


subsection \<open>The shape of a port\<close>

text \<open>
  The interfaces and endpoints are the ones the descriptor gives; \<open>readable\<close> and \<open>writable\<close> name
  streams of the port, \<open>readable\<close> never an errored one; a stream that is not live holds nothing, and
  none holds an empty chunk.
\<close>

definition wired :: "'d port \<Rightarrow> bool" where
  "wired p \<longleftrightarrow> (case wiring p of (desc, ctrl, ti, inp, outp) \<Rightarrow>
     (\<exists>c. findInterface desc c = Inr ctrl) \<and> (\<exists>c. findInterface desc c = Inr ti) \<and>
     findEndpoint ti ''in'' = Inr inp \<and> findEndpoint ti ''out'' = Inr outp)"

definition in_stream_ok :: "in_stream \<Rightarrow> bool" where
  "in_stream_ok s \<longleftrightarrow> [] \<notin> set (is_queue s) \<and> (is_state s \<noteq> Live \<longrightarrow> is_queue s = []) \<and> \<not> bad_mark (is_mark s)"

definition streams_ok :: "in_stream list \<Rightarrow> nat option \<Rightarrow> out_stream list \<Rightarrow> nat option \<Rightarrow> bool" where
  "streams_ok ins r outs w \<longleftrightarrow> list_all in_stream_ok ins \<and>
     (case r of None \<Rightarrow> True | Some sid \<Rightarrow> sid < length ins \<and> (\<forall>e. is_state (ins ! sid) \<noteq> Errored e)) \<and>
     (case w of None \<Rightarrow> True | Some sid \<Rightarrow> sid < length outs)"

definition port_ok :: "'d port \<Rightarrow> bool" where
  "port_ok p \<longleftrightarrow> wired p \<and> streams_ok (in_streams p) (readable p) (out_streams p) (writable p)"

lemma wired_cong: "wiring p' = wiring p \<Longrightarrow> wired p' \<longleftrightarrow> wired p"
  by (simp add: wired_def)

lemma port_ok_cong: "wiring p' = wiring p \<Longrightarrow> in_streams p' = in_streams p \<Longrightarrow> readable p' = readable p \<Longrightarrow>
    out_streams p' = out_streams p \<Longrightarrow> writable p' = writable p \<Longrightarrow> port_ok p' \<longleftrightarrow> port_ok p"
  using wired_cong [of p' p] by (simp add: port_ok_def)

text \<open>The operations that only talk to the device.\<close>

definition talks :: "'d port \<Rightarrow> 'd port \<Rightarrow> bool" where
  "talks p p' \<longleftrightarrow> wiring p' = wiring p \<and> in_streams p' = in_streams p \<and> readable p' = readable p \<and>
     out_streams p' = out_streams p \<and> writable p' = writable p"

lemma talks_ok: "talks p p' \<Longrightarrow> port_ok p' \<longleftrightarrow> port_ok p"
  unfolding talks_def by (elim conjE) (rule port_ok_cong)

lemma talks_refl [simp]: "talks p p" "talks p (p\<lparr>device := d\<rparr>)" "talks p (p\<lparr>serialOptions := so\<rparr>)"
    "talks p (p\<lparr>outputSignals := sg\<rparr>)"
  by (simp_all add: talks_def)

lemma talks_trans: "talks p p' \<Longrightarrow> talks p' p'' \<Longrightarrow> talks p p''"
  by (simp add: talks_def)

lemma talks_andThen:
  assumes "talks p (fst (m p))" and "\<And>x p'. talks p' (fst (f x p'))"
  shows "talks p (fst (andThen m f p))"
  using assms talks_trans by (auto simp: andThen_def split: prod.splits sum.splits) blast

lemma talks_call: "talks p (fst (device_call u c p))"
  by (auto simp: device_call_def split: prod.splits sum.splits)

lemma talks_setLineCoding: "talks p (fst (setLineCoding u p))"
  by (auto simp: setLineCoding_def intro!: talks_andThen talks_call split: option.splits)

lemma talks_setSignals: "talks p (fst (setSignals u patch p))"
proof -
  let ?p = "p\<lparr>outputSignals := assign_signals (outputSignals p) patch\<rparr>"
  have "talks ?p (fst (setSignals u patch p))"
    unfolding setSignals_def
    by (intro talks_andThen) (auto simp: line_state_def send_break_def intro!: talks_andThen talks_call)
  then show ?thesis using talks_trans [of p ?p] by simp
qed

lemma talks_setup: "talks p (fst (port_setup u p))"
  unfolding port_setup_def
  by (intro talks_andThen) (auto simp: select_configuration_def claim_control_def claim_transfer_def
      intro: talks_call talks_setLineCoding talks_setSignals)

lemma talks_open: "talks p (fst (port_open u opts p))"
proof -
  let ?p = "p\<lparr>serialOptions := opts\<rparr>"
  obtain p2 r where s: "port_setup u ?p = (p2, r)" by fastforce
  then have "talks p p2" using talks_setup [of ?p u] talks_trans [of p ?p] by simp
  moreover have "talks p2 (fst (device_call u UClose p2))" by (rule talks_call)
  ultimately show ?thesis
    using s by (auto simp: port_open_def Let_def split: option.splits sum.splits prod.splits
        dest: talks_trans)
qed

lemma talks_reconfigure: "talks p (fst (reconfigure u patch p))"
proof -
  let ?p = "p\<lparr>serialOptions := Some (assign_options (nullish (serialOptions p) no_options) patch)\<rparr>"
  have "talks p (fst (setLineCoding u ?p))"
    using talks_setLineCoding [of ?p u] talks_trans [of p ?p] by simp
  then show ?thesis
    by (auto simp: reconfigure_def Let_def split: option.splits sum.splits prod.splits)
qed

lemma talks_release: "talks p (fst (release_device u p))"
  by (auto simp: release_device_def intro!: talks_andThen talks_setSignals talks_call)

lemma list_all_update: "list_all P xs \<Longrightarrow> P x \<Longrightarrow> list_all P (xs[i := x])"
  using set_update_subset_insert [of xs i x] by (auto simp: list_all_iff)

lemma nth_update_if: "xs[i := x] ! j = (if i = j \<and> j < length xs then x else xs ! j)"
  by (cases "i < length xs"; cases "i = j") (auto simp: nth_list_update list_update_beyond)

lemma wired_map [simp]: "wired (map_in sid f p) = wired p" "wired (map_out sid g p) = wired p"
  by (simp_all add: wired_def)

lemma streams_ok_update:
  assumes "streams_ok ins r outs w" and "in_stream_ok x"
    and "r = Some sid \<Longrightarrow> \<forall>e. is_state x \<noteq> Errored e"
  shows "streams_ok (ins[sid := x]) r outs w"
  using assms by (auto simp: streams_ok_def list_all_update nth_update_if split: option.splits if_splits)

lemma streams_ok_simps:
  "length outs' = length outs \<Longrightarrow> streams_ok ins r outs' w \<longleftrightarrow> streams_ok ins r outs w"
  "streams_ok ins r outs w \<Longrightarrow> streams_ok ins None outs w"
  "streams_ok ins r outs w \<Longrightarrow> streams_ok ins r outs None"
  by (auto simp: streams_ok_def split: option.splits)

lemma port_ok_map_in:
  assumes "port_ok p" and "\<And>s. in_stream_ok s \<Longrightarrow> in_stream_ok (f s)"
    and "\<And>s. \<forall>e. is_state s \<noteq> Errored e \<Longrightarrow> \<forall>e. is_state (f s) \<noteq> Errored e"
  shows "port_ok (map_in sid f p)"
proof (cases "sid < length (in_streams p)")
  case True
  let ?s = "in_streams p ! sid"
  from assms(1) have ok: "streams_ok (in_streams p) (readable p) (out_streams p) (writable p)"
    by (simp add: port_ok_def)
  then have "in_stream_ok ?s" and "readable p = Some sid \<Longrightarrow> \<forall>e. is_state ?s \<noteq> Errored e"
    using True by (auto simp: streams_ok_def list_all_length)
  then have "streams_ok ((in_streams p)[sid := f ?s]) (readable p) (out_streams p) (writable p)"
    using streams_ok_update [OF ok, of "f ?s" sid] assms(2,3) by blast
  moreover have "in_streams (map_in sid f p) = (in_streams p)[sid := f ?s]"
    using True by (simp add: map_in_def)
  ultimately show ?thesis using assms(1) by (simp add: port_ok_def)
qed (use assms(1) in \<open>simp add: map_in_def\<close>)

lemma port_ok_map_out: "port_ok p \<Longrightarrow> port_ok (map_out sid f p)"
proof -
  assume "port_ok p"
  moreover have len: "length (out_streams (map_out sid f p)) = length (out_streams p)"
    by (simp add: map_out_def)
  ultimately show ?thesis using streams_ok_simps(1) [OF len] by (simp add: port_ok_def)
qed

lemma port_ok_null:
  assumes "port_ok p"
  shows "port_ok (p\<lparr>readable := None\<rparr>)" "port_ok (p\<lparr>writable := None\<rparr>)"
    "port_ok (p\<lparr>readable := None, writable := None\<rparr>)"
proof -
  have "wired (p\<lparr>readable := None\<rparr>) = wired p" "wired (p\<lparr>writable := None\<rparr>) = wired p"
    "wired (p\<lparr>readable := None, writable := None\<rparr>) = wired p" by (simp_all add: wired_def)
  with assms show "port_ok (p\<lparr>readable := None\<rparr>)" "port_ok (p\<lparr>writable := None\<rparr>)"
    "port_ok (p\<lparr>readable := None, writable := None\<rparr>)"
    by (auto simp: port_ok_def intro: streams_ok_simps)
qed

lemma port_ok_pull_fail: "port_ok p \<Longrightarrow> port_ok (pull_fail sid e p)"
proof -
  assume p: "port_ok p"
  let ?q = "p\<lparr>readable := None\<rparr>"
  have ok: "streams_ok (in_streams p) None (out_streams p) (writable p)" and w: "wired p"
    using p streams_ok_simps(2) by (auto simp: port_ok_def)
  have "in_stream_ok (in_error e (in_streams p ! sid))" if "sid < length (in_streams p)"
    using ok that by (auto simp: streams_ok_def in_error_def in_stream_ok_def list_all_length)
  then have "streams_ok (in_streams (map_in sid (in_error e) p)) None (out_streams p) (writable p)"
    using streams_ok_update [OF ok, of "in_error e (in_streams p ! sid)" sid] ok
    by (auto simp: map_in_def)
  moreover have "wired (pull_fail sid e p) = wired p" by (simp add: wired_def pull_fail_def read_onError_def)
  ultimately show ?thesis using w by (simp add: port_ok_def pull_fail_def read_onError_def)
qed

lemma port_ok_enqueue:
  assumes "port_ok p" and "sid < length (in_streams p)"
    and "in_enqueue chunk (in_streams p ! sid) = Some s"
  shows "port_ok (map_in sid (\<lambda>_. s) p)"
proof -
  have ok: "streams_ok (in_streams p) (readable p) (out_streams p) (writable p)"
    using assms(1) by (simp add: port_ok_def)
  then have s: "in_stream_ok s" "is_state s = Live"
    using assms(2,3) by (auto simp: in_enqueue_def in_stream_ok_def streams_ok_def list_all_length
        split: if_splits)
  moreover have "in_streams (map_in sid (\<lambda>_. s) p) = (in_streams p)[sid := s]"
    using assms(2) by (simp add: map_in_def)
  ultimately show ?thesis
    using assms(1) streams_ok_update [OF ok s(1), of sid] by (simp add: port_ok_def)
qed

lemma port_ok_pull_settle: "port_ok p \<Longrightarrow> port_ok (pull_settle sid r p)"
  by (cases "(sid, r, p)" rule: pull_settle.cases)
    (auto simp: pull_data_def port_ok_pull_fail port_ok_enqueue split: option.splits)

lemma port_ok_write_settle: "port_ok p \<Longrightarrow> port_ok (write_settle sid r p)"
  by (cases "(sid, r, p)" rule: write_settle.cases)
    (auto simp: write_onError_def port_ok_map_out port_ok_null)

lemma port_ok_readable: "port_ok p \<Longrightarrow> port_ok (fst (get_readable u p))"
  by (auto simp: get_readable_def Let_def port_ok_def wired_def streams_ok_def in_stream_ok_def
      split: option.splits)

lemma port_ok_writable: "port_ok p \<Longrightarrow> port_ok (fst (get_writable u p))"
  by (auto simp: get_writable_def Let_def port_ok_def wired_def streams_ok_def split: option.splits)

lemma in_cancel_ok: "in_stream_ok s \<Longrightarrow> in_stream_ok (fst (in_cancel s))"
  by (auto simp: in_cancel_def in_stream_ok_def split: stream_state.splits)

lemma in_cancel_live: "\<forall>e. is_state s \<noteq> Errored e \<Longrightarrow> \<forall>e. is_state (fst (in_cancel s)) \<noteq> Errored e"
  by (cases "is_state s") (simp_all add: in_cancel_def)

lemma port_ok_close: "port_ok p \<Longrightarrow> port_ok (fst (port_close u p))"
proof -
  assume p: "port_ok p"
  obtain p1 r1 where c: "cancel_readable p = (p1, r1)" by fastforce
  obtain p2 r2 where a: "abort_writable p1 = (p2, r2)" by fastforce
  have "port_ok p1" using p c
    using in_cancel_ok in_cancel_live
    by (auto simp: cancel_readable_def split: option.splits intro!: port_ok_map_in)
  then have p2: "port_ok p2" using a
    by (auto simp: abort_writable_def split: option.splits intro!: port_ok_map_out)
  have "port_ok (fst (release_device u (p2\<lparr>readable := None, writable := None\<rparr>)))"
    using port_ok_null(3) [OF p2] talks_ok [OF talks_release] by blast
  then show ?thesis
    using p2 port_ok_null(3) [OF p2]
    by (auto simp: port_close_def c a Let_def split: sum.splits prod.splits)
qed

lemma tl_no_Nil: "x \<notin> set xs \<Longrightarrow> x \<notin> set (tl xs)"
  by (cases xs) simp_all

lemma port_ok_step: "port_ok p \<Longrightarrow> port_ok (port_step u op p)"
proof (cases op)
  case (OpTake sid)
  then show "port_ok p \<Longrightarrow> port_ok (port_step u op p)"
    by (auto simp: in_stream_ok_def tl_no_Nil intro!: port_ok_map_in)
next
  case (OpCancel sid)
  then show "port_ok p \<Longrightarrow> port_ok (port_step u op p)"
    by (auto simp: in_stream_ok_def in_cancel_def split: stream_state.splits intro!: port_ok_map_in)
next
  case (OpLockIn sid b)
  then show "port_ok p \<Longrightarrow> port_ok (port_step u op p)"
    by (auto simp: in_stream_ok_def intro!: port_ok_map_in)
next
  case (OpDevice f)
  then show "port_ok p \<Longrightarrow> port_ok (port_step u op p)" by (simp add: port_ok_def wired_def)
qed (auto simp: port_ok_close port_ok_readable port_ok_writable port_ok_pull_settle
    port_ok_write_settle port_ok_map_out port_forget_def
    talks_ok [OF talks_open] talks_ok [OF talks_reconfigure] talks_ok [OF talks_setSignals]
    talks_ok [OF talks_call])

lemma SerialPort_ok: "SerialPort d desc patch = Inr p \<Longrightarrow> port_ok p"
  by (auto simp: SerialPort_def port_ok_def wired_def wiring_def streams_ok_def Let_def split: sum.splits)

text \<open>
  A port made by the constructor keeps its shape under everything that can happen to it: its
  interfaces and endpoints stay the ones the descriptor gives for the classes and directions,
  \<open>readable\<close> and \<open>writable\<close> are null or a stream the port made, \<open>readable\<close> is never an errored one, and
  no stream hands out an empty chunk or keeps data after it ended.
\<close>

theorem port_keeps_shape:
  assumes "SerialPort d desc patch = Inr p"
  shows "port_ok (port_run u ops p)"
  by (rule port_run_invariant [where P = port_ok])
    (rule port_ok_step, assumption, rule SerialPort_ok [OF assms])

theorem port_keeps_shape_witness:
  "port_ok (port_run cdc_usb [OpOpen (Some (baud_options 115200)), OpReadable,
     OpPullSettle 0 (Inr (UIn ''stall'' None)), OpReadable, OpClose] (cdc_port False))"
  by (rule port_keeps_shape [OF cdc_port_eq])

end
