(* ===== verification/WebSerial_Session.thy ===== *)
theory WebSerial_Session
  imports WebSerial_Props
begin

text \<open>
  Sessions over the polyfill's port: the handshake of \<open>open\<close> and its failure, \<open>close\<close> and the streams
  it leaves, the line coding and its inverse, the transfer sizes, and the bytes and frames the RNode
  read loop gets.
\<close>

subsection \<open>The line coding\<close>

text \<open>CDC-ACM's reading of the seven bytes: rate, stop bits, parity, data bits.\<close>

definition le_value :: "byte list \<Rightarrow> int" where
  "le_value bs = (\<Sum>k<4. uint (bs ! k) * 2 ^ (8 * k))"

definition cdc_stop :: "byte \<Rightarrow> rat option" where
  "cdc_stop b = (if b = 0 then Some 1 else if b = 1 then Some (3 / 2) else if b = 2 then Some 2 else None)"

definition cdc_parity :: "byte \<Rightarrow> string option" where
  "cdc_parity b = (if b = 0 then Some ''none'' else if b = 1 then Some ''odd''
     else if b = 2 then Some ''even'' else None)"

definition cdc_decode :: "byte list \<Rightarrow> int \<times> rat option \<times> string option \<times> int" where
  "cdc_decode bs = (le_value bs, cdc_stop (bs ! 4), cdc_parity (bs ! 5), uint (bs ! 6))"

lemma le_value_uint32: "le_value (uint32_bytes w @ rest) = uint w"
proof -
  have "uint w = (\<Sum>k<4. take_bit 8 (drop_bit (8 * k) (uint w)) * 2 ^ (8 * k))"
  proof -
    define x where "x = uint w"
    have "0 \<le> x" "x < 2 ^ 32" using unsigned_less [of w, where ?'a = int] by (simp_all add: x_def)
    define a where "a = x div 256"
    define b where "b = a div 256"
    define c where "c = b div 256"
    have d: "x div 65536 = b" "x div 16777216 = c"
      using zdiv_zmult2_eq [of 256 x 256] zdiv_zmult2_eq [of 256 x 65536] zdiv_zmult2_eq [of 256 a 256]
      by (simp_all add: a_def b_def c_def)
    have "0 \<le> c" "c < 256" using \<open>0 \<le> x\<close> \<open>x < 2 ^ 32\<close> by (simp_all flip: d(2))
    then have "c mod 256 = c" by simp
    then have "x = x mod 256 + (a mod 256) * 256 + (b mod 256) * 65536 + (c mod 256) * 16777216"
      using div_mult_mod_eq [of x 256] div_mult_mod_eq [of a 256] div_mult_mod_eq [of b 256]
      unfolding a_def [symmetric] b_def [symmetric] c_def [symmetric] by linarith
    then have "x = x mod 256 + (x div 256 mod 256) * 256 + (x div 65536 mod 256) * 65536
        + (x div 16777216 mod 256) * 16777216" by (simp only: d a_def)
    moreover have "(\<Sum>k<4. take_bit 8 (drop_bit (8 * k) x) * 2 ^ (8 * k)) =
        x mod 256 + (x div 256 mod 256) * 256 + (x div 65536 mod 256) * 65536
        + (x div 16777216 mod 256) * 16777216"
      by (simp add: eval_nat_numeral(2,3) lessThan_Suc take_bit_eq_mod drop_bit_eq_div algebra_simps)
    ultimately show ?thesis unfolding x_def by (rule trans [OF _ sym])
  qed
  moreover have "uint ((uint32_bytes w @ rest) ! k) = take_bit 8 (drop_bit (8 * k) (uint w))" if "k < 4" for k
  proof -
    from that have "k \<in> {0, 1, 2, 3}" by auto
    moreover have "take_bit 32 (uint w) = uint w"
      using unsigned_less [of w, where ?'a = int] by (simp add: take_bit_int_eq_self)
    ultimately show ?thesis by (auto simp: uint32_bytes_def unsigned_ucast_eq unsigned_drop_bit_eq)
  qed
  ultimately show ?thesis by (simp add: le_value_def)
qed

text \<open>
  For options that pass the validation, the device reads back from the seven bytes the rate
  modulo \<open>2^32\<close>, the stop bits, the parity and the data bits, with the documented default for each
  one left out.
\<close>

theorem line_coding_roundtrip:
  assumes "validateOptions so = None"
  shows "\<exists>stop data. nullish (stopBits so) (Fin 1) = Fin stop \<and> nullish (dataBits so) (Fin 8) = Fin (of_int data) \<and>
    cdc_decode (lineCoding so) = (to_integer (baudRate so) mod 2 ^ 32, Some stop,
      Some (nullish (parity_of so) ''none''), data)"
proof -
  have v: "isValidDataBits (dataBits so)" "isValidStopBits (stopBits so)" "isValidParity (parity_of so)"
    using assms by (simp_all add: validateOptions_None)
  have len: "length (uint32_bytes (i32 (to_integer (baudRate so)))) = 4" by simp
  have rate: "le_value (lineCoding so) = to_integer (baudRate so) mod 2 ^ 32"
    unfolding lineCoding_def le_value_uint32 by (simp add: i32_def unsigned_of_int take_bit_eq_mod)
  have stop: "\<exists>stop. nullish (stopBits so) (Fin 1) = Fin stop \<and> cdc_stop (lineCoding so ! 4) = Some stop"
    using v(2) by (auto simp: lineCoding_def nth_append isValidStopBits_def nullish_def cdc_stop_def
        kStopBitsIndexMapping_def kAcceptableStopBits_def kDefaultStopBits_def u8_def split: option.splits)
  have par: "cdc_parity (lineCoding so ! 5) = Some (nullish (parity_of so) ''none'')"
    using v(3) by (auto simp: lineCoding_def nth_append isValidParity_def nullish_def cdc_parity_def
        kParityIndexMapping_def kAcceptableParity_def kDefaultParity_def u8_def split: option.splits)
  have data: "\<exists>data. nullish (dataBits so) (Fin 8) = Fin (of_int data) \<and> uint (lineCoding so ! 6) = data"
    using v(1) by (auto simp: lineCoding_def nth_append isValidDataBits_def nullish_def to_integer_def
        kAcceptableDataBits_def kDefaultDataBits_def u8_def split: option.splits)
  from stop par data rate show ?thesis unfolding cdc_decode_def by blast
qed

theorem line_coding_roundtrip_witness:
  "\<exists>stop data. nullish None (Fin 1) = Fin stop \<and> nullish None (Fin 8) = Fin (of_int data) \<and>
    cdc_decode (lineCoding (baud_options 115200)) =
      (to_integer (Some (Fin 115200)) mod 2 ^ 32, Some stop, Some ''none'', data)"
  using line_coding_roundtrip [of "baud_options 115200"]
  by (simp add: baud_options_def no_options_def nullish_def validateOptions_None isValidBaudRate_def
      isValidDataBits_def isValidStopBits_def isValidParity_def)

subsection \<open>The size of a transfer\<close>

text \<open>The rounding of the quotient does not disturb its ceiling.\<close>

lemma of_nat_power_bound: "n \<le> 2 ^ e \<Longrightarrow> (of_nat n :: rat) \<le> 2 ^ e"
  by (metis of_nat_le_iff of_nat_numeral of_nat_power)

lemma round_num_nat: "n \<le> 2 ^ 53 \<Longrightarrow> round_num (of_nat n) = Fin (of_nat n)"
proof -
  assume n: "n \<le> 2 ^ 53"
  have "fl (of_int (int n)) = (of_int (int n) :: rat)" using n by (intro fl_int) simp
  then have f: "fl (of_nat n) = (of_nat n :: rat)" by simp
  have "(of_nat n :: rat) < 2 ^ 1024"
    using of_nat_power_bound [OF n] power_strict_increasing [of 53 1024 "2 :: rat"] by linarith
  then show ?thesis using round_num_fin [of "of_nat n"] f by simp
qed

lemma ceiling_fl_quotient:
  assumes "0 < d" and "d \<le> 2 ^ 32" and "0 < s" and "s \<le> 2 ^ 16"
  defines "q \<equiv> (of_nat d :: rat) / of_nat s"
  shows "\<lceil>fl q\<rceil> = \<lceil>q\<rceil>" and "0 < fl q" and "fl q \<le> 2 ^ 32" and "1 \<le> \<lceil>q\<rceil>"
proof -
  define k where "k = \<lceil>q\<rceil> - 1"
  have s: "(0 :: rat) < of_nat s" "(of_nat s :: rat) \<le> 2 ^ 16"
    using assms(3) of_nat_power_bound [OF assms(4)] by simp_all
  have d: "(0 :: rat) < of_nat d" "(of_nat d :: rat) \<le> 2 ^ 32"
    using assms(1) of_nat_power_bound [OF assms(2)] by simp_all
  have q0: "0 < q" using s d by (simp add: q_def)
  have "1 \<le> (of_nat s :: rat)" using assms(3) by simp
  then have "of_nat d * (1 :: rat) \<le> of_nat d * of_nat s" using d by (intro mult_left_mono) simp_all
  then have qd: "q \<le> of_nat d" using s by (simp add: q_def pos_divide_le_eq)
  then have q1: "q \<le> 2 ^ 32" using d by linarith
  have k0: "0 \<le> k" using q0 by (simp add: k_def)
  have kq: "of_int k < q" "q \<le> of_int (k + 1)" unfolding k_def by linarith+
  have "of_int k < (of_int (2 ^ 32) :: rat)" using kq(1) q1 by simp
  then have k1: "k < 2 ^ 32" by (simp only: of_int_less_iff)
  have "of_int (k * int s) < (of_int (int d) :: rat)"
    using kq(1) s by (simp add: q_def pos_less_divide_eq)
  then have "k * int s + 1 \<le> int d" by (simp only: of_int_less_iff)
  then have "of_int (k * int s + 1) \<le> (of_int (int d) :: rat)" by (simp only: of_int_le_iff)
  then have "(of_int k * of_nat s + 1) / of_nat s \<le> q"
    unfolding q_def by (intro divide_right_mono) simp_all
  then have "of_int k + 1 / of_nat s \<le> q" using s by (simp add: add_divide_distrib)
  moreover have "1 / 2 ^ 16 \<le> 1 / (of_nat s :: rat)" using s by (intro divide_left_mono) simp_all
  ultimately have low: "of_int k + 1 / 2 ^ 16 \<le> q" by linarith
  have y: "of_int k + 1 / 2 ^ 16 = of_int (k * 2 ^ 16 + 1) * (2 :: rat) powi (- 16)"
    by (simp add: power_int_minus field_simps)
  have "fl (of_int k + 1 / 2 ^ 16) = of_int k + 1 / 2 ^ 16"
    unfolding y using k0 k1 by (intro fl_exact) simp_all
  then have "of_int k + 1 / 2 ^ 16 \<le> fl q" using fl_mono [OF low] by simp
  then have lo: "of_int k < fl q" by (rule less_le_trans [rotated]) simp
  have "fl (of_int (k + 1)) = of_int (k + 1)" using k0 k1 by (intro fl_int) simp
  then have hi: "fl q \<le> of_int (k + 1)" using fl_mono [OF kq(2)] by simp
  have c: "\<lceil>fl q\<rceil> = k + 1" using lo hi by (intro ceiling_unique) simp_all
  then show "\<lceil>fl q\<rceil> = \<lceil>q\<rceil>" by (simp add: k_def)
  show "0 < fl q" using lo k0 by (metis le_less_trans of_int_0_le_iff)
  have "fl (of_int (2 ^ 32)) = (of_int (2 ^ 32) :: rat)" by (rule fl_int) simp
  then show "fl q \<le> 2 ^ 32" using fl_mono [OF q1] by simp
  show "1 \<le> \<lceil>q\<rceil>" using k0 by (simp add: k_def)
qed

text \<open>
  C37. A transfer started for a live stream asks for a whole number of packets: the fewest that hold
  what the stream still wants, computed in double precision.
\<close>

theorem chunk_is_whole_packets:
  assumes "is_state s = Live" and "is_mark s = Fin (of_nat m)" and "m \<le> 2 ^ 32"
    and "length (concat (is_queue s)) < m" and "0 < packetSize ep" and "packetSize ep \<le> 2 ^ 16"
  shows "\<exists>k. chunkSize ep s = Fin (of_nat (k * packetSize ep)) \<and>
    m - length (concat (is_queue s)) \<le> k * packetSize ep \<and>
    k * packetSize ep < m - length (concat (is_queue s)) + packetSize ep"
proof -
  define d where "d = m - length (concat (is_queue s))"
  define ps where "ps = packetSize ep"
  define q where "q = (of_nat d :: rat) / of_nat ps"
  define k where "k = nat \<lceil>q\<rceil>"
  have d: "0 < d" "d \<le> 2 ^ 32" using assms(3,4) by (simp_all add: d_def)
  have ps: "0 < ps" "ps \<le> 2 ^ 16" using assms(5,6) by (simp_all add: ps_def)
  note c = ceiling_fl_quotient [OF d ps, folded q_def]
  have k: "of_nat k = (of_int \<lceil>q\<rceil> :: rat)" using c(4) by (simp add: k_def)
  have "(of_nat m :: rat) + - of_nat (length (concat (is_queue s))) = of_nat d"
    using assms(4) by (simp add: d_def of_nat_diff)
  moreover have "d \<le> 2 ^ 53" using d by simp
  ultimately have want: "desiredSize s = Some (Fin (of_nat d))"
    using assms(1,2) by (simp add: desiredSize_def n_sub_def round_num_nat)
  have "\<bar>fl q\<bar> < 2 ^ 1024"
    using c(2,3) power_strict_increasing [of 32 1024 "2 :: rat"] by linarith
  then have quot: "n_div (Fin (of_nat d)) (Fin (of_nat ps)) = Fin (fl q)"
    using ps by (simp add: n_div_def q_def round_num_fin)
  have kb: "of_nat (k * ps) < (of_nat (d + ps) :: rat)" "of_nat d \<le> (of_nat (k * ps) :: rat)"
  proof -
    have "of_int \<lceil>q\<rceil> < q + 1" "q \<le> of_int \<lceil>q\<rceil>" by linarith+
    then have "of_nat k * of_nat ps < (q + 1) * of_nat ps" "q * of_nat ps \<le> of_nat k * of_nat ps"
      using ps by (simp_all add: k)
    then show "of_nat (k * ps) < (of_nat (d + ps) :: rat)" "of_nat d \<le> (of_nat (k * ps) :: rat)"
      using ps by (simp_all add: q_def distrib_right)
  qed
  then have kn: "k * ps < d + ps" "d \<le> k * ps" by (simp_all only: of_nat_less_iff of_nat_le_iff)
  then have "k * ps \<le> 2 ^ 53" using d ps by simp
  then have "n_mul (Fin (of_int \<lceil>fl q\<rceil>)) (Fin (of_nat ps)) = Fin (of_nat (k * ps))"
    using round_num_nat [of "k * ps"] by (simp add: n_mul_def c(1) flip: k)
  then have "chunkSize ep s = Fin (of_nat (k * ps))"
    using d by (simp add: chunkSize_def want quot n_ceil_def n_map_def flip: ps_def)
  then show ?thesis using kn unfolding d_def ps_def by blast
qed

theorem chunk_is_whole_packets_witness:
  "\<exists>k. chunkSize \<lparr>endpointNumber = 3, direction = ''in'', packetSize = 64\<rparr>
      \<lparr>is_state = Live, is_queue = [[1, 2]], is_mark = Fin 255, is_locked = True\<rparr> = Fin (of_nat (k * 64)) \<and>
    253 \<le> k * 64 \<and> k * 64 < 253 + 64"
  using chunk_is_whole_packets [of "\<lparr>is_state = Live, is_queue = [[1, 2]], is_mark = Fin 255, is_locked = True\<rparr>"
      255 "\<lparr>endpointNumber = 3, direction = ''in'', packetSize = 64\<rparr>"] by simp

subsection \<open>Opening\<close>

text \<open>WebUSB: a resolved \<open>close\<close> leaves the device closed.\<close>

definition closes :: "'d usb \<Rightarrow> bool" where
  "closes u \<longleftrightarrow> (\<forall>d d' r. u_call u UClose d = (d', Inr r) \<longrightarrow> \<not> u_opened u d')"


lemma device_cdc_port [simp]: "device (cdc_port d) = d"
  by (simp add: cdc_port_def port_defs cdc_descriptor_def no_patch_def)

text \<open>A device whose interfaces another driver has claimed.\<close>

definition busy_usb :: "bool usb" where
  "busy_usb = cdc_usb\<lparr>u_call := (\<lambda>c d. case c of UClaimInterface n \<Rightarrow> (d, Inl ''NetworkError'') | _ \<Rightarrow> cdc_call c d)\<rparr>"

lemma busy_open: "port_open busy_usb (Some (baud_options 115200)) (cdc_port False) =
    ((cdc_port False)\<lparr>serialOptions := Some (baud_options 115200)\<rparr>,
     Inl (SetupFailed ''Error setting up device: NetworkError''))"
  by (simp add: port_open_def port_validate_def validateOptions_def isValidBaudRate_def isValidDataBits_def
      isValidStopBits_def isValidParity_def baud_options_def no_options_def port_setup_def andThen_def
      device_call_def busy_usb_def cdc_usb_def select_configuration_def claim_control_def cdc_port_def
      port_defs cdc_descriptor_def no_patch_def setup_failed_def)


text \<open>The calls of a successful opening; \<open>configured\<close> is the device's answer after its \<open>open\<close>.\<close>

definition handshake :: "'d port \<Rightarrow> bool \<Rightarrow> serial_options \<Rightarrow> usb_call list" where
  "handshake p configured so =
     [UOpen] @ (if configured then [] else [USelectConfiguration 1]) @
     [UClaimInterface (interfaceNumber (controlInterface p))] @
     (if controlInterface p = transferInterface p then []
      else [UClaimInterface (interfaceNumber (transferInterface p))]) @
     [UControlTransferOut (class_request kSetLineCoding 0 p) (lineCoding so),
      UControlTransferOut (class_request kSetControlLineState
        (if requestToSend (outputSignals p) = Some True then 3 else 1) p) []]"

lemma logged_call: "device_call (logged u) c p = (p', r) \<Longrightarrow>
    call_log p' = call_log p @ [c] \<and> serialOptions p' = serialOptions p \<and> outputSignals p' = outputSignals p \<and>
    controlInterface p' = controlInterface p \<and> transferInterface p' = transferInterface p"
  by (auto simp: device_call_def logged_def Let_def split: prod.splits sum.splits)

text \<open>What a stage keeps, and the calls it makes.\<close>

definition stage :: "('d \<times> usb_call list) port \<Rightarrow> ('d \<times> usb_call list) port \<Rightarrow> usb_call list \<Rightarrow> bool" where
  "stage p p' cs \<longleftrightarrow> call_log p' = call_log p @ cs \<and> serialOptions p' = serialOptions p \<and>
     outputSignals p' = outputSignals p \<and> controlInterface p' = controlInterface p \<and>
     transferInterface p' = transferInterface p"

lemma stage_trans: "stage p p' cs \<Longrightarrow> stage p' p'' ds \<Longrightarrow> stage p p'' (cs @ ds)"
  by (simp add: stage_def)

lemma stage_call: "device_call (logged u) c p = (p', r) \<Longrightarrow> stage p p' [c]"
  by (simp add: stage_def logged_call)

lemma stage_select: "select_configuration (logged u) p = (p', r) \<Longrightarrow>
    stage p p' (if u_configured (logged u) (device p) then [] else [USelectConfiguration 1])"
  by (auto simp: select_configuration_def stage_call split: if_splits) (simp add: stage_def)

lemma stage_claim: "claim_control (logged u) p = (p', r) \<Longrightarrow>
    stage p p' [UClaimInterface (interfaceNumber (controlInterface p))]"
  by (simp add: claim_control_def stage_call)

lemma stage_claim_transfer: "claim_transfer (logged u) p = (p', r) \<Longrightarrow>
    stage p p' (if controlInterface p = transferInterface p then []
      else [UClaimInterface (interfaceNumber (transferInterface p))])"
  by (auto simp: claim_transfer_def stage_call split: if_splits) (simp add: stage_def)

lemma stage_coding: "setLineCoding (logged u) p = (p', Inr x) \<Longrightarrow> serialOptions p = Some so \<Longrightarrow>
    stage p p' [UControlTransferOut (class_request kSetLineCoding 0 p) (lineCoding so)]"
  by (auto simp: setLineCoding_def andThen_Inr_iff dest: stage_call split: if_splits)

lemma open_signal_bits: "signal_bits (assign_signals s open_signals) =
    (if requestToSend s = Some True then 3 else 1)"
  by (simp add: signal_bits_def assign_signals_def open_signals_def js_or_def js_shl_def i32_def)

lemma class_request_cong: "controlInterface p' = controlInterface p \<Longrightarrow>
    class_request req v p' = class_request req v p"
  by (simp add: class_request_def)

text \<open>
  A successful \<open>open\<close> has made exactly the calls of the handshake, in order: open, the
  configuration if none is selected, the interfaces, the validated line coding, then DTR.
\<close>

theorem open_handshake:
  assumes "port_open (logged u) opts p = (p', Inr x)"
  shows "\<exists>so b. opts = Some so \<and> validateOptions so = None \<and>
    call_log p' = call_log p @ handshake p b so"
proof -
  let ?p = "p\<lparr>serialOptions := opts\<rparr>"
  obtain so where so: "opts = Some so" "validateOptions so = None"
    and s: "port_setup (logged u) ?p = (p', Inr x)"
    using assms by (auto simp: port_open_def Let_def port_validate_def split: option.splits prod.splits
        sum.splits if_splits)
  obtain x1 p1 x2 p2 x3 p3 x4 p4 x5 p5 where
    d1: "device_call (logged u) UOpen ?p = (p1, Inr x1)" and
    d2: "select_configuration (logged u) p1 = (p2, Inr x2)" and
    d3: "claim_control (logged u) p2 = (p3, Inr x3)" and
    d4: "claim_transfer (logged u) p3 = (p4, Inr x4)" and
    d5: "setLineCoding (logged u) p4 = (p5, Inr x5)" and
    d6: "setSignals (logged u) open_signals p5 = (p', Inr x)"
    using s by (auto simp: port_setup_def andThen_Inr_iff)
  define b where "b = u_configured (logged u) (device p1)"
  note s1 = stage_call [OF d1]
  note s2 = stage_trans [OF s1 stage_select [OF d2, folded b_def]]
  note s3 = stage_trans [OF s2 stage_claim [OF d3]]
  note s4 = stage_trans [OF s3 stage_claim_transfer [OF d4]]
  have "serialOptions p4 = Some so" using s4 so by (simp add: stage_def)
  note s5 = stage_trans [OF s4 stage_coding [OF d5 this]]
  let ?s = "p5\<lparr>outputSignals := assign_signals (outputSignals p5) open_signals\<rparr>"
  let ?c = "UControlTransferOut (class_request kSetControlLineState
    (signal_bits (assign_signals (outputSignals p5) open_signals)) ?s) []"
  have "\<exists>r. device_call (logged u) ?c ?s = (p', r)"
    using d6 by (auto simp: setSignals_def andThen_Inr_iff line_state_def send_break_def open_signals_def)
  then have "call_log p' = call_log p5 @ [?c]" using logged_call by fastforce
  moreover have "call_log p5 = call_log p @ butlast (handshake p b so)"
    using s5 s4 s3 s2 s1 class_request_cong [of p4 p]
    by (simp add: stage_def handshake_def butlast_append)
  moreover have "?c = last (handshake p b so)"
    using s5 class_request_cong [of ?s p]
    by (simp add: stage_def handshake_def open_signal_bits)
  ultimately have "call_log p' = call_log p @ handshake p b so"
    by (simp add: handshake_def)
  with so show ?thesis by blast
qed

lemma cdc_opens: "\<exists>p'. port_open (logged cdc_usb) (Some (baud_options 115200)) logged_port = (p', Inr ())"
  by (simp add: port_open_def port_validate_def validateOptions_def isValidBaudRate_def isValidDataBits_def
      isValidStopBits_def isValidParity_def baud_options_def no_options_def port_setup_def andThen_def
      device_call_def logged_def cdc_usb_def select_configuration_def claim_control_def claim_transfer_def
      setLineCoding_def setSignals_def line_state_def send_break_def open_signals_def logged_port_def
      cdc_port_def port_defs cdc_descriptor_def no_patch_def)

theorem open_handshake_witness:
  "\<exists>p' so b. port_open (logged cdc_usb) (Some (baud_options 115200)) logged_port = (p', Inr ()) \<and>
    call_log p' = call_log logged_port @ handshake logged_port b so"
proof -
  obtain p' where o: "port_open (logged cdc_usb) (Some (baud_options 115200)) logged_port = (p', Inr ())"
    using cdc_opens by blast
  from open_handshake [OF o] o show ?thesis by blast
qed

subsection \<open>Closing\<close>

definition in_locked :: "'d port \<Rightarrow> bool" where
  "in_locked p \<longleftrightarrow> (\<exists>sid. readable p = Some sid \<and> is_locked (in_streams p ! sid))"

definition out_locked :: "'d port \<Rightarrow> bool" where
  "out_locked p \<longleftrightarrow> (\<exists>sid. writable p = Some sid \<and> os_locked (out_streams p ! sid))"

lemma cancel_result: "port_ok p \<Longrightarrow>
    snd (cancel_readable p) = (if in_locked p then Inl StreamLocked else Inr ())"
  by (auto simp: cancel_readable_def in_locked_def in_cancel_def port_ok_def streams_ok_def
      split: option.splits stream_state.splits)

lemma abort_result: "snd (abort_writable p) = (if out_locked p then Inl StreamLocked else Inr ())"
  by (auto simp: abort_writable_def out_locked_def out_abort_def split: option.splits)

lemma cancel_keeps: "out_streams (fst (cancel_readable p)) = out_streams p"
    "writable (fst (cancel_readable p)) = writable p" "readable (fst (cancel_readable p)) = readable p"
  by (auto simp: cancel_readable_def split: option.splits)

lemma out_locked_cancel: "out_locked (fst (cancel_readable p)) = out_locked p"
  by (simp add: out_locked_def cancel_keeps)

text \<open>The two halves of \<open>close\<close>: refused by a lock, and carried out.\<close>

lemma close_locked:
  assumes "port_ok p" and "in_locked p \<or> out_locked p" and "port_close u p = (p', r)"
  shows "r = Inl StreamLocked \<and> device p' = device p \<and> readable p' = readable p \<and> writable p' = writable p"
proof -
  obtain p1 r1 where c: "cancel_readable p = (p1, r1)" by fastforce
  obtain p2 r2 where a: "abort_writable p1 = (p2, r2)" by fastforce
  have r1: "r1 = (if in_locked p then Inl StreamLocked else Inr ())"
    using cancel_result [OF assms(1)] c by simp
  have r2: "r2 = (if out_locked p then Inl StreamLocked else Inr ())"
    using abort_result [of p1] a c out_locked_cancel [of p] by simp
  have dev: "device p2 = device p" using cancel_frames(2) [of p] cancel_frames(4) [of p1] c a by simp
  have refs: "readable p2 = readable p" "writable p2 = writable p"
    using cancel_keeps [of p] a c by (auto simp: abort_writable_def split: option.splits)
  show ?thesis using assms(2,3) r1 r2 dev refs by (auto simp: port_close_def c a split: if_splits)
qed

lemma close_unlocked:
  assumes "port_ok p" and "closes u" and "\<not> in_locked p" and "\<not> out_locked p" and "port_close u p = (p', r)"
  shows "readable p' = None \<and> writable p' = None \<and> (r = Inr () \<longrightarrow> \<not> u_opened u (device p'))"
proof -
  obtain p1 r1 where c: "cancel_readable p = (p1, r1)" by fastforce
  obtain p2 r2 where a: "abort_writable p1 = (p2, r2)" by fastforce
  have r1: "r1 = Inr ()" using cancel_result [OF assms(1)] assms(3) c by simp
  have r2: "r2 = Inr ()" using abort_result [of p1] a c out_locked_cancel [of p] assms(4) by simp
  let ?p = "p2\<lparr>readable := None, writable := None\<rparr>"
  have nulls: "readable (fst (release_device u ?p)) = None" "writable (fst (release_device u ?p)) = None"
    using talks_release [of ?p u] by (simp_all add: talks_def)
  have closed: "\<not> u_opened u (device p4)" if rel: "release_device u ?p = (p4, Inr x)" for p4 x
  proof -
    obtain q where "device_call u UClose q = (p4, Inr x)"
      using rel by (auto simp: release_device_def andThen_Inr_iff)
    then have "u_call u UClose (device q) = (device p4, Inr x)"
      by (auto simp: device_call_def split: prod.splits sum.splits)
    then show ?thesis using assms(2) unfolding closes_def by blast
  qed
  show ?thesis using assms(5) r1 r2 nulls closed
    by (auto simp: port_close_def c a Let_def split: if_splits prod.splits sum.splits)
qed

text \<open>
  \<open>close\<close> of a port in its shape succeeds in taking the streams away exactly when neither is
  locked; then both are null, and a device that was open has been told to drop DTR and RTS and to
  close. With a locked stream it throws and the device is not touched.
\<close>

theorem close_outcome:
  assumes "port_ok p" and "closes u" and "port_close u p = (p', r)"
  shows "if in_locked p \<or> out_locked p
    then r = Inl StreamLocked \<and> device p' = device p \<and> readable p' = readable p \<and> writable p' = writable p
    else readable p' = None \<and> writable p' = None \<and> (r = Inr () \<longrightarrow> \<not> u_opened u (device p'))"
  using close_locked [OF assms(1) _ assms(3)] close_unlocked [OF assms(1,2) _ _ assms(3)] by auto

lemma cdc_closes: "closes cdc_usb"
  by (simp add: closes_def cdc_usb_def)

theorem close_outcome_witness:
  "\<exists>p' r. port_close cdc_usb (cdc_port True) = (p', r) \<and> readable p' = None \<and> writable p' = None"
proof -
  obtain p' r where c: "port_close cdc_usb (cdc_port True) = (p', r)" by fastforce
  have "\<not> in_locked (cdc_port True)" "\<not> out_locked (cdc_port True)"
    by (simp_all add: in_locked_def out_locked_def cdc_port_def port_defs cdc_descriptor_def no_patch_def)
  with close_outcome [OF SerialPort_ok [OF cdc_port_eq] cdc_closes c] c show ?thesis by simp
qed

text \<open>
  A \<open>close\<close> that a reader's lock refuses has aborted the writable stream all the same; the port goes
  on handing out the dead stream.
\<close>

lemma refused_close_kills_writable:
  assumes "readable p = Some r" and "is_locked (in_streams p ! r)"
    and "writable p = Some w" and "w < length (out_streams p)" and "out_streams p ! w =
      \<lparr>os_state = Live, os_mark = m, os_locked = False\<rparr>"
  shows "\<exists>p'. port_close u p = (p', Inl StreamLocked) \<and>
    get_writable u' p' = (p', Inr (Some w)) \<and> os_state (out_streams p' ! w) = Errored ErrAborted"
  using assms
  by (auto simp: port_close_def cancel_readable_def in_cancel_def abort_writable_def out_abort_def
      out_error_def get_writable_def map_out_def Let_def split: prod.splits)

subsection \<open>Options that fail\<close>

text \<open>
  \<open>reconfigure\<close> stores the merged options before it validates them: after an attempt with a parity the
  port refuses, every later attempt that does not name a parity fails as well, whatever it asks for.
\<close>

lemma failed_reconfigure_sticks:
  assumes "\<not> isValidParity (Some par)" and "pa_parity patch = Some (Some par)" and "pa_parity patch' = None"
  shows "\<exists>e e'. snd (reconfigure u patch p) = Inl e \<and>
    snd (reconfigure u patch' (fst (reconfigure u patch p))) = Inl e'"
proof -
  have bad: "validateOptions (so\<lparr>parity_of := Some par\<rparr>) \<noteq> None" for so
    using assms(1) by (simp add: validateOptions_None)
  have r: "\<exists>e. reconfigure u pt q =
      (q\<lparr>serialOptions := Some (assign_options (nullish (serialOptions q) no_options) pt)\<rparr>, Inl e)"
    if "assign (parity_of (nullish (serialOptions q) no_options)) (pa_parity pt) = Some par" for q pt
  proof -
    let ?q = "q\<lparr>serialOptions := Some (assign_options (nullish (serialOptions q) no_options) pt)\<rparr>"
    have "port_validate ?q \<noteq> None"
    proof -
      have "port_validate q' \<noteq> None" if "serialOptions q' = Some so" "parity_of so = Some par" for q' :: "'a port" and so
        using bad [of so] that by (cases so) (simp add: port_validate_def)
      then show ?thesis using that by (simp add: assign_options_def)
    qed
    then show ?thesis by (auto simp: reconfigure_def)
  qed
  obtain e where e: "reconfigure u patch p =
      (p\<lparr>serialOptions := Some (assign_options (nullish (serialOptions p) no_options) patch)\<rparr>, Inl e)"
    using r [of p patch] assms(2) by auto
  with r [of "fst (reconfigure u patch p)" patch'] assms(2,3)
  show ?thesis by (auto simp: nullish_def assign_options_def)
qed

text \<open>
  A transfer that ends on a packet boundary can be followed by one of length zero. The byte stream
  refuses the empty chunk; the source takes that for an error of the device, errors the stream and
  drops what the consumer had not read yet.
\<close>

lemma empty_transfer_kills_stream:
  assumes "sid < length (in_streams p)" and "is_state (in_streams p ! sid) = Live"
  defines "p' \<equiv> pull_settle sid (Inr (UIn ''ok'' (Some []))) p"
  shows "readable p' = None" and "is_state (in_streams p' ! sid) = Errored ErrEnqueue"
    and "is_queue (in_streams p' ! sid) = []"
  using assms(1,2)
  by (simp_all add: p'_def pull_data_def in_enqueue_def pull_fail_def read_onError_def map_in_def in_error_def)

subsection \<open>The bytes of a stream\<close>

text \<open>
  What ends or empties the stream \<open>sid\<close>: being cancelled, the port being closed, a transfer started
  for it that fails or brings nothing.
\<close>

definition good_transfer :: "string + usb_reply \<Rightarrow> bool" where
  "good_transfer r = (case r of Inr (UIn status data) \<Rightarrow> status = ''ok'' \<and> data \<noteq> Some [] | _ \<Rightarrow> False)"

fun undisturbed :: "nat \<Rightarrow> 'd port_op \<Rightarrow> bool" where
  "undisturbed sid (OpCancel s) \<longleftrightarrow> s \<noteq> sid"
| "undisturbed sid OpClose \<longleftrightarrow> False"
| "undisturbed sid (OpPullSettle s r) \<longleftrightarrow> s = sid \<longrightarrow> good_transfer r"
| "undisturbed sid _ \<longleftrightarrow> True"

text \<open>The chunks that arrive for the stream, and those its consumer takes, as lists of at most one.\<close>

fun arrival :: "nat \<Rightarrow> 'd port_op \<Rightarrow> byte list list" where
  "arrival sid (OpPullSettle s (Inr (UIn status (Some chunk)))) = (if s = sid then [chunk] else [])"
| "arrival sid _ = []"

fun removal :: "nat \<Rightarrow> 'd port_op \<Rightarrow> byte list list \<Rightarrow> byte list list" where
  "removal sid (OpTake s) q = (if s = sid then take 1 q else [])"
| "removal sid _ q = []"

primrec taken :: "'d usb \<Rightarrow> nat \<Rightarrow> 'd port_op list \<Rightarrow> 'd port \<Rightarrow> byte list list" where
  "taken u sid [] p = []"
| "taken u sid (op # ops) p =
     removal sid op (is_queue (in_streams p ! sid)) @ taken u sid ops (port_step u op p)"

definition live_stream :: "nat \<Rightarrow> 'd port \<Rightarrow> bool" where
  "live_stream sid p \<longleftrightarrow> sid < length (in_streams p) \<and> is_state (in_streams p ! sid) = Live"

abbreviation queue_of :: "nat \<Rightarrow> 'd port \<Rightarrow> byte list list" where
  "queue_of sid p \<equiv> is_queue (in_streams p ! sid)"

lemma talks_streams: "talks p p' \<Longrightarrow> in_streams p' = in_streams p"
  by (simp add: talks_def)

lemma map_in_nth: "in_streams (map_in s f p) ! sid =
    (if s = sid \<and> sid < length (in_streams p) then f (in_streams p ! sid) else in_streams p ! sid)"
  by (simp add: map_in_def nth_update_if)

lemma map_in_length [simp]: "length (in_streams (map_in s f p)) = length (in_streams p)"
  by (simp add: map_in_def)

lemma pull_fail_other: "s \<noteq> sid \<Longrightarrow> in_streams (pull_fail s e p) ! sid = in_streams p ! sid"
  "length (in_streams (pull_fail s e p)) = length (in_streams p)"
  by (simp_all add: pull_fail_def read_onError_def map_in_nth)

lemma pull_data_other: "s \<noteq> sid \<Longrightarrow> in_streams (pull_data s d p) ! sid = in_streams p ! sid"
  "length (in_streams (pull_data s d p)) = length (in_streams p)"
  by (auto simp: pull_data_def pull_fail_other map_in_nth split: option.splits)

lemma pull_settle_other: "s \<noteq> sid \<Longrightarrow> in_streams (pull_settle s r p) ! sid = in_streams p ! sid"
  "length (in_streams (pull_settle s r p)) = length (in_streams p)"
  by (cases "(s, r, p)" rule: pull_settle.cases; simp add: pull_fail_other pull_data_other)+

lemma pull_settle_good:
  assumes "live_stream sid p" and "good_transfer r"
  shows "live_stream sid (pull_settle sid r p) \<and>
    queue_of sid (pull_settle sid r p) = queue_of sid p @ arrival sid (OpPullSettle sid r)"
proof -
  obtain status data where r: "r = Inr (UIn status data)" "status = ''ok''" "data \<noteq> Some []"
    using assms(2) by (auto simp: good_transfer_def split: sum.splits usb_reply.splits)
  show ?thesis
  proof (cases data)
    case None
    with r assms(1) show ?thesis by (simp add: pull_data_def)
  next
    case (Some chunk)
    with r assms(1) show ?thesis
      by (auto simp: pull_data_def in_enqueue_def live_stream_def map_in_nth)
  qed
qed

lemma arrival_other: "s \<noteq> sid \<Longrightarrow> arrival sid (OpPullSettle s r) = []"
  by (cases r; simp; cases "projr r"; simp; cases "reply_data (projr r)"; simp)

lemma step_live:
  assumes "live_stream sid p" and "undisturbed sid op"
  shows "live_stream sid (port_step u op p) \<and>
    removal sid op (queue_of sid p) @ queue_of sid (port_step u op p) = queue_of sid p @ arrival sid op"
proof (cases op)
  case (OpPullSettle s r)
  then show ?thesis
    using assms pull_settle_good [of sid p r] pull_settle_other(1) [of s sid r p] pull_settle_other(2) [of s r p]
    by (cases "s = sid") (auto simp: live_stream_def arrival_other)
next
  case (OpTake s)
  then show ?thesis
    using assms by (cases "queue_of sid p") (auto simp: live_stream_def map_in_nth)
next
  case (OpOpen o1)
  then show ?thesis using assms by (simp add: talks_streams [OF talks_open] live_stream_def)
next
  case (OpReconfigure pt)
  then show ?thesis using assms by (simp add: talks_streams [OF talks_reconfigure] live_stream_def)
next
  case (OpSetSignals pt)
  then show ?thesis using assms by (simp add: talks_streams [OF talks_setSignals] live_stream_def)
next
  case (OpPull s)
  then show ?thesis using assms by (simp add: talks_streams [OF talks_call] live_stream_def)
next
  case (OpWrite c)
  then show ?thesis using assms by (simp add: talks_streams [OF talks_call] live_stream_def)
next
  case OpForget
  then show ?thesis using assms by (simp add: talks_streams [OF talks_call] live_stream_def port_forget_def)
next
  case (OpWriteSettle s r)
  then show ?thesis using assms
    by (cases "(s, r, p)" rule: write_settle.cases) (auto simp: live_stream_def write_onError_def)
next
  case OpReadable
  then show ?thesis using assms
    by (auto simp: live_stream_def get_readable_def Let_def nth_append split: option.splits)
next
  case OpWritable
  then show ?thesis using assms
    by (auto simp: live_stream_def get_writable_def Let_def split: option.splits)
qed (use assms in \<open>auto simp: live_stream_def map_in_nth\<close>)

lemma stream_fifo:
  assumes "live_stream sid p" and "list_all (undisturbed sid) ops"
  shows "live_stream sid (port_run u ops p) \<and>
    taken u sid ops p @ queue_of sid (port_run u ops p) = queue_of sid p @ concat (map (arrival sid) ops)"
  using assms
proof (induction ops arbitrary: p)
  case Nil
  then show ?case by (simp add: port_run_def)
next
  case (Cons op ops)
  let ?p = "port_step u op p"
  have s: "live_stream sid ?p"
      "removal sid op (queue_of sid p) @ queue_of sid ?p = queue_of sid p @ arrival sid op"
    using step_live [of sid p op u] Cons.prems by simp_all
  have "taken u sid ops ?p @ queue_of sid (port_run u ops ?p) =
      queue_of sid ?p @ concat (map (arrival sid) ops)" "live_stream sid (port_run u ops ?p)"
    using Cons.IH [OF s(1)] Cons.prems(2) by simp_all
  then show ?case using s(2) unfolding port_run_def by simp
qed

text \<open>
  C3. Whatever the page does to the port meanwhile, short of closing it or cancelling the stream, the
  RNode read loop on a stream of the polyfill receives exactly the frames the device sent, however
  the USB transfers cut them and however the reads and the transfers interleave.
\<close>

theorem polyfill_delivers_frames:
  assumes "live_stream sid p" and "queue_of sid p = []" and "list_all (undisturbed sid) ops"
    and "queue_of sid (port_run u ops p) = []"
    and "concat (concat (map (arrival sid) ops)) = wire items" and "\<forall>(n, d) \<in> set items. fend \<notin> set n"
  shows "readLoop init_reader (map Chunk (taken u sid ops p)) =
    (init_reader, map (\<lambda>(n, d). FrameReceived d) items, LoopWaiting)"
proof -
  have "concat (taken u sid ops p) = wire items"
    using stream_fifo [OF assms(1,3), of u] assms(2,4,5) by simp
  then show ?thesis
    using rx.feed_chunked_frames [OF assms(6), of "taken u sid ops p"]
    by (simp add: wire_eq readLoop_chunks read.feed_chunks_concat)
qed

definition live_port :: "bool port" where
  "live_port = (cdc_port True)\<lparr>readable := Some 0, in_streams :=
     [\<lparr>is_state = Live, is_queue = [], is_mark = Fin 255, is_locked = True\<rparr>]\<rparr>"

definition arrives :: "byte list \<Rightarrow> bool port_op" where
  "arrives chunk = OpPullSettle 0 (Inr (UIn ''ok'' (Some chunk)))"

definition cut_frame :: "bool port_op list" where
  "cut_frame = [arrives [0x11, 0xC0, 0x48], OpTake 0, arrives [0xDB], arrives [0xDC, 0xC0], OpTake 0, OpTake 0]"

lemma cut_frame_drained: "queue_of 0 (port_run cdc_usb cut_frame live_port) = []"
  by (simp add: port_run_def cut_frame_def arrives_def live_port_def pull_data_def in_enqueue_def map_in_def)

theorem polyfill_delivers_frames_witness:
  "readLoop init_reader (map Chunk (taken cdc_usb 0 cut_frame live_port)) =
    (init_reader, [FrameReceived [0x48, 0xC0]], LoopWaiting)"
proof -
  have "live_stream 0 live_port" "queue_of 0 live_port = []" by (simp_all add: live_stream_def live_port_def)
  moreover have "list_all (undisturbed 0) cut_frame"
    by (simp add: cut_frame_def arrives_def good_transfer_def)
  moreover have "concat (concat (map (arrival 0) cut_frame)) = wire [([0x11], [0x48, 0xC0])]"
    by (simp add: cut_frame_def arrives_def wire_eq kiss_escape_def)
  ultimately show ?thesis
    using polyfill_delivers_frames [of 0 live_port cut_frame cdc_usb "[([0x11], [0x48, 0xC0])]"]
      cut_frame_drained by simp
qed

end
