(* ===== verification/RNode_Port_Props.thy ===== *)
theory RNode_Port_Props
  imports RNode_Port WebSerial_Session
begin

text \<open>
  A session over a USB device: who holds which lock, what \<open>close\<close> leaves behind, and a request that
  gets its response through the polyfill, the read loop and the callback table together.
\<close>

subsection \<open>Everything that can happen to a session\<close>

datatype 'd session_op =
    SRequest int "int list"
  | SSend "int list"
  | SPair
  | SWriteEnd "string + usb_reply"
  | SRead
  | SPull nat
  | SPullEnd nat "string + usb_reply"
  | SDevice "'d \<Rightarrow> 'd"
  | SClose

primrec session_step :: "'d usb \<Rightarrow> (int \<Rightarrow> bool) \<Rightarrow> 'd session_op \<Rightarrow> 'd session \<Rightarrow> 'd session" where
  "session_step u pc (SRequest c d) s = fst (session_request u c d s)"
| "session_step u pc (SSend d) s = fst (session_send u d s)"
| "session_step u pc SPair s = write_begin u (createKissFrame [CMD_BT_CTRL, 0x02])
     (s\<lparr>node := fst (startBluetoothPairing (can_write s) (node s))\<rparr>)"
| "session_step u pc (SWriteEnd r) s = write_end r s"
| "session_step u pc SRead s = read_turn pc s"
| "session_step u pc (SPull i) s = s\<lparr>sport := fst (device_call u (pull_call (sport s) i) (sport s))\<rparr>"
| "session_step u pc (SPullEnd i r) s = s\<lparr>sport := pull_settle i r (sport s)\<rparr>"
| "session_step u pc (SDevice f) s = s\<lparr>sport := (sport s)\<lparr>device := f (device (sport s))\<rparr>\<rparr>"
| "session_step u pc SClose s = rnode_close u s"

definition session_run :: "'d usb \<Rightarrow> (int \<Rightarrow> bool) \<Rightarrow> 'd session_op list \<Rightarrow> 'd session \<Rightarrow> 'd session" where
  "session_run u pc ops s = fold (session_step u pc) ops s"

lemma session_run_invariant:
  assumes "\<And>op s. P s \<Longrightarrow> P (session_step u pc op s)" and "P s"
  shows "P (session_run u pc ops s)"
  using assms(2) by (induction ops arbitrary: s) (auto simp: session_run_def assms(1))

subsection \<open>Locks\<close>

definition in_locks :: "'d port \<Rightarrow> bool list" where
  "in_locks p = map is_locked (in_streams p)"

definition out_locks :: "'d port \<Rightarrow> bool list" where
  "out_locks p = map os_locked (out_streams p)"

definition unlocked :: "'d port \<Rightarrow> bool" where
  "unlocked p \<longleftrightarrow> True \<notin> set (in_locks p) \<and> True \<notin> set (out_locks p)"

lemma locks_talk: "talks p p' \<Longrightarrow> in_locks p' = in_locks p \<and> out_locks p' = out_locks p"
  by (simp add: talks_def in_locks_def out_locks_def)

lemma locks_fields [simp]:
  "in_locks (p\<lparr>readable := r\<rparr>) = in_locks p" "out_locks (p\<lparr>readable := r\<rparr>) = out_locks p"
  "in_locks (p\<lparr>writable := r\<rparr>) = in_locks p" "out_locks (p\<lparr>writable := r\<rparr>) = out_locks p"
  "in_locks (p\<lparr>device := d\<rparr>) = in_locks p" "out_locks (p\<lparr>device := d\<rparr>) = out_locks p"
  by (simp_all add: in_locks_def out_locks_def)

lemma locks_map_in: "(\<And>s. is_locked (f s) = is_locked s) \<Longrightarrow>
    in_locks (map_in sid f p) = in_locks p \<and> out_locks (map_in sid f p) = out_locks p"
  by (auto simp: map_in_def in_locks_def out_locks_def intro!: nth_equalityI simp: nth_list_update split: if_splits)

lemma locks_map_out: "(\<And>s. os_locked (f s) = os_locked s) \<Longrightarrow>
    in_locks (map_out sid f p) = in_locks p \<and> out_locks (map_out sid f p) = out_locks p"
  by (auto simp: map_out_def in_locks_def out_locks_def intro!: nth_equalityI simp: nth_list_update split: if_splits)

lemma locks_lock [simp]:
  "in_locks (lock_in sid b p) = (in_locks p)[sid := b]" "out_locks (lock_in sid b p) = out_locks p"
  "out_locks (lock_out sid b p) = (out_locks p)[sid := b]" "in_locks (lock_out sid b p) = in_locks p"
  by (auto simp: lock_in_def lock_out_def map_in_def map_out_def in_locks_def out_locks_def
      intro!: nth_equalityI simp: nth_list_update split: if_splits)

lemma locks_errors [simp]: "is_locked (in_error e s) = is_locked s" "os_locked (out_error e t) = os_locked t"
  by (simp_all add: in_error_def out_error_def)

lemma locks_pull_fail [simp]: "in_locks (pull_fail i e p) = in_locks p" "out_locks (pull_fail i e p) = out_locks p"
  using locks_map_in [of "in_error e" i p] by (simp_all add: pull_fail_def read_onError_def)

lemma locks_pull_data [simp]: "in_locks (pull_data i d p) = in_locks p" "out_locks (pull_data i d p) = out_locks p"
proof -
  have "is_locked s' = is_locked s" if "in_enqueue c s = Some s'" for c s s'
    using that by (auto simp: in_enqueue_def split: if_splits)
  then have "in_locks (map_in i (\<lambda>_. s') p) = in_locks p \<and> out_locks (map_in i (\<lambda>_. s') p) = out_locks p"
    if "i < length (in_streams p)" "in_enqueue c (in_streams p ! i) = Some s'" for c s'
    using that by (auto simp: map_in_def in_locks_def out_locks_def intro!: nth_equalityI simp: nth_list_update split: if_splits)
  then show "in_locks (pull_data i d p) = in_locks p" "out_locks (pull_data i d p) = out_locks p"
    by (auto simp: pull_data_def split: option.splits)
qed

lemma locks_pull [simp]: "in_locks (pull_settle i r p) = in_locks p" "out_locks (pull_settle i r p) = out_locks p"
  by (cases "(i, r, p)" rule: pull_settle.cases; simp)+

lemma locks_write [simp]: "in_locks (write_settle i r p) = in_locks p" "out_locks (write_settle i r p) = out_locks p"
  by (cases "(i, r, p)" rule: write_settle.cases;
      auto simp: write_onError_def locks_map_out [where f = "out_error _"])+

lemma locks_cancel: "in_locks (fst (cancel_readable p)) = in_locks p \<and> out_locks (fst (cancel_readable p)) = out_locks p"
proof -
  have "is_locked ((fst \<circ> in_cancel) s) = is_locked s" for s
    by (auto simp: in_cancel_def split: stream_state.splits)
  note l = locks_map_in [of "fst \<circ> in_cancel", OF this]
  show ?thesis by (simp add: cancel_readable_def l split: option.splits)
qed

lemma locks_abort: "in_locks (fst (abort_writable p)) = in_locks p \<and> out_locks (fst (abort_writable p)) = out_locks p"
proof -
  have "os_locked ((fst \<circ> out_abort) s) = os_locked s" for s by (simp add: out_abort_def)
  note l = locks_map_out [of "fst \<circ> out_abort", OF this]
  show ?thesis by (simp add: abort_writable_def l split: option.splits)
qed

lemma locks_close: "in_locks (fst (port_close u p)) = in_locks p \<and> out_locks (fst (port_close u p)) = out_locks p"
proof -
  obtain p1 r1 where c: "cancel_readable p = (p1, r1)" by fastforce
  obtain p2 r2 where a: "abort_writable p1 = (p2, r2)" by fastforce
  let ?p = "p2\<lparr>readable := None, writable := None\<rparr>"
  have "in_locks p2 = in_locks p \<and> out_locks p2 = out_locks p"
    using locks_cancel [of p] locks_abort [of p1] c a by simp
  moreover have "in_locks (fst (release_device u ?p)) = in_locks p2 \<and> out_locks (fst (release_device u ?p)) = out_locks p2"
    using locks_talk [OF talks_release [of ?p u]] by simp
  ultimately show ?thesis
    by (auto simp: port_close_def c a Let_def split: sum.splits prod.splits)
qed

subsection \<open>Who holds a lock\<close>

text \<open>Exactly the named stream is locked, if one is named.\<close>

definition locked_by :: "nat option \<Rightarrow> bool list \<Rightarrow> bool" where
  "locked_by r ls \<longleftrightarrow> (\<forall>i < length ls. ls ! i \<longleftrightarrow> r = Some i) \<and> (\<forall>i. r = Some i \<longrightarrow> i < length ls)"

definition writer_on :: "'d session \<Rightarrow> nat option" where
  "writer_on s = (if in_flight s = None then None else out_on s)"

definition session_ok :: "'d session \<Rightarrow> bool" where
  "session_ok s \<longleftrightarrow> port_ok (sport s) \<and> rnode_inv (node s) \<and>
     locked_by (reader_on s) (in_locks (sport s)) \<and> locked_by (writer_on s) (out_locks (sport s)) \<and>
     (in_flight s \<noteq> None \<longrightarrow> out_on s \<noteq> None) \<and>
     (\<forall>w. out_on s = Some w \<longrightarrow> w < length (out_locks (sport s)))"

lemma locked_by_None: "locked_by None ls \<longleftrightarrow> True \<notin> set ls"
  by (auto simp: locked_by_def in_set_conv_nth)

lemma locked_by_take: "locked_by None ls \<Longrightarrow> i < length ls \<Longrightarrow> locked_by (Some i) (ls[i := True])"
  by (auto simp: locked_by_def nth_list_update)

lemma locked_by_release: "locked_by (Some i) ls \<Longrightarrow> locked_by None (ls[i := False])"
  by (auto simp: locked_by_def nth_list_update)

lemma locked_by_new: "locked_by None ls \<Longrightarrow> locked_by None (ls @ [False])"
  by (auto simp: locked_by_None)

lemma writer_on_fields [simp]:
  "writer_on (s\<lparr>sport := p\<rparr>) = writer_on s" "writer_on (s\<lparr>node := n\<rparr>) = writer_on s"
  "writer_on (s\<lparr>rx_state := r\<rparr>) = writer_on s" "writer_on (s\<lparr>reader_on := i\<rparr>) = writer_on s"
  by (simp_all add: writer_on_def)

lemma session_ok_port: "session_ok s \<Longrightarrow> port_ok p \<Longrightarrow> in_locks p = in_locks (sport s) \<Longrightarrow>
    out_locks p = out_locks (sport s) \<Longrightarrow> session_ok (s\<lparr>sport := p\<rparr>)"
  by (simp add: session_ok_def)

lemma session_ok_node: "session_ok s \<Longrightarrow> rnode_inv n \<Longrightarrow> session_ok (s\<lparr>node := n\<rparr>)"
  by (simp add: session_ok_def)

lemma session_ok_talk: "session_ok s \<Longrightarrow> talks (sport s) p \<Longrightarrow> session_ok (s\<lparr>sport := p\<rparr>)"
  using talks_ok [of "sport s" p] locks_talk [of "sport s" p] by (simp add: session_ok_port session_ok_def)

lemma port_ok_lock_in: "port_ok p \<Longrightarrow> port_ok (lock_in sid b p)"
  using port_ok_step [of p undefined "OpLockIn sid b"] by (simp add: lock_in_def)

lemma port_ok_lock_out: "port_ok p \<Longrightarrow> port_ok (lock_out sid b p)"
  by (simp add: lock_out_def port_ok_map_out)

lemma can_write_free: "session_ok s \<Longrightarrow> can_write s \<Longrightarrow> in_flight s = None"
  by (auto simp: session_ok_def can_write_def writer_on_def locked_by_def out_locks_def split: option.splits if_splits)

lemma session_ok_write_begin:
  assumes "session_ok s"
  shows "session_ok (write_begin u bytes s)"
proof (cases "can_write s")
  case True
  then obtain w where w: "out_on s = Some w" by (auto simp: can_write_def split: option.splits)
  let ?p = "lock_out w True (sport s)"
  have free: "in_flight s = None" by (rule can_write_free [OF assms True])
  with assms w have "locked_by (Some w) ((out_locks (sport s))[w := True])"
    by (intro locked_by_take) (simp_all add: session_ok_def writer_on_def)
  moreover have "port_ok ?p" using assms by (simp add: session_ok_def port_ok_lock_out)
  ultimately have t: "session_ok (s\<lparr>sport := ?p, in_flight := Some bytes\<rparr>)"
    using assms w by (simp add: session_ok_def writer_on_def)
  let ?q = "fst (device_call u (write_call ?p bytes) ?p)"
  have eq: "s\<lparr>sport := ?q, in_flight := Some bytes\<rparr> = s\<lparr>sport := ?p, in_flight := Some bytes\<rparr>\<lparr>sport := ?q\<rparr>"
    by (cases s) simp
  have "session_ok (s\<lparr>sport := ?q, in_flight := Some bytes\<rparr>)"
    unfolding eq by (rule session_ok_talk [OF t]) (simp add: talks_call)
  then show ?thesis by (simp add: write_begin_def w True Let_def)
next
  case False
  with assms show ?thesis by (simp add: write_begin_def split: option.splits)
qed

lemma session_ok_write_end:
  assumes "session_ok s"
  shows "session_ok (write_end r s)"
proof (cases "in_flight s")
  case None
  with assms show ?thesis by (simp add: write_end_def split: option.splits)
next
  case (Some b)
  with assms obtain w where w: "out_on s = Some w" by (auto simp: session_ok_def)
  have "locked_by None ((out_locks (sport s))[w := False])"
    using assms w Some by (intro locked_by_release) (simp add: session_ok_def writer_on_def)
  then show ?thesis
    using assms w Some
    by (simp add: write_end_def session_ok_def writer_on_def port_ok_lock_out port_ok_write_settle)
qed

lemma session_ok_release:
  assumes "session_ok s"
  shows "session_ok (release_reader s)"
proof (cases "reader_on s")
  case (Some sid)
  then have "locked_by None ((in_locks (sport s))[sid := False])"
    using assms by (intro locked_by_release) (simp add: session_ok_def)
  with assms Some show ?thesis
    by (simp add: release_reader_def session_ok_def port_ok_lock_in)
qed (use assms in \<open>simp add: release_reader_def\<close>)

lemma rnode_inv_events: "rnode_inv n \<Longrightarrow> rnode_inv (foldl (dispatch_event pc) n es)"
  by (induction es arbitrary: n) (auto intro: rnode_step_inv receive)

lemma session_ok_take:
  assumes "session_ok s" and "is_queue (in_streams (sport s) ! sid) = chunk # rest"
  shows "session_ok (take_chunk pc sid chunk rest s)"
proof -
  have q: "map_in sid (\<lambda>st. st\<lparr>is_queue := rest\<rparr>) (sport s) = port_step undefined (OpTake sid) (sport s)"
    using assms(2) by (simp add: map_in_def)
  have "port_ok (port_step undefined (OpTake sid) (sport s))"
    using assms(1) by (intro port_ok_step) (simp add: session_ok_def)
  then have "session_ok (s\<lparr>sport := map_in sid (\<lambda>st. st\<lparr>is_queue := rest\<rparr>) (sport s)\<rparr>)"
    using locks_map_in [of "\<lambda>st. st\<lparr>is_queue := rest\<rparr>" sid "sport s"] unfolding q [symmetric]
    by (intro session_ok_port [OF assms(1)]) simp_all
  then show ?thesis
    using assms(1)
    by (simp add: take_chunk_def session_ok_def rnode_inv_events split: prod.split)
qed

lemma session_ok_step: "session_ok s \<Longrightarrow> session_ok (session_step u pc op s)"
proof (cases op)
  case (SRequest c d)
  assume ok: "session_ok s"
  then have "rnode_inv (fst (sendCommand (can_write s) c d (node s)))"
    by (simp add: session_ok_def rnode_inv_request)
  from session_ok_write_begin [OF session_ok_node [OF ok this]] SRequest show ?thesis
    by (simp add: session_request_def case_prod_beta)
next
  case (SSend d)
  assume ok: "session_ok s"
  then have "rnode_inv (fst (sendKissCommand (can_write s) d (node s)))"
    unfolding session_ok_def using rnode_step_inv [OF rnode_step.send] by blast
  from session_ok_write_begin [OF session_ok_node [OF ok this]] SSend show ?thesis
    by (simp add: session_send_def case_prod_beta)
next
  case SPair
  assume ok: "session_ok s"
  then have "rnode_inv (fst (startBluetoothPairing (can_write s) (node s)))"
    unfolding session_ok_def using rnode_step_inv [OF rnode_step.pair] by blast
  from session_ok_write_begin [OF session_ok_node [OF ok this]] SPair show ?thesis by simp
next
  case (SWriteEnd r)
  assume "session_ok s"
  with SWriteEnd show ?thesis by (simp add: session_ok_write_end)
next
  case SRead
  assume "session_ok s"
  with SRead show ?thesis
    by (auto simp: read_turn_def session_ok_release session_ok_take split: option.splits list.splits)
next
  case (SPull i)
  assume "session_ok s"
  with SPull show ?thesis by (simp add: session_ok_talk talks_call)
next
  case (SPullEnd i r)
  assume ok: "session_ok s"
  then have "port_ok (sport s)" by (simp add: session_ok_def)
  with SPullEnd show ?thesis by (simp add: session_ok_port [OF ok] port_ok_pull_settle)
next
  case (SDevice f)
  assume "session_ok s"
  with SDevice show ?thesis by (simp add: session_ok_talk)
next
  case SClose
  assume "session_ok s"
  then have ok: "session_ok (release_reader s)" by (rule session_ok_release)
  then have "port_ok (fst (port_close u (sport (release_reader s))))"
    by (intro port_ok_close) (simp add: session_ok_def)
  from session_ok_port [OF ok this] locks_close [of u "sport (release_reader s)"] SClose
  show ?thesis by (simp add: rnode_close_def Let_def)
qed

lemma in_locks_new: "in_locks (fst (get_readable u p)) = in_locks p \<or> in_locks (fst (get_readable u p)) = in_locks p @ [False]"
    "out_locks (fst (get_readable u p)) = out_locks p"
  by (auto simp: get_readable_def in_locks_def out_locks_def Let_def split: option.splits)

lemma out_locks_new: "out_locks (fst (get_writable u p)) = out_locks p \<or> out_locks (fst (get_writable u p)) = out_locks p @ [False]"
    "in_locks (fst (get_writable u p)) = in_locks p"
  by (auto simp: get_writable_def in_locks_def out_locks_def Let_def split: option.splits)

lemma getter_results:
  "get_readable u p = (p', Inr r) \<Longrightarrow> r = readable p'" "get_writable u p = (p', Inr w) \<Longrightarrow> w = writable p'"
  by (auto simp: get_readable_def get_writable_def Let_def split: option.splits if_splits)

lemma port_ok_bounds: "port_ok p \<Longrightarrow> readable p = Some i \<Longrightarrow> i < length (in_locks p)"
    "port_ok p \<Longrightarrow> writable p = Some i \<Longrightarrow> i < length (out_locks p)"
  by (simp_all add: port_ok_def streams_ok_def in_locks_def out_locks_def)

lemma session_start:
  assumes ok: "port_ok p" and un: "unlocked p" and s: "new_rnode u p = Inr s"
  shows "session_ok s"
proof -
  obtain p1 sid where r: "get_readable u p = (p1, Inr (Some sid))"
    using s by (auto simp: new_rnode_def split: prod.splits sum.splits option.splits)
  obtain p2 w where g: "get_writable u (lock_in sid True p1) = (p2, Inr w)"
    using s r by (auto simp: new_rnode_def split: prod.splits sum.splits if_splits)
  have "s = \<lparr>sport = p2, node = init_rnode, rx_state = init_reader, reader_on = Some sid, out_on = w, in_flight = None\<rparr>"
    using s r g by (simp add: new_rnode_def split: if_splits)
  note s = this
  have ok1: "port_ok p1" using port_ok_readable [OF ok, of u] r by simp
  have ok2: "port_ok p2" using port_ok_writable [OF port_ok_lock_in [OF ok1], of u sid True] g by simp
  have l1: "locked_by None (in_locks p1)" "locked_by None (out_locks p1)"
    using un in_locks_new [of u p] locked_by_new r by (auto simp: unlocked_def locked_by_None)
  have "sid < length (in_locks p1)" using port_ok_bounds(1) [OF ok1, of sid] getter_results(1) [OF r] by simp
  with l1(1) have "locked_by (Some sid) (in_locks p2)"
    using out_locks_new(2) [of u "lock_in sid True p1"] g by (simp add: locked_by_take)
  moreover have "locked_by None (out_locks p2)"
    using out_locks_new(1) [of u "lock_in sid True p1"] g l1(2) locked_by_new by (auto simp: locked_by_None)
  ultimately show ?thesis
    using ok2 port_ok_bounds(2) [OF ok2] getter_results(2) [OF g]
    by (simp add: s session_ok_def writer_on_def rnode_inv_init)
qed

lemma fromSerialPort_ok:
  assumes "port_ok p" and "unlocked p" and "fromSerialPort u p = Inr s"
  shows "session_ok s"
proof -
  obtain p' where o: "port_open u (Some rnode_options) p = (p', Inr ())"
    using assms(3) by (auto simp: fromSerialPort_def split: prod.splits sum.splits)
  then have t: "talks p p'" using talks_open [of p u "Some rnode_options"] by simp
  with assms(1,2) have "port_ok p'" "unlocked p'"
    using talks_ok [OF t] locks_talk [OF t] by (simp_all add: unlocked_def)
  then show ?thesis using assms(3) o by (intro session_start) (simp_all add: fromSerialPort_def)
qed

text \<open>
  C10. Whatever happens to a session - requests, commands, transfers that settle in any way, reads, a
  changed device, a close - its reader holds the lock of the one readable stream it was made with or none,
  no other is locked, the writer's lock is held exactly while a write is in flight, and the callback
  table and the port keep their shape.
\<close>

theorem session_holds_its_locks:
  assumes "port_ok p" and "unlocked p" and "fromSerialPort u p = Inr s"
  shows "session_ok (session_run u pinCallback ops s)"
  by (rule session_run_invariant [where P = session_ok])
    (rule session_ok_step, assumption, rule fromSerialPort_ok [OF assms])

subsection \<open>Closing a session\<close>

lemma session_unlocked: "session_ok s \<Longrightarrow> reader_on s = None \<Longrightarrow> in_flight s = None \<Longrightarrow> unlocked (sport s)"
  by (simp add: session_ok_def writer_on_def unlocked_def locked_by_None)

lemma release_reader_fields [simp]:
  "reader_on (release_reader s) = None" "in_flight (release_reader s) = in_flight s"
  "out_on (release_reader s) = out_on s"
  by (simp_all add: release_reader_def split: option.split)

lemma unlocked_none: "port_ok p \<Longrightarrow> unlocked p \<Longrightarrow> \<not> in_locked p \<and> \<not> out_locked p"
proof -
  assume ok: "port_ok p" and "unlocked p"
  then have "in_locks p ! i = False" if "i < length (in_locks p)" for i
    using that by (auto simp: unlocked_def in_set_conv_nth)
  moreover have "out_locks p ! i = False" if "i < length (out_locks p)" for i
    using that \<open>unlocked p\<close> by (auto simp: unlocked_def in_set_conv_nth)
  ultimately show ?thesis
    using port_ok_bounds [OF ok] by (auto simp: in_locked_def out_locked_def in_locks_def out_locks_def)
qed

text \<open>A port that was just opened and has no streams makes a session with fresh ones.\<close>

lemma new_session:
  assumes "u_opened u (device q)" and "readable q = None" and "writable q = None"
    and "serialOptions q = Some rnode_options"
  shows "\<exists>s1 i. new_rnode u q = Inr s1 \<and> reader_on s1 = Some i \<and> live_stream i (sport s1) \<and>
    queue_of i (sport s1) = [] \<and> can_write s1"
proof -
  have "\<not> bad_mark (buffer_mark rnode_options)"
    by (simp add: bad_mark_def buffer_mark_def rnode_options_def no_options_def nullish_def kDefaultBufferSize_def)
  with assms show ?thesis
    by (simp add: new_rnode_def get_readable_def get_writable_def lock_in_def map_in_def Let_def
        live_stream_def can_write_def)
qed

lemma options_andThen: "(\<And>p. serialOptions (fst (m p)) = serialOptions p) \<Longrightarrow>
    (\<And>x p. serialOptions (fst (f x p)) = serialOptions p) \<Longrightarrow> serialOptions (fst (andThen m f p)) = serialOptions p"
  by (simp add: andThen_def split: prod.split sum.split) (metis fst_conv)

lemma options_call: "serialOptions (fst (device_call u c p)) = serialOptions p"
  by (simp add: device_call_def split: prod.split sum.split)

lemma options_setSignals: "serialOptions (fst (setSignals u patch p)) = serialOptions p"
proof -
  let ?p = "p\<lparr>outputSignals := assign_signals (outputSignals p) patch\<rparr>"
  have "serialOptions (fst (setSignals u patch p)) = serialOptions ?p"
    unfolding setSignals_def
    by (intro options_andThen) (simp_all add: line_state_def send_break_def options_andThen options_call)
  then show ?thesis by simp
qed

lemma options_setLineCoding: "serialOptions (fst (setLineCoding u p)) = serialOptions p"
  by (simp add: setLineCoding_def options_andThen options_call split: option.split)

lemma options_setup: "serialOptions (fst (port_setup u p)) = serialOptions p"
  unfolding port_setup_def
  by (intro options_andThen) (simp_all add: select_configuration_def claim_control_def claim_transfer_def
      options_call options_setLineCoding options_setSignals)

lemma open_keeps_options: "port_open u opts q = (q', Inr ()) \<Longrightarrow> serialOptions q' = opts"
  using options_setup [of u "q\<lparr>serialOptions := opts\<rparr>"]
  by (auto simp: port_open_def Let_def split: option.splits sum.splits prod.splits if_splits)

text \<open>
  A session without a write in flight closes for good: the reader and both streams are given up,
  nothing stays locked, and the device is closed unless it refused a call of the closing. When the port
  is then opened again and the device reports open, a new session gets a fresh, live and empty stream
  to read and can write.
\<close>

theorem closed_session_reopens:
  assumes "port_ok p" and "unlocked p" and "fromSerialPort u p = Inr s0" and "closes u"
    and "s = session_run u pinCallback ops s0" and "in_flight s = None"
    and "q = sport (rnode_close u s)"
  shows "reader_on (rnode_close u s) = None \<and> unlocked q \<and> readable q = None \<and> writable q = None \<and>
    (snd (port_close u (sport (release_reader s))) = Inr () \<longrightarrow> \<not> u_opened u (device q)) \<and>
    (port_open u (Some rnode_options) q = (q', Inr ()) \<and> u_opened u (device q') \<longrightarrow>
      (\<exists>s1 i. fromSerialPort u q = Inr s1 \<and> reader_on s1 = Some i \<and> live_stream i (sport s1) \<and>
        queue_of i (sport s1) = [] \<and> can_write s1))"
proof -
  let ?r = "release_reader s"
  have "session_ok s" unfolding assms(5)
    by (rule session_run_invariant [where P = session_ok])
      (rule session_ok_step, assumption, rule fromSerialPort_ok [OF assms(1-3)])
  then have okr: "session_ok ?r" by (rule session_ok_release)
  then have okp: "port_ok (sport ?r)" by (simp add: session_ok_def)
  have un: "unlocked (sport ?r)" using session_unlocked [OF okr] assms(6) by simp
  have q: "q = fst (port_close u (sport ?r))" by (simp add: assms(7) rnode_close_def Let_def)
  obtain r where c: "port_close u (sport ?r) = (q, r)" using q by (cases "port_close u (sport ?r)") simp
  note closed = close_unlocked [OF okp assms(4) _ _ c]
  have one: "reader_on (rnode_close u s) = None \<and> unlocked q \<and> readable q = None \<and> writable q = None"
    using closed unlocked_none [OF okp un] un locks_close [of u "sport ?r"]
    by (simp add: rnode_close_def Let_def unlocked_def c)
  have two: "snd (port_close u (sport ?r)) = Inr () \<longrightarrow> \<not> u_opened u (device q)"
    using closed unlocked_none [OF okp un] by (simp add: c)
  have "\<exists>s1 i. fromSerialPort u q = Inr s1 \<and> reader_on s1 = Some i \<and> live_stream i (sport s1) \<and>
      queue_of i (sport s1) = [] \<and> can_write s1"
    if o: "port_open u (Some rnode_options) q = (q', Inr ())" and d: "u_opened u (device q')"
  proof -
    have "talks q q'" using talks_open [of q u "Some rnode_options"] o by simp
    with one have "readable q' = None" "writable q' = None" by (simp_all add: talks_def)
    from new_session [OF d this open_keeps_options [OF o]] o show ?thesis by (simp add: fromSerialPort_def)
  qed
  with one two show ?thesis by blast
qed

text \<open>
  \<open>close\<close> while a write is in flight does nothing and says nothing: the locked writable stream makes the
  port's \<open>close\<close> throw, which is swallowed. The device is left as it was, and the port goes on handing out
  the readable stream that was cancelled on the way: the loop of the next session reads its end at once.
\<close>

lemma busy_close_keeps_device:
  assumes "session_ok s" and "in_flight s \<noteq> None" and "writable (sport s) = out_on s"
    and "readable (sport s) = Some i" and "reader_on s = Some i" and "live_stream i (sport s)"
  shows "let q = sport (rnode_close u s) in device q = device (sport s) \<and> readable q = Some i \<and>
    is_state (in_streams q ! i) = Closed \<and> \<not> is_locked (in_streams q ! i)"
proof -
  let ?r = "release_reader s"
  have okp: "port_ok (sport ?r)" using session_ok_release [OF assms(1)] by (simp add: session_ok_def)
  obtain w where w: "out_on s = Some w" using assms(1,2) by (auto simp: session_ok_def)
  have r: "sport ?r = lock_in i False (sport s)" using assms(5) by (simp add: release_reader_def)
  have fr: "readable (sport ?r) = Some i" "writable (sport ?r) = Some w" "device (sport ?r) = device (sport s)"
    using assms(3,4) w by (simp_all add: r lock_in_def map_in_def)
  have "out_locks (sport s) ! w" "w < length (out_streams (sport s))"
    using assms(1,2) w by (auto simp: session_ok_def writer_on_def locked_by_def out_locks_def)
  then have out: "out_locked (sport ?r)"
    using fr(2) by (simp add: out_locked_def r lock_in_def map_in_def out_locks_def)
  obtain q x where c: "port_close u (sport ?r) = (q, x)" by fastforce
  have st: "in_streams (sport ?r) ! i = (in_streams (sport s) ! i)\<lparr>is_locked := False\<rparr>" "i < length (in_streams (sport ?r))"
    using assms(6) by (simp_all add: r lock_in_def map_in_def live_stream_def)
  have "in_streams q ! i = fst (in_cancel (in_streams (sport ?r) ! i))"
  proof -
    obtain p1 r1 where k: "cancel_readable (sport ?r) = (p1, r1)" by fastforce
    obtain p2 r2 where a: "abort_writable p1 = (p2, r2)" by fastforce
    have "r2 = Inl StreamLocked" using abort_result [of p1] a k out_locked_cancel [of "sport ?r"] out by simp
    then have "q = p2" using c by (auto simp: port_close_def k a split: sum.splits)
    moreover have "in_streams p2 = in_streams p1"
      using a by (auto simp: abort_writable_def split: option.splits)
    ultimately show ?thesis using k st(2) by (auto simp: cancel_readable_def fr map_in_def)
  qed
  moreover have "device q = device (sport s)" "readable q = Some i"
    using close_locked [OF okp _ c] out fr by simp_all
  moreover have "sport (rnode_close u s) = q" using c by (simp add: rnode_close_def Let_def)
  ultimately show ?thesis using st assms(6) by (simp add: in_cancel_def live_stream_def)
qed

text \<open>
  A transfer that fails is not reported: the pending write resolves, so a request whose bytes never
  reached the board is neither answered nor rejected, and every later one is rejected.
\<close>

lemma failed_transfer_silent:
  assumes "session_ok s" and "can_write s" and "session_request u c data s = (s1, p)"
    and "\<not> (\<exists>d. r = Inr d \<and> reply_status d = ''ok'')"
  shows "settled (node (write_end r s1)) p = None \<and> in_flight (write_end r s1) = None \<and>
    \<not> can_write (write_end r s1)"
proof -
  obtain w where w: "out_on s = Some w" using assms(2) by (auto simp: can_write_def split: option.splits)
  have len: "w < length (out_streams (sport s))"
    using assms(1) w by (simp add: session_ok_def out_locks_def)
  have s1: "s1 = write_begin u (createKissFrame (c # data)) (s\<lparr>node := fst (sendCommand True c data (node s))\<rparr>)"
    and p: "p = next_promise (node s)"
    using assms(2,3) sendCommand_fields(4) [of True c data "node s"]
    by (auto simp: session_request_def case_prod_beta)
  have cw: "can_write (s\<lparr>node := n\<rparr>)" for n using assms(2) w by (simp add: can_write_def)
  define d where "d = fst (device_call u (write_call (lock_out w True (sport s)) (createKissFrame (c # data)))
    (lock_out w True (sport s)))"
  have outs: "out_streams d = out_streams (lock_out w True (sport s))"
    unfolding d_def
    using talks_call [of "lock_out w True (sport s)" u "write_call (lock_out w True (sport s)) (createKissFrame (c # data))"]
    by (simp only: talks_def)
  have new: "s1 = s\<lparr>sport := d, node := fst (sendCommand True c data (node s)), in_flight := Some (createKissFrame (c # data))\<rparr>"
    by (simp add: s1 write_begin_def w cw Let_def d_def)
  have live: "out_streams d ! w = (out_streams (sport s) ! w)\<lparr>os_locked := True\<rparr>" "w < length (out_streams d)"
    "os_state (out_streams (sport s) ! w) = Live"
    using len assms(2) w by (simp_all add: outs lock_out_def map_out_def can_write_def)
  have "settled (node s) p = None" using assms(1) by (simp add: p session_ok_def rnode_inv_def)
  moreover have "os_state (out_streams (write_settle w r d) ! w) \<noteq> Live \<and> length (out_streams (write_settle w r d)) = length (out_streams d)"
    using live assms(4) by (cases "(w, r, d)" rule: write_settle.cases)
      (auto simp: write_onError_def map_out_def out_error_def)
  ultimately show ?thesis using live
    by (simp add: new write_end_def w can_write_def lock_out_def map_out_def p)
qed

text \<open>
  A request made while a write is in flight is rejected at once, because the writer is taken; it stays
  in the table all the same, in the place of a request of the same command that was waiting.
\<close>

lemma busy_request_rejected:
  assumes "session_ok s" and "in_flight s \<noteq> None" and "session_request u c data s = (s1, p)"
  shows "settled (node s1) p = Some Rejected \<and> sport s1 = sport s \<and> callbacks (node s1) c = Some (Resolve p)"
proof -
  obtain w where w: "out_on s = Some w" using assms(1,2) by (auto simp: session_ok_def)
  have busy: "\<not> can_write (s\<lparr>node := n\<rparr>)" for n
    using can_write_free [OF assms(1)] assms(2) w by (auto simp: can_write_def)
  then have "\<not> can_write s" using can_write_free [OF assms(1)] assms(2) by blast
  moreover have "settled (node s) (next_promise (node s)) = None"
    using assms(1) by (simp add: session_ok_def rnode_inv_def)
  ultimately show ?thesis
    using assms(3) busy by (auto simp: session_request_def case_prod_beta write_begin_def w)
qed

lemma write_settle_streams: "in_streams (write_settle i r p) = in_streams p"
  by (cases "(i, r, p)" rule: write_settle.cases) (auto simp: write_onError_def)

lemma write_end_frame: "reader_on (write_end r s) = reader_on s" "rx_state (write_end r s) = rx_state s"
  "node (write_end r s) = node s" "in_streams (sport (write_end r s)) = in_streams (sport s)"
  by (simp_all add: write_end_def lock_out_def write_settle_streams split: option.split)

text \<open>
  Once the read loop has ended, for example after a stalled transfer, no request is answered any more,
  those that wait and those that are still made, and none is told.
\<close>

lemma ended_loop_step:
  assumes "reader_on s = None" and "settled (node s) p \<noteq> Some (Resolved r)"
  shows "reader_on (session_step u pc op s) = None \<and> settled (node (session_step u pc op s)) p \<noteq> Some (Resolved r)"
proof -
  have "node (write_begin u b t) = node t \<and> reader_on (write_begin u b t) = reader_on t" for b and t :: "'a session"
    by (simp add: write_begin_def Let_def split: option.split)
  then show ?thesis using assms
    by (cases op) (auto simp: session_request_def session_send_def case_prod_beta read_turn_def write_end_frame
        rnode_close_def Let_def release_reader_def)
qed

lemma ended_loop_never_answers:
  assumes "reader_on s = None" and "settled (node s) p \<noteq> Some (Resolved r)"
  shows "settled (node (session_run u pc ops s)) p \<noteq> Some (Resolved r)"
proof -
  have "reader_on (session_run u pc ops s) = None \<and> settled (node (session_run u pc ops s)) p \<noteq> Some (Resolved r)"
    by (rule session_run_invariant [where P = "\<lambda>s. reader_on s = None \<and> settled (node s) p \<noteq> Some (Resolved r)"])
      (use ended_loop_step assms in blast)+
  then show ?thesis by blast
qed

subsection \<open>A request over the device\<close>

text \<open>
  What may go on while a session waits for a response: transfers that are started and settle, reads, the
  write settling, the device changing. The transfers of the session's stream \<open>sid\<close> bring data.
\<close>

fun calm :: "nat \<Rightarrow> 'd session_op \<Rightarrow> bool" where
  "calm sid (SPullEnd i r) \<longleftrightarrow> i = sid \<longrightarrow> good_transfer r"
| "calm sid (SWriteEnd r) \<longleftrightarrow> True"
| "calm sid SRead \<longleftrightarrow> True"
| "calm sid (SPull i) \<longleftrightarrow> True"
| "calm sid (SDevice f) \<longleftrightarrow> True"
| "calm sid _ \<longleftrightarrow> False"

fun brought :: "nat \<Rightarrow> 'd session_op \<Rightarrow> byte list" where
  "brought sid (SPullEnd i (Inr (UIn status (Some chunk)))) = (if i = sid then chunk else [])"
| "brought sid _ = []"

definition listens :: "nat \<Rightarrow> 'd session \<Rightarrow> bool" where
  "listens sid s \<longleftrightarrow> reader_on s = Some sid \<and> live_stream sid (sport s)"

text \<open>The reader and the table as they will be when what waits in the stream, and \<open>extra\<close>, is read.\<close>

definition drained :: "(int \<Rightarrow> bool) \<Rightarrow> nat \<Rightarrow> 'd session \<Rightarrow> byte list \<Rightarrow> reader \<times> rnode" where
  "drained pc sid s extra =
     (let (r, out) = read_chunk (rx_state s) (concat (queue_of sid (sport s)) @ extra)
      in (r, foldl (dispatch_event pc) (node s) out))"

lemma drained_cong: "rx_state t = rx_state s \<Longrightarrow> node t = node s \<Longrightarrow>
    concat (queue_of sid (sport t)) = concat (queue_of sid (sport s)) @ b \<Longrightarrow> drained pc sid t extra = drained pc sid s (b @ extra)"
  by (simp add: drained_def)

lemma brought_arrival: "brought sid (SPullEnd i r :: 'd session_op) = concat (arrival sid (OpPullSettle i r :: 'd port_op))"
  by (cases r; simp; cases "projr r"; simp; cases "reply_data (projr r)"; simp)

lemma read_turn_listens:
  assumes "listens sid s"
  shows "listens sid (read_turn pc s) \<and> drained pc sid (read_turn pc s) extra = drained pc sid s extra"
proof (cases "queue_of sid (sport s)")
  case Nil
  then have "read_turn pc s = s" using assms by (simp add: read_turn_def listens_def live_stream_def)
  with assms show ?thesis by simp
next
  case (Cons chunk rest)
  then have t: "read_turn pc s = take_chunk pc sid chunk rest s"
    using assms by (simp add: read_turn_def listens_def)
  obtain r out where c: "read_chunk (rx_state s) chunk = (r, out)" by fastforce
  have p: "in_streams (map_in sid (\<lambda>st. st\<lparr>is_queue := rest\<rparr>) (sport s)) ! sid = (in_streams (sport s) ! sid)\<lparr>is_queue := rest\<rparr>"
    using assms by (simp add: map_in_def listens_def live_stream_def)
  show ?thesis
    using assms unfolding t
    by (simp add: take_chunk_def c listens_def live_stream_def p drained_def Cons read.feed_append
        split: prod.split)
qed

lemma calm_step:
  fixes s :: "'d session"
  assumes "listens sid s" and "calm sid op"
  shows "listens sid (session_step u pc op s) \<and>
    drained pc sid (session_step u pc op s) extra = drained pc sid s (brought sid op @ extra)"
proof (cases op)
  case (SPullEnd i r)
  let ?p = "pull_settle i r (sport s)"
  have p: "live_stream sid ?p \<and> queue_of sid ?p = queue_of sid (sport s) @ arrival sid (OpPullSettle i r :: 'd port_op)"
    using assms SPullEnd pull_settle_good [of sid "sport s" r] pull_settle_other(1) [of i sid r "sport s"]
      pull_settle_other(2) [of i r "sport s"]
    by (cases "i = sid") (auto simp: listens_def live_stream_def arrival_other)
  have "drained pc sid (s\<lparr>sport := ?p\<rparr>) extra = drained pc sid s (brought sid (SPullEnd i r :: 'd session_op) @ extra)"
    by (rule drained_cong) (use p in \<open>simp_all add: brought_arrival\<close>)
  with assms(1) SPullEnd p show ?thesis by (simp add: listens_def)
next
  case (SWriteEnd r)
  with assms(1) show ?thesis
    by (simp add: listens_def live_stream_def write_end_frame drained_def)
next
  case SRead
  with read_turn_listens [OF assms(1)] show ?thesis by simp
next
  case (SPull i)
  with assms(1) show ?thesis
    by (simp add: listens_def live_stream_def talks_streams [OF talks_call] drained_def)
next
  case (SDevice f)
  with assms(1) show ?thesis by (simp add: listens_def live_stream_def drained_def)
qed (use assms in simp_all)

lemma calm_run:
  assumes "listens sid s" and "list_all (calm sid) ops"
  shows "drained pc sid (session_run u pc ops s) extra = drained pc sid s (concat (map (brought sid) ops) @ extra)"
  using assms
proof (induction ops arbitrary: s)
  case Nil
  then show ?case by (simp add: session_run_def)
next
  case (Cons op ops)
  then have s: "listens sid (session_step u pc op s)" "\<And>extra. drained pc sid (session_step u pc op s) extra =
      drained pc sid s (brought sid op @ extra)" using calm_step [of sid s op u pc] by auto
  from Cons.IH [OF s(1)] Cons.prems(2) show ?case unfolding session_run_def by (simp add: s(2))
qed

lemma session_request_frame:
  assumes "session_request u c data s = (s1, p)" and "can_write s" and "listens sid s"
  shows "node s1 = fst (sendCommand True c data (node s)) \<and> p = next_promise (node s) \<and>
    rx_state s1 = rx_state s \<and> listens sid s1 \<and> queue_of sid (sport s1) = queue_of sid (sport s)"
proof -
  have s1: "s1 = write_begin u (createKissFrame (c # data)) (s\<lparr>node := fst (sendCommand True c data (node s))\<rparr>)"
    and p: "p = next_promise (node s)"
    using assms(1,2) sendCommand_fields(4) [of True c data "node s"]
    by (auto simp: session_request_def case_prod_beta)
  have "node (write_begin u b t) = node t \<and> rx_state (write_begin u b t) = rx_state t \<and>
      reader_on (write_begin u b t) = reader_on t \<and> in_streams (sport (write_begin u b t)) = in_streams (sport t)"
    for b and t :: "'a session"
    by (auto simp: write_begin_def Let_def lock_out_def talks_streams [OF talks_call] split: option.split)
  with assms(3) show ?thesis by (simp add: s1 p listens_def live_stream_def)
qed

text \<open>
  C5. A request over the polyfill ends: made in any session whose writer is free and whose reader is
  between two frames with nothing waiting, it gets the response the board sends - however the USB
  transfers cut the bytes, whatever noise and answers to other commands come first, and however the
  reads, the transfers and the end of the write interleave.
\<close>

theorem request_over_usb:
  assumes "session_ok s" and "can_write s" and "listens sid s"
    and "rx_state s = init_reader" and "queue_of sid (sport s) = []"
    and "session_request u (command e) (payload e) s = (s1, p)"
    and "list_all (calm sid) ops" and "t = session_run u pinCallback ops s1" and "queue_of sid (sport t) = []"
    and "concat (map (brought sid) ops) = wire (items @ [(noise, c # response)])"
    and "uint c = command e" and "fend \<notin> set noise"
    and "\<forall>(n, d) \<in> set items. fend \<notin> set n \<and> (d = [] \<or> uint (hd d) \<noteq> command e)"
  shows "exchange_result e (node t) p = Some (decode_response e response) \<and>
    callbacks (node t) (command e) = None \<and> rx_state t = init_reader"
proof -
  note f = session_request_frame [OF assms(6,2,3)]
  have ns: "\<forall>(n, d) \<in> set (items @ [(noise, c # response)]). fend \<notin> set n" using assms(12,13) by auto
  have "drained pinCallback sid t [] = drained pinCallback sid s1 (wire (items @ [(noise, c # response)]))"
    using calm_run [of sid s1 ops pinCallback u "[]"] f assms(7,8,10) by simp
  moreover have "read_chunk init_reader (wire (items @ [(noise, c # response)])) =
      (init_reader, map (\<lambda>(n, d). FrameReceived d) (items @ [(noise, c # response)]))"
    using rx.feed_chunked_frames [OF ns, of "[wire (items @ [(noise, c # response)])]"]
    by (simp add: wire_eq read.feed_chunks_concat)
  ultimately have t: "rx_state t = init_reader" "node t = foldl (dispatch_event pinCallback) (node s1)
      (map (\<lambda>(n, d). FrameReceived d) (items @ [(noise, c # response)]))"
    using assms(4,5,9) f by (simp_all add: drained_def)
  have "exchange_send True e (node s) = (node s1, p)"
    using f by (simp add: exchange_send_def prod_eq_iff)
  then have "waits_for (command e) p (node s1)"
    using assms(1) by (intro exchange_waits) (simp_all add: session_ok_def)
  define s' where "s' = foldl (dispatch_event pinCallback) (node s1) (map (\<lambda>(n, d). FrameReceived d) items)"
  have "waits_for (command e) p s'"
    unfolding s'_def by (rule waits_for_others) (use assms(13) \<open>waits_for (command e) p (node s1)\<close> in auto)
  then show ?thesis using assms(11) t
    by (simp add: s'_def [symmetric] dispatch_event_def waits_for_def onCommandReceived_def exchange_result_def)
qed

subsection \<open>A session with the sample device\<close>

definition cdc_session :: "bool session" where
  "cdc_session = \<lparr>sport = (cdc_port True)\<lparr>serialOptions := Some rnode_options,
       outputSignals := \<lparr>dataTerminalReady = Some True, requestToSend = Some False, break_signal = Some False\<rparr>,
       readable := Some 0, writable := Some 0,
       in_streams := [\<lparr>is_state = Live, is_queue = [], is_mark = Fin 255, is_locked = True\<rparr>],
       out_streams := [\<lparr>os_state = Live, os_mark = Fin 255, os_locked = False\<rparr>]\<rparr>,
     node = init_rnode, rx_state = init_reader, reader_on = Some 0, out_on = Some 0, in_flight = None\<rparr>"

lemmas port_flow_defs = port_open_def port_validate_def validateOptions_def isValidBaudRate_def
  isValidDataBits_def isValidStopBits_def isValidParity_def port_setup_def andThen_def device_call_def
  select_configuration_def claim_control_def claim_transfer_def setLineCoding_def setSignals_def line_state_def
  send_break_def open_signals_def assign_signals_def

lemma cdc_session_starts: "fromSerialPort cdc_usb (cdc_port False) = Inr cdc_session"
  by (simp add: fromSerialPort_def new_rnode_def get_readable_def get_writable_def rnode_options_def
      port_flow_defs cdc_defs cdc_session_def bad_mark_def buffer_mark_def nullish_def kDefaultBufferSize_def
      lock_in_def map_in_def Let_def)

lemma cdc_port_free: "port_ok (cdc_port False)" "unlocked (cdc_port False)"
proof -
  show "port_ok (cdc_port False)" by (rule SerialPort_ok [OF cdc_port_eq])
  show "unlocked (cdc_port False)" by (simp add: unlocked_def in_locks_def out_locks_def cdc_defs)
qed

theorem session_holds_its_locks_witness:
  "session_ok (session_run cdc_usb (\<lambda>_. True) [SRequest 0x48 [0], SSend [0x55], SClose] cdc_session)"
  by (rule session_holds_its_locks [OF cdc_port_free cdc_session_starts])

theorem closed_session_reopens_witness:
  "reader_on (rnode_close cdc_usb cdc_session) = None \<and> unlocked (sport (rnode_close cdc_usb cdc_session))"
proof -
  have "cdc_session = session_run cdc_usb (\<lambda>_. True) [] cdc_session" by (simp add: session_run_def)
  moreover have "in_flight cdc_session = None" by (simp add: cdc_session_def)
  ultimately show ?thesis
    using closed_session_reopens [OF cdc_port_free cdc_session_starts cdc_closes _ _ refl] by blast
qed

definition answer_ops :: "bool session_op list" where
  "answer_ops = [SPull 0, SPullEnd 0 (Inr (UIn ''ok'' (Some [0xC0, 0x48]))), SRead,
     SWriteEnd (Inr (UOut ''ok'')), SPullEnd 0 (Inr (UIn ''ok'' (Some [0x80, 0xC0]))), SRead]"

definition sent_session :: "bool session" where
  "sent_session = fst (session_request cdc_usb (command getPlatform) (payload getPlatform) cdc_session)"

lemma cdc_session_ready: "session_ok cdc_session" "can_write cdc_session" "listens 0 cdc_session"
  "queue_of 0 (sport cdc_session) = []" "rx_state cdc_session = init_reader" "next_promise (node cdc_session) = 0"
proof -
  show "session_ok cdc_session" by (rule fromSerialPort_ok [OF cdc_port_free cdc_session_starts])
qed (simp_all add: can_write_def listens_def live_stream_def cdc_session_def init_rnode_def)

lemma sent_session_eq: "session_request cdc_usb (command getPlatform) (payload getPlatform) cdc_session = (sent_session, 0)"
  using session_request_frame [OF _ cdc_session_ready(2,3), of cdc_usb "command getPlatform" "payload getPlatform"]
    cdc_session_ready(6) by (simp add: sent_session_def prod_eq_iff)

lemma sent_session_fields: "reader_on sent_session = Some 0" "rx_state sent_session = init_reader"
  "in_streams (sport sent_session) = [\<lparr>is_state = Live, is_queue = [], is_mark = Fin 255, is_locked = True\<rparr>]"
  "out_on sent_session = Some 0" "in_flight sent_session \<noteq> None"
  by (simp_all add: sent_session_def session_request_def case_prod_beta write_begin_def can_write_def cdc_session_def
      Let_def lock_out_def talks_streams [OF talks_call])

lemma answer_ops_drain: "queue_of 0 (sport (session_run cdc_usb pc answer_ops sent_session)) = []"
  by (simp add: session_run_def answer_ops_def sent_session_fields read_turn_def write_end_frame take_chunk_def
      talks_streams [OF talks_call] pull_data_def in_enqueue_def map_in_def case_prod_beta)

theorem request_over_usb_witness:
  "exchange_result getPlatform (node (session_run cdc_usb (\<lambda>_. True) answer_ops sent_session)) 0 = Some (Inr (Some 0x80))"
proof -
  have "list_all (calm 0) answer_ops" by (simp add: answer_ops_def good_transfer_def)
  moreover have "concat (map (brought 0) answer_ops) = wire ([] @ [([], 0x48 # [0x80])])"
    by (simp add: answer_ops_def wire_eq kiss_escape_def)
  ultimately show ?thesis
    using request_over_usb [OF cdc_session_ready(1-3,5,4) sent_session_eq _ refl answer_ops_drain, of "[]" "[]" "0x48" "[0x80]"]
    by (simp add: getPlatform_def proto_defs first_byte_def)
qed

end
