(* ===== verification/Flasher.thy ===== *)
theory Flasher
  imports Rom Dfu WebSerial
begin

text \<open>
  The page of the RNode flasher (\<open>rnode-flasher/index.html\<close>): what its buttons do with the board. The
  connection to the board is an argument, a state and the operations of \<open>RNode\<close> the page awaits: sending a
  command, a request with its response, detection, waiting. A call may throw, or its promise may never
  settle (\<open>Pending\<close>); then the rest of the handler does not run.
\<close>

subsection \<open>The board and the page\<close>

datatype flow_exn = Thrown string | Pending

text \<open>
  \<open>l_pick\<close> is the browser's port chooser, false when the operator cancels; \<open>l_send\<close> is \<open>sendKissCommand\<close>,
  false when the write throws; \<open>l_request\<close> is \<open>sendCommand\<close> up to its response.
\<close>

record 'b link =
  l_supported :: bool
  l_pick :: "'b \<Rightarrow> 'b \<times> bool"
  l_open :: "'b \<Rightarrow> 'b \<times> bool"
  l_detect :: "'b \<Rightarrow> 'b \<times> bool"
  l_send :: "int list \<Rightarrow> 'b \<Rightarrow> 'b \<times> bool"
  l_request :: "int \<Rightarrow> int list \<Rightarrow> 'b \<Rightarrow> 'b \<times> (flow_exn + byte list)"
  l_wait :: "nat \<Rightarrow> 'b \<Rightarrow> 'b"
  l_close :: "'b \<Rightarrow> 'b"

record flash_config =
  flash_size :: string
  flash_files :: "(string \<times> string) list"

record model_choice =
  model_id :: byte
  mapped_id :: "byte option"
  model_filename :: "string option"
  model_config :: "flash_config option"

record product_choice =
  product_id :: byte
  platform :: int
  product_filename :: "string option"
  product_config :: "flash_config option"

record tnc_config =
  configFrequency :: int
  configBandwidth :: int
  configTxPower :: int
  configSpreadingFactor :: int
  configCodingRate :: int

record 'b flasher =
  board :: 'b
  rnode_kept :: bool
  isFlashing :: bool
  flashingProgress :: int
  isProvisioning :: bool
  isSettingFirmwareHash :: bool
  selectedProduct :: "product_choice option"
  selectedModel :: "model_choice option"
  tnc :: tnc_config
  alerts :: "string list"
  display_image :: "(nat \<Rightarrow> nat \<Rightarrow> bool) option"

type_synonym ('b, 'a) flow = "'b flasher \<Rightarrow> 'b flasher \<times> (flow_exn + 'a)"

definition finish :: "('b, unit) flow" where
  "finish s = (s, Inr ())"

definition page_alert :: "string \<Rightarrow> ('b, unit) flow" where
  "page_alert t s = (s\<lparr>alerts := alerts s @ [t]\<rparr>, Inr ())"

definition send :: "'b link \<Rightarrow> int list \<Rightarrow> ('b, unit) flow" where
  "send l data s = (case l_send l data (board s) of
     (b, ok) \<Rightarrow> (s\<lparr>board := b\<rparr>, if ok then Inr () else Inl (Thrown ''write'')))"

definition await :: "'b link \<Rightarrow> 'a exchange \<Rightarrow> ('b, 'a) flow" where
  "await l e s = (case l_request l (command e) (payload e) (board s) of
     (b, Inl x) \<Rightarrow> (s\<lparr>board := b\<rparr>, Inl x)
   | (b, Inr response) \<Rightarrow> (s\<lparr>board := b\<rparr>, case decode_response e response of
        Inl _ \<Rightarrow> Inl (Thrown ''response'') | Inr v \<Rightarrow> Inr v))"

definition wait :: "'b link \<Rightarrow> nat \<Rightarrow> ('b, unit) flow" where
  "wait l ms s = (s\<lparr>board := l_wait l ms (board s)\<rparr>, Inr ())"

text \<open>\<open>await rnode.close()\<close>, which never throws.\<close>

definition disconnect :: "'b link \<Rightarrow> ('b, unit) flow" where
  "disconnect l s = (s\<lparr>board := l_close l (board s)\<rparr>, Inr ())"

definition try_catch :: "('b, unit) flow \<Rightarrow> (string \<Rightarrow> ('b, unit) flow) \<Rightarrow> ('b, unit) flow" where
  "try_catch body handler s = (case body s of
     (s', Inl (Thrown e)) \<Rightarrow> handler e s'
   | (s', r) \<Rightarrow> (s', r))"

text \<open>\<open>RNode\<close>'s \<open>writeRom\<close> and \<open>reset\<close>.\<close>

definition write_rom :: "'b link \<Rightarrow> nat \<Rightarrow> int \<Rightarrow> ('b, unit) flow" where
  "write_rom l a v = andThen (send l [CMD_ROM_WRITE, int a, v]) (\<lambda>_. wait l 85)"

definition reset_board :: "'b link \<Rightarrow> ('b, unit) flow" where
  "reset_board l = send l [CMD_RESET, CMD_RESET_BYTE]"

subsection \<open>Connecting\<close>

text \<open>The result is whether there is a port.\<close>

definition askForSerialPort :: "'b link \<Rightarrow> ('b, bool) flow" where
  "askForSerialPort l s =
     (if \<not> l_supported l then
        (s\<lparr>alerts := alerts s @ [''Web Serial is not supported in this browser'']\<rparr>, Inr False)
      else
        let s1 = (if rnode_kept s then s\<lparr>board := l_close l (board s), rnode_kept := False\<rparr> else s) in
        (case l_pick l (board s1) of
           (b, ok) \<Rightarrow> (s1\<lparr>board := b\<rparr>, if ok then Inr True else Inl (Thrown ''requestPort''))))"

definition open_rnode :: "'b link \<Rightarrow> ('b, bool) flow" where
  "open_rnode l s = (case l_open l (board s) of
     (b, False) \<Rightarrow> (s\<lparr>board := b\<rparr>, Inl (Thrown ''open''))
   | (b, True) \<Rightarrow>
       (case l_detect l b of
          (b', True) \<Rightarrow> (s\<lparr>board := b', rnode_kept := True\<rparr>, Inr True)
        | (b', False) \<Rightarrow> (s\<lparr>board := l_close l b', rnode_kept := True,
            alerts := alerts s @ [''Selected device is not an RNode!'']\<rparr>, Inr False)))"

definition askForRNode :: "'b link \<Rightarrow> ('b, bool) flow" where
  "askForRNode l = andThen (askForSerialPort l) (\<lambda>ok. if ok then open_rnode l else (\<lambda>s. (s, Inr False)))"

text \<open>The frame of every handler: the board, or nothing.\<close>

definition with_rnode :: "'b link \<Rightarrow> ('b, unit) flow \<Rightarrow> ('b, unit) flow" where
  "with_rnode l body = andThen (askForRNode l) (\<lambda>ok. if ok then body else finish)"

text \<open>The check the handlers that change a provisioned board start with.\<close>

definition not_provisioned_alert :: string where
  "not_provisioned_alert = ''Eeprom is not provisioned. You must do this first!''"

definition when_provisioned :: "(rat \<Rightarrow> rat) \<Rightarrow> 'b link \<Rightarrow> ('b, unit) flow \<Rightarrow> ('b, unit) flow" where
  "when_provisioned sine l body = andThen (await l getRomAsObject) (\<lambda>rom.
     if (case parse_rom sine rom of None \<Rightarrow> True | Some details \<Rightarrow> \<not> is_provisioned details)
     then andThen (page_alert not_provisioned_alert) (\<lambda>_. disconnect l)
     else body)"

subsection \<open>Provisioning\<close>

definition packInt :: "int \<Rightarrow> byte list" where
  "packInt v = packUInt32BE v"

definition unpackInt :: "byte list \<Rightarrow> int option" where
  "unpackInt bs = unpackUInt32BE (map Some bs)"

text \<open>What \<open>provision\<close> does to the image, in order: a byte is written, or the image is read for the log.\<close>

datatype prov_step = PWrite nat int | PRead

definition chosen_model :: "model_choice \<Rightarrow> byte" where
  "chosen_model m = nullish (mapped_id m) (model_id m)"

definition info_bytes :: "byte \<Rightarrow> byte \<Rightarrow> int \<Rightarrow> int list" where
  "info_bytes pid mdl seconds = [uint pid, uint mdl, 0x1] @ map uint (packInt 1) @ map uint (packInt seconds)"

definition prov_steps :: "byte \<Rightarrow> byte \<Rightarrow> int \<Rightarrow> int list \<Rightarrow> prov_step list" where
  "prov_steps pid mdl seconds digest =
     (let serialBytes = map uint (packInt 1); timestampBytes = map uint (packInt seconds) in
      [PWrite ADDR_PRODUCT (uint pid), PRead,
       PWrite ADDR_MODEL (uint mdl), PRead,
       PWrite ADDR_HW_REV 0x1, PRead,
       PWrite ADDR_SERIAL (serialBytes ! 0), PWrite (ADDR_SERIAL + 1) (serialBytes ! 1),
       PWrite (ADDR_SERIAL + 2) (serialBytes ! 2), PWrite (ADDR_SERIAL + 3) (serialBytes ! 3), PRead,
       PWrite ADDR_MADE (timestampBytes ! 0), PWrite (ADDR_MADE + 1) (timestampBytes ! 1),
       PWrite (ADDR_MADE + 2) (timestampBytes ! 2), PWrite (ADDR_MADE + 3) (timestampBytes ! 3), PRead] @
      map (\<lambda>i. PWrite (ADDR_CHKSUM + i) (digest ! i)) [0..<16] @ [PRead] @
      map (\<lambda>i. PWrite (ADDR_SIGNATURE + i) 0x00) [0..<128] @ [PRead] @
      [PWrite ADDR_INFO_LOCK (uint INFO_LOCK_BYTE), PRead])"

fun prov_step_flow :: "'b link \<Rightarrow> prov_step \<Rightarrow> ('b, unit) flow" where
  "prov_step_flow l (PWrite a v) = write_rom l a v"
| "prov_step_flow l PRead = andThen (await l getRom) (\<lambda>_. finish)"

fun run_steps :: "'b link \<Rightarrow> prov_step list \<Rightarrow> ('b, unit) flow" where
  "run_steps l [] = finish"
| "run_steps l (st # sts) = andThen (prov_step_flow l st) (\<lambda>_. run_steps l sts)"

definition provision_body :: "(rat \<Rightarrow> rat) \<Rightarrow> 'b link \<Rightarrow> int \<Rightarrow> byte \<Rightarrow> byte \<Rightarrow> ('b, unit) flow" where
  "provision_body sine l now_ms pid mdl =
     (let seconds = now_ms div 1000 in
      case utils_md5 sine (map Some (info_bytes pid mdl seconds)) of
        None \<Rightarrow> (\<lambda>s. (s, Inl (Thrown ''md5'')))
      | Some digest \<Rightarrow>
          andThen (run_steps l (prov_steps pid mdl seconds digest)) (\<lambda>_.
          andThen (wait l 5000) (\<lambda>_.
          andThen (reset_board l) (\<lambda>_.
          page_alert ''device has been provisioned!''))))"

definition refuse :: "'b link \<Rightarrow> string \<Rightarrow> ('b, unit) flow" where
  "refuse l t = andThen (page_alert t) (\<lambda>_. disconnect l)"

definition provision_now :: "(rat \<Rightarrow> rat) \<Rightarrow> 'b link \<Rightarrow> int \<Rightarrow> byte \<Rightarrow> byte \<Rightarrow> ('b, unit) flow" where
  "provision_now sine l now_ms pid mdl s =
     andThen (try_catch (provision_body sine l now_ms pid mdl)
       (\<lambda>_. page_alert ''failed to provision, please try again''))
       (\<lambda>_ s. disconnect l (s\<lparr>isProvisioning := False\<rparr>))
       (s\<lparr>isProvisioning := True\<rparr>)"

definition provision :: "(rat \<Rightarrow> rat) \<Rightarrow> 'b link \<Rightarrow> int \<Rightarrow> ('b, unit) flow" where
  "provision sine l now_ms = with_rnode l (andThen (await l getRomAsObject) (\<lambda>rom s.
     case parse_rom sine rom of
       Some details \<Rightarrow> refuse l ''Eeprom is already provisioned. You must wipe it to reprovision!'' s
     | None \<Rightarrow>
         (case selectedProduct s of
            None \<Rightarrow> refuse l ''Please select a product!'' s
          | Some p \<Rightarrow>
              (case selectedModel s of
                 None \<Rightarrow> refuse l ''Please select a model!'' s
               | Some m \<Rightarrow> provision_now sine l now_ms (product_id p) (chosen_model m) s))))"

definition wipeEeprom :: "'b link \<Rightarrow> bool \<Rightarrow> ('b, unit) flow" where
  "wipeEeprom l confirmed = with_rnode l
     (if \<not> confirmed then disconnect l
      else andThen (send l [CMD_UNLOCK_ROM, ROM_UNLOCK_BYTE]) (\<lambda>_.
           andThen (wait l 30000) (\<lambda>_.
           andThen (reset_board l) (\<lambda>_.
           andThen (disconnect l) (\<lambda>_. page_alert ''eeprom has been wiped!'')))))"

subsection \<open>Handlers of a provisioned board\<close>

definition set_hash_body :: "'b link \<Rightarrow> ('b, unit) flow" where
  "set_hash_body l =
     andThen (await l getFirmwareHash) (\<lambda>hash.
     andThen (send l (CMD_FW_HASH # map uint hash)) (\<lambda>_.
     andThen (wait l 5000) (\<lambda>_.
     andThen (try_catch (reset_board l) (\<lambda>_. finish)) (\<lambda>_.
     page_alert ''firmware hash has been set!''))))"

definition setFirmwareHash_page :: "(rat \<Rightarrow> rat) \<Rightarrow> 'b link \<Rightarrow> ('b, unit) flow" where
  "setFirmwareHash_page sine l = with_rnode l (when_provisioned sine l (\<lambda>s.
     andThen (try_catch (set_hash_body l) (\<lambda>_. page_alert ''failed to set firmware hash, please try again''))
       (\<lambda>_ s. disconnect l (s\<lparr>isSettingFirmwareHash := False\<rparr>))
       (s\<lparr>isSettingFirmwareHash := True\<rparr>)))"

fun send_all :: "'b link \<Rightarrow> int list list \<Rightarrow> ('b, unit) flow" where
  "send_all l [] = finish"
| "send_all l (d # ds) = andThen (send l d) (\<lambda>_. send_all l ds)"

text \<open>The frames of \<open>setFrequency\<close>, ..., \<open>setRadioStateOn\<close>, as \<open>rnode.js\<close> builds them.\<close>

definition tnc_frames :: "tnc_config \<Rightarrow> int list list" where
  "tnc_frames c = [CMD_FREQUENCY # split_int32 (configFrequency c), CMD_BANDWIDTH # split_int32 (configBandwidth c),
     [CMD_TXPOWER, configTxPower c], [CMD_SF, configSpreadingFactor c], [CMD_CR, configCodingRate c],
     [CMD_RADIO_STATE, RADIO_STATE_ON]]"

definition enableTncMode :: "(rat \<Rightarrow> rat) \<Rightarrow> 'b link \<Rightarrow> ('b, unit) flow" where
  "enableTncMode sine l = with_rnode l (when_provisioned sine l (\<lambda>s.
     (andThen (send_all l (tnc_frames (tnc s))) (\<lambda>_.
      andThen (wait l 500) (\<lambda>_.
      andThen (send_all l [[CMD_CONF_SAVE, 0x00], [CMD_CONF_SAVE, 0x00]]) (\<lambda>_.
      andThen (wait l 5000) (\<lambda>_.
      andThen (reset_board l) (\<lambda>_.
      andThen (disconnect l) (\<lambda>_. page_alert ''TNC mode has been enabled!''))))))) s))"

definition disableTncMode :: "(rat \<Rightarrow> rat) \<Rightarrow> 'b link \<Rightarrow> ('b, unit) flow" where
  "disableTncMode sine l = with_rnode l (when_provisioned sine l
     (andThen (send l [CMD_CONF_DELETE, 0x00]) (\<lambda>_.
      andThen (wait l 5000) (\<lambda>_.
      andThen (reset_board l) (\<lambda>_.
      andThen (disconnect l) (\<lambda>_. page_alert ''TNC mode has been disabled!''))))))"

definition switch_bluetooth :: "int \<Rightarrow> string \<Rightarrow> (rat \<Rightarrow> rat) \<Rightarrow> 'b link \<Rightarrow> ('b, unit) flow" where
  "switch_bluetooth v t sine l = with_rnode l (when_provisioned sine l
     (andThen (send l [CMD_BT_CTRL, v]) (\<lambda>_.
      andThen (page_alert t) (\<lambda>_.
      andThen (wait l 1000) (\<lambda>_. disconnect l)))))"

definition enableBluetooth_page :: "(rat \<Rightarrow> rat) \<Rightarrow> 'b link \<Rightarrow> ('b, unit) flow" where
  "enableBluetooth_page = switch_bluetooth 0x01 ''Bluetooth has been enabled!''"

definition disableBluetooth_page :: "(rat \<Rightarrow> rat) \<Rightarrow> 'b link \<Rightarrow> ('b, unit) flow" where
  "disableBluetooth_page = switch_bluetooth 0x00 ''Bluetooth has been disabled!''"

text \<open>The pin arrives later, through \<open>pair_pin\<close>; an error of the command is shown.\<close>

definition pairing_text :: string where
  "pairing_text = join [CHR 0x0A]
     [''- RNode is in Bluetooth Pairing Mode for 30 seconds.'',
      ''- Close this alert before performing the next steps.'',
      ''- Open bluetooth settings on your Android device.'',
      ''- Click pair on the RNode device that shows up.'',
      ''- Bluetooth pin will shown on your RNode screen and on this page.'']"

definition startBluetoothPairing_page :: "(rat \<Rightarrow> rat) \<Rightarrow> 'b link \<Rightarrow> ('b, unit) flow" where
  "startBluetoothPairing_page sine l = with_rnode l (when_provisioned sine l
     (andThen (try_catch (send l [CMD_BT_CTRL, 0x02]) page_alert) (\<lambda>_. page_alert pairing_text)))"

definition pair_pin :: "'b link \<Rightarrow> int \<Rightarrow> ('b, unit) flow" where
  "pair_pin l pin = andThen (page_alert (''Bluetooth Pairing Pin: '' @ show_int pin)) (\<lambda>_. disconnect l)"

definition setDisplayRotation_page :: "(rat \<Rightarrow> rat) \<Rightarrow> int \<Rightarrow> 'b link \<Rightarrow> ('b, unit) flow" where
  "setDisplayRotation_page sine rotation l = with_rnode l (when_provisioned sine l
     (andThen (send l [CMD_DISP_ROT, js_and rotation 0xFF]) (\<lambda>_. disconnect l)))"

definition startDisplayReconditioning_page :: "(rat \<Rightarrow> rat) \<Rightarrow> 'b link \<Rightarrow> ('b, unit) flow" where
  "startDisplayReconditioning_page sine l = with_rnode l (when_provisioned sine l
     (andThen (send l [CMD_DISP_RCND, 0x01]) (\<lambda>_. disconnect l)))"

subsection \<open>Looking at the board\<close>

text \<open>The firmware version is shown; the sixteen values asked for after it go to the log.\<close>

definition ask_log :: "'b link \<Rightarrow> 'a exchange \<Rightarrow> ('b, unit) flow" where
  "ask_log l e = andThen (await l e) (\<lambda>_. finish)"

fun in_turn :: "('b, unit) flow list \<Rightarrow> ('b, unit) flow" where
  "in_turn [] = finish"
| "in_turn (f # fs) = andThen f (\<lambda>_. in_turn fs)"

definition detect_page :: "'b link \<Rightarrow> ('b, unit) flow" where
  "detect_page l = with_rnode l (andThen (await l getFirmwareVersion) (\<lambda>v.
     andThen (page_alert (''Device has RNode firmware v'' @ v)) (\<lambda>_. in_turn
       [ask_log l getFirmwareVersion, ask_log l getPlatform, ask_log l getMcu, ask_log l getBoard,
        ask_log l getDeviceHash, ask_log l getTargetFirmwareHash, ask_log l getFirmwareHash,
        ask_log l getFrequency, ask_log l getBandwidth, ask_log l getTxPower, ask_log l getSpreadingFactor,
        ask_log l getCodingRate, ask_log l getRadioState, ask_log l getRxStat, ask_log l getTxStat,
        ask_log l getRssiStat, disconnect l])))"

definition reboot :: "'b link \<Rightarrow> ('b, unit) flow" where
  "reboot l = with_rnode l (andThen (reset_board l) (\<lambda>_. andThen (disconnect l) (\<lambda>_. page_alert ''Board is rebooting!'')))"

definition dumpEeprom :: "'b link \<Rightarrow> ('b, unit) flow" where
  "dumpEeprom l = with_rnode l (andThen (await l getRom) (\<lambda>_. disconnect l))"

text \<open>
  \<open>frameBufferToCanvas\<close>: whether the pixel at column \<open>x\<close> of row \<open>y\<close> is drawn in the foreground. A byte
  past the end is \<open>undefined\<close>, which shifts as 0.
\<close>

definition frame_pixel :: "byte list \<Rightarrow> nat \<Rightarrow> nat \<Rightarrow> nat \<Rightarrow> bool" where
  "frame_pixel framebuffer width x y =
     (let byteIndex = (y * width + x) div 8; bitIndex = x mod 8;
          b = (case js_at framebuffer byteIndex of None \<Rightarrow> 0 | Some v \<Rightarrow> uint v)
      in js_and (js_shr b (7 - bitIndex)) 1 \<noteq> 0)"

text \<open>The picture: both areas side by side, every pixel four by four.\<close>

definition rnodeDisplayBufferToPng :: "byte list \<Rightarrow> nat \<Rightarrow> nat \<Rightarrow> bool" where
  "rnodeDisplayBufferToPng displayBuffer X Y =
     (let displayArea = take 512 displayBuffer; statArea = take 512 (drop 512 displayBuffer);
          x = X div 4; y = Y div 4
      in if x < 64 then frame_pixel displayArea 64 x y else frame_pixel statArea 64 (x - 64) y)"

definition readDisplay_page :: "'b link \<Rightarrow> ('b, unit) flow" where
  "readDisplay_page l = with_rnode l (andThen (await l readDisplay) (\<lambda>displayBuffer.
     andThen (disconnect l) (\<lambda>_ s. (s\<lparr>display_image := Some (rnodeDisplayBufferToPng displayBuffer)\<rparr>, Inr ()))))"

subsection \<open>Flashing\<close>

text \<open>
  The archive's entries and the parsed manifest are arguments, as in \<open>Dfu\<close>; \<open>port\<close> says which writes to
  the port succeed, \<open>show_error\<close> is the text of an error. The second component is what the flasher did to the port. \<open>this.serialPort\<close>, which the
  handler closes at the end, is not a property of the page: the read of \<open>undefined.close\<close> is swallowed.
\<close>

definition PLATFORM_ESP32 :: int where "PLATFORM_ESP32 = 0x80"
definition PLATFORM_NRF52 :: int where "PLATFORM_NRF52 = 0x70"

fun last_progress :: "int \<Rightarrow> dfu_act list \<Rightarrow> int" where
  "last_progress v [] = v"
| "last_progress v (a # as) = last_progress (case a of Progress q \<Rightarrow> q | _ \<Rightarrow> v) as"

definition flash_outcome :: "string option \<Rightarrow> string" where
  "flash_outcome e = (case e of None \<Rightarrow> ''Firmware has been flashed!'' | Some x \<Rightarrow> ''Firmware flashing failed: '' @ x)"

definition flashNrf52 :: "'b link \<Rightarrow> (dfu_error \<Rightarrow> string) \<Rightarrow> (nat \<Rightarrow> bool) \<Rightarrow> (byte list \<Rightarrow> image option option) \<Rightarrow>
    (string \<times> byte list) list option \<Rightarrow> 'b flasher \<Rightarrow> ('b flasher \<times> (flow_exn + unit)) \<times> dfu_act list" where
  "flashNrf52 l show_error port parse_manifest file s = (case file of
     None \<Rightarrow> (page_alert ''Select a firmware file first'' s, [])
   | Some entries \<Rightarrow>
       (case askForSerialPort l s of
          (s1, Inl e) \<Rightarrow> ((s1, Inl e), [])
        | (s1, Inr False) \<Rightarrow> ((s1, Inr ()), [])
        | (s1, Inr True) \<Rightarrow>
            let (d, e) = flash port True parse_manifest entries new_flasher;
                s2 = s1\<lparr>isFlashing := False, flashingProgress := last_progress 0 (dfu_acts d)\<rparr>
            in (page_alert (flash_outcome (map_option show_error e)) s2, dfu_acts d)))"

text \<open>The files of an archive for the ESP32, and the numeric prefix \<open>parseInt\<close> reads from a \<open>0x\<close> address.\<close>

definition address_digit :: "char \<Rightarrow> int option" where
  "address_digit c = (let n = int (of_char c) in
     if 48 \<le> n \<and> n \<le> 57 then Some (n - 48)
     else if 97 \<le> n \<and> n \<le> 102 then Some (n - 87)
     else if 65 \<le> n \<and> n \<le> 70 then Some (n - 55) else None)"

fun parse_hex_loop :: "int \<Rightarrow> string \<Rightarrow> int" where
  "parse_hex_loop v [] = v"
| "parse_hex_loop v (c # cs) = (case address_digit c of None \<Rightarrow> v | Some d \<Rightarrow> parse_hex_loop (v * 16 + d) cs)"

definition parse_address :: "string \<Rightarrow> int" where
  "parse_address t = parse_hex_loop 0 (drop 2 t)"

fun files_to_flash :: "(string \<times> byte list) list \<Rightarrow> (string \<times> string) list \<Rightarrow> string + (int \<times> byte list) list" where
  "files_to_flash entries [] = Inr []"
| "files_to_flash entries ((address, filename) # rest) =
     (case find_entry filename entries of
        None \<Rightarrow> Inl (filename @ '' not found in firmware file!'')
      | Some data \<Rightarrow>
          (case files_to_flash entries rest of
             Inl e \<Rightarrow> Inl e | Inr fs \<Rightarrow> Inr ((parse_address address, data) # fs)))"

definition flash_config_of :: "'b flasher \<Rightarrow> flash_config option" where
  "flash_config_of s = (case selectedModel s of
     Some m \<Rightarrow> (case model_config m of Some c \<Rightarrow> Some c
       | None \<Rightarrow> (case selectedProduct s of None \<Rightarrow> None | Some p \<Rightarrow> product_config p))
   | None \<Rightarrow> (case selectedProduct s of None \<Rightarrow> None | Some p \<Rightarrow> product_config p))"

text \<open>
  \<open>esp\<close> is the esptool library: the board's new state, the error it threw if any, and the progress it
  reported last. It gets the flash size and the files.
\<close>

definition esp_files :: "'b link \<Rightarrow> (string \<Rightarrow> (int \<times> byte list) list \<Rightarrow> 'b \<Rightarrow> 'b \<times> string option \<times> int) \<Rightarrow>
    flash_config \<Rightarrow> (string \<times> byte list) list \<Rightarrow> 'b \<Rightarrow> 'b \<times> string option \<times> int" where
  "esp_files l esp config entries b = (case files_to_flash entries (flash_files config) of
     Inl e \<Rightarrow> (b, Some e, 0)
   | Inr fs \<Rightarrow> esp (flash_size config) fs b)"

definition flash_esp_now :: "'b link \<Rightarrow> (string \<Rightarrow> (int \<times> byte list) list \<Rightarrow> 'b \<Rightarrow> 'b \<times> string option \<times> int) \<Rightarrow>
    flash_config \<Rightarrow> (string \<times> byte list) list \<Rightarrow> ('b, unit) flow" where
  "flash_esp_now l esp config entries s =
     (let (b, e, q) = esp_files l esp config entries (board s) in
      andThen (page_alert (flash_outcome e)) (\<lambda>_. disconnect l)
        (s\<lparr>board := b, isFlashing := False, flashingProgress := q\<rparr>))"

definition flashEsp32 :: "'b link \<Rightarrow> bool \<Rightarrow> (string \<Rightarrow> (int \<times> byte list) list \<Rightarrow> 'b \<Rightarrow> 'b \<times> string option \<times> int) \<Rightarrow>
    (string \<times> byte list) list option \<Rightarrow> ('b, unit) flow" where
  "flashEsp32 l loaded esp file s =
     (if \<not> loaded then page_alert ''esptool-js could not be loaded.'' s
      else case flash_config_of s of
        None \<Rightarrow> page_alert ''Flash config is not available for the selected device.'' s
      | Some config \<Rightarrow>
          (case file of
             None \<Rightarrow> page_alert ''Select a firmware file first'' s
           | Some entries \<Rightarrow> andThen (askForSerialPort l)
               (\<lambda>ok. if ok then flash_esp_now l esp config entries else finish) s))"

text \<open>\<open>flash\<close>: which handler the selected product's platform leads to.\<close>

datatype flash_target = ToEsp32 | ToNrf52 | NoTarget

definition flash_switch :: "'b flasher \<Rightarrow> flash_target" where
  "flash_switch s = (case selectedProduct s of
     None \<Rightarrow> NoTarget
   | Some p \<Rightarrow> if platform p = PLATFORM_ESP32 then ToEsp32
       else if platform p = PLATFORM_NRF52 then ToNrf52 else NoTarget)"

definition enterDfuMode_page :: "'b link \<Rightarrow> 'b flasher \<Rightarrow> ('b flasher \<times> (flow_exn + unit)) \<times> dfu_act list" where
  "enterDfuMode_page l s = (case askForSerialPort l s of
     (s1, Inl e) \<Rightarrow> ((s1, Inl e), [])
   | (s1, Inr False) \<Rightarrow> ((s1, Inr ()), [])
   | (s1, Inr True) \<Rightarrow> (page_alert ''Device should now be in DFU mode.'' s1, dfu_acts (fst (enterDfuMode new_flasher))))"

definition recommendedFirmwareFilename :: "'b flasher \<Rightarrow> string option" where
  "recommendedFirmwareFilename s = (case selectedModel s of
     Some m \<Rightarrow> (case model_filename m of Some f \<Rightarrow> Some f
       | None \<Rightarrow> (case selectedProduct s of None \<Rightarrow> None | Some p \<Rightarrow> product_filename p))
   | None \<Rightarrow> (case selectedProduct s of None \<Rightarrow> None | Some p \<Rightarrow> product_filename p))"

definition choose_product :: "product_choice option \<Rightarrow> 'b flasher \<Rightarrow> 'b flasher" where
  "choose_product p s = s\<lparr>selectedProduct := p, selectedModel := None\<rparr>"

end
