(* ===== verification/Flasher_Props.thy ===== *)
theory Flasher_Props
  imports Flasher Rom_Props
begin

text \<open>
  What the page's handlers promise: a board is provisioned completely or stays unlocked, and a board that
  is not provisioned is not written to.
\<close>

subsection \<open>A board that stores what it is sent\<close>

text \<open>
  What the handlers rely on of the firmware: a write command that goes out stores its byte, one that
  fails stores nothing, the image is answered as it is, and nothing else changes it.
\<close>

definition honest :: "'b link \<Rightarrow> ('b \<Rightarrow> byte list) \<Rightarrow> bool" where
  "honest l ee \<longleftrightarrow>
     (\<forall>b a v. ee (fst (l_send l [CMD_ROM_WRITE, a, v] b)) =
        (if snd (l_send l [CMD_ROM_WRITE, a, v] b) then (ee b)[nat a := of_int v] else ee b)) \<and>
     (\<forall>b. ee (fst (l_send l [CMD_RESET, CMD_RESET_BYTE] b)) = ee b) \<and>
     (\<forall>b b' r. l_request l CMD_ROM_READ [0x00] b = (b', r) \<longrightarrow> ee b' = ee b \<and> (\<forall>e. r = Inr e \<longrightarrow> e = ee b)) \<and>
     (\<forall>b ms. ee (l_wait l ms b) = ee b) \<and> (\<forall>b. ee (l_close l b) = ee b) \<and>
     (\<forall>b. ee (fst (l_pick l b)) = ee b) \<and> (\<forall>b. ee (fst (l_open l b)) = ee b) \<and> (\<forall>b. ee (fst (l_detect l b)) = ee b)"

definition writes_of :: "prov_step list \<Rightarrow> (nat \<times> int) list" where
  "writes_of sts = concat (map (\<lambda>st. case st of PWrite a v \<Rightarrow> [(a, v)] | PRead \<Rightarrow> []) sts)"

lemma writes_of_simps [simp]: "writes_of [] = []" "writes_of (PWrite a v # sts) = (a, v) # writes_of sts"
    "writes_of (PRead # sts) = writes_of sts" "writes_of (sts @ sts') = writes_of sts @ writes_of sts'"
  by (simp_all add: writes_of_def)

definition apply_writes :: "(nat \<times> int) list \<Rightarrow> byte list \<Rightarrow> byte list" where
  "apply_writes ws e = fold (\<lambda>(a, v) e. e[a := of_int v]) ws e"

text \<open>What a flow leaves alone: everything on the page but the board.\<close>

definition same_page :: "'b flasher \<Rightarrow> 'b flasher \<Rightarrow> bool" where
  "same_page s s' \<longleftrightarrow> s' = s\<lparr>board := board s'\<rparr>"

lemma same_page_simps: "same_page s (s\<lparr>board := b\<rparr>)" "same_page s s"
  by (simp_all add: same_page_def)

lemma same_page_trans: "same_page s s' \<Longrightarrow> same_page s' s'' \<Longrightarrow> same_page s s''"
  unfolding same_page_def by (metis flasher.select_convs(1) flasher.surjective flasher.update_convs(1))

lemma write_rom_result:
  assumes "honest l ee" and "write_rom l a v s = (s', r)"
  shows "same_page s s' \<and> (r = Inr () \<and> ee (board s') = (ee (board s))[a := of_int v] \<or>
    (\<exists>x. r = Inl x) \<and> ee (board s') = ee (board s))"
proof -
  obtain b ok where c: "l_send l [CMD_ROM_WRITE, int a, v] (board s) = (b, ok)" by fastforce
  have "ee b = (if ok then (ee (board s))[a := of_int v] else ee (board s))"
    using assms(1) c unfolding honest_def by (metis fst_conv nat_int snd_conv)
  moreover have "ee (l_wait l ms b') = ee b'" for ms b' using assms(1) by (simp add: honest_def)
  ultimately show ?thesis
    using assms(2) by (cases ok) (auto simp: write_rom_def andThen_def send_def wait_def c same_page_def)
qed

lemma read_rom_result:
  assumes "honest l ee" and "await l getRom s = (s', r)"
  shows "same_page s s' \<and> ee (board s') = ee (board s) \<and> (\<forall>e. r = Inr e \<longrightarrow> e = ee (board s))"
proof -
  obtain b x where c: "l_request l CMD_ROM_READ [0x00] (board s) = (b, x)" by fastforce
  then have "ee b = ee (board s) \<and> (\<forall>e. x = Inr e \<longrightarrow> e = ee (board s))"
    using assms(1) unfolding honest_def by blast
  then show ?thesis
    using assms(2) by (cases x) (auto simp: await_def getRom_def c all_bytes_def same_page_def)
qed

lemma run_steps_prefix:
  assumes "honest l ee" and "run_steps l sts s = (s', r)"
  shows "same_page s s' \<and> (\<exists>k. ee (board s') = apply_writes (take k (writes_of sts)) (ee (board s)) \<and>
    (r = Inr () \<longrightarrow> k = length (writes_of sts)))"
  using assms(2)
proof (induction sts arbitrary: s)
  case Nil
  then show ?case by (simp add: finish_def same_page_simps apply_writes_def)
next
  case (Cons st sts)
  obtain s1 r1 where st: "prov_step_flow l st s = (s1, r1)" by fastforce
  show ?case
  proof (cases st)
    case (PWrite a v)
    note w = write_rom_result [OF assms(1), of a v s s1 r1]
    show ?thesis
    proof (cases r1)
      case (Inl x)
      then have "s' = s1" "r = Inl x" using Cons.prems st by (simp_all add: andThen_def)
      with w st PWrite Inl show ?thesis by (intro conjI exI [of _ 0]) (auto simp: apply_writes_def)
    next
      case (Inr u)
      then have run: "run_steps l sts s1 = (s', r)" using Cons.prems st by (simp add: andThen_def)
      from Cons.IH [OF run] obtain k where k: "same_page s1 s'"
        "ee (board s') = apply_writes (take k (writes_of sts)) (ee (board s1))"
        "r = Inr () \<longrightarrow> k = length (writes_of sts)" by blast
      with w st PWrite Inr same_page_trans show ?thesis
        by (intro conjI exI [of _ "Suc k"]) (auto simp: apply_writes_def)
    qed
  next
    case PRead
    then obtain r2 where rd: "await l getRom s = (s1, r2)" and r1: "(\<exists>x. r1 = Inl x) \<longleftrightarrow> (\<exists>x. r2 = Inl x)"
      using st by (auto simp: andThen_def finish_def split: prod.splits sum.splits)
    note w = read_rom_result [OF assms(1) rd]
    show ?thesis
    proof (cases r1)
      case (Inl x)
      then have "s' = s1" "r = Inl x" using Cons.prems st by (simp_all add: andThen_def)
      with w show ?thesis by (intro conjI exI [of _ 0]) (auto simp: apply_writes_def)
    next
      case (Inr u)
      then have run: "run_steps l sts s1 = (s', r)" using Cons.prems st by (simp add: andThen_def)
      from Cons.IH [OF run] w same_page_trans show ?thesis by (auto simp: PRead)
    qed
  qed
qed

subsection \<open>The image of a provisioned board\<close>

definition prov_info :: "byte \<Rightarrow> byte \<Rightarrow> int \<Rightarrow> byte list" where
  "prov_info pid mdl seconds = [pid, mdl, 1] @ packUInt32BE 1 @ packUInt32BE seconds"

definition prov_image :: "(rat \<Rightarrow> rat) \<Rightarrow> byte \<Rightarrow> byte \<Rightarrow> int \<Rightarrow> byte list" where
  "prov_image sine pid mdl seconds = prov_info pid mdl seconds @ rfc_md5 sine (prov_info pid mdl seconds) @
     replicate 128 0 @ [INFO_LOCK_BYTE]"

lemma length_prov_info [simp]: "length (prov_info pid mdl seconds) = 11"
  by (simp add: prov_info_def)

lemma length_prov_image [simp]: "length (prov_image sine pid mdl seconds) = 156"
  by (simp add: prov_image_def length_rfc_md5)

lemma info_bytes_eq: "map Some (info_bytes pid mdl seconds) = map (\<lambda>b. Some (uint b)) (prov_info pid mdl seconds)"
  by (simp add: info_bytes_def prov_info_def packInt_def)

lemma prov_digest: "utils_md5 sine (map Some (info_bytes pid mdl seconds)) =
    Some (map uint (rfc_md5 sine (prov_info pid mdl seconds)))"
  unfolding info_bytes_eq by (rule utils_md5_bytes) simp

text \<open>The writes go through the addresses from 0 to the lock byte without a gap.\<close>

lemma writes_of_map: "writes_of (map (\<lambda>i. PWrite (f i) (g i)) is) = map (\<lambda>i. (f i, g i)) is"
  by (induction "is") simp_all

lemma upt_sections: "[0..<156] = [0..<11] @ map (\<lambda>i. 11 + i) [0..<16] @ map (\<lambda>i. 27 + i) [0..<128] @ [155 :: nat]"
  by (rule nth_equalityI) (auto simp: nth_append)

lemma image_sections:
  "i < 11 \<Longrightarrow> prov_image sine pid mdl seconds ! i = prov_info pid mdl seconds ! i"
  "i < 16 \<Longrightarrow> prov_image sine pid mdl seconds ! (11 + i) = rfc_md5 sine (prov_info pid mdl seconds) ! i"
  "i < 128 \<Longrightarrow> prov_image sine pid mdl seconds ! (27 + i) = 0"
  "prov_image sine pid mdl seconds ! 155 = INFO_LOCK_BYTE"
  by (simp_all add: prov_image_def nth_append length_rfc_md5)

lemma eleven: "[0..<11] = [0, 1, 2, 3, 4, 5, 6, 7, 8, 9, 10 :: nat]"
  by (simp add: upt_rec numeral_eq_Suc)

lemma prov_writes:
  "writes_of (prov_steps pid mdl seconds (map uint (rfc_md5 sine (prov_info pid mdl seconds)))) =
   map (\<lambda>i. (i, uint (prov_image sine pid mdl seconds ! i))) [0..<156]"
proof -
  have info: "map (\<lambda>i. (i, uint (prov_image sine pid mdl seconds ! i))) [0..<11] =
      map (\<lambda>i. (i, uint (prov_info pid mdl seconds ! i))) [0..<11]"
    by (simp add: image_sections(1) cong: map_cong)
  have sum: "map (\<lambda>i. (i, uint (prov_image sine pid mdl seconds ! i))) (map (\<lambda>i. 11 + i) [0..<16]) =
      map (\<lambda>i. (11 + i, map uint (rfc_md5 sine (prov_info pid mdl seconds)) ! i)) [0..<16]"
    by (auto simp: image_sections(2) length_rfc_md5)
  have sig: "map (\<lambda>i. (i, uint (prov_image sine pid mdl seconds ! i))) (map (\<lambda>i. 27 + i) [0..<128]) =
      map (\<lambda>i. (27 + i, 0)) [0..<128]"
    by (auto simp: image_sections(3))
  have "map (\<lambda>i. (i, uint (prov_info pid mdl seconds ! i))) [0..<11] =
      [(0, uint pid), (1, uint mdl), (2, 1),
       (3, map uint (packInt 1) ! 0), (4, map uint (packInt 1) ! 1), (5, map uint (packInt 1) ! 2), (6, map uint (packInt 1) ! 3),
       (7, map uint (packInt seconds) ! 0), (8, map uint (packInt seconds) ! 1), (9, map uint (packInt seconds) ! 2),
       (10, map uint (packInt seconds) ! 3)]"
    unfolding eleven by (simp add: prov_info_def packInt_def nth_append)
  note head = this
  have "writes_of (prov_steps pid mdl seconds ds) =
      [(0, uint pid), (1, uint mdl), (2, 1),
       (3, map uint (packInt 1) ! 0), (4, map uint (packInt 1) ! 1), (5, map uint (packInt 1) ! 2), (6, map uint (packInt 1) ! 3),
       (7, map uint (packInt seconds) ! 0), (8, map uint (packInt seconds) ! 1), (9, map uint (packInt seconds) ! 2),
       (10, map uint (packInt seconds) ! 3)] @ map (\<lambda>i. (11 + i, ds ! i)) [0..<16] @ map (\<lambda>i. (27 + i, 0)) [0..<128] @
       [(155, uint INFO_LOCK_BYTE)]" for ds
    unfolding prov_steps_def Let_def writes_of_simps writes_of_map proto_defs
    by (simp only: append.simps writes_of_simps arith_simps add_0) simp
  then show ?thesis
    unfolding upt_sections map_append info sum sig head [symmetric] by (simp add: image_sections(4))
qed

lemma apply_writes_upto: "k \<le> length vs \<Longrightarrow> length vs \<le> length e \<Longrightarrow>
    apply_writes (map (\<lambda>i. (i, uint (vs ! i))) [0..<k]) e = take k vs @ drop k e"
proof (induction k)
  case (Suc k)
  then have "(take k vs @ drop k e)[k := vs ! k] = take (Suc k) vs @ drop (Suc k) e"
    by (simp add: list_update_append upd_conv_take_nth_drop take_Suc_conv_app_nth)
  with Suc show ?case by (simp add: apply_writes_def)
qed (simp add: apply_writes_def)

lemma prov_parsed:
  assumes "12 \<le> length rest"
  shows "\<exists>d. parse_rom sine (new_rom (prov_image sine pid mdl seconds @ rest)) = Some d \<and> is_provisioned d \<and>
    product d = Some pid \<and> model d = Some mdl \<and> hardware_revision d = Some 1 \<and>
    serial_number d = Some 1 \<and> made d = Some (seconds mod 2 ^ 32)"
proof -
  let ?e = "prov_image sine pid mdl seconds @ rest"
  have at: "js_at ?e i = Some (prov_image sine pid mdl seconds ! i)" if "i < 156" for i
    using that by (simp add: js_at_nth nth_append)
  have small: "js_at ?e i = Some (prov_info pid mdl seconds ! i)" if "i < 11" for i
    using that by (simp add: at image_sections(1))
  have lock: "isInfoLocked (new_rom ?e)"
    using at [of 155] by (simp add: isInfoLocked_def new_rom_def ADDR_INFO_LOCK_def image_sections(4))
  then obtain d where d: "parse_rom sine (new_rom ?e) = Some d" by (auto simp: parse_rom_def Let_def)
  have "take 11 ?e = prov_info pid mdl seconds"
    "take 16 (drop 11 ?e) = rfc_md5 sine (prov_info pid mdl seconds)"
    by (simp_all add: prov_image_def length_rfc_md5)
  then have prov: "is_provisioned d" by (simp add: parse_provisioned [OF d])
  have ids: "getProduct (new_rom ?e) = Some pid" "getModel (new_rom ?e) = Some mdl" "getHardwareRevision (new_rom ?e) = Some 1"
    using small [of 0] small [of 1] small [of 2]
    by (simp_all add: getProduct_def getModel_def getHardwareRevision_def new_rom_def proto_defs prov_info_def)
  have four: "map Some (packUInt32BE v) = [Some (packUInt32BE v ! 0), Some (packUInt32BE v ! 1),
      Some (packUInt32BE v ! 2), Some (packUInt32BE v ! 3)]" for v by (simp add: pack_nth)
  have nums: "getSerialNumber (new_rom ?e) = map Some (packUInt32BE 1)"
    "getMade (new_rom ?e) = map Some (packUInt32BE seconds)"
    unfolding four
    using small [of 3] small [of 4] small [of 5] small [of 6] small [of 7] small [of 8] small [of 9] small [of 10]
    by (simp_all add: getSerialNumber_def getMade_def new_rom_def proto_defs prov_info_def nth_append)
  have "product d = Some pid \<and> model d = Some mdl \<and> hardware_revision d = Some 1 \<and>
      serial_number d = Some 1 \<and> made d = Some (seconds mod 2 ^ 32)"
    using d lock by (auto simp: parse_rom_def Let_def ids nums unpack_pack split: if_splits)
  with d prov show ?thesis by blast
qed

lemma prov_partial:
  assumes "168 \<le> length e" and "js_at e 0x9B \<noteq> Some 0x73" and "k < 156"
  shows "parse_rom sine (new_rom (take k (prov_image sine pid mdl seconds) @ drop k e)) = None"
  using assms by (simp add: parse_locked js_at_nth nth_append)

subsection \<open>Provisioning\<close>

lemma wait_result: "honest l ee \<Longrightarrow> wait l ms s = (s', r) \<Longrightarrow> same_page s s' \<and> ee (board s') = ee (board s) \<and> r = Inr ()"
  by (auto simp: wait_def honest_def same_page_def)

lemma reset_result: "honest l ee \<Longrightarrow> reset_board l s = (s', r) \<Longrightarrow> same_page s s' \<and> ee (board s') = ee (board s)"
  by (auto simp: reset_board_def send_def honest_def same_page_def split: prod.splits) (metis fst_conv)+

definition success_text :: string where "success_text = ''device has been provisioned!''"

text \<open>The body: some prefix of the image is written; the success is shown only after all of it.\<close>

lemma provision_body_result:
  assumes "honest l ee" and "156 \<le> length (ee (board s))"
    and "provision_body sine l now_ms pid mdl s = (s', r)"
  shows "\<exists>k \<le> 156. ee (board s') = take k (prov_image sine pid mdl (now_ms div 1000)) @ drop k (ee (board s)) \<and>
    (alerts s' = alerts s \<or> alerts s' = alerts s @ [success_text] \<and> k = 156)"
proof -
  let ?img = "prov_image sine pid mdl (now_ms div 1000)"
  let ?sts = "prov_steps pid mdl (now_ms div 1000) (map uint (rfc_md5 sine (prov_info pid mdl (now_ms div 1000))))"
  have body: "provision_body sine l now_ms pid mdl s = andThen (run_steps l ?sts) (\<lambda>_. andThen (wait l 5000) (\<lambda>_.
      andThen (reset_board l) (\<lambda>_. page_alert success_text))) s"
    by (simp add: provision_body_def Let_def prov_digest success_text_def)
  obtain s1 r1 where run: "run_steps l ?sts s = (s1, r1)" by fastforce
  from run_steps_prefix [OF assms(1) run] obtain k where k: "same_page s s1"
    "ee (board s1) = apply_writes (take k (writes_of ?sts)) (ee (board s))" "r1 = Inr () \<longrightarrow> k = length (writes_of ?sts)"
    by blast
  define j where "j = min k 156"
  have "take k (writes_of ?sts) = map (\<lambda>i. (i, uint (?img ! i))) [0..<j]"
    unfolding prov_writes take_map take_upt by (simp add: j_def take_upt min_def)
  then have e1: "ee (board s1) = take j ?img @ drop j (ee (board s))"
    using k(2) apply_writes_upto [of j ?img "ee (board s)"] assms(2) by (simp add: j_def)
  have full: "r1 = Inr () \<longrightarrow> j = 156" using k(3) by (simp add: j_def prov_writes)
  have a1: "alerts s1 = alerts s" using k(1) by (metis flasher.ext_inject flasher.surjective flasher.update_convs(1) same_page_def)
  show ?thesis
  proof (cases r1)
    case (Inl x)
    then have "s' = s1" using assms(3) body run by (simp add: andThen_def)
    with e1 a1 show ?thesis by (intro exI [of _ j]) (simp add: j_def)
  next
    case (Inr u)
    obtain s2 r2 where w: "wait l 5000 s1 = (s2, r2)" by fastforce
    obtain s3 r3 where z: "reset_board l s2 = (s3, r3)" by fastforce
    note w' = wait_result [OF assms(1) w] and z' = reset_result [OF assms(1) z]
    have rest: "(s', r) = (case r3 of Inl x \<Rightarrow> (s3, Inl x) | Inr x \<Rightarrow> page_alert success_text s3)"
      using assms(3) body run Inr w w' z by (simp add: andThen_def)
    have "alerts s3 = alerts s" "ee (board s3) = ee (board s1)"
      using w' z' a1 by (metis flasher.ext_inject flasher.surjective flasher.update_convs(1) same_page_def)+
    with rest e1 full Inr show ?thesis
      by (intro exI [of _ 156]) (auto simp: page_alert_def split: sum.splits)
  qed
qed

lemma connect_result:
  assumes "honest l ee" and "askForRNode l s = (s', r)"
  shows "ee (board s') = ee (board s) \<and> selectedProduct s' = selectedProduct s \<and> selectedModel s' = selectedModel s \<and>
    (success_text \<in> set (alerts s') \<longrightarrow> success_text \<in> set (alerts s))"
proof -
  have laws: "ee (l_close l b) = ee b" "ee (fst (l_pick l b)) = ee b" "ee (fst (l_open l b)) = ee b"
      "ee (fst (l_detect l b)) = ee b" for b
    using assms(1) by (simp_all add: honest_def)
  have pick: "ee b' = ee b" if "l_pick l b = (b', x)" for b b' x using laws(2) [of b] that by simp
  have opn: "ee b' = ee b" if "l_open l b = (b', x)" for b b' x using laws(3) [of b] that by simp
  have det: "ee b' = ee b" if "l_detect l b = (b', x)" for b b' x using laws(4) [of b] that by simp
  show ?thesis
    using assms(2)
    by (auto simp: askForRNode_def askForSerialPort_def open_rnode_def andThen_def Let_def laws success_text_def
        dest!: pick opn det split: prod.splits bool.splits if_splits)
qed

lemma refuse_result: "honest l ee \<Longrightarrow> refuse l t s = (s', r) \<Longrightarrow> ee (board s') = ee (board s) \<and> alerts s' = alerts s @ [t]"
  by (auto simp: refuse_def andThen_def page_alert_def disconnect_def honest_def)

lemma provision_now_result:
  assumes "honest l ee" and "156 \<le> length (ee (board s))" and "provision_now sine l now_ms pid mdl s = (s', r)"
  shows "\<exists>k \<le> 156. ee (board s') = take k (prov_image sine pid mdl (now_ms div 1000)) @ drop k (ee (board s)) \<and>
    (success_text \<in> set (alerts s') \<and> success_text \<notin> set (alerts s) \<longrightarrow> k = 156)"
proof -
  obtain s1 r1 where b: "provision_body sine l now_ms pid mdl (s\<lparr>isProvisioning := True\<rparr>) = (s1, r1)" by fastforce
  from provision_body_result [OF assms(1) _ b] assms(2) obtain k where k: "k \<le> 156"
    "ee (board s1) = take k (prov_image sine pid mdl (now_ms div 1000)) @ drop k (ee (board s))"
    "alerts s1 = alerts s \<or> alerts s1 = alerts s @ [success_text] \<and> k = 156" by auto
  have c: "ee (l_close l b) = ee b" for b using assms(1) by (simp add: honest_def)
  have "ee (board s') = ee (board s1) \<and> (success_text \<in> set (alerts s') \<longrightarrow> success_text \<in> set (alerts s1))"
    using assms(3) b
    by (auto simp: provision_now_def try_catch_def andThen_def page_alert_def disconnect_def c success_text_def
        split: prod.splits sum.splits flow_exn.splits)
  with k show ?thesis by (intro exI [of _ k]) auto
qed

subsection \<open>A board on which everything works\<close>

text \<open>Every command goes out and every request is answered.\<close>

definition working :: "'b link \<Rightarrow> bool" where
  "working l \<longleftrightarrow> l_supported l \<and> (\<forall>b. snd (l_pick l b)) \<and> (\<forall>b. snd (l_open l b)) \<and> (\<forall>b. snd (l_detect l b)) \<and>
     (\<forall>d b. snd (l_send l d b)) \<and> (\<forall>b. \<exists>e. snd (l_request l CMD_ROM_READ [0x00] b) = Inr e)"

lemma working_send: "working l \<Longrightarrow> snd (send l d s) = Inr ()"
  by (auto simp: working_def send_def split: prod.splits) (metis snd_conv)

lemma working_steps: "working l \<Longrightarrow> snd (run_steps l sts s) = Inr ()"
proof (induction sts arbitrary: s)
  case (Cons st sts)
  have "snd (prov_step_flow l st s) = Inr ()"
  proof (cases st)
    case (PWrite a v)
    then show ?thesis using working_send [OF Cons.prems, of "[CMD_ROM_WRITE, int a, v]" s]
      by (auto simp: write_rom_def andThen_def wait_def split: prod.splits)
  next
    case PRead
    obtain b e where "l_request l CMD_ROM_READ [0x00] (board s) = (b, Inr e)"
      using Cons.prems unfolding working_def by (metis prod.collapse)
    with PRead show ?thesis by (simp add: andThen_def await_def getRom_def all_bytes_def finish_def)
  qed
  with Cons show ?case by (auto simp: andThen_def split: prod.splits)
qed (simp add: finish_def)

lemma working_body:
  assumes "working l"
  shows "snd (provision_body sine l now_ms pid mdl s) = Inr () \<and>
    success_text \<in> set (alerts (fst (provision_body sine l now_ms pid mdl s)))"
proof -
  let ?sts = "prov_steps pid mdl (now_ms div 1000) (map uint (rfc_md5 sine (prov_info pid mdl (now_ms div 1000))))"
  obtain s1 where run: "run_steps l ?sts s = (s1, Inr ())"
    using working_steps [OF assms, of ?sts s] by (metis prod.collapse)
  obtain s2 where w: "wait l 5000 s1 = (s2, Inr ())" by (simp add: wait_def)
  obtain s3 where z: "reset_board l s2 = (s3, Inr ())"
    using working_send [OF assms] unfolding reset_board_def by (metis prod.collapse)
  from run w z show ?thesis
    by (simp add: provision_body_def Let_def prov_digest andThen_def page_alert_def success_text_def)
qed

lemma working_connects: "working l \<Longrightarrow> snd (askForRNode l s) = Inr True"
  by (simp add: working_def askForRNode_def askForSerialPort_def open_rnode_def andThen_def Let_def case_prod_beta)

lemma provision_succeeds:
  assumes "working l" and "honest l ee" and "js_at (ee (board s)) 0x9B \<noteq> Some 0x73"
    and "selectedProduct s = Some p" and "selectedModel s = Some m" and "provision sine l now_ms s = (s', r)"
  shows "success_text \<in> set (alerts s')"
proof -
  obtain s1 where c: "askForRNode l s = (s1, Inr True)"
    using working_connects [OF assms(1), of s] by (metis prod.collapse)
  note c' = connect_result [OF assms(2) c]
  obtain b e where q: "l_request l CMD_ROM_READ [0x00] (board s1) = (b, Inr e)"
    using assms(1) unfolding working_def by (metis prod.collapse)
  have "e = ee (board s)" using assms(2) q c' unfolding honest_def by metis
  then have "parse_rom sine (new_rom e) = None" using assms(3) by (simp add: parse_locked)
  then have "provision_now sine l now_ms (product_id p) (chosen_model m) (s1\<lparr>board := b\<rparr>) = (s', r)"
    using assms(4-6) c q c'
    by (simp add: provision_def with_rnode_def andThen_def await_def getRomAsObject_def getRom_def all_bytes_def)
  moreover obtain s2 where b: "provision_body sine l now_ms (product_id p) (chosen_model m)
      (s1\<lparr>board := b, isProvisioning := True\<rparr>) = (s2, Inr ())" "success_text \<in> set (alerts s2)"
    using working_body [OF assms(1)] by (metis prod.collapse)
  ultimately show ?thesis by (auto simp: provision_now_def try_catch_def andThen_def disconnect_def)
qed

text \<open>
  C6. Provisioning is all or nothing. On a board that stores the bytes it is sent, whatever commands fail,
  whatever requests stay unanswered: afterwards the image is either still unlocked, so that it can be
  provisioned again, or complete, and then \<open>parse\<close> reads it as provisioned, with the chosen product and
  model, revision 1, serial number 1 and the time. The success is shown only for a complete image, and
  the configuration section is left alone. When every command and request works, it is shown.
\<close>

theorem provision_all_or_nothing:
  assumes "honest l ee" and "168 \<le> length (ee (board s))" and "js_at (ee (board s)) 0x9B \<noteq> Some 0x73"
    and "selectedProduct s = Some p" and "selectedModel s = Some m"
    and "provision sine l now_ms s = (s', r)" and "e = ee (board s')"
  shows "drop 156 e = drop 156 (ee (board s)) \<and>
    (parse_rom sine (new_rom e) = None \<and> (success_text \<in> set (alerts s') \<longrightarrow> success_text \<in> set (alerts s)) \<or>
     (\<exists>d. parse_rom sine (new_rom e) = Some d \<and> is_provisioned d \<and> product d = Some (product_id p) \<and>
       model d = Some (chosen_model m) \<and> hardware_revision d = Some 1 \<and> serial_number d = Some 1 \<and>
       made d = Some (now_ms div 1000 mod 2 ^ 32))) \<and>
    (working l \<longrightarrow> success_text \<in> set (alerts s'))"
proof -
  have unlocked: "parse_rom sine (new_rom (ee (board s))) = None" using assms(3) by (simp add: parse_locked)
  obtain s1 r1 where c: "askForRNode l s = (s1, r1)" by fastforce
  note c' = connect_result [OF assms(1) c]
  let ?img = "prov_image sine (product_id p) (chosen_model m) (now_ms div 1000)"
  have "\<exists>k \<le> 156. e = take k ?img @ drop k (ee (board s)) \<and>
      (success_text \<in> set (alerts s') \<and> success_text \<notin> set (alerts s) \<longrightarrow> k = 156)"
  proof (cases r1)
    case (Inl x)
    then have "s' = s1" using assms(6) c by (simp add: provision_def with_rnode_def andThen_def)
    with c' assms(7) show ?thesis by (intro exI [of _ 0]) auto
  next
    case (Inr ok)
    show ?thesis
    proof (cases ok)
      case False
      then have "s' = s1" using assms(6) c Inr by (simp add: provision_def with_rnode_def andThen_def finish_def)
      with c' assms(7) show ?thesis by (intro exI [of _ 0]) auto
    next
      case True
      obtain b x where q: "l_request l CMD_ROM_READ [0x00] (board s1) = (b, x)" by fastforce
      have b: "ee b = ee (board s1)" and ans: "x = Inr e' \<Longrightarrow> e' = ee (board s1)" for e'
        using assms(1) q unfolding honest_def by blast+
      show ?thesis
      proof (cases x)
        case (Inl y)
        then have "s' = s1\<lparr>board := b\<rparr>"
          using assms(6) c Inr True q
          by (simp add: provision_def with_rnode_def andThen_def await_def getRomAsObject_def getRom_def)
        with c' b assms(7) show ?thesis by (intro exI [of _ 0]) auto
      next
        case (Inr e')
        then have "provision_now sine l now_ms (product_id p) (chosen_model m) (s1\<lparr>board := b\<rparr>) = (s', r)"
          using assms(4-6) c \<open>r1 = Inr ok\<close> True q c' ans [OF Inr] unlocked
          by (simp add: provision_def with_rnode_def andThen_def await_def getRomAsObject_def getRom_def all_bytes_def)
        from provision_now_result [OF assms(1) _ this] assms(2,7) b c' show ?thesis by auto
      qed
    qed
  qed
  then obtain k where k: "k \<le> 156" "e = take k ?img @ drop k (ee (board s))"
    "success_text \<in> set (alerts s') \<and> success_text \<notin> set (alerts s) \<longrightarrow> k = 156" by blast
  have d: "drop 156 e = drop 156 (ee (board s))" using k(1,2) assms(2) by simp
  note works = provision_succeeds [OF _ assms(1,3-6)]
  show ?thesis
  proof (cases "k = 156")
    case True
    then have "e = ?img @ drop 156 (ee (board s))" using k(2) by simp
    with prov_parsed [of "drop 156 (ee (board s))" sine "product_id p" "chosen_model m" "now_ms div 1000"] assms(2) d works
    show ?thesis by simp
  next
    case False
    then have "parse_rom sine (new_rom e) = None"
      using prov_partial [OF assms(2,3), of k] k(1,2) by simp
    with d False k(3) works show ?thesis by blast
  qed
qed

text \<open>A board whose every command and request succeeds, for the examples.\<close>

definition rom_link :: "byte list link" where
  "rom_link = \<lparr>l_supported = True, l_pick = (\<lambda>b. (b, True)), l_open = (\<lambda>b. (b, True)), l_detect = (\<lambda>b. (b, True)),
     l_send = (\<lambda>d b. (if d ! 0 = CMD_ROM_WRITE then b[nat (d ! 1) := of_int (d ! 2)] else b, True)),
     l_request = (\<lambda>c d b. (b, if c = CMD_ROM_READ then Inr b else Inl Pending)),
     l_wait = (\<lambda>ms b. b), l_close = (\<lambda>b. b)\<rparr>"

lemma rom_link_honest: "honest rom_link (\<lambda>b. b)"
  by (simp add: honest_def rom_link_def proto_defs)

definition t_beam :: product_choice where
  "t_beam = \<lparr>product_id = 0xE0, platform = PLATFORM_ESP32, product_filename = None, product_config = None\<rparr>"

definition tcxo_model :: model_choice where
  "tcxo_model = \<lparr>model_id = 0x04, mapped_id = Some 0xB4, model_filename = None, model_config = None\<rparr>"

definition fresh_page :: "'b \<Rightarrow> 'b flasher" where
  "fresh_page b = \<lparr>board = b, rnode_kept = False, isFlashing = False, flashingProgress = 0, isProvisioning = False,
     isSettingFirmwareHash = False, selectedProduct = Some t_beam, selectedModel = Some tcxo_model,
     tnc = \<lparr>configFrequency = 917375000, configBandwidth = 250000, configTxPower = 22, configSpreadingFactor = 11,
       configCodingRate = 5\<rparr>, alerts = [], display_image = None\<rparr>"

lemma rom_link_working: "working rom_link"
  by (simp add: working_def rom_link_def)

theorem provision_all_or_nothing_witness:
  "let s = fresh_page (replicate 168 0xFF); e = board (fst (provision (\<lambda>x. 1 / x) rom_link 1735689600999 s)) in
    \<exists>d. parse_rom (\<lambda>x. 1 / x) (new_rom e) = Some d \<and> is_provisioned d \<and> model d = Some 0xB4 \<and> made d = Some 1735689600"
proof -
  let ?s = "fresh_page (replicate 168 0xFF :: byte list)"
  obtain s' r where run: "provision (\<lambda>x. 1 / x) rom_link 1735689600999 ?s = (s', r)" by fastforce
  have "168 \<le> length (board ?s)" "js_at (board ?s) 0x9B \<noteq> Some 0x73" "selectedProduct ?s = Some t_beam"
    "selectedModel ?s = Some tcxo_model"
    by (simp_all add: fresh_page_def js_at_nth)
  from provision_all_or_nothing [OF rom_link_honest this run refl] rom_link_working run show ?thesis
    by (auto simp: Let_def t_beam_def tcxo_model_def chosen_model_def nullish_def fresh_page_def)
qed

subsection \<open>A board that is not provisioned\<close>

text \<open>The connection with a record of the commands that were sent.\<close>

definition recording :: "'b link \<Rightarrow> ('b \<times> int list list) link" where
  "recording l = (let keep = (\<lambda>f (b, log). let (b', x) = f b in ((b', log), x)) in
     \<lparr>l_supported = l_supported l, l_pick = keep (l_pick l), l_open = keep (l_open l), l_detect = keep (l_detect l),
      l_send = (\<lambda>d (b, log). let (b', ok) = l_send l d b in ((b', log @ [d]), ok)),
      l_request = (\<lambda>c d (b, log). let (b', x) = l_request l c d b in ((b', log), x)),
      l_wait = (\<lambda>ms (b, log). (l_wait l ms b, log)), l_close = (\<lambda>(b, log). (l_close l b, log))\<rparr>)"

text \<open>The eight handlers that want a provisioned board.\<close>

definition guarded_handlers :: "(rat \<Rightarrow> rat) \<Rightarrow> int \<Rightarrow> 'b link \<Rightarrow> ('b, unit) flow list" where
  "guarded_handlers sine rotation l =
     [setFirmwareHash_page sine l, enableTncMode sine l, disableTncMode sine l, enableBluetooth_page sine l,
      disableBluetooth_page sine l, startBluetoothPairing_page sine l, setDisplayRotation_page sine rotation l,
      startDisplayReconditioning_page sine l]"

lemma guarded_form: "f \<in> set (guarded_handlers sine rotation l) \<Longrightarrow> \<exists>body. f = with_rnode l (when_provisioned sine l body)"
  by (auto simp: guarded_handlers_def setFirmwareHash_page_def enableTncMode_def disableTncMode_def
      enableBluetooth_page_def disableBluetooth_page_def switch_bluetooth_def startBluetoothPairing_page_def
      setDisplayRotation_page_def startDisplayReconditioning_page_def)

lemma recording_connect: "askForRNode (recording l) s = (s', r) \<Longrightarrow> snd (board s') = snd (board s)"
  by (auto simp: askForRNode_def askForSerialPort_def open_rnode_def andThen_def Let_def recording_def
      split: prod.splits bool.splits if_splits)

text \<open>
  C14. A board whose image does not parse as provisioned is not written to: whichever of the handlers that
  change the board is used, no command goes out, the operator is told, and the connection is closed.
\<close>

theorem unprovisioned_untouched:
  assumes "f \<in> set (guarded_handlers sine rotation (recording l))" and "f s = (s', r)"
    and "\<forall>b b' e d. l_request l CMD_ROM_READ [0x00] b = (b', Inr e) \<and> parse_rom sine (new_rom e) = Some d \<longrightarrow>
      \<not> is_provisioned d"
  shows "snd (board s') = snd (board s)"
proof -
  obtain body where f: "f = with_rnode (recording l) (when_provisioned sine (recording l) body)"
    using guarded_form [OF assms(1)] by blast
  obtain s1 r1 where c: "askForRNode (recording l) s = (s1, r1)" by fastforce
  note c' = recording_connect [OF c]
  show ?thesis
  proof (cases "r1 = Inr True")
    case False
    with assms(2) f c have "s' = s1"
      by (auto simp: with_rnode_def andThen_def finish_def split: sum.splits if_splits)
    with c' show ?thesis by simp
  next
    case True
    obtain b x where q: "l_request l CMD_ROM_READ [0x00] (fst (board s1)) = (b, x)" by fastforce
    have run: "when_provisioned sine (recording l) body s1 = (s', r)"
      using assms(2) f c True by (simp add: with_rnode_def andThen_def)
    show ?thesis
    proof (cases x)
      case (Inl y)
      with run q c' show ?thesis
        by (auto simp: when_provisioned_def andThen_def await_def getRomAsObject_def getRom_def recording_def
            case_prod_beta Let_def)
    next
      case (Inr e)
      then have "case parse_rom sine (new_rom e) of None \<Rightarrow> True | Some d \<Rightarrow> \<not> is_provisioned d"
        using assms(3) q by (auto split: option.splits)
      with Inr run q c' show ?thesis
        by (auto simp: when_provisioned_def andThen_def await_def getRomAsObject_def getRom_def all_bytes_def recording_def
            case_prod_beta Let_def page_alert_def disconnect_def)
    qed
  qed
qed

theorem unprovisioned_untouched_witness:
  "let l = rom_link\<lparr>l_request := \<lambda>c d b. (b, if c = CMD_ROM_READ then Inr (replicate 168 0xFF) else Inl Pending)\<rparr> in
    snd (board (fst (disableTncMode (\<lambda>x. 1 / x) (recording l) (fresh_page (replicate 168 0xFF, []))))) = []"
proof -
  define l where "l = rom_link\<lparr>l_request := \<lambda>c d b. (b, if c = CMD_ROM_READ then Inr (replicate 168 (0xFF :: byte)) else Inl Pending)\<rparr>"
  obtain s' r where run: "disableTncMode (\<lambda>x. 1 / x) (recording l) (fresh_page (replicate 168 0xFF, [])) = (s', r)" by fastforce
  have "parse_rom (\<lambda>x. 1 / x) (new_rom (replicate 168 0xFF)) = None"
    by (simp add: parse_locked js_at_nth)
  then have none: "\<forall>b b' e d. l_request l CMD_ROM_READ [0x00] b = (b', Inr e) \<and> parse_rom (\<lambda>x. 1 / x) (new_rom e) = Some d \<longrightarrow>
      \<not> is_provisioned d"
    by (simp add: l_def)
  have "snd (board s') = snd (board (fresh_page (replicate 168 (0xFF :: byte), [] :: int list list)))"
    by (rule unprovisioned_untouched [where f = "disableTncMode (\<lambda>x. 1 / x) (recording l)" and rotation = 0, OF _ run none])
      (simp add: guarded_handlers_def)
  with run show ?thesis by (simp add: Let_def l_def [symmetric] fresh_page_def)
qed

subsection \<open>The port after a flash\<close>

text \<open>
  \<open>flashNrf52\<close> closes \<open>this.serialPort\<close>, a property the page does not have; whatever the outcome of the
  flash, the port it opened is never closed.
\<close>

definition keeps_open :: "dfu_step \<Rightarrow> bool" where
  "keeps_open p \<longleftrightarrow> (\<forall>s. ClosePort \<in> set (dfu_acts (fst (p s))) \<longrightarrow> ClosePort \<in> set (dfu_acts s))"

lemma keeps_open_perform: "a \<noteq> ClosePort \<Longrightarrow> keeps_open (perform a)"
  by (simp add: keeps_open_def perform_def)

lemma keeps_open_and_then: "keeps_open p \<Longrightarrow> keeps_open q \<Longrightarrow> keeps_open (and_then p q)"
  unfolding keeps_open_def
proof (intro allI impI)
  fix s
  assume p: "\<forall>s. ClosePort \<in> set (dfu_acts (fst (p s))) \<longrightarrow> ClosePort \<in> set (dfu_acts s)"
    and q: "\<forall>s. ClosePort \<in> set (dfu_acts (fst (q s))) \<longrightarrow> ClosePort \<in> set (dfu_acts s)"
    and c: "ClosePort \<in> set (dfu_acts (fst (and_then p q s)))"
  obtain s1 e where "p s = (s1, e)" by fastforce
  then show "ClosePort \<in> set (dfu_acts s)"
    using c p [rule_format, of s] q [rule_format, of s1] by (cases e) (simp_all add: and_then_def)
qed

lemma keeps_open_pass: "keeps_open (\<lambda>s. (s, e))"
  by (simp add: keeps_open_def)

lemma keeps_open_in_order: "(\<And>p. p \<in> set ps \<Longrightarrow> keeps_open p) \<Longrightarrow> keeps_open (in_order ps)"
  by (induction ps) (simp_all add: keeps_open_and_then, simp add: keeps_open_def)

lemma keeps_open_sendPacket: "keeps_open (sendPacket port d)"
  by (simp add: keeps_open_def sendPacket_def)

lemma keeps_open_send_frame: "keeps_open (send_frame port frame)"
  by (simp add: keeps_open_def send_frame_def createHciPacketFromFrame_def sendPacket_def Let_def)

lemma build_packets_acts: "build_packets cs s = (ps, s') \<Longrightarrow> dfu_acts s' = dfu_acts s"
  by (induction cs arbitrary: s ps) (auto simp: createHciPacketFromFrame_def Let_def split: prod.splits)

lemma keeps_open_send_packets: "keeps_open (send_packets port cb count n ps)"
proof (induction ps arbitrary: n)
  case Nil
  then show ?case by (simp add: keeps_open_def)
next
  case (Cons p ps)
  then show ?case unfolding send_packets.simps
    by (intro keeps_open_in_order) (auto intro: keeps_open_perform keeps_open_sendPacket split: if_splits)
qed

lemma keeps_open_sendFirmware: "keeps_open (sendFirmware port cb firmware)"
  unfolding keeps_open_def
proof (intro allI impI)
  fix s assume c: "ClosePort \<in> set (dfu_acts (fst (sendFirmware port cb firmware s)))"
  obtain ps s' where b: "build_packets (blocks DFU_PACKET_MAX_SIZE firmware) s = (ps, s')" by fastforce
  have "keeps_open (in_order ((if cb then [perform (Progress 0)] else []) @
      [send_packets port cb (length ps) 0 ps, send_frame port (int32ToBytes DFU_STOP_DATA_PACKET)]))"
    by (intro keeps_open_in_order)
      (auto intro: keeps_open_perform keeps_open_send_packets keeps_open_send_frame split: if_splits)
  with c b have "ClosePort \<in> set (dfu_acts s')" by (simp add: sendFirmware_def keeps_open_def)
  with build_packets_acts [OF b] show "ClosePort \<in> set (dfu_acts s)" by simp
qed

lemma keeps_open_flash: "keeps_open (flash port cb parse_manifest entries)"
proof -
  have start: "keeps_open (sendStartDfu port mode a b c)" for mode a b c
    unfolding sendStartDfu_def
    by (intro keeps_open_and_then keeps_open_send_frame) (simp add: keeps_open_def perform_def Let_def)
  have init: "keeps_open (sendInitPacket port ip)" for ip
    unfolding sendInitPacket_def by (rule keeps_open_send_frame)
  have body: "keeps_open (in_order [sendStartDfu port mode 0 0 n, sendInitPacket port ip, sendFirmware port cb fw])"
    for mode n ip fw
    by (intro keeps_open_in_order) (auto intro: start init keeps_open_sendFirmware)
  have image: "keeps_open (dfuSendImage port cb mode entries app)" for mode app
    unfolding dfuSendImage_def
  proof (intro keeps_open_and_then)
    show "keeps_open (in_order [perform (OpenPort FLASH_BAUD), perform (SleepMillis (fl (SERIAL_PORT_OPEN_WAIT_TIME * 1000)))])"
      by (intro keeps_open_in_order) (auto intro: keeps_open_perform)
    show "keeps_open (\<lambda>s. case find_entry (bin_file app) entries of None \<Rightarrow> (s, Some NoSuchFile)
      | Some firmware \<Rightarrow>
          (case find_entry (dat_file app) entries of None \<Rightarrow> (s, Some NoSuchFile)
           | Some init_packet \<Rightarrow>
               if mode \<noteq> HEX_TYPE_APPLICATION then (s, Some NotImplemented)
               else in_order
                 [sendStartDfu port mode 0 0 (int (length firmware)), sendInitPacket port init_packet,
                  sendFirmware port cb firmware] s))"
      by (cases "find_entry (bin_file app) entries"; cases "find_entry (dat_file app) entries";
          cases "mode = HEX_TYPE_APPLICATION")
        (simp_all add: keeps_open_pass body del: in_order.simps)
  qed
  have chosen: "keeps_open (\<lambda>s. case x of None \<Rightarrow> (s, Some BadManifest) | Some None \<Rightarrow> (s, None)
      | Some (Some application) \<Rightarrow> dfuSendImage port cb HEX_TYPE_APPLICATION entries application s)" for x
    by (cases x; cases "the x") (simp_all add: keeps_open_pass image)
  show ?thesis unfolding flash_def
    by (cases "find_entry ''manifest.json'' entries") (simp_all add: keeps_open_pass chosen)
qed

lemma nrf52_port_stays_open:
  "ClosePort \<notin> set (snd (flashNrf52 l show_error port parse_manifest file s))"
  using keeps_open_flash [of port True parse_manifest]
  by (auto simp: flashNrf52_def keeps_open_def new_flasher_def split: option.splits prod.splits sum.splits bool.splits)
    (metis dfu.select_convs(4) empty_iff fst_conv list.set(1))

subsection \<open>The picture of the display\<close>

lemma frame_pixel_bit:
  assumes "x < 64" and "y * 8 + x div 8 < length fb"
  shows "frame_pixel fb 64 x y \<longleftrightarrow> bit (fb ! (y * 8 + x div 8)) (7 - x mod 8)"
proof -
  have i: "(y * 64 + x) div 8 = y * 8 + x div 8" by presburger
  have "js_and (js_shr (uint b) (7 - x mod 8)) 1 \<noteq> 0 \<longleftrightarrow> bit b (7 - x mod 8)" for b :: byte
  proof -
    have "i32 (js_and (js_shr (uint b) (7 - x mod 8)) 1) = (signed_drop_bit (7 - x mod 8) (ucast b) AND 1 :: 32 word)"
      by (simp add: js_bits i32_uint_byte)
    also have "\<dots> \<noteq> 0 \<longleftrightarrow> bit b (7 - x mod 8)"
      by (simp add: and_one_eq odd_iff_mod_2_eq_one [symmetric] bit_0 [symmetric] bit_simps)
        (use bit_imp_le_length [of b "7 - x mod 8"] in linarith)
    finally show ?thesis by (metis i32_sint js_and_def signed_0 i32_numeral(2))
  qed
  with assms(2) show ?thesis by (simp add: frame_pixel_def i js_at_nth Let_def)
qed

lemma display_picture:
  assumes "length buf = 1024" and "X < 512" and "Y < 256"
  shows "rnodeDisplayBufferToPng buf X Y \<longleftrightarrow>
    bit (buf ! ((if X < 256 then 0 else 512) + Y div 4 * 8 + X div 4 mod 64 div 8)) (7 - X div 4 mod 8)"
proof -
  have y: "Y div 4 < 64" using assms(3) by simp
  show ?thesis
  proof (cases "X < 256")
    case True
    then have x: "X div 4 < 64" by simp
    then have "Y div 4 * 8 + X div 4 div 8 < 512" using y by linarith
    then show ?thesis using True x assms(1)
      by (simp add: rnodeDisplayBufferToPng_def Let_def frame_pixel_bit)
  next
    case False
    define x where "x = X div 4 - 64"
    have x: "x < 64" "X div 4 = 64 + x" using False assms(2) by (simp_all add: x_def)
    then have "Y div 4 * 8 + x div 8 < 512" using y by linarith
    moreover have "(64 + x) mod 8 = x mod 8" by presburger
    ultimately show ?thesis using False x assms(1)
      by (simp add: rnodeDisplayBufferToPng_def Let_def frame_pixel_bit ac_simps)
  qed
qed

end
