(* ===== verification/Flasher_Table.thy ===== *)
theory Flasher_Table
  imports Flasher
begin

text \<open>
  The table of products and models of the flasher page, with the codes of \<open>ROM\<close> it is written in. The
  display names are left out. Every flash configuration of the table has the same five files, named after
  the firmware, at the same addresses but for the bootloader's: \<open>esp_config\<close> is that shape.
\<close>

subsection \<open>Codes\<close>

definition PRODUCT_RAK4631 :: byte where "PRODUCT_RAK4631 = 0x10"
definition MODEL_11 :: byte where "MODEL_11 = 0x11"
definition MODEL_12 :: byte where "MODEL_12 = 0x12"
definition PRODUCT_RNODE :: byte where "PRODUCT_RNODE = 0x03"
definition MODEL_A1 :: byte where "MODEL_A1 = 0xA1"
definition MODEL_A6 :: byte where "MODEL_A6 = 0xA6"
definition MODEL_A4 :: byte where "MODEL_A4 = 0xA4"
definition MODEL_A9 :: byte where "MODEL_A9 = 0xA9"
definition MODEL_A3 :: byte where "MODEL_A3 = 0xA3"
definition MODEL_A8 :: byte where "MODEL_A8 = 0xA8"
definition MODEL_A2 :: byte where "MODEL_A2 = 0xA2"
definition MODEL_A7 :: byte where "MODEL_A7 = 0xA7"
definition MODEL_A5 :: byte where "MODEL_A5 = 0xA5"
definition MODEL_AA :: byte where "MODEL_AA = 0xAA"
definition MODEL_AC :: byte where "MODEL_AC = 0xAC"
definition PRODUCT_T32_10 :: byte where "PRODUCT_T32_10 = 0xB2"
definition MODEL_BA :: byte where "MODEL_BA = 0xBA"
definition MODEL_BB :: byte where "MODEL_BB = 0xBB"
definition PRODUCT_T32_20 :: byte where "PRODUCT_T32_20 = 0xB0"
definition MODEL_B3 :: byte where "MODEL_B3 = 0xB3"
definition MODEL_B8 :: byte where "MODEL_B8 = 0xB8"
definition PRODUCT_T32_21 :: byte where "PRODUCT_T32_21 = 0xB1"
definition MODEL_B4 :: byte where "MODEL_B4 = 0xB4"
definition MODEL_B9 :: byte where "MODEL_B9 = 0xB9"
definition MODEL_B4_TCXO :: byte where "MODEL_B4_TCXO = 0x04"
definition MODEL_B9_TCXO :: byte where "MODEL_B9_TCXO = 0x09"
definition PRODUCT_H32_V2 :: byte where "PRODUCT_H32_V2 = 0xC0"
definition MODEL_C4 :: byte where "MODEL_C4 = 0xC4"
definition MODEL_C9 :: byte where "MODEL_C9 = 0xC9"
definition PRODUCT_H32_V3 :: byte where "PRODUCT_H32_V3 = 0xC1"
definition MODEL_C5 :: byte where "MODEL_C5 = 0xC5"
definition MODEL_CA :: byte where "MODEL_CA = 0xCA"
definition PRODUCT_HELTEC_T114 :: byte where "PRODUCT_HELTEC_T114 = 0xC2"
definition MODEL_C6 :: byte where "MODEL_C6 = 0xC6"
definition MODEL_C7 :: byte where "MODEL_C7 = 0xC7"
definition PRODUCT_TBEAM :: byte where "PRODUCT_TBEAM = 0xE0"
definition MODEL_E4 :: byte where "MODEL_E4 = 0xE4"
definition MODEL_E9 :: byte where "MODEL_E9 = 0xE9"
definition MODEL_E3 :: byte where "MODEL_E3 = 0xE3"
definition MODEL_E8 :: byte where "MODEL_E8 = 0xE8"
definition PRODUCT_TBEAM_S_V1 :: byte where "PRODUCT_TBEAM_S_V1 = 0xEA"
definition MODEL_DB :: byte where "MODEL_DB = 0xDB"
definition MODEL_DC :: byte where "MODEL_DC = 0xDC"
definition PRODUCT_TDECK :: byte where "PRODUCT_TDECK = 0xD0"
definition MODEL_D4 :: byte where "MODEL_D4 = 0xD4"
definition MODEL_D9 :: byte where "MODEL_D9 = 0xD9"
definition PRODUCT_TECHO :: byte where "PRODUCT_TECHO = 0x15"
definition MODEL_16 :: byte where "MODEL_16 = 0x16"
definition MODEL_17 :: byte where "MODEL_17 = 0x17"
definition PRODUCT_HMBRW :: byte where "PRODUCT_HMBRW = 0xF0"
definition MODEL_FF :: byte where "MODEL_FF = 0xFF"
definition MODEL_FE :: byte where "MODEL_FE = 0xFE"

lemmas rom_codes =
  PRODUCT_RAK4631_def MODEL_11_def MODEL_12_def PRODUCT_RNODE_def MODEL_A1_def MODEL_A6_def MODEL_A4_def
  MODEL_A9_def MODEL_A3_def MODEL_A8_def MODEL_A2_def MODEL_A7_def MODEL_A5_def MODEL_AA_def MODEL_AC_def
  PRODUCT_T32_10_def MODEL_BA_def MODEL_BB_def PRODUCT_T32_20_def MODEL_B3_def MODEL_B8_def PRODUCT_T32_21_def
  MODEL_B4_def MODEL_B9_def MODEL_B4_TCXO_def MODEL_B9_TCXO_def PRODUCT_H32_V2_def MODEL_C4_def MODEL_C9_def
  PRODUCT_H32_V3_def MODEL_C5_def MODEL_CA_def PRODUCT_HELTEC_T114_def MODEL_C6_def MODEL_C7_def
  PRODUCT_TBEAM_def MODEL_E4_def MODEL_E9_def MODEL_E3_def MODEL_E8_def PRODUCT_TBEAM_S_V1_def MODEL_DB_def
  MODEL_DC_def PRODUCT_TDECK_def MODEL_D4_def MODEL_D9_def PRODUCT_TECHO_def MODEL_16_def MODEL_17_def
  PRODUCT_HMBRW_def MODEL_FF_def MODEL_FE_def

subsection \<open>Products and models\<close>

definition esp_config :: "string \<Rightarrow> string \<Rightarrow> string \<Rightarrow> flash_config" where
  "esp_config megabytes stem bootloader = \<lparr>flash_size = megabytes, flash_files =
     [(''0xe000'', stem @ ''.boot_app0''), (bootloader, stem @ ''.bootloader''), (''0x10000'', stem @ ''.bin''),
      (''0x210000'', ''console_image.bin''), (''0x8000'', stem @ ''.partitions'')]\<rparr>"

definition choice_heltec_lora32_v2 :: "product_choice \<times> model_choice list" where
  "choice_heltec_lora32_v2 = (\<lparr>product_id = PRODUCT_H32_V2, platform = PLATFORM_ESP32, product_filename = Some ''rnode_firmware_heltec32v2.zip'',
     product_config = Some (esp_config ''8MB'' ''rnode_firmware_heltec32v2'' ''0x1000'')\<rparr>,
    [\<lparr>model_id = MODEL_C4, mapped_id = None, model_filename = None,
       model_config = None\<rparr>,
     \<lparr>model_id = MODEL_C9, mapped_id = None, model_filename = None,
       model_config = None\<rparr>])"

definition choice_heltec_lora32_v3 :: "product_choice \<times> model_choice list" where
  "choice_heltec_lora32_v3 = (\<lparr>product_id = PRODUCT_H32_V3, platform = PLATFORM_ESP32, product_filename = Some ''rnode_firmware_heltec32v3.zip'',
     product_config = Some (esp_config ''8MB'' ''rnode_firmware_heltec32v3'' ''0x0'')\<rparr>,
    [\<lparr>model_id = MODEL_C5, mapped_id = None, model_filename = None,
       model_config = None\<rparr>,
     \<lparr>model_id = MODEL_CA, mapped_id = None, model_filename = None,
       model_config = None\<rparr>])"

definition choice_heltec_t114 :: "product_choice \<times> model_choice list" where
  "choice_heltec_t114 = (\<lparr>product_id = PRODUCT_HELTEC_T114, platform = PLATFORM_NRF52, product_filename = Some ''rnode_firmware_heltec_t114.zip'',
     product_config = None\<rparr>,
    [\<lparr>model_id = MODEL_C6, mapped_id = None, model_filename = None,
       model_config = None\<rparr>,
     \<lparr>model_id = MODEL_C7, mapped_id = None, model_filename = None,
       model_config = None\<rparr>])"

definition choice_lilygo_lora32_v1_0 :: "product_choice \<times> model_choice list" where
  "choice_lilygo_lora32_v1_0 = (\<lparr>product_id = PRODUCT_T32_10, platform = PLATFORM_ESP32, product_filename = Some ''rnode_firmware_lora32v10.zip'',
     product_config = Some (esp_config ''4MB'' ''rnode_firmware_lora32v10'' ''0x1000'')\<rparr>,
    [\<lparr>model_id = MODEL_BA, mapped_id = None, model_filename = None,
       model_config = None\<rparr>,
     \<lparr>model_id = MODEL_BB, mapped_id = None, model_filename = None,
       model_config = None\<rparr>])"

definition choice_lilygo_lora32_v2_0 :: "product_choice \<times> model_choice list" where
  "choice_lilygo_lora32_v2_0 = (\<lparr>product_id = PRODUCT_T32_20, platform = PLATFORM_ESP32, product_filename = Some ''rnode_firmware_lora32v20.zip'',
     product_config = Some (esp_config ''4MB'' ''rnode_firmware_lora32v20'' ''0x1000'')\<rparr>,
    [\<lparr>model_id = MODEL_B3, mapped_id = None, model_filename = None,
       model_config = None\<rparr>,
     \<lparr>model_id = MODEL_B8, mapped_id = None, model_filename = None,
       model_config = None\<rparr>])"

definition choice_lilygo_lora32_v2_1 :: "product_choice \<times> model_choice list" where
  "choice_lilygo_lora32_v2_1 = (\<lparr>product_id = PRODUCT_T32_21, platform = PLATFORM_ESP32, product_filename = None,
     product_config = None\<rparr>,
    [\<lparr>model_id = MODEL_B4, mapped_id = None, model_filename = Some ''rnode_firmware_lora32v21.zip'',
       model_config = Some (esp_config ''4MB'' ''rnode_firmware_lora32v21'' ''0x1000'')\<rparr>,
     \<lparr>model_id = MODEL_B9, mapped_id = None, model_filename = Some ''rnode_firmware_lora32v21.zip'',
       model_config = Some (esp_config ''4MB'' ''rnode_firmware_lora32v21'' ''0x1000'')\<rparr>,
     \<lparr>model_id = MODEL_B4_TCXO, mapped_id = Some MODEL_B4, model_filename = Some ''rnode_firmware_lora32v21_tcxo.zip'',
       model_config = Some (esp_config ''4MB'' ''rnode_firmware_lora32v21_tcxo'' ''0x1000'')\<rparr>,
     \<lparr>model_id = MODEL_B9_TCXO, mapped_id = Some MODEL_B9, model_filename = Some ''rnode_firmware_lora32v21_tcxo.zip'',
       model_config = Some (esp_config ''4MB'' ''rnode_firmware_lora32v21_tcxo'' ''0x1000'')\<rparr>])"

definition choice_lilygo_lora_t3s3 :: "product_choice \<times> model_choice list" where
  "choice_lilygo_lora_t3s3 = (\<lparr>product_id = PRODUCT_RNODE, platform = PLATFORM_ESP32, product_filename = None,
     product_config = None\<rparr>,
    [\<lparr>model_id = MODEL_A5, mapped_id = None, model_filename = Some ''rnode_firmware_t3s3_sx127x.zip'',
       model_config = Some (esp_config ''4MB'' ''rnode_firmware_t3s3_sx127x'' ''0x0'')\<rparr>,
     \<lparr>model_id = MODEL_AA, mapped_id = None, model_filename = Some ''rnode_firmware_t3s3_sx127x.zip'',
       model_config = Some (esp_config ''4MB'' ''rnode_firmware_t3s3_sx127x'' ''0x0'')\<rparr>,
     \<lparr>model_id = MODEL_A1, mapped_id = None, model_filename = Some ''rnode_firmware_t3s3.zip'',
       model_config = Some (esp_config ''4MB'' ''rnode_firmware_t3s3'' ''0x0'')\<rparr>,
     \<lparr>model_id = MODEL_A6, mapped_id = None, model_filename = Some ''rnode_firmware_t3s3.zip'',
       model_config = Some (esp_config ''4MB'' ''rnode_firmware_t3s3'' ''0x0'')\<rparr>,
     \<lparr>model_id = MODEL_AC, mapped_id = None, model_filename = Some ''rnode_firmware_t3s3_sx1280_pa.zip'',
       model_config = Some (esp_config ''4MB'' ''rnode_firmware_t3s3_sx1280_pa'' ''0x0'')\<rparr>])"

definition choice_lilygo_t_beam :: "product_choice \<times> model_choice list" where
  "choice_lilygo_t_beam = (\<lparr>product_id = PRODUCT_TBEAM, platform = PLATFORM_ESP32, product_filename = None,
     product_config = None\<rparr>,
    [\<lparr>model_id = MODEL_E4, mapped_id = None, model_filename = Some ''rnode_firmware_tbeam.zip'',
       model_config = Some (esp_config ''4MB'' ''rnode_firmware_tbeam'' ''0x1000'')\<rparr>,
     \<lparr>model_id = MODEL_E9, mapped_id = None, model_filename = Some ''rnode_firmware_tbeam.zip'',
       model_config = Some (esp_config ''4MB'' ''rnode_firmware_tbeam'' ''0x1000'')\<rparr>,
     \<lparr>model_id = MODEL_E3, mapped_id = None, model_filename = Some ''rnode_firmware_tbeam_sx1262.zip'',
       model_config = Some (esp_config ''4MB'' ''rnode_firmware_tbeam_sx1262'' ''0x1000'')\<rparr>,
     \<lparr>model_id = MODEL_E8, mapped_id = None, model_filename = Some ''rnode_firmware_tbeam_sx1262.zip'',
       model_config = Some (esp_config ''4MB'' ''rnode_firmware_tbeam_sx1262'' ''0x1000'')\<rparr>])"

definition choice_lilygo_t_beam_supreme :: "product_choice \<times> model_choice list" where
  "choice_lilygo_t_beam_supreme = (\<lparr>product_id = PRODUCT_TBEAM_S_V1, platform = PLATFORM_ESP32, product_filename = Some ''rnode_firmware_tbeam_supreme.zip'',
     product_config = Some (esp_config ''4MB'' ''rnode_firmware_tbeam_supreme'' ''0x0'')\<rparr>,
    [\<lparr>model_id = MODEL_DB, mapped_id = None, model_filename = None,
       model_config = None\<rparr>,
     \<lparr>model_id = MODEL_DC, mapped_id = None, model_filename = None,
       model_config = None\<rparr>])"

definition choice_lilygo_t_deck :: "product_choice \<times> model_choice list" where
  "choice_lilygo_t_deck = (\<lparr>product_id = PRODUCT_TDECK, platform = PLATFORM_ESP32, product_filename = Some ''rnode_firmware_tdeck.zip'',
     product_config = Some (esp_config ''4MB'' ''rnode_firmware_tdeck'' ''0x0'')\<rparr>,
    [\<lparr>model_id = MODEL_D4, mapped_id = None, model_filename = None,
       model_config = None\<rparr>,
     \<lparr>model_id = MODEL_D9, mapped_id = None, model_filename = None,
       model_config = None\<rparr>])"

definition choice_lilygo_t_echo :: "product_choice \<times> model_choice list" where
  "choice_lilygo_t_echo = (\<lparr>product_id = PRODUCT_TECHO, platform = PLATFORM_NRF52, product_filename = Some ''rnode_firmware_techo.zip'',
     product_config = None\<rparr>,
    [\<lparr>model_id = MODEL_16, mapped_id = None, model_filename = None,
       model_config = None\<rparr>,
     \<lparr>model_id = MODEL_17, mapped_id = None, model_filename = None,
       model_config = None\<rparr>])"

definition choice_rak4631 :: "product_choice \<times> model_choice list" where
  "choice_rak4631 = (\<lparr>product_id = PRODUCT_RAK4631, platform = PLATFORM_NRF52, product_filename = Some ''rnode_firmware_rak4631.zip'',
     product_config = None\<rparr>,
    [\<lparr>model_id = MODEL_11, mapped_id = None, model_filename = None,
       model_config = None\<rparr>,
     \<lparr>model_id = MODEL_12, mapped_id = None, model_filename = None,
       model_config = None\<rparr>])"

definition choice_rnode :: "product_choice \<times> model_choice list" where
  "choice_rnode = (\<lparr>product_id = PRODUCT_RNODE, platform = PLATFORM_ESP32, product_filename = None,
     product_config = None\<rparr>,
    [\<lparr>model_id = MODEL_A2, mapped_id = None, model_filename = Some ''rnode_firmware_ng21.zip'',
       model_config = Some (esp_config ''4MB'' ''rnode_firmware_ng21'' ''0x1000'')\<rparr>,
     \<lparr>model_id = MODEL_A7, mapped_id = None, model_filename = Some ''rnode_firmware_ng21.zip'',
       model_config = Some (esp_config ''4MB'' ''rnode_firmware_ng21'' ''0x1000'')\<rparr>,
     \<lparr>model_id = MODEL_A1, mapped_id = None, model_filename = Some ''rnode_firmware_t3s3.zip'',
       model_config = Some (esp_config ''4MB'' ''rnode_firmware_t3s3'' ''0x0'')\<rparr>,
     \<lparr>model_id = MODEL_A6, mapped_id = None, model_filename = Some ''rnode_firmware_t3s3.zip'',
       model_config = Some (esp_config ''4MB'' ''rnode_firmware_t3s3'' ''0x0'')\<rparr>])"

definition product_table :: "(product_choice \<times> model_choice list) list" where
  "product_table = [
     choice_heltec_lora32_v2, choice_heltec_lora32_v3, choice_heltec_t114,
     choice_lilygo_lora32_v1_0, choice_lilygo_lora32_v2_0, choice_lilygo_lora32_v2_1,
     choice_lilygo_lora_t3s3, choice_lilygo_t_beam, choice_lilygo_t_beam_supreme,
     choice_lilygo_t_deck, choice_lilygo_t_echo, choice_rak4631, choice_rnode]"

lemmas product_table_defs = product_table_def esp_config_def
  choice_heltec_lora32_v2_def choice_heltec_lora32_v3_def choice_heltec_t114_def choice_lilygo_lora32_v1_0_def
  choice_lilygo_lora32_v2_0_def choice_lilygo_lora32_v2_1_def choice_lilygo_lora_t3s3_def
  choice_lilygo_t_beam_def choice_lilygo_t_beam_supreme_def choice_lilygo_t_deck_def choice_lilygo_t_echo_def
  choice_rak4631_def choice_rnode_def

subsection \<open>Every choice can be flashed\<close>

text \<open>
  The files of a configuration go to distinct sectors of the smallest flash of the table, and come from
  the firmware archive of the given name, but for the console image.
\<close>

definition layout_ok :: "string \<Rightarrow> flash_config \<Rightarrow> bool" where
  "layout_ok archive c \<longleftrightarrow> distinct (map (\<lambda>(a, _). parse_address a) (flash_files c)) \<and>
     list_all (\<lambda>(a, f). 0 \<le> parse_address a \<and> parse_address a < 4 * 2 ^ 20 \<and> parse_address a mod 4096 = 0 \<and>
       (f = ''console_image.bin'' \<or> takeWhile (\<lambda>c. c \<noteq> CHR ''.'') f = takeWhile (\<lambda>c. c \<noteq> CHR ''.'') archive)) (flash_files c)"

definition choice_ok :: "flash_target \<Rightarrow> flash_config option \<Rightarrow> string option \<Rightarrow> bool" where
  "choice_ok target config archive = (case archive of None \<Rightarrow> False | Some f \<Rightarrow>
     (case target of NoTarget \<Rightarrow> False | ToNrf52 \<Rightarrow> True
      | ToEsp32 \<Rightarrow> (case config of None \<Rightarrow> False | Some c \<Rightarrow> layout_ok f c)))"

text \<open>What the page makes of a choice depends on the chosen product and model only.\<close>

definition table_row_ok :: "product_choice \<Rightarrow> model_choice \<Rightarrow> bool" where
  "table_row_ok p m \<longleftrightarrow>
     choice_ok (if platform p = PLATFORM_ESP32 then ToEsp32 else if platform p = PLATFORM_NRF52 then ToNrf52 else NoTarget)
       (case model_config m of Some c \<Rightarrow> Some c | None \<Rightarrow> product_config p)
       (case model_filename m of Some f \<Rightarrow> Some f | None \<Rightarrow> product_filename p) \<and>
     chosen_model m \<notin> {MODEL_B4_TCXO, MODEL_B9_TCXO}"

lemma table_rows_ok: "list_all (\<lambda>(p, ms). list_all (\<lambda>m. table_row_ok p m) ms) product_table"
  by code_simp


text \<open>A page with a choice whose model code is mapped to another.\<close>

definition tcxo_page :: "unit flasher" where
  "tcxo_page = \<lparr>board = (), rnode_kept = False, isFlashing = False, flashingProgress = 0, isProvisioning = False,
     isSettingFirmwareHash = False, selectedProduct = Some (fst choice_lilygo_lora32_v2_1),
     selectedModel = Some (snd choice_lilygo_lora32_v2_1 ! 2),
     tnc = \<lparr>configFrequency = 917375000, configBandwidth = 250000, configTxPower = 22, configSpreadingFactor = 11,
       configCodingRate = 5\<rparr>, alerts = [], display_image = None\<rparr>"


end
