(* ===== verification/Forms.thy ===== *)
theory Forms
  imports Run_View "HOL-Library.Sublist"
begin

text \<open>
  The small scripts of the console: \<open>bandfilter.js\<close>, \<open>copy.js\<close>, \<open>dparams.js\<close>, \<open>logs.js\<close>,
  \<open>schemeauth.js\<close> and \<open>theme.js\<close>. Each wires the elements the server rendered; the ones that are wired
  again for a loaded stack body carry the number of their listeners.
\<close>

subsection \<open>Bands of a parameter grid\<close>

record band_cell =
  cell_band :: string
  cell_hidden :: bool

text \<open>A grid: the value of its radio selector if it has one, its cells, its change listeners.\<close>

record grid =
  radio_value :: "string option"
  band_cells :: "band_cell list"
  grid_listeners :: nat

definition band_hides :: "string \<Rightarrow> string \<Rightarrow> bool" where
  "band_hides v band \<longleftrightarrow> (v = ''433'' \<or> v = ''868'') \<and> band \<noteq> v"

definition apply_band :: "grid \<Rightarrow> grid" where
  "apply_band g = (case radio_value g of
     None \<Rightarrow> g
   | Some v \<Rightarrow> g\<lparr>band_cells := map (\<lambda>c. c\<lparr>cell_hidden := band_hides v (cell_band c)\<rparr>) (band_cells g)\<rparr>)"

definition wire_grid :: "grid \<Rightarrow> grid" where
  "wire_grid g = (if radio_value g = None then g
     else apply_band (g\<lparr>grid_listeners := Suc (grid_listeners g)\<rparr>))"

definition change_radio :: "string \<Rightarrow> grid \<Rightarrow> grid" where
  "change_radio v g = (if radio_value g = None then g
     else (apply_band ^^ grid_listeners g) (g\<lparr>radio_value := Some v\<rparr>))"

subsection \<open>Copy and reveal buttons\<close>

definition check_mark :: string where "check_mark = [CHR 0xE2, CHR 0x9C, CHR 0x93]"
definition copy_mark :: string where "copy_mark = [CHR 0xE2, CHR 0xA7, CHR 0x89]"
definition eye_mark :: string where "eye_mark = [CHR 0xE2, CHR 0x97, CHR 0x89]"

text \<open>
  A copy button with its box (\<open>None\<close> when the id names nothing), the clipboard writes and the timers
  on their way, the selection and what the clipboard holds.
\<close>

record copy_button =
  pre_text :: "string option"
  has_clipboard :: bool
  copy_label :: string
  copy_writes :: "string list"
  copy_timers :: nat
  selection :: "string option"
  clipboard :: string

text \<open>\<open>document.execCommand("copy")\<close> copies and answers true, answers false, or throws.\<close>

datatype exec_outcome = ExecTrue | ExecFalse | ExecThrows

definition copy_done :: "copy_button \<Rightarrow> copy_button" where
  "copy_done b = b\<lparr>copy_label := check_mark @ '' copied'', copy_timers := Suc (copy_timers b)\<rparr>"

definition exec_copy :: "exec_outcome \<Rightarrow> string \<Rightarrow> copy_button \<Rightarrow> copy_button" where
  "exec_copy out t b = (case out of
     ExecTrue \<Rightarrow> copy_done (b\<lparr>clipboard := t\<rparr>)
   | ExecFalse \<Rightarrow> copy_done b
   | ExecThrows \<Rightarrow> b)"

definition copy_click :: "exec_outcome \<Rightarrow> copy_button \<Rightarrow> copy_button" where
  "copy_click out b = (case pre_text b of
     None \<Rightarrow> b
   | Some t \<Rightarrow>
       if has_clipboard b then b\<lparr>copy_writes := copy_writes b @ [t]\<rparr>
       else (exec_copy out t (b\<lparr>selection := Some t\<rparr>))\<lparr>selection := None\<rparr>)"

definition write_settles :: "bool \<Rightarrow> copy_button \<Rightarrow> copy_button" where
  "write_settles ok b = (case copy_writes b of
     [] \<Rightarrow> b
   | t # ts \<Rightarrow> if ok then copy_done (b\<lparr>copy_writes := ts, clipboard := t\<rparr>) else b\<lparr>copy_writes := ts\<rparr>)"

definition copy_timer :: "copy_button \<Rightarrow> copy_button" where
  "copy_timer b = b\<lparr>copy_label := copy_mark @ '' copy'', copy_timers := copy_timers b - 1\<rparr>"

record secret =
  masked :: bool
  reveal_label :: string
  reveal_title :: string

definition reveal_click :: "secret \<Rightarrow> secret" where
  "reveal_click s = (let shown = masked s in
     s\<lparr>masked := \<not> masked s,
       reveal_label := (if shown then eye_mark @ '' hide'' else eye_mark @ '' show''),
       reveal_title := (if shown then ''Hide the password'' else ''Show the password'')\<rparr>)"

subsection \<open>The warning before FSK\<close>

text \<open>A form: the values of its mode selectors, in order, and its submit listeners.\<close>

record param_form =
  mode_values :: "string list"
  submit_listeners :: nat

fun anyFskSelected :: "string list \<Rightarrow> bool" where
  "anyFskSelected [] \<longleftrightarrow> False"
| "anyFskSelected (v # vs) \<longleftrightarrow> (if v = ''FSK'' then True else anyFskSelected vs)"

text \<open>The submitter, if any, by its \<open>formAction\<close>.\<close>

definition isResetSubmit :: "string option \<Rightarrow> bool" where
  "isResetSubmit by_action = (case by_action of
     None \<Rightarrow> False | Some action \<Rightarrow> suffix ''/daemon-params/reset'' action)"

definition wireForm :: "param_form \<Rightarrow> param_form" where
  "wireForm f = (if mode_values f = [] then f else f\<lparr>submit_listeners := Suc (submit_listeners f)\<rparr>)"

text \<open>One listener: the number of questions and whether it prevents the submission.\<close>

definition submit_listener :: "string option \<Rightarrow> param_form \<Rightarrow> bool \<Rightarrow> nat \<times> bool" where
  "submit_listener by_action f answer =
     (if isResetSubmit by_action then (0, False)
      else if anyFskSelected (mode_values f) then (1, \<not> answer) else (0, False))"

text \<open>A submission: every listener runs, with the answers given in turn; the questions and whether it goes out.\<close>

fun submit_form :: "string option \<Rightarrow> param_form \<Rightarrow> nat \<Rightarrow> (nat \<Rightarrow> bool) \<Rightarrow> nat \<times> bool" where
  "submit_form by_action f 0 answers = (0, True)"
| "submit_form by_action f (Suc n) answers =
     (let (asked, sent) = submit_form by_action f n answers;
          (q, prevented) = submit_listener by_action f (answers asked)
      in (asked + q, sent \<and> \<not> prevented))"

subsection \<open>The log tail\<close>

text \<open>A scrolled box; the height of its content is the browser's, a function of the text.\<close>

record scroll_box =
  shown :: string
  scroll_top :: int
  client_height :: int

record log_page =
  log_url :: string
  log_box :: scroll_box
  log_status :: "(string \<times> string) option"

definition log_page_url :: "string \<Rightarrow> string \<Rightarrow> string \<Rightarrow> string" where
  "log_page_url target job band =
     (let q = (if job = '''' then [] else [''job='' @ encodeURIComponent job]) @
              (if band = '''' then [] else [''band='' @ encodeURIComponent band])
      in ''/api/logs/'' @ encodeURIComponent target @ (if q = [] then '''' else ''?'' @ join ''&'' q))"

text \<open>An assigned \<open>scrollTop\<close>, and one the content no longer allows, is brought into range.\<close>

definition clamp_top :: "(string \<Rightarrow> int) \<Rightarrow> scroll_box \<Rightarrow> scroll_box" where
  "clamp_top height b = b\<lparr>scroll_top := max 0 (min (scroll_top b) (height (shown b) - client_height b))\<rparr>"

definition atBottom :: "(string \<Rightarrow> int) \<Rightarrow> scroll_box \<Rightarrow> bool" where
  "atBottom height b \<longleftrightarrow> height (shown b) - scroll_top b - client_height b < 40"

definition to_bottom :: "(string \<Rightarrow> int) \<Rightarrow> scroll_box \<Rightarrow> scroll_box" where
  "to_bottom height b = clamp_top height (b\<lparr>scroll_top := height (shown b)\<rparr>)"

definition log_mark :: "bool \<Rightarrow> log_page \<Rightarrow> log_page" where
  "log_mark running p = (case log_status p of
     None \<Rightarrow> p
   | Some _ \<Rightarrow> p\<lparr>log_status := Some (if running then ''process running'' else ''process ended'',
       ''badge badge-'' @ (if running then ''running'' else ''stopped''))\<rparr>)"

text \<open>The answer to a poll: the lines (\<open>[]\<close> when absent) and whether the process runs.\<close>

definition show_lines :: "string list \<Rightarrow> string" where
  "show_lines ls = (if ls = [] then ''(no output yet)'' else join [CHR 0x0A] ls)"

definition log_answer :: "(string \<Rightarrow> int) \<Rightarrow> string list \<times> bool \<Rightarrow> log_page \<Rightarrow> log_page" where
  "log_answer height d p =
     (let stick = atBottom height (log_box p);
          b = clamp_top height ((log_box p)\<lparr>shown := show_lines (fst d)\<rparr>);
          b' = (if stick then to_bottom height b else b)
      in log_mark (snd d) (p\<lparr>log_box := b'\<rparr>))"

text \<open>A response that is not ok resolves to \<open>null\<close> and is dropped; a failed fetch shows on the status.\<close>

definition poll_log :: "(string \<Rightarrow> int) \<Rightarrow> (string list \<times> bool) option option \<Rightarrow> log_page \<Rightarrow> log_page" where
  "poll_log height ans p = (case ans of
     None \<Rightarrow> p\<lparr>log_status := map_option (\<lambda>(t, c). (''retrying'' @ ellipsis, c)) (log_status p)\<rparr>
   | Some None \<Rightarrow> p
   | Some (Some d) \<Rightarrow> log_answer height d p)"

definition load_log_page :: "(string \<Rightarrow> int) \<Rightarrow> string \<Rightarrow> string \<Rightarrow> string \<Rightarrow> scroll_box \<Rightarrow> (string \<times> string) option \<Rightarrow> log_page" where
  "load_log_page height target job band box status =
     \<lparr>log_url = log_page_url target job band, log_box = to_bottom height box, log_status = status\<rparr>"

text \<open>\<open>Clear\<close> asks with the form's text; the form goes out when the operator agrees.\<close>

definition log_clear :: "(string \<Rightarrow> bool) \<Rightarrow> string option \<Rightarrow> bool" where
  "log_clear confirm data_confirm = confirm (case data_confirm of
     None \<Rightarrow> ''Clear the RF log?'' | Some t \<Rightarrow> if t = '''' then ''Clear the RF log?'' else t)"

subsection \<open>Scheme and access mode\<close>

record auth_option =
  option_value :: string
  option_disabled :: bool

record auth_select =
  options_of :: "auth_option list"
  selected_index :: "nat option"

definition auth_value :: "auth_select \<Rightarrow> string" where
  "auth_value s = (case selected_index s of
     None \<Rightarrow> ''''
   | Some i \<Rightarrow> (case js_at (options_of s) i of None \<Rightarrow> '''' | Some q \<Rightarrow> option_value q))"

fun first_no_auth :: "nat \<Rightarrow> auth_option list \<Rightarrow> nat option" where
  "first_no_auth j [] = None"
| "first_no_auth j (q # qs) = (if option_value q = ''no-auth'' then Some j else first_no_auth (Suc j) qs)"

definition sync_scheme :: "string \<Rightarrow> auth_select \<Rightarrow> auth_select" where
  "sync_scheme scheme s =
     (let http = scheme = ''http'';
          s1 = s\<lparr>options_of := map (\<lambda>q. q\<lparr>option_disabled := http \<and> option_value q \<noteq> ''no-auth''\<rparr>) (options_of s)\<rparr>
      in if http \<and> auth_value s1 \<noteq> ''no-auth'' then
           (case first_no_auth 0 (options_of s1) of None \<Rightarrow> s1 | Some j \<Rightarrow> s1\<lparr>selected_index := Some j\<rparr>)
         else s1)"

text \<open>A panel: the scheme, its access mode selector if the page has it, whether it was wired.\<close>

record scheme_panel =
  scheme_value :: string
  auth_sel :: "auth_select option"
  scheme_wired :: bool

definition sync_panel :: "scheme_panel \<Rightarrow> scheme_panel" where
  "sync_panel p = p\<lparr>auth_sel := map_option (sync_scheme (scheme_value p)) (auth_sel p)\<rparr>"

definition wire_panel :: "scheme_panel \<Rightarrow> scheme_panel" where
  "wire_panel p = sync_panel (p\<lparr>scheme_wired := True\<rparr>)"

definition change_scheme :: "string \<Rightarrow> scheme_panel \<Rightarrow> scheme_panel" where
  "change_scheme v p = (let p' = p\<lparr>scheme_value := v\<rparr> in if scheme_wired p' then sync_panel p' else p')"

text \<open>The operator picks an option that is not disabled.\<close>

definition pick_auth :: "nat \<Rightarrow> scheme_panel \<Rightarrow> scheme_panel" where
  "pick_auth i p = (case auth_sel p of
     None \<Rightarrow> p
   | Some s \<Rightarrow> (case js_at (options_of s) i of
        None \<Rightarrow> p
      | Some q \<Rightarrow> if option_disabled q then p else p\<lparr>auth_sel := Some (s\<lparr>selected_index := Some i\<rparr>)\<rparr>))"

subsection \<open>The theme\<close>

text \<open>
  The page's theme, the operating system's scheme (\<open>None\<close> where \<open>matchMedia\<close> is missing), the stored
  choice, whether the storage works.
\<close>

record theme_page =
  data_theme :: string
  os_dark :: "bool option"
  theme_store :: "string option"
  store_works :: bool

definition stored_theme :: "theme_page \<Rightarrow> string option" where
  "stored_theme p = (if store_works p then theme_store p else None)"

definition systemDark :: "theme_page \<Rightarrow> bool" where
  "systemDark p \<longleftrightarrow> os_dark p = Some True"

definition system_theme :: "theme_page \<Rightarrow> string" where
  "system_theme p = (if systemDark p then ''dark'' else ''light'')"

definition resolve_theme :: "theme_page \<Rightarrow> string" where
  "resolve_theme p = (let s = stored_theme p in
     if s = Some ''dark'' \<or> s = Some ''light'' then the s else system_theme p)"

definition apply_theme :: "string \<Rightarrow> theme_page \<Rightarrow> theme_page" where
  "apply_theme t p = p\<lparr>data_theme := t\<rparr>"

definition load_theme :: "theme_page \<Rightarrow> theme_page" where
  "load_theme p = apply_theme (resolve_theme p) p"

text \<open>\<open>onChange\<close> runs when the system's scheme changes: the stored text must be absent or empty.\<close>

definition os_changes :: "bool \<Rightarrow> theme_page \<Rightarrow> theme_page" where
  "os_changes b p =
     (if os_dark p = None then p
      else let p' = p\<lparr>os_dark := Some b\<rparr> in
        if stored_theme p' = None \<or> stored_theme p' = Some '''' then apply_theme (system_theme p') p' else p')"

definition theme_toggle :: "theme_page \<Rightarrow> theme_page" where
  "theme_toggle p =
     (let t = (if data_theme p = ''dark'' then ''light'' else ''dark'');
          p' = apply_theme t p
      in if store_works p' then p'\<lparr>theme_store := Some t\<rparr> else p')"

end
