(* ===== verification/Forms_Props.thy ===== *)
theory Forms_Props
  imports Forms
begin

text \<open>
  What the small console scripts keep: the theme is the one a fresh load would show, a disabled access
  mode is never the selected one, the grid shows the chosen band, the FSK warning decides what is
  posted, the log stays at its newest line, the copy button's label returns.
\<close>

subsection \<open>The theme\<close>

datatype theme_op = ThemeLoad | OsChange bool | ThemeClick

primrec theme_step :: "theme_op \<Rightarrow> theme_page \<Rightarrow> theme_page" where
  "theme_step ThemeLoad p = load_theme p"
| "theme_step (OsChange b) p = os_changes b p"
| "theme_step ThemeClick p = theme_toggle p"

definition theme_ok :: "theme_page \<Rightarrow> bool" where
  "theme_ok p \<longleftrightarrow> store_works p \<and> theme_store p \<in> {None, Some ''dark'', Some ''light''} \<and>
     data_theme p = resolve_theme p"

lemma system_theme_cases: "system_theme p = ''dark'' \<or> system_theme p = ''light''"
  by (simp add: system_theme_def)

lemma theme_defs: "resolve_theme p = (case stored_theme p of
    Some t \<Rightarrow> if t = ''dark'' \<or> t = ''light'' then t else system_theme p | None \<Rightarrow> system_theme p)"
  by (auto simp: resolve_theme_def Let_def split: option.splits)

lemma system_theme_update [simp]:
  "system_theme (p\<lparr>data_theme := t\<rparr>) = system_theme p" "system_theme (p\<lparr>theme_store := s\<rparr>) = system_theme p"
  "stored_theme (p\<lparr>data_theme := t\<rparr>) = stored_theme p" "stored_theme (p\<lparr>os_dark := d\<rparr>) = stored_theme p"
  by (simp_all add: system_theme_def systemDark_def stored_theme_def)

lemma theme_step_ok: "theme_ok p \<Longrightarrow> theme_ok (theme_step op p)"
proof (cases op)
  case ThemeLoad
  then show "theme_ok p \<Longrightarrow> theme_ok (theme_step op p)"
    by (auto simp: theme_ok_def load_theme_def apply_theme_def theme_defs split: option.splits)
next
  case (OsChange b)
  then show "theme_ok p \<Longrightarrow> theme_ok (theme_step op p)"
    by (auto simp: theme_ok_def os_changes_def apply_theme_def theme_defs Let_def stored_theme_def)
next
  case ThemeClick
  then show "theme_ok p \<Longrightarrow> theme_ok (theme_step op p)"
    by (auto simp: theme_ok_def theme_toggle_def apply_theme_def theme_defs Let_def stored_theme_def)
qed

text \<open>
  With a working storage that holds nothing but a theme, the page always shows what loading it
  afresh would show: the last explicit choice, or without one the system's scheme, whatever the order
  of loads, changes of the system and clicks.
\<close>

theorem theme_is_resolved:
  fixes ops :: "theme_op list"
  assumes "store_works p" and "theme_store p \<in> {None, Some ''dark'', Some ''light''}"
  defines "q \<equiv> fold theme_step ops (load_theme p)"
  shows "data_theme q = resolve_theme q"
proof -
  have "theme_ok (load_theme p)"
    using assms(1,2)
    by (auto simp: theme_ok_def load_theme_def apply_theme_def theme_defs split: option.splits)
  then have "theme_ok (fold theme_step ops (load_theme p))"
    by (induction ops arbitrary: p rule: rev_induct) (simp_all add: theme_step_ok)
  then show ?thesis by (simp add: q_def theme_ok_def)
qed

definition fresh_theme :: theme_page where
  "fresh_theme = \<lparr>data_theme = '''', os_dark = Some False, theme_store = None, store_works = True\<rparr>"

theorem theme_is_resolved_witness:
  "data_theme (fold theme_step [ThemeClick, OsChange False, ThemeLoad] (load_theme fresh_theme)) =
   resolve_theme (fold theme_step [ThemeClick, OsChange False, ThemeLoad] (load_theme fresh_theme))"
  using theme_is_resolved [of fresh_theme "[ThemeClick, OsChange False, ThemeLoad]"]
  by (simp add: fresh_theme_def)

text \<open>
  Without a storage the choice lives in the attribute only, and the next change of the system's scheme
  overwrites it.
\<close>

lemma private_choice_overwritten:
  "data_theme (fold theme_step [ThemeClick, OsChange False]
     (load_theme (fresh_theme\<lparr>store_works := False\<rparr>))) = ''light''"
  by (simp add: fresh_theme_def load_theme_def theme_toggle_def os_changes_def apply_theme_def theme_defs
      stored_theme_def system_theme_def systemDark_def)

subsection \<open>Scheme and access mode\<close>

datatype scheme_op = SchemeChange string | AuthPick nat

primrec scheme_step :: "scheme_op \<Rightarrow> scheme_panel \<Rightarrow> scheme_panel" where
  "scheme_step (SchemeChange v) p = change_scheme v p"
| "scheme_step (AuthPick i) p = pick_auth i p"

definition has_no_auth :: "auth_select \<Rightarrow> bool" where
  "has_no_auth s \<longleftrightarrow> list_ex (\<lambda>q. option_value q = ''no-auth'') (options_of s)"

definition posts_enabled :: "auth_select \<Rightarrow> bool" where
  "posts_enabled s \<longleftrightarrow> (\<exists>i < length (options_of s). selected_index s = Some i \<and>
     \<not> option_disabled (options_of s ! i))"

definition auth_synced :: "string \<Rightarrow> auth_select \<Rightarrow> bool" where
  "auth_synced scheme s \<longleftrightarrow> has_no_auth s \<and> posts_enabled s \<and>
     (\<forall>q \<in> set (options_of s). option_disabled q \<longleftrightarrow> scheme = ''http'' \<and> option_value q \<noteq> ''no-auth'')"

lemma first_no_auth_Some: "first_no_auth j qs = Some i \<Longrightarrow>
    j \<le> i \<and> i - j < length qs \<and> option_value (qs ! (i - j)) = ''no-auth''"
proof (induction qs arbitrary: j)
  case (Cons q qs)
  then show ?case
    by (cases "option_value q = ''no-auth''") (auto simp: nth_Cons' Suc_diff_le dest!: Cons.IH split: nat.splits)
qed simp

lemma first_no_auth_None: "first_no_auth j qs = None \<longleftrightarrow> \<not> list_ex (\<lambda>q. option_value q = ''no-auth'') qs"
  by (induction qs arbitrary: j) auto

lemma sync_scheme_synced:
  assumes "has_no_auth s" and "\<exists>i < length (options_of s). selected_index s = Some i"
  shows "auth_synced scheme (sync_scheme scheme s)"
proof -
  let ?f = "\<lambda>q. q\<lparr>option_disabled := scheme = ''http'' \<and> option_value q \<noteq> ''no-auth''\<rparr>"
  let ?s = "s\<lparr>options_of := map ?f (options_of s)\<rparr>"
  have h: "has_no_auth ?s" using assms(1) by (auto simp: has_no_auth_def list_ex_iff)
  obtain i where i: "i < length (options_of s)" "selected_index s = Some i" using assms(2) by blast
  have v: "auth_value ?s = option_value (options_of s ! i)"
    using i by (simp add: auth_value_def js_at_nth)
  show ?thesis
  proof (cases "scheme = ''http'' \<and> auth_value ?s \<noteq> ''no-auth''")
    case False
    then have "sync_scheme scheme s = ?s" by (auto simp: sync_scheme_def Let_def)
    then show ?thesis using h i v False by (auto simp: auth_synced_def posts_enabled_def)
  next
    case True
    obtain j where j: "first_no_auth 0 (options_of ?s) = Some j"
      using h first_no_auth_None [of 0] by (auto simp: has_no_auth_def)
    then have "sync_scheme scheme s = ?s\<lparr>selected_index := Some j\<rparr>"
      unfolding sync_scheme_def Let_def if_P [OF True] j by simp
    moreover have "j < length (options_of s)" "option_value (options_of s ! j) = ''no-auth''"
      using first_no_auth_Some [OF j] by auto
    ultimately show ?thesis using h True
      by (auto simp: auth_synced_def posts_enabled_def has_no_auth_def)
  qed
qed

definition panel_ok :: "scheme_panel \<Rightarrow> bool" where
  "panel_ok p \<longleftrightarrow> scheme_wired p \<and> (case auth_sel p of None \<Rightarrow> True | Some s \<Rightarrow> auth_synced (scheme_value p) s)"

lemma scheme_step_ok: "panel_ok p \<Longrightarrow> panel_ok (scheme_step op p)"
proof (cases op)
  case (SchemeChange v)
  then show "panel_ok p \<Longrightarrow> panel_ok (scheme_step op p)"
    by (cases "auth_sel p") (auto simp: panel_ok_def change_scheme_def sync_panel_def auth_synced_def [of "scheme_value p"]
        posts_enabled_def intro!: sync_scheme_synced)
next
  case (AuthPick i)
  then show "panel_ok p \<Longrightarrow> panel_ok (scheme_step op p)"
    by (cases "auth_sel p") (auto simp: panel_ok_def pick_auth_def js_at_nth auth_synced_def has_no_auth_def
        posts_enabled_def)
qed

text \<open>
  C38. On a panel that was wired, with an access mode selector that offers \<open>no-auth\<close> and has a selection,
  the selected mode is never a disabled one: whatever the operator does, what the form posts is \<open>no-auth\<close>
  under \<open>http\<close>, and any mode can be picked again under \<open>https\<close>.
\<close>

theorem posts_no_disabled_mode:
  fixes ops :: "scheme_op list"
  assumes "auth_sel p = Some s" and "has_no_auth s" and "\<exists>i < length (options_of s). selected_index s = Some i"
  defines "q \<equiv> fold scheme_step ops (wire_panel p)"
  shows "\<exists>t. auth_sel q = Some t \<and> auth_synced (scheme_value q) t \<and>
    (scheme_value q = ''http'' \<longrightarrow> auth_value t = ''no-auth'')"
proof -
  have "panel_ok (wire_panel p) \<and> auth_sel (wire_panel p) \<noteq> None"
    using sync_scheme_synced [OF assms(2,3)] assms(1)
    by (simp add: panel_ok_def wire_panel_def sync_panel_def)
  moreover have "auth_sel (scheme_step op p') \<noteq> None" if "auth_sel p' \<noteq> None" for op p'
    using that by (cases op) (auto simp: change_scheme_def sync_panel_def pick_auth_def Let_def
        split: option.splits)
  ultimately have q: "panel_ok q \<and> auth_sel q \<noteq> None"
    unfolding q_def by (induction ops arbitrary: p rule: rev_induct) (simp_all add: scheme_step_ok)
  then obtain t where t: "auth_sel q = Some t" "auth_synced (scheme_value q) t"
    by (auto simp: panel_ok_def)
  then have "scheme_value q = ''http'' \<Longrightarrow> auth_value t = ''no-auth''"
    by (auto simp: auth_synced_def posts_enabled_def auth_value_def js_at_nth)
  with t show ?thesis by blast
qed

definition cert_panel :: scheme_panel where
  "cert_panel = \<lparr>scheme_value = ''https'', auth_sel = Some \<lparr>options_of =
     [\<lparr>option_value = ''mtls'', option_disabled = False\<rparr>, \<lparr>option_value = ''no-auth'', option_disabled = False\<rparr>],
     selected_index = Some 0\<rparr>, scheme_wired = False\<rparr>"

theorem posts_no_disabled_mode_witness:
  "\<exists>t. auth_sel (fold scheme_step [SchemeChange ''http'', AuthPick 0] (wire_panel cert_panel)) = Some t \<and>
    auth_value t = ''no-auth''"
proof -
  let ?q = "fold scheme_step [SchemeChange ''http'', AuthPick 0] (wire_panel cert_panel)"
  obtain s where s: "auth_sel cert_panel = Some s" "has_no_auth s"
    "\<exists>i < length (options_of s). selected_index s = Some i" by (simp add: cert_panel_def has_no_auth_def)
  have "scheme_value ?q = ''http''"
    by (simp add: cert_panel_def wire_panel_def sync_panel_def change_scheme_def pick_auth_def
        split: option.splits)
  with posts_no_disabled_mode [OF s, of "[SchemeChange ''http'', AuthPick 0]"] show ?thesis by blast
qed

text \<open>
  A panel inside a stack body that is loaded on first opening is not wired: the script runs once, and
  alone among the form scripts does not listen for loaded bodies.
\<close>

lemma unwired_panel_keeps_mode:
  "auth_sel (fold scheme_step [SchemeChange ''http''] cert_panel) = auth_sel cert_panel"
  by (simp add: cert_panel_def change_scheme_def)

subsection \<open>Grids, warnings, logs and buttons\<close>

text \<open>A wired grid hides exactly the other band's cells, after any changes of the radio.\<close>

lemma apply_band_idem: "apply_band (apply_band g) = apply_band g"
  by (auto simp: apply_band_def split: option.splits)

lemma apply_band_funpow: "(apply_band ^^ Suc n) g = apply_band g"
  by (induction n) (simp_all add: apply_band_idem)

definition grid_shows :: "grid \<Rightarrow> bool" where
  "grid_shows g \<longleftrightarrow> 0 < grid_listeners g \<and> (\<exists>v. radio_value g = Some v \<and>
     (\<forall>c \<in> set (band_cells g). cell_hidden c \<longleftrightarrow> band_hides v (cell_band c)))"

lemma grid_shows_apply: "radio_value g = Some v \<Longrightarrow> 0 < grid_listeners g \<Longrightarrow> grid_shows (apply_band g)"
  by (auto simp: grid_shows_def apply_band_def)

lemma grid_shows_change: "grid_shows g \<Longrightarrow> grid_shows (change_radio v g)"
proof -
  assume "grid_shows g"
  then obtain n w where "grid_listeners g = Suc n" "radio_value g = Some w"
    by (auto simp: grid_shows_def gr0_conv_Suc)
  then show ?thesis
    using grid_shows_apply [of "g\<lparr>radio_value := Some v\<rparr>" v] apply_band_funpow [of n]
    by (simp add: change_radio_def del: funpow.simps)
qed

lemma grid_follows_radio: "radio_value g = Some v \<Longrightarrow> grid_shows (fold change_radio vs (wire_grid g))"
proof (induction vs rule: rev_induct)
  case Nil
  then show ?case by (simp add: wire_grid_def grid_shows_apply)
qed (simp add: grid_shows_change)

text \<open>
  A form with one listener goes out without a question unless a mode is FSK and the button is not the
  reset; then it asks once and goes out if the operator agrees.
\<close>

lemma anyFskSelected_iff: "anyFskSelected vs \<longleftrightarrow> ''FSK'' \<in> set vs"
  by (induction vs) auto

lemma submit_asks_once: "submit_form by_action f 1 answers =
    (if ''FSK'' \<in> set (mode_values f) \<and> \<not> isResetSubmit by_action then (1, answers 0) else (0, True))"
  by (simp add: submit_listener_def anyFskSelected_iff)

text \<open>A box at its newest line stays there; one scrolled up is left where it was, as far as the text reaches.\<close>

lemma log_sticks:
  "scroll_top (log_box (log_answer height d p)) =
    (let h = height (show_lines (fst d)); c = client_height (log_box p) in
     if atBottom height (log_box p) then max 0 (h - c)
     else max 0 (min (scroll_top (log_box p)) (h - c)))" if "0 \<le> client_height (log_box p)"
  using that by (auto simp: log_answer_def Let_def log_mark_def to_bottom_def clamp_top_def split: option.splits)

text \<open>The copy button says that it copied only while a timer is on its way to take that back.\<close>

inductive copy_step :: "copy_button \<Rightarrow> copy_button \<Rightarrow> bool" where
  "copy_step b (copy_click out b)"
| "copy_writes b \<noteq> [] \<Longrightarrow> copy_step b (write_settles ok b)"
| "0 < copy_timers b \<Longrightarrow> copy_step b (copy_timer b)"

lemma copy_label_returns:
  assumes "copy_step\<^sup>*\<^sup>* b b'" and "copy_label b = copy_mark @ '' copy''"
  shows "0 < copy_timers b' \<or> copy_label b' = copy_mark @ '' copy''"
  using assms(1)
proof (induction rule: rtranclp_induct)
  case base
  then show ?case using assms(2) by simp
next
  case (step c d)
  from step.hyps(2) step.IH show ?case
    by cases (auto simp: copy_click_def exec_copy_def copy_done_def write_settles_def copy_timer_def
        split: option.splits exec_outcome.splits list.splits)
qed

text \<open>Where there is no clipboard interface, a copy command that answers false is reported as done.\<close>

lemma refused_copy_reported:
  assumes "pre_text b = Some t" and "\<not> has_clipboard b"
  shows "copy_label (copy_click ExecFalse b) = check_mark @ '' copied'' \<and>
    clipboard (copy_click ExecFalse b) = clipboard b"
  using assms by (simp add: copy_click_def exec_copy_def copy_done_def)

lemma reveal_twice: "masked (reveal_click (reveal_click s)) = masked s"
  by (simp add: reveal_click_def Let_def)

end
