(* ===== verification/Demo_System.thy ===== *)
theory Demo_System
  imports System_Poll
begin

text \<open>
  The in-browser demo \<open>demo/web/boot.js\<close>, first part: the System box. Where the console polls an
  endpoint, the demo asks a Python bridge in the page and writes the answer itself; the functions here
  are its own, on the sample and box records of \<open>system.js\<close>.
\<close>

subsection \<open>Formatting and graphs\<close>

text \<open>\<open>txt(id, v)\<close>: an empty or absent value leaves the element as it is.\<close>

definition demo_txt :: "string \<Rightarrow> string \<Rightarrow> system_box \<Rightarrow> system_box" where
  "demo_txt i v b = (if v = '''' then b else set_val i v b)"

definition demo_units :: "string list" where
  "demo_units = [''B'', ''kB'', ''MB'', ''GB'', ''TB'']"

function demo_scale :: "number \<Rightarrow> nat \<Rightarrow> number \<times> nat" where
  "demo_scale b i = (if n_le (Fin 1000) b \<and> i < length demo_units - 1
     then demo_scale (n_div b (Fin 1000)) (i + 1) else (b, i))"
  by pat_completeness auto
termination by (relation "measure (\<lambda>(b, i). length demo_units - i)") auto

declare demo_scale.simps [simp del]

definition demo_fmtBytes :: "number \<Rightarrow> string" where
  "demo_fmtBytes b =
     (if \<not> num b then ''?''
      else let (v, i) = demo_scale b 0 in
        (if i = 0 then n_string (n_round v) else if n_le (Fin 100) v then n_toFixed 0 v else n_toFixed 1 v)
        @ '' '' @ demo_units ! i)"

text \<open>A width that is not a number is not a valid style and changes nothing.\<close>

definition demo_setBar :: "string \<Rightarrow> number \<Rightarrow> system_box \<Rightarrow> system_box" where
  "demo_setBar i pct b =
     (let w = n_max (Fin 0) (n_min (Fin 100) pct) in
      if w = NaN then b else b\<lparr>bars := (bars b)(i := w)\<rparr>)"

definition DEMO_HIST :: nat where "DEMO_HIST = 60"

definition demo_pushHist :: "number list \<Rightarrow> number \<Rightarrow> number list" where
  "demo_pushHist = push_shift DEMO_HIST"

text \<open>The loop of \<open>drawSpark\<close> from index \<open>i\<close>, with the points so far.\<close>

definition demo_point :: "nat \<Rightarrow> number \<Rightarrow> number \<Rightarrow> nat \<Rightarrow> number \<Rightarrow> string" where
  "demo_point n lo hi i v =
     (let step = n_div (Fin 60) (Fin (of_nat (DEMO_HIST - 1)));
          w = n_sub hi lo; span = (if w = Fin 0 \<or> w = NaN then Fin 1 else w);
          y = n_sub (Fin 20) (n_mul (Fin 20) (n_div (n_sub v lo) span));
          y = n_max (Fin 0) (n_min (Fin 20) y)
      in n_toFixed 1 (n_mul (Fin (of_nat (n - 1 - i))) step) @ '','' @ n_toFixed 1 y)"

fun demo_points :: "nat \<Rightarrow> number \<Rightarrow> number \<Rightarrow> nat \<Rightarrow> number list \<Rightarrow> string list" where
  "demo_points n lo hi i [] = []"
| "demo_points n lo hi i (v # vs) = demo_point n lo hi i v # demo_points n lo hi (Suc i) vs"

definition demo_drawSpark :: "string \<Rightarrow> number list \<Rightarrow> number \<Rightarrow> number \<Rightarrow> system_box \<Rightarrow> system_box" where
  "demo_drawSpark i arr lo hi b =
     b\<lparr>sparks := (sparks b)(i := join '' '' (demo_points (length arr) lo hi 0 arr))\<rparr>"

subsection \<open>The state between ticks\<close>

record demo_sys =
  dbox :: system_box
  dhist :: hist
  prevCpu :: "(number \<times> number) option"
  prevNet :: "(number \<times> number \<times> number) option"
  prevCores :: "(number \<times> number) list option"

abbreviation on_dbox :: "(system_box \<Rightarrow> system_box) \<Rightarrow> demo_sys \<Rightarrow> demo_sys" where
  "on_dbox f s \<equiv> s\<lparr>dbox := f (dbox s)\<rparr>"

text \<open>\<open>x || 0\<close> of an array element.\<close>

definition or_zero :: "number \<Rightarrow> number" where
  "or_zero v = (if v = NaN then Fin 0 else v)"

definition demo_coreLoads :: "number list list \<Rightarrow> (number \<times> number) list" where
  "demo_coreLoads rows =
     map (\<lambda>row. (foldl n_add (Fin 0) row, n_add (n_at row 3) (or_zero (n_at row 4)))) rows"

definition demo_core :: "number \<times> number \<Rightarrow> number \<times> number \<Rightarrow> number \<times> string \<Rightarrow> number \<times> string" where
  "demo_core c p bar =
     (let ds = n_sub (fst c) (fst p); di = n_sub (snd c) (snd p) in
      if n_lt (Fin 0) ds \<and> n_le (Fin 0) di
      then (n_max (Fin 0) (n_min (Fin 100) (n_mul (Fin 100) (n_sub (Fin 1) (n_div di ds)))), snd bar)
      else bar)"

definition demo_drawCoreBars :: "(number \<times> number) list \<Rightarrow> demo_sys \<Rightarrow> demo_sys" where
  "demo_drawCoreBars cs s =
     (if cs = [] then s
      else
        let bars0 = (if length (core_bars (dbox s)) \<noteq> length cs then replicate (length cs) (NaN, '''')
                     else core_bars (dbox s));
            bars1 = (case prevCores s of
               None \<Rightarrow> bars0
             | Some ps \<Rightarrow> if length ps = length cs then map (\<lambda>(c, p, bar). demo_core c p bar) (zip cs (zip ps bars0))
                          else bars0)
        in s\<lparr>dbox := (dbox s)\<lparr>core_bars := bars1\<rparr>, prevCores := Some cs\<rparr>)"

subsection \<open>One sample\<close>

definition demo_wifi :: "string \<Rightarrow> sys_sample \<Rightarrow> system_box \<Rightarrow> system_box" where
  "demo_wifi dev d b =
     (let v = wifi d dev; ok = num v in
      set_pill ''sys-wifi-pill'' (if ok then n_string v @ '' dBm'' else ''Wi-Fi'')
        (if ok then (if n_le (Fin (- 67)) v then ''pill-ok'' else if n_le (Fin (- 75)) v then ''pill-warn'' else ''pill-bad'')
         else '''') b)"

definition demo_cpu_percent :: "number \<Rightarrow> number \<Rightarrow> number" where
  "demo_cpu_percent ds di = n_max (Fin 0) (n_min (Fin 100) (n_div (n_mul (Fin 100) (n_sub ds di)) ds))"

definition demo_cpu :: "sys_sample \<Rightarrow> demo_sys \<Rightarrow> demo_sys" where
  "demo_cpu d s = (case cpu d of None \<Rightarrow> s | Some c \<Rightarrow>
     (let t = cpu_total c; sum = foldl n_add (Fin 0) t; idle = n_add (n_at t 3) (or_zero (n_at t 4));
          s = (case prevCpu s of None \<Rightarrow> s | Some (psum, pidle) \<Rightarrow>
                 if n_lt psum sum then
                   let ds = n_sub sum psum; di = n_sub idle pidle in
                   if n_lt (Fin 0) ds then
                     let pct = demo_cpu_percent ds di; h = demo_pushHist (h_cpu (dhist s)) pct
                     in on_dbox (demo_drawSpark ''sys-cpu-spark'' h (Fin 0) (Fin 100)
                          \<circ> demo_txt ''sys-cpu-val'' (n_string (n_round pct) @ ''%''))
                          (s\<lparr>dhist := (dhist s)\<lparr>h_cpu := h\<rparr>\<rparr>)
                   else s
                 else s)
      in demo_drawCoreBars (demo_coreLoads (percore c)) (s\<lparr>prevCpu := Some (sum, idle)\<rparr>)))"

definition demo_pair :: "number \<Rightarrow> number \<Rightarrow> string" where
  "demo_pair a b = demo_fmtBytes a @ '' / '' @ demo_fmtBytes b"

definition demo_swap :: "mem_sample \<Rightarrow> demo_sys \<Rightarrow> demo_sys" where
  "demo_swap m s =
     (if n_lt (Fin 0) (swap_total_kb m) then
        let su = n_sub (swap_total_kb m) (swap_free_kb m);
            spct = n_div (n_mul (Fin 100) su) (swap_total_kb m);
            h = demo_pushHist (h_swap (dhist s)) spct
        in on_dbox (demo_drawSpark ''sys-swap-spark'' h (Fin 0) (Fin 100)
             \<circ> demo_setBar ''sys-swap-bar'' spct
             \<circ> demo_txt ''sys-swap-val'' (demo_pair (n_mul su (Fin 1024)) (n_mul (swap_total_kb m) (Fin 1024)))
             \<circ> show_row ''sys-swap-row'')
             (s\<lparr>dhist := (dhist s)\<lparr>h_swap := h\<rparr>\<rparr>)
      else s)"

definition demo_mem :: "sys_sample \<Rightarrow> demo_sys \<Rightarrow> demo_sys" where
  "demo_mem d s = (case mem d of None \<Rightarrow> s | Some m \<Rightarrow>
     if n_lt (Fin 0) (total_kb m) then
       let mem_used = n_sub (total_kb m) (available_kb m);
           mpct = n_div (n_mul (Fin 100) mem_used) (total_kb m);
           h = demo_pushHist (h_mem (dhist s)) mpct
       in demo_swap m
            (on_dbox (demo_drawSpark ''sys-mem-spark'' h (Fin 0) (Fin 100)
               \<circ> demo_setBar ''sys-mem-bar'' mpct
               \<circ> demo_txt ''sys-mem-val'' (demo_pair (n_mul mem_used (Fin 1024)) (n_mul (total_kb m) (Fin 1024))))
               (s\<lparr>dhist := (dhist s)\<lparr>h_mem := h\<rparr>\<rparr>))
     else s)"

definition arrow_down :: string where "arrow_down = [CHR 0xE2, CHR 0x86, CHR 0x93]"
definition arrow_up :: string where "arrow_up = [CHR 0xE2, CHR 0x86, CHR 0x91]"

fun demo_peak :: "number \<Rightarrow> number list \<Rightarrow> number" where
  "demo_peak peak [] = peak"
| "demo_peak peak (v # vs) = demo_peak (if n_lt peak v then v else peak) vs"

definition demo_net :: "sys_sample \<Rightarrow> demo_sys \<Rightarrow> demo_sys" where
  "demo_net d s = (case net d of None \<Rightarrow> s | Some (rx_bytes, tx_bytes) \<Rightarrow>
     if rx_bytes = NaN then s
     else
       let s = (case prevNet s of None \<Rightarrow> s | Some (prx, ptx, pts) \<Rightarrow>
             if n_lt pts (ts d) then
               let dt = n_sub (ts d) pts;
                   rx = n_div (n_sub rx_bytes prx) dt; tx = n_div (n_sub tx_bytes ptx) dt
               in if n_le (Fin 0) rx \<and> n_le (Fin 0) tx then
                    let hrx = demo_pushHist (h_rx (dhist s)) rx; htx = demo_pushHist (h_tx (dhist s)) tx;
                        peak = demo_peak (demo_peak (Fin 1000) hrx) htx
                    in on_dbox (demo_drawSpark ''sys-nettx-spark'' htx (Fin 0) peak
                         \<circ> demo_drawSpark ''sys-netrx-spark'' hrx (Fin 0) peak
                         \<circ> demo_txt ''sys-net-val'' (demo_fmtBytes rx @ ''/s '' @ arrow_down @ ''  '' @
                              demo_fmtBytes tx @ ''/s '' @ arrow_up))
                         (s\<lparr>dhist := (dhist s)\<lparr>h_rx := hrx, h_tx := htx\<rparr>\<rparr>)
                  else s
             else s)
       in s\<lparr>prevNet := Some (rx_bytes, tx_bytes, ts d)\<rparr>)"

definition demo_used :: "disk_row \<Rightarrow> number" where
  "demo_used r = n_mul (Fin 100) (n_sub (Fin 1) (n_div (free_b r) (total_b r)))"

definition demo_disk2 :: "sys_sample \<Rightarrow> demo_sys \<Rightarrow> demo_sys" where
  "demo_disk2 d s = (case disk_runtime d of None \<Rightarrow> s | Some q \<Rightarrow>
     if n_lt (Fin 0) (total_b q) then
       let h = demo_pushHist (h_disk2 (dhist s)) (demo_used q)
       in on_dbox (demo_drawSpark ''sys-disk2-spark'' h (Fin 0) (Fin 100)
            \<circ> demo_setBar ''sys-disk2-bar'' (demo_used q)
            \<circ> demo_txt ''sys-disk2-val'' (demo_pair (n_sub (total_b q) (free_b q)) (total_b q))
            \<circ> show_row ''sys-disk2-row'')
            (s\<lparr>dhist := (dhist s)\<lparr>h_disk2 := h\<rparr>\<rparr>)
     else s)"

definition demo_disk :: "sys_sample \<Rightarrow> demo_sys \<Rightarrow> demo_sys" where
  "demo_disk d s = (case disk_root d of None \<Rightarrow> s | Some r \<Rightarrow>
     if n_lt (Fin 0) (total_b r) then
       let h = demo_pushHist (h_disk (dhist s)) (demo_used r)
       in demo_disk2 d (on_dbox (demo_drawSpark ''sys-disk-spark'' h (Fin 0) (Fin 100)
            \<circ> demo_setBar ''sys-disk-bar'' (demo_used r)
            \<circ> demo_txt ''sys-disk-val'' (demo_pair (n_sub (total_b r) (free_b r)) (total_b r)))
            (s\<lparr>dhist := (dhist s)\<lparr>h_disk := h\<rparr>\<rparr>))
     else s)"

definition demo_temp :: "sys_sample \<Rightarrow> demo_sys \<Rightarrow> demo_sys" where
  "demo_temp d s =
     (if temp_mc d = NaN then s
      else
        let c = n_div (temp_mc d) (Fin 1000); h = demo_pushHist (h_temp (dhist s)) c
        in on_dbox (demo_drawSpark ''sys-temp-spark'' h (Fin 0) (Fin 90)
             \<circ> demo_setBar ''sys-temp-bar'' (n_div (n_mul (Fin 100) c) (Fin 90))
             \<circ> demo_txt ''sys-temp-val'' (n_toFixed 1 c @ '' '' @ degree_c))
             (s\<lparr>dhist := (dhist s)\<lparr>h_temp := h\<rparr>\<rparr>))"

definition demo_time :: "sys_sample \<Rightarrow> demo_sys \<Rightarrow> demo_sys" where
  "demo_time d s = (case time d of None \<Rightarrow> s | Some t \<Rightarrow>
     if local_time t = '''' then s
     else on_dbox (demo_txt ''sys-time-utc'' (if utc t = '''' then '''' else utc t @ '' UTC'')
            \<circ> demo_txt ''sys-time-val'' (local_time t @ (if tzname t = '''' then '''' else '' '' @ tzname t))
            \<circ> set_pill ''sys-time-pill'' (if tlabel t = '''' then ellipsis else tlabel t)
                (''pill'' @ (if tstate t = ''green'' then '' pill-ok'' else if tstate t = ''yellow'' then '' pill-warn''
                  else if tstate t = ''red'' then '' pill-bad'' else ''''))
            \<circ> show_row ''sys-time-row'') s)"

text \<open>\<open>x && x.trim()\<close>: a part that is blank is left out.\<close>

definition is_blank :: "string \<Rightarrow> bool" where
  "is_blank t \<longleftrightarrow> list_all (\<lambda>c. c \<in> {CHR '' '', CHR 0x09, CHR 0x0A, CHR 0x0B, CHR 0x0C, CHR 0x0D}) t"

definition demo_up :: "number \<Rightarrow> string" where
  "demo_up u = ''up '' @ n_string (n_floor (n_div u (Fin 3600))) @ ''h '' @
     n_string (n_floor (n_div (n_rem u 3600) (Fin 60))) @ ''m''"

definition demo_info :: "sys_sample \<Rightarrow> demo_sys \<Rightarrow> demo_sys" where
  "demo_info d s = (case sinfo d of None \<Rightarrow> s | Some i \<Rightarrow>
     on_dbox (demo_txt ''sys-info'' (join ('' '' @ middot @ '' '')
       (filter (\<lambda>x. \<not> is_blank x) [hostname i, model i, os i, kernel i @ '' '' @ arch i]
        @ (if uptime_s d = NaN then [] else [demo_up (uptime_s d)])))) s)"

text \<open>\<open>liveSystem\<close> for a page with the box; \<open>None\<close> when the bridge gave no sample.\<close>

definition liveSystem :: "string \<Rightarrow> sys_sample option \<Rightarrow> demo_sys \<Rightarrow> demo_sys" where
  "liveSystem dev answer s = (case answer of None \<Rightarrow> s | Some d \<Rightarrow>
     demo_info d (demo_time d (demo_temp d (demo_disk d (demo_net d (demo_mem d
       (demo_cpu d (on_dbox (demo_wifi dev d) s))))))))"

text \<open>The GNSS row: the texts and the pill, from the monitor's endpoint.\<close>

definition demo_gnss_class :: "string \<rightharpoonup> string" where
  "demo_gnss_class = [''3d'' \<mapsto> ''pill-ok'', ''2d'' \<mapsto> ''pill-warn'', ''fix'' \<mapsto> ''pill-warn'',
     ''no-fix'' \<mapsto> ''pill-bad'', ''stale'' \<mapsto> ''pill-bad'', ''gpsd-no-data'' \<mapsto> ''pill-bad'', ''no-data'' \<mapsto> ''pill-bad'']"

definition demo_gnss_word :: "string \<rightharpoonup> string" where
  "demo_gnss_word = [''3d'' \<mapsto> ''3D fix'', ''2d'' \<mapsto> ''2D fix'', ''fix'' \<mapsto> ''fix'', ''no-fix'' \<mapsto> ''no fix'',
     ''stale'' \<mapsto> ''stale'', ''gpsd-no-data'' \<mapsto> ''no data'', ''no-data'' \<mapsto> ''no data'', ''no-device'' \<mapsto> ''no GPS'',
     ''auto-off'' \<mapsto> ''no GPS'', ''off'' \<mapsto> ''off'', ''unavailable'' \<mapsto> ''no gpsd'', ''fixed'' \<mapsto> ''fixed'',
     ''held'' \<mapsto> ''held'', ''via-feed'' \<mapsto> ''feed'', ''ambiguous'' \<mapsto> ''ambiguous'']"

definition liveSysGps :: "gps_answer option \<Rightarrow> system_box \<Rightarrow> system_box" where
  "liveSysGps d b =
     (let pos = (case d of None \<Rightarrow> False | Some g \<Rightarrow> num (glat g) \<and> num (glon g));
          cls = (case d of None \<Rightarrow> '''' | Some g \<Rightarrow> (case demo_gnss_class (gstate g) of Some c \<Rightarrow> c | None \<Rightarrow> ''''));
          word = (case d of None \<Rightarrow> ''error'' | Some g \<Rightarrow>
             (case demo_gnss_word (gstate g) of Some w \<Rightarrow> w | None \<Rightarrow> if gstate g = '''' then ''?'' else gstate g))
      in set_val ''sys-gps-lon'' (case d of Some g \<Rightarrow> if pos then n_toFixed 6 (glon g) else '''' | None \<Rightarrow> '''')
          (set_val ''sys-gps-lat'' (case d of Some g \<Rightarrow> if pos then n_toFixed 6 (glat g) else em_dash | None \<Rightarrow> em_dash)
            (set_pill ''sys-gps-state'' (if word = '''' then em_dash else word) cls b)))"

end
