(* ===== verification/Demo_Live.thy ===== *)
theory Demo_Live
  imports Dash Gps
begin

text \<open>
  The demo, second part: the live cells of the radio columns and the GPS monitor, written from the
  bridge's answers.
\<close>

subsection \<open>The radio columns\<close>

text \<open>\<open>txt(id, v)\<close>: \<open>null\<close> and the empty text leave the element.\<close>

definition demo_cell :: "string \<Rightarrow> string option \<Rightarrow> column \<Rightarrow> column" where
  "demo_cell i v c = (case v of None \<Rightarrow> c | Some t \<Rightarrow> if t = '''' then c
     else c\<lparr>column.texts := (column.texts c)(i \<mapsto> t)\<rparr>)"

definition section_or_empty :: "(string \<rightharpoonup> string) option \<Rightarrow> string \<rightharpoonup> string" where
  "section_or_empty s = (case s of None \<Rightarrow> Map.empty | Some m \<Rightarrow> m)"

text \<open>The cells in the order they are written: the prefix of the id, the section and the key.\<close>

definition demo_cells :: "string \<Rightarrow> (string \<rightharpoonup> string) \<Rightarrow> (string \<rightharpoonup> string) \<Rightarrow> (string \<rightharpoonup> string) \<Rightarrow> (string \<times> string option) list" where
  "demo_cells b st sta ch =
     [(''rd-rssiv-'' @ b, ch ''LIVERSSI''), (''rd-radio-'' @ b, st ''RADIO''),
      (''rd-txmode-'' @ b, st ''TXMODE''), (''rd-cad-'' @ b, ch ''CADSTATE''),
      (''rd-tx-'' @ b, st ''TX''), (''rd-pktrssi-'' @ b, ch ''PACKETRSSI''),
      (''rd-cadrssi-'' @ b, st ''CADRSSI''), (''rd-cadwait-'' @ b, st ''CADWAIT''),
      (''rd-rx-'' @ b, sta ''RX''), (''rd-txok-'' @ b, sta ''TXOK''), (''rd-txerr-'' @ b, sta ''TXERR''),
      (''rd-uptime-'' @ b, map_option (\<lambda>u. u @ '' s'') (sta ''UPTIME''))]"

text \<open>One column; \<open>None\<close> when the bridge gave no answer.\<close>

definition demo_column :: "string \<Rightarrow> daemon_answer option \<Rightarrow> column \<Rightarrow> column" where
  "demo_column b answer c = (case answer of None \<Rightarrow> c | Some j \<Rightarrow>
     if \<not> reachable j then c
     else
       let ch = section_or_empty (channel j);
           c = fold (\<lambda>(i, v). demo_cell i v)
                 (demo_cells b (section_or_empty (status j)) (section_or_empty (stats j)) ch) c;
           rssi = (case ch ''LIVERSSI'' of None \<Rightarrow> '''' | Some v \<Rightarrow> v);
           c = (if rssi = '''' then c else c\<lparr>meter := rssi\<rparr>)
       in c\<lparr>column.texts := (column.texts c)(''rd-feed-'' @ b \<mapsto> join [CHR 0x0A] (feed j))\<rparr>)"

definition liveDaemon :: "(string \<Rightarrow> daemon_answer option) \<Rightarrow> (string \<times> column) list \<Rightarrow> (string \<times> column) list" where
  "liveDaemon ask_daemon cols = map (\<lambda>(b, c). (b, demo_column b (ask_daemon b) c)) cols"

subsection \<open>The GPS monitor\<close>

definition gpsText :: "string option \<Rightarrow> string" where
  "gpsText v = (case v of None \<Rightarrow> em_dash | Some t \<Rightarrow> if t = '''' then em_dash else t)"

definition demo_alt :: "sample \<Rightarrow> string option" where
  "demo_alt d = (case alt d of None \<Rightarrow> None | Some a \<Rightarrow> Some (toFixed 1 a @
     (if alt_kind d = ''msl'' then '' m MSL'' else if alt_kind d = ''hae'' then '' m HAE'' else '' m (legacy alt)'')))"

definition demo_sats :: "sample \<Rightarrow> string option" where
  "demo_sats d = (if sats_used d \<noteq> None \<or> sats_seen d \<noteq> None
     then Some ((case sats_used d of None \<Rightarrow> ''?'' | Some n \<Rightarrow> show_int n) @ '' of '' @
                (case sats_seen d of None \<Rightarrow> ''n/a'' | Some n \<Rightarrow> show_int n))
     else None)"

definition demo_device :: "sample \<Rightarrow> string option" where
  "demo_device d = (if device d \<noteq> '''' then Some (device d)
     else if devices d \<noteq> [] then Some (join '', '' (devices d)) else None)"

definition demo_monitor :: "sample \<Rightarrow> (string \<times> string) list" where
  "demo_monitor d =
     (let l = (if slabel d \<noteq> '''' then slabel d else if sstate d \<noteq> '''' then sstate d else ''?'');
          pos = lat d \<noteq> None \<and> lon d \<noteq> None
      in [(''gps-mon-state'', gpsText (Some (l @ (if error d \<noteq> '''' then '' ('' @ error d @ '')'' else '''')))),
          (''gps-mon-summary'', gpsText (Some (slabel d))),
          (''gps-mon-note'', notice d),
          (''gps-mon-lat'', gpsText (if pos then map_option (toFixed 6) (lat d) else None)),
          (''gps-mon-lon'', gpsText (if pos then map_option (toFixed 6) (lon d) else None)),
          (''gps-mon-alt'', gpsText (if pos then demo_alt d else None)),
          (''gps-mon-time'', gpsText (if time d \<noteq> ''''
             then Some (time d @ (if time_has_date d then '''' else '' (date unavailable)'')) else None)),
          (''gps-mon-sats'', gpsText (demo_sats d)),
          (''gps-mon-device'', gpsText (demo_device d))])"

text \<open>\<open>gpsSky\<close>: the rings, the cross, the loop over the satellites, the placeholder.\<close>

definition demo_sat :: "(rat \<Rightarrow> rat) \<Rightarrow> (rat \<Rightarrow> rat) \<Rightarrow> rat \<Rightarrow> satellite \<Rightarrow> svg list" where
  "demo_sat js_cos js_sin math_pi s =
     (let r = fl (140 * fl (1 - fl (the (el s) / 90)));
          a = fl (fl (fl (the (az s) - 90) * math_pi) / 180);
          x = fl (160 + fl (r * js_cos a)); y = fl (160 + fl (r * js_sin a));
          radius = (case ss s of Some v \<Rightarrow> max 3 (min 11 (fl (3 + fl (v / 6)))) | None \<Rightarrow> 5)
      in [Dot (toFixed 1 x) (toFixed 1 y) radius (used s = Some True) (if used s = None then ''0.5'' else ''1''),
          Tag (toFixed 1 (fl (fl (x + radius) + 2))) (toFixed 1 (fl (y + 4)))
            ((if talker s \<noteq> '''' then talker s @ '' '' else '''') @ prn s)])"

fun demo_sats_loop :: "(rat \<Rightarrow> rat) \<Rightarrow> (rat \<Rightarrow> rat) \<Rightarrow> rat \<Rightarrow> satellite list \<Rightarrow> svg list" where
  "demo_sats_loop js_cos js_sin math_pi [] = []"
| "demo_sats_loop js_cos js_sin math_pi (s # sats) =
     demo_sat js_cos js_sin math_pi s @ demo_sats_loop js_cos js_sin math_pi sats"

definition gpsSky :: "(rat \<Rightarrow> rat) \<Rightarrow> (rat \<Rightarrow> rat) \<Rightarrow> rat \<Rightarrow> sample \<Rightarrow> svg list" where
  "gpsSky js_cos js_sin math_pi d =
     (let sats = filter (\<lambda>s. (case el s of None \<Rightarrow> False | Some e \<Rightarrow> 0 \<le> e) \<and> az s \<noteq> None) (satellites d) in
      [Ring (fl (140 * fl (1 - fl (90 / 90)))), Ring (fl (140 * fl (1 - fl (60 / 90)))),
       Ring (fl (140 * fl (1 - fl (30 / 90)))), Ring (fl (140 * fl (1 - fl (0 / 90)))),
       Line 160 20 160 300, Line 20 160 300 160, North 16] @
      demo_sats_loop js_cos js_sin math_pi sats @ (if sats = [] then [NoSatellites 164] else []))"

text \<open>The panes: whether they are open, what they show.\<close>

record demo_gps =
  dg_mon_open :: bool
  dg_outer_open :: bool
  dg_texts :: "(string \<times> string) list"
  dg_note_hidden :: bool
  dg_nmea_disabled :: bool
  dg_sky_hidden :: bool
  dg_nmea_hidden :: bool
  dg_sky :: "svg list"
  dg_nmea :: string

definition liveGps :: "(sample \<Rightarrow> svg list) \<Rightarrow> sample option \<Rightarrow> demo_gps \<Rightarrow> demo_gps" where
  "liveGps draw answer g =
     (if \<not> dg_mon_open g \<or> \<not> dg_outer_open g then g
      else case answer of None \<Rightarrow> g | Some d \<Rightarrow>
        g\<lparr>dg_texts := demo_monitor d, dg_note_hidden := (notice d = ''''), dg_nmea_disabled := \<not> nmea_ok d,
          dg_sky := (if dg_sky_hidden g then dg_sky g else draw d),
          dg_nmea := (if dg_nmea_hidden g then dg_nmea g else join [CHR 0x0A] (nmea d))\<rparr>)"

text \<open>A click on one of the four pane buttons, by its id.\<close>

definition pane_click :: "(sample \<Rightarrow> svg list) \<Rightarrow> sample option \<Rightarrow> string \<Rightarrow> demo_gps \<Rightarrow> demo_gps" where
  "pane_click draw answer button g =
     (let closing = (length button \<ge> 5 \<and> drop (length button - 5) button = ''close'');
          sky = list_ex (\<lambda>i. take 3 (drop i button) = ''sky'') [0 ..< length button]
      in liveGps draw answer (if sky then g\<lparr>dg_sky_hidden := closing\<rparr> else g\<lparr>dg_nmea_hidden := closing\<rparr>))"

end
