(* ===== verification/Demo.thy ===== *)
theory Demo
  imports Demo_System Demo_Live
begin

text \<open>
  The demo, third part: the page around the bridge. A navigation or a submitted form is a call of the
  bridge whose answer replaces the page; stack bodies are loaded when their row opens; one timer fills
  the live cells. The Python bridge is an argument: a state, and a function that answers a request or
  throws (\<open>None\<close>, also when its text is not JSON). The HTML parser is an argument too.
\<close>

record response =
  rstatus :: nat
  rctype :: string
  rbody :: string

type_synonym 'b handler = "string \<Rightarrow> string \<Rightarrow> (string \<rightharpoonup> string) option \<Rightarrow> 'b \<Rightarrow> 'b \<times> response option"

text \<open>\<open>ask(path)\<close>: the payload of a 200 answer that parses.\<close>

definition ask :: "'b handler \<Rightarrow> (string \<Rightarrow> 'a option) \<Rightarrow> string \<Rightarrow> 'b \<Rightarrow> 'b \<times> 'a option" where
  "ask handle parse path s = (case handle ''GET'' path None s of
     (s', None) \<Rightarrow> (s', None)
   | (s', Some env) \<Rightarrow> (s', if rstatus env = 200 then parse (rbody env) else None))"

subsection \<open>The page\<close>

text \<open>A row with a deferred body: what it holds is the placeholder until something is put in its place.\<close>

datatype body_view = Placeholder | Body string | LoadFailed

record demo_row =
  det_open :: bool
  body_path :: string
  data_loaded_row :: bool
  body_view :: body_view
  body_requests :: nat

datatype app_view = Html string | PlainText string

record 'b bridge_page =
  bstate :: 'b
  app :: app_view
  demo_rows :: "demo_row list"
  saved_state :: "string option"
  live_ticks :: nat

record demo_env =
  rows_of :: "string \<Rightarrow> (bool \<times> string) list"
  body_html :: "string \<Rightarrow> string"
  storage_ok :: bool

definition wireLazyBodies :: "(bool \<times> string) list \<Rightarrow> demo_row list" where
  "wireLazyBodies rs = map (\<lambda>(opened, url). \<lparr>det_open = opened, body_path = url, data_loaded_row = False,
     body_view = Placeholder, body_requests = 0\<rparr>) rs"

text \<open>The toggle event of a row.\<close>

definition row_toggle :: "'b handler \<Rightarrow> demo_env \<Rightarrow> bool \<Rightarrow> demo_row \<times> 'b \<Rightarrow> demo_row \<times> 'b" where
  "row_toggle handle env opened rb =
     (let (r, s) = rb; r = r\<lparr>det_open := opened\<rparr> in
      if \<not> opened \<or> data_loaded_row r then (r, s)
      else
        let r = r\<lparr>data_loaded_row := True, body_requests := Suc (body_requests r)\<rparr> in
        (case handle ''GET'' (body_path r) None s of
           (s', None) \<Rightarrow> (r\<lparr>body_view := LoadFailed\<rparr>, s')
         | (s', Some res) \<Rightarrow> (r\<lparr>body_view := Body (body_html env (rbody res))\<rparr>, s')))"

definition persist :: "('b \<Rightarrow> string) \<Rightarrow> demo_env \<Rightarrow> 'b bridge_page \<Rightarrow> 'b bridge_page" where
  "persist dump env p = (if storage_ok env then p\<lparr>saved_state := Some (dump (bstate p))\<rparr> else p)"

text \<open>\<open>s.includes(t)\<close>\<close>

definition js_includes :: "string \<Rightarrow> string \<Rightarrow> bool" where
  "js_includes t s \<longleftrightarrow> list_ex (\<lambda>i. take (length t) (drop i s) = t) [0 ..< length s]"

text \<open>\<open>Object.fromEntries\<close>: of two entries with a name the later one counts.\<close>

definition from_entries :: "(string \<times> string) list \<Rightarrow> (string \<rightharpoonup> string)" where
  "from_entries es = foldl (\<lambda>m (k, v). m(k \<mapsto> v)) Map.empty es"

text \<open>A navigation; false when the bridge threw, which leaves the page as it was.\<close>

definition go :: "'b handler \<Rightarrow> ('b \<Rightarrow> string) \<Rightarrow> demo_env \<Rightarrow> string \<Rightarrow> string \<Rightarrow>
    (string \<times> string) list option \<Rightarrow> 'b bridge_page \<Rightarrow> 'b bridge_page \<times> bool" where
  "go handle dump env meth path form p =
     (case handle meth path (map_option from_entries form) (bstate p) of
        (s', None) \<Rightarrow> (p\<lparr>bstate := s'\<rparr>, False)
      | (s', Some res) \<Rightarrow>
          let p = p\<lparr>bstate := s'\<rparr>;
              p = (if js_includes ''html'' (rctype res)
                   then p\<lparr>app := Html (body_html env (rbody res)), demo_rows := wireLazyBodies (rows_of env (rbody res))\<rparr>
                   else p\<lparr>app := PlainText (rbody res), demo_rows := []\<rparr>);
              p = persist dump env p
          in (p\<lparr>live_ticks := Suc (live_ticks p)\<rparr>, True))"

subsection \<open>Links, clicks, forms\<close>

text \<open>The test \<open>/^[a-z][a-z0-9+.\-]*:/i\<close>.\<close>

definition letter :: "char \<Rightarrow> bool" where
  "letter c \<longleftrightarrow> (let n = of_char c :: nat in 65 \<le> n \<and> n \<le> 90 \<or> 97 \<le> n \<and> n \<le> 122)"

definition scheme_char :: "char \<Rightarrow> bool" where
  "scheme_char c \<longleftrightarrow> letter c \<or> c \<in> set ''0123456789+.-''"

fun scheme_tail :: "string \<Rightarrow> bool" where
  "scheme_tail [] \<longleftrightarrow> False"
| "scheme_tail (c # cs) \<longleftrightarrow> c = CHR '':'' \<or> scheme_char c \<and> scheme_tail cs"

definition has_scheme :: "string \<Rightarrow> bool" where
  "has_scheme s \<longleftrightarrow> (case s of [] \<Rightarrow> False | c # cs \<Rightarrow> letter c \<and> scheme_tail cs)"

definition isInternal :: "string \<Rightarrow> bool" where
  "isInternal href \<longleftrightarrow> href \<noteq> '''' \<and> \<not> has_scheme href \<and> take 2 href \<noteq> ''//'' \<and> take 1 href \<noteq> ''#''"

text \<open>
  A click, by what \<open>closest\<close> finds from its target: the reset button, a pane button, a link. The result:
  whether the browser's own action is prevented, and what the handler does.
\<close>

record click_target =
  on_reset :: bool
  on_pane :: "string option"
  on_link :: "string option"

datatype click_effect = DoNothing | ResetDemo | ClickPane string | GoTo string

definition click_action :: "bool \<Rightarrow> click_target \<Rightarrow> bool \<times> click_effect" where
  "click_action booted c =
     (if on_reset c then (True, if booted then ResetDemo else DoNothing)
      else case on_pane c of
        Some b \<Rightarrow> (False, ClickPane b)
      | None \<Rightarrow> (case on_link c of
          None \<Rightarrow> (False, DoNothing)
        | Some href \<Rightarrow> if isInternal href then (True, GoTo href) else (False, DoNothing)))"

definition reset_demo :: "'b handler \<Rightarrow> ('b \<Rightarrow> 'b) \<Rightarrow> ('b \<Rightarrow> string) \<Rightarrow> demo_env \<Rightarrow> 'b bridge_page \<Rightarrow> 'b bridge_page \<times> bool" where
  "reset_demo handle reset dump env p =
     go handle dump env ''GET'' ''/'' None (p\<lparr>bstate := reset (bstate p), saved_state := None\<rparr>)"

record demo_form =
  form_method :: "string option"
  form_action :: "string option"
  form_entries :: "(string \<times> string) list"

text \<open>The button that submits: its name and value, and the action and method it overrides, if any.\<close>

record submitter =
  button_name :: string
  button_value :: string
  button_action :: "string option"

definition to_upper :: "string \<Rightarrow> string" where
  "to_upper s = map (\<lambda>c. if 97 \<le> (of_char c :: nat) \<and> (of_char c :: nat) \<le> 122
     then char_of ((of_char c :: nat) - 32) else c) s"

definition or_default :: "string option \<Rightarrow> string \<Rightarrow> string" where
  "or_default v d = (case v of None \<Rightarrow> d | Some t \<Rightarrow> if t = '''' then d else t)"

definition submit_request :: "string \<Rightarrow> demo_form \<Rightarrow> submitter option \<Rightarrow> string \<times> string \<times> (string \<times> string) list" where
  "submit_request pathname f by =
     (let fd = form_entries f @ (case by of None \<Rightarrow> []
                | Some b \<Rightarrow> if button_name b = '''' then [] else [(button_name b, button_value b)])
      in (to_upper (or_default (form_method f) ''GET''), or_default (form_action f) pathname, fd))"

definition submit_demo :: "'b handler \<Rightarrow> ('b \<Rightarrow> string) \<Rightarrow> demo_env \<Rightarrow> string \<Rightarrow> demo_form \<Rightarrow> submitter option \<Rightarrow>
    'b bridge_page \<Rightarrow> 'b bridge_page \<times> bool" where
  "submit_demo handle dump env pathname f by p =
     (let (meth, action, fd) = submit_request pathname f by in go handle dump env meth action (Some fd) p)"

subsection \<open>The timer and the start\<close>

text \<open>What the tick finds on the page, and its answers; the System box may be closed or absent.\<close>

record live_page =
  lp_columns :: "(string \<times> column) list"
  lp_sys :: demo_sys
  lp_has_box :: bool
  lp_box_open :: bool
  lp_gps :: demo_gps

record live_answers =
  la_daemon :: "string \<Rightarrow> daemon_answer option"
  la_system :: "sys_sample option"
  la_monitor :: "sample option"
  la_gnss :: "gps_answer option"

definition live_gnss :: "live_answers \<Rightarrow> live_page \<Rightarrow> live_page" where
  "live_gnss a p = (if lp_has_box p \<and> lp_box_open p
     then p\<lparr>lp_sys := (lp_sys p)\<lparr>dbox := liveSysGps (la_gnss a) (dbox (lp_sys p))\<rparr>\<rparr> else p)"

definition liveTick :: "string \<Rightarrow> (sample \<Rightarrow> svg list) \<Rightarrow> live_answers \<Rightarrow> live_page \<Rightarrow> live_page" where
  "liveTick dev draw a p =
     (let p = p\<lparr>lp_columns := liveDaemon (la_daemon a) (lp_columns p)\<rparr>;
          p = (if lp_has_box p then p\<lparr>lp_sys := liveSystem dev (la_system a) (lp_sys p)\<rparr> else p);
          p = p\<lparr>lp_gps := liveGps draw (la_monitor a) (lp_gps p)\<rparr>
      in live_gnss a p)"

text \<open>The toggle event of an element of the page, by its id; an opened pane is filled at once.\<close>

definition toggle_demo :: "(sample \<Rightarrow> svg list) \<Rightarrow> live_answers \<Rightarrow> string \<Rightarrow> live_page \<Rightarrow> live_page" where
  "toggle_demo draw a i p =
     (let p = (if i = ''gps-monitor'' \<or> i = ''gps-row'' then p\<lparr>lp_gps := liveGps draw (la_monitor a) (lp_gps p)\<rparr> else p)
      in if i = ''sysbox'' then live_gnss a p else p)"

text \<open>\<open>main\<close>: loading the runtime, the packages and the bridge may throw, and so may the first page.\<close>

record 'b boot =
  boot_page :: "'b bridge_page option"
  boot_status :: string
  loader_shown :: bool
  app_hidden :: bool
  interval_ms :: "nat option"

definition main_demo :: "string + ('b \<times> 'b bridge_page) \<Rightarrow> 'b handler \<Rightarrow> ('b \<Rightarrow> string) \<Rightarrow> demo_env \<Rightarrow> string \<Rightarrow> 'b boot" where
  "main_demo loaded handle dump env bridge_error =
     (case loaded of
        Inl e \<Rightarrow> \<lparr>boot_page = None, boot_status = ''failed to start: '' @ e, loader_shown = True,
          app_hidden = True, interval_ms = None\<rparr>
      | Inr (s, p0) \<Rightarrow>
          (case go handle dump env ''GET'' ''/'' None (p0\<lparr>bstate := s\<rparr>) of
             (p, False) \<Rightarrow> \<lparr>boot_page = Some p, boot_status = ''failed to start: '' @ bridge_error,
               loader_shown = True, app_hidden = True, interval_ms = None\<rparr>
           | (p, True) \<Rightarrow> \<lparr>boot_page = Some (p\<lparr>live_ticks := Suc (live_ticks p)\<rparr>),
               boot_status = ''installing LHPC'' @ ellipsis,
               loader_shown = False, app_hidden = False, interval_ms = Some 1500\<rparr>))"

end
