(* ===== verification/Demo_System_Props.thy ===== *)
theory Demo_System_Props
  imports Demo_System
begin

text \<open>
  The demo's System box against the console's: the same formatting and graphs, and, sample after
  sample, the same histories, graphs and texts for memory, swap, network, disks and temperature.
\<close>

subsection \<open>The same helpers\<close>

lemma demo_scale_eq: "i + k = 4 \<Longrightarrow> demo_scale b i = scale_bytes k b i"
proof (induction k arbitrary: b i)
  case 0
  then show ?case by (simp add: demo_scale.simps demo_units_def)
next
  case (Suc k)
  then show ?case by (subst demo_scale.simps) (simp add: demo_units_def)
qed

lemma demo_fmtBytes_eq: "demo_fmtBytes b = fmtBytes b"
  using demo_scale_eq [of 0 4 b]
  by (simp add: demo_fmtBytes_def fmtBytes_def demo_units_def units_def Let_def split: prod.splits)

lemma demo_pushHist_eq: "demo_pushHist = pushHist"
  by (simp add: demo_pushHist_def pushHist_def DEMO_HIST_def HIST_def)

lemma demo_points_eq: "demo_points n lo hi i vs = map (\<lambda>j. demo_point n lo hi (i + j) (vs ! j)) [0 ..< length vs]"
proof (induction vs arbitrary: i)
  case (Cons v vs)
  have "[0 ..< length (v # vs)] = 0 # map Suc [0 ..< length vs]"
    by (simp add: upt_conv_Cons map_Suc_upt del: upt_Suc)
  with Cons show ?case by simp
qed simp

lemma demo_drawSpark_eq: "demo_drawSpark = drawSpark"
  by (intro ext) (simp add: demo_drawSpark_def drawSpark_def demo_points_eq spark_points_def demo_point_def
      spark_step_def spark_y_def span_of_def DEMO_HIST_def HIST_def Let_def)

lemma demo_peak_eq: "demo_peak p vs = foldl (\<lambda>peak v. if n_lt peak v then v else peak) p vs"
  by (induction vs arbitrary: p) simp_all

lemma rolling_peak_eq: "rolling_peak rx tx = demo_peak (demo_peak (Fin 1000) rx) tx"
  by (simp add: rolling_peak_def demo_peak_eq)

lemma demo_gnss_eq: "demo_gnss_class = GPS_PILL" "demo_gnss_word = GPS_WORD"
  by (simp_all only: demo_gnss_class_def demo_gnss_word_def GPS_PILL_def GPS_WORD_def)

text \<open>The GNSS row and the Wi-Fi pill are drawn as the console draws them.\<close>

lemma GPS_WORD_nonempty: "GPS_WORD st = Some w \<Longrightarrow> w \<noteq> ''''"
  by (auto simp: GPS_WORD_def split: if_splits)

lemma demo_gnss_row: "liveSysGps d b = renderGps d b"
  using GPS_WORD_nonempty
  by (cases d) (fastforce simp: liveSysGps_def renderGps_def demo_gnss_eq Let_def split: option.splits)+

lemma demo_wifi_pill: "demo_wifi dev d b = renderWifi dev (Some d) b"
  by (simp add: demo_wifi_def renderWifi_def Let_def)

subsection \<open>Rates of counters\<close>

lemma double_grid: "fl x = x \<Longrightarrow> \<exists>n :: int. x = of_int n * 2 powi (- 1074)"
proof (cases "x = 0")
  case False
  assume x: "fl x = x"
  define e where "e = ulp_exp \<bar>x\<bar>"
  define r where "r = round_even (x / 2 powi e)"
  have "x = of_int r * 2 powi e" using x False by (simp add: fl_def Let_def e_def r_def)
  moreover have e: "- 1074 \<le> e" by (simp add: e_def ulp_exp_def)
  have "(2 :: rat) powi e = 2 ^ nat (e + 1074) * 2 powi (- 1074)"
    using e power_int_add [of "2 :: rat" "e + 1074" "- 1074"] by (simp add: power_int_def)
  ultimately have "x = of_int (r * 2 ^ nat (e + 1074)) * 2 powi (- 1074)" by simp
  then show ?thesis by blast
qed (rule exI [of _ 0], simp)

lemma fl_diff_pos: "fl x = x \<Longrightarrow> fl y = y \<Longrightarrow> y < x \<Longrightarrow> 0 < fl (x - y)"
proof -
  assume "fl x = x" "fl y = y" and less: "y < x"
  then obtain m n :: int where x: "x = of_int m * 2 powi (- 1074)" and y: "y = of_int n * 2 powi (- 1074)"
    using double_grid by meson
  have p: "(0 :: rat) < 2 powi (- 1074)" by simp
  then have "n < m" using less unfolding x y by (simp only: mult_less_cancel_right_pos of_int_less_iff)
  then have "(1 :: rat) \<le> of_int (m - n)" by simp
  then have "1 * 2 powi (- 1074) \<le> of_int (m - n) * (2 :: rat) powi (- 1074)"
    using p by (intro mult_right_mono) simp_all
  then have "2 powi (- 1074) \<le> x - y" unfolding x y by (simp only: left_diff_distrib of_int_diff mult_1)
  then have "fl (2 powi (- 1074)) \<le> fl (x - y)" by (rule fl_mono)
  moreover have "fl (2 powi (- 1074)) = (2 powi (- 1074) :: rat)" using fl_exact [of 1 "- 1074"] by simp
  ultimately show ?thesis using p by linarith
qed

lemma lt_round_num: "n_lt (Fin 0) (round_num z) \<longleftrightarrow> 0 < fl z"
  by (auto simp: round_num_def Let_def)

definition counter :: "number \<Rightarrow> bool" where
  "counter v \<longleftrightarrow> (\<exists>n :: int. v = Fin (of_int n) \<and> \<bar>n\<bar> \<le> 2 ^ 52)"

definition stamp_ok :: "number \<Rightarrow> bool" where
  "stamp_ok v \<longleftrightarrow> (\<exists>x. v = Fin x \<and> fl x = x \<and> \<bar>x\<bar> \<le> 2 ^ 53)"

text \<open>The two ways of asking for a later sample.\<close>

lemma later_eq: "stamp_ok a \<Longrightarrow> stamp_ok b \<Longrightarrow> n_lt (Fin 0) (n_sub b a) \<longleftrightarrow> n_lt a b"
proof -
  assume "stamp_ok a" "stamp_ok b"
  then obtain x y where ab: "a = Fin x" "b = Fin y" "fl x = x" "fl y = y" by (auto simp: stamp_ok_def)
  have "0 < fl (y - x) \<longleftrightarrow> x < y"
  proof
    assume "0 < fl (y - x)"
    then show "x < y" using fl_mono [of "y - x" 0] by (cases "x < y") auto
  qed (use fl_diff_pos [OF ab(4,3)] in simp)
  then show ?thesis by (simp add: ab n_sub_def lt_round_num)
qed

lemma stamp_diff: "stamp_ok a \<Longrightarrow> stamp_ok b \<Longrightarrow> n_lt a b \<Longrightarrow> \<exists>q. n_sub b a = Fin q \<and> 0 < q \<and> q \<le> 2 ^ 54"
proof -
  assume "stamp_ok a" "stamp_ok b" "n_lt a b"
  then obtain x y where ab: "a = Fin x" "b = Fin y" "fl x = x" "fl y = y" "x < y" "\<bar>x\<bar> \<le> 2 ^ 53" "\<bar>y\<bar> \<le> 2 ^ 53"
    by (auto simp: stamp_ok_def)
  have p: "0 < fl (y - x)" using fl_diff_pos [OF ab(4,3,5)] .
  have "y - x \<le> 2 ^ 54" using ab(6,7) by simp
  then have "fl (y - x) \<le> fl (2 ^ 54)" by (rule fl_mono)
  moreover have "fl (2 ^ 54) = (2 ^ 54 :: rat)" using fl_exact [of 1 54] by simp
  ultimately have u: "fl (y - x) \<le> 2 ^ 54" by simp
  then have "\<bar>fl (y - x)\<bar> < 2 ^ 1024"
    using p power_strict_increasing [of 54 1024 "2 :: rat"] by linarith
  then show ?thesis using p u by (simp add: ab n_sub_def round_num_fin)
qed

lemma counter_diff: "counter a \<Longrightarrow> counter b \<Longrightarrow> \<exists>k :: int. n_sub b a = Fin (of_int k)"
proof -
  assume "counter a" "counter b"
  then obtain m n :: int where ab: "a = Fin (of_int m)" "b = Fin (of_int n)" "\<bar>m\<bar> \<le> 2 ^ 52" "\<bar>n\<bar> \<le> 2 ^ 52"
    by (auto simp: counter_def)
  have "\<bar>n - m\<bar> \<le> 2 ^ 53" using ab(3,4) by simp
  then have f: "fl (of_int (n - m)) = (of_int (n - m) :: rat)" by (rule fl_int)
  have "\<bar>of_int (n - m)\<bar> \<le> (of_int (2 ^ 53) :: rat)"
    using \<open>\<bar>n - m\<bar> \<le> 2 ^ 53\<close> by (metis of_int_abs of_int_le_iff)
  then have "\<bar>of_int (n - m)\<bar> < (2 :: rat) ^ 1024"
    using power_strict_increasing [of 53 1024 "2 :: rat"] by simp
  then have "round_num (of_int (n - m)) = Fin (of_int (n - m))" using f by (simp add: round_num_fin)
  then have "n_sub b a = Fin (of_int (n - m))" by (simp add: ab n_sub_def)
  then show ?thesis by blast
qed

lemma rate_sign: "0 < q \<Longrightarrow> q \<le> 2 ^ 54 \<Longrightarrow>
    n_le (Fin 0) (n_div (Fin (of_int k)) (Fin q)) \<longleftrightarrow> n_le (Fin 0) (Fin (of_int k))"
proof -
  assume q: "0 < q" "q \<le> 2 ^ 54"
  have r: "n_le (Fin 0) (round_num z) \<longleftrightarrow> 0 \<le> fl z" for z
    by (auto simp: n_le_def round_num_def Let_def)
  have "0 \<le> fl (of_int k / q) \<longleftrightarrow> 0 \<le> k"
  proof
    assume k: "0 \<le> fl (of_int k / q)"
    show "0 \<le> k"
    proof (rule ccontr)
      assume "\<not> 0 \<le> k"
      then have "of_int k \<le> (- 1 :: rat)" by (simp flip: of_int_le_iff)
      then have "of_int k / q \<le> - 1 / q" using q by (intro divide_right_mono) simp_all
      also have "\<dots> \<le> - 1 / 2 ^ 54" using q by (simp add: field_simps)
      finally have "fl (of_int k / q) \<le> fl (- 1 / 2 ^ 54)" by (rule fl_mono)
      moreover have "fl (- 1 / 2 ^ 54) = (- 1 / 2 ^ 54 :: rat)"
        using fl_exact [of "- 1" "- 54"] by (simp add: power_int_minus field_simps)
      ultimately have "fl (of_int k / q) < 0" by (simp add: field_simps)
      with k show False by simp
    qed
  qed (use q in \<open>simp add: fl_nonneg\<close>)
  then show ?thesis using q by (simp add: n_div_def r) (auto simp: n_le_def)
qed

subsection \<open>Sample after sample\<close>

text \<open>What both keep and show of memory, swap, network, disks and temperature.\<close>

definition shared_view :: "hist \<Rightarrow> system_box \<Rightarrow> number list list \<times> string list" where
  "shared_view h b =
     ([h_mem h, h_swap h, h_rx h, h_tx h, h_disk h, h_disk2 h, h_temp h],
      map (sparks b) [''sys-mem-spark'', ''sys-swap-spark'', ''sys-netrx-spark'', ''sys-nettx-spark'',
        ''sys-disk-spark'', ''sys-disk2-spark'', ''sys-temp-spark''] @
      map (texts b) [''sys-mem-val'', ''sys-swap-val'', ''sys-temp-val''])"

definition net_ok :: "(number \<times> number \<times> number) option \<Rightarrow> bool" where
  "net_ok n \<longleftrightarrow> (case n of None \<Rightarrow> True | Some (rx, tx, t) \<Rightarrow> counter rx \<and> counter tx \<and> stamp_ok t)"

definition agree :: "sysbox \<Rightarrow> demo_sys \<Rightarrow> bool" where
  "agree s t \<longleftrightarrow> shared_view (hist s) (box s) = shared_view (dhist t) (dbox t) \<and>
     p_net (prev s) = prevNet t \<and> net_ok (prevNet t)"

text \<open>
  A sample as the server sends it: finite numbers, byte counters that are integers, a time stamp that is
  a double, a runtime disk only beside the root disk and with a size.
\<close>

definition sample_ok :: "sys_sample \<Rightarrow> bool" where
  "sample_ok d \<longleftrightarrow> stamp_ok (ts d) \<and>
     (case mem d of None \<Rightarrow> True | Some m \<Rightarrow> num (total_kb m) \<and> num (swap_total_kb m)) \<and>
     (case net d of None \<Rightarrow> True | Some (rx, tx) \<Rightarrow> counter rx \<and> counter tx) \<and>
     (case disk_root d of None \<Rightarrow> disk_runtime d = None | Some r \<Rightarrow> num (total_b r) \<and>
        (case disk_runtime d of None \<Rightarrow> True | Some q \<Rightarrow> positive (total_b r) \<and> positive (total_b q))) \<and>
     (num (temp_mc d) \<or> temp_mc d = NaN)"

lemmas box_defs = demo_txt_def set_val_def setBar_def demo_setBar_def setLevel_def show_row_def
  drawSpark_def set_pill_def setNetVal_def Let_def

lemma positive_iff: "num v \<Longrightarrow> positive v \<longleftrightarrow> n_lt (Fin 0) v"
  by (simp add: positive_def)

lemma fmtBytes_nonempty: "fmtBytes b \<noteq> ''''"
  by (auto simp: fmtBytes_def Let_def split: prod.splits)

lemma demo_pair_eq: "demo_pair (n_mul a (Fin 1024)) (n_mul b (Fin 1024)) = kb_text a b"
  by (simp add: demo_pair_def kb_text_def demo_fmtBytes_eq)

lemma kb_text_nonempty [simp]: "kb_text a b \<noteq> []"
  by (simp add: kb_text_def)

lemmas agree_defs = agree_def shared_view_def box_defs demo_pushHist_eq demo_drawSpark_eq

lemma agree_swap: "agree s t \<Longrightarrow> num (swap_total_kb m) \<Longrightarrow> agree (apply_swap m s) (demo_swap m t)"
  by (cases "n_lt (Fin 0) (swap_total_kb m)")
    (simp_all add: apply_swap_def demo_swap_def positive_iff demo_pair_eq percent_of_def agree_defs)

lemma agree_mem: "agree s t \<Longrightarrow> sample_ok d \<Longrightarrow> agree (apply_mem d s) (demo_mem d t)"
proof (cases "mem d")
  case (Some m)
  assume a: "agree s t" and "sample_ok d"
  then have n: "num (total_kb m)" "num (swap_total_kb m)" by (simp_all add: sample_ok_def Some)
  show ?thesis
  proof (cases "n_lt (Fin 0) (total_kb m)")
    case True
    show ?thesis
      using a n True unfolding apply_mem_def demo_mem_def Some option.case
      by (simp add: positive_iff Let_def, intro agree_swap)
        (simp_all add: demo_pair_eq percent_of_def agree_defs)
  qed (use a n in \<open>simp add: apply_mem_def demo_mem_def Some positive_iff\<close>)
qed (simp add: apply_mem_def demo_mem_def)

lemma agree_temp: "agree s t \<Longrightarrow> sample_ok d \<Longrightarrow> agree (apply_temp d s) (demo_temp d t)"
  by (auto simp: agree_def shared_view_def sample_ok_def apply_temp_def demo_temp_def
      demo_pushHist_eq demo_drawSpark_eq box_defs num_def split: number.splits)

lemma demo_used_eq: "demo_used = disk_used"
  by (intro ext) (simp add: demo_used_def disk_used_def)

lemma agree_disk2: "agree s t \<Longrightarrow> (\<And>q. disk_runtime d = Some q \<Longrightarrow> positive (total_b q)) \<Longrightarrow>
    agree (apply_disk2 d s) (demo_disk2 d t)"
  by (cases "disk_runtime d")
    (simp_all add: apply_disk2_def demo_disk2_def demo_used_eq positive_def agree_defs)

lemma agree_disk: "agree s t \<Longrightarrow> sample_ok d \<Longrightarrow> agree (apply_disk2 d (apply_disk d s)) (demo_disk d t)"
proof (cases "disk_root d")
  case None
  then show "agree s t \<Longrightarrow> sample_ok d \<Longrightarrow> ?thesis"
    by (simp add: sample_ok_def apply_disk_def apply_disk2_def demo_disk_def)
next
  case (Some r)
  assume a: "agree s t" and d: "sample_ok d"
  have n: "num (total_b r)" using d by (simp add: sample_ok_def Some)
  have q: "positive (total_b r) \<and> positive (total_b q)" if "disk_runtime d = Some q" for q
    using d that by (simp add: sample_ok_def Some)
  show ?thesis
  proof (cases "n_lt (Fin 0) (total_b r)")
    case True
    show ?thesis
      using a n True unfolding apply_disk_def demo_disk_def Some option.case
      by (simp add: positive_iff Let_def, intro agree_disk2)
        (simp_all add: demo_used_eq agree_defs q)
  next
    case False
    then have "disk_runtime d = None" using q n by (cases "disk_runtime d") (auto simp: positive_iff)
    then show ?thesis using a n False
      by (simp add: apply_disk_def demo_disk_def apply_disk2_def Some positive_iff)
  qed
qed

lemma agree_net: "agree s t \<Longrightarrow> sample_ok d \<Longrightarrow> agree (apply_net d s) (demo_net d t)"
proof (cases "net d")
  case (Some bytes)
  obtain rx tx where b: "net d = Some (rx, tx)" using Some by (cases bytes) simp
  assume a: "agree s t" and d: "sample_ok d"
  then have c: "counter rx" "counter tx" "stamp_ok (ts d)" by (auto simp: sample_ok_def b)
  then have n: "num rx" "rx \<noteq> NaN" by (auto simp: counter_def num_def)
  show ?thesis
  proof (cases "prevNet t")
    case None
    then show ?thesis using a b c n
      by (auto simp: agree_def apply_net_def demo_net_def net_ok_def)
  next
    case (Some pn)
    obtain prx ptx pts where p: "prevNet t = Some (prx, ptx, pts)" using Some by (cases pn) auto
    then have pc: "counter prx" "counter ptx" "stamp_ok pts" and pp: "p_net (prev s) = Some (prx, ptx, pts)"
      using a by (auto simp: agree_def net_ok_def)
    show ?thesis
    proof (cases "n_lt pts (ts d)")
      case False
      then have "\<not> n_lt (Fin 0) (n_sub (ts d) pts)" using later_eq [OF pc(3) c(3)] by simp
      then show ?thesis using a b c n p pp False
        by (auto simp: agree_def apply_net_def demo_net_def net_ok_def Let_def)
    next
      case True
      then have later: "n_lt (Fin 0) (n_sub (ts d) pts)" using later_eq [OF pc(3) c(3)] by simp
      obtain q where q: "n_sub (ts d) pts = Fin q" "0 < q" "q \<le> 2 ^ 54"
        using stamp_diff [OF pc(3) c(3) True] by blast
      obtain k l :: int where kl: "n_sub rx prx = Fin (of_int k)" "n_sub tx ptx = Fin (of_int l)"
        using counter_diff [OF pc(1) c(1)] counter_diff [OF pc(2) c(2)] by blast
      show ?thesis using a b c n p pp True later q kl rate_sign [OF q(2,3), of k] rate_sign [OF q(2,3), of l]
        by (simp add: agree_def apply_net_def demo_net_def net_ok_def shared_view_def demo_pushHist_eq
            demo_drawSpark_eq rolling_peak_eq box_defs)
    qed
  qed
qed (simp add: apply_net_def demo_net_def)

text \<open>The other sections leave that part alone.\<close>

definition apart :: "sysbox \<Rightarrow> sysbox \<Rightarrow> bool" where
  "apart s s' \<longleftrightarrow> shared_view (hist s') (box s') = shared_view (hist s) (box s) \<and> p_net (prev s') = p_net (prev s)"

lemma apart_agree: "apart s s' \<Longrightarrow> agree s' t \<longleftrightarrow> agree s t"
  by (simp add: apart_def agree_def)

lemma apart_box: "shared_view (hist s) (f (box s)) = shared_view (hist s) (box s) \<Longrightarrow> apart s (on_box f s)"
  by (simp add: apart_def)

lemma apart_hide: "apart s (on_box hideOptionalRows s)"
  by (rule apart_box) (simp add: hideOptionalRows_def shared_view_def)

lemma apart_core_bars: "apart s (on_box (drawCoreBars cs ps) s)"
  by (rule apart_box) (simp add: drawCoreBars_def shared_view_def Let_def)

lemma apart_trans: "apart s s' \<Longrightarrow> apart s' s'' \<Longrightarrow> apart s s''"
  by (simp add: apart_def)

lemma apart_refl [simp]: "apart s s" "apart s (s\<lparr>prev := (prev s)\<lparr>p_cpu := c\<rparr>\<rparr>)" "apart s (s\<lparr>clock := k\<rparr>)"
  by (simp_all add: apart_def)

lemma apart_power: "apart s (apply_power d s)"
  by (cases "power d") (simp_all add: apply_power_def apart_def shared_view_def box_defs)

lemma apart_info: "apart s (apply_info d s)"
  by (cases "sinfo d") (simp_all add: apply_info_def apart_def shared_view_def)

lemma apart_tick: "apart s (tickClock now s)"
  by (cases "skew (clock s)") (simp_all add: tickClock_def apart_def shared_view_def box_defs)

lemma apart_cpu: "apart s (apply_cpu d s)"
proof (cases "cpu d")
  case (Some c)
  let ?loads = "coreLoads (percore c)"
  show ?thesis
  proof (cases "p_cpu (prev s)")
    case None
    then show ?thesis by (simp add: apply_cpu_def Some Let_def)
  next
    case (Some p)
    obtain psum pidle pcores where p: "p_cpu (prev s) = Some (psum, pidle, pcores)" using Some by (cases p) auto
    have drawn: "apart s (on_box (drawSpark ''sys-cpu-spark'' h (Fin 0) (Fin 100) \<circ> set_val ''sys-cpu-val'' v)
        (s\<lparr>hist := (hist s)\<lparr>h_cpu := h\<rparr>\<rparr>))" for h v
      by (simp add: apart_def shared_view_def box_defs)
    have "apart s s' \<Longrightarrow> apart s ((on_box (drawCoreBars ?loads pcores) s')\<lparr>prev := (prev (on_box (drawCoreBars ?loads pcores) s'))\<lparr>p_cpu := q\<rparr>\<rparr>)"
      for s' q using apart_core_bars apart_refl(2) apart_trans by blast
    then show ?thesis using drawn
      by (simp add: apply_cpu_def \<open>cpu d = Some c\<close> p Let_def)
  qed
qed (simp add: apply_cpu_def)

lemma apart_hint: "i \<in> {''sys-time-cmd'', ''sys-time-hint''} \<Longrightarrow>
    shared_view h (show_hint i t b) = shared_view h b"
  by (auto simp: show_hint_def shared_view_def box_defs)

lemma apart_time: "apart s (apply_time now d s)"
proof (cases "time d")
  case (Some t)
  show ?thesis
  proof (cases "local_time t = ''''")
    case False
    define s1 where "s1 = on_box (set_pill ''sys-time-pill'' (if tlabel t = '''' then ellipsis else tlabel t)
      (time_pill_class (tstate t)) \<circ> show_row ''sys-time-row'') s"
    have a1: "apart s s1" by (simp add: s1_def apart_def shared_view_def box_defs)
    define s2 where "s2 = (if num (epoch t) \<and> utc t \<noteq> '''' then
        tickClock now (s1\<lparr>clock := \<lparr>skew = Some (n_sub (n_mul (epoch t) (Fin 1000)) (Fin (of_int now))),
          offset_s = tzOffsetSeconds (local_time t) (utc t), tz = tzname t\<rparr>\<rparr>)
      else on_box (set_val ''sys-time-utc'' (if utc t = '''' then '''' else utc t @ '' UTC'')
          \<circ> set_val ''sys-time-val'' (local_time t @ space_before (tzname t)))
         (s1\<lparr>clock := (clock s1)\<lparr>skew := None\<rparr>\<rparr>))"
    have w: "apart s1 (on_box (set_val ''sys-time-utc'' u \<circ> set_val ''sys-time-val'' v) (s1\<lparr>clock := k\<rparr>))" for u v k
      by (simp add: apart_def shared_view_def box_defs)
    have tk: "apart s1 (tickClock now (s1\<lparr>clock := k\<rparr>))" for k
      using apart_trans [OF apart_refl(3) apart_tick] .
    have a2: "apart s1 s2"
      unfolding s2_def by (split if_split) (intro conjI impI tk w)
    define s3 where "s3 = on_box (show_hint ''sys-time-cmd'' (hint_cmd t) \<circ> show_hint ''sys-time-hint'' (hint t)) s2"
    have a3: "apart s2 s3" unfolding s3_def by (rule apart_box) (simp add: apart_hint)
    define s4 where "s4 = (if tstate t \<noteq> ''green'' \<and> detail t \<noteq> '''' \<and> tlabel t = ''dup''
      then on_box (show_row ''sys-time-hint'' \<circ> set_val ''sys-time-hint'' (detail t @ '' '' @ em_dash @ '' '' @ hint t)) s3
      else s3)"
    have a4: "apart s3 s4" by (simp add: s4_def apart_def shared_view_def box_defs)
    have "apply_time now d s = on_box (\<lambda>b. b\<lparr>time_title := join [CHR 0x0A] (time_bits t)\<rparr>) s4"
      unfolding apply_time_def Some option.case Let_def
      by (simp only: False if_False s1_def [symmetric] s2_def [symmetric] s3_def [symmetric] s4_def [symmetric])
    moreover have "apart s4 (on_box (\<lambda>b. b\<lparr>time_title := join [CHR 0x0A] (time_bits t)\<rparr>) s4)"
      by (simp add: apart_def shared_view_def)
    ultimately show ?thesis using a1 a2 a3 a4 apart_trans by metis
  qed (simp add: apply_time_def Some)
qed (simp add: apply_time_def)

definition dapart :: "demo_sys \<Rightarrow> demo_sys \<Rightarrow> bool" where
  "dapart t t' \<longleftrightarrow> shared_view (dhist t') (dbox t') = shared_view (dhist t) (dbox t) \<and> prevNet t' = prevNet t"

lemma dapart_agree: "dapart t t' \<Longrightarrow> agree s t' \<longleftrightarrow> agree s t"
  by (simp add: dapart_def agree_def)

lemma dapart_trans: "dapart t t' \<Longrightarrow> dapart t' t'' \<Longrightarrow> dapart t t''"
  by (simp add: dapart_def)

lemma dapart_refl [simp]: "dapart t t" "dapart t (t\<lparr>prevCpu := c\<rparr>)"
  by (simp_all add: dapart_def)

lemma dapart_wifi: "dapart t (on_dbox (demo_wifi dev d) t)"
  by (simp add: dapart_def shared_view_def demo_wifi_def box_defs)

lemma dapart_cores: "dapart t (demo_drawCoreBars cs t)"
  by (simp add: dapart_def shared_view_def demo_drawCoreBars_def Let_def)

lemma dapart_cpu: "dapart t (demo_cpu d t)"
proof (cases "cpu d")
  case (Some c)
  have drawn: "dapart t (on_dbox (demo_drawSpark ''sys-cpu-spark'' h (Fin 0) (Fin 100) \<circ> demo_txt ''sys-cpu-val'' v)
      (t\<lparr>dhist := (dhist t)\<lparr>h_cpu := h\<rparr>\<rparr>))" for h v
    by (simp add: dapart_def shared_view_def box_defs demo_drawSpark_eq)
  have "dapart t t' \<Longrightarrow> dapart t (demo_drawCoreBars cs (t'\<lparr>prevCpu := q\<rparr>))" for t' q cs
    using dapart_cores dapart_refl(2) dapart_trans by blast
  then show ?thesis using drawn by (auto simp: demo_cpu_def Some Let_def split: option.splits)
qed (simp add: demo_cpu_def)

lemma dapart_time: "dapart t (demo_time d t)"
  by (cases "time d") (simp_all add: demo_time_def dapart_def shared_view_def box_defs)

lemma dapart_info: "dapart t (demo_info d t)"
  by (cases "sinfo d") (simp_all add: demo_info_def dapart_def shared_view_def box_defs)

lemma agree_sample: "agree s t \<Longrightarrow> sample_ok d \<Longrightarrow>
    agree (apply_sample now d s) (liveSystem dev (Some d) t)"
proof -
  assume a: "agree s t" and d: "sample_ok d"
  define s1 where "s1 = apply_cpu d (on_box hideOptionalRows s)"
  define t1 where "t1 = demo_cpu d (on_dbox (demo_wifi dev d) t)"
  have "agree s1 t1" using a
    unfolding s1_def t1_def
    by (simp only: apart_agree [OF apart_cpu] apart_agree [OF apart_hide]
        dapart_agree [OF dapart_cpu] dapart_agree [OF dapart_wifi])
  then have "agree (apply_disk2 d (apply_disk d (apply_net d (apply_mem d s1))))
      (demo_disk d (demo_net d (demo_mem d t1)))"
    using d by (intro agree_disk agree_net agree_mem)
  then have "agree (apply_temp d (apply_disk2 d (apply_disk d (apply_net d (apply_mem d s1)))))
      (demo_temp d (demo_disk d (demo_net d (demo_mem d t1))))" using d by (rule agree_temp)
  then show ?thesis
    unfolding apply_sample_def liveSystem_def option.case s1_def t1_def
    by (simp only: apart_agree [OF apart_info] apart_agree [OF apart_time] apart_agree [OF apart_power]
        dapart_agree [OF dapart_info] dapart_agree [OF dapart_time])
qed


definition empty_box :: system_box where
  "empty_box = \<lparr>texts = \<lambda>_. '''', bars = \<lambda>_. NaN, levels = \<lambda>_. '''', row_hidden = \<lambda>_. False,
     pills = \<lambda>_. ('''', ''''), sparks = \<lambda>_. '''', core_bars = [], net_lines = None, time_title = '''', info = []\<rparr>"

definition bare_sample :: "rat \<Rightarrow> int \<Rightarrow> sys_sample" where
  "bare_sample t n = \<lparr>ts = Fin t, cpu = None, mem = None, net = Some (Fin (of_int n), Fin (of_int n)),
     disk_root = None, disk_runtime = None, temp_mc = Fin 48000, power = None, time = None, sinfo = None,
     uptime_s = NaN, wifi = \<lambda>_. NaN\<rparr>"


text \<open>
  The processor is where they differ: after a counter of idle time has gone back, the console skips the
  sample, the demo shows a hundred percent.
\<close>

lemma demo_cpu_idle_regress:
  assumes "ds = Fin 100" and "di = Fin (- 10)"
  shows "demo_cpu_percent ds di = Fin 100" and "\<not> n_le (Fin 0) di"
proof -
  have r: "round_num (of_int n) = Fin (of_int n)" if "\<bar>n\<bar> \<le> 2 ^ 53" for n
  proof -
    have "\<bar>of_int n\<bar> \<le> (of_int (2 ^ 53) :: rat)" using that by (metis of_int_abs of_int_le_iff)
    then have "\<bar>of_int n\<bar> < (2 :: rat) ^ 1024"
      using power_strict_increasing [of 53 1024 "2 :: rat"] by simp
    then show ?thesis using fl_int [OF that] by (simp add: round_num_fin)
  qed
  show "demo_cpu_percent ds di = Fin 100"
    using r [of 110] r [of 11000] r [of 110]
    by (simp add: demo_cpu_percent_def assms n_sub_def n_mul_def n_div_def n_max_def n_min_def)
  show "\<not> n_le (Fin 0) di" by (simp add: assms(2) n_le_def)
qed

end
