(* ===== verification/Demo_Props.thy ===== *)
theory Demo_Props
  imports Demo Demo_System_Props
begin

text \<open>
  The demo against the console it stands in for: the GPS monitor and the sky are the console's, a stack
  body is requested once, a link with a scheme never reaches the bridge, and where the two differ.
\<close>

subsection \<open>The GPS monitor\<close>

lemma gpsText_eq: "gpsText = Gps.shown"
  by (intro ext) (simp add: gpsText_def Gps.shown_def str_or_def split: option.splits)

lemma demo_alt_eq: "demo_alt d = fmtAlt d"
  by (cases "alt d") (simp_all add: demo_alt_def fmtAlt_def)

lemma demo_sats_loop_eq: "demo_sats_loop c s p xs = concat (map (demo_sat c s p) xs)"
  by (induction xs) simp_all

lemma demo_sat_eq: "demo_sat = sky_dot"
  by (intro ext) (simp add: demo_sat_def sky_dot_def dot_radius_def Let_def split: option.splits)

text \<open>
  For every sample the demo's GPS monitor writes the texts of the console's and draws its sky.
\<close>

theorem demo_monitor_agrees:
  "demo_monitor d = monitor_texts d \<and> gpsSky js_cos js_sin math_pi d = renderSky js_cos js_sin math_pi d"
proof
  show "demo_monitor d = monitor_texts d"
    by (simp add: demo_monitor_def monitor_texts_def gpsText_eq demo_alt_eq fmtCoord_def state_text_def
        str_or_def sats_text_def demo_sats_def device_text_def demo_device_def Let_def)
  have "filter (\<lambda>s. (case el s of None \<Rightarrow> False | Some e \<Rightarrow> 0 \<le> e) \<and> az s \<noteq> None) (satellites d) =
      filter above_horizon (satellites d)"
    by (rule filter_cong) (simp_all add: above_horizon_def)
  then show "gpsSky js_cos js_sin math_pi d = renderSky js_cos js_sin math_pi d"
    by (simp add: gpsSky_def renderSky_def demo_sats_loop_eq demo_sat_eq Let_def)
qed

subsection \<open>Bodies\<close>

text \<open>
  Whatever a row's toggle events and the bridge's answers, its body is requested at most once, and what
  replaced the placeholder stays, also the failure text: unlike the console, the demo never tries again.
\<close>

definition row_inv :: "demo_row \<Rightarrow> bool" where
  "row_inv r \<longleftrightarrow> (if data_loaded_row r then body_requests r = 1 \<and> body_view r \<noteq> Placeholder
     else body_requests r = 0 \<and> body_view r = Placeholder)"

definition toggles_run :: "'b handler \<Rightarrow> demo_env \<Rightarrow> bool list \<Rightarrow> demo_row \<times> 'b \<Rightarrow> demo_row \<times> 'b" where
  "toggles_run handle env bs rb = fold (row_toggle handle env) bs rb"

lemma row_toggle_inv: "row_inv (fst rb) \<Longrightarrow> row_inv (fst (row_toggle handle env b rb))"
  by (cases rb) (auto simp: row_inv_def row_toggle_def Let_def split: prod.splits option.splits)

lemma row_toggle_kept: "row_inv (fst rb) \<Longrightarrow> data_loaded_row (fst rb) \<Longrightarrow>
    body_view (fst (row_toggle handle env b rb)) = body_view (fst rb) \<and>
    data_loaded_row (fst (row_toggle handle env b rb)) \<and> snd (row_toggle handle env b rb) = snd rb"
  by (cases rb) (simp add: row_toggle_def Let_def)

lemma demo_body_once:
  assumes "row_inv r"
  shows "row_inv (fst (toggles_run handle env bs (r, s))) \<and>
    body_requests (fst (toggles_run handle env bs (r, s))) \<le> 1"
proof -
  have "row_inv (fst (toggles_run handle env bs rb))" if "row_inv (fst rb)" for rb
    using that by (induction bs arbitrary: rb) (simp_all add: toggles_run_def row_toggle_inv)
  then have "row_inv (fst (toggles_run handle env bs (r, s)))" using assms by simp
  then show ?thesis by (auto simp: row_inv_def split: if_splits)
qed

lemma demo_failure_final:
  assumes "row_inv r" and "body_view r = LoadFailed"
  shows "body_view (fst (toggles_run handle env bs (r, s))) = LoadFailed \<and> snd (toggles_run handle env bs (r, s)) = s"
proof -
  have l: "data_loaded_row r" using assms by (auto simp: row_inv_def split: if_splits)
  have "row_inv (fst rb) \<Longrightarrow> data_loaded_row (fst rb) \<Longrightarrow>
      body_view (fst (toggles_run handle env bs rb)) = body_view (fst rb) \<and>
      snd (toggles_run handle env bs rb) = snd rb" for rb
  proof (induction bs arbitrary: rb)
    case (Cons b bs)
    let ?rb = "row_toggle handle env b rb"
    have "row_inv (fst ?rb)" "data_loaded_row (fst ?rb)" "body_view (fst ?rb) = body_view (fst rb)" "snd ?rb = snd rb"
      using Cons.prems row_toggle_inv row_toggle_kept by blast+
    with Cons.IH [of ?rb] show ?case by (simp add: toggles_run_def)
  qed (simp add: toggles_run_def)
  from this [of "(r, s)"] assms l show ?thesis by simp
qed

subsection \<open>Links and forms\<close>

text \<open>A text with a scheme, as the standard writes it.\<close>

lemma scheme_tail_iff: "scheme_tail s \<longleftrightarrow> (\<exists>a b. s = a @ CHR '':'' # b \<and> list_all scheme_char a)"
proof (induction s)
  case (Cons c cs)
  show ?case
  proof
    assume "scheme_tail (c # cs)"
    then consider "c = CHR '':''" | "scheme_char c" "scheme_tail cs" by auto
    then show "\<exists>a b. c # cs = a @ CHR '':'' # b \<and> list_all scheme_char a"
    proof cases
      case 1
      then show ?thesis by (intro exI [of _ "[]"] exI [of _ cs]) simp
    next
      case 2
      then obtain a b where "cs = a @ CHR '':'' # b" "list_all scheme_char a" using Cons.IH by blast
      with 2 show ?thesis by (intro exI [of _ "c # a"] exI [of _ b]) simp
    qed
  next
    assume "\<exists>a b. c # cs = a @ CHR '':'' # b \<and> list_all scheme_char a"
    then obtain a b where ab: "c # cs = a @ CHR '':'' # b" "list_all scheme_char a" by blast
    then show "scheme_tail (c # cs)" using Cons.IH by (cases a) auto
  qed
qed simp

lemma has_scheme_iff: "has_scheme s \<longleftrightarrow> (\<exists>l a b. s = l # a @ CHR '':'' # b \<and> letter l \<and> list_all scheme_char a)"
  by (cases s) (auto simp: has_scheme_def scheme_tail_iff)

text \<open>
  A click hands a link to the bridge only if the link has no scheme, is not protocol-relative and not
  an anchor; then, and for the reset button, the browser's own navigation is prevented.
\<close>

theorem click_stays_inside:
  "(snd (click_action booted c) = GoTo href \<longrightarrow> fst (click_action booted c) \<and>
      (\<nexists>l a b. href = l # a @ CHR '':'' # b \<and> letter l \<and> list_all scheme_char a) \<and>
      take 2 href \<noteq> ''//'' \<and> take 1 href \<noteq> ''#'') \<and>
   (fst (click_action booted c) \<longrightarrow> on_reset c \<or> (\<exists>h. on_link c = Some h \<and> snd (click_action booted c) = GoTo h))"
  by (auto simp: click_action_def isInternal_def has_scheme_iff split: option.splits if_splits)

theorem click_stays_inside_witness:
  "click_action True \<lparr>on_reset = False, on_pane = None, on_link = Some ''/stacks''\<rparr> = (True, GoTo ''/stacks'') \<and>
   take 2 ''/stacks'' \<noteq> ''//''"
proof
  let ?c = "\<lparr>on_reset = False, on_pane = None, on_link = Some ''/stacks''\<rparr>"
  show e: "click_action True ?c = (True, GoTo ''/stacks'')"
    by (simp add: click_action_def isInternal_def has_scheme_def letter_def)
  show "take 2 ''/stacks'' \<noteq> ''//''"
    using click_stays_inside [of True ?c "''/stacks''"] e by simp
qed

text \<open>
  The submit handler takes the form's action and not the button's: \<open>Reset to defaults\<close> and \<open>Apply live\<close> of
  the daemon parameters, which carry their own, are sent as a save.
\<close>

lemma button_action_ignored:
  "submit_request pathname f (Some b) = submit_request pathname f (Some (b\<lparr>button_action := a\<rparr>))"
  by (simp add: submit_request_def)

text \<open>The demo shows the channel state of a channel that was not scanned, where the console shows a dash.\<close>

lemma demo_cell_texts: "column.texts (demo_cell i v c) k =
    (if k = i \<and> v \<noteq> None \<and> v \<noteq> Some '''' then v else column.texts c k)"
  by (auto simp: demo_cell_def split: option.splits)

lemma demo_unmeasured_verdict:
  assumes "reachable j" and "channel j = Some ch" and "ch ''CADSTATE'' = Some ''FREE''" and "ch ''CADSCAN'' = Some ''0''"
  shows "column.texts (demo_column ''433'' (Some j) c) ''rd-cad-433'' = Some ''FREE''" and "cad_text ch = em_dash"
proof -
  let ?m = "\<lambda>c :: column. if (case ch ''LIVERSSI'' of None \<Rightarrow> '''' | Some v \<Rightarrow> v) = '''' then c
    else c\<lparr>meter := (case ch ''LIVERSSI'' of None \<Rightarrow> '''' | Some v \<Rightarrow> v)\<rparr>"
  have m: "column.texts (?m x) = column.texts x" for x by simp
  have "column.texts (demo_column ''433'' (Some j) c) ''rd-cad-433'' =
    column.texts (fold (\<lambda>(i, v). demo_cell i v)
      (demo_cells ''433'' (section_or_empty (status j)) (section_or_empty (stats j)) ch) c) ''rd-cad-433''"
    using assms(1,2) m by (simp add: demo_column_def section_or_empty_def Let_def)
  then show "column.texts (demo_column ''433'' (Some j) c) ''rd-cad-433'' = Some ''FREE''"
    using assms(3) by (simp add: demo_cells_def demo_cell_texts)
  show "cad_text ch = em_dash"
    using assms(3,4) by (simp add: cad_text_def or_mark_def field_def)
qed

text \<open>An entry's last value is the one that is sent.\<close>

lemma from_entries_last: "from_entries es = map_of (rev es)"
proof -
  have "foldl (\<lambda>m (k, v). m(k \<mapsto> v)) m es = m ++ map_of (rev es)" for m
    by (induction es arbitrary: m) (auto simp: map_add_def fun_eq_iff split: option.splits)
  then show ?thesis by (simp add: from_entries_def)
qed

end
