(* ===== verification/Crypto_Random.thy ===== *)
theory Crypto_Random
  imports Word_Array JsNum
begin

text \<open>
  \<open>WordArray.random\<close> of \<open>crypto-js/core.js\<close>: a multiply-with-carry generator, seeded anew for every word.
  \<open>Math.random\<close> is an argument, the sequence of the numbers it returns, read from an index on.
\<close>

text \<open>ToInt32 of a double drops the fraction first.\<close>

definition drop_fraction :: "rat \<Rightarrow> int" where
  "drop_fraction x = (if x < 0 then - \<lfloor>- x\<rfloor> else \<lfloor>x\<rfloor>)"

record mwc =
  m_z :: int
  m_w :: int

definition mwc_seed :: "rat \<Rightarrow> mwc" where
  "mwc_seed s = \<lparr>m_z = 0x3ade68b1, m_w = drop_fraction s\<rparr>"

text \<open>One call of the generator; the sign takes one number of \<open>Math.random\<close>.\<close>

definition mwc_next :: "rat \<Rightarrow> mwc \<Rightarrow> mwc \<times> rat" where
  "mwc_next sign g =
     (let z = js_and (0x9069 * js_and (m_z g) 0xFFFF + js_shr (m_z g) 0x10) 0xffffffff;
          w = js_and (0x4650 * js_and (m_w g) 0xFFFF + js_shr (m_w g) 0x10) 0xffffffff;
          result = of_int (js_and (js_shl z 0x10 + w) 0xffffffff) / 0x100000000 + 1 / 2
      in (\<lparr>m_z = z, m_w = w\<rparr>, result * (if sign > 1 / 2 then 1 else - 1)))"

text \<open>
  The loop over the words. The cached number is \<open>undefined\<close> before the first word: as 0, it is then
  replaced by a new random number. \<open>k\<close> counts the numbers of \<open>Math.random\<close> used so far.
\<close>

fun random_words :: "(nat \<Rightarrow> rat) \<Rightarrow> nat \<Rightarrow> rat \<Rightarrow> nat \<Rightarrow> int list" where
  "random_words rnd k rcache 0 = []"
| "random_words rnd k rcache (Suc n) =
     (let (k1, s) = (if rcache = 0 then (k + 1, rnd k) else (k, rcache));
          (g1, r1) = mwc_next (rnd k1) (mwc_seed (fl (s * 0x100000000)));
          (g2, r2) = mwc_next (rnd (k1 + 1)) g1
      in js_or (drop_fraction (fl (r2 * 0x100000000))) 0 # random_words rnd (k1 + 2) (fl (r1 * 0x3ade67b7)) n)"

definition random_array :: "(nat \<Rightarrow> rat) \<Rightarrow> nat \<Rightarrow> word_array" where
  "random_array rnd nBytes = init_words (random_words rnd 0 0 ((nBytes + 3) div 4)) (Some nBytes)"

subsection \<open>Its shape\<close>

text \<open>Every number of the generator is a fraction of at most 32 bits between -1 and 1.\<close>

lemma mwc_next_range: "- 1 < snd (mwc_next sign g) \<and> snd (mwc_next sign g) < 1"
proof -
  have "0 \<le> of_int (js_and a 0xffffffff) / 0x100000000 + (1 / 2 :: rat) \<and>
      of_int (js_and a 0xffffffff) / 0x100000000 + (1 / 2 :: rat) < 1" for a
  proof -
    have "- (2147483648) \<le> js_and a 0xffffffff" "js_and a 0xffffffff < 2147483648"
      using sint_ge [of "i32 a AND i32 0xffffffff"] sint_lt [of "i32 a AND i32 0xffffffff"] by (simp_all add: js_and_def)
    then have "rat_of_int (- 2147483648) \<le> rat_of_int (js_and a 0xffffffff)" "rat_of_int (js_and a 0xffffffff) < rat_of_int 2147483648"
      unfolding of_int_le_iff of_int_less_iff by simp_all
    then show ?thesis by simp
  qed
  from this [of "js_shl (js_and (0x9069 * js_and (m_z g) 0xFFFF + js_shr (m_z g) 0x10) 0xffffffff) 0x10 +
      js_and (0x4650 * js_and (m_w g) 0xFFFF + js_shr (m_w g) 0x10) 0xffffffff"]
  show ?thesis by (auto simp: mwc_next_def Let_def)
qed

lemma random_words_shape:
  "length (random_words rnd k rcache n) = n \<and> (\<forall>w \<in> set (random_words rnd k rcache n). - (2 ^ 31) \<le> w \<and> w < 2 ^ 31)"
proof (induction n arbitrary: k rcache)
  case (Suc n)
  have "- (2 ^ 31) \<le> js_or a 0 \<and> js_or a 0 < 2 ^ 31" for a
    using sint_ge [of "i32 a OR i32 0"] sint_lt [of "i32 a OR i32 0"] by (simp add: js_or_def)
  with Suc.IH show ?case by (simp add: Let_def split: prod.split)
qed simp

text \<open>The array holds the number of bytes asked for, in as few words as fit them.\<close>

lemma random_array_shape:
  "sigBytes (random_array rnd n) = n \<and> length (wds (random_array rnd n)) = (n + 3) div 4 \<and>
    (\<forall>w \<in> set (wds (random_array rnd n)). - (2 ^ 31) \<le> w \<and> w < 2 ^ 31) \<and> length (bytes_of (random_array rnd n)) = n"
  using random_words_shape [of rnd 0 0 "(n + 3) div 4"] by (simp add: random_array_def init_words_def bytes_of_def)

end
