(* ===== verification/Js_Object.thy ===== *)
theory Js_Object
  imports Prelude "HOL-Library.AList"
begin

text \<open>
  The objects of the script as a store: an object has a prototype, its own properties in the order they
  were added, the elements of an array and, for a function, which function it is. An address is the
  object's index, so an object comes after its prototype: \<open>Object.create\<close> and \<open>new\<close> set the prototype of
  a fresh object and nothing changes it afterwards.
\<close>

type_synonym addr = nat

datatype jsval = Undefined | NumV int | ObjV addr

record 'f obj =
  prototype_of :: "addr option"
  own :: "(string \<times> jsval) list"
  elems :: "int list"
  code :: "'f option"

type_synonym 'f store = "'f obj list"

definition alloc :: "'f obj \<Rightarrow> 'f store \<Rightarrow> 'f store \<times> addr" where
  "alloc o' h = (h @ [o'], length h)"

definition plain_obj :: "addr option \<Rightarrow> 'f obj" where
  "plain_obj p = \<lparr>prototype_of = p, own = [], elems = [], code = None\<rparr>"

definition array_obj :: "int list \<Rightarrow> 'f obj" where
  "array_obj xs = \<lparr>prototype_of = None, own = [], elems = xs, code = None\<rparr>"

definition fun_obj :: "'f \<Rightarrow> 'f obj" where
  "fun_obj c = \<lparr>prototype_of = None, own = [], elems = [], code = Some c\<rparr>"

text \<open>Reading goes up the prototypes; what is nowhere is \<open>undefined\<close>.\<close>

function lookup :: "'f store \<Rightarrow> addr \<Rightarrow> string \<Rightarrow> jsval" where
  "lookup h a k = (case map_of (own (h ! a)) k of
     Some v \<Rightarrow> v
   | None \<Rightarrow> (case prototype_of (h ! a) of
       None \<Rightarrow> Undefined
     | Some p \<Rightarrow> if p < a then lookup h p k else Undefined))"
  by pat_completeness auto
termination by (relation "measure (\<lambda>(h, a, k). a)") auto

declare lookup.simps [simp del]

text \<open>Writing makes or changes an own property.\<close>

definition set_own :: "addr \<Rightarrow> string \<Rightarrow> jsval \<Rightarrow> 'f store \<Rightarrow> 'f store" where
  "set_own a k v h = h[a := (h ! a)\<lparr>own := AList.update k v (own (h ! a))\<rparr>]"

definition set_elems :: "addr \<Rightarrow> int list \<Rightarrow> 'f store \<Rightarrow> 'f store" where
  "set_elems a xs h = h[a := (h ! a)\<lparr>elems := xs\<rparr>]"

definition has_own :: "'f store \<Rightarrow> addr \<Rightarrow> string \<Rightarrow> bool" where
  "has_own h a k \<longleftrightarrow> map_of (own (h ! a)) k \<noteq> None"

subsection \<open>Reading back\<close>

lemma length_assign [simp]: "length (set_own a k v h) = length h"
  by (simp add: set_own_def)

lemma length_set_elems [simp]: "length (set_elems a xs h) = length h"
  by (simp add: set_elems_def)

lemma nth_assign: "a < length h \<Longrightarrow> set_own a k v h ! b =
    (if b = a then (h ! a)\<lparr>own := AList.update k v (own (h ! a))\<rparr> else h ! b)"
  by (simp add: set_own_def nth_list_update)

lemma own_assign: "a < length h \<Longrightarrow>
    map_of (own (set_own a k v h ! b)) j = (if b = a \<and> j = k then Some v else map_of (own (h ! b)) j)"
  by (simp add: nth_assign update_conv')

lemma proto_assign [simp]: "prototype_of (set_own a k v h ! b) = prototype_of (h ! b)"
  by (cases "a < length h"; cases "a = b") (simp_all add: set_own_def list_update_beyond)

lemma elems_assign [simp]: "elems (set_own a k v h ! b) = elems (h ! b)"
  by (cases "a < length h"; cases "a = b") (simp_all add: set_own_def list_update_beyond)

lemma code_assign [simp]: "code (set_own a k v h ! b) = code (h ! b)"
  by (cases "a < length h"; cases "a = b") (simp_all add: set_own_def list_update_beyond)

lemma nth_set_elems: "a < length h \<Longrightarrow> set_elems a xs h ! b = (if b = a then (h ! a)\<lparr>elems := xs\<rparr> else h ! b)"
  by (simp add: set_elems_def nth_list_update)

lemma own_set_elems [simp]: "own (set_elems a xs h ! b) = own (h ! b)"
  by (cases "a < length h"; cases "a = b") (simp_all add: set_elems_def list_update_beyond)

lemma proto_set_elems [simp]: "prototype_of (set_elems a xs h ! b) = prototype_of (h ! b)"
  by (cases "a < length h"; cases "a = b") (simp_all add: set_elems_def list_update_beyond)

lemma code_set_elems [simp]: "code (set_elems a xs h ! b) = code (h ! b)"
  by (cases "a < length h"; cases "a = b") (simp_all add: set_elems_def list_update_beyond)

lemma lookup_own: "map_of (own (h ! a)) k = Some v \<Longrightarrow> lookup h a k = v"
  by (subst lookup.simps) simp

lemma lookup_up: "map_of (own (h ! a)) k = None \<Longrightarrow> prototype_of (h ! a) = Some p \<Longrightarrow> p < a \<Longrightarrow>
    lookup h a k = lookup h p k"
  by (subst lookup.simps) simp

text \<open>A lookup only depends on the objects up to the one it starts from.\<close>

lemma lookup_cong:
  assumes "\<And>b. b \<le> a \<Longrightarrow> map_of (own (h' ! b)) k = map_of (own (h ! b)) k \<and> prototype_of (h' ! b) = prototype_of (h ! b)"
  shows "lookup h' a k = lookup h a k"
  using assms
proof (induction a rule: less_induct)
  case (less a)
  have "lookup h' p k = lookup h p k" if "p < a" for p
    using that less by simp
  then show ?case using less.prems [of a]
    by (subst (1 2) lookup.simps) (auto split: option.split)
qed

lemma lookup_alloc [simp]: "a < length h \<Longrightarrow> lookup (h @ [o']) a k = lookup h a k"
  by (rule lookup_cong) (simp add: nth_append)

lemma lookup_assign_other: "k \<noteq> j \<or> a < b \<Longrightarrow> b < length h \<Longrightarrow> lookup (set_own b j v h) a k = lookup h a k"
  by (rule lookup_cong) (auto simp: own_assign)

lemma lookup_assign_same: "a < length h \<Longrightarrow> lookup (set_own a k v h) a k = v"
  by (rule lookup_own) (simp add: own_assign)

lemma lookup_set_elems [simp]: "lookup (set_elems b xs h) a k = lookup h a k"
  by (rule lookup_cong) simp

text \<open>A write to an object that has the property hides nothing from the objects that have their own.\<close>

lemma lookup_assign_own: "map_of (own (h ! a)) k = Some w \<Longrightarrow> b < length h \<Longrightarrow> a \<noteq> b \<Longrightarrow>
    lookup (set_own b k v h) a k = w"
  by (rule lookup_own) (simp add: own_assign)

end
