(* ===== verification/Crypto_Base.thy ===== *)
theory Crypto_Base
  imports Js_Object
begin

text \<open>
  \<open>Base\<close> of \<open>crypto-js/core.js\<close>, the prototypal inheritance of the library: \<open>extend\<close>, \<open>create\<close>, \<open>mixIn\<close>
  and \<open>clone\<close> on the store of objects, and the classes the modules define with them. A \<open>TypeError\<close> is
  \<open>None\<close>.
\<close>

text \<open>
  The functions of the library. \<open>SuperInit s\<close> is the closure \<open>extend\<close> makes for the object \<open>s\<close>:
  \<open>function () { subtype.$super.init.apply(this, arguments); }\<close>.
\<close>

datatype fcode = SuperInit addr
  | BaseExtend | BaseCreate | BaseInit | BaseMixIn | BaseClone
  | WordArrayInit | WordArrayToString | WordArrayConcat | WordArrayClamp | WordArrayClone | WordArrayRandom
  | BufferedReset | BufferedAppend | BufferedProcess | BufferedClone
  | HasherInit | HasherReset | HasherUpdate | HasherFinalize | HasherCreateHelper | HasherCreateHmacHelper
  | MD5DoReset | MD5DoProcessBlock | MD5DoFinalize | MD5Clone

type_synonym heap = "fcode store"

subsection \<open>Operations\<close>

definition create_object :: "addr \<Rightarrow> heap \<Rightarrow> heap \<times> addr" where
  "create_object p = alloc (plain_obj (Some p))"

definition mixIn :: "addr \<Rightarrow> addr \<Rightarrow> heap \<Rightarrow> heap" where
  "mixIn this properties h =
     (let h1 = fold (\<lambda>(k, v). set_own this k v) (own (h ! properties)) h
      in if has_own h1 properties ''toString'' then set_own this ''toString'' (lookup h1 properties ''toString'') h1 else h1)"

text \<open>The default initializer, and the links of a subtype.\<close>

definition default_init :: "addr \<Rightarrow> addr \<Rightarrow> heap \<Rightarrow> heap" where
  "default_init this subtype h =
     (if \<not> has_own h subtype ''init'' \<or> lookup h this ''init'' = lookup h subtype ''init''
      then (let (h', f) = alloc (fun_obj (SuperInit subtype)) h in set_own subtype ''init'' (ObjV f) h')
      else h)"

definition link_subtype :: "addr \<Rightarrow> addr \<Rightarrow> heap \<Rightarrow> heap option" where
  "link_subtype this subtype h = (case lookup h subtype ''init'' of
     ObjV f \<Rightarrow> Some (set_own subtype ''$super'' (ObjV this) (set_own f ''prototype'' (ObjV subtype) h))
   | NumV _ \<Rightarrow> Some (set_own subtype ''$super'' (ObjV this) h)
   | Undefined \<Rightarrow> None)"

definition base_extend :: "addr \<Rightarrow> addr option \<Rightarrow> heap \<Rightarrow> (heap \<times> addr) option" where
  "base_extend this overrides h =
     (let (h1, subtype) = create_object this h;
          h2 = (case overrides of Some p \<Rightarrow> mixIn subtype p h1 | None \<Rightarrow> h1)
      in map_option (\<lambda>h'. (h', subtype)) (link_subtype this subtype (default_init this subtype h2)))"

text \<open>
  Which constructor a call of an \<open>init\<close> function ends in: a default initializer calls the \<open>init\<close> of its
  \<open>$super\<close>. The inner \<open>None\<close> is a \<open>TypeError\<close>; no value at all would be a call that never returns.
\<close>

partial_function (option) init_target :: "heap \<Rightarrow> addr \<Rightarrow> fcode option option" where
  "init_target h f = (case code (h ! f) of
     None \<Rightarrow> Some None
   | Some c \<Rightarrow> (case c of
       SuperInit s \<Rightarrow> (case lookup h s ''$super'' of
         ObjV p \<Rightarrow> (case lookup h p ''init'' of
           ObjV g \<Rightarrow> init_target h g
         | _ \<Rightarrow> Some None)
       | _ \<Rightarrow> Some None)
     | _ \<Rightarrow> Some (Some c)))"

text \<open>The function a method call reaches; a call of \<open>extend\<close>.\<close>

definition method_of :: "heap \<Rightarrow> addr \<Rightarrow> string \<Rightarrow> fcode option" where
  "method_of h a k = (case lookup h a k of ObjV f \<Rightarrow> code (h ! f) | _ \<Rightarrow> None)"

definition call_extend :: "addr \<Rightarrow> addr option \<Rightarrow> heap \<Rightarrow> (heap \<times> addr) option" where
  "call_extend this overrides h =
     (if method_of h this ''extend'' = Some BaseExtend then base_extend this overrides h else None)"

text \<open>\<open>Base.clone\<close>: \<open>this.init.prototype.extend(this)\<close>\<close>

definition base_clone :: "addr \<Rightarrow> heap \<Rightarrow> (heap \<times> addr) option" where
  "base_clone this h = (case lookup h this ''init'' of
     ObjV f \<Rightarrow> (case lookup h f ''prototype'' of ObjV p \<Rightarrow> call_extend p (Some this) h | _ \<Rightarrow> None)
   | _ \<Rightarrow> None)"

text \<open>\<open>new F()\<close>: the prototype is \<open>F.prototype\<close>.\<close>

definition new_object :: "addr \<Rightarrow> heap \<Rightarrow> (heap \<times> addr) option" where
  "new_object f h = (case lookup h f ''prototype'' of
     ObjV p \<Rightarrow> Some (create_object p h) | _ \<Rightarrow> None)"

subsection \<open>The classes\<close>

text \<open>An object literal with functions, and one with other values.\<close>

fun add_methods :: "addr \<Rightarrow> (string \<times> fcode) list \<Rightarrow> heap \<Rightarrow> heap" where
  "add_methods a [] h = h"
| "add_methods a ((k, c) # ms) h = (let (h', f) = alloc (fun_obj c) h in add_methods a ms (set_own a k (ObjV f) h'))"

definition literal :: "(string \<times> fcode) list \<Rightarrow> heap \<Rightarrow> heap \<times> addr" where
  "literal ms h = (let (h1, a) = alloc (plain_obj None) h in (add_methods a ms h1, a))"

definition derive_class :: "addr \<Rightarrow> (string \<times> fcode) list \<Rightarrow> (string \<times> jsval) list \<Rightarrow> heap \<Rightarrow> (heap \<times> addr) option" where
  "derive_class this ms vs h =
     (let (h1, p) = literal ms h in call_extend this (Some p) (fold (\<lambda>(k, v). set_own p k v) vs h1))"

definition base_methods :: "(string \<times> fcode) list" where
  "base_methods = [(''extend'', BaseExtend), (''create'', BaseCreate), (''init'', BaseInit), (''mixIn'', BaseMixIn),
     (''clone'', BaseClone)]"

definition word_array_methods :: "(string \<times> fcode) list" where
  "word_array_methods = [(''init'', WordArrayInit), (''toString'', WordArrayToString), (''concat'', WordArrayConcat),
     (''clamp'', WordArrayClamp), (''clone'', WordArrayClone), (''random'', WordArrayRandom)]"

definition buffered_methods :: "(string \<times> fcode) list" where
  "buffered_methods = [(''reset'', BufferedReset), (''_append'', BufferedAppend), (''_process'', BufferedProcess),
     (''clone'', BufferedClone)]"

definition hasher_methods :: "(string \<times> fcode) list" where
  "hasher_methods = [(''init'', HasherInit), (''reset'', HasherReset), (''update'', HasherUpdate),
     (''finalize'', HasherFinalize), (''_createHelper'', HasherCreateHelper), (''_createHmacHelper'', HasherCreateHmacHelper)]"

definition md5_methods :: "(string \<times> fcode) list" where
  "md5_methods = [(''_doReset'', MD5DoReset), (''_doProcessBlock'', MD5DoProcessBlock),
     (''_doFinalize'', MD5DoFinalize), (''clone'', MD5Clone)]"

record classes =
  Base :: addr
  WordArray :: addr
  BufferedBlockAlgorithm :: addr
  Hasher_class :: addr
  MD5_class :: addr

text \<open>The two modules, run on an empty store.\<close>

definition load_crypto :: "(heap \<times> classes) option" where
  "load_crypto =
     (let (h0, b) = literal base_methods [] in
      case derive_class b word_array_methods [] h0 of None \<Rightarrow> None | Some (h1, w) \<Rightarrow>
      (case derive_class b buffered_methods [(''_minBufferSize'', NumV 0)] h1 of None \<Rightarrow> None | Some (h2, u) \<Rightarrow>
      (case call_extend b None h2 of None \<Rightarrow> None | Some (h3, c) \<Rightarrow>
      (case derive_class u hasher_methods [(''cfg'', ObjV c), (''blockSize'', NumV 16)] h3 of None \<Rightarrow> None | Some (h4, k) \<Rightarrow>
      (case derive_class k md5_methods [] h4 of None \<Rightarrow> None | Some (h5, m) \<Rightarrow>
         Some (h5, \<lparr>Base = b, WordArray = w, BufferedBlockAlgorithm = u, Hasher_class = k, MD5_class = m\<rparr>))))))"

end
