(* ===== verification/Crypto_Heap.thy ===== *)
theory Crypto_Heap
  imports Crypto_Base Md5
begin

text \<open>
  The word arrays and hashers of crypto-js as the objects they are: an array of words is shared by
  reference, \<open>concat\<close> and the block loop change it in place, and \<open>clone\<close> decides what two hashers share. The
  arithmetic on the words is that of Word_Array, Hasher and Md5. \<open>None\<close> is a \<open>TypeError\<close>.
\<close>

subsection \<open>Word arrays\<close>

definition ref_at :: "heap \<Rightarrow> addr \<Rightarrow> string \<Rightarrow> addr option" where
  "ref_at h a k = (case lookup h a k of ObjV b \<Rightarrow> Some b | _ \<Rightarrow> None)"

definition num_of :: "heap \<Rightarrow> addr \<Rightarrow> string \<Rightarrow> int" where
  "num_of h a k = (case lookup h a k of NumV n \<Rightarrow> n | _ \<Rightarrow> 0)"

text \<open>\<open>WordArray.init\<close>: the words default to a new array, the byte count to that of all words.\<close>

definition word_array_init :: "addr \<Rightarrow> addr option \<Rightarrow> int option \<Rightarrow> heap \<Rightarrow> heap" where
  "word_array_init this words n h =
     (let (h1, r) = (case words of Some r \<Rightarrow> (h, r) | None \<Rightarrow> alloc (array_obj []) h);
          h2 = set_own this ''words'' (ObjV r) h1
      in set_own this ''sigBytes'' (NumV (case n of Some s \<Rightarrow> s | None \<Rightarrow> int (length (elems (h2 ! r))) * 4)) h2)"

text \<open>\<open>new WordArray.init(words, n)\<close>, the words a new array.\<close>

definition new_words :: "classes \<Rightarrow> int list \<Rightarrow> int option \<Rightarrow> heap \<Rightarrow> (heap \<times> addr) option" where
  "new_words cl ws n h = (case ref_at h (WordArray cl) ''init'' of
     None \<Rightarrow> None
   | Some f \<Rightarrow> (let (h1, r) = alloc (array_obj ws) h in
       map_option (\<lambda>(h2, w). (word_array_init w (Some r) n h2, w)) (new_object f h1)))"

text \<open>\<open>new WordArray.init()\<close>, and with words that are \<open>undefined\<close>.\<close>

definition new_empty :: "classes \<Rightarrow> int option \<Rightarrow> heap \<Rightarrow> (heap \<times> addr) option" where
  "new_empty cl n h = (case ref_at h (WordArray cl) ''init'' of
     None \<Rightarrow> None
   | Some f \<Rightarrow> map_option (\<lambda>(h1, w). (word_array_init w None n h1, w)) (new_object f h))"

definition word_array_clone :: "addr \<Rightarrow> heap \<Rightarrow> (heap \<times> addr) option" where
  "word_array_clone this h = (case base_clone this h of
     None \<Rightarrow> None
   | Some (h1, c) \<Rightarrow> (case ref_at h1 this ''words'' of
       None \<Rightarrow> None
     | Some r \<Rightarrow> (let (h2, r') = alloc (array_obj (elems (h1 ! r))) h1 in Some (set_own c ''words'' (ObjV r') h2, c))))"

text \<open>\<open>concat\<close>: both loops read the other array where it is now, which may be this one.\<close>

definition concat_object :: "addr \<Rightarrow> addr \<Rightarrow> heap \<Rightarrow> heap option" where
  "concat_object this that h = (case (ref_at h this ''words'', ref_at h that ''words'') of
     (Some r, Some r2) \<Rightarrow>
       let s = nat (num_of h this ''sigBytes''); n = nat (num_of h that ''sigBytes'');
           h1 = set_elems r (wds (clamp \<lparr>wds = elems (h ! r), sigBytes = s\<rparr>)) h;
           h2 = (if s mod 4 \<noteq> 0
                 then fold (\<lambda>i h. set_elems r (or_byte (elems (h ! r)) (s + i) (byte_at (elems (h ! r2)) i)) h) [0..<n] h1
                 else fold (\<lambda>i h. set_elems r (w_set (elems (h ! r)) ((s + i) div 4) (w_at (elems (h ! r2)) (i div 4))) h)
                        (map (\<lambda>k. 4 * k) [0..<(n + 3) div 4]) h1)
       in Some (set_own this ''sigBytes'' (NumV (num_of h2 this ''sigBytes'' + int n)) h2)
   | _ \<Rightarrow> None)"

subsection \<open>Hashers\<close>

text \<open>\<open>reset\<close> of a hasher for MD5, whose \<open>_doReset\<close> makes the four chaining words.\<close>

definition md5_reset :: "classes \<Rightarrow> addr \<Rightarrow> heap \<Rightarrow> heap option" where
  "md5_reset cl this h = (case new_empty cl None h of
     None \<Rightarrow> None
   | Some (h1, d) \<Rightarrow>
       (case new_words cl doReset None (set_own this ''_nDataBytes'' (NumV 0) (set_own this ''_data'' (ObjV d) h1)) of
          None \<Rightarrow> None
        | Some (h2, q) \<Rightarrow> Some (set_own this ''_hash'' (ObjV q) h2)))"

text \<open>\<open>Hasher.init\<close> without a configuration.\<close>

definition hasher_init :: "classes \<Rightarrow> addr \<Rightarrow> heap \<Rightarrow> heap option" where
  "hasher_init cl this h = (case ref_at h this ''cfg'' of
     None \<Rightarrow> None
   | Some c \<Rightarrow> (case call_extend c None h of
       None \<Rightarrow> None
     | Some (h1, c') \<Rightarrow> md5_reset cl this (set_own this ''cfg'' (ObjV c') h1)))"

text \<open>\<open>CryptoJS.algo.MD5.create()\<close>: the new instance's initializer leads to \<open>Hasher.init\<close>.\<close>

definition md5_create :: "classes \<Rightarrow> heap \<Rightarrow> (heap \<times> addr) option" where
  "md5_create cl h = (case call_extend (MD5_class cl) None h of
     None \<Rightarrow> None
   | Some (h1, x) \<Rightarrow> (case ref_at h1 x ''init'' of
       None \<Rightarrow> None
     | Some f \<Rightarrow>
         if init_target h1 f = Some (Some HasherInit) then map_option (\<lambda>h2. (h2, x)) (hasher_init cl x h1) else None))"

definition append_object :: "addr \<Rightarrow> addr \<Rightarrow> heap \<Rightarrow> heap option" where
  "append_object this data h = (case ref_at h this ''_data'' of
     None \<Rightarrow> None
   | Some d \<Rightarrow> map_option (\<lambda>h1. set_own this ''_nDataBytes''
       (NumV (num_of h1 this ''_nDataBytes'' + num_of h1 data ''sigBytes'')) h1) (concat_object d data h))"

text \<open>One block: the concrete function changes the words of the data and of the hash in place.\<close>

definition block_object :: "block_function \<Rightarrow> addr \<Rightarrow> addr \<Rightarrow> nat \<Rightarrow> heap \<Rightarrow> heap" where
  "block_object doBlock r t offset h =
     (let (ws, H) = doBlock (elems (h ! r)) offset (elems (h ! t)) in set_elems t H (set_elems r ws h))"

definition process_object :: "classes \<Rightarrow> block_function \<Rightarrow> addr \<Rightarrow> heap \<Rightarrow> heap option" where
  "process_object cl doBlock this h = (case (ref_at h this ''_data'', ref_at h this ''_hash'') of
     (Some d, Some q) \<Rightarrow>
       (case (ref_at h d ''words'', ref_at h q ''words'') of
          (Some r, Some t) \<Rightarrow>
            let n = nat (num_of h d ''sigBytes'');
                nWordsReady = blocks_ready False n * blockSize;
                nBytesReady = min (nWordsReady * 4) n
            in if nWordsReady = 0 then map_option fst (new_empty cl (Some (int nBytesReady)) h)
               else let h1 = fold (block_object doBlock r t) (map (\<lambda>k. k * blockSize) [0..<blocks_ready False n]) h;
                        ws = elems (h1 ! r);
                        h2 = set_elems r (drop nWordsReady ws) h1;
                        h3 = set_own d ''sigBytes'' (NumV (num_of h2 d ''sigBytes'' - int nBytesReady)) h2
                    in map_option fst (new_words cl (take nWordsReady ws) (Some (int nBytesReady)) h3)
        | _ \<Rightarrow> None)
   | _ \<Rightarrow> None)"

definition update_object :: "classes \<Rightarrow> block_function \<Rightarrow> addr \<Rightarrow> addr \<Rightarrow> heap \<Rightarrow> heap option" where
  "update_object cl doBlock this data h = (case append_object this data h of
     None \<Rightarrow> None | Some h1 \<Rightarrow> process_object cl doBlock this h1)"

text \<open>\<open>MD5.clone\<close> over \<open>BufferedBlockAlgorithm.clone\<close>.\<close>

definition buffered_clone :: "addr \<Rightarrow> heap \<Rightarrow> (heap \<times> addr) option" where
  "buffered_clone this h = (case base_clone this h of
     None \<Rightarrow> None
   | Some (h1, c) \<Rightarrow> (case ref_at h1 this ''_data'' of
       None \<Rightarrow> None
     | Some d \<Rightarrow> map_option (\<lambda>(h2, d'). (set_own c ''_data'' (ObjV d') h2, c)) (word_array_clone d h1)))"

definition md5_clone :: "addr \<Rightarrow> heap \<Rightarrow> (heap \<times> addr) option" where
  "md5_clone this h = (case buffered_clone this h of
     None \<Rightarrow> None
   | Some (h1, c) \<Rightarrow> (case ref_at h1 this ''_hash'' of
       None \<Rightarrow> None
     | Some q \<Rightarrow> map_option (\<lambda>(h2, q'). (set_own c ''_hash'' (ObjV q') h2, c)) (word_array_clone q h1)))"

text \<open>\<open>MD5._doFinalize\<close>: the padding goes into the data's array, the digest into the hash's.\<close>

definition md5_do_finalize :: "classes \<Rightarrow> (rat \<Rightarrow> rat) \<Rightarrow> addr \<Rightarrow> heap \<Rightarrow> (heap \<times> addr) option" where
  "md5_do_finalize cl sine this h = (case ref_at h this ''_data'' of
     None \<Rightarrow> None
   | Some d \<Rightarrow> (case ref_at h d ''words'' of
       None \<Rightarrow> None
     | Some r \<Rightarrow>
         let nBitsTotal = num_of h this ''_nDataBytes'' * 8;
             nBitsLeft = num_of h d ''sigBytes'' * 8;
             i = nat (js_ushr nBitsLeft 5);
             j = nat (js_shl (js_ushr (nBitsLeft + 64) 9) 4);
             h1 = set_elems r (w_set (elems (h ! r)) i
               (js_or (w_at (elems (h ! r)) i) (js_shl 0x80 (nat (24 - nBitsLeft mod 32))))) h;
             h2 = set_elems r (w_set (elems (h1 ! r)) (j + 15) (swap_endian (nBitsTotal div 0x100000000))) h1;
             h3 = set_elems r (w_set (elems (h2 ! r)) (j + 14) (swap_endian nBitsTotal)) h2;
             h4 = set_own d ''sigBytes'' (NumV ((int (length (elems (h3 ! r))) + 1) * 4)) h3
         in (case process_object cl (doProcessBlock sine) this h4 of
               None \<Rightarrow> None
             | Some h5 \<Rightarrow> (case ref_at h5 this ''_hash'' of
                 None \<Rightarrow> None
               | Some q \<Rightarrow> map_option (\<lambda>t. (fold (\<lambda>i h. set_elems t (w_set (elems (h ! t)) i (swap_endian (w_at (elems (h ! t)) i))) h)
                   [0..<4] h5, q)) (ref_at h5 q ''words'')))))"

text \<open>\<open>Hasher.finalize\<close>\<close>

definition md5_finalize :: "classes \<Rightarrow> (rat \<Rightarrow> rat) \<Rightarrow> addr \<Rightarrow> addr option \<Rightarrow> heap \<Rightarrow> (heap \<times> addr) option" where
  "md5_finalize cl sine this message h = (case (case message of Some m \<Rightarrow> append_object this m h | None \<Rightarrow> Some h) of
     None \<Rightarrow> None | Some h1 \<Rightarrow> md5_do_finalize cl sine this h1)"

end
