(* ===== verification/Crypto_Base_Props.thy ===== *)
theory Crypto_Base_Props
  imports Crypto_Base
begin

text \<open>
  The inheritance of crypto-js: what every operation keeps of the store, that a constructor call ends and
  in which constructor, and what a subtype and a clone inherit.
\<close>

subsection \<open>Well-formed stores\<close>

text \<open>
  Prototypes and supertypes are older than their objects; an own \<open>init\<close> is a function, and a default one
  belongs to the object or an older one; a default initializer's object has a supertype with an \<open>init\<close>;
  \<open>extend\<close> comes with \<open>init\<close>.
\<close>

definition init_ok :: "heap \<Rightarrow> addr \<Rightarrow> bool" where
  "init_ok h a \<longleftrightarrow> (\<forall>v. map_of (own (h ! a)) ''init'' = Some v \<longrightarrow>
     (\<exists>f. v = ObjV f \<and> f < length h \<and> code (h ! f) \<noteq> None \<and> (\<forall>s. code (h ! f) = Some (SuperInit s) \<longrightarrow> s \<le> a)))"

definition super_ok :: "heap \<Rightarrow> addr \<Rightarrow> bool" where
  "super_ok h a \<longleftrightarrow> (\<forall>s. code (h ! a) = Some (SuperInit s) \<longrightarrow>
     (\<exists>p. map_of (own (h ! s)) ''$super'' = Some (ObjV p) \<and> p < s \<and> s < length h \<and> lookup h p ''init'' \<noteq> Undefined))"

definition heap_ok :: "heap \<Rightarrow> bool" where
  "heap_ok h \<longleftrightarrow> (\<forall>a < length h. distinct (map fst (own (h ! a))) \<and> (\<forall>p. prototype_of (h ! a) = Some p \<longrightarrow> p < a) \<and> init_ok h a \<and> super_ok h a \<and>
     (has_own h a ''extend'' \<longrightarrow> has_own h a ''init''))"

lemma heap_okD:
  assumes "heap_ok h" and "a < length h"
  shows "prototype_of (h ! a) = Some p \<Longrightarrow> p < a"
    and "map_of (own (h ! a)) ''init'' = Some v \<Longrightarrow>
      \<exists>f. v = ObjV f \<and> f < length h \<and> code (h ! f) \<noteq> None \<and> (\<forall>s. code (h ! f) = Some (SuperInit s) \<longrightarrow> s \<le> a)"
    and "code (h ! a) = Some (SuperInit s) \<Longrightarrow>
      \<exists>p. map_of (own (h ! s)) ''$super'' = Some (ObjV p) \<and> p < s \<and> s < length h \<and> lookup h p ''init'' \<noteq> Undefined"
    and "has_own h a ''extend'' \<Longrightarrow> has_own h a ''init''"
    and "distinct (map fst (own (h ! a)))"
  using assms by (auto simp: heap_ok_def init_ok_def super_ok_def)

text \<open>A property that is found belongs to the object or one above it.\<close>

lemma lookup_owner: "lookup h a k = v \<Longrightarrow> v \<noteq> Undefined \<Longrightarrow> \<exists>b \<le> a. map_of (own (h ! b)) k = Some v"
proof (induction a rule: less_induct)
  case (less a)
  show ?case
  proof (cases "map_of (own (h ! a)) k")
    case None
    then obtain p where "prototype_of (h ! a) = Some p" "p < a" "lookup h p k = v"
      using less.prems by (subst (asm) lookup.simps) (auto split: option.splits if_splits)
    with less.IH [of p] less.prems(2) show ?thesis by (metis le_trans less_imp_le_nat)
  next
    case (Some w)
    with less.prems lookup_own [OF Some] show ?thesis by auto
  qed
qed

lemma init_function:
  assumes "heap_ok h" and "a < length h" and "lookup h a ''init'' \<noteq> Undefined"
  shows "\<exists>f b. lookup h a ''init'' = ObjV f \<and> b \<le> a \<and> map_of (own (h ! b)) ''init'' = Some (ObjV f) \<and> f < length h \<and>
    code (h ! f) \<noteq> None"
proof -
  obtain b where b: "b \<le> a" "map_of (own (h ! b)) ''init'' = Some (lookup h a ''init'')"
    using lookup_owner [OF refl assms(3)] by blast
  with assms(2) heap_okD(2) [OF assms(1), of b] show ?thesis by fastforce
qed

lemma extend_has_init:
  "heap_ok h \<Longrightarrow> a < length h \<Longrightarrow> lookup h a ''extend'' \<noteq> Undefined \<Longrightarrow> lookup h a ''init'' \<noteq> Undefined"
proof (induction a rule: less_induct)
  case (less a)
  show ?case
  proof (cases "map_of (own (h ! a)) ''init''")
    case None
    then have "map_of (own (h ! a)) ''extend'' = None"
      using heap_okD(4) [OF less.prems(1,2)] by (cases "map_of (own (h ! a)) ''extend''") (auto simp: has_own_def)
    then obtain p where p: "prototype_of (h ! a) = Some p" "p < a" "lookup h p ''extend'' \<noteq> Undefined"
      using less.prems(3) by (subst (asm) lookup.simps) (auto split: option.splits if_splits)
    with less.IH [of p] less.prems(1,2) lookup_up [OF None p(1,2)] show ?thesis by simp
  next
    case (Some v)
    with heap_okD(2) [OF less.prems(1,2) Some] lookup_own [OF Some] show ?thesis by auto
  qed
qed

subsection \<open>Constructor calls end\<close>

text \<open>What the first call of an initializer does.\<close>

lemma init_target_native: "code (h ! f) = Some c \<Longrightarrow> \<forall>s. c \<noteq> SuperInit s \<Longrightarrow> init_target h f = Some (Some c)"
  by (subst init_target.simps) (cases c; simp)

lemma init_target_super:
  "code (h ! f) = Some (SuperInit s) \<Longrightarrow> map_of (own (h ! s)) ''$super'' = Some (ObjV p) \<Longrightarrow>
    lookup h p ''init'' = ObjV g \<Longrightarrow> init_target h f = init_target h g"
  by (subst init_target.simps) (simp add: lookup_own)

lemma init_target_ends:
  assumes "heap_ok h"
  shows "a < length h \<Longrightarrow> map_of (own (h ! a)) ''init'' = Some (ObjV f) \<Longrightarrow>
    \<exists>c. init_target h f = Some (Some c) \<and> (\<forall>s. c \<noteq> SuperInit s)"
proof (induction a arbitrary: f rule: less_induct)
  case (less a)
  obtain c where f: "f < length h" "code (h ! f) = Some c" "\<And>s. c = SuperInit s \<Longrightarrow> s \<le> a"
    using heap_okD(2) [OF assms less.prems] by auto
  show ?case
  proof (cases "\<exists>s. c = SuperInit s")
    case False
    with init_target_native [OF f(2)] show ?thesis by auto
  next
    case True
    then obtain s where s: "code (h ! f) = Some (SuperInit s)" "s \<le> a" using f by auto
    obtain p where p: "map_of (own (h ! s)) ''$super'' = Some (ObjV p)" "p < s" "lookup h p ''init'' \<noteq> Undefined"
      using heap_okD(3) [OF assms f(1) s(1)] by blast
    have "p < length h" using p(2) s(2) less.prems(1) by simp
    then obtain g b where g: "lookup h p ''init'' = ObjV g" "b \<le> p" "map_of (own (h ! b)) ''init'' = Some (ObjV g)"
      using init_function [OF assms _ p(3)] by blast
    have "\<exists>c. init_target h g = Some (Some c) \<and> (\<forall>s. c \<noteq> SuperInit s)"
      using g p(2) s(2) less.prems(1) by (intro less.IH [of b]) simp_all
    with init_target_super [OF s(1) p(1) g(1)] show ?thesis by simp
  qed
qed

text \<open>The constructor that \<open>new\<close> or \<open>create\<close> on an object ends in.\<close>

definition constructor_of :: "heap \<Rightarrow> addr \<Rightarrow> fcode option option" where
  "constructor_of h a = (case lookup h a ''init'' of ObjV f \<Rightarrow> init_target h f | _ \<Rightarrow> Some None)"

lemma constructor_ends:
  assumes "heap_ok h" and "a < length h" and "lookup h a ''init'' \<noteq> Undefined"
  shows "\<exists>c. constructor_of h a = Some (Some c) \<and> (\<forall>s. c \<noteq> SuperInit s)"
proof -
  obtain f b where "lookup h a ''init'' = ObjV f" "b \<le> a" "map_of (own (h ! b)) ''init'' = Some (ObjV f)"
    using init_function [OF assms] by blast
  with init_target_ends [OF assms(1), of b f] assms(2) show ?thesis by (simp add: constructor_of_def)
qed

text \<open>It depends on the initializers and supertypes of the objects of the store only.\<close>

definition same_inits :: "heap \<Rightarrow> heap \<Rightarrow> bool" where
  "same_inits h h' \<longleftrightarrow> (\<forall>b < length h. code (h' ! b) = code (h ! b) \<and> prototype_of (h' ! b) = prototype_of (h ! b) \<and>
     map_of (own (h' ! b)) ''init'' = map_of (own (h ! b)) ''init'' \<and>
     map_of (own (h' ! b)) ''$super'' = map_of (own (h ! b)) ''$super'')"

lemma same_inits_lookup: "same_inits h h' \<Longrightarrow> a < length h \<Longrightarrow> lookup h' a ''init'' = lookup h a ''init''"
  by (rule lookup_cong) (auto simp: same_inits_def)

lemma init_target_cong:
  assumes "heap_ok h" and "same_inits h h'"
  shows "a < length h \<Longrightarrow> map_of (own (h ! a)) ''init'' = Some (ObjV f) \<Longrightarrow> init_target h' f = init_target h f"
proof (induction a arbitrary: f rule: less_induct)
  case (less a)
  obtain c where f: "f < length h" "code (h ! f) = Some c" "\<And>s. c = SuperInit s \<Longrightarrow> s \<le> a"
    using heap_okD(2) [OF assms(1) less.prems] by auto
  then have f': "code (h' ! f) = Some c" using assms(2) by (simp add: same_inits_def)
  show ?case
  proof (cases "\<exists>s. c = SuperInit s")
    case False
    with init_target_native [OF f(2)] init_target_native [OF f'] show ?thesis by auto
  next
    case True
    then obtain s where s: "c = SuperInit s" "s \<le> a" using f by auto
    obtain p where p: "map_of (own (h ! s)) ''$super'' = Some (ObjV p)" "p < s" "lookup h p ''init'' \<noteq> Undefined"
      using heap_okD(3) [OF assms(1) f(1)] f(2) s(1) by blast
    have len: "p < length h" "s < length h" using p(2) s(2) less.prems(1) by simp_all
    then obtain g b where g: "lookup h p ''init'' = ObjV g" "b \<le> p" "map_of (own (h ! b)) ''init'' = Some (ObjV g)"
      using init_function [OF assms(1) _ p(3)] by blast
    have "init_target h' g = init_target h g" using g p(2) s(2) less.prems(1) by (intro less.IH [of b]) simp_all
    moreover have "map_of (own (h' ! s)) ''$super'' = Some (ObjV p)" "lookup h' p ''init'' = ObjV g"
      using p(1) g(1) len assms(2) same_inits_lookup [OF assms(2)] by (simp_all add: same_inits_def)
    ultimately show ?thesis
      using init_target_super [of h f s p g] init_target_super [of h' f s p g] f(2) f' s(1) p(1) g(1) by simp
  qed
qed

lemma constructor_cong:
  assumes "heap_ok h" and "same_inits h h'" and "a < length h" and "lookup h a ''init'' \<noteq> Undefined"
  shows "constructor_of h' a = constructor_of h a"
proof -
  obtain f b where "lookup h a ''init'' = ObjV f" "b \<le> a" "map_of (own (h ! b)) ''init'' = Some (ObjV f)"
    using init_function [OF assms(1,3,4)] by blast
  with init_target_cong [OF assms(1,2), of b f] same_inits_lookup [OF assms(2,3)] assms(3)
  show ?thesis by (simp add: constructor_of_def)
qed

subsection \<open>Extending\<close>

lemma map_of_rev_distinct: "distinct (map fst xs) \<Longrightarrow> map_of (rev xs) = map_of xs"
  by (rule ext) (metis (no_types) distinct_rev map_of_eq_Some_iff not_Some_eq rev_map set_rev)

lemma assigns_spec:
  assumes "a < length h"
  shows "length (fold (\<lambda>(k, v). set_own a k v) xs h) = length h \<and>
    (\<forall>b. b \<noteq> a \<longrightarrow> fold (\<lambda>(k, v). set_own a k v) xs h ! b = h ! b) \<and>
    map_of (own (fold (\<lambda>(k, v). set_own a k v) xs h ! a)) = map_of (own (h ! a)) ++ map_of (rev xs) \<and>
    (distinct (map fst (own (h ! a))) \<longrightarrow> distinct (map fst (own (fold (\<lambda>(k, v). set_own a k v) xs h ! a)))) \<and>
    prototype_of (fold (\<lambda>(k, v). set_own a k v) xs h ! a) = prototype_of (h ! a) \<and>
    elems (fold (\<lambda>(k, v). set_own a k v) xs h ! a) = elems (h ! a) \<and>
    code (fold (\<lambda>(k, v). set_own a k v) xs h ! a) = code (h ! a)"
  using assms
proof (induction xs arbitrary: h)
  case (Cons x xs)
  obtain k v where x: "x = (k, v)" by fastforce
  have own: "own (set_own a k v h ! a) = AList.update k v (own (h ! a))" using Cons.prems by (simp add: nth_assign)
  then have m: "map_of (own (set_own a k v h ! a)) = (map_of (own (h ! a)))(k \<mapsto> v)" by (simp add: update_conv')
  have d: "distinct (map fst (own (h ! a))) \<Longrightarrow> distinct (map fst (own (set_own a k v h ! a)))"
    unfolding own by (rule distinct_update)
  have o: "set_own a k v h ! b = h ! b" if "b \<noteq> a" for b using that Cons.prems by (simp add: nth_assign)
  show ?case using Cons.IH [of "set_own a k v h"] Cons.prems x m d o by (auto simp: map_add_def split: option.split)
qed simp

text \<open>\<open>mixIn\<close> copies the own properties.\<close>

lemma mixIn_spec:
  assumes "a < length h" and "p \<noteq> a" and "distinct (map fst (own (h ! p)))"
  shows "length (mixIn a p h) = length h \<and> (\<forall>b. b \<noteq> a \<longrightarrow> mixIn a p h ! b = h ! b) \<and>
    map_of (own (mixIn a p h ! a)) = map_of (own (h ! a)) ++ map_of (own (h ! p)) \<and>
    (distinct (map fst (own (h ! a))) \<longrightarrow> distinct (map fst (own (mixIn a p h ! a)))) \<and>
    prototype_of (mixIn a p h ! a) = prototype_of (h ! a) \<and> elems (mixIn a p h ! a) = elems (h ! a) \<and>
    code (mixIn a p h ! a) = code (h ! a)"
proof -
  define h1 where "h1 = fold (\<lambda>(k, v). set_own a k v) (own (h ! p)) h"
  note h1 = assigns_spec [OF assms(1), of "own (h ! p)", folded h1_def]
  have p: "h1 ! p = h ! p" using h1 assms(2) by blast
  have a: "a < length h1" using h1 assms(1) by simp
  have m: "map_of (own (h1 ! a)) = map_of (own (h ! a)) ++ map_of (own (h ! p))"
    using h1 map_of_rev_distinct [OF assms(3)] by simp
  show ?thesis
  proof (cases "has_own h1 p ''toString''")
    case True
    then obtain v where v: "map_of (own (h ! p)) ''toString'' = Some v" by (auto simp: has_own_def p)
    then have l: "lookup h1 p ''toString'' = v" using p by (simp add: lookup_own)
    have mix: "mixIn a p h = set_own a ''toString'' v h1" using True l by (simp add: mixIn_def Let_def flip: h1_def)
    have "map_of (own (mixIn a p h ! a)) = (map_of (own (h1 ! a)))(''toString'' \<mapsto> v)"
      unfolding mix using a by (simp add: nth_assign update_conv')
    also have "\<dots> = map_of (own (h1 ! a))" using m v by (auto simp: map_add_def)
    moreover have "distinct (map fst (own (h1 ! a))) \<longrightarrow> distinct (map fst (own (mixIn a p h ! a)))"
      unfolding mix using a by (simp add: nth_assign distinct_update)
    ultimately show ?thesis using h1 m a unfolding mix by (simp add: nth_assign)
  next
    case False
    then have "mixIn a p h = h1" by (simp add: mixIn_def Let_def flip: h1_def)
    with h1 m show ?thesis by simp
  qed
qed

text \<open>What a subtype gets from its overrides, and whether they bring an initializer that is kept.\<close>

definition overriding :: "heap \<Rightarrow> addr option \<Rightarrow> string \<Rightarrow> jsval option" where
  "overriding h overrides = (case overrides of None \<Rightarrow> Map.empty | Some p \<Rightarrow> map_of (own (h ! p)))"

definition keeps_init :: "heap \<Rightarrow> addr \<Rightarrow> addr option \<Rightarrow> bool" where
  "keeps_init h this overrides \<longleftrightarrow> (case overriding h overrides ''init'' of
     None \<Rightarrow> False | Some v \<Rightarrow> v \<noteq> lookup h this ''init'')"

definition override_ok :: "heap \<Rightarrow> addr option \<Rightarrow> bool" where
  "override_ok h overrides \<longleftrightarrow> (case overrides of None \<Rightarrow> True | Some p \<Rightarrow> p < length h)"

text \<open>
  The store after \<open>extend\<close>: the subtype is the next object, its initializer \<open>g\<close> the overriding one or a
  fresh function, and nothing else changes but \<open>g\<close>'s \<open>prototype\<close>.
\<close>

definition extended :: "heap \<Rightarrow> addr \<Rightarrow> addr option \<Rightarrow> heap \<Rightarrow> addr \<Rightarrow> bool" where
  "extended h this overrides h' g \<longleftrightarrow>
     (let s = length h in
      (if keeps_init h this overrides then length h' = s + 1 \<and> g < s \<and> overriding h overrides ''init'' = Some (ObjV g) \<and>
         code (h' ! g) = code (h ! g) \<and> (\<forall>k. k \<noteq> ''prototype'' \<longrightarrow> map_of (own (h' ! g)) k = map_of (own (h ! g)) k) \<and>
         distinct (map fst (own (h' ! g))) \<and> prototype_of (h' ! g) = prototype_of (h ! g) \<and> elems (h' ! g) = elems (h ! g)
       else length h' = s + 2 \<and> g = s + 1 \<and> h' ! g = (fun_obj (SuperInit s))\<lparr>own := [(''prototype'', ObjV s)]\<rparr>) \<and>
      map_of (own (h' ! g)) ''prototype'' = Some (ObjV s) \<and>
      (\<forall>b < s. b \<noteq> g \<longrightarrow> h' ! b = h ! b) \<and>
      map_of (own (h' ! s)) = (overriding h overrides)(''init'' \<mapsto> ObjV g, ''$super'' \<mapsto> ObjV this) \<and>
      distinct (map fst (own (h' ! s))) \<and> prototype_of (h' ! s) = Some this \<and> code (h' ! s) = None)"

lemma mixed_in:
  assumes "heap_ok h" and "this < length h" and "override_ok h overrides"
  defines "s \<equiv> length h"
  defines "h2 \<equiv> (case overrides of Some p \<Rightarrow> mixIn s p (h @ [plain_obj (Some this)]) | None \<Rightarrow> h @ [plain_obj (Some this)])"
  shows "length h2 = s + 1 \<and> (\<forall>b < s. h2 ! b = h ! b) \<and> map_of (own (h2 ! s)) = overriding h overrides \<and>
    distinct (map fst (own (h2 ! s))) \<and> prototype_of (h2 ! s) = Some this \<and> code (h2 ! s) = None"
proof (cases overrides)
  case None
  then show ?thesis by (simp add: h2_def s_def plain_obj_def overriding_def nth_append)
next
  case (Some p)
  then have p: "p < s" using assms(3) by (simp add: override_ok_def s_def)
  let ?h1 = "h @ [plain_obj (Some this)]"
  have "distinct (map fst (own (?h1 ! p)))"
    using p heap_okD(5) [OF assms(1)] by (simp add: s_def nth_append)
  moreover have "p \<noteq> s" "s < length ?h1" using p by (simp_all add: s_def)
  ultimately have "length (mixIn s p ?h1) = length ?h1 \<and> (\<forall>b. b \<noteq> s \<longrightarrow> mixIn s p ?h1 ! b = ?h1 ! b) \<and>
    map_of (own (mixIn s p ?h1 ! s)) = map_of (own (?h1 ! s)) ++ map_of (own (?h1 ! p)) \<and>
    (distinct (map fst (own (?h1 ! s))) \<longrightarrow> distinct (map fst (own (mixIn s p ?h1 ! s)))) \<and>
    prototype_of (mixIn s p ?h1 ! s) = prototype_of (?h1 ! s) \<and> elems (mixIn s p ?h1 ! s) = elems (?h1 ! s) \<and>
    code (mixIn s p ?h1 ! s) = code (?h1 ! s)"
    using mixIn_spec [of s ?h1 p] by blast
  then show ?thesis using p Some by (auto simp: h2_def s_def nth_append plain_obj_def overriding_def)
qed

lemma extend_spec:
  assumes "heap_ok h" and "this < length h" and "override_ok h overrides" and "lookup h this ''init'' \<noteq> Undefined"
  shows "\<exists>h' g. base_extend this overrides h = Some (h', length h) \<and> extended h this overrides h' g"
proof -
  define s where "s = length h"
  define h2 where "h2 = (case overrides of Some p \<Rightarrow> mixIn s p (h @ [plain_obj (Some this)]) | None \<Rightarrow> h @ [plain_obj (Some this)])"
  note mix = mixed_in [OF assms(1-3), folded s_def, folded h2_def]
  have run: "base_extend this overrides h = map_option (\<lambda>h'. (h', s)) (link_subtype this s (default_init this s h2))"
    by (simp add: base_extend_def create_object_def alloc_def s_def h2_def split: option.split)
  have up: "lookup h2 this ''init'' = lookup h this ''init''"
    using mix assms(2) by (intro lookup_cong) (auto simp: s_def)
  have own: "map_of (own (h2 ! s)) ''init'' = overriding h overrides ''init''" using mix by simp
  have keep: "keeps_init h this overrides \<longleftrightarrow>
      \<not> (\<not> has_own h2 s ''init'' \<or> lookup h2 this ''init'' = lookup h2 s ''init'')"
    using own up lookup_own [of h2 s "''init''"]
    by (cases "overriding h overrides ''init''") (auto simp: keeps_init_def has_own_def)
  show ?thesis
  proof (cases "keeps_init h this overrides")
    case True
    then obtain p v where v: "overrides = Some p" "p < s" "map_of (own (h ! p)) ''init'' = Some v"
      using assms(3) by (auto simp: keeps_init_def overriding_def override_ok_def s_def split: option.splits)
    then obtain g where g: "overriding h overrides ''init'' = Some (ObjV g)" "g < s"
      using heap_okD(2) [OF assms(1), of p v] by (auto simp: overriding_def s_def)
    then have l: "lookup h2 s ''init'' = ObjV g" using own lookup_own by simp
    have "default_init this s h2 = h2" using True keep by (simp add: default_init_def)
    then have "base_extend this overrides h =
        Some (set_own s ''$super'' (ObjV this) (set_own g ''prototype'' (ObjV s) h2), s)"
      by (simp add: run link_subtype_def l)
    moreover have "extended h this overrides (set_own s ''$super'' (ObjV this) (set_own g ''prototype'' (ObjV s) h2)) g"
      using True g mix heap_okD(5) [OF assms(1), of g]
      by (auto simp: extended_def Let_def nth_assign update_conv' distinct_update simp flip: s_def)
    ultimately show ?thesis by (auto simp: s_def)
  next
    case False
    define h3 where "h3 = set_own s ''init'' (ObjV (s + 1)) (h2 @ [fun_obj (SuperInit s)])"
    have h3: "default_init this s h2 = h3" using False keep mix by (simp add: default_init_def alloc_def h3_def)
    have own3: "map_of (own (h3 ! s)) = (overriding h overrides)(''init'' \<mapsto> ObjV (s + 1))"
      using mix by (simp add: h3_def nth_assign update_conv' nth_append)
    then have l: "lookup h3 s ''init'' = ObjV (s + 1)" by (simp add: lookup_own)
    have "base_extend this overrides h =
        Some (set_own s ''$super'' (ObjV this) (set_own (s + 1) ''prototype'' (ObjV s) h3), s)"
      by (simp add: run link_subtype_def h3 l)
    moreover have "extended h this overrides (set_own s ''$super'' (ObjV this) (set_own (s + 1) ''prototype'' (ObjV s) h3)) (s + 1)"
      using False mix own3
      by (auto simp: extended_def Let_def nth_assign update_conv' distinct_update h3_def nth_append fun_obj_def simp flip: s_def)
    ultimately show ?thesis by (auto simp: s_def)
  qed
qed

lemma extended_default:
  assumes "extended h this overrides h' g" and "\<not> keeps_init h this overrides"
  shows "length h' = length h + 2" and "g = length h + 1" and "code (h' ! g) = Some (SuperInit (length h))"
    and "own (h' ! g) = [(''prototype'', ObjV (length h))]" and "prototype_of (h' ! g) = None"
proof -
  have "length h' = length h + 2 \<and> g = length h + 1 \<and>
      h' ! g = (fun_obj (SuperInit (length h)))\<lparr>own := [(''prototype'', ObjV (length h))]\<rparr>"
    using assms(1) unfolding extended_def Let_def if_not_P [OF assms(2)] by blast
  moreover from this have "code (h' ! g) = Some (SuperInit (length h))" by (metis fun_obj_def obj.select_convs(4) obj.update_convs(2))
  ultimately show "length h' = length h + 2" "g = length h + 1" "code (h' ! g) = Some (SuperInit (length h))"
    "own (h' ! g) = [(''prototype'', ObjV (length h))]" "prototype_of (h' ! g) = None"
    by (auto simp: fun_obj_def)
qed

lemma extended_kept:
  assumes "extended h this overrides h' g" and "keeps_init h this overrides"
  shows "length h' = length h + 1" and "g < length h" and "overriding h overrides ''init'' = Some (ObjV g)"
    and "code (h' ! g) = code (h ! g)" and "k \<noteq> ''prototype'' \<Longrightarrow> map_of (own (h' ! g)) k = map_of (own (h ! g)) k"
    and "distinct (map fst (own (h' ! g)))" and "prototype_of (h' ! g) = prototype_of (h ! g)"
  using assms by (simp_all add: extended_def Let_def)

lemma extended_subtype:
  assumes "extended h this overrides h' g"
  shows "b < length h \<Longrightarrow> b \<noteq> g \<Longrightarrow> h' ! b = h ! b"
    and "map_of (own (h' ! g)) ''prototype'' = Some (ObjV (length h))"
    and "map_of (own (h' ! length h)) = (overriding h overrides)(''init'' \<mapsto> ObjV g, ''$super'' \<mapsto> ObjV this)"
    and "distinct (map fst (own (h' ! length h)))" and "prototype_of (h' ! length h) = Some this"
    and "code (h' ! length h) = None"
  using assms by (simp_all add: extended_def Let_def)

lemma extended_parts:
  assumes "extended h this overrides h' g" and "heap_ok h"
  shows "length h < length h'" and "b < length h \<Longrightarrow> code (h' ! b) = code (h ! b)"
    and "b < length h \<Longrightarrow> prototype_of (h' ! b) = prototype_of (h ! b)"
    and "b < length h \<Longrightarrow> k \<noteq> ''prototype'' \<Longrightarrow> map_of (own (h' ! b)) k = map_of (own (h ! b)) k"
    and "b < length h \<Longrightarrow> distinct (map fst (own (h' ! b)))"
proof -
  show "length h < length h'"
    using extended_default(1) [OF assms(1)] extended_kept(1) [OF assms(1)] by (cases "keeps_init h this overrides") simp_all
  have "b = g \<Longrightarrow> b < length h \<Longrightarrow> keeps_init h this overrides" using extended_default(2) [OF assms(1)] by fastforce
  then show "b < length h \<Longrightarrow> code (h' ! b) = code (h ! b)"
    "b < length h \<Longrightarrow> prototype_of (h' ! b) = prototype_of (h ! b)"
    "b < length h \<Longrightarrow> k \<noteq> ''prototype'' \<Longrightarrow> map_of (own (h' ! b)) k = map_of (own (h ! b)) k"
    "b < length h \<Longrightarrow> distinct (map fst (own (h' ! b)))"
    using extended_subtype(1) [OF assms(1), of b] extended_kept(4-7) [OF assms(1)] heap_okD(5) [OF assms(2), of b]
    by (cases "b = g"; simp)+
qed

lemma extended_same_inits: "extended h this overrides h' g \<Longrightarrow> heap_ok h \<Longrightarrow> same_inits h h'"
  by (simp add: same_inits_def extended_parts)

lemma same_lookup: "(\<And>b. b < length h \<Longrightarrow> map_of (own (h' ! b)) k = map_of (own (h ! b)) k \<and> prototype_of (h' ! b) = prototype_of (h ! b)) \<Longrightarrow>
    a < length h \<Longrightarrow> lookup h' a k = lookup h a k"
  by (rule lookup_cong) simp

lemma extended_lookup: "extended h this overrides h' g \<Longrightarrow> heap_ok h \<Longrightarrow> a < length h \<Longrightarrow> k \<noteq> ''prototype'' \<Longrightarrow>
    lookup h' a k = lookup h a k"
  by (rule same_lookup) (simp_all add: extended_parts)

lemma extended_heap_ok:
  assumes ex: "extended h this overrides h' g" and ok: "heap_ok h" and "this < length h" and "override_ok h overrides"
    and "lookup h this ''init'' \<noteq> Undefined"
  shows "heap_ok h'"
proof -
  note parts = extended_parts [OF ex ok]
  let ?s = "length h"
  have sub: "prototype_of (h' ! ?s) = Some this" "code (h' ! ?s) = None" "distinct (map fst (own (h' ! ?s)))"
    "map_of (own (h' ! ?s)) ''init'' = Some (ObjV g)" "map_of (own (h' ! ?s)) ''$super'' = Some (ObjV this)"
    using extended_subtype(3-6) [OF ex] by simp_all
  have up: "lookup h' this ''init'' \<noteq> Undefined" using extended_lookup [OF ex ok assms(3)] assms(5) by simp
  have old: "prototype_of (h' ! a) = Some p \<Longrightarrow> p < a" "init_ok h' a" "super_ok h' a"
    "has_own h' a ''extend'' \<Longrightarrow> has_own h' a ''init''" if a: "a < ?s" for a p
  proof -
    show "prototype_of (h' ! a) = Some p \<Longrightarrow> p < a" using heap_okD(1) [OF ok a] parts(3) [OF a] by simp
    show "has_own h' a ''extend'' \<Longrightarrow> has_own h' a ''init''"
      using heap_okD(4) [OF ok a] parts(4) [OF a] by (simp add: has_own_def)
    show "init_ok h' a" unfolding init_ok_def
    proof (intro allI impI)
      fix v assume "map_of (own (h' ! a)) ''init'' = Some v"
      then have "map_of (own (h ! a)) ''init'' = Some v" using parts(4) [OF a] by simp
      from heap_okD(2) [OF ok a this] obtain f where f: "v = ObjV f" "f < ?s" "code (h ! f) \<noteq> None"
        "\<forall>s. code (h ! f) = Some (SuperInit s) \<longrightarrow> s \<le> a" by blast
      with parts(1) parts(2) [OF f(2)] show "\<exists>f. v = ObjV f \<and> f < length h' \<and> code (h' ! f) \<noteq> None \<and>
          (\<forall>s. code (h' ! f) = Some (SuperInit s) \<longrightarrow> s \<le> a)"
        by (intro exI [of _ f]) simp
    qed
    show "super_ok h' a" unfolding super_ok_def
    proof (intro allI impI)
      fix s assume "code (h' ! a) = Some (SuperInit s)"
      then have "code (h ! a) = Some (SuperInit s)" using parts(2) [OF a] by simp
      from heap_okD(3) [OF ok a this] obtain p where p: "map_of (own (h ! s)) ''$super'' = Some (ObjV p)" "p < s" "s < ?s"
        "lookup h p ''init'' \<noteq> Undefined" by blast
      with parts(1,4) extended_lookup [OF ex ok, of p "''init''"]
      show "\<exists>p. map_of (own (h' ! s)) ''$super'' = Some (ObjV p) \<and> p < s \<and> s < length h' \<and> lookup h' p ''init'' \<noteq> Undefined"
        by (intro exI [of _ p]) simp
    qed
  qed
  have subtype: "init_ok h' ?s"
  proof (cases "keeps_init h this overrides")
    case True
    note g = extended_kept(2,3) [OF ex True]
    then obtain p where p: "p < ?s" "map_of (own (h ! p)) ''init'' = Some (ObjV g)"
      using assms(4) by (auto simp: overriding_def override_ok_def split: option.splits)
    from heap_okD(2) [OF ok p] have c: "code (h ! g) \<noteq> None" "\<forall>s. code (h ! g) = Some (SuperInit s) \<longrightarrow> s \<le> p" by auto
    then have "\<forall>s. code (h' ! g) = Some (SuperInit s) \<longrightarrow> s \<le> ?s" "code (h' ! g) \<noteq> None"
      using parts(2) [OF g(1)] p(1) by auto
    then show ?thesis using sub(4) g(1) parts(1) by (simp add: init_ok_def)
  next
    case False
    note extended_default(1-3) [OF ex False]
    then show ?thesis using sub(4) by (simp add: init_ok_def)
  qed
  show ?thesis unfolding heap_ok_def
  proof (intro allI impI)
    fix a assume "a < length h'"
    then consider "a < ?s" | "a = ?s" | "a = ?s + 1" "\<not> keeps_init h this overrides"
      using extended_kept(1) [OF ex] extended_default(1) [OF ex] by (cases "keeps_init h this overrides") fastforce+
    then show "distinct (map fst (own (h' ! a))) \<and> (\<forall>p. prototype_of (h' ! a) = Some p \<longrightarrow> p < a) \<and> init_ok h' a \<and>
        super_ok h' a \<and> (has_own h' a ''extend'' \<longrightarrow> has_own h' a ''init'')"
    proof cases
      case 1
      with old [OF 1] parts(5) [OF 1] show ?thesis by blast
    next
      case 2
      then show ?thesis using sub subtype assms(3) by (simp add: super_ok_def has_own_def)
    next
      case 3
      note extended_default(2-5) [OF ex 3(2)]
      then show ?thesis using sub(5) up assms(3) parts(1) 3(1)
        by (simp add: init_ok_def super_ok_def has_own_def)
    qed
  qed
qed

text \<open>The constructor of a subtype: the overriding one, or that of its supertype.\<close>

lemma extended_constructor:
  assumes ex: "extended h this overrides h' g" and ok: "heap_ok h" and "this < length h" and "override_ok h overrides"
    and "lookup h this ''init'' \<noteq> Undefined"
  shows "constructor_of h' (length h) = (if keeps_init h this overrides then init_target h g else constructor_of h this)"
proof -
  let ?s = "length h"
  have sub: "map_of (own (h' ! ?s)) ''init'' = Some (ObjV g)" "map_of (own (h' ! ?s)) ''$super'' = Some (ObjV this)"
    using extended_subtype(3) [OF ex] by simp_all
  have c: "constructor_of h' ?s = init_target h' g" using lookup_own [OF sub(1)] by (simp add: constructor_of_def)
  show ?thesis
  proof (cases "keeps_init h this overrides")
    case True
    note g = extended_kept(3) [OF ex True]
    then obtain p where p: "p < ?s" "map_of (own (h ! p)) ''init'' = Some (ObjV g)"
      using assms(4) by (auto simp: overriding_def override_ok_def split: option.splits)
    with init_target_cong [OF ok extended_same_inits [OF ex ok]] True c show ?thesis by simp
  next
    case False
    note g = extended_default(3) [OF ex False]
    obtain f where f: "lookup h this ''init'' = ObjV f" using init_function [OF ok assms(3,5)] by blast
    have up: "lookup h' this ''init'' = lookup h this ''init''" by (rule extended_lookup [OF ex ok assms(3)]) simp
    have "init_target h' g = constructor_of h' this"
      using init_target_super [OF g sub(2)] up f by (simp add: constructor_of_def)
    with c False constructor_cong [OF ok extended_same_inits [OF ex ok] assms(3,5)] show ?thesis by simp
  qed
qed

end
