(* ===== verification/Crypto_Classes.thy ===== *)
theory Crypto_Classes
  imports Crypto_Base_Props
begin

text \<open>
  What the modules and their users do with \<open>Base\<close>, as steps on the store, and what every reachable store
  keeps: constructor calls end, and a clone inherits from what it was cloned from.
\<close>

subsection \<open>Classes and instances\<close>

definition inherits :: "heap \<Rightarrow> addr \<Rightarrow> bool" where
  "inherits h a \<longleftrightarrow> lookup h a ''extend'' \<noteq> Undefined"

text \<open>
  The function object that is an object's own \<open>init\<close> has it as its \<open>prototype\<close>, or none (\<open>Base\<close>); an
  object without one was made by \<open>new\<close> from the initializer of its prototype.
\<close>

definition home :: "heap \<Rightarrow> addr \<Rightarrow> addr \<Rightarrow> bool" where
  "home h f a \<longleftrightarrow> map_of (own (h ! f)) ''prototype'' = Some (ObjV a)"

definition no_home :: "heap \<Rightarrow> addr \<Rightarrow> bool" where
  "no_home h f \<longleftrightarrow> map_of (own (h ! f)) ''prototype'' = None \<and> prototype_of (h ! f) = None"

definition instance_ok :: "heap \<Rightarrow> addr \<Rightarrow> bool" where
  "instance_ok h a \<longleftrightarrow> (case map_of (own (h ! a)) ''init'' of
     Some v \<Rightarrow> (\<exists>f. v = ObjV f \<and> (home h f a \<or> no_home h f))
   | None \<Rightarrow> (\<exists>p f. prototype_of (h ! a) = Some p \<and> map_of (own (h ! p)) ''init'' = Some (ObjV f) \<and> home h f p))"

text \<open>The only \<open>extend\<close> is that of \<open>Base\<close>.\<close>

definition extend_ok :: "heap \<Rightarrow> addr \<Rightarrow> bool" where
  "extend_ok h a \<longleftrightarrow> (\<forall>v. map_of (own (h ! a)) ''extend'' = Some v \<longrightarrow>
     (\<exists>e < length h. v = ObjV e \<and> code (h ! e) = Some BaseExtend))"

definition crypto_ok :: "heap \<Rightarrow> bool" where
  "crypto_ok h \<longleftrightarrow> heap_ok h \<and> (\<forall>a < length h. (inherits h a \<longrightarrow> instance_ok h a) \<and> extend_ok h a)"

definition native :: "fcode \<Rightarrow> bool" where
  "native c \<longleftrightarrow> (\<forall>s. c \<noteq> SuperInit s)"

definition reserved :: "string set" where
  "reserved = {''init'', ''$super'', ''prototype'', ''extend''}"

lemma inherits_init: "heap_ok h \<Longrightarrow> a < length h \<Longrightarrow> inherits h a \<Longrightarrow> lookup h a ''init'' \<noteq> Undefined"
  unfolding inherits_def by (rule extend_has_init)

lemma no_own: "\<not> has_own h a k \<Longrightarrow> map_of (own (h ! a)) k = None"
  by (simp add: has_own_def)

lemma has_own_assign: "a < length h \<Longrightarrow> has_own (set_own a k v h) b j \<longleftrightarrow> b = a \<and> j = k \<or> has_own h b j"
  by (auto simp: has_own_def own_assign)

lemma inherits_up:
  assumes "heap_ok h" and "a < length h" and "inherits h a" and "map_of (own (h ! a)) ''init'' = None"
    and "prototype_of (h ! a) = Some p"
  shows "p < a \<and> inherits h p"
proof -
  have p: "p < a" by (rule heap_okD(1) [OF assms(1,2,5)])
  have "\<not> has_own h a ''init''" using assms(4) by (simp add: has_own_def)
  then have "map_of (own (h ! a)) ''extend'' = None" using heap_okD(4) [OF assms(1,2)] no_own by blast
  from lookup_up [OF this assms(5) p] assms(3) p show ?thesis by (simp add: inherits_def)
qed

subsection \<open>Writes and new objects\<close>

lemma lookup_assign_cases:
  "b < length h \<Longrightarrow> lookup (set_own b k v h) a k = lookup h a k \<or> lookup (set_own b k v h) a k = v"
proof (induction a rule: less_induct)
  case (less a)
  then show ?case
    by (subst (1 3) lookup.simps, subst lookup.simps) (auto simp: own_assign split: option.split)
qed

lemma assign_heap_ok:
  assumes "heap_ok h" and "a < length h" and "k \<notin> {''init'', ''$super'', ''extend''}"
  shows "heap_ok (set_own a k v h)"
  unfolding heap_ok_def
proof (intro allI impI)
  let ?h = "set_own a k v h"
  fix b assume "b < length ?h"
  then have b: "b < length h" by simp
  have l: "lookup ?h p ''init'' = lookup h p ''init''" for p
    using assms by (intro lookup_assign_other) auto
  have e: "map_of (own (?h ! c)) j = map_of (own (h ! c)) j" if "j \<in> {''init'', ''$super'', ''extend''}" for c j
    using that assms(2,3) by (auto simp: own_assign)
  have "init_ok ?h b" "super_ok ?h b"
    using heap_okD(2,3) [OF assms(1) b] by (simp_all add: init_ok_def super_ok_def e l)
  moreover have "has_own ?h b ''extend'' \<longrightarrow> has_own ?h b ''init''"
    using heap_okD(4) [OF assms(1) b] assms(2,3) by (auto simp: has_own_assign)
  moreover have "distinct (map fst (own (?h ! b)))"
    using heap_okD(5) [OF assms(1)] b assms(2) by (simp add: nth_assign distinct_update)
  ultimately show "distinct (map fst (own (?h ! b))) \<and> (\<forall>p. prototype_of (?h ! b) = Some p \<longrightarrow> p < b) \<and> init_ok ?h b \<and>
      super_ok ?h b \<and> (has_own ?h b ''extend'' \<longrightarrow> has_own ?h b ''init'')"
    using heap_okD(1) [OF assms(1) b] by simp
qed

lemma assign_plain_ok:
  assumes "crypto_ok h" and "a < length h" and "k \<notin> reserved"
  shows "crypto_ok (set_own a k v h)" and "inherits (set_own a k v h) b \<longleftrightarrow> inherits h b"
proof -
  show i: "inherits (set_own a k v h) b \<longleftrightarrow> inherits h b" for b
    using assms lookup_assign_other [of "''extend''" k b a h v] by (auto simp: inherits_def reserved_def)
  have e: "map_of (own (set_own a k v h ! c)) j = map_of (own (h ! c)) j" if "j \<in> reserved" for c j
    using that assms(2,3) by (auto simp: own_assign)
  have "home (set_own a k v h) f b \<longleftrightarrow> home h f b" "no_home (set_own a k v h) f \<longleftrightarrow> no_home h f" for f b
    by (simp_all add: home_def no_home_def e reserved_def)
  then have "instance_ok (set_own a k v h) b \<longleftrightarrow> instance_ok h b" for b
    by (simp add: instance_ok_def e reserved_def split: option.split)
  moreover have "extend_ok (set_own a k v h) b \<longleftrightarrow> extend_ok h b" for b
    by (simp add: extend_ok_def e reserved_def)
  ultimately show "crypto_ok (set_own a k v h)"
    using assms assign_heap_ok [of h a k v] i by (simp add: crypto_ok_def reserved_def)
qed

lemma assign_init_ok:
  assumes "crypto_ok h" and "a < length h" and "\<not> inherits h a" and "f < length h" and "code (h ! f) = Some c" and "native c"
  shows "crypto_ok (set_own a ''init'' (ObjV f) h)" and "inherits (set_own a ''init'' (ObjV f) h) b \<longleftrightarrow> inherits h b"
proof -
  let ?h = "set_own a ''init'' (ObjV f) h"
  show i: "inherits ?h b \<longleftrightarrow> inherits h b" for b
    using assms lookup_assign_other [of "''extend''" "''init''" b a h "ObjV f"] by (auto simp: inherits_def)
  have ok: "heap_ok h" using assms(1) by (simp add: crypto_ok_def)
  have l: "lookup ?h p ''init'' \<noteq> Undefined" if "lookup h p ''init'' \<noteq> Undefined" for p
    using lookup_assign_cases [OF assms(2), of "''init''" "ObjV f" p] that by auto
  have "heap_ok ?h" unfolding heap_ok_def
  proof (intro allI impI)
    fix b assume "b < length ?h"
    then have b: "b < length h" by simp
    have "init_ok ?h b"
      using ok b assms(2,4-6) by (auto simp: heap_ok_def init_ok_def own_assign native_def)
    moreover have "super_ok ?h b"
      using ok b assms(2) l by (fastforce simp: heap_ok_def super_ok_def own_assign)
    moreover have "distinct (map fst (own (?h ! b)))"
      using ok b assms(2) by (simp add: heap_ok_def nth_assign distinct_update)
    ultimately show "distinct (map fst (own (?h ! b))) \<and> (\<forall>p. prototype_of (?h ! b) = Some p \<longrightarrow> p < b) \<and> init_ok ?h b \<and>
        super_ok ?h b \<and> (has_own ?h b ''extend'' \<longrightarrow> has_own ?h b ''init'')"
      using heap_okD(1,4) [OF ok b] assms(2) by (auto simp: has_own_assign)
  qed
  moreover have "instance_ok ?h b" if b: "b < length h" "inherits h b" for b
  proof -
    have o: "instance_ok h b" using assms(1) b by (simp add: crypto_ok_def)
    have "b \<noteq> a" using b assms(3) by auto
    show ?thesis
    proof (cases "map_of (own (h ! b)) ''init''")
      case (Some v)
      with o \<open>b \<noteq> a\<close> assms(2) show ?thesis by (auto simp: instance_ok_def home_def no_home_def own_assign)
    next
      case None
      then obtain p f' where p: "prototype_of (h ! b) = Some p" "map_of (own (h ! p)) ''init'' = Some (ObjV f')" "home h f' p"
        using o by (auto simp: instance_ok_def)
      with inherits_up [OF ok b None] assms(3) have "p \<noteq> a" by auto
      with p None \<open>b \<noteq> a\<close> assms(2) show ?thesis by (auto simp: instance_ok_def home_def own_assign)
    qed
  qed
  moreover have "extend_ok ?h b \<longleftrightarrow> extend_ok h b" for b
    using assms(2) by (simp add: extend_ok_def own_assign)
  ultimately show "crypto_ok ?h" using i assms(1) by (simp add: crypto_ok_def)
qed

text \<open>A new object changes nothing for the others.\<close>

lemma append_old:
  assumes "crypto_ok h" and a: "a < length h"
  shows "init_ok (h @ [o']) a" and "super_ok (h @ [o']) a" and "inherits (h @ [o']) a \<longleftrightarrow> inherits h a"
    and "inherits h a \<Longrightarrow> instance_ok (h @ [o']) a" and "extend_ok (h @ [o']) a"
proof -
  let ?h = "h @ [o']"
  have ok: "heap_ok h" using assms(1) by (simp add: crypto_ok_def)
  show "init_ok ?h a" unfolding init_ok_def
  proof (intro allI impI)
    fix v assume "map_of (own (?h ! a)) ''init'' = Some v"
    with a heap_okD(2) [OF ok a] obtain f where "v = ObjV f" "f < length h" "code (h ! f) \<noteq> None"
      "\<forall>s. code (h ! f) = Some (SuperInit s) \<longrightarrow> s \<le> a" by (auto simp: nth_append)
    then show "\<exists>f. v = ObjV f \<and> f < length ?h \<and> code (?h ! f) \<noteq> None \<and> (\<forall>s. code (?h ! f) = Some (SuperInit s) \<longrightarrow> s \<le> a)"
      by (intro exI [of _ f]) (simp add: nth_append)
  qed
  show "super_ok ?h a" unfolding super_ok_def
  proof (intro allI impI)
    fix s assume "code (?h ! a) = Some (SuperInit s)"
    with a heap_okD(3) [OF ok a] obtain p where "map_of (own (h ! s)) ''$super'' = Some (ObjV p)" "p < s" "s < length h"
      "lookup h p ''init'' \<noteq> Undefined" by (auto simp: nth_append)
    then show "\<exists>p. map_of (own (?h ! s)) ''$super'' = Some (ObjV p) \<and> p < s \<and> s < length ?h \<and> lookup ?h p ''init'' \<noteq> Undefined"
      by (intro exI [of _ p]) (simp add: nth_append)
  qed
  show "inherits ?h a \<longleftrightarrow> inherits h a" using a by (simp add: inherits_def)
  show "instance_ok ?h a" if i: "inherits h a"
  proof -
    have o: "instance_ok h a" using assms i by (simp add: crypto_ok_def)
    show ?thesis
    proof (cases "map_of (own (h ! a)) ''init''")
      case (Some v)
      then obtain f where "v = ObjV f" "f < length h" using heap_okD(2) [OF ok a] by blast
      with Some o a show ?thesis by (auto simp: instance_ok_def home_def no_home_def nth_append)
    next
      case None
      then obtain p f where p: "prototype_of (h ! a) = Some p" "map_of (own (h ! p)) ''init'' = Some (ObjV f)" "home h f p"
        using o by (auto simp: instance_ok_def)
      then have "p < length h" using inherits_up [OF ok a i None p(1)] a by simp
      moreover from this have "f < length h" using heap_okD(2) [OF ok _ p(2)] by auto
      ultimately show ?thesis using p None a by (auto simp: instance_ok_def home_def nth_append)
    qed
  qed
  have "extend_ok h a" using assms by (simp add: crypto_ok_def)
  with a show "extend_ok ?h a" by (force simp: extend_ok_def nth_append)
qed

lemma append_ok:
  assumes "crypto_ok h" and "own o' = []" and "\<forall>c. code o' = Some c \<longrightarrow> native c"
    and "\<forall>p. prototype_of o' = Some p \<longrightarrow> p < length h"
    and "inherits (h @ [o']) (length h) \<Longrightarrow> instance_ok (h @ [o']) (length h)"
  shows "crypto_ok (h @ [o'])"
proof -
  let ?h = "h @ [o']"
  have ok: "heap_ok h" using assms(1) by (simp add: crypto_ok_def)
  have "distinct (map fst (own (?h ! a))) \<and> (\<forall>p. prototype_of (?h ! a) = Some p \<longrightarrow> p < a) \<and> init_ok ?h a \<and>
      super_ok ?h a \<and> (has_own ?h a ''extend'' \<longrightarrow> has_own ?h a ''init'') \<and>
      (inherits ?h a \<longrightarrow> instance_ok ?h a) \<and> extend_ok ?h a" if "a < length ?h" for a
  proof (cases "a = length h")
    case True
    with assms(2-5) show ?thesis by (auto simp: init_ok_def super_ok_def has_own_def native_def extend_ok_def)
  next
    case False
    with that have a: "a < length h" by simp
    with append_old [OF assms(1) a] heap_okD(1,4,5) [OF ok a] show ?thesis by (simp add: nth_append has_own_def)
  qed
  then show ?thesis by (simp add: crypto_ok_def heap_ok_def)
qed

text \<open>A new object without prototype and \<open>init\<close>: an array, a literal, a function of the library.\<close>

lemma alloc_ok:
  assumes "crypto_ok h" and "prototype_of o' = None" and "own o' = []" and "\<forall>c. code o' = Some c \<longrightarrow> native c"
  shows "crypto_ok (h @ [o'])" and "\<not> inherits (h @ [o']) (length h)" and "b < length h \<Longrightarrow> inherits (h @ [o']) b \<longleftrightarrow> inherits h b"
proof -
  show new: "\<not> inherits (h @ [o']) (length h)" by (subst inherits_def, subst lookup.simps) (simp add: assms)
  then show "crypto_ok (h @ [o'])" using assms by (intro append_ok) simp_all
  show "b < length h \<Longrightarrow> inherits (h @ [o']) b \<longleftrightarrow> inherits h b" by (simp add: inherits_def)
qed

subsection \<open>Literals\<close>

text \<open>
  The store after a part of an object literal \<open>a\<close>: it is well formed, the objects below \<open>n\<close> are those of \<open>h\<close>,
  the ones above do not inherit from \<open>Base\<close>, and an \<open>init\<close> of \<open>a\<close> is a function above \<open>n\<close>.
\<close>

definition literal_ok :: "heap \<Rightarrow> addr \<Rightarrow> heap \<Rightarrow> bool" where
  "literal_ok h a h' \<longleftrightarrow> crypto_ok h' \<and> length h \<le> a \<and> a < length h' \<and> (\<forall>b < length h. h' ! b = h ! b) \<and>
     (\<forall>b < length h'. length h \<le> b \<longrightarrow> \<not> inherits h' b) \<and>
     (\<forall>f. map_of (own (h' ! a)) ''init'' = Some (ObjV f) \<longrightarrow> length h \<le> f)"

lemma literal_ok_methods:
  assumes "literal_ok h a h'" and "\<forall>(k, c) \<in> set ms. native c \<and> k \<notin> {''$super'', ''prototype'', ''extend''}"
  shows "literal_ok h a (add_methods a ms h')"
  using assms
proof (induction ms arbitrary: h')
  case (Cons m ms)
  obtain k c where m: "m = (k, c)" by fastforce
  let ?h1 = "h' @ [fun_obj c]" and ?f = "length h'"
  have ok: "crypto_ok h'" and a: "a < length h'" using Cons.prems(1) by (simp_all add: literal_ok_def)
  have c: "native c" "k \<notin> {''$super'', ''prototype'', ''extend''}" using Cons.prems(2) m by auto
  have new: "prototype_of (fun_obj c) = None" "own (fun_obj c) = []" "\<forall>d. code (fun_obj c) = Some d \<longrightarrow> native d"
    using c by (simp_all add: fun_obj_def)
  note al = alloc_ok [OF ok new]
  have na: "\<not> inherits ?h1 a" using Cons.prems(1) al(3) [OF a] by (simp add: literal_ok_def)
  have "crypto_ok (set_own a k (ObjV ?f) ?h1) \<and> (\<forall>b. inherits (set_own a k (ObjV ?f) ?h1) b \<longleftrightarrow> inherits ?h1 b)"
  proof (cases "k = ''init''")
    case True
    have "code (?h1 ! ?f) = Some c" by (simp add: fun_obj_def)
    with assign_init_ok [OF al(1) _ na, of ?f c] a c(1) True show ?thesis by simp
  next
    case False
    then have "k \<notin> reserved" using c(2) by (simp add: reserved_def)
    with assign_plain_ok [OF al(1), of a k "ObjV ?f"] a show ?thesis by simp
  qed
  moreover have "\<not> inherits ?h1 b" if "b < length ?h1" "length h \<le> b" for b
    using that al(2,3) Cons.prems(1) by (cases "b = ?f") (auto simp: literal_ok_def)
  moreover have "h' ! b = h ! b" "b < length h'" if "b < length h" for b
    using that Cons.prems(1) by (auto simp: literal_ok_def)
  ultimately have "literal_ok h a (set_own a k (ObjV ?f) ?h1)"
    using Cons.prems(1) a unfolding literal_ok_def
    by (auto simp: nth_assign nth_append update_conv' split: if_splits)
  from Cons.IH [OF this] Cons.prems(2) m show ?case by (simp add: alloc_def)
qed simp

lemma literal_spec:
  assumes "crypto_ok h" and "\<forall>(k, c) \<in> set ms. native c \<and> k \<notin> {''$super'', ''prototype'', ''extend''}"
  shows "literal ms h = (add_methods (length h) ms (h @ [plain_obj None]), length h) \<and>
    literal_ok h (length h) (add_methods (length h) ms (h @ [plain_obj None]))"
proof -
  have new: "prototype_of (plain_obj None) = None" "own (plain_obj None) = []"
    "\<forall>c. code (plain_obj None) = Some c \<longrightarrow> native c" by (simp_all add: plain_obj_def)
  have "literal_ok h (length h) (h @ [plain_obj None])"
    using alloc_ok [OF assms(1) new] by (auto simp: literal_ok_def nth_append plain_obj_def less_Suc_eq)
  from literal_ok_methods [OF this assms(2)] show ?thesis by (simp add: literal_def alloc_def)
qed

lemma literal_ok_values:
  assumes "literal_ok h a h'" and "\<forall>(k, v) \<in> set vs. k \<notin> reserved"
  shows "literal_ok h a (fold (\<lambda>(k, v). set_own a k v) vs h')"
  using assms
proof (induction vs arbitrary: h')
  case (Cons x vs)
  obtain k v where x: "x = (k, v)" by fastforce
  have a: "a < length h'" "k \<notin> reserved" "crypto_ok h'" using Cons.prems x by (simp_all add: literal_ok_def)
  then have "literal_ok h a (set_own a k v h')"
    using Cons.prems(1) assign_plain_ok [OF a(3,1,2)]
    by (auto simp: literal_ok_def nth_assign update_conv' reserved_def)
  from Cons.IH [OF this] Cons.prems(2) x show ?case by simp
qed simp

subsection \<open>Subtypes and clones\<close>

lemma extended_crypto_ok:
  assumes ex: "extended h this overrides h' g" and ok: "crypto_ok h" and up: "this < length h" "inherits h this"
    and "override_ok h overrides" and fresh: "\<And>a. a < length h \<Longrightarrow> inherits h a \<Longrightarrow> map_of (own (h ! a)) ''init'' \<noteq> Some (ObjV g)"
  shows "crypto_ok h'" and "inherits h' (length h)" and "a < length h \<Longrightarrow> inherits h' a \<longleftrightarrow> inherits h a"
proof -
  let ?s = "length h"
  have hok: "heap_ok h" using ok by (simp add: crypto_ok_def)
  note init = inherits_init [OF hok up]
  note parts = extended_parts [OF ex hok] and sub = extended_subtype [OF ex]
  have hok': "heap_ok h'" by (rule extended_heap_ok [OF ex hok up(1) assms(5) init])
  show old: "inherits h' a \<longleftrightarrow> inherits h a" if "a < ?s" for a
    using extended_lookup [OF ex hok that, of "''extend''"] by (simp add: inherits_def)
  have own_s: "map_of (own (h' ! ?s)) ''extend'' = overriding h overrides ''extend''" using sub(3) by simp
  have this_s: "lookup h' ?s ''extend'' = (case overriding h overrides ''extend'' of Some v \<Rightarrow> v | None \<Rightarrow> lookup h' this ''extend'')"
    using own_s sub(5) up(1) by (subst lookup.simps) (simp split: option.split)
  show "inherits h' ?s"
  proof (cases "overriding h overrides ''extend''")
    case None
    then show ?thesis using this_s old [OF up(1)] up(2) by (simp add: inherits_def)
  next
    case (Some v)
    then obtain p where "p < ?s" "map_of (own (h ! p)) ''extend'' = Some v"
      using assms(5) by (auto simp: overriding_def override_ok_def split: option.splits)
    then have "v \<noteq> Undefined" using ok by (auto simp: crypto_ok_def extend_ok_def)
    with this_s Some show ?thesis by (simp add: inherits_def)
  qed
  have "instance_ok h' a" if a: "a < length h'" "inherits h' a" for a
  proof -
    consider "a < ?s" | "a = ?s" | "a = ?s + 1" "\<not> keeps_init h this overrides"
      using a extended_kept(1) [OF ex] extended_default(1) [OF ex] by (cases "keeps_init h this overrides") fastforce+
    then show ?thesis
    proof cases
      case 1
      then have i: "inherits h a" "instance_ok h a" using ok a(2) old [OF 1] by (simp_all add: crypto_ok_def)
      show ?thesis
      proof (cases "map_of (own (h ! a)) ''init''")
        case (Some v)
        then obtain f where f: "v = ObjV f" "home h f a \<or> no_home h f" using i(2) by (auto simp: instance_ok_def)
        then have "f < ?s" "f \<noteq> g" using heap_okD(2) [OF hok 1 Some] fresh [OF 1 i(1)] Some by auto
        then have "h' ! f = h ! f" by (rule sub(1))
        then show ?thesis using f parts(4) [OF 1] Some by (auto simp: instance_ok_def home_def no_home_def)
      next
        case None
        then obtain p f where p: "prototype_of (h ! a) = Some p" "map_of (own (h ! p)) ''init'' = Some (ObjV f)" "home h f p"
          using i(2) by (auto simp: instance_ok_def)
        note above = inherits_up [OF hok 1 i(1) None p(1)]
        then have l: "p < ?s" using 1 by simp
        then have "f < ?s" "f \<noteq> g" using heap_okD(2) [OF hok l p(2)] fresh [OF l] above p(2) by auto
        then have "h' ! f = h ! f" by (rule sub(1))
        then show ?thesis using p parts(3,4) [OF 1] parts(4) [OF l] None by (auto simp: instance_ok_def home_def)
      qed
    next
      case 2
      then show ?thesis using sub(2,3) by (simp add: instance_ok_def home_def)
    next
      case 3
      then have "lookup h' a ''extend'' = Undefined"
        using extended_default(2,4,5) [OF ex 3(2)] by (subst lookup.simps) simp
      with a(2) show ?thesis by (simp add: inherits_def)
    qed
  qed
  moreover have "extend_ok h' a" if a: "a < length h'" for a
  proof -
    have e: "\<exists>e < length h'. v = ObjV e \<and> code (h' ! e) = Some BaseExtend"
      if b: "b < ?s" "map_of (own (h ! b)) ''extend'' = Some v" for b v
    proof -
      obtain e where "e < ?s" "v = ObjV e" "code (h ! e) = Some BaseExtend"
        using b ok by (auto simp: crypto_ok_def extend_ok_def)
      with parts(1) parts(2) [of e] show ?thesis by (intro exI [of _ e]) simp
    qed
    consider "a < ?s" | "a = ?s" | "a = ?s + 1" "\<not> keeps_init h this overrides"
      using a extended_kept(1) [OF ex] extended_default(1) [OF ex] by (cases "keeps_init h this overrides") fastforce+
    then show ?thesis
    proof cases
      case 1
      with e [of a] parts(4) [OF 1] show ?thesis by (simp add: extend_ok_def)
    next
      case 2
      with e own_s assms(5) show ?thesis
        by (auto simp: extend_ok_def overriding_def override_ok_def split: option.splits)
    next
      case 3
      with extended_default(2,4) [OF ex 3(2)] show ?thesis by (simp add: extend_ok_def)
    qed
  qed
  ultimately show "crypto_ok h'" using hok' by (simp add: crypto_ok_def)
qed

lemma call_extend_ok:
  assumes "crypto_ok h" and "a < length h" and "inherits h a" and "override_ok h overrides"
  shows "\<exists>h' g. call_extend a overrides h = Some (h', length h) \<and> extended h a overrides h' g"
proof -
  have ok: "heap_ok h" using assms(1) by (simp add: crypto_ok_def)
  obtain v b where b: "b \<le> a" "map_of (own (h ! b)) ''extend'' = Some v" "lookup h a ''extend'' = v"
    using lookup_owner [OF refl, of h a "''extend''"] assms(3) by (auto simp: inherits_def)
  then have "extend_ok h b" using assms(1,2) by (simp add: crypto_ok_def)
  then have "method_of h a ''extend'' = Some BaseExtend" using b by (auto simp: method_of_def extend_ok_def)
  with extend_spec [OF ok assms(2,4) inherits_init [OF ok assms(2,3)]] show ?thesis by (simp add: call_extend_def)
qed

text \<open>An initializer that no object of the library has: that of a new literal, or a fresh function.\<close>

lemma default_fresh:
  assumes "extended h a overrides h' g" and "\<not> keeps_init h a overrides" and "heap_ok h" and "b < length h"
  shows "map_of (own (h ! b)) ''init'' \<noteq> Some (ObjV g)"
  using heap_okD(2) [OF assms(3,4), of "ObjV g"] extended_default(2) [OF assms(1,2)] by auto

lemma derive_class_ok:
  assumes "crypto_ok h" and "a < length h" and "inherits h a"
    and "\<forall>(k, c) \<in> set ms. native c \<and> k \<notin> {''$super'', ''prototype'', ''extend''}" and "\<forall>(k, v) \<in> set vs. k \<notin> reserved"
  shows "\<exists>h' s. derive_class a ms vs h = Some (h', s) \<and> crypto_ok h' \<and> inherits h' s \<and> s < length h' \<and>
    (\<forall>b < length h. inherits h' b \<longleftrightarrow> inherits h b)"
proof -
  define p where "p = length h"
  obtain h1 where h1: "literal ms h = (h1, p)" "literal_ok h p h1"
    using literal_spec [OF assms(1,4)] by (simp add: p_def)
  define h2 where "h2 = fold (\<lambda>(k, v). set_own p k v) vs h1"
  have lit: "literal_ok h p h2" unfolding h2_def by (rule literal_ok_values [OF h1(2) assms(5)])
  have ok: "heap_ok h" and ok2: "crypto_ok h2" "heap_ok h2" and len: "length h < length h2" and p: "p < length h2"
    using assms(1) lit by (auto simp: literal_ok_def crypto_ok_def)
  have old: "lookup h2 b k = lookup h b k" if "b < length h" for b k
    using that lit by (intro lookup_cong) (simp add: literal_ok_def)
  have a: "a < length h2" "inherits h2 a" using assms(2,3) len old by (simp_all add: inherits_def)
  have o: "override_ok h2 (Some p)" using p by (simp add: override_ok_def)
  obtain h' g where ex: "call_extend a (Some p) h2 = Some (h', length h2)" "extended h2 a (Some p) h' g"
    using call_extend_ok [OF ok2(1) a o] by blast
  have fresh: "map_of (own (h2 ! b)) ''init'' \<noteq> Some (ObjV g)" if b: "b < length h2" "inherits h2 b" for b
  proof (cases "keeps_init h2 a (Some p)")
    case True
    then have "map_of (own (h2 ! p)) ''init'' = Some (ObjV g)" using extended_kept(3) [OF ex(2)] by (simp add: overriding_def)
    then have g: "length h \<le> g" using lit by (simp add: literal_ok_def)
    have "b < length h" using b lit by (auto simp: literal_ok_def not_less)
    moreover from this have "h2 ! b = h ! b" using lit by (simp add: literal_ok_def)
    ultimately show ?thesis using heap_okD(2) [OF ok, of b "ObjV g"] g by auto
  next
    case False
    then show ?thesis by (rule default_fresh [OF ex(2) _ ok2(2) b(1)])
  qed
  note res = extended_crypto_ok [OF ex(2) ok2(1) a o fresh]
  have "inherits h' b \<longleftrightarrow> inherits h b" if "b < length h" for b
    using res(3) [of b] old [OF that] that len by (simp add: inherits_def)
  moreover have "length h2 < length h'" by (rule extended_parts(1) [OF ex(2) ok2(2)])
  ultimately show ?thesis using res(1,2) ex(1) by (simp add: derive_class_def h1(1) flip: h2_def)
qed

text \<open>
  A clone: nothing else changes, every property but the links is read as on the original, the original's
  own properties are the clone's own, and it is constructed the same way.
\<close>

lemma base_clone_spec:
  assumes "crypto_ok h" and "w < length h" and "inherits h w" and "base_clone w h = Some (h', c)"
  shows "c = length h \<and> crypto_ok h' \<and> inherits h' c \<and> c < length h' \<and> (\<forall>b < length h. h' ! b = h ! b) \<and>
    (\<forall>k. k \<notin> {''init'', ''$super''} \<longrightarrow> lookup h' c k = lookup h w k \<and> (has_own h w k \<longrightarrow> has_own h' c k)) \<and>
    constructor_of h' c = constructor_of h w \<and>
    (\<exists>g. map_of (own (h' ! c)) ''init'' = Some (ObjV g) \<and> g < length h' \<and> home h' g c)"
proof -
  have ok: "heap_ok h" and inst: "instance_ok h w" using assms(1-3) by (simp_all add: crypto_ok_def)
  obtain p where p: "p \<le> w" "inherits h p" "lookup h p ''init'' = lookup h w ''init''"
    "\<And>k. map_of (own (h ! w)) k = None \<Longrightarrow> lookup h p k = lookup h w k" "call_extend p (Some w) h = Some (h', c)"
  proof (cases "map_of (own (h ! w)) ''init''")
    case (Some v)
    then obtain f where f: "v = ObjV f" "home h f w \<or> no_home h f" using inst by (auto simp: instance_ok_def)
    have l: "lookup h w ''init'' = ObjV f" using lookup_own [OF Some] f(1) by simp
    have "\<not> no_home h f"
    proof
      assume "no_home h f"
      then have "lookup h f ''prototype'' = Undefined" by (subst lookup.simps) (simp add: no_home_def)
      with l assms(4) show False by (simp add: base_clone_def)
    qed
    then have "lookup h f ''prototype'' = ObjV w" using f(2) lookup_own by (auto simp: home_def)
    then have "call_extend w (Some w) h = Some (h', c)" using l assms(4) by (simp add: base_clone_def)
    with that [of w] assms(3) show ?thesis by simp
  next
    case None
    then obtain p f where q: "prototype_of (h ! w) = Some p" "map_of (own (h ! p)) ''init'' = Some (ObjV f)" "home h f p"
      using inst by (auto simp: instance_ok_def)
    note up = inherits_up [OF ok assms(2,3) None q(1)]
    have l: "lookup h p ''init'' = ObjV f" "lookup h w ''init'' = lookup h p ''init''"
      using lookup_own [OF q(2)] lookup_up [OF None q(1)] up by simp_all
    have "lookup h f ''prototype'' = ObjV p" using q(3) lookup_own by (auto simp: home_def)
    then have "call_extend p (Some w) h = Some (h', c)" using l assms(4) by (simp add: base_clone_def)
    with that [of p] up l lookup_up [OF _ q(1)] show ?thesis by auto
  qed
  have pl: "p < length h" using p(1) assms(2) by simp
  have o: "override_ok h (Some w)" using assms(2) by (simp add: override_ok_def)
  obtain g where ex: "extended h p (Some w) h' g" and c: "c = length h"
    using call_extend_ok [OF assms(1) pl p(2) o] p(5) by auto
  have k: "\<not> keeps_init h p (Some w)"
    using p(3) lookup_own by (fastforce simp: keeps_init_def overriding_def split: option.splits)
  have old: "h' ! b = h ! b" if "b < length h" for b
    using that extended_default(2) [OF ex k] extended_subtype(1) [OF ex that] by simp
  note res = extended_crypto_ok [OF ex assms(1) pl p(2) o default_fresh [OF ex k ok]]
  have same: "lookup h' b j = lookup h b j" if "b < length h" for b j
    using that old by (intro lookup_cong) simp
  have "lookup h' c j = lookup h w j \<and> (has_own h w j \<longrightarrow> has_own h' c j)" if "j \<notin> {''init'', ''$super''}" for j
  proof -
    have "map_of (own (h' ! c)) j = map_of (own (h ! w)) j"
      using that extended_subtype(3) [OF ex] by (simp add: c overriding_def)
    moreover from this have "map_of (own (h ! w)) j = None \<Longrightarrow> lookup h' c j = lookup h w j"
      using lookup_up [of h' c j p] extended_subtype(5) [OF ex] pl same [OF pl] p(4) by (simp add: c)
    ultimately show ?thesis using lookup_own [of h' c j] lookup_own [of h w j]
      by (cases "map_of (own (h ! w)) j") (auto simp: has_own_def)
  qed
  moreover have "constructor_of h' c = constructor_of h w"
    using extended_constructor [OF ex ok pl o inherits_init [OF ok pl p(2)]] k p(3) by (simp add: c constructor_of_def)
  moreover have "map_of (own (h' ! c)) ''init'' = Some (ObjV g)" "home h' g c" "g < length h'"
    using extended_subtype(2,3) [OF ex] extended_default(1,2) [OF ex k] by (simp_all add: c home_def)
  ultimately show ?thesis using res(1,2) c old extended_parts(1) [OF ex ok] by blast
qed

text \<open>Every object whose initializer has a home can be cloned: all but \<open>Base\<close> itself.\<close>

lemma base_clone_total:
  assumes "crypto_ok h" and "w < length h" and "inherits h w" and "lookup h w ''init'' = ObjV f" and "home h f p"
  shows "\<exists>h' c. base_clone w h = Some (h', c)"
proof -
  have ok: "heap_ok h" and inst: "instance_ok h w" using assms(1-3) by (simp_all add: crypto_ok_def)
  have "p \<le> w \<and> inherits h p"
  proof (cases "map_of (own (h ! w)) ''init''")
    case (Some v)
    with lookup_own [OF Some] assms(4) have "home h f w \<or> no_home h f" using inst by (auto simp: instance_ok_def)
    with assms(3,5) show ?thesis by (auto simp: home_def no_home_def)
  next
    case None
    then obtain p' f' where q: "prototype_of (h ! w) = Some p'" "map_of (own (h ! p')) ''init'' = Some (ObjV f')" "home h f' p'"
      using inst by (auto simp: instance_ok_def)
    note up = inherits_up [OF ok assms(2,3) None q(1)]
    have "f' = f" using lookup_own [OF q(2)] lookup_up [OF None q(1)] up assms(4) by simp
    with q(3) assms(5) up show ?thesis by (auto simp: home_def)
  qed
  moreover have "lookup h f ''prototype'' = ObjV p" using assms(5) lookup_own by (auto simp: home_def)
  ultimately show ?thesis
    using call_extend_ok [OF assms(1), of p "Some w"] assms(2,4) by (auto simp: base_clone_def override_ok_def)
qed

subsection \<open>Reachable stores\<close>

definition base_heap :: heap where
  "base_heap = fst (literal base_methods [])"

text \<open>
  The steps: a class is derived, a configuration is extended, an object is cloned or made by \<open>new\<close> from a
  class, a property that is not one of the links is written, an array is made or changed.
\<close>

inductive crypto_step :: "heap \<Rightarrow> heap \<Rightarrow> bool" where
  Class: "a < length h \<Longrightarrow> inherits h a \<Longrightarrow>
    \<forall>(k, c) \<in> set ms. native c \<and> k \<notin> {''$super'', ''prototype'', ''extend''} \<Longrightarrow> \<forall>(k, v) \<in> set vs. k \<notin> reserved \<Longrightarrow>
    derive_class a ms vs h = Some (h', s) \<Longrightarrow> crypto_step h h'"
| Subtype: "a < length h \<Longrightarrow> inherits h a \<Longrightarrow> override_ok h overrides \<Longrightarrow> overriding h overrides ''init'' = None \<Longrightarrow>
    call_extend a overrides h = Some (h', s) \<Longrightarrow> crypto_step h h'"
| Clone: "a < length h \<Longrightarrow> inherits h a \<Longrightarrow> base_clone a h = Some (h', s) \<Longrightarrow> crypto_step h h'"
| New: "a < length h \<Longrightarrow> inherits h a \<Longrightarrow> map_of (own (h ! a)) ''init'' = Some (ObjV f) \<Longrightarrow>
    new_object f h = Some (h', s) \<Longrightarrow> crypto_step h h'"
| Write: "a < length h \<Longrightarrow> k \<notin> reserved \<Longrightarrow> crypto_step h (set_own a k v h)"
| Array: "crypto_step h (fst (alloc (array_obj xs) h))"
| Elems: "crypto_step h (set_elems a xs h)"

inductive crypto_reachable :: "heap \<Rightarrow> bool" where
  start: "crypto_reachable base_heap"
| step: "crypto_reachable h \<Longrightarrow> crypto_step h h' \<Longrightarrow> crypto_reachable h'"

lemma new_object_ok:
  assumes "crypto_ok h" and "a < length h" and "inherits h a" and "map_of (own (h ! a)) ''init'' = Some (ObjV f)"
    and "new_object f h = Some (h', s)"
  shows "crypto_ok h' \<and> h' = h @ [plain_obj (Some a)] \<and> s = length h \<and> inherits h' s"
proof -
  have ok: "heap_ok h" and inst: "instance_ok h a" using assms(1-3) by (simp_all add: crypto_ok_def)
  have "\<not> no_home h f"
  proof
    assume "no_home h f"
    then have "lookup h f ''prototype'' = Undefined" by (subst lookup.simps) (simp add: no_home_def)
    with assms(5) show False by (simp add: new_object_def)
  qed
  then have home: "home h f a" using inst assms(4) by (auto simp: instance_ok_def)
  then have "lookup h f ''prototype'' = ObjV a" using lookup_own by (auto simp: home_def)
  then have h': "h' = h @ [plain_obj (Some a)]" "s = length h"
    using assms(5) by (simp_all add: new_object_def create_object_def alloc_def)
  have f: "f < length h" using heap_okD(2) [OF ok assms(2,4)] by auto
  have new: "lookup h' (length h) k = lookup h a k" for k
    using assms(2) by (subst lookup.simps) (simp add: h' plain_obj_def)
  have "instance_ok h' (length h)"
    using home f assms(2,4) by (auto simp: instance_ok_def h' plain_obj_def home_def nth_append)
  then have "crypto_ok h'"
    using assms(1,2) unfolding h' by (intro append_ok) (simp_all add: plain_obj_def)
  then show ?thesis using h' new assms(3) by (simp add: inherits_def)
qed

lemma set_elems_ok:
  assumes "crypto_ok h"
  shows "crypto_ok (set_elems a xs h)"
proof -
  have "has_own (set_elems a xs h) b k \<longleftrightarrow> has_own h b k" "inherits (set_elems a xs h) b \<longleftrightarrow> inherits h b"
    "init_ok (set_elems a xs h) b \<longleftrightarrow> init_ok h b" "super_ok (set_elems a xs h) b \<longleftrightarrow> super_ok h b"
    "extend_ok (set_elems a xs h) b \<longleftrightarrow> extend_ok h b" for b k
    by (simp_all add: has_own_def inherits_def init_ok_def super_ok_def extend_ok_def)
  moreover have "home (set_elems a xs h) f b \<longleftrightarrow> home h f b" "no_home (set_elems a xs h) f \<longleftrightarrow> no_home h f" for f b
    by (simp_all add: home_def no_home_def)
  then have "instance_ok (set_elems a xs h) b \<longleftrightarrow> instance_ok h b" for b
    by (simp add: instance_ok_def split: option.split)
  ultimately show ?thesis using assms by (simp add: crypto_ok_def heap_ok_def)
qed

lemma step_ok: "crypto_step h h' \<Longrightarrow> crypto_ok h \<Longrightarrow> crypto_ok h'"
proof (induction rule: crypto_step.induct)
  case (Class a h ms vs h' s)
  from derive_class_ok [OF Class.prems Class.hyps(1-4)] Class.hyps(5) show ?case by auto
next
  case (Subtype a h overrides h' s)
  obtain g where ex: "extended h a overrides h' g"
    using call_extend_ok [OF Subtype.prems Subtype.hyps(1-3)] Subtype.hyps(5) by auto
  have ok: "heap_ok h" using Subtype.prems by (simp add: crypto_ok_def)
  have "\<not> keeps_init h a overrides" using Subtype.hyps(4) by (simp add: keeps_init_def)
  from extended_crypto_ok(1) [OF ex Subtype.prems Subtype.hyps(1-3) default_fresh [OF ex this ok]] show ?case .
next
  case (Clone a h h' s)
  from base_clone_spec [OF Clone.prems Clone.hyps] show ?case by blast
next
  case (New a h f h' s)
  from new_object_ok [OF New.prems New.hyps] show ?case by blast
next
  case (Write a h k v)
  from assign_plain_ok(1) [OF Write.prems Write.hyps] show ?case .
next
  case (Array h xs)
  from alloc_ok(1) [OF Array.prems, of "array_obj xs"] show ?case by (simp add: array_obj_def alloc_def)
next
  case (Elems h a xs)
  from set_elems_ok [OF Elems.prems] show ?case .
qed

lemma base_heap_eq: "base_heap =
  [\<lparr>prototype_of = None, own = [(''extend'', ObjV 1), (''create'', ObjV 2), (''init'', ObjV 3), (''mixIn'', ObjV 4),
     (''clone'', ObjV 5)], elems = [], code = None\<rparr>,
   fun_obj BaseExtend, fun_obj BaseCreate, fun_obj BaseInit, fun_obj BaseMixIn, fun_obj BaseClone]"
  by (simp add: base_heap_def literal_def base_methods_def alloc_def set_own_def plain_obj_def fun_obj_def)

lemma base_heap_ok: "crypto_ok base_heap" "inherits base_heap 0"
proof -
  let ?b = base_heap
  have six: "a < length ?b \<Longrightarrow> a = 0 \<or> (\<exists>c. ?b ! a = fun_obj c \<and> native c)" for a
  proof -
    assume "a < length ?b"
    then consider "a = 0" | "a = 1" | "a = 2" | "a = 3" | "a = 4" | "a = 5" by (fastforce simp: base_heap_eq)
    then show ?thesis
      by cases (simp_all add: base_heap_eq, (rule exI, rule conjI [OF refl], simp add: native_def)+)
  qed
  have zero: "map_of (own (?b ! 0)) ''init'' = Some (ObjV 3)" "map_of (own (?b ! 0)) ''extend'' = Some (ObjV 1)"
    "prototype_of (?b ! 0) = None" "code (?b ! 0) = None" "distinct (map fst (own (?b ! 0)))" "length ?b = 6"
    "?b ! 1 = fun_obj BaseExtend" "?b ! 3 = fun_obj BaseInit"
    by (simp_all add: base_heap_eq)
  show "inherits ?b 0" using lookup_own [OF zero(2)] by (simp add: inherits_def)
  have "distinct (map fst (own (?b ! a))) \<and> (\<forall>p. prototype_of (?b ! a) = Some p \<longrightarrow> p < a) \<and> init_ok ?b a \<and>
      super_ok ?b a \<and> (has_own ?b a ''extend'' \<longrightarrow> has_own ?b a ''init'') \<and>
      (inherits ?b a \<longrightarrow> instance_ok ?b a) \<and> extend_ok ?b a" if a: "a < length ?b" for a
  proof (cases "a = 0")
    case True
    then show ?thesis using zero
      by (simp add: init_ok_def super_ok_def has_own_def instance_ok_def no_home_def extend_ok_def fun_obj_def)
  next
    case False
    then obtain c where c: "?b ! a = fun_obj c" "native c" using six [OF a] by blast
    then have "\<not> inherits ?b a" by (subst inherits_def, subst lookup.simps) (simp add: fun_obj_def)
    with c show ?thesis by (auto simp: fun_obj_def init_ok_def super_ok_def has_own_def extend_ok_def native_def)
  qed
  then show "crypto_ok ?b" by (simp add: crypto_ok_def heap_ok_def)
qed

lemma reachable_ok: "crypto_reachable h \<Longrightarrow> crypto_ok h"
  by (induction rule: crypto_reachable.induct) (auto intro: base_heap_ok step_ok)

text \<open>
  C19. In every store the library can reach, calling \<open>create\<close> or the \<open>init\<close> of an object that inherits from
  \<open>Base\<close> ends, and it ends in one of the library's constructors: the chain of default initializers and
  their supertypes has no cycle and no gap.
\<close>

theorem construction_ends:
  assumes "crypto_reachable h" and "a < length h" and "inherits h a"
  shows "\<exists>c. constructor_of h a = Some (Some c) \<and> native c"
proof -
  have ok: "heap_ok h" using reachable_ok [OF assms(1)] by (simp add: crypto_ok_def)
  from constructor_ends [OF ok assms(2) inherits_init [OF ok assms(2,3)]] show ?thesis by (simp add: native_def)
qed

theorem construction_ends_witness: "\<exists>c. constructor_of base_heap 0 = Some (Some c) \<and> native c"
  by (rule construction_ends [OF crypto_reachable.start _ base_heap_ok(2)]) (simp add: base_heap_eq)

text \<open>
  C29. A clone, in every reachable store: it is a new object and nothing else changes; every property but
  the two links reads as on the original, and what the original has of its own the clone has of its own, so
  that later writes to one do not show through the other; and it is constructed by the same constructor.
\<close>

theorem clone_inherits:
  assumes "crypto_reachable h" and "w < length h" and "inherits h w" and "base_clone w h = Some (h', c)"
  shows "c = length h \<and> (\<forall>b < length h. h' ! b = h ! b) \<and>
    (\<forall>k. k \<notin> {''init'', ''$super''} \<longrightarrow> lookup h' c k = lookup h w k \<and> (has_own h w k \<longrightarrow> has_own h' c k)) \<and>
    constructor_of h' c = constructor_of h w"
  using base_clone_spec [OF reachable_ok [OF assms(1)] assms(2-4)] by blast

text \<open>An instance of \<open>Base\<close>, and its clone.\<close>

definition sample_store :: heap where
  "sample_store = fst (the (call_extend 0 None base_heap))"

lemma sample_store_run: "call_extend 0 None base_heap = Some (sample_store, 6)"
proof -
  have "map_option snd (call_extend 0 None base_heap) = Some 6" by code_simp
  then show ?thesis by (auto simp: sample_store_def)
qed

lemma sample_reachable: "crypto_reachable sample_store"
  by (rule crypto_reachable.step [OF crypto_reachable.start])
    (rule crypto_step.Subtype [OF _ base_heap_ok(2) _ _ sample_store_run],
      simp_all add: base_heap_eq override_ok_def overriding_def)

theorem clone_inherits_witness:
  "\<exists>h' c. base_clone 6 sample_store = Some (h', c) \<and> c = length sample_store \<and> constructor_of h' c = constructor_of sample_store 6"
proof -
  have "map_option snd (base_clone 6 sample_store) = Some 8" by code_simp
  then obtain h' where c: "base_clone 6 sample_store = Some (h', 8)" by auto
  have "6 < length sample_store" "lookup sample_store 6 ''extend'' = ObjV 1" by code_simp+
  then have "inherits sample_store 6" by (simp add: inherits_def)
  note res = clone_inherits [OF sample_reachable \<open>6 < length sample_store\<close> this c]
  show ?thesis by (rule exI [of _ h'], rule exI [of _ 8], intro conjI c) (use res in blast)+
qed

end
