(* ===== verification/Crypto_Heap_Props.thy ===== *)
theory Crypto_Heap_Props
  imports Crypto_Heap Crypto_Classes Md5_Props
begin

text \<open>
  The objects of crypto-js refine the records of Word_Array and Hasher: every operation on an object does
  to what it represents what the functional one does, and touches only the object's own parts. So two
  hashers that share no part, such as a hasher and its clone, hash independently.
\<close>

subsection \<open>What an operation leaves alone\<close>

text \<open>The properties that decide what an object inherits and how it is constructed.\<close>

definition links_kept :: "heap \<Rightarrow> heap \<Rightarrow> bool" where
  "links_kept h h' \<longleftrightarrow> length h \<le> length h' \<and> (\<forall>b < length h. prototype_of (h' ! b) = prototype_of (h ! b) \<and>
     code (h' ! b) = code (h ! b) \<and> (\<forall>k \<in> reserved. map_of (own (h' ! b)) k = map_of (own (h ! b)) k))"

text \<open>A run from \<open>h\<close> to \<open>h'\<close> that changes, of the objects there were, at most those in \<open>M\<close>.\<close>

definition advance :: "addr set \<Rightarrow> heap \<Rightarrow> heap \<Rightarrow> bool" where
  "advance M h h' \<longleftrightarrow> crypto_ok h' \<and> links_kept h h' \<and> (\<forall>b < length h. b \<notin> M \<longrightarrow> h' ! b = h ! b)"

lemma advance_refl: "crypto_ok h \<Longrightarrow> advance M h h"
  by (simp add: advance_def links_kept_def)

lemma advance_trans:
  assumes "advance M h h1" and "advance N h1 h2" and "\<And>b. b \<in> N \<Longrightarrow> b < length h \<Longrightarrow> b \<in> M"
  shows "advance M h h2"
proof -
  have len: "length h \<le> length h1" using assms(1) by (simp add: advance_def links_kept_def)
  have "h2 ! b = h ! b" if "b < length h" "b \<notin> M" for b
  proof -
    have "b \<notin> N" "b < length h1" using that assms(3) len by auto
    with that assms(1,2) show ?thesis by (simp add: advance_def)
  qed
  then show ?thesis using assms(1,2) by (auto simp: advance_def links_kept_def)
qed

text \<open>Changes of what was made in between do not count.\<close>

lemma advance_fresh: "advance {} h h1 \<Longrightarrow> advance N h1 h2 \<Longrightarrow> \<forall>b \<in> N. length h \<le> b \<Longrightarrow> advance {} h h2"
  by (rule advance_trans) auto

lemma advance_mono: "advance M h h' \<Longrightarrow> M \<subseteq> N \<Longrightarrow> advance N h h'"
  by (auto simp: advance_def)

lemma advance_length: "advance M h h' \<Longrightarrow> length h \<le> length h'"
  by (simp add: advance_def links_kept_def)

lemma advance_same: "advance M h h' \<Longrightarrow> b < length h \<Longrightarrow> b \<notin> M \<Longrightarrow> h' ! b = h ! b"
  by (simp add: advance_def)

lemma advance_ok: "advance M h h' \<Longrightarrow> crypto_ok h'"
  by (simp add: advance_def)

lemma advance_link: "advance M h h' \<Longrightarrow> b < length h \<Longrightarrow> k \<in> reserved \<Longrightarrow> map_of (own (h' ! b)) k = map_of (own (h ! b)) k"
  by (simp add: advance_def links_kept_def)

lemma advance_lookup: "advance M h h' \<Longrightarrow> a < length h \<Longrightarrow> k \<in> reserved \<Longrightarrow> lookup h' a k = lookup h a k"
  by (rule lookup_cong) (simp add: advance_def links_kept_def)

lemma advance_assign: "crypto_ok h \<Longrightarrow> a < length h \<Longrightarrow> k \<notin> reserved \<Longrightarrow> advance {a} h (set_own a k v h)"
  using assign_plain_ok(1) [of h a k v] unfolding advance_def links_kept_def
  by (auto simp: own_assign) (simp add: nth_assign)

lemma advance_set_elems: "crypto_ok h \<Longrightarrow> advance {a} h (set_elems a xs h)"
  using set_elems_ok [of h a xs] unfolding advance_def links_kept_def
  by auto (simp add: set_elems_def)

lemma advance_array: "crypto_ok h \<Longrightarrow> advance {} h (h @ [array_obj xs])"
  using alloc_ok(1) [of h "array_obj xs"] by (simp add: advance_def links_kept_def nth_append array_obj_def)

lemma advance_clone:
  assumes "crypto_ok h" and "w < length h" and "inherits h w" and "base_clone w h = Some (h', c)"
  shows "advance {} h h'"
  using base_clone_spec [OF assms] by (auto simp: advance_def links_kept_def)

lemma advance_new:
  assumes "crypto_ok h" and "a < length h" and "inherits h a" and "map_of (own (h ! a)) ''init'' = Some (ObjV f)"
    and "new_object f h = Some (h', s)"
  shows "advance {} h h'"
  using new_object_ok [OF assms] by (auto simp: advance_def links_kept_def nth_append)

text \<open>An object that can be cloned, and the class of the word arrays.\<close>

definition cloneable :: "heap \<Rightarrow> addr \<Rightarrow> bool" where
  "cloneable h w \<longleftrightarrow> w < length h \<and> inherits h w \<and> (\<exists>f p. lookup h w ''init'' = ObjV f \<and> f < length h \<and> home h f p)"

lemma reserved_keys: "''init'' \<in> reserved" "''extend'' \<in> reserved" "''prototype'' \<in> reserved" "''$super'' \<in> reserved"
  by (simp_all add: reserved_def)

lemma advance_inherits: "advance M h h' \<Longrightarrow> a < length h \<Longrightarrow> inherits h' a \<longleftrightarrow> inherits h a"
  by (simp add: inherits_def advance_lookup reserved_keys)

lemma advance_home: "advance M h h' \<Longrightarrow> f < length h \<Longrightarrow> home h' f p \<longleftrightarrow> home h f p"
  by (simp add: home_def advance_link reserved_keys)

lemma advance_cloneable: "advance M h h' \<Longrightarrow> cloneable h w \<Longrightarrow> cloneable h' w"
  using advance_length [of M h h']
  by (fastforce simp: cloneable_def advance_inherits advance_lookup reserved_keys advance_home)

definition word_class :: "heap \<Rightarrow> classes \<Rightarrow> bool" where
  "word_class h cl \<longleftrightarrow> WordArray cl < length h \<and> inherits h (WordArray cl) \<and>
     (\<exists>f < length h. map_of (own (h ! WordArray cl)) ''init'' = Some (ObjV f) \<and> home h f (WordArray cl))"

lemma advance_word_class: "advance M h h' \<Longrightarrow> word_class h cl \<Longrightarrow> word_class h' cl"
  using advance_length [of M h h']
  by (fastforce simp: word_class_def advance_inherits advance_link reserved_keys advance_home)

subsection \<open>Word arrays\<close>

text \<open>The object \<open>w\<close> with the array \<open>r\<close> represents a word array.\<close>

definition words_rep :: "heap \<Rightarrow> addr \<Rightarrow> addr \<Rightarrow> word_array \<Rightarrow> bool" where
  "words_rep h w r a \<longleftrightarrow> w < length h \<and> r < length h \<and> w \<noteq> r \<and> map_of (own (h ! w)) ''words'' = Some (ObjV r) \<and>
     map_of (own (h ! w)) ''sigBytes'' = Some (NumV (int (sigBytes a))) \<and> elems (h ! r) = wds a"

lemma words_rep_frame: "words_rep h w r a \<Longrightarrow> advance M h h' \<Longrightarrow> w \<notin> M \<Longrightarrow> r \<notin> M \<Longrightarrow> words_rep h' w r a"
  using advance_length [of M h h'] by (simp add: words_rep_def advance_same)

lemma words_rep_refs: "words_rep h w r a \<Longrightarrow> ref_at h w ''words'' = Some r \<and> num_of h w ''sigBytes'' = int (sigBytes a)"
  by (simp add: words_rep_def ref_at_def num_of_def lookup_own)

lemma not_reserved: "''words'' \<notin> reserved" "''sigBytes'' \<notin> reserved" "''_data'' \<notin> reserved" "''_hash'' \<notin> reserved"
    "''_nDataBytes'' \<notin> reserved" "''cfg'' \<notin> reserved"
  by (simp_all add: reserved_def)

lemma set_elems_twice: "a < length h \<Longrightarrow> set_elems a xs (set_elems a ys h) = set_elems a xs h"
  by (simp add: set_elems_def)

lemma fold_set_elems:
  assumes "r < length h" and "r \<noteq> t"
  shows "fold (\<lambda>i h. set_elems r (F (elems (h ! r)) i (elems (h ! t))) h) is h =
    set_elems r (fold (\<lambda>i ws. F ws i (elems (h ! t))) is (elems (h ! r))) h"
  using assms(1)
proof (induction "is" arbitrary: h)
  case Nil
  then show ?case by (simp add: set_elems_def)
next
  case (Cons i "is")
  let ?h = "set_elems r (F (elems (h ! r)) i (elems (h ! t))) h"
  have "?h ! t = h ! t" "elems (?h ! r) = F (elems (h ! r)) i (elems (h ! t))"
    using Cons.prems assms(2) by (simp_all add: nth_set_elems)
  with Cons show ?case by (simp add: set_elems_def)
qed

lemma concat_object_rep:
  assumes "crypto_ok h" and "words_rep h w r a" and "words_rep h b t c" and "w \<noteq> b" and "r \<noteq> t" and "r \<noteq> b" and "w \<noteq> t"
  shows "\<exists>h'. concat_object w b h = Some h' \<and> advance {w, r} h h' \<and> words_rep h' w r (concat_words a c)"
proof -
  let ?s = "sigBytes a" and ?n = "sigBytes c"
  note refs = words_rep_refs [OF assms(2)] words_rep_refs [OF assms(3)]
  have r: "r < length h" "w < length h" "w \<noteq> r" "elems (h ! r) = wds a" "elems (h ! t) = wds c"
    using assms(2,3) by (simp_all add: words_rep_def)
  define h1 where "h1 = set_elems r (wds (clamp \<lparr>wds = elems (h ! r), sigBytes = ?s\<rparr>)) h"
  have "wds (clamp \<lparr>wds = wds a, sigBytes = ?s\<rparr>) = wds (clamp a)" by (cases a) simp
  then have h1: "r < length h1" "h1 ! t = h ! t" "elems (h1 ! r) = wds (clamp a)"
    using r assms(5) by (simp_all add: h1_def nth_set_elems)
  define h2 where "h2 = (if ?s mod 4 \<noteq> 0
     then fold (\<lambda>i h. set_elems r (or_byte (elems (h ! r)) (?s + i) (byte_at (elems (h ! t)) i)) h) [0..<?n] h1
     else fold (\<lambda>i h. set_elems r (w_set (elems (h ! r)) ((?s + i) div 4) (w_at (elems (h ! t)) (i div 4))) h)
            (map (\<lambda>k. 4 * k) [0..<(?n + 3) div 4]) h1)"
  have loops: "fold (\<lambda>i h. set_elems r (or_byte (elems (h ! r)) (?s + i) (byte_at (elems (h ! t)) i)) h) [0..<?n] h1 =
      set_elems r (fold (\<lambda>i ws. or_byte ws (?s + i) (byte_at (wds c) i)) [0..<?n] (wds (clamp a))) h1"
    "fold (\<lambda>i h. set_elems r (w_set (elems (h ! r)) ((?s + i) div 4) (w_at (elems (h ! t)) (i div 4))) h)
        (map (\<lambda>k. 4 * k) [0..<(?n + 3) div 4]) h1 =
      set_elems r (fold (\<lambda>i ws. w_set ws ((?s + i) div 4) (w_at (wds c) (i div 4)))
        (map (\<lambda>k. 4 * k) [0..<(?n + 3) div 4]) (wds (clamp a))) h1"
    using fold_set_elems [OF h1(1) assms(5), of "\<lambda>ws i that. or_byte ws (?s + i) (byte_at that i)"]
      fold_set_elems [OF h1(1) assms(5), of "\<lambda>ws i that. w_set ws ((?s + i) div 4) (w_at that (i div 4))"]
      h1(2,3) r(5) by simp_all
  have h2: "h2 = set_elems r (wds (concat_words a c)) h"
    unfolding h2_def loops using r(1) by (simp add: concat_words_def Let_def h1_def set_elems_twice)
  have run: "concat_object w b h = Some (set_own w ''sigBytes'' (NumV (int ?s + int ?n)) h2)"
  proof -
    have "concat_object w b h = Some (set_own w ''sigBytes'' (NumV (num_of h2 w ''sigBytes'' + int ?n)) h2)"
      unfolding h2_def h1_def using refs by (simp add: concat_object_def Let_def)
    moreover have "num_of h2 w ''sigBytes'' = num_of h w ''sigBytes''" by (simp add: h2 num_of_def)
    ultimately show ?thesis using refs by simp
  qed
  have ok2: "crypto_ok h2" "advance {w, r} h h2"
    using advance_mono [OF advance_set_elems [OF assms(1), of r], of "{w, r}"] advance_ok by (auto simp: h2)
  have "advance {w, r} h (set_own w ''sigBytes'' (NumV (int ?s + int ?n)) h2)"
    using ok2 r(2) by (intro advance_trans [OF ok2(2) advance_assign]) (auto simp: h2 not_reserved)
  moreover have "words_rep (set_own w ''sigBytes'' (NumV (int ?s + int ?n)) h2) w r (concat_words a c)"
    using r assms(2) by (auto simp: words_rep_def h2 nth_assign nth_set_elems update_conv' concat_words_def Let_def)
  ultimately show ?thesis using run by blast
qed

text \<open>A new word array is a fresh object with a fresh array.\<close>

lemma word_array_init_rep:
  assumes "crypto_ok h" and "w < length h" and "r < length h" and "w \<noteq> r" and "\<forall>s. n = Some s \<longrightarrow> 0 \<le> s"
  shows "advance {w} h (word_array_init w (Some r) n h) \<and>
    words_rep (word_array_init w (Some r) n h) w r (init_words (elems (h ! r)) (map_option nat n))"
proof -
  let ?h1 = "set_own w ''words'' (ObjV r) h"
  have 1: "advance {w} h ?h1" using assms by (intro advance_assign) (simp_all add: not_reserved)
  have 2: "advance {w} ?h1 (set_own w ''sigBytes'' v ?h1)" for v
    using assms advance_ok [OF 1] by (intro advance_assign) (simp_all add: not_reserved)
  show ?thesis
    using advance_trans [OF 1 2] assms
    by (auto simp: word_array_init_def Let_def words_rep_def init_words_def nth_assign update_conv' split: option.split)
qed

lemma new_in_class:
  assumes "crypto_ok h" and "word_class h cl"
  shows "\<exists>f. ref_at h (WordArray cl) ''init'' = Some f \<and>
    new_object f h = Some (h @ [plain_obj (Some (WordArray cl))], length h) \<and>
    advance {} h (h @ [plain_obj (Some (WordArray cl))]) \<and> cloneable (h @ [plain_obj (Some (WordArray cl))]) (length h)"
proof -
  obtain f where f: "WordArray cl < length h" "inherits h (WordArray cl)" "f < length h"
    "map_of (own (h ! WordArray cl)) ''init'' = Some (ObjV f)" "home h f (WordArray cl)"
    using assms(2) by (auto simp: word_class_def)
  then have "lookup h f ''prototype'' = ObjV (WordArray cl)" using lookup_own by (auto simp: home_def)
  then have new: "new_object f h = Some (h @ [plain_obj (Some (WordArray cl))], length h)"
    by (simp add: new_object_def create_object_def alloc_def)
  note ok = new_object_ok [OF assms(1) f(1,2,4) new]
  have "lookup (h @ [plain_obj (Some (WordArray cl))]) (length h) ''init'' = ObjV f"
    using f(1,4) by (subst lookup.simps) (simp add: plain_obj_def lookup_own)
  moreover have "home (h @ [plain_obj (Some (WordArray cl))]) f (WordArray cl)" using f(3,5) by (simp add: home_def nth_append)
  ultimately have "cloneable (h @ [plain_obj (Some (WordArray cl))]) (length h)"
    using ok f(3) by (auto simp: cloneable_def)
  moreover have "ref_at h (WordArray cl) ''init'' = Some f" using f(4) by (simp add: ref_at_def lookup_own)
  ultimately show ?thesis using new advance_new [OF assms(1) f(1,2,4) new] by blast
qed

lemma new_words_rep:
  assumes "crypto_ok h" and "word_class h cl" and "\<forall>s. n = Some s \<longrightarrow> 0 \<le> s"
  shows "\<exists>h' w r. new_words cl ws n h = Some (h', w) \<and> advance {} h h' \<and> words_rep h' w r (init_words ws (map_option nat n)) \<and>
    length h \<le> w \<and> length h \<le> r \<and> cloneable h' w"
proof -
  let ?h1 = "h @ [array_obj ws]" and ?r = "length h"
  have 1: "advance {} h ?h1" by (rule advance_array [OF assms(1)])
  note ok1 = advance_ok [OF 1]
  define h2 where "h2 = ?h1 @ [plain_obj (Some (WordArray cl))]"
  define w where "w = length ?h1"
  obtain f where f: "ref_at ?h1 (WordArray cl) ''init'' = Some f" "new_object f ?h1 = Some (h2, w)" "advance {} ?h1 h2" "cloneable h2 w"
    using new_in_class [OF ok1 advance_word_class [OF 1 assms(2)]] by (auto simp: h2_def w_def)
  have f0: "ref_at h (WordArray cl) ''init'' = Some f"
    using f(1) advance_lookup [OF 1, of "WordArray cl" "''init''"] assms(2) by (simp add: ref_at_def word_class_def reserved_keys)
  have e: "elems (h2 ! ?r) = ws" "w < length h2" "?r < length h2" "w \<noteq> ?r"
    by (simp_all add: h2_def w_def array_obj_def nth_append)
  note ini = word_array_init_rep [OF advance_ok [OF f(3)] e(2-4) assms(3)]
  have run: "new_words cl ws n h = Some (word_array_init w (Some ?r) n h2, w)"
    using f0 f(2) by (simp add: new_words_def alloc_def)
  have "advance {} h (word_array_init w (Some ?r) n h2)"
    using ini by (intro advance_fresh [OF advance_fresh [OF 1 f(3)], of "{w}"]) (simp_all add: w_def)
  moreover have "cloneable (word_array_init w (Some ?r) n h2) w" using ini advance_cloneable f(4) by blast
  ultimately show ?thesis using run ini e(1) by (auto simp: w_def)
qed

lemma new_empty_rep:
  assumes "crypto_ok h" and "word_class h cl" and "\<forall>s. n = Some s \<longrightarrow> 0 \<le> s"
  shows "\<exists>h' w r. new_empty cl n h = Some (h', w) \<and> advance {} h h' \<and> words_rep h' w r (init_words [] (map_option nat n)) \<and>
    length h \<le> w \<and> length h \<le> r \<and> cloneable h' w"
proof -
  define h1 where "h1 = h @ [plain_obj (Some (WordArray cl))]"
  obtain f where f: "ref_at h (WordArray cl) ''init'' = Some f" "new_object f h = Some (h1, length h)" "advance {} h h1"
    "cloneable h1 (length h)"
    using new_in_class [OF assms(1,2)] by (auto simp: h1_def)
  define h2 where "h2 = h1 @ [array_obj []]"
  have 2: "advance {} h1 h2" unfolding h2_def by (rule advance_array [OF advance_ok [OF f(3)]])
  have len: "length h1 = length h + 1" by (simp add: h1_def)
  have e: "elems (h2 ! length h1) = []" "length h < length h2" "length h1 < length h2" "length h \<noteq> length h1"
    by (simp_all add: h2_def len array_obj_def nth_append)
  note ini = word_array_init_rep [OF advance_ok [OF 2] e(2-4) assms(3)]
  have eq: "word_array_init (length h) None n h1 = word_array_init (length h) (Some (length h1)) n h2"
    by (simp add: word_array_init_def alloc_def h2_def)
  have "advance {} h (word_array_init (length h) None n h1)"
    unfolding eq using ini by (intro advance_fresh [OF advance_fresh [OF f(3) 2], of "{length h}"]) simp_all
  moreover have "cloneable (word_array_init (length h) None n h1) (length h)"
    unfolding eq using ini 2 f(4) advance_cloneable by blast
  moreover have "new_empty cl n h = Some (word_array_init (length h) None n h1, length h)"
    using f(1,2) by (simp add: new_empty_def)
  ultimately show ?thesis using ini e(1) len by (fastforce simp: eq)
qed

text \<open>Every own property of a cloned object is one of the clone.\<close>

lemma base_clone_rep:
  assumes "crypto_ok h" and "cloneable h w"
  shows "\<exists>h' c. base_clone w h = Some (h', c) \<and> advance {} h h' \<and> cloneable h' c \<and> length h \<le> c \<and>
    (\<forall>k v. k \<notin> reserved \<and> map_of (own (h ! w)) k = Some v \<longrightarrow> map_of (own (h' ! c)) k = Some v)"
proof -
  obtain f p where w: "w < length h" "inherits h w" "lookup h w ''init'' = ObjV f" "home h f p"
    using assms(2) by (auto simp: cloneable_def)
  obtain h' c where c: "base_clone w h = Some (h', c)" using base_clone_total [OF assms(1) w] by blast
  note spec = base_clone_spec [OF assms(1) w(1,2) c]
  obtain g where g: "map_of (own (h' ! c)) ''init'' = Some (ObjV g)" "g < length h'" "home h' g c" using spec by blast
  have "lookup h' c ''init'' = ObjV g" by (rule lookup_own [OF g(1)])
  then have "cloneable h' c" using g(2,3) spec by (auto simp: cloneable_def)
  moreover have "map_of (own (h' ! c)) k = Some v" if k: "k \<notin> reserved" "map_of (own (h ! w)) k = Some v" for k v
  proof -
    have "k \<notin> {''init'', ''$super''}" using k(1) by (auto simp: reserved_def)
    then have "lookup h' c k = v" "has_own h' c k" using spec k(2) lookup_own [OF k(2)] by (auto simp: has_own_def)
    then show ?thesis using lookup_own [of h' c k] by (auto simp: has_own_def)
  qed
  moreover have "length h \<le> c" using spec by simp
  ultimately show ?thesis using c advance_clone [OF assms(1) w(1,2) c] by (intro exI [of _ h'] exI [of _ c]) simp
qed

text \<open>The clone of a word array: a fresh object with a fresh array that represents the same.\<close>

lemma word_array_clone_rep:
  assumes "crypto_ok h" and "cloneable h w" and "words_rep h w r a"
  shows "\<exists>h' c r'. word_array_clone w h = Some (h', c) \<and> advance {} h h' \<and> words_rep h' c r' a \<and>
    length h \<le> c \<and> length h \<le> r' \<and> cloneable h' c"
proof -
  obtain h1 c where c: "base_clone w h = Some (h1, c)" "advance {} h h1" "cloneable h1 c" "length h \<le> c"
    "\<And>k v. k \<notin> reserved \<Longrightarrow> map_of (own (h ! w)) k = Some v \<Longrightarrow> map_of (own (h1 ! c)) k = Some v"
    using base_clone_rep [OF assms(1,2)] by blast
  have rep1: "words_rep h1 w r a" by (rule words_rep_frame [OF assms(3) c(2)]) simp_all
  define h2 where "h2 = h1 @ [array_obj (wds a)]"
  have 2: "advance {} h1 h2" unfolding h2_def by (rule advance_array [OF advance_ok [OF c(2)]])
  have cl: "c < length h1" using c(3) by (simp add: cloneable_def)
  let ?h3 = "set_own c ''words'' (ObjV (length h1)) h2"
  have 3: "advance {c} h2 ?h3" using cl by (intro advance_assign advance_ok [OF 2]) (simp_all add: h2_def not_reserved)
  have run: "word_array_clone w h = Some (?h3, c)"
    using c(1) words_rep_refs [OF rep1] rep1 by (simp add: word_array_clone_def alloc_def h2_def words_rep_def)
  have "map_of (own (h1 ! c)) ''sigBytes'' = Some (NumV (int (sigBytes a)))"
    using assms(3) by (intro c(5)) (simp_all add: not_reserved words_rep_def)
  then have "words_rep ?h3 c (length h1) a"
    using cl by (simp add: words_rep_def own_assign h2_def nth_append array_obj_def)
  moreover have "advance {} h ?h3"
    using c(4) by (intro advance_fresh [OF advance_fresh [OF c(2) 2] 3]) simp_all
  ultimately show ?thesis
    using run c(4) advance_length [OF c(2)] advance_cloneable [OF 3] advance_cloneable [OF 2 c(3)] by blast
qed

subsection \<open>Hashers\<close>

text \<open>
  The object \<open>x\<close> with its data \<open>d\<close>, the array \<open>r\<close> of the data, its hash \<open>q\<close> and the array \<open>t\<close> of the hash
  represents a hasher.
\<close>

definition hasher_rep :: "heap \<Rightarrow> addr \<Rightarrow> addr \<times> addr \<times> addr \<times> addr \<Rightarrow> hasher \<Rightarrow> bool" where
  "hasher_rep h x = (\<lambda>(d, r, q, t) g. x < length h \<and> distinct [x, d, r, q, t] \<and>
     map_of (own (h ! x)) ''_data'' = Some (ObjV d) \<and> map_of (own (h ! x)) ''_hash'' = Some (ObjV q) \<and>
     map_of (own (h ! x)) ''_nDataBytes'' = Some (NumV (int (nDataBytes g))) \<and> words_rep h d r (hdata g) \<and>
     words_rep h q t \<lparr>wds = hwords g, sigBytes = 16\<rparr>)"

definition parts :: "addr \<Rightarrow> addr \<times> addr \<times> addr \<times> addr \<Rightarrow> addr set" where
  "parts x = (\<lambda>(d, r, q, t). {x, d, r, q, t})"

definition hasher_cloneable :: "heap \<Rightarrow> addr \<Rightarrow> addr \<times> addr \<times> addr \<times> addr \<Rightarrow> bool" where
  "hasher_cloneable h x = (\<lambda>(d, r, q, t). cloneable h x \<and> cloneable h d \<and> cloneable h q)"

lemma hasher_rep_frame:
  assumes "hasher_rep h x A g" and "advance M h h'" and "parts x A \<inter> M = {}"
  shows "hasher_rep h' x A g"
proof -
  obtain d r q t where A: "A = (d, r, q, t)" by (cases A)
  have "h' ! x = h ! x" using assms by (simp add: A hasher_rep_def parts_def advance_same)
  moreover have "words_rep h d r a \<Longrightarrow> words_rep h' d r a" "words_rep h q t a \<Longrightarrow> words_rep h' q t a" for a
    using words_rep_frame [OF _ assms(2)] assms(3) by (auto simp: A parts_def)
  ultimately show ?thesis
    using assms(1) advance_length [OF assms(2)] by (auto simp: A hasher_rep_def)
qed

lemma hasher_cloneable_frame: "hasher_cloneable h x A \<Longrightarrow> advance M h h' \<Longrightarrow> hasher_cloneable h' x A"
  using advance_cloneable by (auto simp: hasher_cloneable_def)

lemma hasher_rep_refs: "hasher_rep h x (d, r, q, t) g \<Longrightarrow> ref_at h x ''_data'' = Some d \<and> ref_at h x ''_hash'' = Some q \<and>
    num_of h x ''_nDataBytes'' = int (nDataBytes g)"
  by (simp add: hasher_rep_def ref_at_def num_of_def lookup_own)

text \<open>A clone represents the same hasher with parts that are all new.\<close>

lemma words_rep_assign: "words_rep h w r a \<Longrightarrow> k \<notin> {''words'', ''sigBytes''} \<Longrightarrow> b < length h \<Longrightarrow> words_rep (set_own b k v h) w r a"
  by (auto simp: words_rep_def own_assign)

lemma md5_clone_rep:
  assumes "crypto_ok h" and "hasher_rep h x A g" and "hasher_cloneable h x A"
  shows "\<exists>h' c B. md5_clone x h = Some (h', c) \<and> advance {} h h' \<and> hasher_rep h' c B g \<and> hasher_cloneable h' c B \<and>
    (\<forall>b \<in> parts c B. length h \<le> b)"
proof -
  obtain d r q t where A: "A = (d, r, q, t)" by (cases A)
  have s: "words_rep h q t \<lparr>wds = hwords g, sigBytes = 16\<rparr>" using assms(2) by (auto simp: A hasher_rep_def)
  have d: "words_rep h d r (hdata g)" using assms(2) by (simp add: A hasher_rep_def)
  have cl: "cloneable h x" "cloneable h d" "cloneable h q" using assms(3) by (simp_all add: A hasher_cloneable_def)
  obtain h1 c where c: "base_clone x h = Some (h1, c)" "advance {} h h1" "cloneable h1 c" "length h \<le> c"
    "\<And>k v. k \<notin> reserved \<Longrightarrow> map_of (own (h ! x)) k = Some v \<Longrightarrow> map_of (own (h1 ! c)) k = Some v"
    using base_clone_rep [OF assms(1) cl(1)] by blast
  have own1: "map_of (own (h1 ! c)) ''_nDataBytes'' = Some (NumV (int (nDataBytes g)))"
    using assms(2) by (intro c(5)) (simp_all add: A hasher_rep_def not_reserved)
  have rep1: "hasher_rep h1 x (d, r, q, t) g" using hasher_rep_frame [OF assms(2) c(2)] A by simp
  have d1: "words_rep h1 d r (hdata g)" "cloneable h1 d" using words_rep_frame [OF d c(2)] advance_cloneable [OF c(2)] cl by simp_all
  obtain h2 d' r' where d': "word_array_clone d h1 = Some (h2, d')" "advance {} h1 h2" "words_rep h2 d' r' (hdata g)"
    "length h1 \<le> d'" "length h1 \<le> r'" "cloneable h2 d'"
    using word_array_clone_rep [OF advance_ok [OF c(2)] d1(2,1)] by blast
  have c1: "c < length h1" using c(3) by (simp add: cloneable_def)
  then have c2: "c < length h2" using advance_length [OF d'(2)] by simp
  define h3 where "h3 = set_own c ''_data'' (ObjV d') h2"
  have 3: "advance {c} h2 h3" unfolding h3_def using c2 by (intro advance_assign advance_ok [OF d'(2)]) (simp_all add: not_reserved)
  have h3: "advance {} h h3" by (rule advance_fresh [OF advance_fresh [OF c(2) d'(2)] 3]) (simp_all add: c(4))
  have run1: "buffered_clone x h = Some (h3, c)"
    using c(1) d'(1) hasher_rep_refs [OF rep1] by (simp add: buffered_clone_def h3_def)
  have rep3: "hasher_rep h3 x (d, r, q, t) g" using hasher_rep_frame [OF assms(2) h3] A by simp
  have q3: "words_rep h3 q t \<lparr>wds = hwords g, sigBytes = 16\<rparr>" "cloneable h3 q"
    using words_rep_frame [OF s h3] advance_cloneable [OF h3] cl by simp_all
  obtain h4 q' t' where q': "word_array_clone q h3 = Some (h4, q')" "advance {} h3 h4"
    "words_rep h4 q' t' \<lparr>wds = hwords g, sigBytes = 16\<rparr>" "length h3 \<le> q'" "length h3 \<le> t'" "cloneable h4 q'"
    using word_array_clone_rep [OF advance_ok [OF h3] q3(2,1)] by blast
  define h5 where "h5 = set_own c ''_hash'' (ObjV q') h4"
  have c4: "c < length h4" using c2 advance_length [OF q'(2)] by (simp add: h3_def)
  have 5: "advance {c} h4 h5" unfolding h5_def using c4 by (intro advance_assign advance_ok [OF q'(2)]) (simp_all add: not_reserved)
  have adv: "advance {} h h5" by (rule advance_fresh [OF advance_fresh [OF h3 q'(2)] 5]) (simp_all add: c(4))
  have run: "md5_clone x h = Some (h5, c)"
    using run1 q'(1) hasher_rep_refs [OF rep3] by (simp add: md5_clone_def h5_def)
  have len: "length h3 = length h2" by (simp add: h3_def)
  have d5: "words_rep h4 d' r' (hdata g)"
    using d'(3-5) c1 unfolding h3_def
    by (intro words_rep_frame [OF _ q'(2)]) (auto simp: h3_def c2 intro: words_rep_assign)
  have own4: "map_of (own (h4 ! c)) ''_data'' = Some (ObjV d')" "map_of (own (h4 ! c)) ''_nDataBytes'' = Some (NumV (int (nDataBytes g)))"
    using own1 advance_same [OF d'(2) c1] advance_same [OF q'(2), of c] c2 by (simp_all add: h3_def own_assign)
  have ws: "words_rep h5 d' r' (hdata g)" "words_rep h5 q' t' \<lparr>wds = hwords g, sigBytes = 16\<rparr>"
    unfolding h5_def using d5 q'(3) c4 by (auto intro: words_rep_assign)
  have bounds: "d' < length h2" "r' < length h2" "d' \<noteq> r'" "q' \<noteq> t'" using d'(3) q'(3) by (simp_all add: words_rep_def)
  have "hasher_rep h5 c (d', r', q', t') g"
    using ws own4 c4 bounds c1 d'(4,5) q'(4,5) len unfolding hasher_rep_def
    by (auto simp: h5_def own_assign)
  moreover have "hasher_cloneable h5 c (d', r', q', t')"
    using advance_cloneable [OF 5] q'(6) advance_cloneable [OF q'(2)] advance_cloneable [OF 3] d'(6) advance_cloneable [OF d'(2)] c(3)
    by (simp add: hasher_cloneable_def)
  moreover have "\<forall>b \<in> parts c (d', r', q', t'). length h \<le> b"
    using c(4) d'(4,5) q'(4,5) advance_length [OF c(2)] advance_length [OF h3] by (auto simp: parts_def)
  ultimately show ?thesis using run adv by blast
qed

text \<open>Updates.\<close>

lemma append_object_rep:
  assumes "crypto_ok h" and "hasher_rep h x (d, r, q, t) g" and "words_rep h b u m" and "b \<notin> {x, d, r, q, t}" and "u \<notin> {x, d, r, q, t}"
  shows "\<exists>h'. append_object x b h = Some h' \<and> advance {x, d, r} h h' \<and> hasher_rep h' x (d, r, q, t) (append_data m g)"
proof -
  have rep: "words_rep h d r (hdata g)" "distinct [x, d, r, q, t]" "x < length h"
    using assms(2) by (simp_all add: hasher_rep_def)
  obtain h1 where h1: "concat_object d b h = Some h1" "advance {d, r} h h1" "words_rep h1 d r (concat_words (hdata g) m)"
    using concat_object_rep [OF assms(1) rep(1) assms(3)] assms(4,5) by auto
  have x: "h1 ! x = h ! x" using rep(2,3) by (intro advance_same [OF h1(2)]) auto
  have b1: "words_rep h1 b u m" using assms(3-5) by (intro words_rep_frame [OF _ h1(2)]) auto
  let ?h2 = "set_own x ''_nDataBytes'' (NumV (int (nDataBytes g) + int (sigBytes m))) h1"
  have len: "x < length h1" using advance_length [OF h1(2)] rep(3) by simp
  have 2: "advance {x} h1 ?h2" using len by (intro advance_assign advance_ok [OF h1(2)]) (simp_all add: not_reserved)
  have "num_of h1 x ''_nDataBytes'' = int (nDataBytes g)"
    using assms(2) x by (simp add: num_of_def hasher_rep_def lookup_own)
  then have run: "append_object x b h = Some ?h2"
    using hasher_rep_refs [OF assms(2)] h1(1) words_rep_refs [OF b1] by (simp add: append_object_def)
  have "words_rep h q t \<lparr>wds = hwords g, sigBytes = 16\<rparr>" using assms(2) by (auto simp: hasher_rep_def)
  then have "words_rep h1 q t \<lparr>wds = hwords g, sigBytes = 16\<rparr>" using rep(2) by (intro words_rep_frame [OF _ h1(2)]) auto
  then have "words_rep ?h2 q t \<lparr>wds = hwords g, sigBytes = 16\<rparr>" "words_rep ?h2 d r (concat_words (hdata g) m)"
    using h1(3) len by (auto intro: words_rep_assign)
  then have "hasher_rep ?h2 x (d, r, q, t) (append_data m g)"
    using rep(2) len assms(2) x by (auto simp: hasher_rep_def append_data_def own_assign)
  moreover have "advance {x, d, r} h ?h2" by (rule advance_trans [OF advance_mono [OF h1(2)] 2]) auto
  ultimately show ?thesis using run by blast
qed

lemma block_objects:
  assumes "r < length h" and "t < length h" and "r \<noteq> t"
  shows "fold (block_object doBlock r t) offs h =
    (let (ws, H) = fold (\<lambda>offset (ws, H). doBlock ws offset H) offs (elems (h ! r), elems (h ! t))
     in set_elems t H (set_elems r ws h))"
  using assms(1,2)
proof (induction offs arbitrary: h)
  case Nil
  then show ?case by (simp add: set_elems_def)
next
  case (Cons off offs)
  obtain ws H where b: "doBlock (elems (h ! r)) off (elems (h ! t)) = (ws, H)" by fastforce
  let ?h = "set_elems t H (set_elems r ws h)"
  have e: "elems (?h ! r) = ws" "elems (?h ! t) = H" using Cons.prems assms(3) by (simp_all add: nth_set_elems)
  have swap: "set_elems t H' (set_elems r ws' ?h) = set_elems t H' (set_elems r ws' h)" for H' ws'
    using assms(3) Cons.prems by (simp add: set_elems_def list_update_swap)
  show ?case using Cons.IH [of ?h] Cons.prems by (simp add: block_object_def b e swap split: prod.splits)
qed

lemma process_object_rep:
  assumes "crypto_ok h" and "word_class h cl" and "hasher_rep h x (d, r, q, t) g"
  shows "\<exists>h'. process_object cl doBlock x h = Some h' \<and> advance {d, r, t} h h' \<and>
    hasher_rep h' x (d, r, q, t) (fst (process_data doBlock False g))"
proof -
  let ?n = "sigBytes (hdata g)" and ?k = "blocks_ready False (sigBytes (hdata g))"
  have q: "words_rep h q t \<lparr>wds = hwords g, sigBytes = 16\<rparr>" using assms(3) by (auto simp: hasher_rep_def)
  have d: "words_rep h d r (hdata g)" and dist: "distinct [x, d, r, q, t]" and x: "x < length h"
    using assms(3) by (simp_all add: hasher_rep_def)
  note refs = hasher_rep_refs [OF assms(3)] words_rep_refs [OF d] words_rep_refs [OF q]
  show ?thesis
  proof (cases "?k * blockSize = 0")
    case True
    obtain h' w u where h': "new_empty cl (Some 0) h = Some (h', w)" "advance {} h h'"
      using new_empty_rep [OF assms(1,2), of "Some 0"] by auto
    have "?k = 0" using True by (simp add: blockSize_def)
    then have "process_object cl doBlock x h = Some h'"
      using refs h'(1) by (simp add: process_object_def Let_def)
    moreover have "hasher_rep h' x (d, r, q, t) g" by (rule hasher_rep_frame [OF assms(3) h'(2)]) simp
    moreover have "fst (process_data doBlock False g) = g" using True by (simp add: process_data_def Let_def)
    ultimately show ?thesis using advance_mono [OF h'(2), of "{d, r, t}"] by auto
  next
    case False
    define nb where "nb = min (?k * blockSize * 4) ?n"
    obtain ws H where f: "fold (\<lambda>offset (ws, H). doBlock ws offset H) (map (\<lambda>k. k * blockSize) [0..<?k]) (wds (hdata g), hwords g) = (ws, H)"
      by fastforce
    have len: "r < length h" "t < length h" "d < length h" "elems (h ! r) = wds (hdata g)" "elems (h ! t) = hwords g"
      using d q by (simp_all add: words_rep_def)
    have rt: "r \<noteq> t" "d \<noteq> r" "d \<noteq> t" using dist by auto
    define h1 where "h1 = set_elems t H (set_elems r ws h)"
    have loop: "fold (block_object doBlock r t) (map (\<lambda>k. k * blockSize) [0..<?k]) h = h1"
      using block_objects [OF len(1,2) rt(1)] f len(4,5) by (simp add: h1_def)
    have e1: "elems (h1 ! r) = ws" using len rt by (simp add: h1_def nth_set_elems)
    define h2 where "h2 = set_elems r (drop (?k * blockSize) ws) h1"
    define h3 where "h3 = set_own d ''sigBytes'' (NumV (int ?n - int nb)) h2"
    have a1: "advance {r} h (set_elems r ws h)" by (rule advance_set_elems [OF assms(1)])
    have a2: "advance {t} (set_elems r ws h) h1" unfolding h1_def by (rule advance_set_elems [OF advance_ok [OF a1]])
    have a3: "advance {r} h1 h2" unfolding h2_def by (rule advance_set_elems [OF advance_ok [OF a2]])
    have len1: "length h1 = length h" "length h2 = length h" by (simp_all add: h1_def h2_def)
    have a4: "advance {d} h2 h3"
      unfolding h3_def using len(3) len1 by (intro advance_assign advance_ok [OF a3]) (simp_all add: not_reserved)
    have "advance {r, t} h h1" by (rule advance_trans [OF advance_mono [OF a1] a2]) auto
    then have "advance {r, t} h h2" by (rule advance_trans [OF _ a3]) auto
    then have adv3: "advance {d, r, t} h h3" by (intro advance_trans [OF advance_mono a4]) auto
    obtain h4 w where h4: "new_words cl (take (?k * blockSize) ws) (Some (int nb)) h3 = Some (h4, w)" "advance {} h3 h4"
      using new_words_rep [where cl = cl and ws = "take (?k * blockSize) ws" and n = "Some (int nb)",
          OF advance_ok [OF adv3] advance_word_class [OF adv3 assms(2)]] by auto
    have n2: "num_of h2 d ''sigBytes'' = int ?n" using refs by (simp add: h2_def h1_def num_of_def)
    have run: "process_object cl doBlock x h = Some h4"
      using refs False loop e1 h4(1) n2
      by (simp add: process_object_def Let_def h3_def flip: nb_def h2_def)
    have "words_rep h3 d r \<lparr>wds = drop (?k * blockSize) ws, sigBytes = ?n - nb\<rparr>"
      using d len rt len1 unfolding words_rep_def h3_def
      by (auto simp: own_assign h2_def h1_def nth_set_elems nb_def of_nat_diff)
    moreover have "words_rep h3 q t \<lparr>wds = H, sigBytes = 16\<rparr>"
      using q len rt len1 dist unfolding words_rep_def h3_def
      by (auto simp: own_assign h2_def h1_def nth_set_elems)
    moreover have "h3 ! x = h ! x" using dist x by (intro advance_same [OF adv3]) auto
    ultimately have "hasher_rep h3 x (d, r, q, t) (g\<lparr>hdata := \<lparr>wds = drop (?k * blockSize) ws, sigBytes = ?n - nb\<rparr>, hwords := H\<rparr>)"
      using assms(3) len1 by (auto simp: hasher_rep_def h3_def)
    moreover have "fst (process_data doBlock False g) =
        g\<lparr>hdata := \<lparr>wds = drop (?k * blockSize) ws, sigBytes = ?n - nb\<rparr>, hwords := H\<rparr>"
      using False f by (simp add: process_data_def Let_def nb_def)
    ultimately have "hasher_rep h4 x (d, r, q, t) (fst (process_data doBlock False g))"
      using hasher_rep_frame [OF _ h4(2)] by simp
    moreover have "advance {d, r, t} h h4" by (rule advance_trans [OF adv3 h4(2)]) simp
    ultimately show ?thesis using run by blast
  qed
qed

lemma update_object_rep:
  assumes "crypto_ok h" and "word_class h cl" and "hasher_rep h x A g" and "words_rep h b u m" and "{b, u} \<inter> parts x A = {}"
  shows "\<exists>h'. update_object cl doBlock x b h = Some h' \<and> advance (parts x A) h h' \<and>
    hasher_rep h' x A (update_hasher doBlock m g)"
proof -
  obtain d r q t where A: "A = (d, r, q, t)" by (cases A)
  have ap: "\<exists>h'. append_object x b h = Some h' \<and> advance {x, d, r} h h' \<and> hasher_rep h' x (d, r, q, t) (append_data m g)"
    using assms(3,5) by (intro append_object_rep [OF assms(1) _ assms(4)]) (auto simp: A parts_def)
  then obtain h1 where h1: "append_object x b h = Some h1" "advance {x, d, r} h h1" "hasher_rep h1 x (d, r, q, t) (append_data m g)"
    by blast
  obtain h2 where h2: "process_object cl doBlock x h1 = Some h2" "advance {d, r, t} h1 h2"
    "hasher_rep h2 x (d, r, q, t) (fst (process_data doBlock False (append_data m g)))"
    using process_object_rep [OF advance_ok [OF h1(2)] advance_word_class [OF h1(2) assms(2)] h1(3)] by blast
  have "advance (parts x A) h h2"
    by (rule advance_trans [OF advance_mono [OF h1(2)] h2(2)]) (auto simp: A parts_def)
  then show ?thesis using h1(1) h2(1,3) by (simp add: update_object_def update_hasher_def A)
qed

fun update_objects :: "classes \<Rightarrow> block_function \<Rightarrow> addr \<Rightarrow> addr list \<Rightarrow> heap \<Rightarrow> heap option" where
  "update_objects cl doBlock x [] h = Some h"
| "update_objects cl doBlock x (b # bs) h = (case update_object cl doBlock x b h of
     None \<Rightarrow> None | Some h' \<Rightarrow> update_objects cl doBlock x bs h')"

text \<open>A word array of the store that holds some bytes.\<close>

definition bytes_at :: "heap \<Rightarrow> addr \<Rightarrow> byte list \<Rightarrow> bool" where
  "bytes_at h b bs \<longleftrightarrow> (\<exists>u m. words_rep h b u m \<and> holds m bs)"

lemma bytes_at_frame:
  assumes "bytes_at h b bs" and "advance M h h'" and "\<forall>a \<in> M. length h \<le> a"
  shows "bytes_at h' b bs"
proof -
  obtain u m where m: "words_rep h b u m" "holds m bs" using assms(1) by (auto simp: bytes_at_def)
  then have "b \<notin> M" "u \<notin> M" using assms(3) by (auto simp: words_rep_def)
  from words_rep_frame [OF m(1) assms(2) this] m(2) show ?thesis by (auto simp: bytes_at_def)
qed

text \<open>The final block, and the digest that \<open>_doFinalize\<close> leaves in the hash.\<close>

lemma doProcessBlock_size: "length (snd (doProcessBlock sine ws offset H)) = 4"
  by (simp add: doProcessBlock_def Let_def split: prod.split)

lemma blocks_size: "length H = 4 \<Longrightarrow> length (snd (fold (\<lambda>offset (ws, H). doProcessBlock sine ws offset H) offs (ws, H))) = 4"
proof (induction offs arbitrary: ws H)
  case (Cons off offs)
  obtain ws' H' where b: "doProcessBlock sine ws off H = (ws', H')" by fastforce
  then have "length H' = 4" using doProcessBlock_size [of sine ws off H] by simp
  from Cons.IH [OF this] show ?case by (simp add: b)
qed simp

lemma process_size:
  assumes "length (hwords g) = 4"
  shows "length (hwords (fst (process_data (doProcessBlock sine) False g))) = 4"
proof -
  obtain ws H where f: "fold (\<lambda>offset (ws, H). doProcessBlock sine ws offset H)
      (map (\<lambda>k. k * blockSize) [0..<blocks_ready False (sigBytes (hdata g))]) (wds (hdata g), hwords g) = (ws, H)" by fastforce
  with blocks_size [OF assms] have "length H = 4" by (metis snd_conv)
  with f assms show ?thesis by (simp add: process_data_def Let_def)
qed

lemma swap_four: "length H = 4 \<Longrightarrow> fold (\<lambda>i H. w_set H i (swap_endian (w_at H i))) [0..<4] H = map swap_endian H"
  by (auto simp: numeral_eq_Suc length_Suc_conv upt_rec w_set_def w_at_def)

lemma fold_set_own:
  assumes "t < length h"
  shows "fold (\<lambda>i h. set_elems t (F (elems (h ! t)) i) h) is h = set_elems t (fold (\<lambda>i H. F H i) is (elems (h ! t))) h"
  using assms
proof (induction "is" arbitrary: h)
  case Nil
  then show ?case by (simp add: set_elems_def)
next
  case (Cons i "is")
  then show ?case by (simp add: nth_set_elems set_elems_twice)
qed

lemma do_finalize_rep:
  assumes "crypto_ok h" and "word_class h cl" and "hasher_rep h x (d, r, q, t) g" and "length (hwords g) = 4"
  shows "\<exists>h'. md5_do_finalize cl sine x h = Some (h', q) \<and> advance {d, r, t} h h' \<and> words_rep h' q t (doFinalize sine g)"
proof -
  have d: "words_rep h d r (hdata g)" and q: "words_rep h q t \<lparr>wds = hwords g, sigBytes = 16\<rparr>"
    and dist: "distinct [x, d, r, q, t]" using assms(3) by (simp_all add: hasher_rep_def)
  have len: "d < length h" "r < length h" "elems (h ! r) = wds (hdata g)" using d by (simp_all add: words_rep_def)
  define nl where "nl = int (sigBytes (hdata g)) * 8"
  define nt where "nt = int (nDataBytes g) * 8"
  define ws1 where "ws1 = w_set (wds (hdata g)) (nat (js_ushr nl 5))
    (js_or (w_at (wds (hdata g)) (nat (js_ushr nl 5))) (js_shl 0x80 (nat (24 - nl mod 32))))"
  define j where "j = nat (js_shl (js_ushr (nl + 64) 9) 4)"
  define ws3 where "ws3 = w_set (w_set ws1 (j + 15) (swap_endian (nt div 0x100000000))) (j + 14) (swap_endian nt)"
  define h3 where "h3 = set_elems r ws3 h"
  define h4 where "h4 = set_own d ''sigBytes'' (NumV ((int (length ws3) + 1) * 4)) h3"
  let ?g = "g\<lparr>hdata := \<lparr>wds = ws3, sigBytes = (length ws3 + 1) * 4\<rparr>\<rparr>"
  have 3: "advance {r} h h3" unfolding h3_def by (rule advance_set_elems [OF assms(1)])
  have l3: "length h3 = length h" by (simp add: h3_def)
  have 4: "advance {d} h3 h4"
    unfolding h4_def using len(1) l3 by (intro advance_assign advance_ok [OF 3]) (simp_all add: not_reserved)
  have a4: "advance {d, r, t} h h4" by (rule advance_trans [OF advance_mono [OF 3] 4]) auto
  have e: "elems (h3 ! r) = ws3" using len by (simp add: h3_def nth_set_elems)
  have "words_rep h4 d r \<lparr>wds = ws3, sigBytes = (length ws3 + 1) * 4\<rparr>"
    using d len dist l3 by (auto simp: words_rep_def h4_def own_assign h3_def nth_set_elems algebra_simps)
  moreover have "words_rep h4 q t \<lparr>wds = hwords g, sigBytes = 16\<rparr>"
    using q len dist l3 by (auto simp: words_rep_def h4_def own_assign h3_def nth_set_elems)
  moreover have "h4 ! x = h ! x" using dist assms(3) by (intro advance_same [OF a4]) (auto simp: hasher_rep_def)
  ultimately have rep4: "hasher_rep h4 x (d, r, q, t) ?g"
    using assms(3) l3 by (simp add: hasher_rep_def h4_def)
  let ?g' = "fst (process_data (doProcessBlock sine) False ?g)"
  obtain h5 where h5: "process_object cl (doProcessBlock sine) x h4 = Some h5" "advance {d, r, t} h4 h5"
    "hasher_rep h5 x (d, r, q, t) ?g'"
    using process_object_rep [OF advance_ok [OF 4] advance_word_class [OF a4 assms(2)] rep4] by blast
  have q5: "words_rep h5 q t \<lparr>wds = hwords ?g', sigBytes = 16\<rparr>" using h5(3) by (simp add: hasher_rep_def)
  have size: "length (hwords ?g') = 4" using assms(4) by (intro process_size) simp
  let ?h6 = "set_elems t (map swap_endian (hwords ?g')) h5"
  have loop: "fold (\<lambda>i h. set_elems t (w_set (elems (h ! t)) i (swap_endian (w_at (elems (h ! t)) i))) h) [0..<4] h5 = ?h6"
    using fold_set_own [where t = t and h = h5 and F = "\<lambda>H i. w_set H i (swap_endian (w_at H i))"] q5 swap_four [OF size]
    by (simp add: words_rep_def)
  have h4: "set_own d ''sigBytes'' (NumV (int (length ws3) * 4 + 4)) h3 = h4" by (simp add: h4_def)
  have run: "md5_do_finalize cl sine x h = Some (?h6, q)"
    using hasher_rep_refs [OF assms(3)] words_rep_refs [OF d] len hasher_rep_refs [OF h5(3)] words_rep_refs [OF q5] loop
    by (simp add: md5_do_finalize_def nth_set_elems set_elems_twice flip: nl_def nt_def)
      (simp add: nth_set_elems set_elems_twice e flip: nl_def nt_def ws1_def j_def ws3_def h3_def, simp add: h4 h5(1))
  have 6: "advance {t} h5 ?h6" by (rule advance_set_elems [OF advance_ok [OF h5(2)]])
  have "advance {d, r, t} h h5" by (rule advance_trans [OF a4 h5(2)]) simp
  then have "advance {d, r, t} h ?h6" by (rule advance_trans [OF _ 6]) simp
  moreover have "words_rep ?h6 q t \<lparr>wds = map swap_endian (hwords ?g'), sigBytes = 16\<rparr>"
    using q5 by (auto simp: words_rep_def nth_set_elems)
  moreover have "doFinalize sine g = \<lparr>wds = map swap_endian (hwords ?g'), sigBytes = 16\<rparr>"
    using size by (simp add: doFinalize_def Let_def init_words_def ws3_def ws1_def j_def nl_def nt_def)
  ultimately show ?thesis using run by auto
qed

end
