(* ===== verification/Crypto_Load.thy ===== *)
theory Crypto_Load
  imports Crypto_Heap_Props
begin

text \<open>
  Running the modules of crypto-js: what a class definition makes, and the store with the classes of
  \<open>core.js\<close> and \<open>md5.js\<close>, in which a hasher for MD5 can be created.
\<close>

subsection \<open>Defining a class\<close>

lemma advance_old: "crypto_ok h' \<Longrightarrow> length h \<le> length h' \<Longrightarrow> \<forall>b < length h. h' ! b = h ! b \<Longrightarrow> advance {} h h'"
  by (simp add: advance_def links_kept_def)

text \<open>An object literal has the methods it names, each a new function.\<close>

lemma add_methods_own:
  assumes "a < length h" and "distinct (map fst ms)"
  shows "length h \<le> length (add_methods a ms h) \<and> (\<forall>b < length h. b \<noteq> a \<longrightarrow> add_methods a ms h ! b = h ! b) \<and>
    (\<forall>k. case map_of ms k of None \<Rightarrow> map_of (own (add_methods a ms h ! a)) k = map_of (own (h ! a)) k
       | Some c \<Rightarrow> \<exists>f < length (add_methods a ms h). length h \<le> f \<and> map_of (own (add_methods a ms h ! a)) k = Some (ObjV f) \<and>
           code (add_methods a ms h ! f) = Some c)"
  using assms
proof (induction ms arbitrary: h)
  case (Cons m ms)
  obtain j d where m: "m = (j, d)" by fastforce
  let ?h1 = "set_own a j (ObjV (length h)) (h @ [fun_obj d])"
  let ?r = "add_methods a ms ?h1"
  have a: "a < length ?h1" "a < length (h @ [fun_obj d])" using Cons.prems(1) by simp_all
  have j: "j \<notin> fst ` set ms" "distinct (map fst ms)" using Cons.prems(2) m by simp_all
  note ih = Cons.IH [OF a(1) j(2)]
  have run: "add_methods a (m # ms) h = ?r" by (simp add: m alloc_def)
  have n: "?h1 ! length h = fun_obj d" using Cons.prems(1) a(2) by (simp add: nth_assign)
  have "map_of ms j = None" using j(1) by (metis map_of_eq_None_iff)
  then have new: "map_of (own (?r ! a)) j = Some (ObjV (length h))" "?r ! length h = fun_obj d"
    using ih a(2) n Cons.prems(1) by (auto simp: own_assign dest: spec [where x = j])
  have keep: "map_of (own (?h1 ! a)) k = map_of (own (h ! a)) k" if "k \<noteq> j" for k
    using that a(2) Cons.prems(1) by (simp add: own_assign nth_append)
  have same: "?h1 ! b = h ! b" if "b < length h" "b \<noteq> a" for b
    using that a(2) by (simp add: nth_assign nth_append)
  have "case map_of (m # ms) k of None \<Rightarrow> map_of (own (?r ! a)) k = map_of (own (h ! a)) k
     | Some c \<Rightarrow> \<exists>f < length ?r. length h \<le> f \<and> map_of (own (?r ! a)) k = Some (ObjV f) \<and> code (?r ! f) = Some c" for k
  proof (cases "k = j")
    case True
    then show ?thesis using new ih by (auto simp: m fun_obj_def)
  next
    case False
    have "case map_of ms k of None \<Rightarrow> map_of (own (?r ! a)) k = map_of (own (?h1 ! a)) k
      | Some c \<Rightarrow> \<exists>f < length ?r. length ?h1 \<le> f \<and> map_of (own (?r ! a)) k = Some (ObjV f) \<and> code (?r ! f) = Some c"
      using ih by blast
    then show ?thesis using False keep [OF False] by (auto simp: m dest: Suc_leD split: option.splits)
  qed
  moreover have "?r ! b = h ! b" if "b < length h" "b \<noteq> a" for b
    using ih that same by simp
  ultimately show ?case unfolding run using ih by simp
qed simp

lemma derive_class_spec:
  assumes "crypto_ok h" and "a < length h" and "inherits h a" and "distinct (map fst ms)"
    and "\<forall>(k, c) \<in> set ms. native c \<and> k \<notin> {''$super'', ''prototype'', ''extend''}" and "\<forall>(k, v) \<in> set vs. k \<notin> reserved"
  shows "\<exists>h' s f. derive_class a ms vs h = Some (h', s) \<and> advance {} h h' \<and> length h \<le> s \<and> s < length h' \<and> inherits h' s \<and>
    f < length h' \<and> map_of (own (h' ! s)) ''init'' = Some (ObjV f) \<and> home h' f s \<and>
    constructor_of h' s = (case map_of ms ''init'' of Some c \<Rightarrow> Some (Some c) | None \<Rightarrow> constructor_of h a) \<and>
    (\<forall>k v. map_of (rev vs) k = Some v \<longrightarrow> lookup h' s k = v) \<and>
    (\<forall>k. k \<notin> {''init'', ''$super''} \<union> fst ` set ms \<union> fst ` set vs \<longrightarrow> lookup h' s k = lookup h a k)"
proof -
  define p where "p = length h"
  define h1 where "h1 = add_methods p ms (h @ [plain_obj None])"
  define h2 where "h2 = fold (\<lambda>(k, v). set_own p k v) vs h1"
  have lit1: "literal ms h = (h1, p)" "literal_ok h p h1" using literal_spec [OF assms(1,5)] by (simp_all add: p_def h1_def)
  have lit: "literal_ok h p h2" unfolding h2_def by (rule literal_ok_values [OF lit1(2) assms(6)])
  have ok: "heap_ok h" and ok2: "crypto_ok h2" "heap_ok h2" and len: "length h < length h2" and p: "p < length h2" "p < length h1"
    using assms(1) lit lit1(2) by (auto simp: literal_ok_def crypto_ok_def)
  have old2: "h2 ! b = h ! b" if "b < length h" for b using that lit by (simp add: literal_ok_def)
  have look2: "lookup h2 b k = lookup h b k" if "b < length h" for b k using that old2 by (intro lookup_cong) simp
  have a: "a < length h2" "inherits h2 a" using assms(2,3) len look2 by (simp_all add: inherits_def)
  have o: "override_ok h2 (Some p)" using p by (simp add: override_ok_def)
  obtain h' g where ex: "call_extend a (Some p) h2 = Some (h', length h2)" "extended h2 a (Some p) h' g"
    using call_extend_ok [OF ok2(1) a o] by blast
  define s where "s = length h2"
  have run: "derive_class a ms vs h = Some (h', s)" using ex(1) by (simp add: derive_class_def lit1(1) s_def flip: h2_def)
  have res: "crypto_ok h'" "inherits h' s" "s < length h'"
    using derive_class_ok [OF assms(1-3,5,6)] run by auto
  have own2: "map_of (own (h2 ! p)) = map_of (own (h1 ! p)) ++ map_of (rev vs)" and same2: "b \<noteq> p \<Longrightarrow> h2 ! b = h1 ! b" for b
    using assigns_spec [OF p(2), of vs] by (simp_all add: h2_def)
  have novs: "map_of (rev vs) k = None" if "k \<notin> fst ` set vs" for k using that by (simp add: map_of_eq_None_iff image_image)
  have "''init'' \<notin> fst ` set vs" using assms(6) by (auto simp: reserved_def)
  then have init2: "map_of (own (h2 ! p)) ''init'' = map_of (own (h1 ! p)) ''init''"
    using own2 novs by (simp add: map_add_def)
  have methods1: "case map_of ms k of None \<Rightarrow> map_of (own (h1 ! p)) k = None
      | Some c \<Rightarrow> \<exists>f < length h1. p < f \<and> map_of (own (h1 ! p)) k = Some (ObjV f) \<and> code (h1 ! f) = Some c" for k
  proof -
    have "length (h @ [plain_obj None]) = p + 1" "map_of (own ((h @ [plain_obj None]) ! p)) k = None"
      by (simp_all add: p_def plain_obj_def)
    moreover have "case map_of ms k of None \<Rightarrow> map_of (own (h1 ! p)) k = map_of (own ((h @ [plain_obj None]) ! p)) k
      | Some c \<Rightarrow> \<exists>f < length h1. length (h @ [plain_obj None]) \<le> f \<and> map_of (own (h1 ! p)) k = Some (ObjV f) \<and> code (h1 ! f) = Some c"
      unfolding h1_def using assms(4) by (intro add_methods_own [THEN conjunct2, THEN conjunct2, THEN spec]) (simp_all add: p_def)
    ultimately show ?thesis by (auto split: option.splits)
  qed
  have g: "length h \<le> g"
  proof (cases "keeps_init h2 a (Some p)")
    case True
    then have "map_of (own (h2 ! p)) ''init'' = Some (ObjV g)" using extended_kept(3) [OF ex(2)] by (simp add: overriding_def)
    then show ?thesis using lit by (simp add: literal_ok_def)
  qed (use extended_default(2) [OF ex(2)] len in simp)
  have old: "h' ! b = h ! b" if "b < length h" for b
    using that g extended_subtype(1) [OF ex(2), of b] old2 len by (cases "b = g") simp_all
  note sub = extended_subtype [OF ex(2), folded s_def]
  have own_s: "map_of (own (h' ! s)) = (map_of (own (h2 ! p)))(''init'' \<mapsto> ObjV g, ''$super'' \<mapsto> ObjV a)"
    using sub(3) by (simp add: overriding_def)
  have gl: "g < length h'"
    using extended_kept(1,2) [OF ex(2)] extended_default(1,2) [OF ex(2)] by (cases "keeps_init h2 a (Some p)") simp_all
  have inita: "lookup h a ''init'' \<noteq> Undefined" by (rule inherits_init [OF ok assms(2,3)])
  have con: "constructor_of h' s = (if keeps_init h2 a (Some p) then init_target h2 g else constructor_of h2 a)"
    unfolding s_def using a(1) o look2 inita assms(2) by (intro extended_constructor [OF ex(2) ok2(2)]) simp_all
  have "constructor_of h' s = (case map_of ms ''init'' of Some c \<Rightarrow> Some (Some c) | None \<Rightarrow> constructor_of h a)"
  proof (cases "map_of ms ''init''")
    case None
    then have "\<not> keeps_init h2 a (Some p)" using methods1 [of "''init''"] init2 by (simp add: keeps_init_def overriding_def)
    moreover have "constructor_of h2 a = constructor_of h a"
      by (rule constructor_cong [OF ok _ assms(2) inita]) (simp add: same_inits_def old2)
    ultimately show ?thesis using con None by simp
  next
    case (Some c)
    then obtain f where f: "f < length h1" "p < f" "map_of (own (h1 ! p)) ''init'' = Some (ObjV f)" "code (h1 ! f) = Some c"
      using methods1 [of "''init''"] by auto
    obtain f' where f': "lookup h a ''init'' = ObjV f'" "f' < length h" using init_function [OF ok assms(2) inita] by blast
    then have k: "keeps_init h2 a (Some p)"
      using f init2 look2 [OF assms(2)] by (auto simp: keeps_init_def overriding_def p_def)
    then have "g = f" using extended_kept(3) [OF ex(2)] f(3) init2 by (simp add: overriding_def)
    moreover have "code (h2 ! f) = Some c" using f same2 by simp
    moreover have "native c" using assms(5) map_of_SomeD [OF Some] by auto
    ultimately show ?thesis using con k Some init_target_native by (simp add: native_def)
  qed
  moreover have "lookup h' s k = v" if kv: "map_of (rev vs) k = Some v" for k v
  proof (rule lookup_own)
    have "k \<notin> reserved" using map_of_SomeD [OF kv] assms(6) by auto
    then show "map_of (own (h' ! s)) k = Some v" using kv own2 own_s by (auto simp: reserved_def)
  qed
  moreover have "lookup h' s k = lookup h a k" if k: "k \<notin> {''init'', ''$super''} \<union> fst ` set ms \<union> fst ` set vs" for k
  proof -
    have "map_of ms k = None" using k by (simp add: map_of_eq_None_iff image_image)
    then have "map_of (own (h' ! s)) k = None" using k methods1 [of k] novs [of k] own2 own_s by (simp add: map_add_def)
    then have "lookup h' s k = lookup h' a k" using sub(5) a(1) by (intro lookup_up) (simp_all add: s_def)
    also have "\<dots> = lookup h a k" using old assms(2) by (intro lookup_cong) simp
    finally show ?thesis .
  qed
  moreover have "advance {} h h'" using old res(1,3) len by (intro advance_old) (simp_all add: s_def)
  moreover have "map_of (own (h' ! s)) ''init'' = Some (ObjV g)" "home h' g s" "length h \<le> s"
    using own_s sub(2) len by (simp_all add: home_def s_def)
  ultimately show ?thesis using run res gl by blast
qed

text \<open>An empty extension: an object with nothing of its own but the links.\<close>

lemma extend_spec_empty:
  assumes "crypto_ok h" and "a < length h" and "inherits h a"
  shows "\<exists>h' x. call_extend a None h = Some (h', x) \<and> advance {} h h' \<and> length h \<le> x \<and> cloneable h' x \<and>
    constructor_of h' x = constructor_of h a \<and> (\<forall>k. k \<notin> {''init'', ''$super''} \<longrightarrow> lookup h' x k = lookup h a k)"
proof -
  have ok: "heap_ok h" using assms(1) by (simp add: crypto_ok_def)
  have o: "override_ok h None" by (simp add: override_ok_def)
  obtain h' g where ex: "call_extend a None h = Some (h', length h)" "extended h a None h' g"
    using call_extend_ok [OF assms o] by blast
  have k: "\<not> keeps_init h a None" by (simp add: keeps_init_def overriding_def)
  note def = extended_default [OF ex(2) k] and sub = extended_subtype [OF ex(2)]
  note res = extended_crypto_ok [OF ex(2) assms o default_fresh [OF ex(2) k ok]]
  have old: "h' ! b = h ! b" if "b < length h" for b using that sub(1) def(2) by simp
  have own_x: "map_of (own (h' ! length h)) = [''init'' \<mapsto> ObjV g, ''$super'' \<mapsto> ObjV a]"
    using sub(3) by (simp add: overriding_def)
  then have "lookup h' (length h) ''init'' = ObjV g" by (intro lookup_own) simp
  then have "cloneable h' (length h)" using res(2) sub(2) def(1,2) by (auto simp: cloneable_def home_def)
  moreover have "lookup h' (length h) k = lookup h a k" if "k \<notin> {''init'', ''$super''}" for k
  proof -
    have "lookup h' (length h) k = lookup h' a k" using that own_x sub(5) assms(2) by (intro lookup_up) auto
    then show ?thesis using old assms(2) lookup_cong [of a h' k h] by simp
  qed
  moreover have "constructor_of h' (length h) = constructor_of h a"
    using extended_constructor [OF ex(2) ok assms(2) o inherits_init [OF ok assms(2,3)]] k by simp
  moreover have "advance {} h h'" using old res(1) def(1) by (intro advance_old) simp_all
  ultimately show ?thesis using ex(1) by blast
qed

text \<open>The classes a hasher for MD5 needs.\<close>

definition md5_loaded :: "heap \<Rightarrow> classes \<Rightarrow> bool" where
  "md5_loaded h cl \<longleftrightarrow> crypto_ok h \<and> word_class h cl \<and> MD5_class cl < length h \<and> inherits h (MD5_class cl) \<and>
     constructor_of h (MD5_class cl) = Some (Some HasherInit) \<and>
     (\<exists>c < length h. lookup h (MD5_class cl) ''cfg'' = ObjV c \<and> inherits h c)"

lemma advance_lookup_old: "advance {} h h' \<Longrightarrow> a < length h \<Longrightarrow> lookup h' a k = lookup h a k"
  by (rule lookup_cong) (simp add: advance_same)

lemma advance_constructor:
  assumes "crypto_ok h" and "advance {} h h'" and "a < length h" and "inherits h a"
  shows "constructor_of h' a = constructor_of h a"
  using assms inherits_init [OF _ assms(3,4)]
  by (intro constructor_cong) (simp_all add: crypto_ok_def same_inits_def advance_same)

lemma md5_loaded_advance: "md5_loaded h cl \<Longrightarrow> advance {} h h' \<Longrightarrow> md5_loaded h' cl"
  using advance_length [of "{}" h h'] advance_ok [of "{}" h h']
  by (fastforce simp: md5_loaded_def advance_word_class advance_inherits advance_lookup_old advance_constructor)

lemma base_methods_ok: "crypto_ok base_heap" "inherits base_heap 0" "literal base_methods [] = (base_heap, 0)"
  using base_heap_ok by (simp_all add: base_heap_def literal_def alloc_def)

lemma load_classes:
  obtains h cl where "load_crypto = Some (h, cl)" and "md5_loaded h cl"
    and "constructor_of h (WordArray cl) = Some (Some WordArrayInit)"
proof -
  define b where "b = (0 :: addr)"
  have 0: "crypto_ok base_heap" "b < length base_heap" "inherits base_heap b"
    using base_heap_ok by (simp_all add: b_def base_heap_eq)
  have m: "\<forall>(k, c) \<in> set word_array_methods. native c \<and> k \<notin> {''$super'', ''prototype'', ''extend''}"
    "\<forall>(k, c) \<in> set buffered_methods. native c \<and> k \<notin> {''$super'', ''prototype'', ''extend''}"
    "\<forall>(k, c) \<in> set hasher_methods. native c \<and> k \<notin> {''$super'', ''prototype'', ''extend''}"
    "\<forall>(k, c) \<in> set md5_methods. native c \<and> k \<notin> {''$super'', ''prototype'', ''extend''}"
    "distinct (map fst word_array_methods)" "distinct (map fst buffered_methods)" "distinct (map fst hasher_methods)"
    "distinct (map fst md5_methods)"
    by (simp_all add: word_array_methods_def buffered_methods_def hasher_methods_def md5_methods_def native_def)
  obtain h1 w f1 where 1: "derive_class b word_array_methods [] base_heap = Some (h1, w)" "advance {} base_heap h1"
    "w < length h1" "inherits h1 w" "f1 < length h1" "map_of (own (h1 ! w)) ''init'' = Some (ObjV f1)" "home h1 f1 w"
    "constructor_of h1 w = Some (Some WordArrayInit)"
    using derive_class_spec [OF 0 m(5,1), of "[]"] by (auto simp: word_array_methods_def)
  have v: "\<forall>(k, v) \<in> set [(''_minBufferSize'', NumV 0)]. k \<notin> reserved" by (simp add: reserved_def)
  have b1: "b < length h1" "inherits h1 b" using 0 1(2) advance_length [OF 1(2)] by (simp_all add: advance_inherits)
  obtain h2 u where 2: "derive_class b buffered_methods [(''_minBufferSize'', NumV 0)] h1 = Some (h2, u)" "advance {} h1 h2"
    "u < length h2" "inherits h2 u"
    using derive_class_spec [OF advance_ok [OF 1(2)] b1 m(6,2) v] by blast
  have b2: "b < length h2" "inherits h2 b" using b1 2(2) advance_length [OF 2(2)] by (simp_all add: advance_inherits)
  obtain h3 c where 3: "call_extend b None h2 = Some (h3, c)" "advance {} h2 h3" "cloneable h3 c"
    using extend_spec_empty [OF advance_ok [OF 2(2)] b2] by blast
  have u3: "u < length h3" "inherits h3 u" using 2(3,4) 3(2) advance_length [OF 3(2)] by (simp_all add: advance_inherits)
  have v': "\<forall>(k, v) \<in> set [(''cfg'', ObjV c), (''blockSize'', NumV 16)]. k \<notin> reserved" by (simp add: reserved_def)
  obtain h4 k where 4: "derive_class u hasher_methods [(''cfg'', ObjV c), (''blockSize'', NumV 16)] h3 = Some (h4, k)"
    "advance {} h3 h4" "k < length h4" "inherits h4 k" "constructor_of h4 k = Some (Some HasherInit)" "lookup h4 k ''cfg'' = ObjV c"
    using derive_class_spec [OF advance_ok [OF 3(2)] u3 m(7,3) v'] by (auto simp: hasher_methods_def)
  obtain h5 d where 5: "derive_class k md5_methods [] h4 = Some (h5, d)" "advance {} h4 h5" "d < length h5" "inherits h5 d"
    "constructor_of h5 d = constructor_of h4 k" "lookup h5 d ''cfg'' = lookup h4 k ''cfg''"
    using derive_class_spec [OF advance_ok [OF 4(2)] 4(3,4) m(8,4), of "[]"] by (auto simp: md5_methods_def)
  let ?cl = "\<lparr>Base = b, WordArray = w, BufferedBlockAlgorithm = u, Hasher_class = k, MD5_class = d\<rparr>"
  have to5: "advance {} h1 h5" "advance {} h3 h5"
    using advance_fresh [OF advance_fresh [OF 2(2) 3(2)] advance_trans [OF 4(2) 5(2)]] advance_trans [OF 4(2) 5(2)] by simp_all
  have "word_class h1 ?cl" using 1 by (auto simp: word_class_def)
  then have "word_class h5 ?cl" by (rule advance_word_class [OF to5(1)])
  moreover have "c < length h5" "inherits h5 c"
    using 3(3) to5(2) advance_length [OF to5(2)] by (simp_all add: cloneable_def advance_inherits)
  ultimately have "md5_loaded h5 ?cl"
    using 5 4(5,6) advance_ok [OF 5(2)] by (simp add: md5_loaded_def)
  moreover have "constructor_of h5 w = Some (Some WordArrayInit)"
    using advance_constructor [OF advance_ok [OF 1(2)] to5(1) 1(3,4)] 1(8) by simp
  moreover have "load_crypto = Some (h5, ?cl)"
    unfolding load_crypto_def base_methods_ok(3) using 1(1) 2(1) 3(1) 4(1) 5(1) by (simp add: b_def)
  ultimately show ?thesis using that by simp
qed

end
