(* ===== verification/Crypto_Sharing.thy ===== *)
theory Crypto_Sharing
  imports Crypto_Load
begin

text \<open>
  A hasher and its clone: created, updated and cloned, the two are then updated in any interleaving, and
  each computes the digest of its own messages only.
\<close>

subsection \<open>A new hasher\<close>

lemma md5_reset_rep:
  assumes "crypto_ok h" and "word_class h cl" and "cloneable h x"
  shows "\<exists>h' A. md5_reset cl x h = Some (h') \<and> advance {x} h h' \<and> hasher_rep h' x A create_md5 \<and> hasher_cloneable h' x A \<and>
    (\<forall>b \<in> parts x A - {x}. length h \<le> b)"
proof -
  have x: "x < length h" using assms(3) by (simp add: cloneable_def)
  obtain h1 d r where 1: "new_empty cl None h = Some (h1, d)" "advance {} h h1" "words_rep h1 d r (init_words [] None)"
    "length h \<le> d" "length h \<le> r" "cloneable h1 d"
    using new_empty_rep [OF assms(1,2), of None] by auto
  define h2 where "h2 = set_own x ''_nDataBytes'' (NumV 0) (set_own x ''_data'' (ObjV d) h1)"
  have x1: "x < length h1" using x advance_length [OF 1(2)] by simp
  note a = advance_assign [OF advance_ok [OF 1(2)] x1 not_reserved(3), of "ObjV d"]
  have "advance {x} h1 h2" unfolding h2_def using x1
    by (intro advance_trans [OF a advance_assign [OF advance_ok [OF a]]]) (simp_all add: not_reserved)
  then have 2: "advance {x} h h2" by (intro advance_trans [OF advance_mono [OF 1(2)]]) auto
  have l2: "length h2 = length h1" by (simp add: h2_def)
  obtain h3 q t where 3: "new_words cl doReset None h2 = Some (h3, q)" "advance {} h2 h3" "words_rep h3 q t (init_words doReset None)"
    "length h2 \<le> q" "length h2 \<le> t" "cloneable h3 q"
    using new_words_rep [OF advance_ok [OF 2] advance_word_class [OF 2 assms(2)], of None doReset] by auto
  define h4 where "h4 = set_own x ''_hash'' (ObjV q) h3"
  have x3: "x < length h3" using x1 l2 advance_length [OF 3(2)] by simp
  have 4: "advance {x} h3 h4" unfolding h4_def using x3 by (intro advance_assign advance_ok [OF 3(2)]) (simp_all add: not_reserved)
  have run: "md5_reset cl x h = Some h4" using 1(1) 3(1) by (simp add: md5_reset_def h2_def h4_def)
  have "words_rep h2 d r (init_words [] None)" unfolding h2_def using 1(3) x1 by (auto intro!: words_rep_assign)
  then have "words_rep h3 d r (init_words [] None)" by (rule words_rep_frame [OF _ 3(2)]) simp_all
  then have ws: "words_rep h4 d r (init_words [] None)" "words_rep h4 q t (init_words doReset None)"
    using 3(3) x3 unfolding h4_def by (auto intro!: words_rep_assign)
  have "map_of (own (h3 ! x)) k = map_of (own (h2 ! x)) k" for k using advance_same [OF 3(2), of x] x1 l2 by simp
  then have "map_of (own (h4 ! x)) ''_data'' = Some (ObjV d)" "map_of (own (h4 ! x)) ''_hash'' = Some (ObjV q)"
    "map_of (own (h4 ! x)) ''_nDataBytes'' = Some (NumV 0)"
    using x1 x3 by (simp_all add: h4_def own_assign) (simp_all add: h2_def own_assign)
  moreover have "d < length h1" "r < length h1" "d \<noteq> r" "q \<noteq> t" using 1(3) 3(3) by (simp_all add: words_rep_def)
  moreover have "init_words doReset None = \<lparr>wds = doReset, sigBytes = 16\<rparr>" by (simp add: init_words_def doReset_def)
  ultimately have "hasher_rep h4 x (d, r, q, t) create_md5"
    using ws x x3 1(4,5) 3(4,5) l2 by (auto simp: hasher_rep_def create_md5_def reset_hasher_def h4_def)
  moreover have "advance {x} h h4" by (rule advance_trans [OF advance_trans [OF 2 3(2)] 4]) simp_all
  moreover from this have "cloneable h4 x" using assms(3) advance_cloneable by blast
  moreover have "cloneable h2 d" unfolding h2_def
    using advance_cloneable [OF \<open>advance {x} h1 h2\<close> 1(6)] by (simp add: h2_def)
  then have "cloneable h4 d" "cloneable h4 q"
    using advance_cloneable [OF 4] advance_cloneable [OF 3(2)] 3(6) by blast+
  moreover have "\<forall>b \<in> parts x (d, r, q, t) - {x}. length h \<le> b"
    using 1(4,5) 3(4,5) l2 advance_length [OF 1(2)] by (auto simp: parts_def)
  ultimately show ?thesis using run by (auto simp: hasher_cloneable_def)
qed

lemma md5_create_rep:
  assumes "md5_loaded h cl"
  shows "\<exists>h' x A. md5_create cl h = Some (h', x) \<and> advance {} h h' \<and> hasher_rep h' x A create_md5 \<and> hasher_cloneable h' x A \<and>
    (\<forall>b \<in> parts x A. length h \<le> b)"
proof -
  obtain c where c: "c < length h" "lookup h (MD5_class cl) ''cfg'' = ObjV c" "inherits h c"
    and ok: "crypto_ok h" and m: "MD5_class cl < length h" "inherits h (MD5_class cl)"
    and wc: "word_class h cl" and con: "constructor_of h (MD5_class cl) = Some (Some HasherInit)"
    using assms by (auto simp: md5_loaded_def)
  obtain h1 x where 1: "call_extend (MD5_class cl) None h = Some (h1, x)" "advance {} h h1" "length h \<le> x" "cloneable h1 x"
    "constructor_of h1 x = Some (Some HasherInit)" "lookup h1 x ''cfg'' = ObjV c"
    using extend_spec_empty [OF ok m] con c(2) by auto
  obtain f where f: "lookup h1 x ''init'' = ObjV f" using 1(4) by (auto simp: cloneable_def)
  then have t: "init_target h1 f = Some (Some HasherInit)" using 1(5) by (simp add: constructor_of_def)
  have c1: "c < length h1" "inherits h1 c" using c advance_length [OF 1(2)] 1(2) by (simp_all add: advance_inherits)
  obtain h2 c' where 2: "call_extend c None h1 = Some (h2, c')" "advance {} h1 h2"
    using extend_spec_empty [OF advance_ok [OF 1(2)] c1] by blast
  have x2: "x < length h2" using 1(4) advance_length [OF 2(2)] by (simp add: cloneable_def)
  define h3 where "h3 = set_own x ''cfg'' (ObjV c') h2"
  have 3: "advance {x} h2 h3" unfolding h3_def using x2 by (intro advance_assign advance_ok [OF 2(2)]) (simp_all add: not_reserved)
  have 03: "advance {} h h3" by (rule advance_fresh [OF advance_fresh [OF 1(2) 2(2)] 3]) (simp_all add: 1(3))
  have "cloneable h3 x" using advance_cloneable [OF 3 advance_cloneable [OF 2(2) 1(4)]] .
  then obtain h4 A where 4: "md5_reset cl x h3 = Some h4" "advance {x} h3 h4" "hasher_rep h4 x A create_md5" "hasher_cloneable h4 x A"
    "\<forall>b \<in> parts x A - {x}. length h3 \<le> b"
    using md5_reset_rep [OF advance_ok [OF 03] advance_word_class [OF 03 wc]] by blast
  have "md5_create cl h = Some (h4, x)"
    using 1(1,6) f t 2(1) 4(1) by (simp add: md5_create_def ref_at_def hasher_init_def h3_def)
  moreover have "advance {} h h4" by (rule advance_fresh [OF 03 4(2)]) (simp add: 1(3))
  moreover have "\<forall>b \<in> parts x A. length h \<le> b" using 4(5) 1(3) advance_length [OF 03] by (metis Diff_iff le_trans singletonD)
  ultimately show ?thesis using 4(3,4) by blast
qed

subsection \<open>What a hasher of the store has been given\<close>

definition hashes :: "(rat \<Rightarrow> rat) \<Rightarrow> heap \<Rightarrow> addr \<Rightarrow> addr \<times> addr \<times> addr \<times> addr \<Rightarrow> byte list \<Rightarrow> bool" where
  "hashes sine h x A bs \<longleftrightarrow> (\<exists>g p r. hasher_rep h x A g \<and> md5.absorbed sine rfc_init g p r \<and> p @ r = bs)"

lemma hashes_frame: "hashes sine h x A bs \<Longrightarrow> advance M h h' \<Longrightarrow> parts x A \<inter> M = {} \<Longrightarrow> hashes sine h' x A bs"
  unfolding hashes_def using hasher_rep_frame by blast

lemma update_hashes:
  assumes "advance {} h0 h" and "word_class h0 cl" and "hashes sine h x A bs" and "\<forall>b \<in> parts x A. length h0 \<le> b"
    and "bytes_at h0 m ds"
  shows "\<exists>h'. update_object cl (doProcessBlock sine) x m h = Some h' \<and> advance {} h0 h' \<and> advance (parts x A) h h' \<and>
    hashes sine h' x A (bs @ ds)"
proof -
  obtain g p r where g: "hasher_rep h x A g" "md5.absorbed sine rfc_init g p r" "p @ r = bs"
    using assms(3) by (auto simp: hashes_def)
  obtain u a where a: "words_rep h0 m u a" "holds a ds" using assms(5) by (auto simp: bytes_at_def)
  then have "m < length h0" "u < length h0" by (simp_all add: words_rep_def)
  then have "{m, u} \<inter> parts x A = {}" using assms(4) by auto
  moreover have "words_rep h m u a" by (rule words_rep_frame [OF a(1) assms(1)]) simp_all
  ultimately obtain h' where h': "update_object cl (doProcessBlock sine) x m h = Some h'" "advance (parts x A) h h'"
    "hasher_rep h' x A (update_hasher (doProcessBlock sine) a g)"
    using update_object_rep [OF advance_ok [OF assms(1)] advance_word_class [OF assms(1,2)] g(1)] by blast
  obtain p' r' where "md5.absorbed sine rfc_init (update_hasher (doProcessBlock sine) a g) p' r'" "p' @ r' = bs @ ds"
    using md5.absorbed_updates [OF g(2), of "[a]" "[ds]"] a(2) g(3) by auto
  with h'(3) have "hashes sine h' x A (bs @ ds)" unfolding hashes_def by blast
  moreover have "advance {} h0 h'" using assms(4) by (rule advance_fresh [OF assms(1) h'(2)])
  ultimately show ?thesis using h'(1,2) by blast
qed

text \<open>A digest is read off the word array that \<open>finalize\<close> returns.\<close>

definition object_bytes :: "heap \<Rightarrow> addr \<Rightarrow> byte list" where
  "object_bytes h w = (case ref_at h w ''words'' of None \<Rightarrow> []
     | Some r \<Rightarrow> bytes_of \<lparr>wds = elems (h ! r), sigBytes = nat (num_of h w ''sigBytes'')\<rparr>)"

lemma object_bytes_rep: "words_rep h w r a \<Longrightarrow> object_bytes h w = bytes_of a"
  using words_rep_refs [of h w r a] by (cases a) (simp add: object_bytes_def words_rep_def)

lemma finalize_hashes:
  assumes "crypto_ok h" and "word_class h cl" and "hashes sine h x A bs" and "8 * length bs + 64 < 2 ^ 31"
  shows "\<exists>h' q t a. md5_finalize cl sine x None h = Some (h', q) \<and> advance (parts x A) h h' \<and> words_rep h' q t a \<and>
    {q, t} \<subseteq> parts x A \<and> bytes_of a = rfc_md5 sine bs"
proof -
  obtain g p s where g: "hasher_rep h x A g" "md5.absorbed sine rfc_init g p s" "p @ s = bs"
    using assms(3) by (auto simp: hashes_def)
  obtain d r q t where A: "A = (d, r, q, t)" by (cases A)
  have "length (hwords g) = 4" using g(2) by (simp add: md5.absorbed_def)
  then obtain h' where h': "md5_do_finalize cl sine x h = Some (h', q)" "advance {d, r, t} h h'" "words_rep h' q t (doFinalize sine g)"
    using do_finalize_rep [OF assms(1,2)] g(1) A by blast
  moreover have "bytes_of (doFinalize sine g) = rfc_md5 sine bs" using absorbed_digest [OF g(2)] g(3) assms(4) by simp
  moreover have "advance (parts x A) h h'" by (rule advance_mono [OF h'(2)]) (simp add: A parts_def)
  moreover have "{q, t} \<subseteq> parts x A" by (simp add: A parts_def)
  ultimately show ?thesis by (auto simp: md5_finalize_def)
qed

subsection \<open>Two hashers\<close>

text \<open>The messages of a sequence of updates go to the original or to the clone.\<close>

fun update_either :: "classes \<Rightarrow> (rat \<Rightarrow> rat) \<Rightarrow> addr \<Rightarrow> addr \<Rightarrow> (bool \<times> addr) list \<Rightarrow> heap \<Rightarrow> heap option" where
  "update_either cl sine x c [] h = Some h"
| "update_either cl sine x c ((k, m) # ms) h = (case update_object cl (doProcessBlock sine) (if k then c else x) m h of
     None \<Rightarrow> None | Some h' \<Rightarrow> update_either cl sine x c ms h')"

definition sent :: "(addr \<Rightarrow> byte list) \<Rightarrow> bool \<Rightarrow> (bool \<times> addr) list \<Rightarrow> byte list" where
  "sent B k ms = concat (map (\<lambda>(j, m). B m) (filter (\<lambda>(j, m). j = k) ms))"

lemma sent_simps: "sent B k [] = []" "sent B k ((j, m) # ms) = (if j = k then B m else []) @ sent B k ms"
  by (simp_all add: sent_def)

lemma update_either_hashes:
  assumes "advance {} h0 h" and "word_class h0 cl" and "hashes sine h x A bs" and "hashes sine h c C cs"
    and "\<forall>b \<in> parts x A \<union> parts c C. length h0 \<le> b" and "parts x A \<inter> parts c C = {}" and "\<forall>m \<in> snd ` set ms. bytes_at h0 m (B m)"
  shows "\<exists>h'. update_either cl sine x c ms h = Some h' \<and> advance {} h0 h' \<and>
    hashes sine h' x A (bs @ sent B False ms) \<and> hashes sine h' c C (cs @ sent B True ms)"
  using assms(1,3,4,7)
proof (induction ms arbitrary: h bs cs)
  case Nil
  then show ?case by (simp add: sent_simps)
next
  case (Cons km ms)
  obtain k m where km: "km = (k, m)" by fastforce
  have m: "bytes_at h0 m (B m)" "\<forall>m \<in> snd ` set ms. bytes_at h0 m (B m)" using Cons.prems(4) km by auto
  show ?case
  proof (cases k)
    case True
    have old: "\<forall>b \<in> parts c C. length h0 \<le> b" using assms(5) by blast
    obtain h' where h': "update_object cl (doProcessBlock sine) c m h = Some h'" "advance {} h0 h'" "advance (parts c C) h h'"
      "hashes sine h' c C (cs @ B m)"
      using update_hashes [OF Cons.prems(1) assms(2) Cons.prems(3) old m(1)] by blast
    have "hashes sine h' x A bs" by (rule hashes_frame [OF Cons.prems(2) h'(3) assms(6)])
    from Cons.IH [OF h'(2) this h'(4) m(2)] h'(1) True km show ?thesis by (simp add: sent_simps)
  next
    case False
    have old: "\<forall>b \<in> parts x A. length h0 \<le> b" using assms(5) by blast
    obtain h' where h': "update_object cl (doProcessBlock sine) x m h = Some h'" "advance {} h0 h'" "advance (parts x A) h h'"
      "hashes sine h' x A (bs @ B m)"
      using update_hashes [OF Cons.prems(1) assms(2) Cons.prems(2) old m(1)] by blast
    have "hashes sine h' c C cs" using assms(6) by (intro hashes_frame [OF Cons.prems(3) h'(3)]) blast
    from Cons.IH [OF h'(2) h'(4) this m(2)] h'(1) False km show ?thesis by (simp add: sent_simps)
  qed
qed

lemma update_objects_hashes:
  assumes "advance {} h0 h" and "word_class h0 cl" and "hashes sine h x A bs" and "\<forall>b \<in> parts x A. length h0 \<le> b"
    and "hasher_cloneable h x A" and "\<forall>m \<in> set ms. bytes_at h0 m (B m)"
  shows "\<exists>h'. update_objects cl (doProcessBlock sine) x ms h = Some h' \<and> advance {} h0 h' \<and>
    hashes sine h' x A (bs @ concat (map B ms)) \<and> hasher_cloneable h' x A"
  using assms(1,3,5,6)
proof (induction ms arbitrary: h bs)
  case (Cons m ms)
  obtain h' where h': "update_object cl (doProcessBlock sine) x m h = Some h'" "advance {} h0 h'" "advance (parts x A) h h'"
    "hashes sine h' x A (bs @ B m)"
    using update_hashes [OF Cons.prems(1) assms(2) Cons.prems(2) assms(4), of m "B m"] Cons.prems(4) by auto
  from Cons.IH [OF h'(2,4) hasher_cloneable_frame [OF Cons.prems(3) h'(3)]] Cons.prems(4) h'(1) show ?case by simp
qed simp

text \<open>The whole run: the two digests, as the word arrays the two calls of \<open>finalize\<close> return.\<close>

definition clone_run :: "classes \<Rightarrow> (rat \<Rightarrow> rat) \<Rightarrow> addr list \<Rightarrow> (bool \<times> addr) list \<Rightarrow> heap \<Rightarrow> (heap \<times> addr \<times> addr) option" where
  "clone_run cl sine pre ms h =
     (case md5_create cl h of None \<Rightarrow> None | Some (h1, x) \<Rightarrow>
     (case update_objects cl (doProcessBlock sine) x pre h1 of None \<Rightarrow> None | Some h2 \<Rightarrow>
     (case md5_clone x h2 of None \<Rightarrow> None | Some (h3, c) \<Rightarrow>
     (case update_either cl sine x c ms h3 of None \<Rightarrow> None | Some h4 \<Rightarrow>
     (case md5_finalize cl sine c None h4 of None \<Rightarrow> None | Some (h5, p) \<Rightarrow>
     (case md5_finalize cl sine x None h5 of None \<Rightarrow> None | Some (h6, q) \<Rightarrow> Some (h6, p, q)))))))"

text \<open>
  C11. Once the modules are loaded, a hasher and its clone hash independently. The hasher is created and
  updated, then cloned, then the two are updated in any interleaving and finalized: no step fails, and each
  digest is that of RFC 1321 for the messages before the clone followed by those of its own hasher. The
  messages are word arrays made after loading and before the hasher; nothing there was before the run is changed by it.
\<close>

theorem clones_hash_separately:
  assumes "load_crypto = Some (h0, cl)" and "advance {} h0 h" and "\<forall>m \<in> set pre \<union> snd ` set ms. bytes_at h m (B m)"
    and "8 * length (concat (map B pre) @ sent B True ms) + 64 < 2 ^ 31"
    and "8 * length (concat (map B pre) @ sent B False ms) + 64 < 2 ^ 31"
  shows "\<exists>h' p q. clone_run cl sine pre ms h = Some (h', p, q) \<and>
    object_bytes h' p = rfc_md5 sine (concat (map B pre) @ sent B True ms) \<and>
    object_bytes h' q = rfc_md5 sine (concat (map B pre) @ sent B False ms) \<and> (\<forall>b < length h. h' ! b = h ! b)"
proof -
  have l: "md5_loaded h cl" using load_classes assms(1) md5_loaded_advance [OF _ assms(2)] by (metis Pair_inject option.inject)
  then have wc: "word_class h cl" by (simp add: md5_loaded_def)
  obtain h1 x A where 1: "md5_create cl h = Some (h1, x)" "advance {} h h1" "hasher_rep h1 x A create_md5" "hasher_cloneable h1 x A"
    "\<forall>b \<in> parts x A. length h \<le> b" using md5_create_rep [OF l] by blast
  have "hashes sine h1 x A []" using 1(3) absorbed_create [of sine] unfolding hashes_def by blast
  then obtain h2 where 2: "update_objects cl (doProcessBlock sine) x pre h1 = Some h2" "advance {} h h2"
    "hashes sine h2 x A (concat (map B pre))" "hasher_cloneable h2 x A"
    using update_objects_hashes [OF 1(2) wc _ 1(5,4), of sine "[]" pre B] assms(3) by auto
  then obtain g where g: "hasher_rep h2 x A g" "\<exists>p r. md5.absorbed sine rfc_init g p r \<and> p @ r = concat (map B pre)"
    by (auto simp: hashes_def)
  obtain h3 c C where 3: "md5_clone x h2 = Some (h3, c)" "advance {} h2 h3" "hasher_rep h3 c C g" "\<forall>b \<in> parts c C. length h2 \<le> b"
    using md5_clone_rep [OF advance_ok [OF 2(2)] g(1) 2(4)] by blast
  have "\<forall>b \<in> parts x A. b < length h2" using g(1) by (cases A) (auto simp: parts_def hasher_rep_def words_rep_def)
  then have dis: "parts x A \<inter> parts c C = {}" using 3(4) by fastforce
  have old: "\<forall>b \<in> parts x A \<union> parts c C. length h \<le> b" using 1(5) 3(4) advance_length [OF 2(2)] by fastforce
  have a3: "advance {} h h3" by (rule advance_fresh [OF 2(2) 3(2)]) simp
  have "hashes sine h3 x A (concat (map B pre))" by (rule hashes_frame [OF 2(3) 3(2)]) simp
  moreover have "hashes sine h3 c C (concat (map B pre))" using 3(3) g(2) unfolding hashes_def by blast
  ultimately obtain h4 where 4: "update_either cl sine x c ms h3 = Some h4" "advance {} h h4"
    "hashes sine h4 x A (concat (map B pre) @ sent B False ms)" "hashes sine h4 c C (concat (map B pre) @ sent B True ms)"
    using update_either_hashes [OF a3 wc _ _ old dis, where ms = ms and B = B] assms(3) by blast
  obtain h5 p t a where 5: "md5_finalize cl sine c None h4 = Some (h5, p)" "advance (parts c C) h4 h5" "words_rep h5 p t a"
    "{p, t} \<subseteq> parts c C" "bytes_of a = rfc_md5 sine (concat (map B pre) @ sent B True ms)"
    using finalize_hashes [OF advance_ok [OF 4(2)] advance_word_class [OF 4(2) wc] 4(4) assms(4)] by blast
  have a5: "advance {} h h5" using old by (intro advance_fresh [OF 4(2) 5(2)]) blast
  have "hashes sine h5 x A (concat (map B pre) @ sent B False ms)" by (rule hashes_frame [OF 4(3) 5(2) dis])
  then obtain h6 q u b where 6: "md5_finalize cl sine x None h5 = Some (h6, q)" "advance (parts x A) h5 h6" "words_rep h6 q u b"
    "bytes_of b = rfc_md5 sine (concat (map B pre) @ sent B False ms)"
    using finalize_hashes [OF advance_ok [OF a5] advance_word_class [OF a5 wc] _ assms(5)] by blast
  have a6: "advance {} h h6" using old by (intro advance_fresh [OF a5 6(2)]) blast
  have "words_rep h6 p t a" using 5(4) dis by (intro words_rep_frame [OF 5(3) 6(2)]) auto
  then have "object_bytes h6 p = rfc_md5 sine (concat (map B pre) @ sent B True ms)"
    "object_bytes h6 q = rfc_md5 sine (concat (map B pre) @ sent B False ms)"
    using 5(5) 6(3,4) object_bytes_rep by simp_all
  moreover have "clone_run cl sine pre ms h = Some (h6, p, q)"
    using 1(1) 2(1) 3(1) 4(1) 5(1) 6(1) by (simp add: clone_run_def)
  ultimately show ?thesis using advance_same [OF a6] by blast
qed

text \<open>A message of four bytes, made after the modules are loaded.\<close>

lemma sample_message:
  assumes "md5_loaded h cl"
  obtains h' m where "advance {} h h'" and "bytes_at h' m (bytes_of (init_words [0x61626364] None))"
proof -
  have ok: "crypto_ok h" "word_class h cl" using assms by (simp_all add: md5_loaded_def)
  obtain h' m r where "advance {} h h'" "words_rep h' m r (init_words [0x61626364] None)"
    using new_words_rep [OF ok, of None "[0x61626364]"] by auto
  moreover have "holds (init_words [0x61626364] None) (bytes_of (init_words [0x61626364] None))"
    by (auto simp: holds_def bytes_of_def init_words_def wbyte_beyond)
  ultimately show ?thesis using that by (auto simp: bytes_at_def)
qed

theorem clones_hash_separately_witness:
  "\<exists>cl h m h' p q. clone_run cl (\<lambda>x. 1 / x) [m] [(False, m), (True, m), (False, m)] h = Some (h', p, q) \<and>
     object_bytes h' p = rfc_md5 (\<lambda>x. 1 / x) [0x61, 0x62, 0x63, 0x64, 0x61, 0x62, 0x63, 0x64]"
proof -
  obtain h0 cl where l: "load_crypto = Some (h0, cl)" "md5_loaded h0 cl" by (rule load_classes)
  have bs: "bytes_of (init_words [0x61626364] None) = [0x61, 0x62, 0x63, 0x64]" by code_simp
  obtain h m where m: "advance {} h0 h" "bytes_at h m [0x61, 0x62, 0x63, 0x64]" using sample_message [OF l(2)] bs by auto
  have "\<exists>h' p q. clone_run cl (\<lambda>x. 1 / x) [m] [(False, m), (True, m), (False, m)] h = Some (h', p, q) \<and>
      object_bytes h' p = rfc_md5 (\<lambda>x. 1 / x) (concat (map (\<lambda>_. [0x61, 0x62, 0x63, 0x64]) [m]) @ sent (\<lambda>_. [0x61, 0x62, 0x63, 0x64]) True [(False, m), (True, m), (False, m)]) \<and>
      object_bytes h' q = rfc_md5 (\<lambda>x. 1 / x) (concat (map (\<lambda>_. [0x61, 0x62, 0x63, 0x64]) [m]) @ sent (\<lambda>_. [0x61, 0x62, 0x63, 0x64]) False [(False, m), (True, m), (False, m)]) \<and> (\<forall>b < length h. h' ! b = h ! b)"
    by (rule clones_hash_separately [OF l(1) m(1)]) (simp_all add: m(2) sent_simps)
  then show ?thesis by (simp add: sent_simps) blast
qed

end
