(* ===== verification/Utf8.thy ===== *)
theory Utf8
  imports Word_Array
begin

text \<open>
  The UTF-8 encoder of \<open>crypto-js/core.js\<close>. It works on the code units of a JavaScript string and goes
  through the language's \<open>escape\<close>, \<open>unescape\<close>, \<open>encodeURIComponent\<close> and \<open>decodeURIComponent\<close>, which are
  written out here; an exception is \<open>None\<close>.
\<close>

subsection \<open>Code units and code points\<close>

type_synonym js_text = "16 word list"

definition is_lead :: "16 word \<Rightarrow> bool" where
  "is_lead c \<longleftrightarrow> 0xD800 \<le> unat c \<and> unat c < 0xDC00"

definition is_trail :: "16 word \<Rightarrow> bool" where
  "is_trail c \<longleftrightarrow> 0xDC00 \<le> unat c \<and> unat c < 0xE000"

definition pair_value :: "16 word \<Rightarrow> 16 word \<Rightarrow> nat" where
  "pair_value c d = (unat c - 0xD800) * 0x400 + (unat d - 0xDC00) + 0x10000"

definition utf16 :: "nat \<Rightarrow> js_text" where
  "utf16 v = (if v < 0x10000 then [of_nat v]
     else [of_nat (0xD800 + (v - 0x10000) div 0x400), of_nat (0xDC00 + (v - 0x10000) mod 0x400)])"

definition utf8 :: "nat \<Rightarrow> byte list" where
  "utf8 v = map of_nat
     (if v < 0x80 then [v]
      else if v < 0x800 then [0xC0 + v div 64, 0x80 + v mod 64]
      else if v < 0x10000 then [0xE0 + v div 4096, 0x80 + v div 64 mod 64, 0x80 + v mod 64]
      else [0xF0 + v div 262144, 0x80 + v div 4096 mod 64, 0x80 + v div 64 mod 64, 0x80 + v mod 64])"

text \<open>A Unicode scalar value: a code point that is not a surrogate.\<close>

definition scalar :: "nat \<Rightarrow> bool" where
  "scalar v \<longleftrightarrow> v < 0x110000 \<and> \<not> (0xD800 \<le> v \<and> v < 0xE000)"

subsection \<open>Percent signs and hexadecimal digits\<close>

definition alphanumeric :: "nat \<Rightarrow> bool" where
  "alphanumeric n \<longleftrightarrow> 48 \<le> n \<and> n \<le> 57 \<or> 65 \<le> n \<and> n \<le> 90 \<or> 97 \<le> n \<and> n \<le> 122"

text \<open>What \<open>escape\<close> leaves alone: \<open>@*_+-./\<close>; what \<open>encodeURIComponent\<close> leaves alone: \<open>-_.!~*'()\<close>.\<close>

definition escape_plain :: "16 word \<Rightarrow> bool" where
  "escape_plain c \<longleftrightarrow> alphanumeric (unat c) \<or> unat c \<in> set [0x40, 0x2A, 0x5F, 0x2B, 0x2D, 0x2E, 0x2F]"

definition uri_plain :: "16 word \<Rightarrow> bool" where
  "uri_plain c \<longleftrightarrow> alphanumeric (unat c) \<or> unat c \<in> set [0x2D, 0x5F, 0x2E, 0x21, 0x7E, 0x2A, 0x27, 0x28, 0x29]"

definition hex_unit :: "nat \<Rightarrow> 16 word" where
  "hex_unit n = of_nat (if n < 10 then 48 + n else 55 + n)"

definition unit_hex :: "16 word \<Rightarrow> nat option" where
  "unit_hex c = (let n = unat c in
     if 48 \<le> n \<and> n \<le> 57 then Some (n - 48)
     else if 65 \<le> n \<and> n \<le> 70 then Some (n - 55)
     else if 97 \<le> n \<and> n \<le> 102 then Some (n - 87) else None)"

text \<open>The value of the first \<open>n\<close> units as hexadecimal digits.\<close>

fun hex_run :: "nat \<Rightarrow> nat \<Rightarrow> js_text \<Rightarrow> nat option" where
  "hex_run 0 v cs = Some v"
| "hex_run (Suc n) v [] = None"
| "hex_run (Suc n) v (c # cs) = (case unit_hex c of None \<Rightarrow> None | Some d \<Rightarrow> hex_run n (16 * v + d) cs)"

definition percent_byte :: "byte \<Rightarrow> js_text" where
  "percent_byte b = [0x25, hex_unit (unat b div 16), hex_unit (unat b mod 16)]"

subsection \<open>The functions of the language\<close>

definition escape_js :: "js_text \<Rightarrow> js_text" where
  "escape_js s = concat (map (\<lambda>c. if escape_plain c then [c]
     else if unat c < 256 then percent_byte (ucast c)
     else [0x25, 0x75, hex_unit (unat c div 4096), hex_unit (unat c div 256 mod 16),
       hex_unit (unat c div 16 mod 16), hex_unit (unat c mod 16)]) s)"

text \<open>The escape sequence after a percent sign: its value and its length.\<close>

definition escape_at :: "16 word \<Rightarrow> js_text \<Rightarrow> (16 word \<times> nat) option" where
  "escape_at c cs =
     (if c \<noteq> 0x25 then None
      else if cs \<noteq> [] \<and> hd cs = 0x75 then map_option (\<lambda>v. (of_nat v, 5)) (hex_run 4 0 (tl cs))
      else map_option (\<lambda>v. (of_nat v, 2)) (hex_run 2 0 cs))"

function unescape_js :: "js_text \<Rightarrow> js_text" where
  "unescape_js [] = []"
| "unescape_js (c # cs) = (case escape_at c cs of
     Some (u, n) \<Rightarrow> u # unescape_js (drop n cs)
   | None \<Rightarrow> c # unescape_js cs)"
  by pat_completeness auto
termination by (relation "measure length") auto

function encode_uri :: "js_text \<Rightarrow> js_text option" where
  "encode_uri [] = Some []"
| "encode_uri (c # cs) =
     (if uri_plain c then map_option ((#) c) (encode_uri cs)
      else if is_trail c then None
      else if is_lead c then
        (case cs of
           [] \<Rightarrow> None
         | d # ds \<Rightarrow>
             if is_trail d then map_option ((@) (concat (map percent_byte (utf8 (pair_value c d))))) (encode_uri ds)
             else None)
      else map_option ((@) (concat (map percent_byte (utf8 (unat c))))) (encode_uri cs))"
  by pat_completeness auto
termination by (relation "measure length") auto

text \<open>\<open>decodeURIComponent\<close>: the leading ones of the first byte say how many bytes there are.\<close>

definition leading_ones :: "nat \<Rightarrow> nat" where
  "leading_ones b = (if b < 0x80 then 0 else if b < 0xC0 then 1 else if b < 0xE0 then 2 else if b < 0xF0 then 3
     else if b < 0xF8 then 4 else if b < 0xFC then 5 else if b < 0xFE then 6 else if b < 0xFF then 7 else 8)"

fun octets :: "nat \<Rightarrow> js_text \<Rightarrow> nat list option" where
  "octets 0 cs = Some []"
| "octets (Suc k) [] = None"
| "octets (Suc k) (c # cs) =
     (if c \<noteq> 0x25 then None
      else (case hex_run 2 0 cs of
        None \<Rightarrow> None
      | Some b \<Rightarrow> map_option ((#) b) (octets k (drop 2 cs))))"

text \<open>The code point whose UTF-8 form the bytes are, if there is one.\<close>

definition utf8_value :: "nat list \<Rightarrow> nat option" where
  "utf8_value bs =
     (let v = foldl (\<lambda>v b. v * 64 + b mod 64) (hd bs mod 2 ^ (7 - length bs)) (tl bs)
      in if scalar v \<and> utf8 v = map of_nat bs then Some v else None)"

function decode_uri :: "js_text \<Rightarrow> js_text option" where
  "decode_uri [] = Some []"
| "decode_uri (c # cs) =
     (if c \<noteq> 0x25 then map_option ((#) c) (decode_uri cs)
      else (case hex_run 2 0 cs of
        None \<Rightarrow> None
      | Some b \<Rightarrow>
          let n = leading_ones b in
          if n = 0 then map_option ((#) (of_nat b)) (decode_uri (drop 2 cs))
          else if n = 1 \<or> 4 < n then None
          else (case octets (n - 1) (drop 2 cs) of
            None \<Rightarrow> None
          | Some bs \<Rightarrow>
              (case utf8_value (b # bs) of
                 None \<Rightarrow> None
               | Some v \<Rightarrow> map_option ((@) (utf16 v)) (decode_uri (drop (3 * n - 1) cs))))))"
  by pat_completeness auto
termination by (relation "measure length") auto

subsection \<open>The encoder\<close>

text \<open>\<open>Latin1\<close> reads a string by its code units, whose low bytes are characters of Word_Array.\<close>

definition unit_chars :: "js_text \<Rightarrow> string" where
  "unit_chars = map (\<lambda>c. char_of (unat c))"

definition char_units :: "string \<Rightarrow> js_text" where
  "char_units = map of_char"

definition Utf8_stringify :: "word_array \<Rightarrow> js_text option" where
  "Utf8_stringify wordArray = decode_uri (escape_js (char_units (latin1_stringify wordArray)))"

definition Utf8_parse :: "js_text \<Rightarrow> word_array option" where
  "Utf8_parse utf8Str = map_option (\<lambda>t. latin1_parse (unit_chars (unescape_js t))) (encode_uri utf8Str)"

end
