(* ===== verification/Utf8_Props.thy ===== *)
theory Utf8_Props
  imports Utf8 Md5_Props
begin

text \<open>
  The UTF-8 encoder against the Unicode definition: which strings and which bytes it accepts, that it
  reads back what it writes, and the digest of a string.
\<close>

subsection \<open>Code points\<close>

text \<open>The code points of a string, none when a surrogate stands alone.\<close>

function code_points :: "js_text \<Rightarrow> nat list option" where
  "code_points [] = Some []"
| "code_points (c # cs) =
     (if is_trail c then None
      else if is_lead c then
        (case cs of
           [] \<Rightarrow> None
         | d # ds \<Rightarrow> if is_trail d then map_option ((#) (pair_value c d)) (code_points ds) else None)
      else map_option ((#) (unat c)) (code_points cs))"
  by pat_completeness auto
termination by (relation "measure length") auto

lemma unat_unit: "n < 0x10000 \<Longrightarrow> unat (of_nat n :: 16 word) = n"
  by (simp add: unat_of_nat take_bit_nat_eq_self)

lemma unat_octet: "n < 0x100 \<Longrightarrow> unat (of_nat n :: byte) = n"
  by (simp add: unat_of_nat take_bit_nat_eq_self)

lemma unat_surrogate:
  "n < 0x400 \<Longrightarrow> unat (0xD800 + of_nat n :: 16 word) = 0xD800 + n"
  "n < 0x400 \<Longrightarrow> unat (0xDC00 + of_nat n :: 16 word) = 0xDC00 + n"
  using unat_unit [of "0xD800 + n"] unat_unit [of "0xDC00 + n"] by simp_all

lemma unit_bound: "unat (c :: 16 word) < 0x10000"
  using unsigned_less [of c, where ?'a = nat] by simp

lemma unit_eq_iff: "(c :: 16 word) = d \<longleftrightarrow> unat c = unat d"
  by (simp add: word_eq_iff_unsigned)

lemma pair_parts:
  assumes "is_lead c" and "is_trail d"
  shows "utf16 (pair_value c d) = [c, d]" and "scalar (pair_value c d)"
proof -
  have c: "0xD800 \<le> unat c" "unat c < 0xDC00" and d: "0xDC00 \<le> unat d" "unat d < 0xE000"
    using assms by (simp_all add: is_lead_def is_trail_def)
  define a b where "a = unat c - 0xD800" and "b = unat d - 0xDC00"
  have ab: "unat c = 0xD800 + a" "unat d = 0xDC00 + b" "a < 0x400" "b < 0x400"
    using c d by (simp_all add: a_def b_def)
  have v: "pair_value c d = a * 0x400 + b + 0x10000" by (simp add: pair_value_def a_def b_def)
  then have "(pair_value c d - 0x10000) div 0x400 = a" "(pair_value c d - 0x10000) mod 0x400 = b"
    using ab(4) by simp_all
  then show "utf16 (pair_value c d) = [c, d]"
    using ab v by (simp add: utf16_def unit_eq_iff unat_surrogate)
  show "scalar (pair_value c d)" using v ab by (simp add: scalar_def)
qed

lemma single_unit: "\<not> is_lead c \<Longrightarrow> \<not> is_trail c \<Longrightarrow> utf16 (unat c) = [c] \<and> scalar (unat c)"
  using unit_bound [of c] by (auto simp: utf16_def scalar_def is_lead_def is_trail_def unit_eq_iff unat_unit)

lemma code_points_sound: "code_points s = Some cps \<Longrightarrow> list_all scalar cps \<and> concat (map utf16 cps) = s"
proof (induction s arbitrary: cps rule: code_points.induct)
  case (2 c cs)
  then show ?case
    by (cases cs) (auto simp: pair_parts single_unit split: if_splits)
qed simp

lemma utf16_cases:
  assumes "scalar v"
  shows "(\<exists>c. utf16 v = [c] \<and> unat c = v \<and> \<not> is_lead c \<and> \<not> is_trail c) \<or>
    (\<exists>c d. utf16 v = [c, d] \<and> pair_value c d = v \<and> is_lead c \<and> is_trail d)"
proof (cases "v < 0x10000")
  case True
  with assms show ?thesis by (simp add: utf16_def unat_unit is_lead_def is_trail_def scalar_def) arith
next
  case False
  define w where "w = v - 0x10000"
  have w: "v = w + 0x10000" "w < 0x100000" using False assms by (simp_all add: w_def scalar_def)
  then have "w div 0x400 < 0x400" by simp
  then show ?thesis using w
    by (simp add: utf16_def unat_surrogate is_lead_def is_trail_def pair_value_def)
qed

lemma code_points_utf16:
  "scalar v \<Longrightarrow> code_points (utf16 v @ s) = map_option ((#) v) (code_points s)"
  using utf16_cases [of v] by (auto simp: is_lead_def is_trail_def)

lemma code_points_complete: "list_all scalar cps \<Longrightarrow> code_points (concat (map utf16 cps)) = Some cps"
  by (induction cps) (simp_all add: code_points_utf16)

lemma code_points_iff: "code_points s = Some cps \<longleftrightarrow> list_all scalar cps \<and> concat (map utf16 cps) = s"
  using code_points_sound code_points_complete by blast

subsection \<open>Percent encoding\<close>

lemma byte_lt: "unat (b :: byte) < 256"
  using unsigned_less [of b, where ?'a = nat] by simp

lemma unit_hex_unit: "n < 16 \<Longrightarrow> unit_hex (hex_unit n) = Some n"
  by (simp add: unit_hex_def hex_unit_def unat_unit)

lemma hex_run_percent: "hex_run 2 0 (hex_unit (unat b div 16) # hex_unit (unat (b :: byte) mod 16) # cs) = Some (unat b)"
  using byte_lt [of b] by (simp add: numeral_2_eq_2 unit_hex_unit)

lemma hex_unit_letter: "n < 16 \<Longrightarrow> hex_unit n \<noteq> 0x75 \<and> hex_unit n \<noteq> 0x25"
  by (simp add: unit_eq_iff hex_unit_def unat_unit)

lemma unescape_plain: "c \<noteq> 0x25 \<Longrightarrow> unescape_js (c # cs) = c # unescape_js cs"
  by (simp add: escape_at_def)

lemma unescape_percent: "unescape_js (percent_byte b @ cs) = ucast b # unescape_js cs"
  using byte_lt [of b] hex_run_percent [of b cs] hex_unit_letter [of "unat b div 16"]
  by (simp add: percent_byte_def escape_at_def)

lemma unescape_percents: "unescape_js (concat (map percent_byte bs) @ cs) = map ucast bs @ unescape_js cs"
  by (induction bs) (simp_all add: unescape_percent)

text \<open>The form of a code point in a URI component.\<close>

definition uri_form :: "nat \<Rightarrow> js_text" where
  "uri_form v = (if v < 0x80 \<and> uri_plain (of_nat v) then [of_nat v] else concat (map percent_byte (utf8 v)))"

lemma uri_plain_ascii: "uri_plain c \<Longrightarrow> unat c < 0x80 \<and> c \<noteq> 0x25 \<and> \<not> is_lead c \<and> \<not> is_trail c"
  by (auto simp: uri_plain_def alphanumeric_def is_lead_def is_trail_def unit_eq_iff)

lemma uri_form_plain: "uri_plain c \<Longrightarrow> uri_form (unat c) = [c]"
  using uri_plain_ascii [of c] by (simp add: uri_form_def)

lemma uri_form_other: "\<not> uri_plain c \<Longrightarrow> uri_form (unat c) = concat (map percent_byte (utf8 (unat c)))"
  by (simp add: uri_form_def)

lemma uri_form_pair: "is_lead c \<Longrightarrow> is_trail d \<Longrightarrow>
    uri_form (pair_value c d) = concat (map percent_byte (utf8 (pair_value c d)))"
  by (simp add: uri_form_def pair_value_def)

lemma encode_uri_form: "encode_uri s = map_option (\<lambda>cps. concat (map uri_form cps)) (code_points s)"
proof (induction s rule: encode_uri.induct)
  case (2 c cs)
  show ?case
  proof (cases "uri_plain c")
    case True
    then show ?thesis using 2(1) uri_plain_ascii [of c]
      by (auto simp: uri_form_plain option.map_comp comp_def)
  next
    case False
    then show ?thesis using 2
      by (cases cs) (auto simp: uri_form_other uri_form_pair option.map_comp comp_def)
  qed
qed simp

lemma unescape_form: "unescape_js (uri_form v @ cs) = map ucast (utf8 v) @ unescape_js cs"
proof (cases "v < 0x80 \<and> uri_plain (of_nat v)")
  case True
  then have "(of_nat v :: 16 word) \<noteq> 0x25" using uri_plain_ascii by blast
  moreover have "ucast (of_nat v :: byte) = (of_nat v :: 16 word)"
    using True by (simp add: unit_eq_iff unat_unit unat_octet unsigned_ucast_eq take_bit_nat_eq_self)
  ultimately show ?thesis using True
    by (simp add: uri_form_def unescape_plain utf8_def del: unescape_js.simps)
next
  case False
  then have "uri_form v = concat (map percent_byte (utf8 v))" by (auto simp: uri_form_def)
  then show ?thesis by (simp add: unescape_percents)
qed

lemma unescape_forms: "unescape_js (concat (map uri_form cps)) = map ucast (concat (map utf8 cps))"
  by (induction cps) (simp_all add: unescape_form)

lemma unat_wide: "unat (ucast (b :: byte) :: 16 word) = unat b"
  using byte_lt [of b] by (simp add: unsigned_ucast_eq take_bit_nat_eq_self)

lemma ucast_wide: "ucast (ucast (b :: byte) :: 16 word) = b"
  by (simp add: word_eq_iff_unsigned unsigned_ucast_eq) (simp add: take_bit_word_beyond_length_eq)

text \<open>The strings and the bytes on either side of \<open>Latin1\<close>.\<close>

lemma char_units_bytes: "char_units (latin1_stringify a) = map ucast (bytes_of a)"
proof -
  have "(of_char (char_of (unat b)) :: 16 word) = ucast b" for b :: byte
  proof -
    have "(of_char (char_of (unat b)) :: 16 word) = of_nat (of_char (char_of (unat b)))" by (simp only: of_nat_of_char)
    also have "\<dots> = of_nat (unat b)" using byte_lt [of b] by simp
    finally show ?thesis using byte_lt [of b] by (simp add: unit_eq_iff unat_wide unat_unit)
  qed
  then show ?thesis by (simp add: char_units_def latin1_bytes)
qed

lemma latin1_units: "holds (latin1_parse (unit_chars (map ucast bs))) bs"
proof -
  have "map (\<lambda>c. of_nat (of_char c) :: byte) (unit_chars (map ucast bs)) = bs"
    by (auto simp: unit_chars_def unat_wide byte_lt intro!: nth_equalityI)
  then show ?thesis using latin1_parse_bytes [of "unit_chars (map ucast bs)"] by simp
qed

subsection \<open>Decoding\<close>

definition escape_form :: "byte \<Rightarrow> js_text" where
  "escape_form b = (if escape_plain (ucast b) then [ucast b] else percent_byte b)"

lemma escape_bytes: "escape_js (map ucast bs) = concat (map escape_form bs)"
  by (induction bs) (simp_all add: escape_js_def escape_form_def unat_wide byte_lt ucast_wide)

lemma escape_plain_ascii: "escape_plain (ucast (b :: byte)) \<Longrightarrow> unat b < 0x80 \<and> (ucast b :: 16 word) \<noteq> 0x25"
  by (auto simp: escape_plain_def alphanumeric_def unit_eq_iff unat_wide)

lemma escape_high: "0x80 \<le> unat b \<Longrightarrow> escape_form b = percent_byte b"
  using escape_plain_ascii [of b] by (auto simp: escape_form_def)

lemma decode_ascii: "unat b < 0x80 \<Longrightarrow> decode_uri (escape_form b @ cs) = map_option ((#) (ucast b)) (decode_uri cs)"
  using escape_plain_ascii [of b] hex_run_percent [of b cs]
  by (auto simp: escape_form_def percent_byte_def leading_ones_def unit_eq_iff unat_wide unat_unit)

lemma percent_split: "\<exists>h l. percent_byte b = [0x25, h, l] \<and> (\<forall>cs. hex_run 2 0 (h # l # cs) = Some (unat b))"
  using hex_run_percent [of b] by (simp add: percent_byte_def)

lemma octets_percent: "octets (length bs) (concat (map percent_byte bs) @ cs) = Some (map unat bs)"
proof (induction bs)
  case (Cons b bs)
  then show ?case using percent_split [of b] by auto
qed simp

lemma length_percents: "length (concat (map percent_byte bs)) = 3 * length bs"
  by (induction bs) (simp_all add: percent_byte_def)

lemma octets_escaped:
  "octets k (concat (map escape_form bs)) = Some os \<Longrightarrow>
    k \<le> length bs \<and> os = map unat (take k bs) \<and>
    drop (3 * k) (concat (map escape_form bs)) = concat (map escape_form (drop k bs))"
proof (induction bs arbitrary: k os)
  case Nil
  then show ?case by (cases k) auto
next
  case (Cons b bs)
  show ?case
  proof (cases k)
    case (Suc j)
    then have "\<not> escape_plain (ucast b)"
      using Cons.prems escape_plain_ascii [of b] by (auto simp: escape_form_def)
    then obtain h l where p: "escape_form b = [0x25, h, l]" "\<And>cs. hex_run 2 0 (h # l # cs) = Some (unat b)"
      using percent_split [of b] by (auto simp: escape_form_def)
    then obtain os' where "octets j (concat (map escape_form bs)) = Some os'" "os = unat b # os'"
      using Cons.prems Suc by auto
    moreover have "drop (3 * Suc j) (x # y # z # xs) = drop (3 * j) xs" for x y z :: "16 word" and xs
      by (simp add: numeral_3_eq_3)
    ultimately show ?thesis using Cons.IH [of j os'] Suc p by simp
  qed (use Cons.prems in auto)
qed

text \<open>The numbers of a code point's bytes.\<close>

definition utf8_numbers :: "nat \<Rightarrow> nat list" where
  "utf8_numbers v =
     (if v < 0x80 then [v]
      else if v < 0x800 then [0xC0 + v div 64, 0x80 + v mod 64]
      else if v < 0x10000 then [0xE0 + v div 4096, 0x80 + v div 64 mod 64, 0x80 + v mod 64]
      else [0xF0 + v div 262144, 0x80 + v div 4096 mod 64, 0x80 + v div 64 mod 64, 0x80 + v mod 64])"

lemma utf8_numbers: "utf8 v = map of_nat (utf8_numbers v)"
  by (simp add: utf8_def utf8_numbers_def)

lemma utf8_numbers_high:
  assumes "0x80 \<le> v" and "v < 0x110000"
  shows "(\<forall>n \<in> set (utf8_numbers v). 0x80 \<le> n \<and> n < 256) \<and>
    leading_ones (hd (utf8_numbers v)) = length (utf8_numbers v) \<and>
    2 \<le> length (utf8_numbers v) \<and> length (utf8_numbers v) \<le> 4 \<and>
    foldl (\<lambda>v b. v * 64 + b mod 64) (hd (utf8_numbers v) mod 2 ^ (7 - length (utf8_numbers v))) (tl (utf8_numbers v)) = v"
proof -
  have "(0x80 + w) mod 64 = w mod 64" for w :: nat using mod_mult_self4 [of 64 2 w] by simp
  then have m: "(0x80 + w mod 64) mod 64 = w mod 64" for w :: nat by simp
  have w: "v div 64 * 64 + v mod 64 = v" "v div 4096 * 64 + v div 64 mod 64 = v div 64"
    "v div 262144 * 64 + v div 4096 mod 64 = v div 4096"
    using div_mod_decomp [of v 64] div_mod_decomp [of "v div 64" 64] div_mod_decomp [of "v div 4096" 64]
    by (simp_all add: div_mult2_eq [symmetric])
  have lt: "w mod 64 < 128" for w :: nat by (rule less_trans [of _ 64]) simp_all
  consider "v < 0x800" | "0x800 \<le> v" "v < 0x10000" | "0x10000 \<le> v" by linarith
  then show ?thesis
  proof cases
    case 1
    then have d: "v div 64 < 32" by simp
    then have "(0xC0 + v div 64) mod 32 = v div 64" using mod_mult_self4 [of 32 6 "v div 64"] by simp
    moreover have "utf8_numbers v = [0xC0 + v div 64, 0x80 + v mod 64]"
      using 1 assms by (simp add: utf8_numbers_def)
    ultimately show ?thesis using d m w by (simp add: leading_ones_def lt)
  next
    case 2
    then have d: "v div 4096 < 16" by simp
    then have "(0xE0 + v div 4096) mod 16 = v div 4096" using mod_mult_self4 [of 16 14 "v div 4096"] by simp
    moreover have "utf8_numbers v = [0xE0 + v div 4096, 0x80 + v div 64 mod 64, 0x80 + v mod 64]"
      using 2 assms by (simp add: utf8_numbers_def)
    ultimately show ?thesis using d m w by (simp add: leading_ones_def lt)
  next
    case 3
    then have d: "v div 262144 < 5" using assms(2) by simp
    then have "(0xF0 + v div 262144) mod 8 = v div 262144" using mod_mult_self4 [of 8 30 "v div 262144"] by simp
    moreover have "utf8_numbers v = [0xF0 + v div 262144, 0x80 + v div 4096 mod 64, 0x80 + v div 64 mod 64, 0x80 + v mod 64]"
      using 3 assms by (simp add: utf8_numbers_def)
    ultimately show ?thesis using d m w by (simp add: leading_ones_def lt)
  qed
qed

lemma utf8_ascii: "v < 0x80 \<Longrightarrow> utf8 v = [of_nat v]"
  by (simp add: utf8_def)

lemma utf8_high:
  assumes "0x80 \<le> v" and "scalar v"
  shows "\<exists>b bs. utf8 v = b # bs \<and> leading_ones (unat b) = Suc (length bs) \<and> 1 \<le> length bs \<and> length bs \<le> 3 \<and>
    (\<forall>c \<in> set (b # bs). 0x80 \<le> unat c) \<and> utf8_value (unat b # map unat bs) = Some v"
proof -
  note high = utf8_numbers_high [OF assms(1)]
  have n: "\<forall>n \<in> set (utf8_numbers v). 0x80 \<le> n \<and> n < 256" and l: "2 \<le> length (utf8_numbers v)"
    using high assms(2) by (simp_all add: scalar_def)
  then obtain m ns where ns: "utf8_numbers v = m # ns" by (cases "utf8_numbers v") auto
  have again: "map unat (map of_nat ks :: byte list) = ks" if "\<forall>n \<in> set ks. n < 256" for ks
    using that by (induction ks) (simp_all add: unat_octet)
  have m: "unat (of_nat m :: byte) = m" and b: "map unat (map of_nat ns :: byte list) = ns"
    using n ns again [of ns] by (auto simp: unat_octet)
  have "utf8_value (m # ns) = Some v"
    using high assms(2) ns utf8_numbers [of v] by (simp add: utf8_value_def scalar_def Let_def)
  moreover have "0x80 \<le> unat c" if "c \<in> set (map of_nat ns :: byte list)" for c
    using that n ns by (auto simp: unat_octet)
  ultimately show ?thesis
    using high n assms(2) ns m b utf8_numbers [of v] by (simp add: scalar_def)
qed

lemma decode_utf8:
  assumes "scalar v"
  shows "decode_uri (concat (map escape_form (utf8 v)) @ cs) = map_option ((@) (utf16 v)) (decode_uri cs)"
proof (cases "v < 0x80")
  case True
  then have "unat (of_nat v :: byte) = v" by (simp add: unat_octet)
  moreover from this True have "utf16 v = [ucast (of_nat v :: byte)]"
    by (simp add: utf16_def unit_eq_iff unat_unit unat_wide)
  moreover have "(@) [c] = (#) c" for c :: "16 word" by auto
  ultimately show ?thesis using True decode_ascii [of "of_nat v" cs] by (simp add: utf8_ascii)
next
  case False
  then have "0x80 \<le> v" by simp
  then obtain b bs where b: "utf8 v = b # bs" "leading_ones (unat b) = Suc (length bs)" "1 \<le> length bs" "length bs \<le> 3"
    "\<forall>c \<in> set (b # bs). 0x80 \<le> unat c" "utf8_value (unat b # map unat bs) = Some v"
    using utf8_high [OF _ assms] by blast
  then have e: "escape_form b = percent_byte b" "map escape_form bs = map percent_byte bs"
    using escape_high by simp_all
  obtain h l where p: "percent_byte b = [0x25, h, l]" "\<And>cs. hex_run 2 0 (h # l # cs) = Some (unat b)"
    using percent_split [of b] by blast
  define R where "R = concat (map percent_byte bs) @ cs"
  have "drop (3 * length bs) R = cs"
    unfolding R_def by (simp flip: length_percents)
  then have "drop (3 * Suc (length bs) - 1) (h # l # R) = cs" by simp
  moreover have "octets (length bs) R = Some (map unat bs)" unfolding R_def by (rule octets_percent)
  moreover have "concat (map escape_form (utf8 v)) @ cs = 0x25 # h # l # R"
    by (simp add: b(1) e p(1) R_def)
  moreover have "bs \<noteq> []" using b(3) by auto
  ultimately show ?thesis using b(2,4,6) p(2) by (simp add: Let_def)
qed

lemma decode_complete: "list_all scalar cps \<Longrightarrow>
    decode_uri (concat (map escape_form (concat (map utf8 cps)))) = Some (concat (map utf16 cps))"
  by (induction cps) (simp_all add: decode_utf8)

lemma decode_sound:
  "decode_uri (concat (map escape_form bs)) = Some s \<Longrightarrow>
    \<exists>cps. list_all scalar cps \<and> bs = concat (map utf8 cps) \<and> s = concat (map utf16 cps)"
proof (induction "length bs" arbitrary: bs s rule: less_induct)
  case less
  show ?case
  proof (cases bs)
    case Nil
    with less.prems show ?thesis by (intro exI [of _ "[]"]) simp
  next
    case (Cons b bs')
    show ?thesis
    proof (cases "unat b < 0x80")
      case True
      then obtain s' where s: "decode_uri (concat (map escape_form bs')) = Some s'" "s = ucast b # s'"
        using less.prems Cons decode_ascii [of b "concat (map escape_form bs')"] by auto
      then obtain cps where "list_all scalar cps \<and> bs' = concat (map utf8 cps) \<and> s' = concat (map utf16 cps)"
        using less.hyps [of bs' s'] Cons by auto
      moreover have "utf8 (unat b) = [b]" "utf16 (unat b) = [ucast b]" "scalar (unat b)"
        using True by (simp_all add: utf8_ascii utf16_def unit_eq_iff unat_unit unat_wide scalar_def)
      ultimately show ?thesis using Cons s(2) by (intro exI [of _ "unat b # cps"]) simp
    next
      case False
      then have e: "escape_form b = percent_byte b" by (intro escape_high) simp
      obtain h l where p: "percent_byte b = [0x25, h, l]" "\<And>cs. hex_run 2 0 (h # l # cs) = Some (unat b)"
        using percent_split [of b] by blast
      define n where "n = leading_ones (unat b)"
      have n0: "n \<noteq> 0" using False by (simp add: n_def leading_ones_def)
      define R where "R = concat (map escape_form bs')"
      have run: "decode_uri (0x25 # h # l # R) = Some s" using less.prems Cons e p(1) by (simp add: R_def)
      have dr: "drop (3 * n - 1) (h # l # R) = drop (3 * (n - 1)) R" using n0 by (cases n) simp_all
      obtain os v s' where o: "n \<noteq> 1" "octets (n - 1) (concat (map escape_form bs')) = Some os"
        "utf8_value (unat b # os) = Some v" "decode_uri (drop (3 * (n - 1)) (concat (map escape_form bs'))) = Some s'"
        "s = utf16 v @ s'"
        using run p(2) n0 dr
        by (auto simp: Let_def simp flip: n_def R_def split: if_splits option.splits)
      note os = octets_escaped [OF o(2)]
      have "\<exists>cps. list_all scalar cps \<and> drop (n - 1) bs' = concat (map utf8 cps) \<and> s' = concat (map utf16 cps)"
        using o(4) os Cons by (intro less.hyps) simp_all
      then obtain cps where c: "list_all scalar cps" "drop (n - 1) bs' = concat (map utf8 cps)" "s' = concat (map utf16 cps)"
        by blast
      have v: "scalar v" "utf8 v = b # take (n - 1) bs'"
        using o(3) os by (auto simp: utf8_value_def Let_def comp_def split: if_splits)
      have "bs = utf8 v @ concat (map utf8 cps)" using Cons v(2) by (simp flip: c(2))
      with c v(1) o(5) show ?thesis by (intro exI [of _ "v # cps"]) simp
    qed
  qed
qed

subsection \<open>The encoder\<close>

lemma stringify_iff: "Utf8_stringify a = Some s \<longleftrightarrow>
    (\<exists>cps. list_all scalar cps \<and> bytes_of a = concat (map utf8 cps) \<and> s = concat (map utf16 cps))"
  unfolding Utf8_stringify_def char_units_bytes escape_bytes
  using decode_complete decode_sound [of "bytes_of a" s] by auto

lemma parse_form: "Utf8_parse s = map_option (\<lambda>cps. latin1_parse (unit_chars (map ucast (concat (map utf8 cps))))) (code_points s)"
  by (simp add: Utf8_parse_def encode_uri_form unescape_forms option.map_comp comp_def)

lemma parse_holds:
  "Utf8_parse s = Some a \<Longrightarrow> \<exists>cps. code_points s = Some cps \<and> holds a (concat (map utf8 cps))"
  using latin1_units by (auto simp: parse_form)

text \<open>
  C27. The encoder is UTF-8. A string is accepted exactly if its surrogates are paired, and then becomes
  the UTF-8 bytes of its code points, from which it is read back; bytes are accepted exactly if they are
  the well-formed UTF-8 of some code points, overlong forms and surrogates refused, and the string read
  from them is encoded as the same bytes.
\<close>

theorem utf8_roundtrip:
  "(case code_points s of None \<Rightarrow> Utf8_parse s = None
    | Some cps \<Rightarrow> (\<exists>a. Utf8_parse s = Some a \<and> holds a (concat (map utf8 cps)) \<and> Utf8_stringify a = Some s)) \<and>
   (case Utf8_stringify w of None \<Rightarrow> \<not> (\<exists>cps. list_all scalar cps \<and> bytes_of w = concat (map utf8 cps))
    | Some t \<Rightarrow> (\<exists>a. Utf8_parse t = Some a \<and> bytes_of a = bytes_of w))"
proof (intro conjI)
  show "case code_points s of None \<Rightarrow> Utf8_parse s = None
    | Some cps \<Rightarrow> (\<exists>a. Utf8_parse s = Some a \<and> holds a (concat (map utf8 cps)) \<and> Utf8_stringify a = Some s)"
  proof (cases "code_points s")
    case (Some cps)
    then obtain a where a: "Utf8_parse s = Some a" "holds a (concat (map utf8 cps))"
      using parse_form [of s] parse_holds [of s] by fastforce
    moreover have "Utf8_stringify a = Some s"
      using code_points_sound [OF Some] holds_bytes_of [OF a(2)] by (auto simp: stringify_iff)
    ultimately show ?thesis using Some by simp
  qed (simp add: parse_form)
  show "case Utf8_stringify w of None \<Rightarrow> \<not> (\<exists>cps. list_all scalar cps \<and> bytes_of w = concat (map utf8 cps))
    | Some t \<Rightarrow> (\<exists>a. Utf8_parse t = Some a \<and> bytes_of a = bytes_of w)"
  proof (cases "Utf8_stringify w")
    case None
    then show ?thesis using stringify_iff [of w] by auto
  next
    case (Some t)
    then obtain cps where c: "list_all scalar cps" "bytes_of w = concat (map utf8 cps)" "t = concat (map utf16 cps)"
      by (auto simp: stringify_iff)
    then have "code_points t = Some cps" by (simp add: code_points_complete)
    with parse_form [of t] parse_holds [of t] c(2) Some show ?thesis
      by (auto dest: holds_bytes_of)
  qed
qed

subsection \<open>The digest of a string\<close>

text \<open>
  \<open>_append\<close> encodes a string first, and \<open>finalize\<close> leaves an empty one out, because it is falsy. The
  exception of an unpaired surrogate leaves the function.
\<close>

definition append_text :: "js_text \<Rightarrow> hasher \<Rightarrow> hasher option" where
  "append_text s h = map_option (\<lambda>a. append_data a h) (Utf8_parse s)"

definition MD5_text :: "(rat \<Rightarrow> rat) \<Rightarrow> js_text \<Rightarrow> word_array option" where
  "MD5_text sine s =
     (if s = [] then Some (finalize_hasher (doFinalize sine) None create_md5)
      else map_option (doFinalize sine) (append_text s create_md5))"

text \<open>
  C28. The MD5 digest of a string is that of RFC 1321 of its UTF-8 bytes, and exists exactly if the
  surrogates of the string are paired.
\<close>

theorem md5_of_text:
  assumes "\<forall>cps. code_points s = Some cps \<longrightarrow> 8 * length (concat (map utf8 cps)) + 64 < 2 ^ 31"
  shows "map_option bytes_of (MD5_text sine s) =
    map_option (\<lambda>cps. rfc_md5 sine (concat (map utf8 cps))) (code_points s)"
proof (cases "s = []")
  case True
  have "bytes_of (doFinalize sine create_md5) = rfc_md5 sine []"
    using absorbed_digest [OF absorbed_create, of sine] by simp
  with True show ?thesis by (simp add: MD5_text_def finalize_hasher_def)
next
  case False
  show ?thesis
  proof (cases "code_points s")
    case None
    with False show ?thesis by (simp add: MD5_text_def append_text_def parse_form)
  next
    case (Some cps)
    then obtain a where a: "Utf8_parse s = Some a" "holds a (concat (map utf8 cps))"
      using parse_form [of s] parse_holds [of s] by fastforce
    have "bytes_of (doFinalize sine (append_data a create_md5)) = rfc_md5 sine (concat (map utf8 cps))"
      using absorbed_digest [OF md5.absorbed_append [OF absorbed_create a(2)], of sine] assms Some by simp
    with False Some a(1) show ?thesis by (simp add: MD5_text_def append_text_def)
  qed
qed

theorem md5_of_text_witness:
  "map_option bytes_of (MD5_text (\<lambda>x. 1 / x) [0xE4]) = Some (rfc_md5 (\<lambda>x. 1 / x) [0xC3, 0xA4])"
proof -
  have cp: "code_points [0xE4] = Some [0xE4]" by (simp add: is_trail_def is_lead_def)
  have u: "utf8 0xE4 = [0xC3, 0xA4]" by (simp add: utf8_def)
  show ?thesis using md5_of_text [of "[0xE4]" "\<lambda>x. 1 / x"] by (simp add: cp u del: code_points.simps)
qed

end
