(* ===== verification/Spec2Isabelle.thy ===== *)
theory Spec2Isabelle
  imports Rom_Props Dfu_Flash Taskbanner_Props Gps_Props Dash_Props System_Content Select_Loop
    Run_Props Rflog_Props Stacks_Props Stacklazy Daemoncfg Audio_Props
    RNode_Port_Props Flasher_Props Flasher_Table Forms_Props Demo_Props
    Crypto_Random Crypto_Sharing Utf8_Props
begin

text \<open>
  LoRaHAM Pi Control, the JavaScript that runs in the browser.

  \<^bold>\<open>The program.\<close> \<open>lhpc\<close> installs and runs LoRa stacks on a Raspberry Pi and serves a console. Its
  JavaScript has two parts. The console scripts under \<open>src/lhpc/adapters/web/static\<close> enhance pages that
  the server renders: they poll JSON endpoints and write the answers into the page, keep small state in
  the browser's storage and guard what a form may post. The scripts of the RNode flasher under
  \<open>src/lhpc/data/meshchat-dist/rnode-flasher/js\<close> talk to a radio board over a serial port: KISS frames,
  the RNode commands, the EEPROM with its MD5 checksum, and the firmware upload to an nRF52 boot
  loader; where the browser has no Web Serial, a polyfill makes the port from a USB device. Beside them,
  \<open>assets/js/codec2-emscripten\<close> records audio for the messenger, and \<open>src/demo/web/boot.js\<close> runs the
  console inside the browser, against the Python code compiled for it. The scripts share no state with
  each other; they meet in the documents they enhance, in the endpoints and, for the flasher, in the
  port and the digest.

  \<^bold>\<open>How it is modelled.\<close> A component's state is a record, its data are records and datatypes, and each
  function, handler or continuation of a promise is a definition on them, composed the way the code
  composes it. What may happen and in which order - timers, answers, clicks, page events - is an
  inductive step relation, so the theorems speak of every interleaving. Errors are values of an option
  or of a result type. A JavaScript number is an integer where the code only counts, a rational with
  explicit rounding to IEEE doubles where it computes (\<open>fl\<close>, \<open>number\<close> in JsNum), and a 32-bit word under
  the bitwise operators (JsInt). A string is a list of characters, with text outside ASCII written out
  as UTF-8 bytes. A document is the list of the fields a script reads and writes, except for the
  sections of the stacks page, where the tree of elements itself is modelled (Dom).

  \<^bold>\<open>Theories.\<close>
    \<^item> Prelude, JsInt, JsStr, JsNum, JsDate, Js_Sort: lists read by index, rolling windows, blocks and
      chunked consumers (locale \<open>chunk_consumer\<close>); bitwise operators; decimal numerals; doubles; the
      calendar; stable sorting under a comparator (locale \<open>consistent_comparator\<close>).
    \<^item> Poller: the contract of a polling loop (locales \<open>poller\<close>, \<open>driven_poller\<close>), interpreted by the task
      banner, the dashboard, the GPS monitor and the system box.
    \<^item> Kiss, RNode, RNode_Session: the framing of \<open>rnode.js\<close>, its commands, and the table of pending
      requests. The encoder and decoder are interpreted as a \<open>byte_stuffing\<close> code and the read loop as a
      \<open>chunk_consumer\<close> and a framed reader: whatever the chunks of the port, the loop delivers the frames
      that were sent, and a request gets the first response to its command.
    \<^item> WebSerial, WebSerial_Props, WebSerial_Session: \<open>web-serial-polyfill/dist/serial.js\<close>, a port over a
      USB device that is an argument. An operation is a function on the port, what happens in which order
      a list of operations: every call is well formed, the port keeps its shape, a failed opening closes
      the device, the line coding reads back, and the bytes the read loop of \<open>rnode.js\<close> gets over the
      polyfill are those of the board.
    \<^item> RNode_Port, RNode_Port_Props: a session of \<open>rnode.js\<close> on a port of the polyfill, with the locks of its
      reader and writer, the read loop, the writes and \<open>close\<close>: a request is answered over any interleaving
      of reads and USB transfers, the locks are given back, a closed session can be opened again.
    \<^item> Word_Array, Hasher, Md5_Spec, Md5, Md5_Props: \<open>core.js\<close> and \<open>md5.js\<close> of crypto-js against RFC 1321.
      The buffered hasher is a locale, \<open>block_hash\<close>, that the MD5 block function interprets; the final
      theorem holds for any split of the message into updates. Its bound, a message below \<open>2 ^ 28 - 8\<close>
      bytes, keeps the code's signed 32-bit bit counts exact. Crypto_Random holds the remaining operation of
      the word arrays, \<open>random\<close>.
    \<^item> Utf8, Utf8_Props: the UTF-8 encoder of \<open>core.js\<close> on the code units of a string, with the four functions
      of the language it goes through: it accepts exactly the strings without lone surrogates, reads back
      what it writes, and the digest of a string is that of its UTF-8 bytes.
    \<^item> Js_Object, Crypto_Base, Crypto_Base_Props, Crypto_Classes: the objects of the script as a store, with
      prototypes and own properties, and \<open>Base\<close> of \<open>core.js\<close> on it. What the library and its users do with
      \<open>Base\<close> is the step relation \<open>crypto_step\<close>; \<open>crypto_ok\<close> is its invariant. Constructor calls end in one of
      the library's constructors, and a clone inherits from what it was cloned from.
    \<^item> Crypto_Heap, Crypto_Heap_Props, Crypto_Load, Crypto_Sharing: word arrays and the MD5 hasher as such
      objects, whose arrays are shared by reference and changed in place. \<open>words_rep\<close> and \<open>hasher_rep\<close> say which
      record of Word_Array or Hasher an object represents, \<open>advance\<close> what a run leaves alone; every operation
      refines the one on records. The modules define the classes as intended, and a hasher and its clone,
      updated in any interleaving, compute the digests of their own messages.
    \<^item> Rom, Rom_Props: the EEPROM image of \<open>rnode.js\<close>, its fields and \<open>parse\<close>: a locked image is reported as
      provisioned exactly if its checksum is the digest of its info bytes.
    \<^item> Dfu, Dfu_Props, Dfu_Transfer, Dfu_Flash: \<open>nrf52_dfu_flasher.js\<close>. The checksum is CRC-16/CCITT, a
      packet is accepted by an independent receiver with its sequence number, and a flashing delivers the
      firmware, or fails without having sent anything when the port or a file is missing.
    \<^item> Flasher, Flasher_Props: the page of the flasher, \<open>rnode-flasher/index.html\<close>, whose handlers use the
      commands of RNode, the image of Rom and the transfer of Dfu. The board behind the connection is an
      argument (\<open>link\<close>) whose commands may fail and whose answers may never come: provisioning leaves a
      complete image or an unlocked board, and a board that is not provisioned gets no command.
    \<^item> Flasher_Table: the page's table of products and models, without the display names: any choice can be
      flashed, with files of the archive the page recommends.
    \<^item> Taskbanner, Gps, Dash and their \<open>_Props\<close>: \<open>taskbanner.js\<close>, \<open>gps.js\<close>, \<open>dash.js\<close>. One request at a time,
      timers only while they should run, no answer of an obsolete generation, one reload per attempt, no
      verdict that was not measured.
    \<^item> System_View, System_Apply, System_Poll, System_Props, System_Content: \<open>system.js\<close>, its numbers and
      graphs, the sections of one sample with their baselines, and the life cycle with the history kept in
      the storage.
    \<^item> Select, Select_Props, Select_Loop: the selection table of \<open>auto_install.js\<close>: what it checks and locks
      is the closure of the selection under the dependencies that are not ready, and its worklist loop,
      run one pass at a time, ends within as many passes as there are rows and dependencies.
    \<^item> Run_View, Run_Props: the run views of \<open>auto_install.js\<close> and \<open>hmac.js\<close>: the log windows as append-only
      copies, with the two ways they come to show a chunk twice.
    \<^item> Rflog, Rflog_Props: \<open>rflog.js\<close>: nothing decoded is kept or shown while Decrypt is off; the table is a
      stable ordering; the display choice survives a reload.
    \<^item> Dom, Stacks, Stacks_Props, Stacklazy: \<open>stacks_state.js\<close> and \<open>stacklazy.js\<close>: the accordions as an
      invariant over clicks, links, queued toggle events and timers; the keys of sections; one fetch and
      one insertion per body.
    \<^item> Daemoncfg: \<open>daemoncfg.js\<close>: one interval per window, and the rolling window of the socket.
    \<^item> Audio, Audio_Props: the audio worklet, the WAV encoder, the base 64 and codec wrappers and the
      recorder of \<open>codec2-emscripten\<close>.
    \<^item> Forms, Forms_Props: the six small scripts of the console, \<open>bandfilter.js\<close>, \<open>copy.js\<close>, \<open>dparams.js\<close>,
      \<open>logs.js\<close>, \<open>schemeauth.js\<close> and \<open>theme.js\<close>: the theme is the one a reload resolves, a form never posts a
      disabled access mode.
    \<^item> Demo_System, Demo_System_Props, Demo_Live, Demo, Demo_Props: \<open>boot.js\<close>. Its copies of the console's
      renderings are compared with the originals: the histories and graphs of the System box and the
      texts and the sky of the GPS monitor agree, and the points where they differ are stated.

  \<^bold>\<open>What is assumed.\<close> Code that is not in the repository is an argument: the browser's collation
  (\<open>localeCompare\<close>), the trigonometric functions, \<open>Math.random\<close>, the compiled codec2 and SoX programs, the USB device
  behind the polyfill, the board behind the flasher's page (\<open>honest\<close>: it stores the bytes of the write
  commands that go out and answers with its image), the esptool library, the Python bridge and the HTML parser of the demo. What a theorem needs
  of it, or of the server's answers, is among its premises: a collation is a consistent order, the plain
  endpoint of the RF log delivers nothing decoded, a run's log only grows, a device that was closed reports so. The browser storage
  is taken to work, where the scripts catch its failures, except for the theme and the demo. Requests may be answered in any order, late or never.

  \<^bold>\<open>Termination.\<close> No definition uses fuel: every loop is structural or carries a measure. The loops
  over frames, blocks and packets consume their input; the dependency loops of the selection table mark a
  row at each turn, of which there are finitely many; the way up from an element ends because a parent
  precedes its children. The chain of default initializers that a constructor call of crypto-js follows
  is a partial function; that it ends is the theorem \<open>construction_ends\<close>. For the dependency loop this is stated of the loop as the code runs it, with
  the number of passes (Select_Loop). Polling goes on for ever and is therefore a step relation, with the theorem
  that it never gets stuck.

  \<^bold>\<open>Not modelled.\<close> Scroll positions, focus and styling other than class names; the texts of fixed markup;
  the display names of the flasher's products; \<open>HmacMD5\<close>, which needs a file that is not in the repository;
  a configuration given to a hasher, which MD5 does not read; the loading of the demo's Python runtime; the compiled codec2 and SoX programs and the Vue, Tailwind, zip and esptool bundles, which are
  generated or third-party code; the MeshChat and MeshCore interfaces, which are minified builds of other
  projects; and everything on the server's side, which is Python.
\<close>

end
